(* ===== verification/Ordered_Map.thy ===== *)
theory Ordered_Map
  imports Prelude
begin

section \<open>Ordered maps\<close>

text \<open>
  \<open>BTreeMap<K, V>\<close> and \<open>BTreeSet<K>\<close>: strictly sorted association lists and lists. The
  locale states what the clients (JSON objects, the tool registry, the streamed tool calls,
  the backlink index, the file fingerprints) rely on; it is interpreted on the sorted
  association lists themselves.
\<close>

type_synonym ('k, 'v) btree_map = "('k \<times> 'v) list"

fun bt_insert :: "'k::linorder \<Rightarrow> 'v \<Rightarrow> ('k, 'v) btree_map \<Rightarrow> ('k, 'v) btree_map" where
  "bt_insert k v [] = [(k, v)]"
| "bt_insert k v ((a, b) # m) =
     (if k < a then (k, v) # (a, b) # m
      else if k = a then (k, v) # m
      else (a, b) # bt_insert k v m)"

definition bt_get :: "('k, 'v) btree_map \<Rightarrow> 'k \<Rightarrow> 'v option" where
  "bt_get m k = map_of m k"

definition bt_wf :: "('k::linorder, 'v) btree_map \<Rightarrow> bool" where
  "bt_wf m \<longleftrightarrow> sorted_wrt (<) (map fst m)"

definition bt_extend :: "('k::linorder, 'v) btree_map \<Rightarrow> ('k \<times> 'v) list \<Rightarrow> ('k, 'v) btree_map" where
  "bt_extend m kvs = fold (\<lambda>(k, v). bt_insert k v) kvs m"

fun bs_insert :: "'k::linorder \<Rightarrow> 'k list \<Rightarrow> 'k list" where
  "bs_insert k [] = [k]"
| "bs_insert k (a # s) =
     (if k < a then k # a # s else if k = a then a # s else a # bs_insert k s)"

definition bs_of_list :: "'k::linorder list \<Rightarrow> 'k list" where
  "bs_of_list ks = fold bs_insert ks []"

subsection \<open>The interface\<close>

locale ordered_map =
  fixes emp :: "'m"
    and ins :: "'k::linorder \<Rightarrow> 'v \<Rightarrow> 'm \<Rightarrow> 'm"
    and look :: "'m \<Rightarrow> 'k \<Rightarrow> 'v option"
    and entries :: "'m \<Rightarrow> ('k \<times> 'v) list"
    and inv :: "'m \<Rightarrow> bool"
  assumes look_emp: "look emp k = None"
    and look_ins: "look (ins k v m) k' = (if k' = k then Some v else look m k')"
    and inv_emp: "inv emp"
    and inv_ins: "inv m \<Longrightarrow> inv (ins k v m)"
    and entries_sorted: "inv m \<Longrightarrow> sorted_wrt (<) (map fst (entries m))"
    and entries_look: "inv m \<Longrightarrow> (k, v) \<in> set (entries m) \<longleftrightarrow> look m k = Some v"
begin

lemma inv_fold: "inv m \<Longrightarrow> inv (fold (\<lambda>(k, v). ins k v) kvs m)"
  by (induction kvs arbitrary: m) (auto intro: inv_ins)

lemma look_fold:
  "look (fold (\<lambda>(k, v). ins k v) kvs m) k =
     (case map_of (rev kvs) k of None \<Rightarrow> look m k | Some v \<Rightarrow> Some v)"
proof (induction kvs arbitrary: m)
  case Nil
  show ?case by simp
next
  case (Cons kv kvs)
  then show ?case
    by (cases kv) (auto simp: look_ins map_add_def split: option.splits)
qed

lemma entries_fold_from_emp:
  "(k, v) \<in> set (entries (fold (\<lambda>(k, v). ins k v) kvs emp)) \<longleftrightarrow> map_of (rev kvs) k = Some v"
  by (subst entries_look) (auto simp: look_fold look_emp intro!: inv_fold inv_emp split: option.splits)

lemma entries_unique:
  assumes "inv m" and "(k, v) \<in> set (entries m)" and "(k, v') \<in> set (entries m)"
  shows "v = v'"
  using assms by (simp add: entries_look)

end

subsection \<open>Sorted association lists implement it\<close>

lemma bt_get_Nil [simp]: "bt_get [] k = None"
  by (simp add: bt_get_def)

lemma bt_get_insert: "bt_get (bt_insert k v m) k' = (if k' = k then Some v else bt_get m k')"
  by (induction m) (auto simp: bt_get_def)

lemma bt_get_insert_same [simp]: "bt_get (bt_insert k v m) k = Some v"
  by (simp add: bt_get_insert)

lemma bt_get_insert_other [simp]: "k' \<noteq> k \<Longrightarrow> bt_get (bt_insert k v m) k' = bt_get m k'"
  by (simp add: bt_get_insert)

lemma fst_bt_insert: "fst ` set (bt_insert k v m) = insert k (fst ` set m)"
proof (induction m)
  case (Cons p m)
  then show ?case by (cases p) (simp add: insert_commute)
qed simp

lemma bt_wf_Nil [simp]: "bt_wf []"
  by (simp add: bt_wf_def)

lemma bt_wf_insert: "bt_wf m \<Longrightarrow> bt_wf (bt_insert k v m)"
proof (induction m)
  case Nil
  show ?case by (simp add: bt_wf_def)
next
  case (Cons p m)
  obtain a b where p: "p = (a, b)" by (cases p)
  from Cons.prems have wf: "bt_wf m" and lo: "\<forall>x \<in> fst ` set m. a < x"
    by (auto simp: bt_wf_def p)
  have "\<forall>x \<in> fst ` set (bt_insert k v m). a < x" if "a < k"
    using lo that by (auto simp: fst_bt_insert)
  with Cons.IH [OF wf] wf lo show ?case
    by (fastforce simp: bt_wf_def p)
qed

lemma bt_wf_entries:
  assumes "bt_wf m"
  shows "(k, v) \<in> set m \<longleftrightarrow> bt_get m k = Some v"
proof -
  from assms have "distinct (map fst m)"
    by (simp add: bt_wf_def strict_sorted_iff)
  then show ?thesis by (simp add: bt_get_def)
qed

interpretation bt: ordered_map "[]" bt_insert bt_get "\<lambda>m. m" bt_wf
  by unfold_locales (simp_all add: bt_get_insert bt_wf_insert bt_wf_entries, simp add: bt_wf_def)

lemma bt_wf_extend: "bt_wf m \<Longrightarrow> bt_wf (bt_extend m kvs)"
  unfolding bt_extend_def by (rule bt.inv_fold)

lemma bt_get_extend:
  "bt_get (bt_extend m kvs) k =
     (case map_of (rev kvs) k of None \<Rightarrow> bt_get m k | Some v \<Rightarrow> Some v)"
  unfolding bt_extend_def by (rule bt.look_fold)

text \<open>Two well-formed maps with the same lookups are the same list: the order of the
  insertions does not show.\<close>

lemma sorted_assoc_unique:
  assumes "sorted_wrt (<) (map fst m)" and "sorted_wrt (<) (map fst n)"
    and "set m = set (n :: ('k::linorder \<times> 'v) list)"
  shows "m = n"
proof -
  have keys: "map fst m = map fst n"
    using assms by (metis list.set_map strict_sorted_equal)
  then have len: "length m = length n"
    by (metis length_map)
  have inj: "inj_on fst (set n)"
    using assms(2) by (simp add: strict_sorted_iff distinct_map)
  show ?thesis
  proof (rule nth_equalityI [OF len])
    fix i
    assume i: "i < length m"
    have "fst (m ! i) = fst (n ! i)"
      using keys i len by (metis nth_map)
    moreover have "m ! i \<in> set n" "n ! i \<in> set n"
      using i len assms(3) nth_mem [of i m] nth_mem [of i n] by simp_all
    ultimately show "m ! i = n ! i"
      using inj by (simp add: inj_onD)
  qed
qed

lemma bt_ext:
  assumes "bt_wf m" "bt_wf n" and "\<And>k. bt_get m k = bt_get n k"
  shows "m = n"
proof (rule sorted_assoc_unique)
  show "sorted_wrt (<) (map fst m)" "sorted_wrt (<) (map fst n)"
    using assms(1,2) by (simp_all add: bt_wf_def)
  show "set m = set n"
    using assms bt_wf_entries by (metis subrelI subset_antisym)
qed

subsection \<open>Ordered sets\<close>

lemma set_bs_insert [simp]: "set (bs_insert k s) = insert k (set s)"
  by (induction s) auto

lemma sorted_bs_insert: "sorted_wrt (<) s \<Longrightarrow> sorted_wrt (<) (bs_insert k s)"
  by (induction s) auto

lemma bs_fold_set: "set (fold bs_insert ks s) = set ks \<union> set s"
  by (induction ks arbitrary: s) auto

lemma bs_fold_sorted: "sorted_wrt (<) s \<Longrightarrow> sorted_wrt (<) (fold bs_insert ks s)"
  by (induction ks arbitrary: s) (auto intro: sorted_bs_insert)

lemma set_bs_of_list [simp]: "set (bs_of_list ks) = set ks"
  by (simp add: bs_of_list_def bs_fold_set)

lemma sorted_bs_of_list: "sorted_wrt (<) (bs_of_list ks)"
  by (simp add: bs_of_list_def bs_fold_sorted)

end
