(* ===== verification/Json.thy ===== *)
theory Json
  imports Ordered_Map
begin

section \<open>JSON values and the serde interface\<close>

text \<open>
  \<open>serde_json::Value\<close> as a datatype; its object is a \<open>BTreeMap\<close>, so the keys are sorted. The
  crates \<open>serde\<close> and \<open>serde_json\<close> are not part of the repository: the text of a value, the
  parser of a text and the wording of a decoding error are the fields of the record
  \<open>serde_json\<close>, an argument of every definition that uses them. What a derived
  \<open>Deserialize\<close> accepts is fixed by the struct declarations of the sources (field names,
  \<open>Option\<close>, \<open>#[serde(default)]\<close>), and the decoders below spell it out: fields come from an
  object by name or from an array by position, unknown fields are ignored.
\<close>

datatype json_num = PosInt nat | NegInt int | FloatBits "64 word"

datatype json =
    JNull
  | JBool bool
  | JNum json_num
  | JStr string
  | JArr "json list"
  | JObj "(string \<times> json) list"

datatype de_error =
    MissingField string
  | InvalidType json string
  | InvalidValue json string
  | InvalidLength nat string
  | UnknownVariant string "string list"

record serde_json =
  ser_str :: "json \<Rightarrow> string + string"
  ser_pretty :: "json \<Rightarrow> string + string"
  de_str :: "string \<Rightarrow> string + json"
  de_msg :: "de_error \<Rightarrow> string"

text \<open>One instance, for evaluating examples: it prints only strings and parses nothing.\<close>

definition sample_serde :: serde_json where
  "sample_serde =
     \<lparr>ser_str = (\<lambda>j. Inr (case j of JStr s \<Rightarrow> s | _ \<Rightarrow> ''{}'')),
      ser_pretty = (\<lambda>j. Inr (case j of JStr s \<Rightarrow> s | _ \<Rightarrow> ''{}'')),
      de_str = (\<lambda>s. Inl ''expected value''), de_msg = (\<lambda>e. ''invalid'')\<rparr>"

subsection \<open>Accessors\<close>

definition json_obj :: "(string \<times> json) list \<Rightarrow> json" where
  "json_obj kvs = JObj (bt_extend [] kvs)"

fun json_get :: "json \<Rightarrow> string \<Rightarrow> json option" where
  "json_get (JObj m) k = bt_get m k"
| "json_get _ k = None"

fun json_set :: "json \<Rightarrow> string \<Rightarrow> json \<Rightarrow> json" where
  "json_set (JObj m) k v = JObj (bt_insert k v m)"
| "json_set j k v = j"

fun as_str :: "json \<Rightarrow> string option" where
  "as_str (JStr s) = Some s"
| "as_str _ = None"

fun as_bool :: "json \<Rightarrow> bool option" where
  "as_bool (JBool b) = Some b"
| "as_bool _ = None"

fun is_object :: "json \<Rightarrow> bool" where
  "is_object (JObj m) = True"
| "is_object _ = False"

definition json_nat :: "nat \<Rightarrow> json" where
  "json_nat n = JNum (PosInt n)"

definition json_opt_str :: "string option \<Rightarrow> json" where
  "json_opt_str v = (case v of None \<Rightarrow> JNull | Some s \<Rightarrow> JStr s)"

text \<open>Values whose objects are well-formed maps, which every \<open>Value\<close> is.\<close>

fun json_wf :: "json \<Rightarrow> bool" where
  "json_wf (JArr vs) = list_all json_wf vs"
| "json_wf (JObj m) = (bt_wf m \<and> list_all (\<lambda>kv. json_wf (snd kv)) m)"
| "json_wf _ = True"

lemma json_get_obj:
  "json_get (json_obj kvs) k = map_of (rev kvs) k"
  by (simp add: json_obj_def bt_get_extend split: option.splits)

lemma json_get_set:
  "is_object j \<Longrightarrow> json_get (json_set j k v) k' = (if k' = k then Some v else json_get j k')"
  by (cases j) (simp_all add: bt_get_insert)

lemma is_object_obj [simp]: "is_object (json_obj kvs)"
  by (simp add: json_obj_def)

lemma is_object_set [simp]: "is_object (json_set j k v) = is_object j"
  by (cases j) simp_all

subsection \<open>Decoding a struct\<close>

text \<open>Where the fields of a struct come from: the entries of an object, or the elements of an
  array paired with the field names in declaration order.\<close>

datatype field_source = FromMap "(string \<times> json) list" | FromSeq "(string \<times> json) list"

definition struct_source :: "string \<Rightarrow> string list \<Rightarrow> json \<Rightarrow> de_error + field_source" where
  "struct_source what names j =
     (case j of
        JObj m \<Rightarrow> Inr (FromMap m)
      | JArr vs \<Rightarrow> (if length vs \<le> length names then Inr (FromSeq (zip names vs))
                  else Inl (InvalidLength (length vs) what))
      | _ \<Rightarrow> Inl (InvalidType j what))"

definition dec_string :: "json \<Rightarrow> de_error + string" where
  "dec_string j = (case j of JStr s \<Rightarrow> Inr s | _ \<Rightarrow> Inl (InvalidType j ''a string''))"

definition dec_bool :: "json \<Rightarrow> de_error + bool" where
  "dec_bool j = (case j of JBool b \<Rightarrow> Inr b | _ \<Rightarrow> Inl (InvalidType j ''a boolean''))"

definition dec_value :: "json \<Rightarrow> de_error + json" where
  "dec_value j = Inr j"

definition dec_unsigned :: "int \<Rightarrow> string \<Rightarrow> json \<Rightarrow> de_error + nat" where
  "dec_unsigned mx what j =
     (case j of
        JNum (PosInt n) \<Rightarrow> (if int n \<le> mx then Inr n else Inl (InvalidValue j what))
      | JNum (NegInt i) \<Rightarrow> Inl (InvalidValue j what)
      | _ \<Rightarrow> Inl (InvalidType j what))"

definition usize_max :: int where
  "usize_max = 18446744073709551615"

definition u32_max :: int where
  "u32_max = 4294967295"

definition dec_usize :: "json \<Rightarrow> de_error + nat" where
  "dec_usize = dec_unsigned usize_max ''usize''"

definition dec_u32 :: "json \<Rightarrow> de_error + nat" where
  "dec_u32 = dec_unsigned u32_max ''u32''"

definition dec_option :: "(json \<Rightarrow> de_error + 'a) \<Rightarrow> json \<Rightarrow> de_error + 'a option" where
  "dec_option d j =
     (case j of JNull \<Rightarrow> Inr None | _ \<Rightarrow> and_then (d j) (\<lambda>x. Inr (Some x)))"

definition dec_vec :: "(json \<Rightarrow> de_error + 'a) \<Rightarrow> json \<Rightarrow> de_error + 'a list" where
  "dec_vec d j =
     (case j of JArr vs \<Rightarrow> collect_results d vs | _ \<Rightarrow> Inl (InvalidType j ''a sequence''))"

definition dec_map :: "json \<Rightarrow> de_error + (string \<times> json) list" where
  "dec_map j = (case j of JObj m \<Rightarrow> Inr m | _ \<Rightarrow> Inl (InvalidType j ''a map''))"

fun source_get :: "field_source \<Rightarrow> string \<Rightarrow> json option" where
  "source_get (FromMap m) k = map_of m k"
| "source_get (FromSeq m) k = map_of m k"

fun missing_error :: "field_source \<Rightarrow> string \<Rightarrow> de_error" where
  "missing_error (FromMap m) k = MissingField k"
| "missing_error (FromSeq m) k = InvalidLength (length m) k"

text \<open>A field without a default; an \<open>Option\<close> field without one (absent from an object it is
  \<open>None\<close>); a field marked \<open>#[serde(default)]\<close>.\<close>

definition req_field :: "field_source \<Rightarrow> string \<Rightarrow> (json \<Rightarrow> de_error + 'a) \<Rightarrow> de_error + 'a" where
  "req_field src k d =
     (case source_get src k of Some j \<Rightarrow> d j | None \<Rightarrow> Inl (missing_error src k))"

definition opt_field :: "field_source \<Rightarrow> string \<Rightarrow> (json \<Rightarrow> de_error + 'a) \<Rightarrow> de_error + 'a option" where
  "opt_field src k d =
     (case source_get src k of
        Some j \<Rightarrow> dec_option d j
      | None \<Rightarrow> (case src of FromMap m \<Rightarrow> Inr None | FromSeq m \<Rightarrow> Inl (missing_error src k)))"

definition default_field ::
    "field_source \<Rightarrow> string \<Rightarrow> 'a \<Rightarrow> (json \<Rightarrow> de_error + 'a) \<Rightarrow> de_error + 'a" where
  "default_field src k v d = (case source_get src k of Some j \<Rightarrow> d j | None \<Rightarrow> Inr v)"

text \<open>An object's entries are visited in key order, so the first ill-typed known field is the
  error that is reported, before any missing field.\<close>

fun first_bad_entry :: "(string \<Rightarrow> json \<Rightarrow> de_error option) \<Rightarrow> (string \<times> json) list \<Rightarrow> de_error option" where
  "first_bad_entry chk [] = None"
| "first_bad_entry chk ((k, v) # m) =
     (case chk k v of Some e \<Rightarrow> Some e | None \<Rightarrow> first_bad_entry chk m)"

definition visit_entries ::
    "(string \<Rightarrow> json \<Rightarrow> de_error option) \<Rightarrow> field_source \<Rightarrow> de_error + unit" where
  "visit_entries chk src =
     (case src of
        FromSeq m \<Rightarrow> Inr ()
      | FromMap m \<Rightarrow> (case first_bad_entry chk m of Some e \<Rightarrow> Inl e | None \<Rightarrow> Inr ()))"

definition error_of :: "'e + 'a \<Rightarrow> 'e option" where
  "error_of r = (case r of Inl e \<Rightarrow> Some e | Inr x \<Rightarrow> None)"

lemmas decode_defs =
  struct_source_def dec_string_def dec_bool_def dec_value_def dec_unsigned_def dec_usize_def
  dec_u32_def dec_option_def dec_vec_def dec_map_def req_field_def opt_field_def
  default_field_def visit_entries_def error_of_def

lemma dec_unsigned_bound: "dec_unsigned mx w j = Inr n \<Longrightarrow> int n \<le> mx"
  by (auto simp: dec_unsigned_def split: json.splits json_num.splits if_splits)

lemma dec_option_null [simp]: "dec_option d JNull = Inr None"
  by (simp add: dec_option_def)

end
