(* ===== verification/Protocol.thy ===== *)
theory Protocol
  imports Json
begin

section \<open>Errors, protocol events and the session\<close>

text \<open>
  \<open>reshape-core/src/error.rs\<close>, \<open>protocol.rs\<close> and \<open>session/mod.rs\<close>. A \<open>Uuid\<close> is its
  hyphenated text and a timestamp an integer; both are drawn by the environment, so
  \<open>for_session\<close> takes the drawn values as an argument. \<open>turn_index\<close> keeps its width of 64
  bits. The lemmas show that the turn states only move forward and that \<open>turn_index\<close> counts
  the inputs of the history.
\<close>

subsection \<open>Errors\<close>

datatype io_error =
    NotFound
  | NotADirectory
  | IsADirectory
  | AlreadyExists
  | TooManyLinks
  | InvalidInput
  | InvalidData
  | BrokenPipe string
  | OtherIo string

definition io_text :: "io_error \<Rightarrow> string" where
  "io_text e = (case e of
      NotFound \<Rightarrow> ''No such file or directory (os error 2)''
    | NotADirectory \<Rightarrow> ''Not a directory (os error 20)''
    | IsADirectory \<Rightarrow> ''Is a directory (os error 21)''
    | AlreadyExists \<Rightarrow> ''File exists (os error 17)''
    | TooManyLinks \<Rightarrow> ''Too many levels of symbolic links (os error 40)''
    | InvalidInput \<Rightarrow> ''file name contained an unexpected NUL byte''
    | InvalidData \<Rightarrow> ''stream did not contain valid UTF-8''
    | BrokenPipe s \<Rightarrow> s
    | OtherIo s \<Rightarrow> s)"

datatype reshape_error =
    WorkspaceMissing string
  | WorkspaceNotDirectory string
  | WorkspacePathEscapesRoot string
  | UnsupportedWorkspaceFile string
  | InvalidSessionKey string string
  | UnknownTool string
  | ToolBudgetExceeded string
  | InvalidStateTransition string string
  | Provider string
  | Config string
  | Serialization string
  | Io io_error
  | Notify string

fun error_text :: "reshape_error \<Rightarrow> string" where
  "error_text (WorkspaceMissing p) = ''workspace does not exist: '' @ p"
| "error_text (WorkspaceNotDirectory p) = ''workspace path is not a directory: '' @ p"
| "error_text (WorkspacePathEscapesRoot p) = ''workspace path escapes configured root: '' @ p"
| "error_text (UnsupportedWorkspaceFile p) = ''unsupported workspace file type: '' @ p"
| "error_text (InvalidSessionKey e a) = ''invalid session key: expected '' @ e @ '', got '' @ a"
| "error_text (UnknownTool n) = ''unknown tool: '' @ n"
| "error_text (ToolBudgetExceeded m) = ''tool budget exceeded: '' @ m"
| "error_text (InvalidStateTransition f t) = ''invalid state transition from '' @ f @ '' to '' @ t"
| "error_text (Provider m) = ''provider error: '' @ m"
| "error_text (Config m) = ''configuration error: '' @ m"
| "error_text (Serialization m) = ''serialization error: '' @ m"
| "error_text (Io e) = ''io error: '' @ io_text e"
| "error_text (Notify m) = ''notify error: '' @ m"

type_synonym 'a result = "reshape_error + 'a"

subsection \<open>Envelopes and events\<close>

type_synonym uuid = string

definition DEFAULT_SCHEMA_VERSION :: string where
  "DEFAULT_SCHEMA_VERSION = ''1.0''"

definition DEFAULT_SESSION_KEY :: string where
  "DEFAULT_SESSION_KEY = ''local:main''"

record envelope_header =
  message_id :: uuid
  trace_id :: uuid
  session_key :: string
  timestamp :: int
  attempt :: "32 word"
  schema_version :: string

record 'a envelope =
  header :: envelope_header
  metadata :: "(string, json) btree_map"
  payload :: 'a

type_synonym stamps = "uuid \<times> uuid \<times> int"

definition for_session :: "stamps \<Rightarrow> string \<Rightarrow> 'a \<Rightarrow> 'a envelope" where
  "for_session st key p =
     (case st of (mid, tid, now) \<Rightarrow>
        \<lparr>header = \<lparr>message_id = mid, trace_id = tid, session_key = key, timestamp = now,
                    attempt = 1, schema_version = DEFAULT_SCHEMA_VERSION\<rparr>,
         metadata = [], payload = p\<rparr>)"

definition envelope_new :: "stamps \<Rightarrow> 'a \<Rightarrow> 'a envelope" where
  "envelope_new st p = for_session st DEFAULT_SESSION_KEY p"

datatype input_source = Cdp | Plugin | WebSocket | TestSource

record cdp_user_event =
  event_type :: string
  selector_hint :: "string option"
  cdp_text :: "string option"
  cdp_metadata :: "(string, json) btree_map"

datatype input_event =
    UserText string input_source
  | CdpUserEvent cdp_user_event
  | PluginMessage string
  | WorkspaceChanged string

datatype error_code =
    InvalidSchema
  | ValidationFailed
  | DuplicateMessage
  | AgentTimeout
  | ToolTimeout
  | ProviderUnavailable
  | ProviderResponseInvalid
  | ToolBudgetExceededCode
  | FailedCode

datatype output_event =
    FinalMessage string
  | StreamChunk string
  | ToolProgress string string
  | WorkspaceFileChanged string
  | ErrorEvent error_code string
  | CompletedEvent string

datatype turn_progress_kind =
    TurnStarted
  | AssistantMessage
  | ToolStarted
  | ToolFinished
  | ToolFailed
  | TurnCompleted
  | TurnFailed

record turn_progress_event =
  turn_id_of :: string
  sequence_of :: "32 word"
  kind_of :: turn_progress_kind
  tool_name_of :: "string option"
  arguments_preview_of :: "string option"
  result_preview_of :: "string option"
  message_of :: string

subsection \<open>The session\<close>

datatype session_message = Input input_event | Output output_event

record budget_usage =
  tool_iterations :: nat
  tool_calls_used :: nat

record session =
  sess_key :: string
  turn_index :: "64 word"
  history :: "session_message list"
  recent_artifacts :: "string list"
  budget :: budget_usage

definition default_session :: session where
  "default_session =
     \<lparr>sess_key = DEFAULT_SESSION_KEY, turn_index = 0, history = [], recent_artifacts = [],
      budget = \<lparr>tool_iterations = 0, tool_calls_used = 0\<rparr>\<rparr>"

definition record_input :: "input_event \<Rightarrow> session \<Rightarrow> session" where
  "record_input ev s = s\<lparr>turn_index := turn_index s + 1, history := history s @ [Input ev]\<rparr>"

definition record_output :: "output_event \<Rightarrow> session \<Rightarrow> session" where
  "record_output ev s = s\<lparr>history := history s @ [Output ev]\<rparr>"

fun is_input :: "session_message \<Rightarrow> bool" where
  "is_input (Input ev) = True"
| "is_input (Output ev) = False"

definition session_inv :: "session \<Rightarrow> bool" where
  "session_inv s \<longleftrightarrow> turn_index s = word_of_nat (length (filter is_input (history s)))"

lemma session_inv_default: "session_inv default_session"
  by (simp add: session_inv_def default_session_def)

lemma session_inv_record_input: "session_inv s \<Longrightarrow> session_inv (record_input ev s)"
  by (simp add: session_inv_def record_input_def)

lemma session_inv_record_output: "session_inv s \<Longrightarrow> session_inv (record_output ev s)"
  by (simp add: session_inv_def record_output_def)

lemma sess_key_record [simp]:
  "sess_key (record_input ev s) = sess_key s"
  "sess_key (record_output out s) = sess_key s"
  by (simp_all add: record_input_def record_output_def)

lemma history_record [simp]:
  "history (record_input ev s) = history s @ [Input ev]"
  "history (record_output out s) = history s @ [Output out]"
  by (simp_all add: record_input_def record_output_def)

lemma turn_index_record [simp]:
  "turn_index (record_input ev s) = turn_index s + 1"
  "turn_index (record_output out s) = turn_index s"
  by (simp_all add: record_input_def record_output_def)

subsection \<open>Turn states\<close>

datatype turn_state =
    Received | Validating | Executing | Publishing | Completed | Degraded | Failed

fun turn_state_text :: "turn_state \<Rightarrow> string" where
  "turn_state_text Received = ''Received''"
| "turn_state_text Validating = ''Validating''"
| "turn_state_text Executing = ''Executing''"
| "turn_state_text Publishing = ''Publishing''"
| "turn_state_text Completed = ''Completed''"
| "turn_state_text Degraded = ''Degraded''"
| "turn_state_text Failed = ''Failed''"

fun valid_transition :: "turn_state \<Rightarrow> turn_state \<Rightarrow> bool" where
  "valid_transition Received Validating = True"
| "valid_transition Validating Executing = True"
| "valid_transition Validating Failed = True"
| "valid_transition Executing Publishing = True"
| "valid_transition Executing Degraded = True"
| "valid_transition Executing Failed = True"
| "valid_transition Publishing Completed = True"
| "valid_transition _ _ = False"

definition transition_to :: "turn_state \<Rightarrow> turn_state \<Rightarrow> turn_state result" where
  "transition_to s next =
     (if valid_transition s next then Inr next
      else Inl (InvalidStateTransition (turn_state_text s) (turn_state_text next)))"

text \<open>Runs of a turn: the states a sequence of accepted transitions goes through.\<close>

inductive turn_run :: "turn_state \<Rightarrow> turn_state list \<Rightarrow> turn_state \<Rightarrow> bool" where
  run_refl: "turn_run s [] s"
| run_step: "transition_to s t = Inr t' \<Longrightarrow> turn_run t' ts u \<Longrightarrow> turn_run s (t # ts) u"

inductive_simps turn_run_Nil [simp]: "turn_run s [] u"
inductive_simps turn_run_Cons: "turn_run s (t # ts) u"

fun turn_rank :: "turn_state \<Rightarrow> nat" where
  "turn_rank Received = 0"
| "turn_rank Validating = 1"
| "turn_rank Executing = 2"
| "turn_rank Publishing = 3"
| "turn_rank _ = 4"

lemma valid_transition_rank: "valid_transition s t \<Longrightarrow> turn_rank s < turn_rank t"
  by (cases s; cases t) simp_all

lemma transition_to_Inr_iff: "transition_to s t = Inr u \<longleftrightarrow> valid_transition s t \<and> u = t"
  by (auto simp: transition_to_def)

lemma turn_run_rank: "turn_run s ts u \<Longrightarrow> turn_rank s + length ts \<le> turn_rank u"
proof (induction rule: turn_run.induct)
  case (run_refl s)
  show ?case by simp
next
  case (run_step s t t' ts u)
  then show ?case using valid_transition_rank by (fastforce simp: transition_to_Inr_iff)
qed

lemma turn_rank_le: "turn_rank s \<le> 4"
  by (cases s) simp_all

definition terminal :: "turn_state \<Rightarrow> bool" where
  "terminal s \<longleftrightarrow> s \<in> {Completed, Degraded, Failed}"

lemma terminal_iff_stuck: "terminal s \<longleftrightarrow> (\<forall>t. \<exists>e. transition_to s t = Inl e)"
  by (cases s) (auto simp: terminal_def transition_to_def intro: exI [where x = Validating]
      exI [where x = Executing] exI [where x = Publishing] exI [where x = Completed])

lemma turn_run_Completed_Publishing:
  "turn_run s ts u \<Longrightarrow> u = Completed \<Longrightarrow> s = Completed \<or> s = Publishing \<or> Publishing \<in> set ts"
proof (induction rule: turn_run.induct)
  case (run_refl s)
  then show ?case by simp
next
  case (run_step s t t' ts u)
  then have v: "valid_transition s t" and t': "t' = t"
    by (simp_all add: transition_to_Inr_iff)
  from run_step consider "t = Completed" | "t = Publishing" | "Publishing \<in> set ts"
    using t' by blast
  then show ?case
  proof cases
    case 1
    with v have "s = Publishing" by (cases s) simp_all
    then show ?thesis by simp
  qed simp_all
qed

lemma valid_transition_iff:
  "valid_transition Received t \<longleftrightarrow> t = Validating"
  "valid_transition Validating t \<longleftrightarrow> t = Executing \<or> t = Failed"
  "valid_transition Executing t \<longleftrightarrow> t = Publishing \<or> t = Degraded \<or> t = Failed"
  "valid_transition Publishing t \<longleftrightarrow> t = Completed"
  by (cases t; simp)+

lemma turn_run_first:
  assumes "turn_run s ts u" and "s \<noteq> u"
  obtains t ts' where "ts = t # ts'" "valid_transition s t" "turn_run t ts' u"
  using assms by (cases ts) (auto simp: turn_run_Cons transition_to_Inr_iff)

lemma turn_run_terminal: "turn_run s ts u \<Longrightarrow> terminal s \<Longrightarrow> ts = [] \<and> u = s"
proof (induction rule: turn_run.induct)
  case (run_step s t t' ts u)
  then have "valid_transition s t" by (simp add: transition_to_Inr_iff)
  with run_step.prems show ?case by (auto simp: terminal_def)
qed simp

lemma turn_run_from_Received_Completed:
  assumes "turn_run Received ts Completed"
  shows "ts = [Validating, Executing, Publishing, Completed]"
proof -
  have stuck: "\<not> turn_run Failed r Completed" "\<not> turn_run Degraded r Completed" for r
    using turn_run_terminal by (fastforce simp: terminal_def)+
  from assms obtain a where a: "ts = Validating # a" "turn_run Validating a Completed"
    by (rule turn_run_first) (auto simp: valid_transition_iff)
  from a(2) obtain b where b: "a = Executing # b" "turn_run Executing b Completed"
    by (rule turn_run_first) (auto simp: valid_transition_iff stuck)
  from b(2) obtain c where c: "b = Publishing # c" "turn_run Publishing c Completed"
    by (rule turn_run_first) (auto simp: valid_transition_iff stuck)
  from c(2) obtain d where d: "c = Completed # d" "turn_run Completed d Completed"
    by (rule turn_run_first) (auto simp: valid_transition_iff)
  from d(2) have "d = []"
    using turn_run_terminal by (simp add: terminal_def)
  with a b c d show ?thesis by simp
qed

text \<open>The life cycle of a turn. Whatever transitions are asked for, at most four are accepted;
  a turn that has completed went through validation, execution and publication in this order; and
  no transition at all is accepted exactly in the three final states.\<close>

theorem turn_lifecycle:
  assumes "turn_run Received ts u"
  shows "length ts \<le> 4 \<and> (u = Completed \<longrightarrow> ts = [Validating, Executing, Publishing, Completed])
    \<and> ((\<forall>t. \<exists>e. transition_to u t = Inl e) \<longleftrightarrow> u \<in> {Completed, Degraded, Failed})"
  using turn_run_rank [OF assms] turn_rank_le [of u] turn_run_from_Received_Completed assms
    terminal_iff_stuck [of u]
  by (auto simp: terminal_def)

theorem turn_lifecycle_witness:
  "turn_run Received [Validating, Executing, Publishing, Completed] Completed
   \<and> length [Validating, Executing, Publishing, Completed] \<le> 4
   \<and> (\<forall>t. \<exists>e. transition_to Completed t = Inl e)"
proof -
  have run: "turn_run Received [Validating, Executing, Publishing, Completed] Completed"
    by (simp add: turn_run_Cons transition_to_Inr_iff)
  from turn_lifecycle [OF run] run show ?thesis by blast
qed

end
