(* ===== verification/Filesystem.thy ===== *)
theory Filesystem
  imports Protocol "HOL-Library.AList" "HOL-Library.Sublist"
begin

section \<open>Paths and the file system\<close>

text \<open>
  What the sources use of \<open>std::path\<close> and of the file operations of \<open>std::fs\<close> and
  \<open>tokio::fs\<close>, on a POSIX file tree with symbolic links. A node is a regular file with its
  bytes, a directory with its named entries or a symbolic link with its target text. \<open>walk\<close>
  resolves a path as the operating system does, component by component, following links with
  a budget of 40, as Linux does; \<open>canonicalize\<close>, \<open>metadata\<close>, \<open>symlink_metadata\<close>,
  \<open>create_dir_all\<close>, \<open>write\<close>, \<open>read\<close> and \<open>remove_file\<close> are defined over it. A path handed to the
  system is its component list; an operation that can fail half-way returns the new tree
  beside its result. One process owns the tree: no other program changes it between two calls.
\<close>

datatype node = RegFile string | Dir "(string \<times> node) list" | Symlink string

type_synonym apath = "string list"

subsection \<open>Paths\<close>

datatype pcomp = RootDir | CurDir | ParentDir | Normal string

definition slash :: char where
  "slash = CHR ''/''"

fun segment_comp :: "string \<Rightarrow> pcomp list" where
  "segment_comp seg =
     (if seg = '''' \<or> seg = ''.'' then [] else if seg = ''..'' then [ParentDir] else [Normal seg])"

definition is_absolute :: "string \<Rightarrow> bool" where
  "is_absolute p \<longleftrightarrow> starts_with ''/'' p"

text \<open>\<open>Path::components\<close>: repeated separators and interior \<open>.\<close> disappear, a leading \<open>.\<close> stays.\<close>

definition path_components :: "string \<Rightarrow> pcomp list" where
  "path_components p =
     (let segs = split_on slash p
      in (if is_absolute p then [RootDir] else if hd segs = ''.'' then [CurDir] else [])
         @ concat (map segment_comp segs))"

text \<open>The components the operating system resolves: \<open>.\<close> and a trailing separator still demand
  that what precedes them is a directory.\<close>

fun os_segment :: "string \<Rightarrow> pcomp list" where
  "os_segment seg =
     (if seg = '''' then [] else if seg = ''.'' then [CurDir]
      else if seg = ''..'' then [ParentDir] else [Normal seg])"

definition os_components :: "string \<Rightarrow> pcomp list" where
  "os_components p =
     (if is_absolute p then [RootDir] else [])
     @ concat (map os_segment (split_on slash p))
     @ (if p \<noteq> '''' \<and> last p = slash then [CurDir] else [])"

definition path_file_name :: "string \<Rightarrow> string option" where
  "path_file_name p =
     (case path_components p of
        [] \<Rightarrow> None
      | c # cs \<Rightarrow> (case last (c # cs) of Normal n \<Rightarrow> Some n | _ \<Rightarrow> None))"

text \<open>The last dot splits a file name, unless it is its first character.\<close>

fun split_last_dot :: "string \<Rightarrow> (string \<times> string) option" where
  "split_last_dot [] = None"
| "split_last_dot (c # cs) =
     (case split_last_dot cs of
        Some (a, b) \<Rightarrow> Some (c # a, b)
      | None \<Rightarrow> (if c = CHR ''.'' then Some ([], cs) else None))"

definition path_extension :: "string \<Rightarrow> string option" where
  "path_extension p =
     (case path_file_name p of
        None \<Rightarrow> None
      | Some n \<Rightarrow> (case split_last_dot n of
                   None \<Rightarrow> None
                 | Some (stem, ext) \<Rightarrow> (if stem = '''' then None else Some ext)))"

definition path_file_stem :: "string \<Rightarrow> string option" where
  "path_file_stem p =
     (case path_file_name p of
        None \<Rightarrow> None
      | Some n \<Rightarrow> (case split_last_dot n of
                   None \<Rightarrow> Some n
                 | Some (stem, ext) \<Rightarrow> (if stem = '''' then Some n else Some stem)))"

text \<open>\<open>Path::parent\<close> as components: all but the last; a root or an empty path has none.\<close>

definition path_parent :: "pcomp list \<Rightarrow> pcomp list option" where
  "path_parent cs =
     (case cs of [] \<Rightarrow> None | _ # _ \<Rightarrow> (if last cs = RootDir then None else Some (butlast cs)))"

text \<open>The text of a canonical path, and of the rest of a path below a stripped prefix: leading
  and trailing empty and \<open>.\<close> segments are cut off, the middle stays as it was typed.\<close>

definition canonical_text :: "apath \<Rightarrow> string" where
  "canonical_text p = ''/'' @ join ''/'' p"

definition relative_text :: "apath \<Rightarrow> string" where
  "relative_text p = join ''/'' p"

definition skipped_segment :: "string \<Rightarrow> bool" where
  "skipped_segment seg \<longleftrightarrow> seg = '''' \<or> seg = ''.''"

definition trimmed_text :: "string \<Rightarrow> string" where
  "trimmed_text p =
     join ''/'' (rev (dropWhile skipped_segment (rev (dropWhile skipped_segment (split_on slash p)))))"

subsection \<open>The tree\<close>

fun lookup :: "node \<Rightarrow> apath \<Rightarrow> node option" where
  "lookup n [] = Some n"
| "lookup (Dir es) (x # xs) =
     (case map_of es x of None \<Rightarrow> None | Some n \<Rightarrow> lookup n xs)"
| "lookup _ (x # xs) = None"

fun put :: "apath \<Rightarrow> node \<Rightarrow> node \<Rightarrow> node" where
  "put [] v n = v"
| "put (x # xs) v (Dir es) =
     (case xs of
        [] \<Rightarrow> Dir (AList.update x v es)
      | _ # _ \<Rightarrow> (case map_of es x of
                   None \<Rightarrow> Dir es
                 | Some n \<Rightarrow> Dir (AList.update x (put xs v n) es)))"
| "put (x # xs) v n = n"

fun remove :: "apath \<Rightarrow> node \<Rightarrow> node" where
  "remove [] n = n"
| "remove (x # xs) (Dir es) =
     (case xs of
        [] \<Rightarrow> Dir (AList.delete x es)
      | _ # _ \<Rightarrow> (case map_of es x of
                   None \<Rightarrow> Dir es
                 | Some n \<Rightarrow> Dir (AList.update x (remove xs n) es)))"
| "remove (x # xs) n = n"

text \<open>What is seen at one path: a file with its bytes, a link with its target, or a directory
  without its contents.\<close>

datatype kind = KFile string | KDir | KLink string

fun kind_of_node :: "node \<Rightarrow> kind" where
  "kind_of_node (RegFile c) = KFile c"
| "kind_of_node (Dir es) = KDir"
| "kind_of_node (Symlink t) = KLink t"

definition stat_at :: "node \<Rightarrow> apath \<Rightarrow> kind option" where
  "stat_at fs p = map_option kind_of_node (lookup fs p)"

subsection \<open>Path resolution\<close>

definition has_nul :: "string \<Rightarrow> bool" where
  "has_nul s \<longleftrightarrow> CHR 0x00 \<in> set s"

definition max_links :: nat where
  "max_links = 40"

function walk :: "bool \<Rightarrow> node \<Rightarrow> nat \<Rightarrow> apath \<Rightarrow> pcomp list \<Rightarrow> io_error + apath" where
  "walk cr fs k cur [] = Inr cur"
| "walk cr fs k cur (RootDir # cs) = walk cr fs k [] cs"
| "walk cr fs k cur (CurDir # cs) = walk cr fs k cur cs"
| "walk cr fs k cur (ParentDir # cs) = walk cr fs k (butlast cur) cs"
| "walk cr fs k cur (Normal x # cs) =
     (if has_nul x then Inl InvalidInput
      else case stat_at fs (cur @ [x]) of
        None \<Rightarrow> (if cr \<and> cs = [] then Inr (cur @ [x]) else Inl NotFound)
      | Some (KFile c) \<Rightarrow> (if cs = [] then Inr (cur @ [x]) else Inl NotADirectory)
      | Some KDir \<Rightarrow> walk cr fs k (cur @ [x]) cs
      | Some (KLink t) \<Rightarrow>
          (case k of
             0 \<Rightarrow> Inl TooManyLinks
           | Suc k' \<Rightarrow> walk cr fs k' cur (os_components t @ cs)))"
  by pat_completeness auto
termination
  by (relation "measures [\<lambda>(cr, fs, k, cur, cs). k, \<lambda>(cr, fs, k, cur, cs). length cs]") auto

definition canonicalize :: "node \<Rightarrow> pcomp list \<Rightarrow> io_error + apath" where
  "canonicalize fs cs = walk False fs max_links [] cs"

definition metadata_of :: "node \<Rightarrow> pcomp list \<Rightarrow> io_error + kind" where
  "metadata_of fs cs =
     and_then (canonicalize fs cs) (\<lambda>p. ok_or NotFound (stat_at fs p))"

definition fs_exists :: "node \<Rightarrow> pcomp list \<Rightarrow> bool" where
  "fs_exists fs cs \<longleftrightarrow> (case metadata_of fs cs of Inr k \<Rightarrow> True | Inl e \<Rightarrow> False)"

definition fs_is_dir :: "node \<Rightarrow> pcomp list \<Rightarrow> bool" where
  "fs_is_dir fs cs \<longleftrightarrow> metadata_of fs cs = Inr KDir"

definition fs_is_file :: "node \<Rightarrow> pcomp list \<Rightarrow> bool" where
  "fs_is_file fs cs \<longleftrightarrow> (case metadata_of fs cs of Inr (KFile c) \<Rightarrow> True | _ \<Rightarrow> False)"

text \<open>\<open>symlink_metadata\<close>: a final link is not followed, unless a separator or \<open>.\<close> comes after it.\<close>

definition symlink_metadata :: "node \<Rightarrow> pcomp list \<Rightarrow> io_error + kind" where
  "symlink_metadata fs cs =
     (case rev cs of
        Normal x # ps \<Rightarrow>
          and_then (canonicalize fs (rev ps))
            (\<lambda>d. if has_nul x then Inl InvalidInput
                 else ok_or (if stat_at fs d = Some KDir then NotFound else NotADirectory)
                        (stat_at fs (d @ [x])))
      | _ \<Rightarrow> metadata_of fs cs)"

definition mkdir :: "node \<Rightarrow> pcomp list \<Rightarrow> io_error + node" where
  "mkdir fs cs =
     (case rev cs of
        Normal x # ps \<Rightarrow>
          and_then (canonicalize fs (rev ps))
            (\<lambda>d. if has_nul x then Inl InvalidInput
                 else if stat_at fs d \<noteq> Some KDir then Inl NotADirectory
                 else if stat_at fs (d @ [x]) \<noteq> None then Inl AlreadyExists
                 else Inr (put (d @ [x]) (Dir []) fs))
      | _ \<Rightarrow> and_then (canonicalize fs cs) (\<lambda>d. Inl AlreadyExists))"

function create_dir_all :: "pcomp list \<Rightarrow> node \<Rightarrow> (io_error + unit) \<times> node" where
  "create_dir_all cs fs =
     (if cs = [] then (Inr (), fs)
      else case mkdir fs cs of
        Inr fs' \<Rightarrow> (Inr (), fs')
      | Inl e \<Rightarrow>
          (if e = NotFound then
             (if path_parent cs = None then (Inl (OtherIo ''failed to create whole tree''), fs)
              else case create_dir_all (butlast cs) fs of
                (Inl e', fs1) \<Rightarrow> (Inl e', fs1)
              | (Inr u, fs1) \<Rightarrow>
                  (case mkdir fs1 cs of
                     Inr fs2 \<Rightarrow> (Inr (), fs2)
                   | Inl e' \<Rightarrow> (if fs_is_dir fs1 cs then (Inr (), fs1) else (Inl e', fs1))))
           else if fs_is_dir fs cs then (Inr (), fs)
           else (Inl e, fs)))"
  by pat_completeness auto
termination
  by (relation "measure (\<lambda>(cs, fs). length cs)") auto

declare create_dir_all.simps [simp del]

definition fs_write :: "pcomp list \<Rightarrow> string \<Rightarrow> node \<Rightarrow> (io_error + unit) \<times> node" where
  "fs_write cs content fs =
     (case walk True fs max_links [] cs of
        Inl e \<Rightarrow> (Inl e, fs)
      | Inr p \<Rightarrow> (if stat_at fs p = Some KDir then (Inl IsADirectory, fs)
                else (Inr (), put p (RegFile content) fs)))"

definition fs_read :: "pcomp list \<Rightarrow> node \<Rightarrow> io_error + string" where
  "fs_read cs fs =
     and_then (canonicalize fs cs)
       (\<lambda>p. case stat_at fs p of
              Some (KFile c) \<Rightarrow> Inr c
            | Some KDir \<Rightarrow> Inl IsADirectory
            | _ \<Rightarrow> Inl NotFound)"

definition fs_remove_file :: "apath \<Rightarrow> node \<Rightarrow> (io_error + unit) \<times> node" where
  "fs_remove_file p fs =
     (case stat_at fs p of
        None \<Rightarrow> (Inl NotFound, fs)
      | Some KDir \<Rightarrow> (Inl IsADirectory, fs)
      | Some _ \<Rightarrow> (Inr (), remove p fs))"

text \<open>\<open>read_dir\<close>: the entries of a directory, in whatever order the system keeps them.\<close>

definition fs_read_dir :: "apath \<Rightarrow> node \<Rightarrow> io_error + (string \<times> kind) list" where
  "fs_read_dir p fs =
     (case lookup fs p of
        Some (Dir es) \<Rightarrow> Inr (map (\<lambda>(n, v). (n, kind_of_node v)) es)
      | Some _ \<Rightarrow> Inl NotADirectory
      | None \<Rightarrow> Inl NotFound)"

subsection \<open>UTF-8 validity\<close>

definition byte_in :: "nat \<Rightarrow> nat \<Rightarrow> char \<Rightarrow> bool" where
  "byte_in lo hi c \<longleftrightarrow> lo \<le> (of_char c :: nat) \<and> (of_char c :: nat) \<le> hi"

definition second3 :: "char \<Rightarrow> char \<Rightarrow> bool" where
  "second3 a b \<longleftrightarrow>
     byte_in 224 224 a \<and> byte_in 160 191 b \<or> byte_in 225 236 a \<and> byte_in 128 191 b
     \<or> byte_in 237 237 a \<and> byte_in 128 159 b \<or> byte_in 238 239 a \<and> byte_in 128 191 b"

definition second4 :: "char \<Rightarrow> char \<Rightarrow> bool" where
  "second4 a b \<longleftrightarrow>
     byte_in 240 240 a \<and> byte_in 144 191 b \<or> byte_in 241 243 a \<and> byte_in 128 191 b
     \<or> byte_in 244 244 a \<and> byte_in 128 143 b"

fun valid_utf8 :: "string \<Rightarrow> bool" where
  "valid_utf8 [] = True"
| "valid_utf8 (a # s) =
     (if byte_in 0 127 a then valid_utf8 s
      else case s of
        [] \<Rightarrow> False
      | b # s1 \<Rightarrow>
          (if byte_in 194 223 a \<and> byte_in 128 191 b then valid_utf8 s1
           else case s1 of
             [] \<Rightarrow> False
           | c # s2 \<Rightarrow>
               (if second3 a b \<and> byte_in 128 191 c then valid_utf8 s2
                else case s2 of
                  [] \<Rightarrow> False
                | d # s3 \<Rightarrow> second4 a b \<and> byte_in 128 191 c \<and> byte_in 128 191 d \<and> valid_utf8 s3)))"

text \<open>\<open>String::from_utf8_lossy\<close>: every maximal broken piece becomes one U+FFFD.\<close>

definition replacement :: string where
  "replacement = [CHR 0xEF, CHR 0xBF, CHR 0xBD]"

function utf8_lossy :: "string \<Rightarrow> string" where
  "utf8_lossy [] = []"
| "utf8_lossy (a # s) =
     (if byte_in 0 127 a then a # utf8_lossy s
      else case s of
        [] \<Rightarrow> replacement
      | b # s1 \<Rightarrow>
          (if byte_in 194 223 a \<and> byte_in 128 191 b then a # b # utf8_lossy s1
           else if second3 a b then
             (case s1 of
                [] \<Rightarrow> replacement
              | c # s2 \<Rightarrow> (if byte_in 128 191 c then a # b # c # utf8_lossy s2
                          else replacement @ utf8_lossy s1))
           else if second4 a b then
             (case s1 of
                [] \<Rightarrow> replacement
              | c # s2 \<Rightarrow>
                  (if byte_in 128 191 c then
                     (case s2 of
                        [] \<Rightarrow> replacement
                      | d # s3 \<Rightarrow> (if byte_in 128 191 d then a # b # c # d # utf8_lossy s3
                                  else replacement @ utf8_lossy s2))
                   else replacement @ utf8_lossy s1))
           else replacement @ utf8_lossy s))"
  by pat_completeness auto
termination
  by (relation "measure length") auto

declare utf8_lossy.simps(2) [simp del]

lemma valid_utf8_cases:
  assumes "valid_utf8 s"
  obtains "s = []"
  | a t where "s = a # t" "byte_in 0 127 a" "valid_utf8 t"
  | a b t where "s = a # b # t" "\<not> byte_in 0 127 a" "byte_in 194 223 a \<and> byte_in 128 191 b"
      "valid_utf8 t"
  | a b c t where "s = a # b # c # t" "\<not> byte_in 0 127 a" "\<not> (byte_in 194 223 a \<and> byte_in 128 191 b)"
      "second3 a b" "byte_in 128 191 c" "valid_utf8 t"
  | a b c d t where "s = a # b # c # d # t" "\<not> byte_in 0 127 a"
      "\<not> (byte_in 194 223 a \<and> byte_in 128 191 b)" "second4 a b" "byte_in 128 191 c"
      "byte_in 128 191 d" "valid_utf8 t"
proof (cases s)
  case Nil
  then show ?thesis by (rule that(1))
next
  case (Cons a t)
  note v = assms [unfolded Cons valid_utf8.simps(2)]
  show ?thesis
  proof (cases "byte_in 0 127 a")
    case True
    with v Cons show ?thesis using that(2) by simp
  next
    case n1: False
    with v obtain b s1 where t: "t = b # s1" by (cases t) simp_all
    show ?thesis
    proof (cases "byte_in 194 223 a \<and> byte_in 128 191 b")
      case True
      with v n1 Cons t show ?thesis using that(3) by simp
    next
      case n2: False
      from v [unfolded t list.case if_not_P [OF n1] if_not_P [OF n2]] obtain c s2
        where s1: "s1 = c # s2" by (cases s1) simp_all
      note v2 = v [unfolded t list.case if_not_P [OF n1] if_not_P [OF n2] s1]
      show ?thesis
      proof (cases "second3 a b \<and> byte_in 128 191 c")
        case True
        with v2 Cons t s1 n1 n2 show ?thesis using that(4) by simp
      next
        case n3: False
        from v2 [unfolded if_not_P [OF n3]] obtain d s3 where "s2 = d # s3" "second4 a b"
            "byte_in 128 191 c" "byte_in 128 191 d" "valid_utf8 s3"
          by (cases s2) simp_all
        with Cons t s1 n1 n2 show ?thesis using that(5) by simp
      qed
    qed
  qed
qed

lemma second34: "second4 a b \<Longrightarrow> \<not> second3 a b"
  by (auto simp: second3_def second4_def byte_in_def)

lemma utf8_lossy_valid: "valid_utf8 s \<Longrightarrow> utf8_lossy s = s"
proof (induction s rule: length_induct)
  case (1 s)
  then have IH: "utf8_lossy t = t" if "length t < length s" "valid_utf8 t" for t
    using that by blast
  from 1 have "valid_utf8 s" by blast
  then show ?case
  proof (cases rule: valid_utf8_cases)
    case (4 a b c t)
    then show ?thesis using IH [of t] by (auto simp: utf8_lossy.simps(2) [of a])
  next
    case (5 a b c d t)
    then show ?thesis using IH [of t] by (auto simp: utf8_lossy.simps(2) [of a] second34)
  qed (use IH in \<open>simp_all add: utf8_lossy.simps(2)\<close>)
qed

definition fs_read_to_string :: "pcomp list \<Rightarrow> node \<Rightarrow> io_error + string" where
  "fs_read_to_string cs fs =
     and_then (fs_read cs fs) (\<lambda>c. if valid_utf8 c then Inr c else Inl InvalidData)"

subsection \<open>Reading and updating the tree\<close>

lemma kind_of_node_KDir_iff: "kind_of_node n = KDir \<longleftrightarrow> (\<exists>es. n = Dir es)"
  by (cases n) simp_all

lemma lookup_append:
  "lookup fs (p @ q) = (case lookup fs p of None \<Rightarrow> None | Some n \<Rightarrow> lookup n q)"
  by (induction fs p rule: lookup.induct) (auto split: option.splits)

lemma stat_at_Nil_Dir [simp]: "stat_at (Dir es) [] = Some KDir"
  by (simp add: stat_at_def)

lemma stat_at_empty_dir: "stat_at (Dir []) q = (if q = [] then Some KDir else None)"
  by (cases q) (simp_all add: stat_at_def)

lemma stat_at_file: "stat_at (RegFile c) q = (if q = [] then Some (KFile c) else None)"
  by (cases q) (simp_all add: stat_at_def)

lemma stat_at_parent:
  assumes "stat_at fs (p @ x # q) \<noteq> None"
  shows "stat_at fs p = Some KDir"
proof -
  from assms obtain n where n: "lookup fs p = Some n" and m: "lookup n (x # q) \<noteq> None"
    by (auto simp: stat_at_def lookup_append split: option.splits)
  from m have "\<exists>es. n = Dir es" by (cases n) simp_all
  with n show ?thesis by (auto simp: stat_at_def)
qed

lemma stat_at_strict_prefix:
  assumes "stat_at fs q \<noteq> None" and "strict_prefix p q"
  shows "stat_at fs p = Some KDir"
proof -
  from assms(2) obtain z zs where "q = p @ z # zs" by (rule strict_prefixE')
  with assms(1) show ?thesis using stat_at_parent by blast
qed

lemma stat_at_root: "stat_at fs cur = Some KDir \<Longrightarrow> stat_at fs [] = Some KDir"
  by (cases cur) (auto intro: stat_at_strict_prefix)

lemma stat_at_butlast:
  assumes "stat_at fs p = Some KDir"
  shows "stat_at fs (butlast p) = Some KDir"
proof (cases "p = []")
  case False
  then have "strict_prefix (butlast p) p"
    by (metis append_butlast_last_id not_Cons_self2 append_self_conv prefixI strict_prefixI)
  with assms show ?thesis by (auto intro: stat_at_strict_prefix)
qed (use assms in simp)

lemma stat_at_Cons:
  "stat_at (Dir es) (x # q) = (case map_of es x of None \<Rightarrow> None | Some n \<Rightarrow> stat_at n q)"
  by (auto simp: stat_at_def split: option.splits)

lemma stat_at_put:
  assumes "stat_at fs d = Some KDir"
  shows "stat_at (put (d @ [x]) v fs) q =
    (if prefix (d @ [x]) q then stat_at v (drop (Suc (length d)) q) else stat_at fs q)"
  using assms
proof (induction d arbitrary: fs q)
  case Nil
  then obtain es where "fs = Dir es"
    by (auto simp: stat_at_def kind_of_node_KDir_iff)
  then show ?case
    by (cases q) (auto simp: stat_at_Cons update_conv')
next
  case (Cons a d)
  then obtain es n where fs: "fs = Dir es" and a: "map_of es a = Some n"
      and n: "stat_at n d = Some KDir"
    by (cases fs) (auto simp: stat_at_def split: option.splits)
  obtain y ys where ds: "d @ [x] = y # ys" by (cases "d @ [x]") auto
  have put: "put ((a # d) @ [x]) v fs = Dir (AList.update a (put (d @ [x]) v n) es)"
    using a by (simp add: fs ds)
  show ?case
  proof (cases q)
    case Nil
    then show ?thesis unfolding put by (simp add: fs)
  next
    case (Cons b bs)
    then show ?thesis
      unfolding put using Cons.IH [OF n, of bs] a
      by (auto simp: stat_at_Cons update_conv' fs)
  qed
qed

lemma stat_at_remove:
  assumes "stat_at fs d = Some KDir"
  shows "stat_at (remove (d @ [x]) fs) q =
    (if prefix (d @ [x]) q then None else stat_at fs q)"
  using assms
proof (induction d arbitrary: fs q)
  case Nil
  then obtain es where "fs = Dir es"
    by (auto simp: stat_at_def kind_of_node_KDir_iff)
  then show ?case
    by (cases q) (auto simp: stat_at_Cons delete_conv')
next
  case (Cons a d)
  then obtain es n where fs: "fs = Dir es" and a: "map_of es a = Some n"
      and n: "stat_at n d = Some KDir"
    by (cases fs) (auto simp: stat_at_def split: option.splits)
  obtain y ys where ds: "d @ [x] = y # ys" by (cases "d @ [x]") auto
  have rem: "remove ((a # d) @ [x]) fs = Dir (AList.update a (remove (d @ [x]) n) es)"
    using a by (simp add: fs ds)
  show ?case
  proof (cases q)
    case Nil
    then show ?thesis unfolding rem by (simp add: fs)
  next
    case (Cons b bs)
    then show ?thesis
      unfolding rem using Cons.IH [OF n, of bs] a
      by (auto simp: stat_at_Cons update_conv' fs)
  qed
qed

lemma stat_at_below_leaf:
  assumes "stat_at fs p \<noteq> Some KDir" and "strict_prefix p q"
  shows "stat_at fs q = None"
  using assms stat_at_strict_prefix by blast

lemma stat_at_put_file:
  assumes "stat_at fs d = Some KDir" and "stat_at fs (d @ [x]) \<noteq> Some KDir"
  shows "stat_at (put (d @ [x]) (RegFile c) fs) q
    = (if q = d @ [x] then Some (KFile c) else stat_at fs q)"
proof (cases "prefix (d @ [x]) q \<and> q \<noteq> d @ [x]")
  case True
  then have "strict_prefix (d @ [x]) q" by (auto simp: strict_prefix_def)
  with assms(2) have "stat_at fs q = None" by (rule stat_at_below_leaf)
  with True show ?thesis by (auto simp: stat_at_put [OF assms(1)] stat_at_file prefix_def)
next
  case False
  then show ?thesis by (auto simp: stat_at_put [OF assms(1)] stat_at_file)
qed

lemma stat_at_remove_leaf:
  assumes "stat_at fs (d @ [x]) \<noteq> Some KDir" and "stat_at fs (d @ [x]) \<noteq> None"
  shows "stat_at (remove (d @ [x]) fs) q = (if q = d @ [x] then None else stat_at fs q)"
proof -
  have d: "stat_at fs d = Some KDir" using assms(2) stat_at_parent [of fs d x "[]"] by simp
  show ?thesis
  proof (cases "prefix (d @ [x]) q \<and> q \<noteq> d @ [x]")
    case True
    then have "strict_prefix (d @ [x]) q" by (auto simp: strict_prefix_def)
    with assms(1) have "stat_at fs q = None" by (rule stat_at_below_leaf)
    with True show ?thesis by (simp add: stat_at_remove [OF d])
  next
    case False
    then show ?thesis by (auto simp: stat_at_remove [OF d])
  qed
qed

subsection \<open>Resolution\<close>

text \<open>Resolution ends at something real: a directory or a file, never a link; with creation
  allowed it may also end at a free name in a directory.\<close>

lemma walk_real:
  assumes "walk cr fs k cur cs = Inr p" and "stat_at fs cur = Some KDir"
  shows "stat_at fs p = Some KDir \<or> (\<exists>c. stat_at fs p = Some (KFile c))
    \<or> (cr \<and> stat_at fs p = None \<and> (\<exists>d x. p = d @ [x] \<and> stat_at fs d = Some KDir))"
  using assms
proof (induction cr fs k cur cs rule: walk.induct)
  case (2 cr fs k cur cs)
  then show ?case using stat_at_root by simp
next
  case (4 cr fs k cur cs)
  then show ?case by (auto dest: stat_at_butlast)
next
  case (5 cr fs k cur x cs)
  show ?case
  proof (cases "stat_at fs (cur @ [x])")
    case None
    with 5 show ?thesis by (auto split: if_splits)
  next
    case (Some kd)
    with 5 show ?thesis by (cases kd) (auto split: if_splits nat.splits)
  qed
qed auto

lemma walk_False_real:
  assumes "walk False fs k cur cs = Inr p" and "stat_at fs cur = Some KDir"
  shows "stat_at fs p = Some KDir \<or> (\<exists>c. stat_at fs p = Some (KFile c))"
  using walk_real [OF assms] by simp

lemma walk_create_if_found:
  "walk False fs k cur cs = Inr p \<Longrightarrow> walk True fs k cur cs = Inr p"
  by (induction False fs k cur cs rule: walk.induct)
    (auto split: if_splits option.splits kind.splits nat.splits)

lemma walk_agree:
  assumes "walk False fs k cur cs = Inr p"
    and "\<And>q. stat_at fs q \<noteq> None \<Longrightarrow> stat_at fs' q = stat_at fs q"
  shows "walk False fs' k cur cs = Inr p"
  using assms
proof (induction False fs k cur cs rule: walk.induct)
  case (5 fs k cur x cs)
  then obtain kd where "stat_at fs (cur @ [x]) = Some kd"
    by (auto split: if_splits option.splits)
  moreover from this 5 have "stat_at fs' (cur @ [x]) = Some kd" by simp
  ultimately show ?case using 5 by (auto split: if_splits kind.splits nat.splits)
qed auto

lemma walk_normals:
  assumes "stat_at fs (cur @ ns) = Some KDir" and "\<forall>n \<in> set ns. \<not> has_nul n"
  shows "walk cr fs k cur (map Normal ns @ cs) = walk cr fs k (cur @ ns) cs"
  using assms
proof (induction ns arbitrary: cur)
  case Nil
  then show ?case by simp
next
  case (Cons n ns)
  have "stat_at fs (cur @ [n]) = Some KDir"
  proof (cases ns)
    case Nil
    with Cons.prems show ?thesis by simp
  next
    case (Cons m ms)
    with Cons.prems(1) show ?thesis using stat_at_parent [of fs "cur @ [n]" m ms] by simp
  qed
  with Cons show ?case by simp
qed

lemma walk_snoc_dir:
  assumes "walk False fs k cur cs = Inr d" and "stat_at fs (d @ [x]) = Some KDir"
    and "\<not> has_nul x"
  shows "walk cr fs k cur (cs @ [Normal x]) = Inr (d @ [x])"
  using assms
proof (induction False fs k cur cs rule: walk.induct)
  case (5 fs k cur y cs)
  have nf: "\<And>c. stat_at fs d \<noteq> Some (KFile c)"
    using 5 stat_at_parent [of fs d x "[]"] by auto
  from 5 obtain kd where kd: "stat_at fs (cur @ [y]) = Some kd"
    by (auto split: if_splits option.splits)
  show ?case
  proof (cases kd)
    case (KFile c)
    with 5 kd nf show ?thesis by (auto split: if_splits)
  next
    case KDir
    with 5 kd show ?thesis by (auto split: if_splits)
  next
    case (KLink t)
    with 5 kd show ?thesis by (auto split: if_splits nat.splits)
  qed
qed auto

lemma walk_snoc_found:
  assumes "walk False fs k cur cs = Inr d" and "stat_at fs d = Some KDir"
    and "\<not> has_nul x" and "stat_at fs (d @ [x]) = None \<or> (\<exists>c. stat_at fs (d @ [x]) = Some (KFile c))"
  shows "walk True fs k cur (cs @ [Normal x]) = Inr (d @ [x])"
  using assms
proof (induction False fs k cur cs rule: walk.induct)
  case (5 fs k cur y cs)
  from 5 obtain kd where kd: "stat_at fs (cur @ [y]) = Some kd"
    by (auto split: if_splits option.splits)
  show ?case
  proof (cases kd)
    case (KFile c)
    with 5 kd show ?thesis by (auto split: if_splits)
  next
    case KDir
    with 5 kd show ?thesis by (auto split: if_splits)
  next
    case (KLink t)
    with 5 kd show ?thesis by (auto split: if_splits nat.splits)
  qed
qed auto

lemma walk_snoc_file:
  assumes "walk False fs k cur cs = Inr d" and "stat_at fs (d @ [x]) = Some (KFile c)"
    and "\<not> has_nul x"
  shows "walk False fs k cur (cs @ [Normal x]) = Inr (d @ [x])"
proof -
  have "stat_at fs d = Some KDir"
    using assms(2) stat_at_parent [of fs d x "[]"] by simp
  then show ?thesis
    using assms
  proof (induction False fs k cur cs rule: walk.induct)
    case (5 fs k cur y cs)
    from 5 obtain kd where kd: "stat_at fs (cur @ [y]) = Some kd"
      by (auto split: if_splits option.splits)
    with 5 show ?case by (cases kd) (auto split: if_splits nat.splits)
  qed auto
qed

lemma walk_append_err:
  assumes "walk False fs k cur cs = Inl e"
  shows "walk False fs k cur (cs @ ds) = Inl e"
  using assms
proof (induction False fs k cur cs rule: walk.induct)
  case (5 fs k cur x cs)
  show ?case
  proof (cases "stat_at fs (cur @ [x])")
    case None
    with 5 show ?thesis by (auto split: if_splits)
  next
    case (Some kd)
    with 5 show ?thesis by (cases kd) (auto split: if_splits nat.splits)
  qed
qed auto

subsection \<open>Creating directories\<close>

definition only_new_dirs :: "node \<Rightarrow> node \<Rightarrow> bool" where
  "only_new_dirs fs fs' \<longleftrightarrow>
     (\<forall>q. stat_at fs' q = stat_at fs q \<or> stat_at fs q = None \<and> stat_at fs' q = Some KDir)"

lemma only_new_dirs_refl [simp]: "only_new_dirs fs fs"
  by (simp add: only_new_dirs_def)

lemma only_new_dirs_trans:
  "only_new_dirs a b \<Longrightarrow> only_new_dirs b c \<Longrightarrow> only_new_dirs a c"
  unfolding only_new_dirs_def by metis

lemma only_new_dirs_root: "only_new_dirs a b \<Longrightarrow> stat_at a [] = Some KDir \<Longrightarrow> stat_at b [] = Some KDir"
  unfolding only_new_dirs_def by metis

lemma only_new_dirs_keeps:
  "only_new_dirs a b \<Longrightarrow> stat_at a q \<noteq> None \<Longrightarrow> stat_at b q = stat_at a q"
  unfolding only_new_dirs_def by metis

lemma mkdir_effect:
  assumes "mkdir fs cs = Inr fs'"
  obtains ps x d where "cs = ps @ [Normal x]" "canonicalize fs ps = Inr d"
    "stat_at fs d = Some KDir" "\<not> has_nul x" "stat_at fs (d @ [x]) = None"
    "\<And>q. stat_at fs' q = (if q = d @ [x] then Some KDir else stat_at fs q)"
proof -
  from assms obtain ps x d where cs: "cs = ps @ [Normal x]" and d: "canonicalize fs ps = Inr d"
      and dir: "stat_at fs d = Some KDir" and nul: "\<not> has_nul x"
      and new: "stat_at fs (d @ [x]) = None" and fs': "fs' = put (d @ [x]) (Dir []) fs"
    by (auto simp: mkdir_def and_then_Inr_iff rev_eq_Cons_iff split: list.splits pcomp.splits if_splits)
  have "stat_at fs q = None" if "prefix (d @ [x]) q" for q
  proof (rule ccontr)
    assume some: "stat_at fs q \<noteq> None"
    with new that have "strict_prefix (d @ [x]) q" by (auto simp: strict_prefix_def)
    with some new show False using stat_at_strict_prefix [of fs q "d @ [x]"] by simp
  qed
  then have "stat_at fs' q = (if q = d @ [x] then Some KDir else stat_at fs q)" for q
    unfolding fs' stat_at_put [OF dir] by (auto simp: stat_at_empty_dir prefix_def)
  with cs d dir nul new show ?thesis by (rule that)
qed

lemma mkdir_only_new_dirs: "mkdir fs cs = Inr fs' \<Longrightarrow> only_new_dirs fs fs'"
  by (erule mkdir_effect) (simp add: only_new_dirs_def)

lemma create_dir_all_only_new_dirs:
  "create_dir_all cs fs = (r, fs') \<Longrightarrow> only_new_dirs fs fs'"
proof (induction cs fs arbitrary: r fs' rule: create_dir_all.induct)
  case (1 cs fs)
  consider "cs = []" | fs1 where "cs \<noteq> []" "mkdir fs cs = Inr fs1"
    | "cs \<noteq> []" "mkdir fs cs = Inl NotFound" "path_parent cs \<noteq> None"
    | "fs' = fs"
    using "1.prems" by (auto simp: create_dir_all.simps [of cs fs] split: sum.splits if_splits)
  then show ?case
  proof cases
    case 1
    with "1.prems" show ?thesis by (simp add: create_dir_all.simps)
  next
    case 2
    with "1.prems" show ?thesis
      by (auto simp: create_dir_all.simps [of cs fs] dest: mkdir_only_new_dirs)
  next
    case 3
    obtain r1 fs1 where rec: "create_dir_all (butlast cs) fs = (r1, fs1)"
      by (cases "create_dir_all (butlast cs) fs")
    have step: "only_new_dirs fs fs1"
      using 3 rec by (intro "1.IH") auto
    show ?thesis
    proof (cases r1)
      case (Inl e)
      with "1.prems" 3 rec step show ?thesis by (simp add: create_dir_all.simps [of cs fs])
    next
      case (Inr u)
      with "1.prems" 3 rec have "fs' = fs1 \<or> mkdir fs1 cs = Inr fs'"
        by (auto simp: create_dir_all.simps [of cs fs] split: sum.splits if_splits)
      with step show ?thesis by (auto dest: mkdir_only_new_dirs intro: only_new_dirs_trans)
    qed
  next
    case 4
    then show ?thesis by simp
  qed
qed

lemma walk_nul: "has_nul x \<Longrightarrow> walk False fs k cur (cs @ [Normal x]) \<noteq> Inr p"
  by (induction False fs k cur cs rule: walk.induct)
    (auto split: if_splits option.splits kind.splits nat.splits)

text \<open>A directory made at the end of a path is where that path then leads, and it is empty.\<close>

lemma mkdir_snoc:
  assumes "mkdir fs (ps @ [Normal x]) = Inr fs'"
  obtains d where "canonicalize fs ps = Inr d" "canonicalize fs' (ps @ [Normal x]) = Inr (d @ [x])"
    "stat_at fs (d @ [x]) = None" "\<And>y. stat_at fs' (d @ [x, y]) = None"
    "\<And>q. stat_at fs' q = (if q = d @ [x] then Some KDir else stat_at fs q)"
proof -
  from assms obtain d where d: "canonicalize fs ps = Inr d" and nul: "\<not> has_nul x"
      and new: "stat_at fs (d @ [x]) = None"
      and st: "\<And>q. stat_at fs' q = (if q = d @ [x] then Some KDir else stat_at fs q)"
    by (rule mkdir_effect) simp
  have "canonicalize fs' ps = Inr d"
    using d unfolding canonicalize_def by (rule walk_agree) (use new st in auto)
  then have "canonicalize fs' (ps @ [Normal x]) = Inr (d @ [x])"
    unfolding canonicalize_def using walk_snoc_dir nul st by auto
  moreover have "stat_at fs' (d @ [x, y]) = None" for y
    using new st [of "d @ [x, y]"] stat_at_parent [of fs "d @ [x]" y "[]"]
    by (cases "stat_at fs (d @ [x, y])") auto
  ultimately show ?thesis using d new st by (rule_tac that)
qed

lemma mkdir_empty_parent:
  assumes "canonicalize fs ps = Inr d" "stat_at fs d = Some KDir" "stat_at fs (d @ [x]) = None"
    and "mkdir fs (ps @ [Normal x]) = Inl e"
  shows "\<not> fs_is_dir fs (ps @ [Normal x])"
proof -
  from assms have "has_nul x" by (auto simp: mkdir_def split: if_splits)
  then show ?thesis
    using walk_nul by (auto simp: fs_is_dir_def metadata_of_def and_then_Inr_iff canonicalize_def)
qed

lemma mkdir_not_found:
  assumes "mkdir fs (ps @ [Normal x]) = Inl NotFound"
  shows "\<not> fs_is_dir fs (ps @ [Normal x])"
proof -
  from assms have "canonicalize fs ps = Inl NotFound"
    by (auto simp: mkdir_def and_then_Inl_iff split: if_splits)
  then have "canonicalize fs (ps @ [Normal x]) = Inl NotFound"
    unfolding canonicalize_def by (rule walk_append_err)
  then show ?thesis by (simp add: fs_is_dir_def metadata_of_def)
qed

text \<open>A successful \<open>create_dir_all\<close> changes nothing, or everything it made lies on the way to
  the directory the path then leads to, which is new and empty.\<close>

definition made_dirs :: "pcomp list \<Rightarrow> node \<Rightarrow> node \<Rightarrow> bool" where
  "made_dirs cs fs fs' \<longleftrightarrow> fs' = fs \<or>
     (\<exists>p. canonicalize fs' cs = Inr p \<and> stat_at fs p = None \<and> stat_at fs' p = Some KDir
        \<and> (\<forall>x. stat_at fs' (p @ [x]) = None) \<and> (\<forall>q. stat_at fs' q \<noteq> stat_at fs q \<longrightarrow> prefix q p))"

lemma made_dirs_snoc:
  assumes "made_dirs ps fs fs1" and "only_new_dirs fs fs1" and "mkdir fs1 (ps @ [Normal x]) = Inr fs2"
  shows "made_dirs (ps @ [Normal x]) fs fs2"
proof -
  from assms(3) obtain d where d: "canonicalize fs1 ps = Inr d"
      "canonicalize fs2 (ps @ [Normal x]) = Inr (d @ [x])" "stat_at fs1 (d @ [x]) = None"
      "\<And>y. stat_at fs2 (d @ [x, y]) = None"
      "\<And>q. stat_at fs2 q = (if q = d @ [x] then Some KDir else stat_at fs1 q)"
    by (rule mkdir_snoc) blast
  have new: "stat_at fs (d @ [x]) = None"
    using d(3) only_new_dirs_keeps [OF assms(2)] by fastforce
  have "prefix q (d @ [x])" if "stat_at fs2 q \<noteq> stat_at fs q" for q
  proof (cases "q = d @ [x]")
    case False
    with that d(5) have "stat_at fs1 q \<noteq> stat_at fs q" by simp
    with assms(1) d(1) have "prefix q d" by (auto simp: made_dirs_def)
    then show ?thesis by simp
  qed simp
  with d new show ?thesis unfolding made_dirs_def by auto
qed

lemma create_dir_all_ok:
  assumes "create_dir_all (RootDir # map Normal ns) fs = (Inr u, fs')"
    and root: "stat_at fs [] = Some KDir"
  shows "made_dirs (RootDir # map Normal ns) fs fs'"
  using assms(1)
proof (induction ns arbitrary: fs' u rule: rev_induct)
  case Nil
  then show ?case
    using root by (simp add: create_dir_all.simps [of "[RootDir]"] mkdir_def canonicalize_def
        metadata_of_def fs_is_dir_def made_dirs_def)
next
  case (snoc x ns)
  let ?ps = "RootDir # map Normal ns"
  let ?cs = "?ps @ [Normal x]"
  consider "mkdir fs ?cs = Inr fs'"
    | fs1 where "create_dir_all ?ps fs = (Inr (), fs1)" "mkdir fs1 ?cs = Inr fs'"
    | fs1 e where "mkdir fs ?cs = Inl NotFound" "create_dir_all ?ps fs = (Inr (), fs1)"
        "fs_is_dir fs1 ?cs" "mkdir fs1 ?cs = Inl e"
    | "fs' = fs"
    using snoc.prems create_dir_all.simps [of ?cs fs]
    by (auto split: sum.splits if_splits prod.splits simp: butlast_append)
  then show ?case
  proof cases
    case 1
    then show ?thesis using made_dirs_snoc [of ?ps fs fs x fs'] by (simp add: made_dirs_def)
  next
    case (2 fs1)
    then show ?thesis
      using made_dirs_snoc [of ?ps fs fs1 x fs'] snoc.IH create_dir_all_only_new_dirs by simp
  next
    case (3 fs1 e)
    with mkdir_not_found have "fs1 \<noteq> fs" by blast
    with snoc.IH [OF 3(2)] 3(3,4) mkdir_empty_parent show ?thesis
      by (metis made_dirs_def)
  next
    case 4
    then show ?thesis by (simp add: made_dirs_def)
  qed
qed

end
