(* ===== verification/Workspace.thy ===== *)
theory Workspace
  imports Filesystem "HOL-Library.Multiset"
begin

section \<open>The local workspace\<close>

text \<open>
  \<open>reshape-core/src/workspace/local.rs\<close> and the trait of \<open>workspace/mod.rs\<close>. The state is the
  file tree; a workspace is its canonical root. Every operation is translated with its checks in
  order: the lexical check of \<open>relative_path\<close>, the link check, \<open>create_dir_all\<close> before the
  check of the parent, the write. The lemmas show that a successful operation touches nothing
  outside the root, what a failed write can leave behind, that a write can be read back and that
  the listing is exactly the regular files below the root.
\<close>

record local_workspace =
  ws_root :: apath

definition supported_extensions :: "string list" where
  "supported_extensions =
     [''html'', ''htm'', ''js'', ''css'', ''json'', ''md'', ''txt'', ''png'', ''jpg'', ''jpeg'',
      ''gif'', ''webp'', ''mp4'', ''webm'', ''mp3'', ''wav'', ''pdf'']"

definition abs_components :: "apath \<Rightarrow> string \<Rightarrow> pcomp list" where
  "abs_components cwd p = RootDir # map Normal cwd @ os_components p"

definition local_workspace_new :: "apath \<Rightarrow> node \<Rightarrow> string \<Rightarrow> local_workspace result" where
  "local_workspace_new cwd fs root =
     (let cs = abs_components cwd root
      in if \<not> fs_exists fs cs then Inl (WorkspaceMissing root)
         else if \<not> fs_is_dir fs cs then Inl (WorkspaceNotDirectory root)
         else and_then (map_err Io (canonicalize fs cs)) (\<lambda>c. Inr \<lparr>ws_root = c\<rparr>))"

definition relative_path :: "string \<Rightarrow> string result" where
  "relative_path path =
     (if list_ex (\<lambda>c. c = ParentDir \<or> c = RootDir) (path_components path)
      then Inl (WorkspacePathEscapesRoot path)
      else case path_extension path of
        Some ext \<Rightarrow> (if ext \<in> set supported_extensions then Inr path
                    else Inl (UnsupportedWorkspaceFile path))
      | None \<Rightarrow> Inl (UnsupportedWorkspaceFile path))"

text \<open>\<open>self.root.join(relative)\<close>: the components the system resolves, and those of the path value
  (for \<open>parent()\<close>).\<close>

definition candidate_os :: "local_workspace \<Rightarrow> string \<Rightarrow> pcomp list" where
  "candidate_os ws rel = RootDir # map Normal (ws_root ws) @ os_components rel"

definition candidate_path :: "local_workspace \<Rightarrow> string \<Rightarrow> pcomp list" where
  "candidate_path ws rel =
     RootDir # map Normal (ws_root ws) @ filter (\<lambda>c. c \<noteq> CurDir) (path_components rel)"

definition resolve_existing :: "local_workspace \<Rightarrow> string \<Rightarrow> node \<Rightarrow> apath result" where
  "resolve_existing ws path fs =
     and_then (relative_path path) (\<lambda>rel.
       and_then (map_err Io (canonicalize fs (candidate_os ws rel))) (\<lambda>c.
         if prefix (ws_root ws) c then Inr c else Inl (WorkspacePathEscapesRoot rel)))"

definition check_write_target :: "local_workspace \<Rightarrow> string \<Rightarrow> node \<Rightarrow> unit result" where
  "check_write_target ws rel fs =
     (case symlink_metadata fs (candidate_os ws rel) of
        Inl e \<Rightarrow> Inr ()
      | Inr (KLink t) \<Rightarrow> Inl (WorkspacePathEscapesRoot rel)
      | Inr kd \<Rightarrow>
          and_then (map_err Io (canonicalize fs (candidate_os ws rel))) (\<lambda>c.
            if prefix (ws_root ws) c then Inr () else Inl (WorkspacePathEscapesRoot rel)))"

definition prepare_parent ::
    "local_workspace \<Rightarrow> string \<Rightarrow> node \<Rightarrow> unit result \<times> node" where
  "prepare_parent ws rel fs =
     (case path_parent (candidate_path ws rel) of
        None \<Rightarrow> (Inr (), fs)
      | Some parent \<Rightarrow>
          (case create_dir_all parent fs of
             (Inl e, fs1) \<Rightarrow> (Inl (Io e), fs1)
           | (Inr u, fs1) \<Rightarrow>
               (case canonicalize fs1 parent of
                  Inl e \<Rightarrow> (Inl (Io e), fs1)
                | Inr cp \<Rightarrow> (if prefix (ws_root ws) cp then (Inr (), fs1)
                           else (Inl (WorkspacePathEscapesRoot rel), fs1)))))"

definition resolve_for_write ::
    "local_workspace \<Rightarrow> string \<Rightarrow> node \<Rightarrow> string result \<times> node" where
  "resolve_for_write ws path fs =
     (case relative_path path of
        Inl e \<Rightarrow> (Inl e, fs)
      | Inr rel \<Rightarrow>
          (case check_write_target ws rel fs of
             Inl e \<Rightarrow> (Inl e, fs)
           | Inr u \<Rightarrow>
               (case prepare_parent ws rel fs of
                  (Inl e, fs1) \<Rightarrow> (Inl e, fs1)
                | (Inr u', fs1) \<Rightarrow> (Inr rel, fs1))))"

definition strip_root :: "local_workspace \<Rightarrow> apath \<Rightarrow> string" where
  "strip_root ws p =
     (if prefix (ws_root ws) p then relative_text (drop (length (ws_root ws)) p)
      else canonical_text p)"

definition read_text :: "local_workspace \<Rightarrow> string \<Rightarrow> node \<Rightarrow> string result" where
  "read_text ws path fs =
     and_then (resolve_existing ws path fs) (\<lambda>c.
       map_err Io (fs_read_to_string (RootDir # map Normal c) fs))"

definition write_text ::
    "local_workspace \<Rightarrow> string \<Rightarrow> string \<Rightarrow> node \<Rightarrow> string result \<times> node" where
  "write_text ws path content fs =
     (case resolve_for_write ws path fs of
        (Inl e, fs1) \<Rightarrow> (Inl e, fs1)
      | (Inr rel, fs1) \<Rightarrow>
          (case fs_write (candidate_os ws rel) content fs1 of
             (Inl e, fs2) \<Rightarrow> (Inl (Io e), fs2)
           | (Inr u, fs2) \<Rightarrow> (Inr (trimmed_text rel), fs2)))"

definition write_bytes ::
    "local_workspace \<Rightarrow> string \<Rightarrow> string \<Rightarrow> node \<Rightarrow> string result \<times> node" where
  "write_bytes ws path content fs =
     (case resolve_for_write ws path fs of
        (Inl e, fs1) \<Rightarrow> (Inl e, fs1)
      | (Inr rel, fs1) \<Rightarrow>
          (case fs_write (candidate_os ws rel) content fs1 of
             (Inl e, fs2) \<Rightarrow> (Inl (Io e), fs2)
           | (Inr u, fs2) \<Rightarrow> (Inr (trimmed_text rel), fs2)))"

definition delete_file :: "local_workspace \<Rightarrow> string \<Rightarrow> node \<Rightarrow> string result \<times> node" where
  "delete_file ws path fs =
     (case resolve_existing ws path fs of
        Inl e \<Rightarrow> (Inl e, fs)
      | Inr c \<Rightarrow>
          (case fs_remove_file c fs of
             (Inl e, fs1) \<Rightarrow> (Inl (Io e), fs1)
           | (Inr u, fs1) \<Rightarrow> (Inr (strip_root ws c), fs1)))"

text \<open>What a tool can reach through its context: the file tree and the network.\<close>

record 'n tool_world =
  tw_fs :: node
  tw_net :: 'n

subsection \<open>Listing\<close>

text \<open>The entries of one directory: real directories are pushed on the stack, regular files are
  collected relative to the root, links are skipped.\<close>

fun list_entries ::
    "local_workspace \<Rightarrow> node \<Rightarrow> apath \<Rightarrow> (string \<times> kind) list \<Rightarrow> apath list \<Rightarrow> apath list
     \<Rightarrow> io_error + (apath list \<times> apath list)" where
  "list_entries ws fs dir [] dirs files = Inr (dirs, files)"
| "list_entries ws fs dir ((name, kd) # es) dirs files =
     (case kd of
        KDir \<Rightarrow>
          and_then (canonicalize fs (RootDir # map Normal (dir @ [name]))) (\<lambda>c.
            list_entries ws fs dir es (if prefix (ws_root ws) c then c # dirs else dirs) files)
      | KFile b \<Rightarrow>
          and_then (canonicalize fs (RootDir # map Normal (dir @ [name]))) (\<lambda>c.
            list_entries ws fs dir es dirs
              (if prefix (ws_root ws) c then files @ [drop (length (ws_root ws)) c] else files))
      | KLink t \<Rightarrow> list_entries ws fs dir es dirs files)"

text \<open>The loop over the stack, with fuel for the number of directories it may visit.\<close>

fun list_loop ::
    "nat \<Rightarrow> local_workspace \<Rightarrow> node \<Rightarrow> apath list \<Rightarrow> apath list \<Rightarrow> (io_error + apath list) option" where
  "list_loop fuel ws fs [] files = Some (Inr files)"
| "list_loop 0 ws fs (d # ds) files = None"
| "list_loop (Suc fuel) ws fs (d # ds) files =
     (case and_then (fs_read_dir d fs) (\<lambda>es. list_entries ws fs d es ds files) of
        Inl e \<Rightarrow> Some (Inl e)
      | Inr (ds', files') \<Rightarrow> list_loop fuel ws fs ds' files')"

fun dir_count :: "node \<Rightarrow> nat" where
  "dir_count (Dir es) = Suc (sum_list (map (\<lambda>e. dir_count (snd e)) es))"
| "dir_count _ = 0"

definition list_files :: "local_workspace \<Rightarrow> node \<Rightarrow> string list result" where
  "list_files ws fs =
     (case list_loop (dir_count fs) ws fs [ws_root ws] [] of
        None \<Rightarrow> Inl (Io (OtherIo ''directory walk did not end''))
      | Some (Inl e) \<Rightarrow> Inl (Io e)
      | Some (Inr files) \<Rightarrow> Inr (map relative_text (sort files)))"

subsection \<open>Well-formed states\<close>

definition local_inv :: "local_workspace \<Rightarrow> node \<Rightarrow> bool" where
  "local_inv ws fs \<longleftrightarrow>
     stat_at fs (ws_root ws) = Some KDir \<and> list_all (\<lambda>n. \<not> has_nul n) (ws_root ws)"

text \<open>The names of every directory are distinct and legal.\<close>

definition legal_name :: "string \<Rightarrow> bool" where
  "legal_name n \<longleftrightarrow> n \<noteq> '''' \<and> n \<noteq> ''.'' \<and> n \<noteq> ''..'' \<and> slash \<notin> set n \<and> \<not> has_nul n"

fun fs_wf :: "node \<Rightarrow> bool" where
  "fs_wf (Dir es) = (distinct (map fst es) \<and> list_all (\<lambda>e. legal_name (fst e) \<and> fs_wf (snd e)) es)"
| "fs_wf _ = True"

fun files_under :: "node \<Rightarrow> apath list" where
  "files_under (RegFile c) = [[]]"
| "files_under (Dir es) = concat (map (\<lambda>e. map (Cons (fst e)) (files_under (snd e))) es)"
| "files_under (Symlink t) = []"

subsection \<open>The lexical check\<close>

lemma filter_os_segment [simp]: "filter (\<lambda>c. c \<noteq> CurDir) (os_segment seg) = segment_comp seg"
  by simp

lemma filter_CurDir_components:
  "filter (\<lambda>c. c \<noteq> CurDir) (os_components p) = filter (\<lambda>c. c \<noteq> CurDir) (path_components p)"
proof -
  have "filter (\<lambda>c. c \<noteq> CurDir) (segment_comp seg) = segment_comp seg" for seg by simp
  then have "filter (\<lambda>c. c \<noteq> CurDir) (concat (map os_segment segs))
      = filter (\<lambda>c. c \<noteq> CurDir) (concat (map segment_comp segs))" for segs
    by (induction segs) (simp_all del: os_segment.simps segment_comp.simps)
  then show ?thesis
    by (simp add: os_components_def path_components_def Let_def
        del: os_segment.simps segment_comp.simps)
qed

text \<open>An accepted path consists of plain names, the last of them the file name.\<close>

definition rel_names :: "string \<Rightarrow> string list" where
  "rel_names rel = concat (map (\<lambda>c. case c of Normal n \<Rightarrow> [n] | _ \<Rightarrow> []) (path_components rel))"

lemma normals_only:
  "list_all (\<lambda>c. c \<noteq> ParentDir \<and> c \<noteq> RootDir) cs \<Longrightarrow>
     filter (\<lambda>c. c \<noteq> CurDir) cs
       = map Normal (concat (map (\<lambda>c. case c of Normal n \<Rightarrow> [n] | _ \<Rightarrow> []) cs))"
  by (induction cs) (auto split: pcomp.splits)

lemma relative_path_Inr:
  assumes "relative_path path = Inr rel"
  shows "rel = path" and "filter (\<lambda>c. c \<noteq> CurDir) (path_components path) = map Normal (rel_names path)"
    and "rel_names path \<noteq> []"
proof -
  from assms show rel: "rel = path"
    by (auto simp: relative_path_def split: if_splits option.splits)
  from assms have all: "list_all (\<lambda>c. c \<noteq> ParentDir \<and> c \<noteq> RootDir) (path_components path)"
    by (auto simp: relative_path_def list_ex_iff list_all_iff split: if_splits)
  then show names: "filter (\<lambda>c. c \<noteq> CurDir) (path_components path) = map Normal (rel_names path)"
    unfolding rel_names_def by (rule normals_only)
  from assms have "path_file_name path \<noteq> None"
    by (auto simp: relative_path_def path_extension_def split: if_splits option.splits)
  then obtain n where "path_components path \<noteq> []" "last (path_components path) = Normal n"
    by (auto simp: path_file_name_def split: list.splits pcomp.splits)
  then have "Normal n \<in> set (filter (\<lambda>c. c \<noteq> CurDir) (path_components path))"
    using last_in_set [of "path_components path"] by auto
  with names show "rel_names path \<noteq> []" by auto
qed

lemma candidate_path_names:
  assumes "relative_path path = Inr rel"
  shows "candidate_path ws rel = RootDir # map Normal (ws_root ws @ rel_names path)"
  using relative_path_Inr [OF assms] by (simp add: candidate_path_def)

lemma candidate_parent:
  assumes "relative_path path = Inr rel"
  shows "path_parent (candidate_path ws rel)
    = Some (RootDir # map Normal (ws_root ws @ butlast (rel_names path)))"
proof -
  from relative_path_Inr(3) [OF assms] obtain ns n where ns: "rel_names path = ns @ [n]"
    by (cases "rel_names path" rule: rev_cases) auto
  show ?thesis
    unfolding candidate_path_names [OF assms] by (simp add: path_parent_def ns butlast_append)
qed

subsection \<open>Dots and trailing separators\<close>

lemma walk_skip_CurDir:
  "bs \<noteq> [] \<Longrightarrow> walk cr fs k cur (as @ CurDir # bs) = walk cr fs k cur (as @ bs)"
proof (induction cr fs k cur as rule: walk.induct)
  case (5 cr fs k cur x cs)
  then show ?case by (auto split: option.splits kind.splits nat.splits)
qed simp_all

lemma walk_filter_CurDir:
  "cs = [] \<or> last cs \<noteq> CurDir \<Longrightarrow>
     walk cr fs k cur (as @ cs) = walk cr fs k cur (as @ filter (\<lambda>c. c \<noteq> CurDir) cs)"
proof (induction cs arbitrary: as)
  case (Cons c cs)
  show ?case
  proof (cases "c = CurDir")
    case True
    with Cons.prems have "cs \<noteq> []" "last cs \<noteq> CurDir" by (auto split: if_splits)
    with True Cons.IH [of as] show ?thesis by (simp add: walk_skip_CurDir)
  next
    case False
    with Cons.prems have "cs = [] \<or> last cs \<noteq> CurDir" by (auto split: if_splits)
    with False Cons.IH [of "as @ [c]"] show ?thesis by simp
  qed
qed simp

lemma walk_trailing_CurDir:
  "walk True fs k cur (cs @ [CurDir]) = Inr p \<Longrightarrow> stat_at fs cur = Some KDir \<Longrightarrow>
     stat_at fs p = Some KDir"
proof (induction True fs k cur cs rule: walk.induct)
  case (2 fs k cur cs)
  then show ?case using stat_at_root by simp
next
  case (4 fs k cur cs)
  then show ?case using stat_at_butlast by simp
next
  case (5 fs k cur x cs)
  then show ?case by (auto split: if_splits option.splits kind.splits nat.splits)
qed simp_all

lemma candidate_os_walk:
  assumes "relative_path path = Inr rel" and "last (os_components rel) \<noteq> CurDir"
  shows "walk cr fs k [] (candidate_os ws rel)
    = walk cr fs k [] (RootDir # map Normal (ws_root ws @ rel_names path))"
proof -
  have "walk cr fs k [] (candidate_os ws rel)
      = walk cr fs k [] ((RootDir # map Normal (ws_root ws))
          @ filter (\<lambda>c. c \<noteq> CurDir) (os_components rel))"
    unfolding candidate_os_def using assms(2)
    by (subst append_Cons [symmetric], subst walk_filter_CurDir) simp_all
  then show ?thesis
    using relative_path_Inr [OF assms(1)] by (simp add: filter_CurDir_components)
qed

subsection \<open>What a write does\<close>

text \<open>A write that passes every check ends in a plain name of a directory inside the root, and
  that name is not a link.\<close>

lemma symlink_metadata_snoc:
  assumes "canonicalize fs ps = Inr d" and "stat_at fs (d @ [x]) = Some kd" and "\<not> has_nul x"
  shows "symlink_metadata fs (ps @ [Normal x]) = Inr kd"
  using assms by (simp add: symlink_metadata_def)

lemma walk_snoc_CurDir:
  assumes "walk False fs k cur cs = Inr d" and "stat_at fs d = Some KDir"
  shows "walk False fs k cur (cs @ [CurDir]) = Inr d"
  using assms
proof (induction False fs k cur cs rule: walk.induct)
  case (5 fs k cur x cs)
  then show ?case by (auto split: if_splits option.splits kind.splits nat.splits)
qed simp_all

lemma walk_dir_unfilter:
  assumes "walk False fs k cur (as @ filter (\<lambda>c. c \<noteq> CurDir) cs) = Inr d"
    and "stat_at fs d = Some KDir"
  shows "walk False fs k cur (as @ cs) = Inr d"
  using assms(1)
proof (induction cs rule: rev_induct)
  case (snoc c cs)
  show ?case
  proof (cases "c = CurDir")
    case True
    with snoc have "walk False fs k cur (as @ cs) = Inr d" by simp
    with assms(2) True show ?thesis using walk_snoc_CurDir by fastforce
  next
    case False
    with snoc.prems show ?thesis using walk_filter_CurDir [of "cs @ [c]" False fs k cur as] by simp
  qed
qed simp

lemma resolve_for_write_ok:
  assumes "resolve_for_write ws path fs = (Inr rel, fs1)"
  obtains cp where "relative_path path = Inr path" "rel = path"
    "check_write_target ws path fs = Inr ()"
    "create_dir_all (RootDir # map Normal (ws_root ws @ butlast (rel_names path))) fs = (Inr (), fs1)"
    "canonicalize fs1 (RootDir # map Normal (ws_root ws @ butlast (rel_names path))) = Inr cp"
    "prefix (ws_root ws) cp"
proof -
  from assms obtain u where r: "relative_path path = Inr rel"
      and c: "check_write_target ws rel fs = Inr ()"
      and p: "prepare_parent ws rel fs = (Inr u, fs1)"
    by (auto simp: resolve_for_write_def split: sum.splits prod.splits)
  have rel: "rel = path" using relative_path_Inr [OF r] by simp
  from p obtain cp where cp:
      "create_dir_all (RootDir # map Normal (ws_root ws @ butlast (rel_names path))) fs = (Inr (), fs1)"
      "canonicalize fs1 (RootDir # map Normal (ws_root ws @ butlast (rel_names path))) = Inr cp"
      "prefix (ws_root ws) cp"
    unfolding prepare_parent_def candidate_parent [OF r]
    by (auto split: sum.splits prod.splits if_splits)
  from r [unfolded rel] rel c [unfolded rel] cp show ?thesis by (rule that)
qed

lemma os_components_snoc:
  assumes "relative_path path = Inr rel" and "last (os_components rel) \<noteq> CurDir"
  obtains init where "os_components rel = init @ [Normal (last (rel_names path))]"
    "filter (\<lambda>c. c \<noteq> CurDir) init = map Normal (butlast (rel_names path))"
proof -
  note r = relative_path_Inr [OF assms(1)]
  have f: "filter (\<lambda>c. c \<noteq> CurDir) (os_components rel) = map Normal (rel_names path)"
    using r(1,2) by (simp add: filter_CurDir_components)
  from r(3) obtain ns n where ns: "rel_names path = ns @ [n]"
    by (cases "rel_names path" rule: rev_cases) auto
  from f ns have "os_components rel \<noteq> []" by auto
  then obtain init c where i: "os_components rel = init @ [c]" and c: "c \<noteq> CurDir"
    using assms(2) by (cases "os_components rel" rule: rev_cases) auto
  from f have "filter (\<lambda>c. c \<noteq> CurDir) init @ [c] = map Normal ns @ [Normal n]"
    unfolding i ns using c by simp
  then have "filter (\<lambda>c. c \<noteq> CurDir) init = map Normal ns" "c = Normal n" by simp_all
  then show ?thesis using i ns by (intro that [of init]) simp_all
qed

lemma write_target_not_link:
  assumes "relative_path path = Inr path" and "last (os_components path) \<noteq> CurDir"
    and "check_write_target ws path fs = Inr ()"
    and parent: "canonicalize fs (RootDir # map Normal (ws_root ws @ butlast (rel_names path))) = Inr cp"
    and dir: "stat_at fs cp = Some KDir" and nul: "\<not> has_nul (last (rel_names path))"
  shows "stat_at fs (cp @ [last (rel_names path)]) \<noteq> Some (KLink t)"
proof
  assume link: "stat_at fs (cp @ [last (rel_names path)]) = Some (KLink t)"
  from assms(1,2) obtain init where init: "os_components path = init @ [Normal (last (rel_names path))]"
      "filter (\<lambda>c. c \<noteq> CurDir) init = map Normal (butlast (rel_names path))"
    by (rule os_components_snoc)
  have "walk False fs max_links [] ((RootDir # map Normal (ws_root ws))
      @ filter (\<lambda>c. c \<noteq> CurDir) init) = Inr cp"
    using parent unfolding canonicalize_def init(2) by simp
  from this dir have "canonicalize fs ((RootDir # map Normal (ws_root ws)) @ init) = Inr cp"
    unfolding canonicalize_def by (rule walk_dir_unfilter)
  then have "symlink_metadata fs (candidate_os ws path) = Inr (KLink t)"
    using symlink_metadata_snoc [OF _ link nul, of "(RootDir # map Normal (ws_root ws)) @ init"]
    by (simp add: candidate_os_def init(1))
  with assms(3) show False by (simp add: check_write_target_def)
qed

lemma fs_write_ok:
  assumes "fs_write cs content fs = (Inr u, fs')"
  obtains p where "walk True fs max_links [] cs = Inr p" "stat_at fs p \<noteq> Some KDir"
    "fs' = put p (RegFile content) fs"
  using assms by (auto simp: fs_write_def split: sum.splits if_splits)

lemma walk_snoc_parent:
  assumes "walk False fs k cur cs = Inr d" and "walk cr fs k cur (cs @ [Normal x]) = Inr p"
    and "stat_at fs cur = Some KDir"
  shows "stat_at fs d = Some KDir \<and> \<not> has_nul x"
  using assms
proof (induction False fs k cur cs rule: walk.induct)
  case (1 fs k cur)
  then show ?case by (auto split: if_splits)
next
  case (2 fs k cur cs)
  then show ?case using stat_at_root by simp
next
  case (4 fs k cur cs)
  then show ?case using stat_at_butlast by simp
next
  case (5 fs k cur y cs)
  from 5 obtain kd where kd: "stat_at fs (cur @ [y]) = Some kd"
    by (auto split: if_splits option.splits)
  with 5 show ?case by (cases kd) (auto split: if_splits nat.splits)
qed simp

lemma walk_snoc_target:
  assumes "walk False fs k [] cs = Inr d" and "walk True fs k [] (cs @ [Normal x]) = Inr p"
    and "stat_at fs [] = Some KDir" and "\<And>t. stat_at fs (d @ [x]) \<noteq> Some (KLink t)"
  shows "p = d @ [x]"
proof -
  from walk_snoc_parent [OF assms(1,2,3)] have d: "stat_at fs d = Some KDir" "\<not> has_nul x" by simp_all
  show ?thesis
  proof (cases "stat_at fs (d @ [x]) = Some KDir")
    case True
    with assms(1,2) d(2) show ?thesis using walk_snoc_dir [of fs k "[]" cs d x True] by simp
  next
    case False
    with assms(4) have "stat_at fs (d @ [x]) = None \<or> (\<exists>c. stat_at fs (d @ [x]) = Some (KFile c))"
      by (metis kind.exhaust option.exhaust)
    with assms(1,2) d show ?thesis using walk_snoc_found [of fs k "[]" cs d x] by simp
  qed
qed

text \<open>The effect of a write that succeeds: the missing directories on the way to the parent are
  made inside the root, and one name in that parent becomes the file.\<close>

lemma write_effect:
  assumes inv: "local_inv ws fs"
    and res: "resolve_for_write ws path fs = (Inr rel, fs1)"
    and wr: "fs_write (candidate_os ws rel) content fs1 = (Inr u, fs')"
  obtains cp where "rel = path" "last (os_components path) \<noteq> CurDir"
    "prefix (ws_root ws) cp" "only_new_dirs fs fs1"
    "canonicalize fs1 (RootDir # map Normal (ws_root ws @ butlast (rel_names path))) = Inr cp"
    "stat_at fs1 cp = Some KDir" "\<not> has_nul (last (rel_names path))"
    "\<And>q. stat_at fs1 q \<noteq> stat_at fs q \<Longrightarrow> prefix (ws_root ws) q"
    "\<And>q. stat_at fs' q
       = (if q = cp @ [last (rel_names path)] then Some (KFile content) else stat_at fs1 q)"
    "stat_at fs1 (cp @ [last (rel_names path)]) = None
       \<or> (\<exists>c. stat_at fs1 (cp @ [last (rel_names path)]) = Some (KFile c))"
proof -
  let ?ps = "RootDir # map Normal (ws_root ws @ butlast (rel_names path))"
  let ?x = "last (rel_names path)"
  from res obtain cp where rp: "relative_path path = Inr path" "rel = path"
      and chk: "check_write_target ws path fs = Inr ()"
      and mk: "create_dir_all ?ps fs = (Inr (), fs1)"
      and cp: "canonicalize fs1 ?ps = Inr cp" "prefix (ws_root ws) cp"
    by (rule resolve_for_write_ok)
  have root: "stat_at fs [] = Some KDir"
    using inv stat_at_root by (auto simp: local_inv_def)
  note new = create_dir_all_only_new_dirs [OF mk] and made = create_dir_all_ok [OF mk root]
  have root1: "stat_at fs1 [] = Some KDir" by (rule only_new_dirs_root [OF new root])
  from wr rp(2) obtain p where p: "walk True fs1 max_links [] (candidate_os ws path) = Inr p"
      "stat_at fs1 p \<noteq> Some KDir" "fs' = put p (RegFile content) fs1"
    by (auto elim: fs_write_ok)
  have nc: "last (os_components path) \<noteq> CurDir"
  proof
    assume "last (os_components path) = CurDir"
    moreover have "os_components path \<noteq> []"
      using relative_path_Inr [OF rp(1)] filter_CurDir_components [of path] by auto
    ultimately have "candidate_os ws path
        = (RootDir # map Normal (ws_root ws) @ butlast (os_components path)) @ [CurDir]"
      by (metis append.assoc append_Cons append_butlast_last_id candidate_os_def)
    with p(1) have "stat_at fs1 p = Some KDir" using walk_trailing_CurDir root1 by metis
    with p(2) show False ..
  qed
  have names: "rel_names path = butlast (rel_names path) @ [?x]"
    using relative_path_Inr(3) [OF rp(1)] by simp
  have tgt: "walk True fs1 max_links [] (?ps @ [Normal ?x]) = Inr p"
    using p(1) candidate_os_walk [OF rp(1) nc, of True fs1 max_links ws]
    by (subst (asm) names) simp
  have dir: "stat_at fs1 cp = Some KDir" and nul: "\<not> has_nul ?x"
    using walk_snoc_parent [OF cp(1) [unfolded canonicalize_def] tgt root1] by simp_all
  have nolink: "stat_at fs1 (cp @ [?x]) \<noteq> Some (KLink t)" for t
  proof (cases "fs1 = fs")
    case True
    with write_target_not_link [OF rp(1) nc chk] cp(1) dir nul show ?thesis by simp
  next
    case False
    with made cp(1) show ?thesis by (auto simp: made_dirs_def)
  qed
  have pe: "p = cp @ [?x]"
    by (rule walk_snoc_target [OF cp(1) [unfolded canonicalize_def] tgt root1 nolink])
  have eff: "stat_at fs' q = (if q = cp @ [?x] then Some (KFile content) else stat_at fs1 q)" for q
    unfolding p(3) pe by (rule stat_at_put_file [OF dir]) (use p(2) pe in simp)
  have inside: "prefix (ws_root ws) q" if "stat_at fs1 q \<noteq> stat_at fs q" for q
  proof -
    from that made cp(1) have "prefix q cp" by (auto simp: made_dirs_def)
    moreover have "stat_at fs q = None"
      using that new unfolding only_new_dirs_def by metis
    then have "\<not> prefix q (ws_root ws)"
      using inv stat_at_strict_prefix [of fs "ws_root ws" q]
      by (cases "q = ws_root ws") (auto simp: local_inv_def strict_prefix_def)
    ultimately show ?thesis using cp(2) prefix_same_cases by blast
  qed
  have free: "stat_at fs1 (cp @ [?x]) = None \<or> (\<exists>c. stat_at fs1 (cp @ [?x]) = Some (KFile c))"
    using nolink p(2) pe by (metis kind.exhaust option.exhaust)
  show ?thesis
    by (rule that [OF rp(2) nc cp(2) new cp(1) dir nul inside eff free])
qed

subsection \<open>Canonical paths lead to themselves\<close>

lemma walk_no_nul:
  "walk cr fs k cur cs = Inr p \<Longrightarrow> list_all (\<lambda>n. \<not> has_nul n) cur \<Longrightarrow> list_all (\<lambda>n. \<not> has_nul n) p"
proof (induction cr fs k cur cs rule: walk.induct)
  case (4 cr fs k cur cs)
  then show ?case by (auto simp: list_all_iff dest: in_set_butlastD)
next
  case (5 cr fs k cur x cs)
  then show ?case by (auto split: if_splits option.splits kind.splits nat.splits)
qed auto

lemma canonicalize_self:
  assumes "stat_at fs p = Some KDir \<or> (\<exists>c. stat_at fs p = Some (KFile c))"
    and "list_all (\<lambda>n. \<not> has_nul n) p" and "stat_at fs [] = Some KDir"
  shows "canonicalize fs (RootDir # map Normal p) = Inr p"
proof (cases p rule: rev_cases)
  case Nil
  then show ?thesis by (simp add: canonicalize_def)
next
  case (snoc d x)
  have "stat_at fs d = Some KDir" using assms(1) stat_at_parent [of fs d x "[]"] snoc by auto
  then have "walk False fs max_links [] (map Normal d @ [Normal x])
      = walk False fs max_links d [Normal x]"
    using walk_normals [of fs "[]" d False max_links "[Normal x]"] assms(2) snoc
    by (simp add: list_all_iff)
  with assms(1,2) snoc show ?thesis by (auto simp: canonicalize_def)
qed

lemma walk_agree_dir:
  assumes "walk False fs k cur cs = Inr d" and "stat_at fs d = Some KDir"
    and "\<And>q kd. stat_at fs q = Some kd \<Longrightarrow> (\<And>c. kd \<noteq> KFile c) \<Longrightarrow> stat_at fs' q = Some kd"
  shows "walk False fs' k cur cs = Inr d"
  using assms
proof (induction False fs k cur cs rule: walk.induct)
  case (5 fs k cur x cs)
  then obtain kd where kd: "stat_at fs (cur @ [x]) = Some kd"
    by (auto split: if_splits option.splits)
  with 5 have "\<And>c. kd \<noteq> KFile c" by (auto split: if_splits)
  with 5 kd have "stat_at fs' (cur @ [x]) = Some kd" by simp
  with kd 5 show ?case by (auto split: if_splits kind.splits nat.splits)
qed auto

lemma resolve_existing_ok:
  assumes "local_inv ws fs" and "resolve_existing ws path fs = Inr p"
  shows "prefix (ws_root ws) p" "list_all (\<lambda>n. \<not> has_nul n) p"
    "stat_at fs p = Some KDir \<or> (\<exists>c. stat_at fs p = Some (KFile c))"
    "canonicalize fs (RootDir # map Normal p) = Inr p"
proof -
  have root: "stat_at fs [] = Some KDir" using assms(1) stat_at_root by (auto simp: local_inv_def)
  from assms(2) obtain rel where w: "walk False fs max_links [] (candidate_os ws rel) = Inr p"
      and pre: "prefix (ws_root ws) p"
    by (auto simp: resolve_existing_def and_then_Inr_iff canonicalize_def split: if_splits)
  show "prefix (ws_root ws) p" by (rule pre)
  show nn: "list_all (\<lambda>n. \<not> has_nul n) p" using walk_no_nul [OF w] by simp
  show real: "stat_at fs p = Some KDir \<or> (\<exists>c. stat_at fs p = Some (KFile c))"
    by (rule walk_False_real [OF w root])
  show "canonicalize fs (RootDir # map Normal p) = Inr p"
    by (rule canonicalize_self [OF real nn root])
qed

subsection \<open>The operations\<close>

lemma local_workspace_new_inv:
  assumes "local_workspace_new cwd fs root = Inr ws" and "stat_at fs [] = Some KDir"
  shows "local_inv ws fs"
proof -
  from assms(1) have c: "canonicalize fs (abs_components cwd root) = Inr (ws_root ws)"
      and "fs_is_dir fs (abs_components cwd root)"
    by (auto simp: local_workspace_new_def Let_def and_then_Inr_iff split: if_splits)
  then have "stat_at fs (ws_root ws) = Some KDir"
    by (simp add: fs_is_dir_def metadata_of_def and_then_Inr_iff ok_or_def split: option.splits)
  moreover have "list_all (\<lambda>n. \<not> has_nul n) (ws_root ws)"
    using walk_no_nul [OF c [unfolded canonicalize_def]] by simp
  ultimately show ?thesis by (simp add: local_inv_def)
qed

lemma write_bytes_eq_write_text: "write_bytes ws path content fs = write_text ws path content fs"
  by (simp add: write_bytes_def write_text_def)

lemma write_text_ok_effect:
  assumes "local_inv ws fs" and "write_text ws path content fs = (Inr r, fs')"
  obtains cp where "prefix (ws_root ws) cp"
    "stat_at fs' (cp @ [last (rel_names path)]) = Some (KFile content)"
    "\<And>q. q \<noteq> cp @ [last (rel_names path)] \<Longrightarrow> stat_at fs' q = stat_at fs q
       \<or> prefix (ws_root ws) q \<and> stat_at fs q = None \<and> stat_at fs' q = Some KDir"
    "resolve_existing ws path fs' = Inr (cp @ [last (rel_names path)])"
    "stat_at fs (cp @ [last (rel_names path)]) \<noteq> Some KDir"
proof -
  let ?x = "last (rel_names path)"
  let ?ps = "RootDir # map Normal (ws_root ws @ butlast (rel_names path))"
  from assms(2) obtain rel fs1 u where res: "resolve_for_write ws path fs = (Inr rel, fs1)"
      and wr: "fs_write (candidate_os ws rel) content fs1 = (Inr u, fs')"
    by (auto simp: write_text_def split: prod.splits sum.splits)
  from assms(1) res wr obtain cp where e: "rel = path" "last (os_components path) \<noteq> CurDir"
      "prefix (ws_root ws) cp" "only_new_dirs fs fs1" "canonicalize fs1 ?ps = Inr cp"
      "stat_at fs1 cp = Some KDir" "\<not> has_nul ?x"
      "\<And>q. stat_at fs1 q \<noteq> stat_at fs q \<Longrightarrow> prefix (ws_root ws) q"
      "\<And>q. stat_at fs' q = (if q = cp @ [?x] then Some (KFile content) else stat_at fs1 q)"
      "stat_at fs1 (cp @ [?x]) = None \<or> (\<exists>c. stat_at fs1 (cp @ [?x]) = Some (KFile c))"
    by (rule write_effect) blast
  from res e(1) have rp: "relative_path path = Inr path"
    by (auto elim: resolve_for_write_ok)
  have par: "walk False fs' max_links [] ?ps = Inr cp"
    using e(5,6) unfolding canonicalize_def
    by (rule walk_agree_dir) (use e(9,10) in \<open>force split: if_splits\<close>)
  have "walk False fs' max_links [] (?ps @ [Normal ?x]) = Inr (cp @ [?x])"
    by (rule walk_snoc_file [OF par _ e(7)]) (simp add: e(9))
  then have "canonicalize fs' (candidate_os ws path) = Inr (cp @ [?x])"
    unfolding canonicalize_def candidate_os_walk [OF rp e(2)]
    using relative_path_Inr(3) [OF rp]
    by (cases "rel_names path" rule: rev_cases) (auto simp: butlast_append)
  with rp e(3) have ex: "resolve_existing ws path fs' = Inr (cp @ [?x])"
    by (simp add: resolve_existing_def)
  have other: "stat_at fs' q = stat_at fs q
      \<or> prefix (ws_root ws) q \<and> stat_at fs q = None \<and> stat_at fs' q = Some KDir"
    if "q \<noteq> cp @ [?x]" for q
    using that e(4,8,9) unfolding only_new_dirs_def by metis
  have "stat_at fs (cp @ [?x]) \<noteq> Some KDir"
    using e(10) only_new_dirs_keeps [OF e(4)] by force
  with e(3,9) other ex show ?thesis by (intro that) auto
qed

lemma write_text_fail_effect:
  assumes "write_text ws path content fs = (Inl e, fs')"
  shows "only_new_dirs fs fs'"
proof -
  have "only_new_dirs fs fs1" if "resolve_for_write ws path fs = (r, fs1)" for r fs1
    using that create_dir_all_only_new_dirs
    by (fastforce simp: resolve_for_write_def prepare_parent_def
        split: sum.splits option.splits prod.splits if_splits)
  with assms show ?thesis
    by (auto simp: write_text_def fs_write_def split: prod.splits sum.splits if_splits)
qed

lemma read_text_ok_iff:
  assumes "local_inv ws fs"
  shows "read_text ws path fs = Inr c \<longleftrightarrow>
    (\<exists>p. resolve_existing ws path fs = Inr p \<and> stat_at fs p = Some (KFile c) \<and> valid_utf8 c)"
proof (cases "resolve_existing ws path fs")
  case (Inr p)
  with resolve_existing_ok(3,4) [OF assms Inr] show ?thesis
    by (auto simp: read_text_def fs_read_to_string_def fs_read_def split: if_splits)
qed (simp add: read_text_def)

lemma delete_file_effect:
  assumes "local_inv ws fs" and "delete_file ws path fs = (r, fs')"
  obtains e where "r = Inl e" "fs' = fs"
  | p c where "r = Inr (strip_root ws p)" "resolve_existing ws path fs = Inr p"
      "strict_prefix (ws_root ws) p" "stat_at fs p = Some (KFile c)"
      "\<And>q. stat_at fs' q = (if q = p then None else stat_at fs q)"
proof (cases "resolve_existing ws path fs")
  case (Inl e)
  with assms(2) show ?thesis using that(1) by (auto simp: delete_file_def)
next
  case (Inr p)
  note p = resolve_existing_ok [OF assms(1) Inr]
  show ?thesis
  proof (cases "stat_at fs p = Some KDir")
    case True
    with assms(2) Inr show ?thesis using that(1) by (auto simp: delete_file_def fs_remove_file_def)
  next
    case False
    with p(3) obtain c where c: "stat_at fs p = Some (KFile c)" by auto
    have ne: "p \<noteq> ws_root ws" using assms(1) False by (auto simp: local_inv_def)
    then obtain d x where dx: "p = d @ [x]" using p(1) by (cases p rule: rev_cases) auto
    have "strict_prefix (ws_root ws) p" using p(1) ne by (simp add: strict_prefix_def)
    moreover from assms(2) Inr c have "r = Inr (strip_root ws p)" "fs' = remove p fs"
      by (simp_all add: delete_file_def fs_remove_file_def)
    moreover have "stat_at (remove p fs) q = (if q = p then None else stat_at fs q)" for q
      unfolding dx by (rule stat_at_remove_leaf) (use c dx in simp_all)
    ultimately show ?thesis using that(2) [OF _ Inr _ c] by simp
  qed
qed

subsection \<open>The listing\<close>

lemma files_under_iff:
  "fs_wf n \<Longrightarrow> q \<in> set (files_under n) \<longleftrightarrow> (\<exists>c. stat_at n q = Some (KFile c))"
proof (induction n arbitrary: q rule: files_under.induct)
  case (1 c)
  then show ?case by (simp add: stat_at_file)
next
  case (2 es)
  show ?case
  proof (cases q)
    case Nil
    then show ?thesis by auto
  next
    case (Cons x xs)
    have "q \<in> set (files_under (Dir es)) \<longleftrightarrow> (\<exists>n. (x, n) \<in> set es \<and> xs \<in> set (files_under n))"
      using Cons by force
    also have "\<dots> \<longleftrightarrow> (\<exists>n. map_of es x = Some n \<and> (\<exists>c. stat_at n xs = Some (KFile c)))"
      using 2 by (fastforce simp: list_all_iff)
    also have "\<dots> \<longleftrightarrow> (\<exists>c. stat_at (Dir es) q = Some (KFile c))"
      by (auto simp: Cons stat_at_Cons split: option.splits)
    finally show ?thesis .
  qed
next
  case (3 t)
  then show ?case by (cases q) (simp_all add: stat_at_def)
qed

lemma distinct_files_under: "fs_wf n \<Longrightarrow> distinct (files_under n)"
proof (induction n rule: files_under.induct)
  case (2 es)
  then have "distinct (concat (map (\<lambda>e. map (Cons (fst e)) (files_under (snd e))) es))"
  proof (induction es)
    case (Cons e es)
    have "distinct (files_under (snd e))" using Cons.prems by auto
    moreover have "distinct (concat (map (\<lambda>e. map (Cons (fst e)) (files_under (snd e))) es))"
      using Cons by auto
    moreover have "fst e' \<noteq> fst e" if "e' \<in> set es" for e'
      using that Cons.prems(2) by (auto simp: image_iff)
    ultimately show ?case by (auto simp: distinct_map) blast
  qed simp
  then show ?case by simp
qed simp_all

lemma fs_wf_lookup: "fs_wf n \<Longrightarrow> lookup n p = Some m \<Longrightarrow> fs_wf m"
  by (induction n p rule: lookup.induct)
    (auto simp: list_all_iff split: option.splits dest: map_of_SomeD)

lemma elem_le_sum_list': "(x :: nat) \<in> set xs \<Longrightarrow> x \<le> sum_list xs"
  by (induction xs) auto

lemma dir_count_lookup: "lookup n p = Some m \<Longrightarrow> dir_count m \<le> dir_count n"
proof (induction n p rule: lookup.induct)
  case (2 es x xs)
  then obtain k where k: "map_of es x = Some k" "dir_count m \<le> dir_count k"
    by (auto split: option.splits)
  have "dir_count k \<in> set (map (\<lambda>e. dir_count (snd e)) es)"
    using map_of_SomeD [OF k(1)] by force
  then have "dir_count k \<le> sum_list (map (\<lambda>e. dir_count (snd e)) es)" by (rule elem_le_sum_list')
  with k(2) show ?case by simp
qed simp_all

definition found_under :: "local_workspace \<Rightarrow> node \<Rightarrow> apath \<Rightarrow> apath multiset" where
  "found_under ws fs d =
     image_mset (\<lambda>q. drop (length (ws_root ws)) d @ q) (mset (files_under (the (lookup fs d))))"

definition dirs_below :: "node \<Rightarrow> apath list \<Rightarrow> nat" where
  "dirs_below fs ds = sum_list (map (\<lambda>d. dir_count (the (lookup fs d))) ds)"

definition open_dir :: "local_workspace \<Rightarrow> node \<Rightarrow> apath \<Rightarrow> bool" where
  "open_dir ws fs d \<longleftrightarrow> prefix (ws_root ws) d \<and> list_all (\<lambda>n. \<not> has_nul n) d
     \<and> (\<exists>es. lookup fs d = Some (Dir es))"

definition entry_found :: "local_workspace \<Rightarrow> apath \<Rightarrow> string \<times> node \<Rightarrow> apath multiset" where
  "entry_found ws d e =
     image_mset (\<lambda>q. drop (length (ws_root ws)) d @ fst e # q) (mset (files_under (snd e)))"

lemma list_entries_ok:
  assumes "list_all (open_dir ws fs) dirs" and "open_dir ws fs d" and "stat_at fs [] = Some KDir"
    and "list_all (\<lambda>e. lookup fs (d @ [fst e]) = Some (snd e) \<and> \<not> has_nul (fst e)) es"
  shows "\<exists>dirs' files'. list_entries ws fs d (map (\<lambda>(n, v). (n, kind_of_node v)) es) dirs files
      = Inr (dirs', files')
    \<and> list_all (open_dir ws fs) dirs'
    \<and> mset files' + sum_list (map (found_under ws fs) dirs')
        = mset files + sum_list (map (found_under ws fs) dirs) + sum_list (map (entry_found ws d) es)
    \<and> dirs_below fs dirs' = dirs_below fs dirs + sum_list (map (\<lambda>e. dir_count (snd e)) es)"
  using assms(1,4)
proof (induction es arbitrary: dirs files)
  case (Cons e es)
  obtain name v where e: "e = (name, v)" by (cases e)
  from Cons.prems have look: "lookup fs (d @ [name]) = Some v" and nul: "\<not> has_nul name"
    by (simp_all add: e)
  have pre: "prefix (ws_root ws) (d @ [name])" "list_all (\<lambda>n. \<not> has_nul n) (d @ [name])"
      and dr: "drop (length (ws_root ws)) (d @ [name]) = drop (length (ws_root ws)) d @ [name]"
    using assms(2) nul by (auto simp: open_dir_def dest: prefix_length_le)
  have can: "canonicalize fs (RootDir # map Normal (d @ [name])) = Inr (d @ [name])"
    if "kind_of_node v = KDir \<or> (\<exists>c. kind_of_node v = KFile c)"
    by (rule canonicalize_self [OF _ pre(2) assms(3)]) (use that look in \<open>auto simp: stat_at_def\<close>)
  show ?case
  proof (cases v)
    case (RegFile c)
    with can pre(1) have step: "list_entries ws fs d (map (\<lambda>(n, v). (n, kind_of_node v)) (e # es)) dirs files
      = list_entries ws fs d (map (\<lambda>(n, v). (n, kind_of_node v)) es) dirs
          (files @ [drop (length (ws_root ws)) d @ [name]])"
      by (simp add: e dr del: map_append drop_append)
    from Cons.IH [OF Cons.prems(1), of "files @ [drop (length (ws_root ws)) d @ [name]]"]
    show ?thesis
      unfolding step using Cons.prems by (auto simp: e RegFile entry_found_def ac_simps)
  next
    case (Dir es')
    with can pre(1) have step: "list_entries ws fs d (map (\<lambda>(n, v). (n, kind_of_node v)) (e # es)) dirs files
      = list_entries ws fs d (map (\<lambda>(n, v). (n, kind_of_node v)) es) ((d @ [name]) # dirs) files"
      by (simp add: e del: map_append)
    have "list_all (open_dir ws fs) ((d @ [name]) # dirs)"
      using Cons.prems(1) pre look Dir by (simp add: open_dir_def [of _ _ "d @ [name]"])
    moreover have "found_under ws fs (d @ [name]) = entry_found ws d e"
      unfolding found_under_def entry_found_def dr append.assoc by (simp add: look e)
    moreover have "dirs_below fs ((d @ [name]) # dirs) = dirs_below fs dirs + dir_count v"
      by (simp add: dirs_below_def look)
    ultimately show ?thesis
      unfolding step using Cons.IH [of "(d @ [name]) # dirs" files] Cons.prems(2)
      by (auto simp: e ac_simps)
  next
    case (Symlink t)
    then show ?thesis using Cons.IH [OF Cons.prems(1), of files] Cons.prems(2)
      by (auto simp: e entry_found_def)
  qed
qed simp

lemma open_dir_entries:
  assumes "fs_wf fs" and "lookup fs d = Some (Dir es)"
  shows "list_all (\<lambda>e. lookup fs (d @ [fst e]) = Some (snd e) \<and> \<not> has_nul (fst e)) es"
proof -
  have "fs_wf (Dir es)" using fs_wf_lookup [OF assms] .
  then show ?thesis
    using assms(2) by (auto simp: list_all_iff lookup_append legal_name_def)
qed

lemma found_under_Dir:
  assumes "lookup fs d = Some (Dir es)"
  shows "found_under ws fs d = sum_list (map (entry_found ws d) es)"
proof -
  have "image_mset f (mset (concat (map (\<lambda>e. map (Cons (fst e)) (files_under (snd e))) es)))
      = sum_list (map (\<lambda>e. image_mset (\<lambda>q. f (fst e # q)) (mset (files_under (snd e)))) es)" for f
    by (induction es) (simp_all add: image_mset.compositionality comp_def)
  then show ?thesis using assms by (simp add: found_under_def entry_found_def [abs_def])
qed

lemma list_loop_ok:
  assumes "fs_wf fs" and "stat_at fs [] = Some KDir"
    and "list_all (open_dir ws fs) dirs" and "dirs_below fs dirs \<le> fuel"
  shows "\<exists>files'. list_loop fuel ws fs dirs files = Some (Inr files')
    \<and> mset files' = mset files + sum_list (map (found_under ws fs) dirs)"
  using assms(3,4)
proof (induction fuel arbitrary: dirs files)
  case 0
  then show ?case by (cases dirs) (auto simp: dirs_below_def open_dir_def)
next
  case (Suc fuel)
  show ?case
  proof (cases dirs)
    case (Cons d ds)
    with Suc.prems obtain es where es: "lookup fs d = Some (Dir es)" by (auto simp: open_dir_def)
    from Suc.prems Cons have od: "open_dir ws fs d" "list_all (open_dir ws fs) ds" by simp_all
    from list_entries_ok [OF od(2,1) assms(2) open_dir_entries [OF assms(1) es], of files]
    obtain ds' files' where r:
        "list_entries ws fs d (map (\<lambda>(n, v). (n, kind_of_node v)) es) ds files = Inr (ds', files')"
        "list_all (open_dir ws fs) ds'"
        "mset files' + sum_list (map (found_under ws fs) ds')
          = mset files + sum_list (map (found_under ws fs) ds) + found_under ws fs d"
        "dirs_below fs ds' = dirs_below fs ds + sum_list (map (\<lambda>e. dir_count (snd e)) es)"
      unfolding found_under_Dir [OF es] by blast
    have "dirs_below fs dirs = Suc (dirs_below fs ds')"
      unfolding r(4) by (simp add: Cons dirs_below_def es)
    with Suc.prems(2) have "dirs_below fs ds' \<le> fuel" by simp
    with Suc.IH [OF r(2), of files'] r(1,3) show ?thesis
      by (auto simp: Cons fs_read_dir_def es ac_simps)
  qed simp
qed

lemma list_files_eq:
  assumes "local_inv ws fs" and "fs_wf fs" and "lookup fs (ws_root ws) = Some n"
  shows "list_files ws fs = Inr (map relative_text (sort (files_under n)))"
proof -
  have root: "stat_at fs [] = Some KDir" using assms(1) stat_at_root by (auto simp: local_inv_def)
  have od: "list_all (open_dir ws fs) [ws_root ws]"
    using assms(1,3) by (auto simp: local_inv_def open_dir_def stat_at_def kind_of_node_KDir_iff)
  have fuel: "dirs_below fs [ws_root ws] \<le> dir_count fs"
    using assms(3) dir_count_lookup by (simp add: dirs_below_def)
  from list_loop_ok [OF assms(2) root od fuel, of "[]"] obtain files' where
      l: "list_loop (dir_count fs) ws fs [ws_root ws] [] = Some (Inr files')"
      and m: "mset files' = mset (files_under n)"
    using assms(3) by (auto simp: found_under_def)
  from m have "sort files' = sort (files_under n)"
    by (intro properties_for_sort) simp_all
  with l show ?thesis by (simp add: list_files_def)
qed

subsection \<open>The contract of a workspace\<close>

text \<open>What the trait \<open>Workspace\<close> promises its clients, over whatever the state is: \<open>peek\<close> looks at
  one place, \<open>inside\<close> tells which places belong to the workspace. A successful operation changes
  only inside places; a failed one removes and overwrites nothing anywhere.\<close>

locale workspace_contract =
  fixes inv :: "'s \<Rightarrow> bool"
    and peek :: "'s \<Rightarrow> 'k \<Rightarrow> 'v option"
    and inside :: "'k \<Rightarrow> bool"
    and good :: "string \<Rightarrow> bool"
    and rd :: "string \<Rightarrow> 's \<Rightarrow> string result"
    and wr :: "string \<Rightarrow> string \<Rightarrow> 's \<Rightarrow> string result \<times> 's"
    and del :: "string \<Rightarrow> 's \<Rightarrow> string result \<times> 's"
  assumes wr_inv: "inv s \<Longrightarrow> wr p c s = (r, s') \<Longrightarrow> inv s'"
    and del_inv: "inv s \<Longrightarrow> del p s = (r, s') \<Longrightarrow> inv s'"
    and wr_outside: "inv s \<Longrightarrow> wr p c s = (Inr v, s') \<Longrightarrow> \<not> inside k \<Longrightarrow> peek s' k = peek s k"
    and wr_fail: "inv s \<Longrightarrow> wr p c s = (Inl e, s') \<Longrightarrow> peek s k = Some x \<Longrightarrow> peek s' k = Some x"
    and del_outside: "inv s \<Longrightarrow> del p s = (r, s') \<Longrightarrow> \<not> inside k \<Longrightarrow> peek s' k = peek s k"
    and del_fail: "inv s \<Longrightarrow> del p s = (Inl e, s') \<Longrightarrow> s' = s"
    and wr_rd: "inv s \<Longrightarrow> wr p c s = (Inr v, s') \<Longrightarrow> good c \<Longrightarrow> rd p s' = Inr c"
begin

text \<open>Any sequence of operations, failed ones included.\<close>

fun run_ops :: "(string \<times> string option) list \<Rightarrow> 's \<Rightarrow> 's" where
  "run_ops [] s = s"
| "run_ops ((p, Some c) # ops) s = run_ops ops (snd (wr p c s))"
| "run_ops ((p, None) # ops) s = run_ops ops (snd (del p s))"

lemma run_ops_inv: "inv s \<Longrightarrow> inv (run_ops ops s)"
proof (induction ops s rule: run_ops.induct)
  case (2 p c ops s)
  then show ?case using wr_inv [of s p c] by (cases "wr p c s") simp
next
  case (3 p ops s)
  then show ?case using del_inv [of s p] by (cases "del p s") simp
qed simp

lemma run_ops_outside:
  assumes "inv s" and "peek s k = Some x" and "\<not> inside k"
  shows "peek (run_ops ops s) k = Some x"
  using assms
proof (induction ops s rule: run_ops.induct)
  case (2 p c ops s)
  obtain r s' where w: "wr p c s = (r, s')" by (cases "wr p c s")
  have "peek s' k = Some x"
    using 2 w wr_outside wr_fail by (cases r) auto
  with 2 w show ?case using wr_inv by simp
next
  case (3 p ops s)
  obtain r s' where d: "del p s = (r, s')" by (cases "del p s")
  with 3 show ?case using del_inv del_outside by simp
qed simp

lemma run_ops_then_write:
  assumes "inv s" and "wr p c (run_ops ops s) = (Inr v, s')" and "good c"
  shows "rd p s' = Inr c"
  using run_ops_inv [OF assms(1)] assms(2,3) by (rule wr_rd)

end

lemma write_text_changes:
  assumes inv: "local_inv ws fs" and w: "write_text ws path c fs = (Inr v, fs')"
    and ch: "stat_at fs' q \<noteq> stat_at fs q"
  shows "strict_prefix (ws_root ws) q"
proof -
  from inv w obtain cp where cp: "prefix (ws_root ws) cp"
      "\<And>q. q \<noteq> cp @ [last (rel_names path)] \<Longrightarrow> stat_at fs' q = stat_at fs q
       \<or> prefix (ws_root ws) q \<and> stat_at fs q = None \<and> stat_at fs' q = Some KDir"
      "stat_at fs (cp @ [last (rel_names path)]) \<noteq> Some KDir"
    by (rule write_text_ok_effect) blast
  have root: "stat_at fs (ws_root ws) = Some KDir" using inv by (simp add: local_inv_def)
  have "prefix (ws_root ws) q \<and> stat_at fs q \<noteq> Some KDir"
  proof (cases "q = cp @ [last (rel_names path)]")
    case True
    with cp(1,3) show ?thesis by simp
  next
    case False
    from cp(2) [OF this] ch show ?thesis by auto
  qed
  with root show ?thesis by (auto simp: strict_prefix_def)
qed

lemma write_text_inv:
  assumes inv: "local_inv ws fs" and w: "write_text ws path c fs = (r, fs')"
  shows "local_inv ws fs'"
proof -
  have "stat_at fs' (ws_root ws) = stat_at fs (ws_root ws)"
  proof (cases r)
    case (Inl e)
    with w inv show ?thesis
      using only_new_dirs_keeps [OF write_text_fail_effect] by (simp add: local_inv_def)
  next
    case (Inr v)
    with write_text_changes [OF inv, of path c v fs'] w show ?thesis by blast
  qed
  with inv show ?thesis by (simp add: local_inv_def)
qed

lemma delete_file_inv:
  assumes "local_inv ws fs" and "delete_file ws path fs = (r, fs')"
  shows "local_inv ws fs'"
  using assms by (rule delete_file_effect) (use assms(1) in \<open>auto simp: local_inv_def\<close>)

interpretation lw: workspace_contract "local_inv ws" stat_at "prefix (ws_root ws)" valid_utf8
    "read_text ws" "write_text ws" "delete_file ws" for ws
proof
  fix s p c r s'
  show "local_inv ws s \<Longrightarrow> write_text ws p c s = (r, s') \<Longrightarrow> local_inv ws s'"
    by (rule write_text_inv)
next
  fix s p r s'
  show "local_inv ws s \<Longrightarrow> delete_file ws p s = (r, s') \<Longrightarrow> local_inv ws s'"
    by (rule delete_file_inv)
next
  fix s p c v s' k
  assume inv: "local_inv ws s" and w: "write_text ws p c s = (Inr v, s')"
    and out: "\<not> prefix (ws_root ws) k"
  show "stat_at s' k = stat_at s k"
    using write_text_changes [OF inv w, of k] out by (auto simp: strict_prefix_def)
next
  fix s p c e s' k x
  show "local_inv ws s \<Longrightarrow> write_text ws p c s = (Inl e, s') \<Longrightarrow> stat_at s k = Some x
      \<Longrightarrow> stat_at s' k = Some x"
    using only_new_dirs_keeps [OF write_text_fail_effect] by fastforce
next
  fix s p r s' k
  assume "local_inv ws s" "delete_file ws p s = (r, s')" "\<not> prefix (ws_root ws) k"
  then show "stat_at s' k = stat_at s k"
    by (elim delete_file_effect) (auto simp: strict_prefix_def)
next
  fix s p e s'
  assume "local_inv ws s" "delete_file ws p s = (Inl e, s')"
  then show "s' = s" by (elim delete_file_effect) auto
next
  fix s p c v s'
  assume inv: "local_inv ws s" and w: "write_text ws p c s = (Inr v, s')" and "valid_utf8 c"
  from inv w show "read_text ws p s' = Inr c"
    by (rule write_text_ok_effect)
      (simp add: read_text_ok_iff [OF write_text_inv [OF inv w]] \<open>valid_utf8 c\<close>)
qed

subsection \<open>Sequences of operations\<close>

datatype ws_op = WriteText string string | WriteBytes string string | DeleteFile string

fun ws_run :: "local_workspace \<Rightarrow> ws_op list \<Rightarrow> node \<Rightarrow> node" where
  "ws_run ws [] fs = fs"
| "ws_run ws (WriteText path c # ops) fs = ws_run ws ops (snd (write_text ws path c fs))"
| "ws_run ws (WriteBytes path c # ops) fs = ws_run ws ops (snd (write_bytes ws path c fs))"
| "ws_run ws (DeleteFile path # ops) fs = ws_run ws ops (snd (delete_file ws path fs))"

fun op_entry :: "ws_op \<Rightarrow> string \<times> string option" where
  "op_entry (WriteText path c) = (path, Some c)"
| "op_entry (WriteBytes path c) = (path, Some c)"
| "op_entry (DeleteFile path) = (path, None)"

lemma ws_run_run_ops: "ws_run ws ops fs = lw.run_ops ws (map op_entry ops) fs"
  by (induction ws ops fs rule: ws_run.induct) (simp_all add: write_bytes_eq_write_text)

subsection \<open>Properties of the workspace\<close>

text \<open>A small tree with a workspace at \<open>/ws\<close>, a file outside it and a link that leads out.\<close>

definition sample_fs :: node where
  "sample_fs =
     Dir [(''etc'', Dir [(''passwd'', RegFile ''root'')]),
          (''ws'', Dir [(''index.html'', RegFile ''old''), (''out'', Symlink ''/etc'')])]"

definition sample_ws :: local_workspace where
  "sample_ws = \<lparr>ws_root = [''ws'']\<rparr>"

lemmas fs_eval = sample_fs_def sample_ws_def local_inv_def stat_at_def has_nul_def

text \<open>C7: a write that succeeds leaves exactly the given bytes in one file strictly below the
  workspace root; every other place of the whole tree is as before, or is a directory that was
  made below the root where there was nothing.\<close>

theorem workspace_write_confined:
  assumes "local_inv ws fs" and "write_text ws path content fs = (Inr rel, fs')"
  shows "\<exists>p. strict_prefix (ws_root ws) p \<and> stat_at fs' p = Some (KFile content)
    \<and> (\<forall>q. q \<noteq> p \<longrightarrow> stat_at fs' q = stat_at fs q
         \<or> strict_prefix (ws_root ws) q \<and> stat_at fs q = None \<and> stat_at fs' q = Some KDir)"
proof -
  from assms obtain cp where cp: "prefix (ws_root ws) cp"
      "stat_at fs' (cp @ [last (rel_names path)]) = Some (KFile content)"
      "\<And>q. q \<noteq> cp @ [last (rel_names path)] \<Longrightarrow> stat_at fs' q = stat_at fs q
       \<or> prefix (ws_root ws) q \<and> stat_at fs q = None \<and> stat_at fs' q = Some KDir"
    by (rule write_text_ok_effect) blast
  have "strict_prefix (ws_root ws) (cp @ [last (rel_names path)])"
    using cp(1) by (auto simp: strict_prefix_def dest: prefix_length_le)
  with cp show ?thesis using write_text_changes [OF assms] by metis
qed

theorem workspace_write_confined_witness:
  "\<exists>p. strict_prefix [''ws''] p
     \<and> stat_at (snd (write_text sample_ws ''a/b.html'' ''hi'' sample_fs)) p = Some (KFile ''hi'')"
proof -
  have "local_inv sample_ws sample_fs" by (simp add: fs_eval)
  moreover have "write_text sample_ws ''a/b.html'' ''hi'' sample_fs
      = (Inr ''a/b.html'', snd (write_text sample_ws ''a/b.html'' ''hi'' sample_fs))"
    by code_simp
  ultimately have "\<exists>p. strict_prefix (ws_root sample_ws) p
      \<and> stat_at (snd (write_text sample_ws ''a/b.html'' ''hi'' sample_fs)) p = Some (KFile ''hi'')"
    using workspace_write_confined by blast
  then show ?thesis by (simp add: sample_ws_def)
qed

text \<open>C8: whatever sequence of writes and deletions is asked for, with whatever paths, and
  whether they succeed or fail: a file, directory or link that exists outside the workspace root
  is still there afterwards, with the same contents.\<close>

theorem workspace_run_keeps_outside:
  assumes "local_inv ws fs" and "stat_at fs q = Some kd" and "\<not> prefix (ws_root ws) q"
  shows "stat_at (ws_run ws ops fs) q = Some kd"
  unfolding ws_run_run_ops using assms by (rule lw.run_ops_outside)

theorem workspace_run_keeps_outside_witness:
  "stat_at (ws_run sample_ws [WriteText ''out/passwd'' ''x'', DeleteFile ''out/passwd'',
      WriteText ''../etc/passwd'' ''x''] sample_fs) [''etc'', ''passwd''] = Some (KFile ''root'')"
  by (rule workspace_run_keeps_outside) (simp_all add: fs_eval)

text \<open>C9: what a write has put into the workspace is what a read of the same path returns, after
  any earlier operations.\<close>

theorem workspace_write_read:
  assumes "local_inv ws fs" and "write_text ws path content (ws_run ws ops fs) = (Inr rel, fs')"
    and "valid_utf8 content"
  shows "read_text ws path fs' = Inr content"
  using assms unfolding ws_run_run_ops by (rule lw.run_ops_then_write)

theorem workspace_write_read_witness:
  "read_text sample_ws ''index.html''
     (snd (write_text sample_ws ''index.html'' ''new'' (ws_run sample_ws [] sample_fs))) = Inr ''new''"
proof (rule workspace_write_read)
  show "local_inv sample_ws sample_fs" by (simp add: fs_eval)
  show "write_text sample_ws ''index.html'' ''new'' (ws_run sample_ws [] sample_fs)
      = (Inr ''index.html'',
          snd (write_text sample_ws ''index.html'' ''new'' (ws_run sample_ws [] sample_fs)))"
    by code_simp
qed code_simp

text \<open>A successful deletion removes one regular file strictly below the root and nothing
  else, and reports its path relative to the root; a failed one changes nothing.\<close>

theorem workspace_delete_exact:
  assumes "local_inv ws fs" and "delete_file ws path fs = (r, fs')"
  shows "case r of
      Inl e \<Rightarrow> fs' = fs
    | Inr rel \<Rightarrow> (\<exists>p c. strict_prefix (ws_root ws) p \<and> stat_at fs p = Some (KFile c)
        \<and> rel = relative_text (drop (length (ws_root ws)) p)
        \<and> (\<forall>q. stat_at fs' q = (if q = p then None else stat_at fs q)))"
  using assms
proof (rule delete_file_effect)
  fix p c assume "r = Inr (strip_root ws p)" "strict_prefix (ws_root ws) p"
    "stat_at fs p = Some (KFile c)" "\<And>q. stat_at fs' q = (if q = p then None else stat_at fs q)"
  then show ?thesis by (auto simp: strip_root_def strict_prefix_def intro!: exI [of _ p])
qed simp

theorem workspace_delete_exact_witness:
  "\<exists>p c. strict_prefix [''ws''] p \<and> stat_at sample_fs p = Some (KFile c)
     \<and> stat_at (snd (delete_file sample_ws ''index.html'' sample_fs)) p = None"
proof -
  have "local_inv sample_ws sample_fs" by (simp add: fs_eval)
  moreover have "delete_file sample_ws ''index.html'' sample_fs
      = (Inr ''index.html'', snd (delete_file sample_ws ''index.html'' sample_fs))"
    by code_simp
  ultimately have "case Inr ''index.html'' :: string result of
      Inl e \<Rightarrow> snd (delete_file sample_ws ''index.html'' sample_fs) = sample_fs
    | Inr rel \<Rightarrow> (\<exists>p c. strict_prefix (ws_root sample_ws) p \<and> stat_at sample_fs p = Some (KFile c)
        \<and> rel = relative_text (drop (length (ws_root sample_ws)) p)
        \<and> (\<forall>q. stat_at (snd (delete_file sample_ws ''index.html'' sample_fs)) q
              = (if q = p then None else stat_at sample_fs q)))"
    by (rule workspace_delete_exact)
  then show ?thesis by (auto simp: sample_ws_def)
qed

text \<open>C10: the listing of a workspace ends, and is the sorted list, without repetition, of exactly
  the regular files below the root: no directory, no link and nothing that only a link leads to.\<close>

theorem workspace_list_exact:
  assumes "local_inv ws fs" and "fs_wf fs"
  shows "\<exists>files. list_files ws fs = Inr (map relative_text files) \<and> sorted files \<and> distinct files
    \<and> set files = {q. \<exists>c. stat_at fs (ws_root ws @ q) = Some (KFile c)}"
proof -
  from assms(1) obtain n where n: "lookup fs (ws_root ws) = Some n"
    by (auto simp: local_inv_def stat_at_def)
  have wf: "fs_wf n" by (rule fs_wf_lookup [OF assms(2) n])
  have "stat_at fs (ws_root ws @ q) = stat_at n q" for q
    by (simp add: stat_at_def lookup_append n)
  with list_files_eq [OF assms n] files_under_iff [OF wf] distinct_files_under [OF wf]
  show ?thesis by (intro exI [of _ "sort (files_under n)"]) auto
qed

theorem workspace_list_exact_witness:
  "\<exists>files. list_files sample_ws sample_fs = Inr (map relative_text files) \<and> sorted files
     \<and> distinct files \<and> set files = {q. \<exists>c. stat_at sample_fs (ws_root sample_ws @ q) = Some (KFile c)}"
  by (rule workspace_list_exact) (simp_all add: fs_eval legal_name_def slash_def)

text \<open>A rejected write is not free of effects. \<open>resolve_for_write\<close> makes the missing parent
  directories before it checks where the parent leads, so a write through a linked directory is
  refused as escaping the root and still has made a directory outside it.\<close>

theorem workspace_rejected_write_makes_directory:
  "\<exists>fs'. write_text sample_ws ''out/new/x.html'' content sample_fs
       = (Inl (WorkspacePathEscapesRoot ''out/new/x.html''), fs')
     \<and> \<not> prefix (ws_root sample_ws) [''etc'', ''new'']
     \<and> stat_at sample_fs [''etc'', ''new''] = None \<and> stat_at fs' [''etc'', ''new''] = Some KDir"
proof -
  have "resolve_for_write sample_ws ''out/new/x.html'' sample_fs
      = (Inl (WorkspacePathEscapesRoot ''out/new/x.html''),
         put [''etc'', ''new''] (Dir []) sample_fs)"
    by code_simp
  then show ?thesis by (simp add: write_text_def fs_eval)
qed

end
