(* ===== verification/Session_Store.thy ===== *)
theory Session_Store
  imports Workspace
begin

section \<open>Session stores\<close>

text \<open>
  \<open>session/store.rs\<close>: the store in memory and the store in a file. Saving to the file makes the
  parent directory, writes a temporary file beside the target and renames it. The derived
  serialisation of a session is the pair of functions \<open>session_codec\<close>. The contract of the trait
  \<open>SessionStore\<close> is the locale \<open>session_store_contract\<close>, interpreted on both stores.
\<close>

subsection \<open>Renaming\<close>

text \<open>\<open>rename\<close> works on directory entries: a final link is moved or replaced, not followed.\<close>

definition entry_of :: "node \<Rightarrow> pcomp list \<Rightarrow> io_error + apath" where
  "entry_of fs cs =
     (case rev cs of
        Normal x # ps \<Rightarrow>
          and_then (canonicalize fs (rev ps)) (\<lambda>d.
            if has_nul x then Inl InvalidInput
            else if stat_at fs d \<noteq> Some KDir then Inl NotADirectory
            else Inr (d @ [x]))
      | _ \<Rightarrow> Inl NotADirectory)"

definition fs_rename :: "pcomp list \<Rightarrow> pcomp list \<Rightarrow> node \<Rightarrow> (io_error + unit) \<times> node" where
  "fs_rename old new fs =
     (case (entry_of fs old, entry_of fs new) of
        (Inl e, _) \<Rightarrow> (Inl e, fs)
      | (_, Inl e) \<Rightarrow> (Inl e, fs)
      | (Inr p, Inr q) \<Rightarrow>
          (case lookup fs p of
             None \<Rightarrow> (Inl NotFound, fs)
           | Some (Dir es) \<Rightarrow>
               (if p = q then (Inr (), fs)
                else if prefix p q then (Inl InvalidInput, fs)
                else case lookup fs q of
                  None \<Rightarrow> (Inr (), put q (Dir es) (remove p fs))
                | Some (Dir []) \<Rightarrow> (Inr (), put q (Dir es) (remove p fs))
                | Some (Dir (_ # _)) \<Rightarrow> (Inl (OtherIo ''Directory not empty''), fs)
                | Some _ \<Rightarrow> (Inl NotADirectory, fs))
           | Some n \<Rightarrow>
               (if stat_at fs q = Some KDir then (Inl IsADirectory, fs)
                else if p = q then (Inr (), fs)
                else (Inr (), put q n (remove p fs)))))"

subsection \<open>The two stores\<close>

definition memory_load :: "session \<Rightarrow> session result \<times> session" where
  "memory_load st = (Inr st, st)"

definition memory_save :: "session \<Rightarrow> session \<Rightarrow> unit result \<times> session" where
  "memory_save s st = (Inr (), s)"

record session_codec =
  ser_session :: "session \<Rightarrow> string + string"
  de_session :: "string \<Rightarrow> string + session"

record file_store =
  store_cwd :: apath
  store_path :: string

definition name_stem :: "string \<Rightarrow> string" where
  "name_stem n =
     (case split_last_dot n of None \<Rightarrow> n | Some (stem, ext) \<Rightarrow> (if stem = '''' then n else stem))"

text \<open>\<open>Path::with_extension\<close>: the file name with another extension; a path without one stays.\<close>

definition with_extension :: "string \<Rightarrow> pcomp list \<Rightarrow> pcomp list" where
  "with_extension ext cs =
     (case dropWhile (\<lambda>c. c = CurDir) (rev cs) of
        Normal n # ps \<Rightarrow> rev ps @ [Normal (name_stem n @ ''.'' @ ext)]
      | _ \<Rightarrow> cs)"

text \<open>A relative path starts at the working directory.\<close>

definition in_cwd :: "file_store \<Rightarrow> pcomp list \<Rightarrow> pcomp list" where
  "in_cwd st cs =
     (if is_absolute (store_path st) then cs else RootDir # map Normal (store_cwd st) @ cs)"

definition store_target :: "file_store \<Rightarrow> pcomp list" where
  "store_target st = in_cwd st (os_components (store_path st))"

definition store_tmp :: "file_store \<Rightarrow> pcomp list" where
  "store_tmp st = in_cwd st (with_extension ''json.tmp'' (os_components (store_path st)))"

definition file_load :: "session_codec \<Rightarrow> file_store \<Rightarrow> node \<Rightarrow> session result \<times> node" where
  "file_load cd st fs =
     (case fs_read_to_string (store_target st) fs of
        Inr c \<Rightarrow> (map_err (\<lambda>e. Config (''failed to parse session store '' @ store_path st @ '': '' @ e))
                   (de_session cd c), fs)
      | Inl e \<Rightarrow> (if e = NotFound then (Inr default_session, fs) else (Inl (Io e), fs)))"

definition make_parent :: "file_store \<Rightarrow> node \<Rightarrow> unit result \<times> node" where
  "make_parent st fs =
     (case path_parent (path_components (store_path st)) of
        None \<Rightarrow> (Inr (), fs)
      | Some [] \<Rightarrow> (Inr (), fs)
      | Some (c # cs) \<Rightarrow>
          (case create_dir_all (in_cwd st (c # cs)) fs of
             (Inl e, fs1) \<Rightarrow> (Inl (Io e), fs1)
           | (Inr u, fs1) \<Rightarrow> (Inr (), fs1)))"

definition replace_file :: "file_store \<Rightarrow> string \<Rightarrow> node \<Rightarrow> unit result \<times> node" where
  "replace_file st c fs =
     (case fs_write (store_tmp st) c fs of
        (Inl e, fs1) \<Rightarrow> (Inl (Io e), fs1)
      | (Inr u, fs1) \<Rightarrow>
          (case fs_rename (store_tmp st) (store_target st) fs1 of
             (Inl e, fs2) \<Rightarrow> (Inl (Io e), fs2)
           | (Inr u, fs2) \<Rightarrow> (Inr (), fs2)))"

definition file_save :: "session_codec \<Rightarrow> file_store \<Rightarrow> session \<Rightarrow> node \<Rightarrow> unit result \<times> node" where
  "file_save cd st s fs =
     (case make_parent st fs of
        (Inl e, fs1) \<Rightarrow> (Inl e, fs1)
      | (Inr u, fs1) \<Rightarrow>
          (case ser_session cd s of
             Inl e \<Rightarrow> (Inl (Serialization e), fs1)
           | Inr c \<Rightarrow> replace_file st c fs1))"

text \<open>Saves one after another, with the last one that succeeded.\<close>

fun save_each ::
    "(session \<Rightarrow> 's \<Rightarrow> unit result \<times> 's) \<Rightarrow> session list \<Rightarrow> 's \<Rightarrow> session option \<Rightarrow> session option \<times> 's"
where
  "save_each save [] st good = (good, st)"
| "save_each save (s # ss) st good =
     (case save s st of
        (Inr u, st') \<Rightarrow> save_each save ss st' (Some s)
      | (Inl e, st') \<Rightarrow> save_each save ss st' good)"

subsection \<open>The contract of a store\<close>

locale session_store_contract =
  fixes inv :: "'s \<Rightarrow> bool"
    and storable :: "session \<Rightarrow> bool"
    and load :: "'s \<Rightarrow> session result \<times> 's"
    and save :: "session \<Rightarrow> 's \<Rightarrow> unit result \<times> 's"
  assumes load_state: "load st = (r, st') \<Longrightarrow> st' = st"
    and save_inv: "inv st \<Longrightarrow> save s st = (w, st') \<Longrightarrow> inv st'"
    and save_load: "inv st \<Longrightarrow> storable s \<Longrightarrow> save s st = (Inr (), st') \<Longrightarrow> fst (load st') = Inr s"
    and save_fail: "inv st \<Longrightarrow> save s st = (Inl e, st') \<Longrightarrow> fst (load st') = fst (load st)"
begin

text \<open>After any saves, of which some may have failed, the store holds the last one that succeeded.\<close>

lemma save_each_load:
  assumes "inv st" and "list_all storable ss" and "save_each save ss st good = (good', st')"
    and "case good of None \<Rightarrow> fst (load st) = r0 | Some s \<Rightarrow> fst (load st) = Inr s"
  shows "case good' of None \<Rightarrow> fst (load st') = r0 | Some s \<Rightarrow> fst (load st') = Inr s"
  using assms
proof (induction ss arbitrary: st good)
  case (Cons s ss)
  obtain r st1 where sv: "save s st = (r, st1)" by (cases "save s st")
  have inv1: "inv st1" using Cons.prems(1) sv by (rule save_inv)
  show ?case
  proof (cases r)
    case (Inl e)
    with Cons.prems sv save_fail [OF Cons.prems(1), of s e st1] show ?thesis
      by (intro Cons.IH [OF inv1, of good]) (auto split: option.splits)
  next
    case (Inr u)
    with Cons.prems sv save_load [OF Cons.prems(1), of s st1] show ?thesis
      by (intro Cons.IH [OF inv1, of "Some s"]) auto
  qed
qed (auto split: option.splits)

end

interpretation mem: session_store_contract "\<lambda>st. True" "\<lambda>s. True" memory_load memory_save
  by unfold_locales (simp_all add: memory_load_def memory_save_def)

subsection \<open>The file store keeps the contract\<close>

text \<open>A plain store path has no \<open>.\<close> and \<open>..\<close> segment, no NUL and no final separator, so that it
  names the file \<open>store_names\<close>. The invariant: neither this path nor the temporary file meets a link.\<close>

definition store_names :: "file_store \<Rightarrow> apath" where
  "store_names st = (if is_absolute (store_path st) then [] else store_cwd st)
     @ filter (\<lambda>s. s \<noteq> '''') (split_on slash (store_path st))"

definition plain_store :: "file_store \<Rightarrow> bool" where
  "plain_store st \<longleftrightarrow> last (split_on slash (store_path st)) \<noteq> ''''
     \<and> list_all (\<lambda>s. \<not> has_nul s) (store_names st)
     \<and> list_all (\<lambda>s. s \<noteq> ''.'' \<and> s \<noteq> ''..'') (split_on slash (store_path st))"

definition is_link :: "kind option \<Rightarrow> bool" where
  "is_link k \<longleftrightarrow> (case k of Some (KLink t) \<Rightarrow> True | _ \<Rightarrow> False)"

definition tmp_names :: "file_store \<Rightarrow> apath" where
  "tmp_names st = butlast (store_names st) @ [name_stem (last (store_names st)) @ ''.json.tmp'']"

definition no_links :: "node \<Rightarrow> apath \<Rightarrow> bool" where
  "no_links fs p \<longleftrightarrow> list_all (\<lambda>q. \<not> is_link (stat_at fs q)) (prefixes p)"

definition store_ready :: "file_store \<Rightarrow> node \<Rightarrow> bool" where
  "store_ready st fs \<longleftrightarrow> plain_store st \<and> stat_at fs [] = Some KDir
     \<and> no_links fs (store_names st) \<and> no_links fs (tmp_names st)"

definition storable :: "session_codec \<Rightarrow> session \<Rightarrow> bool" where
  "storable cd s \<longleftrightarrow>
     (case ser_session cd s of Inl e \<Rightarrow> True | Inr c \<Rightarrow> valid_utf8 c \<and> de_session cd c = Inr s)"

lemma no_linksD: "no_links fs p \<Longrightarrow> prefix q p \<Longrightarrow> stat_at fs q \<noteq> Some (KLink t)"
  by (force simp: no_links_def list_all_iff is_link_def)

lemma split_last_dot_Some:
  "split_last_dot s = Some (a, b) \<Longrightarrow> s = a @ ''.'' @ b \<and> CHR ''.'' \<notin> set b"
  "split_last_dot s = None \<Longrightarrow> CHR ''.'' \<notin> set s"
  by (induction s arbitrary: a) (auto split: option.splits if_splits)

lemma name_stem_tmp: "name_stem x @ ''.json.tmp'' \<noteq> x"
proof (cases "split_last_dot x")
  case None
  then show ?thesis by (simp add: name_stem_def)
next
  case (Some ab)
  obtain a b where ab: "ab = (a, b)" by (cases ab)
  have "x = a @ ''.'' @ b" and nd: "CHR ''.'' \<notin> set b"
    using split_last_dot_Some(1) Some ab by auto
  show ?thesis
  proof (cases "a = ''''")
    case True
    then show ?thesis using Some ab by (simp add: name_stem_def)
  next
    case False
    have "b \<noteq> ''json.tmp''" using nd by auto
    with False show ?thesis using Some ab \<open>x = a @ ''.'' @ b\<close> by (simp add: name_stem_def)
  qed
qed

lemma concat_os_segments:
  "list_all (\<lambda>s. s \<noteq> ''.'' \<and> s \<noteq> ''..'') ss \<Longrightarrow>
   concat (map os_segment ss) = map Normal (filter (\<lambda>s. s \<noteq> '''') ss)
   \<and> concat (map segment_comp ss) = map Normal (filter (\<lambda>s. s \<noteq> '''') ss)"
  by (induction ss) auto

lemma last_split_on: "s \<noteq> '''' \<Longrightarrow> last s = d \<Longrightarrow> last (split_on d s) = ''''"
  by (metis append_butlast_last_id last_snoc split_on.simps(1) split_on_append)

lemma plain_components:
  assumes "plain_store st"
  defines "ns \<equiv> filter (\<lambda>s. s \<noteq> '''') (split_on slash (store_path st))"
    and "root \<equiv> (if is_absolute (store_path st) then [RootDir] else [])"
  shows "os_components (store_path st) = root @ map Normal ns"
    and "path_components (store_path st) = root @ map Normal ns" and "ns \<noteq> []"
    and "store_names st = (if is_absolute (store_path st) then [] else store_cwd st) @ ns"
proof -
  let ?ss = "split_on slash (store_path st)"
  from assms(1) have la: "list_all (\<lambda>s. s \<noteq> ''.'' \<and> s \<noteq> ''..'') ?ss" and last: "last ?ss \<noteq> ''''"
    by (simp_all add: plain_store_def)
  from last have "\<not> (store_path st \<noteq> '''' \<and> last (store_path st) = slash)"
    using last_split_on by blast
  then show "os_components (store_path st) = root @ map Normal ns"
    using concat_os_segments [OF la] by (simp add: os_components_def ns_def root_def)
  have "hd ?ss \<noteq> ''.''" using la by (cases ?ss) auto
  then show "path_components (store_path st) = root @ map Normal ns"
    using concat_os_segments [OF la] by (simp add: path_components_def ns_def root_def Let_def)
  show "ns \<noteq> []" using last last_in_set [of ?ss] by (auto simp: ns_def filter_empty_conv)
qed (simp add: store_names_def ns_def)

lemma plain_paths:
  assumes "plain_store st"
  shows "store_names st \<noteq> []"
    and "store_target st = RootDir # map Normal (store_names st)"
    and "store_tmp st = RootDir # map Normal (tmp_names st)"
    and "make_parent st fs = (Inr (), fs) \<or> make_parent st fs =
      (case create_dir_all (RootDir # map Normal (butlast (store_names st))) fs of
         (Inl e, fs1) \<Rightarrow> (Inl (Io e), fs1) | (Inr u, fs1) \<Rightarrow> (Inr (), fs1))"
proof -
  note pc = plain_components [OF assms]
  show "store_names st \<noteq> []" using pc(3,4) by simp
  show "store_target st = RootDir # map Normal (store_names st)"
    using pc by (simp add: store_target_def in_cwd_def)
  obtain ms m where ms: "filter (\<lambda>s. s \<noteq> '''') (split_on slash (store_path st)) = ms @ [m]"
    using pc(3) by (metis rev_exhaust)
  show "store_tmp st = RootDir # map Normal (tmp_names st)"
    using pc(1,4) ms by (auto simp: store_tmp_def in_cwd_def with_extension_def tmp_names_def
        butlast_append)
  show "make_parent st fs = (Inr (), fs) \<or> make_parent st fs =
      (case create_dir_all (RootDir # map Normal (butlast (store_names st))) fs of
         (Inl e, fs1) \<Rightarrow> (Inl (Io e), fs1) | (Inr u, fs1) \<Rightarrow> (Inr (), fs1))"
    using pc(2,4) ms
    by (cases ms) (auto simp: make_parent_def path_parent_def in_cwd_def butlast_append)
qed

lemma tmp_names_fresh: "store_names st \<noteq> [] \<Longrightarrow> \<not> prefix (tmp_names st) (store_names st)"
  using name_stem_tmp by (cases "store_names st" rule: rev_cases) (simp_all add: tmp_names_def)

text \<open>Reading a plain path sees only the names along it, and a new directory on the way to a
  missing file changes nothing for it.\<close>

definition kept_on :: "apath \<Rightarrow> node \<Rightarrow> node \<Rightarrow> bool" where
  "kept_on p fs fs' \<longleftrightarrow> stat_at fs' p = stat_at fs p \<and> (\<forall>q. prefix q p \<longrightarrow>
     stat_at fs' q = stat_at fs q \<or> stat_at fs q = None \<and> stat_at fs' q = Some KDir)"

lemma walk_kept:
  assumes "kept_on (cur @ ns) fs fs'" and "no_links fs (cur @ ns)" and "list_all (\<lambda>s. \<not> has_nul s) ns"
  shows "walk False fs' k cur (map Normal ns) = walk False fs k cur (map Normal ns)"
  using assms
proof (induction ns arbitrary: cur)
  case (Cons x xs)
  have IH: "walk False fs' k (cur @ [x]) (map Normal xs) = walk False fs k (cur @ [x]) (map Normal xs)"
    using Cons.prems by (intro Cons.IH) auto
  have pre: "stat_at fs' (cur @ [x]) = stat_at fs (cur @ [x])
      \<or> stat_at fs (cur @ [x]) = None \<and> stat_at fs' (cur @ [x]) = Some KDir"
    using Cons.prems(1) by (simp add: kept_on_def)
  show ?case
  proof (cases "stat_at fs (cur @ [x])")
    case None
    have "xs \<noteq> []" if "stat_at fs' (cur @ [x]) = Some KDir"
      using that None Cons.prems(1) by (auto simp: kept_on_def)
    moreover have "stat_at fs (cur @ [x] @ q) = None" for q
    proof (cases q)
      case (Cons y ys)
      then show ?thesis
        using None stat_at_parent [of fs "cur @ [x]" y ys] by (cases "stat_at fs (cur @ x # y # ys)") auto
    qed (use None in simp)
    ultimately show ?thesis using None pre IH Cons.prems(3) by (cases xs) auto
  next
    case (Some kd)
    with Cons.prems(2) have "\<And>t. kd \<noteq> KLink t" using no_linksD [of fs _ "cur @ [x]"] by fastforce
    with Some pre IH Cons.prems(3) show ?thesis by (cases kd) auto
  qed
qed simp

lemma walk_no_links:
  assumes "no_links fs (cur @ ns)" and "walk cr fs k cur (map Normal ns) = Inr p"
  shows "p = cur @ ns"
  using assms
proof (induction ns arbitrary: cur)
  case (Cons x xs)
  show ?case
  proof (cases "stat_at fs (cur @ [x])")
    case None
    with Cons.prems show ?thesis by (auto split: if_splits)
  next
    case (Some kd)
    with Cons.prems(1) have "\<And>t. kd \<noteq> KLink t" using no_linksD [of fs _ "cur @ [x]"] by fastforce
    with Some Cons.prems Cons.IH [of "cur @ [x]"] show ?thesis by (cases kd) (auto split: if_splits)
  qed
qed simp

lemma canonicalize_names [simp]:
  "canonicalize fs (RootDir # map Normal ns) = walk False fs max_links [] (map Normal ns)"
  by (simp add: canonicalize_def)

lemma file_load_kept:
  assumes "plain_store st" and "no_links fs (store_names st)" and "kept_on (store_names st) fs fs'"
  shows "fst (file_load cd st fs') = fst (file_load cd st fs)"
proof -
  have nul: "list_all (\<lambda>s. \<not> has_nul s) (store_names st)" using assms(1) by (simp add: plain_store_def)
  have same: "walk False fs' max_links [] (map Normal (store_names st))
      = walk False fs max_links [] (map Normal (store_names st))"
    using walk_kept [of "[]"] assms(2,3) nul by simp
  moreover have "stat_at fs' p = stat_at fs p"
    if "walk False fs max_links [] (map Normal (store_names st)) = Inr p" for p
    using walk_no_links [of fs "[]"] assms(2,3) that by (auto simp: kept_on_def)
  ultimately show ?thesis
    by (cases "walk False fs max_links [] (map Normal (store_names st))")
      (auto simp: file_load_def plain_paths(2) [OF assms(1)] fs_read_to_string_def fs_read_def
        split: sum.splits)
qed

lemma no_links_keep:
  assumes "no_links fs p" and "\<And>q t. stat_at fs' q = Some (KLink t) \<Longrightarrow> stat_at fs q = Some (KLink t)"
  shows "no_links fs' p"
  unfolding no_links_def list_all_iff
proof (intro ballI notI)
  fix q
  assume q: "q \<in> set (prefixes p)" and "is_link (stat_at fs' q)"
  then obtain t where "stat_at fs' q = Some (KLink t)"
    by (auto simp: is_link_def split: option.splits kind.splits)
  with assms q show False using no_linksD [OF assms(1), of q] by auto
qed

lemma store_ready_keep:
  assumes "store_ready st fs" and "\<And>q t. stat_at fs' q = Some (KLink t) \<Longrightarrow> stat_at fs q = Some (KLink t)"
    and "stat_at fs' [] = Some KDir"
  shows "store_ready st fs'"
  using assms no_links_keep [of fs _ fs'] by (auto simp: store_ready_def)

lemma no_links_prefix: "no_links fs p \<Longrightarrow> prefix q p \<Longrightarrow> no_links fs q"
  by (force simp: no_links_def list_all_iff dest: prefix_order.trans)

lemma create_dir_all_names:
  assumes "create_dir_all (RootDir # map Normal ns) fs = (r, fs')" and "no_links fs ns"
  shows "stat_at fs' q \<noteq> stat_at fs q \<Longrightarrow> prefix q ns"
  using assms
proof (induction ns arbitrary: fs' r rule: rev_induct)
  case Nil
  then show ?case
    by (auto simp: create_dir_all.simps [of "[RootDir]"] mkdir_def metadata_of_def canonicalize_def
        path_parent_def fs_is_dir_def ok_or_def split: sum.splits if_splits option.splits)
next
  case (snoc x ns)
  let ?ps = "RootDir # map Normal ns"
  let ?cs = "?ps @ [Normal x]"
  have nl: "no_links fs ns" using snoc.prems(3) by (simp add: no_links_def list_all_iff)
  have mk: "prefix q (ns @ [x])" if m: "mkdir fs1 ?cs = Inr fs2" and n1: "no_links fs1 ns"
      and ch: "stat_at fs2 q \<noteq> stat_at fs1 q" for fs1 fs2
    using m
  proof (rule mkdir_effect)
    fix ps y d
    assume "?cs = ps @ [Normal y]" "canonicalize fs1 ps = Inr d"
      "\<And>q. stat_at fs2 q = (if q = d @ [y] then Some KDir else stat_at fs1 q)"
    then show ?thesis using walk_no_links [of fs1 "[]" ns] n1 ch by (auto split: if_splits)
  qed
  consider "fs' = fs" | "mkdir fs ?cs = Inr fs'" | r1 where "create_dir_all ?ps fs = (r1, fs')"
    | fs1 r1 where "create_dir_all ?ps fs = (r1, fs1)" "mkdir fs1 ?cs = Inr fs'"
    using snoc.prems(2) create_dir_all.simps [of ?cs fs]
    by (auto split: sum.splits if_splits prod.splits simp: butlast_append)
  then show ?case
  proof cases
    case (4 fs1 r1)
    have "no_links fs1 ns"
      using create_dir_all_only_new_dirs [OF 4(1)] no_links_keep [OF nl]
      unfolding only_new_dirs_def by (metis kind.distinct(5) option.inject)
    with 4 snoc.IH [OF _ 4(1) nl] mk snoc.prems(1) show ?thesis by fastforce
  qed (use snoc mk nl in auto)
qed

lemma make_parent_kept:
  assumes "store_ready st fs" and "make_parent st fs = (r, fs1)"
  shows "store_ready st fs1" and "kept_on (store_names st) fs fs1"
    and "r = Inr () \<or> (\<exists>e. r = Inl e)"
proof -
  from assms(1) have pl: "plain_store st" and nn: "no_links fs (store_names st)"
      and nt: "no_links fs (tmp_names st)" and root: "stat_at fs [] = Some KDir"
    by (simp_all add: store_ready_def)
  have nb: "no_links fs (butlast (store_names st))"
    using nn prefixeq_butlast by (rule no_links_prefix)
  have new: "only_new_dirs fs fs1 \<and> stat_at fs1 (store_names st) = stat_at fs (store_names st)"
    using plain_paths(4) [OF pl, of fs]
  proof
    assume "make_parent st fs = (Inr (), fs)"
    with assms(2) show ?thesis by simp
  next
    assume "make_parent st fs = (case create_dir_all (RootDir # map Normal (butlast (store_names st))) fs of
         (Inl e, fs1) \<Rightarrow> (Inl (Io e), fs1) | (Inr u, fs1) \<Rightarrow> (Inr (), fs1))"
    with assms(2) obtain r1 where cr: "create_dir_all (RootDir # map Normal (butlast (store_names st))) fs = (r1, fs1)"
      by (auto split: prod.splits sum.splits)
    have "\<not> prefix (store_names st) (butlast (store_names st))"
      using plain_paths(1) [OF pl] prefix_length_le [of "store_names st" "butlast (store_names st)"]
      by (cases "store_names st") auto
    with cr nb show ?thesis using create_dir_all_names create_dir_all_only_new_dirs by blast
  qed
  then show "kept_on (store_names st) fs fs1" by (auto simp: kept_on_def only_new_dirs_def)
  have "\<And>q t. stat_at fs1 q = Some (KLink t) \<Longrightarrow> stat_at fs q = Some (KLink t)"
    using new unfolding only_new_dirs_def by (metis kind.distinct(5) option.inject)
  then show "store_ready st fs1"
    by (rule store_ready_keep [OF assms(1)]) (use new root only_new_dirs_root in auto)
qed (cases r; simp)

lemma lookup_file: "stat_at fs p = Some (KFile c) \<Longrightarrow> lookup fs p = Some (RegFile c)"
  by (auto simp: stat_at_def elim: kind_of_node.elims)

lemma entry_of_names:
  assumes "stat_at fs d = Some KDir" and "list_all (\<lambda>s. \<not> has_nul s) (d @ [x])"
  shows "entry_of fs (RootDir # map Normal (d @ [x])) = Inr (d @ [x])"
  using assms walk_normals [of fs "[]" d False max_links "[]"]
  by (simp add: entry_of_def list_all_iff)

lemma name_stem_nul: "\<not> has_nul x \<Longrightarrow> \<not> has_nul (name_stem x @ ''.json.tmp'')"
  using split_last_dot_Some(1) [of x] by (auto simp: has_nul_def name_stem_def split: option.splits)

lemma write_names:
  assumes "fs_write (RootDir # map Normal (d @ [t])) c fs = (Inr u, fs1)" and "no_links fs (d @ [t])"
    and root: "stat_at fs [] = Some KDir"
  shows "stat_at fs d = Some KDir"
    and "stat_at fs1 q = (if q = d @ [t] then Some (KFile c) else stat_at fs q)"
proof -
  have w: "walk True fs max_links [] (map Normal (d @ [t])) = Inr (d @ [t])"
      and nd: "stat_at fs (d @ [t]) \<noteq> Some KDir" and fs1: "fs1 = put (d @ [t]) (RegFile c) fs"
    using assms(1,2) walk_no_links [of fs "[]" "d @ [t]" True max_links]
    by (auto simp: fs_write_def split: sum.splits if_splits)
  show d: "stat_at fs d = Some KDir"
    using walk_real [OF w root] stat_at_parent [of fs d t "[]"] nd by auto
  show "stat_at fs1 q = (if q = d @ [t] then Some (KFile c) else stat_at fs q)"
    unfolding fs1 by (rule stat_at_put_file [OF d nd])
qed

lemma rename_names:
  assumes "stat_at fs (d @ [t]) = Some (KFile c)" and "t \<noteq> x"
    and nul: "list_all (\<lambda>s. \<not> has_nul s) (d @ [x])" "\<not> has_nul t"
    and rn: "fs_rename (RootDir # map Normal (d @ [t])) (RootDir # map Normal (d @ [x])) fs = (r, fs')"
  shows "(\<exists>e. r = Inl e \<and> fs' = fs) \<or> r = Inr () \<and>
    (\<forall>q. stat_at fs' q = (if q = d @ [x] then Some (KFile c) else if q = d @ [t] then None else stat_at fs q))"
proof -
  have d: "stat_at fs d = Some KDir" using assms(1) stat_at_parent [of fs d t "[]"] by simp
  have en: "entry_of fs (RootDir # map Normal (d @ [t])) = Inr (d @ [t])"
      "entry_of fs (RootDir # map Normal (d @ [x])) = Inr (d @ [x])"
    using entry_of_names [OF d] nul by simp_all
  show ?thesis
  proof (cases "stat_at fs (d @ [x]) = Some KDir")
    case True
    with rn en lookup_file [OF assms(1)] show ?thesis by (auto simp: fs_rename_def)
  next
    case False
    let ?fs1 = "remove (d @ [t]) fs"
    have rm: "stat_at ?fs1 q = (if q = d @ [t] then None else stat_at fs q)" for q
      using stat_at_remove_leaf [of fs d t q] assms(1) by simp
    have "r = Inr ()" and fs': "fs' = put (d @ [x]) (RegFile c) ?fs1"
      using rn en lookup_file [OF assms(1)] False assms(2) by (simp_all add: fs_rename_def)
    moreover have "stat_at fs' q = (if q = d @ [x] then Some (KFile c) else stat_at ?fs1 q)" for q
      unfolding fs' by (rule stat_at_put_file) (simp_all add: rm d False)
    ultimately show ?thesis using rm by simp
  qed
qed

text \<open>What replacing the file does: an error leaves what the target reads as, a success puts the
  new contents there.\<close>

lemma replace_file_effect:
  assumes "store_ready st fs" and "replace_file st c fs = (r, fs')"
  shows "store_ready st fs' \<and> (\<forall>e. r = Inl e \<longrightarrow> kept_on (store_names st) fs fs')
    \<and> (r = Inr () \<longrightarrow> stat_at fs' (store_names st) = Some (KFile c))
    \<and> (\<forall>q. q \<noteq> store_names st \<longrightarrow> q \<noteq> tmp_names st \<longrightarrow> stat_at fs' q = stat_at fs q)"
proof -
  from assms(1) have pl: "plain_store st" and nn: "no_links fs (store_names st)"
      and nt: "no_links fs (tmp_names st)" and root: "stat_at fs [] = Some KDir"
    by (simp_all add: store_ready_def)
  obtain d x where dx: "store_names st = d @ [x]"
    using plain_paths(1) [OF pl] by (metis rev_exhaust)
  define t where "t = name_stem x @ ''.json.tmp''"
  have tmp: "tmp_names st = d @ [t]" by (simp add: tmp_names_def dx t_def)
  have tx: "t \<noteq> x" unfolding t_def by (rule name_stem_tmp)
  have nul: "list_all (\<lambda>s. \<not> has_nul s) (d @ [x])" "\<not> has_nul t"
    using pl name_stem_nul [of x] by (simp_all add: plain_store_def dx t_def)
  note paths = plain_paths(2,3) [OF pl, unfolded tmp dx]
  obtain w fs1 where wr: "fs_write (RootDir # map Normal (d @ [t])) c fs = (w, fs1)" by (rule prod.exhaust)
  show ?thesis
  proof (cases w)
    case (Inl e)
    then have "fs' = fs" "r \<noteq> Inr ()"
      using assms(2) wr by (auto simp: replace_file_def paths fs_write_def split: sum.splits if_splits)
    with assms(1) show ?thesis by (simp add: kept_on_def)
  next
    case (Inr u)
    note wn = write_names [OF wr [unfolded Inr] nt [unfolded tmp] root]
    have ready1: "store_ready st fs1"
      by (rule store_ready_keep [OF assms(1)]) (auto simp: root wn(2) split: if_splits)
    have kept1: "kept_on (store_names st) fs fs1"
      using tmp_names_fresh [of st] tx by (auto simp: kept_on_def dx tmp wn(2))
    obtain m fs2 where rn: "fs_rename (RootDir # map Normal (d @ [t])) (RootDir # map Normal (d @ [x])) fs1
        = (m, fs2)" by (rule prod.exhaust)
    have res: "(r, fs') = (map_err Io m, fs2)"
      using assms(2) wr Inr rn by (cases m) (simp_all add: replace_file_def paths)
    have "(\<exists>e. m = Inl e \<and> fs2 = fs1) \<or> m = Inr () \<and>
        (\<forall>q. stat_at fs2 q = (if q = d @ [x] then Some (KFile c) else if q = d @ [t] then None else stat_at fs1 q))"
      by (rule rename_names [OF _ tx nul rn]) (simp add: wn(2))
    then show ?thesis
    proof
      assume "\<exists>e. m = Inl e \<and> fs2 = fs1"
      with res ready1 kept1 show ?thesis by (auto simp: wn(2) tmp)
    next
      assume ok: "m = Inr () \<and> (\<forall>q. stat_at fs2 q =
        (if q = d @ [x] then Some (KFile c) else if q = d @ [t] then None else stat_at fs1 q))"
      then have "store_ready st fs2"
        using ready1 by (intro store_ready_keep [OF ready1]) (auto simp: store_ready_def split: if_splits)
      with ok res show ?thesis by (simp add: dx tmp wn(2))
    qed
  qed
qed

lemma file_save_effect:
  assumes "store_ready st fs" and "file_save cd st s fs = (r, fs')"
  shows "store_ready st fs' \<and> (\<forall>e. r = Inl e \<longrightarrow> fst (file_load cd st fs') = fst (file_load cd st fs))
    \<and> (r = Inr () \<longrightarrow> (\<exists>c. ser_session cd s = Inr c \<and> stat_at fs' (store_names st) = Some (KFile c)))"
proof -
  obtain m fs1 where mp: "make_parent st fs = (m, fs1)" by (rule prod.exhaust)
  note mk = make_parent_kept [OF assms(1) mp]
  have pl: "plain_store st" "no_links fs (store_names st)" "no_links fs1 (store_names st)"
    using assms(1) mk(1) by (simp_all add: store_ready_def)
  have l1: "fst (file_load cd st fs1) = fst (file_load cd st fs)"
    by (rule file_load_kept [OF pl(1,2) mk(2)])
  show ?thesis
  proof (cases "\<exists>c. m = Inr () \<and> ser_session cd s = Inr c")
    case True
    then obtain c where c: "m = Inr ()" "ser_session cd s = Inr c" by blast
    then have "replace_file st c fs1 = (r, fs')" using assms(2) mp by (simp add: file_save_def)
    from replace_file_effect [OF mk(1) this] show ?thesis
      using file_load_kept [OF pl(1,3)] l1 c by auto
  next
    case False
    with assms(2) mp mk(3) have "fs' = fs1" "r \<noteq> Inr ()"
      by (auto simp: file_save_def split: sum.splits)
    with mk(1) l1 show ?thesis by simp
  qed
qed

lemma make_parent_new_dirs: "make_parent st fs = (r, fs1) \<Longrightarrow> only_new_dirs fs fs1"
  by (auto simp: make_parent_def dest: create_dir_all_only_new_dirs
      split: option.splits list.splits prod.splits sum.splits)

text \<open>Beside the session file and the temporary file a save makes at most directories.\<close>

lemma file_save_elsewhere:
  assumes "store_ready st fs" and "file_save cd st s fs = (r, fs')" and "q \<noteq> store_names st" "q \<noteq> tmp_names st"
  shows "stat_at fs' q = stat_at fs q \<or> stat_at fs q = None \<and> stat_at fs' q = Some KDir"
proof -
  obtain m fs1 where mp: "make_parent st fs = (m, fs1)" by (rule prod.exhaust)
  have 1: "stat_at fs1 q = stat_at fs q \<or> stat_at fs q = None \<and> stat_at fs1 q = Some KDir"
    using make_parent_new_dirs [OF mp] by (simp add: only_new_dirs_def)
  have "fs' = fs1 \<or> (\<exists>c. replace_file st c fs1 = (r, fs'))"
    using assms(2) mp by (auto simp: file_save_def split: sum.splits)
  moreover have "stat_at fs' q = stat_at fs1 q" if "replace_file st c fs1 = (r, fs')" for c
    using replace_file_effect [OF make_parent_kept(1) [OF assms(1) mp] that] assms(3,4) by simp
  ultimately have "stat_at fs' q = stat_at fs1 q" by metis
  with 1 show ?thesis by simp
qed

lemma file_load_contents:
  assumes "store_ready st fs" and "stat_at fs (store_names st) = Some (KFile c)"
    and "valid_utf8 c" and "de_session cd c = Inr s"
  shows "fst (file_load cd st fs) = Inr s"
proof -
  have pl: "plain_store st" using assms(1) by (simp add: store_ready_def)
  obtain d x where dx: "store_names st = d @ [x]"
    using plain_paths(1) [OF pl] by (metis rev_exhaust)
  have nul: "list_all (\<lambda>s. \<not> has_nul s) (d @ [x])" using pl by (simp add: plain_store_def dx)
  have "stat_at fs d = Some KDir" using assms(2) stat_at_parent [of fs d x "[]"] by (simp add: dx)
  then have "walk False fs max_links [] (map Normal (d @ [x])) = Inr (d @ [x])"
    using nul assms(2) walk_normals [of fs "[]" d False max_links "[Normal x]"]
    by (simp add: dx list_all_iff)
  then have "fs_read_to_string (store_target st) fs = Inr c"
    using assms(2,3) plain_paths(2) [OF pl]
    by (simp add: fs_read_to_string_def fs_read_def dx canonicalize_def)
  with assms(4) show ?thesis by (simp add: file_load_def)
qed

interpretation fstore: session_store_contract "store_ready st" "storable cd" "file_load cd st" "file_save cd st"
  for st cd
proof (unfold_locales, goal_cases)
  case (1 fs r fs')
  then show ?case by (simp add: file_load_def split: sum.splits if_splits)
next
  case (2 fs s r fs')
  then show ?case using file_save_effect by blast
next
  case (3 fs s fs')
  from file_save_effect [OF 3(1,3)] 3(2) show ?case
    by (auto simp: storable_def intro: file_load_contents)
next
  case (4 fs s e fs')
  then show ?case using file_save_effect by blast
qed

definition sample_codec :: session_codec where
  "sample_codec = \<lparr>ser_session = (\<lambda>s. if s = default_session then Inr ''{}'' else Inl ''no''),
     de_session = (\<lambda>c. if c = ''{}'' then Inr default_session else Inl ''bad'')\<rparr>"

definition sample_store :: file_store where
  "sample_store = \<lparr>store_cwd = [''home''], store_path = ''state/s.json''\<rparr>"

text \<open>C11: the session file holds the last session that was saved. Saving goes through a temporary
  file beside the target, so after any sequence of saves, of which some may have failed at any
  step (the parent directory, the serialisation, the write, the rename), a load returns the last
  one that succeeded, or what it returned before when none did.\<close>

theorem session_file_holds_last_save:
  assumes "store_ready st fs" and "list_all (storable cd) ss"
    and "save_each (file_save cd st) ss fs None = (good, fs')"
  shows "fst (file_load cd st fs') = (case good of None \<Rightarrow> fst (file_load cd st fs) | Some s \<Rightarrow> Inr s)"
  using fstore.save_each_load [OF assms] by (auto split: option.splits)

theorem session_file_holds_last_save_witness:
  "\<exists>fs'. save_each (file_save sample_codec sample_store)
       [default_session, default_session\<lparr>turn_index := 1\<rparr>] (Dir [(''home'', Dir [])]) None
       = (Some default_session, fs')
     \<and> fst (file_load sample_codec sample_store fs') = Inr default_session"
proof -
  let ?fs = "Dir [(''home'', Dir [])]" and ?ss = "[default_session, default_session\<lparr>turn_index := 1\<rparr>]"
  have r: "store_ready sample_store ?fs" by code_simp
  have s: "list_all (storable sample_codec) ?ss" by code_simp
  obtain g fs' where g: "save_each (file_save sample_codec sample_store) ?ss ?fs None = (g, fs')"
    by (rule prod.exhaust)
  have "fst (save_each (file_save sample_codec sample_store) ?ss ?fs None) = Some default_session"
    by code_simp
  with g have "g = Some default_session" by simp
  with g session_file_holds_last_save [OF r s g] show ?thesis by auto
qed

end
