(* ===== verification/Tools.thy ===== *)
theory Tools
  imports Protocol
begin

section \<open>Messages, tools and the tool registry\<close>

text \<open>
  \<open>llm/types.rs\<close>, \<open>tools/types.rs\<close>, \<open>tools/registry.rs\<close> and \<open>tools/complete.rs\<close>. A tool is
  a record of its definition and its \<open>execute\<close> function over the state \<open>'w\<close> its context gives it
  access to. The registry is the \<open>BTreeMap\<close> from names to tools. The interface a client of a
  registry relies on is the locale \<open>tool_registry_contract\<close>, interpreted on the map.
\<close>

subsection \<open>Chat messages (llm/types.rs)\<close>

datatype chat_role = System | User | Assistant | ToolRole

record tool_call =
  call_id :: string
  call_name :: string
  call_arguments :: json

record chat_message =
  role :: chat_role
  content :: string
  tool_call_id :: "string option"
  tool_calls :: "tool_call list"

definition msg_system :: "string \<Rightarrow> chat_message" where
  "msg_system c = \<lparr>role = System, content = c, tool_call_id = None, tool_calls = []\<rparr>"

definition msg_user :: "string \<Rightarrow> chat_message" where
  "msg_user c = \<lparr>role = User, content = c, tool_call_id = None, tool_calls = []\<rparr>"

definition msg_assistant :: "string \<Rightarrow> chat_message" where
  "msg_assistant c = \<lparr>role = Assistant, content = c, tool_call_id = None, tool_calls = []\<rparr>"

definition assistant_with_tool_calls :: "string \<Rightarrow> tool_call list \<Rightarrow> chat_message" where
  "assistant_with_tool_calls c calls =
     \<lparr>role = Assistant, content = c, tool_call_id = None, tool_calls = calls\<rparr>"

definition msg_tool :: "string \<Rightarrow> chat_message" where
  "msg_tool c = \<lparr>role = ToolRole, content = c, tool_call_id = None, tool_calls = []\<rparr>"

definition tool_for_call :: "string \<Rightarrow> string \<Rightarrow> chat_message" where
  "tool_for_call i c = \<lparr>role = ToolRole, content = c, tool_call_id = Some i, tool_calls = []\<rparr>"

record chat_options =
  opt_model :: "string option"

definition default_chat_options :: chat_options where
  "default_chat_options = \<lparr>opt_model = None\<rparr>"

record llm_response =
  resp_content :: string
  resp_tool_calls :: "tool_call list"

subsection \<open>Tools (tools/types.rs)\<close>

record tool_definition =
  def_name :: string
  def_description :: string
  def_parameters :: json

record tool_result =
  res_success :: bool
  content_for_model :: string
  content_for_user :: "string option"
  should_continue :: bool

definition tool_success :: "string \<Rightarrow> tool_result" where
  "tool_success c =
     \<lparr>res_success = True, content_for_model = c, content_for_user = None, should_continue = True\<rparr>"

definition tool_complete :: "string \<Rightarrow> tool_result" where
  "tool_complete s =
     \<lparr>res_success = True, content_for_model = s, content_for_user = Some s, should_continue = False\<rparr>"

definition tool_error :: "string \<Rightarrow> tool_result" where
  "tool_error c =
     \<lparr>res_success = False, content_for_model = c, content_for_user = None, should_continue = True\<rparr>"

definition tool_json :: "serde_json \<Rightarrow> json \<Rightarrow> string option \<Rightarrow> tool_result result" where
  "tool_json sj c user =
     and_then (map_err Serialization (ser_pretty sj c)) (\<lambda>text.
       Inr \<lparr>res_success = unwrap_or True (Option.bind (json_get c ''success'') as_bool),
            content_for_model = text, content_for_user = user, should_continue = True\<rparr>)"

record 'w tool =
  tool_def :: tool_definition
  tool_run :: "json \<Rightarrow> 'w \<Rightarrow> tool_result result \<times> 'w"

subsection \<open>The registry (tools/registry.rs)\<close>

type_synonym 'w tool_registry = "(string, 'w tool) btree_map"

definition registry_new :: "'w tool_registry" where
  "registry_new = []"

definition register :: "'w tool \<Rightarrow> 'w tool_registry \<Rightarrow> 'w tool_registry" where
  "register t reg = bt_insert (def_name (tool_def t)) t reg"

definition registry_definitions :: "'w tool_registry \<Rightarrow> tool_definition list" where
  "registry_definitions reg = map (\<lambda>kv. tool_def (snd kv)) reg"

definition registry_execute ::
    "'w tool_registry \<Rightarrow> string \<Rightarrow> json \<Rightarrow> 'w \<Rightarrow> tool_result result \<times> 'w" where
  "registry_execute reg name args w =
     (case bt_get reg name of
        None \<Rightarrow> (Inl (UnknownTool name), w)
      | Some t \<Rightarrow> tool_run t args w)"

subsection \<open>The completion tool (tools/complete.rs)\<close>

definition decode_complete_args :: "json \<Rightarrow> de_error + string" where
  "decode_complete_args j =
     and_then (struct_source ''struct CompleteArgs with 1 element'' [''summary''] j) (\<lambda>src.
       req_field src ''summary'' dec_string)"

definition complete_definition :: tool_definition where
  "complete_definition =
     \<lparr>def_name = ''complete_task'',
      def_description = ''Signal that the current agent turn is complete.'',
      def_parameters = json_obj
        [(''type'', JStr ''object''),
         (''properties'', json_obj [(''summary'', json_obj [(''type'', JStr ''string'')])]),
         (''required'', JArr [JStr ''summary''])]\<rparr>"

definition complete_execute :: "serde_json \<Rightarrow> json \<Rightarrow> 'w \<Rightarrow> tool_result result \<times> 'w" where
  "complete_execute sj args w =
     (case decode_complete_args args of
        Inl e \<Rightarrow> (Inl (Serialization (de_msg sj e)), w)
      | Inr summary \<Rightarrow> (Inr (tool_complete summary), w))"

definition complete_task_tool :: "serde_json \<Rightarrow> 'w tool" where
  "complete_task_tool sj = \<lparr>tool_def = complete_definition, tool_run = complete_execute sj\<rparr>"

subsection \<open>What a client of a registry relies on\<close>

text \<open>Every registry reachable by registering tools files each tool under its own name.\<close>

definition registry_wf :: "'w tool_registry \<Rightarrow> bool" where
  "registry_wf reg \<longleftrightarrow> bt_wf reg \<and> list_all (\<lambda>kv. fst kv = def_name (tool_def (snd kv))) reg"

lemma registry_wf_new [simp]: "registry_wf registry_new"
  by (simp add: registry_wf_def registry_new_def)

lemma list_all_bt_insert:
  "list_all P m \<Longrightarrow> P (k, v) \<Longrightarrow> list_all P (bt_insert k v m)"
  by (induction k v m rule: bt_insert.induct) auto

lemma registry_wf_register: "registry_wf reg \<Longrightarrow> registry_wf (register t reg)"
  by (simp add: registry_wf_def register_def bt_wf_insert list_all_bt_insert)

locale tool_registry_contract =
  fixes wf :: "'r \<Rightarrow> bool"
    and reg :: "'w tool \<Rightarrow> 'r \<Rightarrow> 'r"
    and defs :: "'r \<Rightarrow> tool_definition list"
    and exec :: "'r \<Rightarrow> string \<Rightarrow> json \<Rightarrow> 'w \<Rightarrow> tool_result result \<times> 'w"
  assumes reg_wf: "wf r \<Longrightarrow> wf (reg t r)"
    and defs_sorted: "wf r \<Longrightarrow> sorted_wrt (<) (map def_name (defs r))"
    and defs_reg: "wf r \<Longrightarrow> set (defs (reg t r))
        = insert (tool_def t) {d \<in> set (defs r). def_name d \<noteq> def_name (tool_def t)}"
    and exec_reg: "exec (reg t r) name args w
        = (if name = def_name (tool_def t) then tool_run t args w else exec r name args w)"
    and exec_unknown: "wf r \<Longrightarrow> name \<notin> def_name ` set (defs r)
        \<Longrightarrow> exec r name args w = (Inl (UnknownTool name), w)"
begin

lemma reg_all_wf: "wf r \<Longrightarrow> wf (fold reg ts r)"
  by (induction ts arbitrary: r) (simp_all add: reg_wf)

lemma exec_last_registered:
  assumes "wf r" and "def_name (tool_def t) \<notin> (\<lambda>t'. def_name (tool_def t')) ` set ts"
  shows "exec (fold reg ts (reg t r)) (def_name (tool_def t)) args w = tool_run t args w"
proof -
  have "exec (fold reg ts r') (def_name (tool_def t)) args w
      = exec r' (def_name (tool_def t)) args w" for r'
    using assms(2) by (induction ts arbitrary: r') (auto simp: exec_reg)
  then show ?thesis by (simp add: exec_reg)
qed

lemma defs_names_fold:
  "wf r \<Longrightarrow> def_name ` set (defs (fold reg ts r))
     = def_name ` set (defs r) \<union> (\<lambda>t. def_name (tool_def t)) ` set ts"
  by (induction ts arbitrary: r) (auto simp: reg_wf defs_reg image_iff)

lemma exec_not_offered:
  "wf r \<Longrightarrow> name \<notin> def_name ` set (defs (fold reg ts r))
     \<Longrightarrow> exec (fold reg ts r) name args w = (Inl (UnknownTool name), w)"
  by (rule exec_unknown) (simp_all add: reg_all_wf)

end

lemma registry_names:
  "registry_wf r \<Longrightarrow> map def_name (registry_definitions r) = map fst r"
  by (auto simp: registry_wf_def registry_definitions_def list_all_iff)

lemma set_bt_insert:
  assumes "bt_wf m"
  shows "set (bt_insert k v m) = insert (k, v) {kv \<in> set m. fst kv \<noteq> k}"
  using bt_wf_entries [OF bt_wf_insert [OF assms], of _ _ k v] bt_wf_entries [OF assms]
  by (auto simp: bt_get_insert split: if_splits)

interpretation tr: tool_registry_contract registry_wf register registry_definitions registry_execute
proof
  fix r :: "'w tool_registry" and t
  show "registry_wf r \<Longrightarrow> registry_wf (register t r)" by (rule registry_wf_register)
  show "registry_wf r \<Longrightarrow> sorted_wrt (<) (map def_name (registry_definitions r))"
    by (simp add: registry_names) (simp add: registry_wf_def bt_wf_def)
next
  fix r :: "'w tool_registry" and t
  assume wf: "registry_wf r"
  have "set (register t r)
      = insert (def_name (tool_def t), t) {kv \<in> set r. fst kv \<noteq> def_name (tool_def t)}"
    using wf by (simp add: register_def set_bt_insert registry_wf_def)
  moreover have "fst kv = def_name (tool_def (snd kv))" if "kv \<in> set r" for kv
    using wf that by (simp add: registry_wf_def list_all_iff)
  ultimately show "set (registry_definitions (register t r))
      = insert (tool_def t) {d \<in> set (registry_definitions r). def_name d \<noteq> def_name (tool_def t)}"
    by (auto simp: registry_definitions_def image_iff)
next
  fix r :: "'w tool_registry" and t name args w
  show "registry_execute (register t r) name args w
      = (if name = def_name (tool_def t) then tool_run t args w else registry_execute r name args w)"
    by (simp add: registry_execute_def register_def bt_get_insert)
next
  fix r :: "'w tool_registry" and name args w
  assume "registry_wf r" "name \<notin> def_name ` set (registry_definitions r)"
  then have "name \<notin> fst ` set r"
    using registry_names [of r] by (metis list.set_map)
  then have "bt_get r name = None" by (simp add: bt_get_def map_of_eq_None_iff)
  then show "registry_execute r name args w = (Inl (UnknownTool name), w)"
    by (simp add: registry_execute_def)
qed

subsection \<open>Properties of the registry\<close>

text \<open>A registry built by registering tools offers each name once, in sorted order; calling a
  name that is not offered fails and has no effect, and a name is answered by the tool that was
  registered under it last.\<close>

theorem registry_dispatch:
  fixes ts :: "'w tool list" and t :: "'w tool"
  defines "reg \<equiv> fold register ts registry_new"
  shows "sorted_wrt (<) (map def_name (registry_definitions reg))
    \<and> set (map def_name (registry_definitions reg)) = (\<lambda>t. def_name (tool_def t)) ` set ts
    \<and> (name \<notin> set (map def_name (registry_definitions reg))
         \<longrightarrow> registry_execute reg name args w = (Inl (UnknownTool name), w))
    \<and> (\<forall>later. def_name (tool_def t) \<notin> (\<lambda>t'. def_name (tool_def t')) ` set later
         \<longrightarrow> registry_execute (fold register later (register t reg)) (def_name (tool_def t)) args w
             = tool_run t args w)"
proof (intro conjI impI allI)
  have wf: "registry_wf reg" unfolding reg_def by (rule tr.reg_all_wf) simp
  show "sorted_wrt (<) (map def_name (registry_definitions reg))" by (rule tr.defs_sorted [OF wf])
  show "set (map def_name (registry_definitions reg)) = (\<lambda>t. def_name (tool_def t)) ` set ts"
    using tr.defs_names_fold [OF registry_wf_new, of ts]
    by (simp add: reg_def registry_definitions_def registry_new_def image_image)
  show "registry_execute reg name args w = (Inl (UnknownTool name), w)"
    if "name \<notin> set (map def_name (registry_definitions reg))"
    using that unfolding reg_def by (intro tr.exec_not_offered) simp_all
  show "registry_execute (fold register later (register t reg)) (def_name (tool_def t)) args w
      = tool_run t args w"
    if "def_name (tool_def t) \<notin> (\<lambda>t'. def_name (tool_def t')) ` set later" for later
    using wf that by (rule tr.exec_last_registered)
qed

theorem registry_dispatch_witness:
  "registry_execute (fold register [complete_task_tool sample_serde] registry_new) ''rm'' JNull (0 :: nat)
     = (Inl (UnknownTool ''rm''), 0)"
proof -
  have "''rm'' \<notin> set (map def_name (registry_definitions
      (fold register [complete_task_tool sample_serde] registry_new)))"
    by (simp add: registry_definitions_def register_def registry_new_def complete_task_tool_def
        complete_definition_def)
  then show ?thesis
    using registry_dispatch [of "[complete_task_tool sample_serde]" "''rm''" JNull 0] by blast
qed

end
