(* ===== verification/Config.thy ===== *)
theory Config
  imports Workspace
begin

section \<open>Configuration values\<close>

text \<open>
  \<open>reshape-core/src/config.rs\<close>: the configuration records with their defaults, the provider names
  and the validation of a workspace directory. Sizes are natural numbers below the width of
  \<open>usize\<close> and \<open>u64\<close>; no arithmetic is done on them here.
\<close>

record workspace_config =
  wc_root :: string

record runtime_config =
  rc_max_tool_iterations :: nat
  rc_max_tool_calls :: nat

datatype llm_provider_kind = OpenAi

record openai_config =
  oa_model :: string
  oa_base_url :: string
  oa_api_key :: string
  oa_stream :: bool
  oa_timeout_secs :: nat
  oa_organization :: "string option"
  oa_project :: "string option"

record llm_config =
  lc_provider :: llm_provider_kind
  lc_openai :: openai_config

record tavily_config =
  tv_api_key :: string
  tv_env_key :: string
  tv_base_url :: string
  tv_search_depth :: string
  tv_max_results :: nat
  tv_topic :: string
  tv_include_answer :: bool
  tv_include_images :: bool
  tv_include_favicon :: bool
  tv_timeout_secs :: nat

record web_search_config =
  ws_enabled :: bool
  ws_provider :: string
  ws_tavily :: tavily_config

record web_fetch_config =
  wf_enabled :: bool
  wf_max_bytes :: nat
  wf_timeout_secs :: nat
  wf_max_redirects :: nat
  wf_download_dir :: string
  wf_allowed_content_types :: "string list"
  wf_ssrf_allowlist :: "string list"

record tools_config =
  tc_web_search :: web_search_config
  tc_web_fetch :: web_fetch_config

record app_config =
  ac_workspace :: workspace_config
  ac_runtime :: runtime_config
  ac_llm :: llm_config
  ac_tools :: tools_config
  ac_session_key :: string

fun provider_as_str :: "llm_provider_kind \<Rightarrow> string" where
  "provider_as_str OpenAi = ''openai''"

definition provider_try_from :: "string \<Rightarrow> llm_provider_kind result" where
  "provider_try_from v =
     (if v = ''openai'' then Inr OpenAi else Inl (Config (''unsupported llm provider: '' @ v)))"

definition default_openai_config :: openai_config where
  "default_openai_config =
     \<lparr>oa_model = ''gpt-5.5'', oa_base_url = ''https://api.openai.com/v1'', oa_api_key = '''',
      oa_stream = True, oa_timeout_secs = 120, oa_organization = None, oa_project = None\<rparr>"

definition default_tavily_config :: tavily_config where
  "default_tavily_config =
     \<lparr>tv_api_key = '''', tv_env_key = ''TAVILY_API_KEY'', tv_base_url = ''https://api.tavily.com'',
      tv_search_depth = ''basic'', tv_max_results = 5, tv_topic = ''general'',
      tv_include_answer = False, tv_include_images = False, tv_include_favicon = True,
      tv_timeout_secs = 15\<rparr>"

definition default_web_search_config :: web_search_config where
  "default_web_search_config =
     \<lparr>ws_enabled = False, ws_provider = ''tavily'', ws_tavily = default_tavily_config\<rparr>"

definition default_web_fetch_config :: web_fetch_config where
  "default_web_fetch_config =
     \<lparr>wf_enabled = False, wf_max_bytes = 52428800, wf_timeout_secs = 60, wf_max_redirects = 5,
      wf_download_dir = ''assets/downloads'',
      wf_allowed_content_types =
        [''image/png'', ''image/jpeg'', ''image/gif'', ''image/webp'', ''video/mp4'', ''video/webm'',
         ''audio/mpeg'', ''audio/wav'', ''application/pdf''],
      wf_ssrf_allowlist = []\<rparr>"

definition default_app_config :: app_config where
  "default_app_config =
     \<lparr>ac_workspace = \<lparr>wc_root = ''.''\<rparr>,
      ac_runtime = \<lparr>rc_max_tool_iterations = 8, rc_max_tool_calls = 32\<rparr>,
      ac_llm = \<lparr>lc_provider = OpenAi, lc_openai = default_openai_config\<rparr>,
      ac_tools = \<lparr>tc_web_search = default_web_search_config, tc_web_fetch = default_web_fetch_config\<rparr>,
      ac_session_key = ''local:main''\<rparr>"

definition validate_workspace :: "apath \<Rightarrow> node \<Rightarrow> string \<Rightarrow> string result" where
  "validate_workspace cwd fs path =
     (let cs = abs_components cwd path
      in if \<not> fs_exists fs cs then Inl (WorkspaceMissing path)
         else if \<not> fs_is_dir fs cs then Inl (WorkspaceNotDirectory path)
         else Inr path)"

definition config_for_workspace :: "apath \<Rightarrow> node \<Rightarrow> string \<Rightarrow> app_config result" where
  "config_for_workspace cwd fs path =
     and_then (validate_workspace cwd fs path) (\<lambda>root.
       Inr (default_app_config\<lparr>ac_workspace := \<lparr>wc_root = root\<rparr>\<rparr>))"

definition with_model :: "string \<Rightarrow> app_config \<Rightarrow> app_config" where
  "with_model m c =
     c\<lparr>ac_llm := (ac_llm c)\<lparr>lc_openai := (lc_openai (ac_llm c))\<lparr>oa_model := m\<rparr>\<rparr>\<rparr>"

lemma provider_round_trip [simp]: "provider_try_from (provider_as_str k) = Inr k"
  by (cases k) (simp add: provider_try_from_def)

text \<open>A directory that passes the validation is one a local workspace can be opened on, with the
  same two errors otherwise.\<close>

lemma validate_workspace_new:
  "validate_workspace cwd fs path = Inr r \<longleftrightarrow>
     r = path \<and> (\<exists>ws. local_workspace_new cwd fs path = Inr ws)"
proof -
  have "\<exists>c. canonicalize fs cs = Inr c" if "fs_is_dir fs cs" for cs
    using that by (auto simp: fs_is_dir_def metadata_of_def and_then_Inr_iff)
  then show ?thesis
    by (auto simp: validate_workspace_def local_workspace_new_def Let_def and_then_Inr_iff)
qed

lemma validate_workspace_error:
  "validate_workspace cwd fs path = Inl e \<Longrightarrow> local_workspace_new cwd fs path = Inl e"
  by (auto simp: validate_workspace_def local_workspace_new_def Let_def split: if_splits)

end
