(* ===== verification/Openai_Provider.thy ===== *)
theory Openai_Provider
  imports Tools Config
begin

section \<open>The OpenAI provider\<close>

text \<open>
  \<open>llm/openai.rs\<close>: the request body, the headers, the two ways of reading an answer, and the
  assembly of a streamed answer from server-sent events. The HTTP client (\<open>reqwest\<close>) and the
  parsers that \<open>serde\<close> derives for the answer structs are the fields of \<open>openai_env\<close>. The body of
  a response is the list of chunks the network delivers; \<open>aggregate_stream\<close> decodes each chunk on
  its own, as the code does, which is right exactly when no chunk ends inside a character.
\<close>

definition CHAT_COMPLETIONS_PATH :: string where
  "CHAT_COMPLETIONS_PATH = ''chat/completions''"

subsection \<open>What is sent and received\<close>

record oa_function_call =
  fc_name :: string
  fc_arguments :: string

record oa_tool_call =
  otc_id :: string
  otc_type :: string
  otc_function :: oa_function_call

record oa_message =
  om_role :: string
  om_content :: string
  om_tool_call_id :: "string option"
  om_tool_calls :: "oa_tool_call list option"

record oa_function_definition =
  fd_name :: string
  fd_description :: string
  fd_parameters :: json

record oa_tool =
  ot_type :: string
  ot_function :: oa_function_definition

record oa_request =
  or_model :: string
  or_messages :: "oa_message list"
  or_tools :: "oa_tool list option"
  or_stream :: bool

record oa_response_message =
  rm_content :: "string option"
  rm_tool_calls :: "oa_tool_call list option"

record oa_choice =
  choice_message :: oa_response_message

record oa_response =
  choices :: "oa_choice list"

record stream_function =
  sf_name :: "string option"
  sf_arguments :: "string option"

record stream_tool_call =
  stc_index :: nat
  stc_id :: "string option"
  stc_function :: "stream_function option"

record stream_delta =
  sd_content :: "string option"
  sd_tool_calls :: "stream_tool_call list option"

record stream_choice =
  delta :: stream_delta

record stream_chunk =
  stream_choices :: "stream_choice list"

record partial_tool_call =
  pt_id :: "string option"
  pt_name :: "string option"
  pt_arguments :: string

record http_response =
  status_text :: string
  status_success :: bool
  body_text :: "string + string"
  body_bytes :: "string + string"
  body_chunks :: "(string + string) list"

record 'w openai_env =
  build_client :: "nat \<Rightarrow> string + unit"
  header_value :: "string \<Rightarrow> string + string"
  http_post :: "string \<Rightarrow> (string \<times> string) list \<Rightarrow> oa_request \<Rightarrow> 'w \<Rightarrow> (string + http_response) \<times> 'w"
  de_response :: "string \<Rightarrow> string + oa_response"
  de_chunk :: "string \<Rightarrow> string + stream_chunk"

record openai_provider =
  op_config :: openai_config
  op_api_key :: string

subsection \<open>Requests\<close>

definition provider_new :: "'w openai_env \<Rightarrow> openai_config \<Rightarrow> string \<Rightarrow> openai_provider result" where
  "provider_new env cfg key =
     (if trim key = '''' then Inl (Provider ''OpenAI API key must not be empty'')
      else and_then (map_err Provider (build_client env (oa_timeout_secs cfg))) (\<lambda>u.
        Inr \<lparr>op_config = cfg, op_api_key = key\<rparr>))"

definition provider_from_config :: "'w openai_env \<Rightarrow> openai_config \<Rightarrow> openai_provider result" where
  "provider_from_config env cfg = provider_new env cfg (oa_api_key cfg)"

definition endpoint :: "openai_provider \<Rightarrow> string" where
  "endpoint p =
     trim_end_matches (CHR ''/'') (oa_base_url (op_config p)) @ ''/'' @ CHAT_COMPLETIONS_PATH"

fun role_text :: "chat_role \<Rightarrow> string" where
  "role_text System = ''system''"
| "role_text User = ''user''"
| "role_text Assistant = ''assistant''"
| "role_text ToolRole = ''tool''"

text \<open>\<open>Value::to_string\<close>, which cannot fail.\<close>

definition value_text :: "serde_json \<Rightarrow> json \<Rightarrow> string" where
  "value_text sj v = (case ser_str sj v of Inr s \<Rightarrow> s | Inl e \<Rightarrow> e)"

definition oa_call_of :: "serde_json \<Rightarrow> tool_call \<Rightarrow> oa_tool_call" where
  "oa_call_of sj c =
     \<lparr>otc_id = call_id c, otc_type = ''function'',
      otc_function = \<lparr>fc_name = call_name c, fc_arguments = value_text sj (call_arguments c)\<rparr>\<rparr>"

definition call_of_oa :: "serde_json \<Rightarrow> oa_tool_call \<Rightarrow> tool_call result" where
  "call_of_oa sj c =
     and_then (map_err (\<lambda>e. Provider (''invalid OpenAI tool call arguments for ''
                  @ fc_name (otc_function c) @ '': '' @ e))
                (de_str sj (fc_arguments (otc_function c)))) (\<lambda>args.
       Inr \<lparr>call_id = otc_id c, call_name = fc_name (otc_function c), call_arguments = args\<rparr>)"

definition oa_message_of :: "serde_json \<Rightarrow> chat_message \<Rightarrow> oa_message result" where
  "oa_message_of sj m =
     (if role m = ToolRole \<and> tool_call_id m = None
      then Inl (Provider ''OpenAI tool messages require tool_call_id'')
      else Inr \<lparr>om_role = role_text (role m), om_content = content m,
                om_tool_call_id = tool_call_id m,
                om_tool_calls = (if tool_calls m = [] then None
                                 else Some (map (oa_call_of sj) (tool_calls m)))\<rparr>)"

definition oa_tool_of :: "tool_definition \<Rightarrow> oa_tool" where
  "oa_tool_of d =
     \<lparr>ot_type = ''function'',
      ot_function = \<lparr>fd_name = def_name d, fd_description = def_description d,
                     fd_parameters = def_parameters d\<rparr>\<rparr>"

definition request_body ::
    "serde_json \<Rightarrow> openai_provider \<Rightarrow> chat_message list \<Rightarrow> tool_definition list \<Rightarrow> chat_options \<Rightarrow> bool
     \<Rightarrow> oa_request result" where
  "request_body sj p ms tools opts stream =
     and_then (collect_results (oa_message_of sj) ms) (\<lambda>oms.
       Inr \<lparr>or_model = unwrap_or (oa_model (op_config p)) (opt_model opts), or_messages = oms,
            or_tools = (if tools = [] then None else Some (map oa_tool_of tools)),
            or_stream = stream\<rparr>)"

definition optional_header ::
    "'w openai_env \<Rightarrow> string \<Rightarrow> string option \<Rightarrow> (string \<times> string) list \<Rightarrow> (string \<times> string) list result" where
  "optional_header env name v hs =
     (case v of
        None \<Rightarrow> Inr hs
      | Some s \<Rightarrow> and_then (map_err Provider (header_value env s)) (\<lambda>h. Inr (hs @ [(name, h)])))"

definition headers ::
    "'w openai_env \<Rightarrow> openai_provider \<Rightarrow> (string \<times> string) list result" where
  "headers env p =
     and_then (map_err Provider (header_value env (''Bearer '' @ op_api_key p))) (\<lambda>auth.
       and_then (optional_header env ''OpenAI-Organization'' (oa_organization (op_config p))
                  [(''content-type'', ''application/json''), (''authorization'', auth)]) (\<lambda>hs.
         optional_header env ''OpenAI-Project'' (oa_project (op_config p)) hs))"

definition post ::
    "'w openai_env \<Rightarrow> openai_provider \<Rightarrow> oa_request \<Rightarrow> 'w \<Rightarrow> http_response result \<times> 'w" where
  "post env p body w =
     (case headers env p of
        Inl e \<Rightarrow> (Inl e, w)
      | Inr hs \<Rightarrow>
          (case http_post env (endpoint p) hs body w of
             (Inl e, w') \<Rightarrow> (Inl (Provider e), w')
           | (Inr resp, w') \<Rightarrow>
               (if status_success resp then (Inr resp, w')
                else (Inl (Provider (''OpenAI chat completions request failed with status ''
                        @ status_text resp @ '': ''
                        @ (case body_text resp of Inr t \<Rightarrow> t | Inl e \<Rightarrow> e))), w'))))"

subsection \<open>A plain answer\<close>

definition into_llm_response :: "serde_json \<Rightarrow> oa_response \<Rightarrow> llm_response result" where
  "into_llm_response sj r =
     (case choices r of
        [] \<Rightarrow> Inl (Provider ''OpenAI response contained no choices'')
      | c # cs \<Rightarrow>
          and_then (collect_results (call_of_oa sj) (unwrap_or [] (rm_tool_calls (choice_message c)))) (\<lambda>calls.
            Inr \<lparr>resp_content = unwrap_or '''' (rm_content (choice_message c)),
                 resp_tool_calls = calls\<rparr>))"

subsection \<open>A streamed answer\<close>

type_synonym stream_acc = "string \<times> (nat, partial_tool_call) btree_map"

definition empty_partial :: partial_tool_call where
  "empty_partial = \<lparr>pt_id = None, pt_name = None, pt_arguments = ''''\<rparr>"

definition update_partial :: "stream_tool_call \<Rightarrow> partial_tool_call \<Rightarrow> partial_tool_call" where
  "update_partial call p =
     (let p = (case stc_id call of Some i \<Rightarrow> p\<lparr>pt_id := Some i\<rparr> | None \<Rightarrow> p)
      in case stc_function call of
           None \<Rightarrow> p
         | Some f \<Rightarrow>
             (let p = (case sf_name f of Some n \<Rightarrow> p\<lparr>pt_name := Some n\<rparr> | None \<Rightarrow> p)
              in case sf_arguments f of
                   Some a \<Rightarrow> p\<lparr>pt_arguments := pt_arguments p @ a\<rparr>
                 | None \<Rightarrow> p))"

definition apply_stream_call ::
    "stream_tool_call \<Rightarrow> (nat, partial_tool_call) btree_map \<Rightarrow> (nat, partial_tool_call) btree_map" where
  "apply_stream_call call m =
     bt_insert (stc_index call)
       (update_partial call (unwrap_or empty_partial (bt_get m (stc_index call)))) m"

definition apply_choice :: "stream_choice \<Rightarrow> stream_acc \<Rightarrow> stream_acc" where
  "apply_choice c acc =
     (fst acc @ unwrap_or '''' (sd_content (delta c)),
      fold apply_stream_call (unwrap_or [] (sd_tool_calls (delta c))) (snd acc))"

definition handle_sse_line ::
    "'w openai_env \<Rightarrow> string \<Rightarrow> stream_acc \<Rightarrow> stream_acc result" where
  "handle_sse_line env line acc =
     (case strip_prefix ''data:'' line of
        None \<Rightarrow> Inr acc
      | Some rest \<Rightarrow>
          (let data = trim_start rest
           in if data = ''[DONE]'' \<or> data = '''' then Inr acc
              else and_then (map_err (\<lambda>e. Provider (''invalid OpenAI streaming chunk: '' @ e))
                              (de_chunk env data)) (\<lambda>chunk.
                Inr (fold apply_choice (stream_choices chunk) acc))))"

definition newline :: char where
  "newline = CHR 0x0A"

definition carriage_return :: char where
  "carriage_return = CHR 0x0D"

function drain_lines :: "'w openai_env \<Rightarrow> string \<Rightarrow> stream_acc \<Rightarrow> (string \<times> stream_acc) result" where
  "drain_lines env pending acc =
     (case split_once newline pending of
        None \<Rightarrow> Inr (pending, acc)
      | Some (line, rest) \<Rightarrow>
          and_then (handle_sse_line env (trim_end_matches carriage_return line) acc)
            (\<lambda>acc'. drain_lines env rest acc'))"
  by pat_completeness auto
termination
  by (relation "measure (\<lambda>(env, pending, acc). length pending)") (auto simp: split_once_Some_iff)

declare drain_lines.simps [simp del]

fun stream_loop ::
    "'w openai_env \<Rightarrow> (string + string) list \<Rightarrow> string \<Rightarrow> stream_acc \<Rightarrow> (string \<times> stream_acc) result" where
  "stream_loop env [] pending acc = Inr (pending, acc)"
| "stream_loop env (Inl e # chunks) pending acc = Inl (Provider e)"
| "stream_loop env (Inr chunk # chunks) pending acc =
     and_then (drain_lines env (pending @ utf8_lossy chunk) acc) (\<lambda>(pending', acc').
       stream_loop env chunks pending' acc')"

definition finalize_call :: "serde_json \<Rightarrow> partial_tool_call \<Rightarrow> tool_call result" where
  "finalize_call sj p =
     and_then (ok_or (Provider ''streamed OpenAI tool call missing id'') (pt_id p)) (\<lambda>i.
       and_then (ok_or (Provider ''streamed OpenAI tool call missing function name'') (pt_name p)) (\<lambda>n.
         and_then (map_err (\<lambda>e. Provider (''invalid OpenAI streamed tool call arguments for ''
                     @ n @ '': '' @ e)) (de_str sj (pt_arguments p))) (\<lambda>args.
           Inr \<lparr>call_id = i, call_name = n, call_arguments = args\<rparr>)))"

definition finalize_tool_calls ::
    "serde_json \<Rightarrow> (nat, partial_tool_call) btree_map \<Rightarrow> tool_call list result" where
  "finalize_tool_calls sj m = collect_results (finalize_call sj) (map snd m)"

definition aggregate_stream ::
    "serde_json \<Rightarrow> 'w openai_env \<Rightarrow> (string + string) list \<Rightarrow> llm_response result" where
  "aggregate_stream sj env chunks =
     and_then (stream_loop env chunks '''' ('''', [])) (\<lambda>(pending, acc).
       and_then (if pending = '''' then Inr acc
                 else handle_sse_line env (trim_end_matches carriage_return pending) acc) (\<lambda>acc'.
         and_then (finalize_tool_calls sj (snd acc')) (\<lambda>calls.
           Inr \<lparr>resp_content = fst acc', resp_tool_calls = calls\<rparr>)))"

subsection \<open>The provider\<close>

definition chat_once ::
    "serde_json \<Rightarrow> 'w openai_env \<Rightarrow> openai_provider \<Rightarrow> chat_message list \<Rightarrow> tool_definition list
     \<Rightarrow> chat_options \<Rightarrow> 'w \<Rightarrow> llm_response result \<times> 'w" where
  "chat_once sj env p ms tools opts w =
     (case request_body sj p ms tools opts False of
        Inl e \<Rightarrow> (Inl e, w)
      | Inr body \<Rightarrow>
          (case post env p body w of
             (Inl e, w') \<Rightarrow> (Inl e, w')
           | (Inr resp, w') \<Rightarrow>
               (and_then (map_err Provider (and_then (body_bytes resp) (de_response env)))
                  (into_llm_response sj), w')))"

definition chat_streaming ::
    "serde_json \<Rightarrow> 'w openai_env \<Rightarrow> openai_provider \<Rightarrow> chat_message list \<Rightarrow> tool_definition list
     \<Rightarrow> chat_options \<Rightarrow> 'w \<Rightarrow> llm_response result \<times> 'w" where
  "chat_streaming sj env p ms tools opts w =
     (case request_body sj p ms tools opts True of
        Inl e \<Rightarrow> (Inl e, w)
      | Inr body \<Rightarrow>
          (case post env p body w of
             (Inl e, w') \<Rightarrow> (Inl e, w')
           | (Inr resp, w') \<Rightarrow> (aggregate_stream sj env (body_chunks resp), w')))"

definition provider_chat ::
    "serde_json \<Rightarrow> 'w openai_env \<Rightarrow> openai_provider \<Rightarrow> chat_message list \<Rightarrow> tool_definition list
     \<Rightarrow> chat_options \<Rightarrow> 'w \<Rightarrow> llm_response result \<times> 'w" where
  "provider_chat sj env p ms tools opts w =
     (if oa_stream (op_config p) then chat_streaming sj env p ms tools opts w
      else chat_once sj env p ms tools opts w)"

subsection \<open>Lines and chunks\<close>

lemma split_once_append:
  "split_once d p = Some (a, b) \<Longrightarrow> split_once d (p @ q) = Some (a, b @ q)"
  by (auto simp: split_once_Some_iff)

lemma drain_lines_fresh: "newline \<notin> set p \<Longrightarrow> drain_lines env p acc = Inr (p, acc)"
  by (simp add: drain_lines.simps [of env p] split_once_None_iff [THEN iffD2])

lemma drain_lines_rest: "drain_lines env p acc = Inr (p', acc') \<Longrightarrow> newline \<notin> set p'"
proof (induction env p acc rule: drain_lines.induct)
  case (1 env p acc)
  show ?case
  proof (cases "split_once newline p")
    case None
    with "1.prems" show ?thesis
      by (simp add: drain_lines.simps [of env p] split_once_None_iff [THEN iffD1])
  next
    case (Some lr)
    then obtain line rest where s: "split_once newline p = Some (line, rest)" by (cases lr) simp
    with "1.prems" obtain acc1 where "drain_lines env rest acc1 = Inr (p', acc')"
        "handle_sse_line env (trim_end_matches carriage_return line) acc = Inr acc1"
      by (auto simp: drain_lines.simps [of env p] and_then_Inr_iff)
    with "1.IH" [OF s refl] show ?thesis by blast
  qed
qed

lemma drain_lines_append:
  "drain_lines env (p @ q) acc
     = and_then (drain_lines env p acc) (\<lambda>(p', acc'). drain_lines env (p' @ q) acc')"
proof (induction env p acc rule: drain_lines.induct)
  case (1 env p acc)
  show ?case
  proof (cases "split_once newline p")
    case None
    then show ?thesis by (simp add: drain_lines.simps [of env p])
  next
    case (Some lr)
    then obtain line rest where s: "split_once newline p = Some (line, rest)" by (cases lr) simp
    show ?thesis
      using "1.IH" [OF s refl] s split_once_append [OF s, of q]
      by (cases "handle_sse_line env (trim_end_matches carriage_return line) acc")
        (simp_all add: drain_lines.simps [of env p] drain_lines.simps [of env "p @ q"])
  qed
qed

text \<open>What the loop computes depends on the chunks only through the text they decode to.\<close>

lemma stream_loop_drain:
  "newline \<notin> set pending \<Longrightarrow>
     stream_loop env (map Inr chunks) pending acc
       = drain_lines env (pending @ concat (map utf8_lossy chunks)) acc"
proof (induction chunks arbitrary: pending acc)
  case Nil
  then show ?case by (simp add: drain_lines_fresh)
next
  case (Cons c chunks)
  have "drain_lines env ((pending @ utf8_lossy c) @ concat (map utf8_lossy chunks)) acc
      = and_then (drain_lines env (pending @ utf8_lossy c) acc)
          (\<lambda>(p', acc'). drain_lines env (p' @ concat (map utf8_lossy chunks)) acc')"
    by (rule drain_lines_append)
  also have "\<dots> = and_then (drain_lines env (pending @ utf8_lossy c) acc)
      (\<lambda>(p', acc'). stream_loop env (map Inr chunks) p' acc')"
    using Cons.IH drain_lines_rest
    by (cases "drain_lines env (pending @ utf8_lossy c) acc") fastforce+
  finally show ?case by simp
qed

lemma aggregate_stream_text:
  "aggregate_stream sj env (map Inr chunks)
     = aggregate_stream sj env (map Inr chunks')"
  if "concat (map utf8_lossy chunks) = concat (map utf8_lossy chunks')"
  using that by (simp add: aggregate_stream_def stream_loop_drain)

lemma lossy_all_valid: "list_all valid_utf8 chunks \<Longrightarrow> concat (map utf8_lossy chunks) = concat chunks"
  by (induction chunks) (simp_all add: utf8_lossy_valid)

subsection \<open>Assembling tool calls\<close>

definition fragments :: "nat \<Rightarrow> stream_tool_call list \<Rightarrow> stream_tool_call list" where
  "fragments i calls = filter (\<lambda>c. stc_index c = i) calls"

definition fragment_text :: "stream_tool_call \<Rightarrow> string" where
  "fragment_text c =
     (case stc_function c of None \<Rightarrow> '''' | Some f \<Rightarrow> unwrap_or '''' (sf_arguments f))"

lemma update_partial_arguments [simp]:
  "pt_arguments (update_partial c p) = pt_arguments p @ fragment_text c"
  by (simp add: update_partial_def fragment_text_def Let_def split: option.splits)

lemma update_partial_id [simp]:
  "pt_id (update_partial c p) = (case stc_id c of Some i \<Rightarrow> Some i | None \<Rightarrow> pt_id p)"
  by (simp add: update_partial_def Let_def split: option.splits)

lemma fold_update_partial:
  "pt_arguments (fold update_partial cs p) = pt_arguments p @ concat (map fragment_text cs)"
  by (induction cs arbitrary: p) simp_all

lemma fold_apply_get:
  "bt_get (fold apply_stream_call calls m) i
     = (if fragments i calls = [] then bt_get m i
        else Some (fold update_partial (fragments i calls) (unwrap_or empty_partial (bt_get m i))))"
proof (induction calls arbitrary: m)
  case (Cons c calls)
  then show ?case
    by (cases "stc_index c = i") (simp_all add: apply_stream_call_def fragments_def bt_get_insert)
qed (simp add: fragments_def)

lemma fold_apply_wf: "bt_wf m \<Longrightarrow> bt_wf (fold apply_stream_call calls m)"
  by (induction calls arbitrary: m) (simp_all add: apply_stream_call_def bt_wf_insert)

subsection \<open>Requests for well-formed conversations\<close>

lemma request_body_ok:
  assumes "list_all (\<lambda>m. role m = ToolRole \<longrightarrow> tool_call_id m \<noteq> None) ms"
  shows "\<exists>body. request_body sj p ms tools opts stream = Inr body \<and> or_stream body = stream
    \<and> length (or_messages body) = length ms"
proof -
  have "\<exists>oms. collect_results (oa_message_of sj) ms = Inr oms \<and> length oms = length ms"
    using assms by (induction ms) (auto simp: oa_message_of_def)
  then show ?thesis by (auto simp: request_body_def)
qed

lemma call_round_trip:
  assumes "ser_str sj (call_arguments c) = Inr s" and "de_str sj s = Inr (call_arguments c)"
  shows "call_of_oa sj (oa_call_of sj c) = Inr c"
  using assms by (simp add: call_of_oa_def oa_call_of_def value_text_def)

subsection \<open>Properties of the provider\<close>

text \<open>A parser for evaluating examples: the data of a line is the content.\<close>

definition sample_env :: "unit openai_env" where
  "sample_env =
     \<lparr>build_client = (\<lambda>n. Inr ()), header_value = Inr, http_post = (\<lambda>u hs b w. (Inl ''offline'', w)),
      de_response = (\<lambda>s. Inl ''none''),
      de_chunk = (\<lambda>s. Inr \<lparr>stream_choices = [\<lparr>delta = \<lparr>sd_content = Some s, sd_tool_calls = None\<rparr>\<rparr>]\<rparr>)\<rparr>"

text \<open>C14: the answer assembled from a stream does not depend on how the network cuts it into
  chunks, inside lines, between them or inside a line ending, as long as no cut falls inside a
  character: two ways of cutting the same bytes into chunks of valid UTF-8 give the same response
  or the same error.\<close>

theorem stream_chunking_irrelevant:
  assumes "list_all valid_utf8 chunks" and "list_all valid_utf8 chunks'"
    and "concat chunks = concat chunks'"
  shows "aggregate_stream sj env (map Inr chunks) = aggregate_stream sj env (map Inr chunks')"
  using assms by (intro aggregate_stream_text) (simp add: lossy_all_valid)

theorem stream_chunking_irrelevant_witness:
  "aggregate_stream sample_serde sample_env (map Inr [''da'', ''ta: hi'' @ [newline]])
     = aggregate_stream sample_serde sample_env (map Inr [''data: h'', ''i'', [newline]])"
  by (rule stream_chunking_irrelevant) code_simp+

text \<open>Each chunk is decoded on its own, so a cut inside a character destroys it: the two bytes
  of one letter arrive as two replacement characters when they come in different chunks.\<close>

theorem stream_cut_character_is_lost:
  "aggregate_stream sample_serde sample_env [Inr (''data:'' @ [CHR 0xC3]), Inr [CHR 0xA9]]
     = Inr \<lparr>resp_content = replacement @ replacement, resp_tool_calls = []\<rparr>
   \<and> aggregate_stream sample_serde sample_env [Inr (''data:'' @ [CHR 0xC3, CHR 0xA9])]
     = Inr \<lparr>resp_content = [CHR 0xC3, CHR 0xA9], resp_tool_calls = []\<rparr>"
  by code_simp

text \<open>Streamed tool calls are assembled per index: whatever the order in which the fragments
  of several calls are interleaved, there is one call per index that occurred, in increasing order
  of index, and its argument text is the concatenation of the fragments for that index in the
  order of arrival.\<close>

theorem stream_calls_assembled:
  fixes calls :: "stream_tool_call list"
  defines "m \<equiv> fold apply_stream_call calls []"
  shows "sorted_wrt (<) (map fst m) \<and> set (map fst m) = set (map stc_index calls)
    \<and> (\<forall>(i, p) \<in> set m. pt_arguments p = concat (map fragment_text (fragments i calls)))"
proof (intro conjI)
  have wf: "bt_wf m" unfolding m_def by (rule fold_apply_wf) simp
  then show "sorted_wrt (<) (map fst m)" by (simp add: bt_wf_def)
  have dom: "i \<in> set (map fst m) \<longleftrightarrow> bt_get m i \<noteq> None" for i
    by (simp add: bt_get_def map_of_eq_None_iff)
  have "bt_get m i \<noteq> None \<longleftrightarrow> i \<in> set (map stc_index calls)" for i
    unfolding m_def fold_apply_get by (auto simp: fragments_def filter_empty_conv)
  with dom show "set (map fst m) = set (map stc_index calls)" by blast
  show "\<forall>(i, p) \<in> set m. pt_arguments p = concat (map fragment_text (fragments i calls))"
  proof (clarify)
    fix i p assume "(i, p) \<in> set m"
    then have "bt_get m i = Some p" using bt_wf_entries [OF wf] by simp
    then show "pt_arguments p = concat (map fragment_text (fragments i calls))"
      unfolding m_def fold_apply_get
      by (auto simp: fold_update_partial empty_partial_def split: if_splits)
  qed
qed

theorem stream_calls_assembled_witness:
  "set (map fst (fold apply_stream_call
     [\<lparr>stc_index = 1, stc_id = Some ''a'', stc_function = None\<rparr>,
      \<lparr>stc_index = 0, stc_id = Some ''b'', stc_function = None\<rparr>] [])) = {0, 1}"
  using stream_calls_assembled [of "[\<lparr>stc_index = 1, stc_id = Some ''a'', stc_function = None\<rparr>,
      \<lparr>stc_index = 0, stc_id = Some ''b'', stc_function = None\<rparr>]"]
  by auto

end
