(* ===== verification/File_Tool.thy ===== *)
theory File_Tool
  imports Workspace Tools
begin

section \<open>The file tools\<close>

text \<open>
  \<open>tools/html.rs\<close> and \<open>tools/file.rs\<close>: listing, paginated reading, writing with HTML
  normalisation, and deletion. The HTML parser and validator (\<open>ironhtml_parser\<close>) and the rewriter
  (\<open>lol_html\<close>) are the fields of \<open>html_env\<close>: the elements of a document with their attributes, the
  complaints of the validator, and the document with a fragment appended to its head.
\<close>

record html_env =
  html_elements :: "string \<Rightarrow> string \<Rightarrow> (string \<Rightarrow> string option) list"
  html_validate :: "string \<Rightarrow> (string \<times> string) list"
  append_to_head :: "string \<Rightarrow> string \<Rightarrow> string + string"

subsection \<open>HTML documents (tools/html.rs)\<close>

definition quote :: string where
  "quote = [CHR 0x22]"

definition is_html_path :: "string \<Rightarrow> bool" where
  "is_html_path path \<longleftrightarrow> path_extension path = Some ''html'' \<or> path_extension path = Some ''htm''"

definition is_normal :: "pcomp \<Rightarrow> bool" where
  "is_normal c = (case c of Normal n \<Rightarrow> True | _ \<Rightarrow> False)"

definition default_stylesheet_href :: "string \<Rightarrow> string" where
  "default_stylesheet_href path =
     (let n = (case path_parent (path_components path) of
                 None \<Rightarrow> 0
               | Some parent \<Rightarrow> length (filter is_normal parent))
      in if n = 0 then ''assets/site.css'' else concat (replicate n ''../'') @ ''assets/site.css'')"

definition stylesheet_link :: "string \<Rightarrow> string" where
  "stylesheet_link href = ''<link rel='' @ quote @ ''stylesheet'' @ quote @ '' href='' @ quote @ href @ quote @ ''>''"

definition complete_document :: "string \<Rightarrow> string \<Rightarrow> string" where
  "complete_document c href =
     (let normalized = to_ascii_lowercase (trim_start c)
      in if contains_str ''<html'' normalized \<and> contains_str ''<head'' normalized then c
         else ''<!doctype html><html lang='' @ quote @ ''zh-CN'' @ quote @ ''><head><meta charset='' @ quote
           @ ''utf-8'' @ quote @ ''><meta name='' @ quote @ ''viewport'' @ quote @ '' content='' @ quote
           @ ''width=device-width, initial-scale=1'' @ quote @ ''>'' @ stylesheet_link href
           @ ''</head><body>'' @ c @ ''</body></html>'')"

text \<open>\<open>split_ascii_whitespace\<close>.\<close>

definition is_ascii_space :: "char \<Rightarrow> bool" where
  "is_ascii_space c \<longleftrightarrow> c \<in> set [CHR 0x20, CHR 0x09, CHR 0x0A, CHR 0x0C, CHR 0x0D]"

fun ascii_words :: "string \<Rightarrow> string \<Rightarrow> string list" where
  "ascii_words w [] = (if w = [] then [] else [w])"
| "ascii_words w (c # s) =
     (if is_ascii_space c then (if w = [] then [] else [w]) @ ascii_words [] s
      else ascii_words (w @ [c]) s)"

definition has_default_stylesheet :: "html_env \<Rightarrow> string \<Rightarrow> string \<Rightarrow> bool" where
  "has_default_stylesheet he html href =
     list_ex (\<lambda>el. (case el ''rel'' of None \<Rightarrow> False
                    | Some rel \<Rightarrow> ''stylesheet'' \<in> set (ascii_words [] rel))
                  \<and> el ''href'' = Some href)
       (html_elements he html ''link'')"

definition validate_document :: "html_env \<Rightarrow> string \<Rightarrow> string \<Rightarrow> string + unit" where
  "validate_document he path html =
     (let errors = html_validate he html
      in if errors = [] then Inr ()
         else Inl (''invalid HTML for '' @ path @ '': ''
                @ join ''; '' (map (\<lambda>(el, msg). ''<'' @ el @ ''>: '' @ msg) (take 3 errors))))"

definition normalize_html_write :: "html_env \<Rightarrow> string \<Rightarrow> string \<Rightarrow> string + string option" where
  "normalize_html_write he path c =
     (if \<not> is_html_path path then Inr None
      else
        let href = default_stylesheet_href path;
            document = complete_document c href
        in and_then (validate_document he path document) (\<lambda>u.
             if has_default_stylesheet he document href then Inr (Some document)
             else and_then (map_err (\<lambda>e. ''could not rewrite HTML: '' @ e)
                              (append_to_head he document (stylesheet_link href))) (\<lambda>rewritten.
               and_then (validate_document he path rewritten) (\<lambda>u. Inr (Some rewritten)))))"

subsection \<open>Arguments (tools/file.rs)\<close>

datatype file_tool_kind = FileList | FileRead | FileWrite | FileDelete

record path_args =
  pa_path :: string
  pa_offset :: "nat option"
  pa_limit :: "nat option"

record write_args =
  wa_path :: string
  wa_content :: string

definition DEFAULT_READ_LIMIT :: nat where
  "DEFAULT_READ_LIMIT = 2000"

definition file_error ::
    "serde_json \<Rightarrow> string \<Rightarrow> string \<Rightarrow> string option \<Rightarrow> string \<Rightarrow> string \<Rightarrow> tool_result result" where
  "file_error sj tool action path err hint =
     (let c = json_obj [(''tool'', JStr tool), (''action'', JStr action), (''success'', JBool False),
                (''recoverable'', JBool True), (''error'', JStr err), (''retry_hint'', JStr hint)]
      in tool_json sj (case path of None \<Rightarrow> c | Some p \<Rightarrow> json_set c ''path'' (JStr p)) None)"

definition decode_path_args :: "json \<Rightarrow> de_error + path_args" where
  "decode_path_args j =
     and_then (struct_source ''struct PathArgs with 3 elements'' [''path'', ''offset'', ''limit''] j) (\<lambda>src.
       and_then (visit_entries (\<lambda>k v.
           if k = ''path'' then error_of (dec_string v)
           else if k = ''offset'' \<or> k = ''limit'' then error_of (dec_option dec_usize v) else None) src) (\<lambda>u.
         and_then (req_field src ''path'' dec_string) (\<lambda>path.
           and_then (default_field src ''offset'' None (dec_option dec_usize)) (\<lambda>offset.
             and_then (default_field src ''limit'' None (dec_option dec_usize)) (\<lambda>limit.
               Inr \<lparr>pa_path = path, pa_offset = offset, pa_limit = limit\<rparr>)))))"

definition decode_write_args :: "json \<Rightarrow> de_error + write_args" where
  "decode_write_args j =
     and_then (struct_source ''struct WriteArgs with 2 elements'' [''path'', ''content''] j) (\<lambda>src.
       and_then (visit_entries (\<lambda>k v.
           if k = ''path'' \<or> k = ''content'' then error_of (dec_string v) else None) src) (\<lambda>u.
         and_then (req_field src ''path'' dec_string) (\<lambda>path.
           and_then (req_field src ''content'' dec_string) (\<lambda>c.
             Inr \<lparr>wa_path = path, wa_content = c\<rparr>))))"

definition parse_path_args ::
    "serde_json \<Rightarrow> string \<Rightarrow> string \<Rightarrow> json \<Rightarrow> (tool_result + path_args) result" where
  "parse_path_args sj tool action j =
     (case decode_path_args j of
        Inr a \<Rightarrow> Inr (Inr a)
      | Inl e \<Rightarrow> and_then (file_error sj tool action None (''invalid arguments: '' @ de_msg sj e)
                   (''Call '' @ tool @ '' with the required schema fields.'')) (\<lambda>r. Inr (Inl r)))"

definition parse_write_args :: "serde_json \<Rightarrow> json \<Rightarrow> (tool_result + write_args) result" where
  "parse_write_args sj j =
     (case decode_write_args j of
        Inr a \<Rightarrow> Inr (Inr a)
      | Inl e \<Rightarrow> and_then (file_error sj ''write_file'' ''write'' None (''invalid arguments: '' @ de_msg sj e)
                   ''Call write_file with string fields `path` and `content`.'') (\<lambda>r. Inr (Inl r)))"

definition validate_read_window :: "serde_json \<Rightarrow> path_args \<Rightarrow> tool_result option result" where
  "validate_read_window sj a =
     (if pa_offset a = Some 0
      then and_then (file_error sj ''read_file'' ''read'' (Some (pa_path a))
             ''`offset` must be greater than 0''
             ''Retry with `offset` set to a 1-indexed line number.'') (\<lambda>r. Inr (Some r))
      else if pa_limit a = Some 0
      then and_then (file_error sj ''read_file'' ''read'' (Some (pa_path a))
             ''`limit` must be greater than 0''
             ''Retry with `limit` set to the number of lines to read.'') (\<lambda>r. Inr (Some r))
      else Inr None)"

subsection \<open>The window of a read\<close>

definition numbered_lines :: "string \<Rightarrow> string list" where
  "numbered_lines c = map (\<lambda>(i, l). show_nat (i + 1) @ '': '' @ l) (enumerate 0 (str_lines c))"

definition select_lines :: "string \<Rightarrow> nat \<Rightarrow> nat \<Rightarrow> string list" where
  "select_lines c offset limit =
     (if offset - 1 \<ge> length (str_lines c) then []
      else take limit (drop (offset - 1) (numbered_lines c)))"

definition next_offset :: "string \<Rightarrow> nat \<Rightarrow> nat \<Rightarrow> nat option" where
  "next_offset c offset limit =
     (let n = offset + length (select_lines c offset limit)
      in if n \<le> length (str_lines c) then Some n else None)"

definition read_report :: "string \<Rightarrow> string \<Rightarrow> nat \<Rightarrow> nat \<Rightarrow> json" where
  "read_report path c offset limit =
     (let selected = select_lines c offset limit
      in json_obj
           [(''tool'', JStr ''read_file''), (''action'', JStr ''read''), (''success'', JBool True),
            (''path'', JStr path), (''offset'', json_nat offset), (''limit'', json_nat limit),
            (''total_lines'', json_nat (length (str_lines c))),
            (''returned_lines'', json_nat (length selected)),
            (''truncated'', JBool (next_offset c offset limit \<noteq> None)),
            (''next_offset'', (case next_offset c offset limit of None \<Rightarrow> JNull | Some n \<Rightarrow> json_nat n)),
            (''total_bytes'', json_nat (length c)), (''content'', JStr (join [CHR 0x0A] selected))])"

subsection \<open>Execution\<close>

definition execute_list ::
    "serde_json \<Rightarrow> local_workspace \<Rightarrow> 'n tool_world \<Rightarrow> tool_result result \<times> 'n tool_world" where
  "execute_list sj ws w =
     (case list_files ws (tw_fs w) of
        Inl e \<Rightarrow> (Inl e, w)
      | Inr files \<Rightarrow>
          (tool_json sj
             (json_obj [(''tool'', JStr ''list_files''), (''action'', JStr ''list''),
                (''success'', JBool True), (''file_count'', json_nat (length files)),
                (''files'', JArr (map (JStr \<circ> utf8_lossy) files))])
             (Some (''Listed '' @ show_nat (length files) @ '' workspace ''
                @ (if length files = 1 then ''file'' else ''files''))), w))"

definition execute_read ::
    "serde_json \<Rightarrow> local_workspace \<Rightarrow> json \<Rightarrow> 'n tool_world \<Rightarrow> tool_result result \<times> 'n tool_world" where
  "execute_read sj ws args w =
     (case parse_path_args sj ''read_file'' ''read'' args of
        Inl e \<Rightarrow> (Inl e, w)
      | Inr (Inl res) \<Rightarrow> (Inr res, w)
      | Inr (Inr a) \<Rightarrow>
          (case validate_read_window sj a of
             Inl e \<Rightarrow> (Inl e, w)
           | Inr (Some res) \<Rightarrow> (Inr res, w)
           | Inr None \<Rightarrow>
               (case read_text ws (pa_path a) (tw_fs w) of
                  Inl e \<Rightarrow> (Inl e, w)
                | Inr c \<Rightarrow>
                    (let offset = unwrap_or 1 (pa_offset a);
                         limit = unwrap_or DEFAULT_READ_LIMIT (pa_limit a)
                     in (tool_json sj (read_report (pa_path a) c offset limit)
                           (Some (''Read '' @ pa_path a @ '': ''
                              @ show_nat (length (select_lines c offset limit)) @ '' of ''
                              @ show_nat (length (str_lines c)) @ '' lines'')), w)))))"

definition store_text ::
    "serde_json \<Rightarrow> local_workspace \<Rightarrow> string \<Rightarrow> string \<Rightarrow> 'n tool_world \<Rightarrow> tool_result result \<times> 'n tool_world" where
  "store_text sj ws path c w =
     (case write_text ws path c (tw_fs w) of
        (Inl e, fs) \<Rightarrow> (Inl e, w\<lparr>tw_fs := fs\<rparr>)
      | (Inr written, fs) \<Rightarrow>
          (tool_json sj
             (json_obj [(''tool'', JStr ''write_file''), (''action'', JStr ''write''),
                (''success'', JBool True), (''path'', JStr written),
                (''bytes_written'', json_nat (length c)), (''normalized_html'', JBool (is_html_path path)),
                (''stylesheet_href'', (if is_html_path path then JStr (default_stylesheet_href path) else JNull)),
                (''validation'', JStr (if is_html_path path then ''valid'' else ''not_applicable''))])
             (Some (''Wrote '' @ written)), w\<lparr>tw_fs := fs\<rparr>))"

definition execute_write ::
    "serde_json \<Rightarrow> html_env \<Rightarrow> local_workspace \<Rightarrow> json \<Rightarrow> 'n tool_world \<Rightarrow> tool_result result \<times> 'n tool_world" where
  "execute_write sj he ws args w =
     (case parse_write_args sj args of
        Inl e \<Rightarrow> (Inl e, w)
      | Inr (Inl res) \<Rightarrow> (Inr res, w)
      | Inr (Inr a) \<Rightarrow>
          (case normalize_html_write he (wa_path a) (wa_content a) of
             Inl msg \<Rightarrow> (file_error sj ''write_file'' ''write'' (Some (wa_path a)) msg
                          ''Fix the HTML and call write_file again.'', w)
           | Inr normalized \<Rightarrow>
               store_text sj ws (wa_path a) (unwrap_or (wa_content a) normalized) w))"

definition execute_delete ::
    "serde_json \<Rightarrow> local_workspace \<Rightarrow> json \<Rightarrow> 'n tool_world \<Rightarrow> tool_result result \<times> 'n tool_world" where
  "execute_delete sj ws args w =
     (case parse_path_args sj ''delete_file'' ''delete'' args of
        Inl e \<Rightarrow> (Inl e, w)
      | Inr (Inl res) \<Rightarrow> (Inr res, w)
      | Inr (Inr a) \<Rightarrow>
          (case delete_file ws (pa_path a) (tw_fs w) of
             (Inl e, fs) \<Rightarrow> (Inl e, w\<lparr>tw_fs := fs\<rparr>)
           | (Inr rel, fs) \<Rightarrow>
               (tool_json sj
                  (json_obj [(''tool'', JStr ''delete_file''), (''action'', JStr ''delete''),
                     (''success'', JBool True), (''path'', JStr (utf8_lossy rel))])
                  (Some (''Deleted '' @ utf8_lossy rel)), w\<lparr>tw_fs := fs\<rparr>)))"

definition file_execute ::
    "serde_json \<Rightarrow> html_env \<Rightarrow> local_workspace \<Rightarrow> file_tool_kind \<Rightarrow> json \<Rightarrow> 'n tool_world
     \<Rightarrow> tool_result result \<times> 'n tool_world" where
  "file_execute sj he ws kd args w =
     (case kd of
        FileList \<Rightarrow> execute_list sj ws w
      | FileRead \<Rightarrow> execute_read sj ws args w
      | FileWrite \<Rightarrow> execute_write sj he ws args w
      | FileDelete \<Rightarrow> execute_delete sj ws args w)"

definition schema ::
    "string \<Rightarrow> (string \<times> json) list \<Rightarrow> string list \<Rightarrow> json" where
  "schema desc props required =
     json_obj ([(''type'', JStr ''object''), (''description'', JStr desc), (''properties'', json_obj props)]
       @ (if required = [] then [] else [(''required'', JArr (map JStr required))])
       @ [(''additionalProperties'', JBool False)])"

definition field_schema :: "string \<Rightarrow> string \<Rightarrow> (string \<times> json) list \<Rightarrow> json" where
  "field_schema ty desc extra = json_obj ([(''type'', JStr ty), (''description'', JStr desc)] @ extra)"

fun file_definition :: "file_tool_kind \<Rightarrow> tool_definition" where
  "file_definition FileList =
     \<lparr>def_name = ''list_files'',
      def_description = ''List workspace files and return structured metadata the model can use for follow-up read_file calls.'',
      def_parameters = schema ''List all files currently visible in the configured workspace.'' [] []\<rparr>"
| "file_definition FileRead =
     \<lparr>def_name = ''read_file'',
      def_description = ''Read a text file from the configured workspace with line-numbered, paginated, structured output.'',
      def_parameters = schema ''Read a UTF-8 text file. Use offset and limit to continue after truncated output.''
        [(''path'', field_schema ''string'' ''Workspace-relative path returned by list_files or chosen for a known file.''
            [(''examples'', JArr [JStr ''index.html'', JStr ''assets/site.css''])]),
         (''offset'', field_schema ''integer'' ''1-indexed line number to start reading from. Defaults to 1.''
            [(''minimum'', json_nat 1), (''default'', json_nat 1)]),
         (''limit'', field_schema ''integer'' ''Maximum number of lines to return. Defaults to 2000.''
            [(''minimum'', json_nat 1), (''default'', json_nat DEFAULT_READ_LIMIT)])] [''path'']\<rparr>"
| "file_definition FileWrite =
     \<lparr>def_name = ''write_file'',
      def_description = ''Write a text file inside the configured workspace and return structured write/HTML-normalization metadata.'',
      def_parameters = schema ''Write UTF-8 text content to a workspace-relative path. HTML files are normalized and validated before writing.''
        [(''path'', field_schema ''string'' ''Workspace-relative destination path.''
            [(''examples'', JArr [JStr ''index.html'', JStr ''pages/product-roadmap.html'', JStr ''assets/site.css''])]),
         (''content'', field_schema ''string'' ''Full file content to write.'' [])] [''path'', ''content'']\<rparr>"
| "file_definition FileDelete =
     \<lparr>def_name = ''delete_file'',
      def_description = ''Delete a file inside the configured workspace and return structured deletion metadata.'',
      def_parameters = schema ''Delete one workspace-relative file.''
        [(''path'', field_schema ''string'' ''Workspace-relative file path to delete.''
            [(''examples'', JArr [JStr ''old.html'', JStr ''assets/unused.css''])])] [''path'']\<rparr>"

definition file_tool ::
    "serde_json \<Rightarrow> html_env \<Rightarrow> local_workspace \<Rightarrow> file_tool_kind \<Rightarrow> 'n tool_world tool" where
  "file_tool sj he ws kd = \<lparr>tool_def = file_definition kd, tool_run = file_execute sj he ws kd\<rparr>"

subsection \<open>The effect of a file tool\<close>

text \<open>Whatever its arguments, a file tool changes the tree only by a workspace operation.\<close>

lemma ws_run_one:
  "snd (write_text ws p c fs) = ws_run ws [WriteText p c] fs"
  "snd (write_bytes ws p c fs) = ws_run ws [WriteBytes p c] fs"
  "snd (delete_file ws p fs) = ws_run ws [DeleteFile p] fs"
  "fs = ws_run ws [] fs"
  by simp_all

lemma ws_run_append: "ws_run ws (a @ b) fs = ws_run ws b (ws_run ws a fs)"
  by (induction ws a fs rule: ws_run.induct) simp_all

lemma store_text_ops: "\<exists>ops. tw_fs (snd (store_text sj ws path c w)) = ws_run ws ops (tw_fs w)"
proof -
  have "tw_fs (snd (store_text sj ws path c w)) = snd (write_text ws path c (tw_fs w))"
    by (simp add: store_text_def split: prod.splits sum.splits)
  then show ?thesis unfolding ws_run_one by blast
qed

lemma execute_delete_ops: "\<exists>ops. tw_fs (snd (execute_delete sj ws args w)) = ws_run ws ops (tw_fs w)"
proof (cases "\<exists>a. parse_path_args sj ''delete_file'' ''delete'' args = Inr (Inr a)")
  case True
  then obtain a where "parse_path_args sj ''delete_file'' ''delete'' args = Inr (Inr a)" by blast
  then have "tw_fs (snd (execute_delete sj ws args w)) = snd (delete_file ws (pa_path a) (tw_fs w))"
    by (simp add: execute_delete_def split: prod.splits sum.splits)
  then show ?thesis unfolding ws_run_one by blast
next
  case False
  then have "tw_fs (snd (execute_delete sj ws args w)) = ws_run ws [] (tw_fs w)"
    by (auto simp: execute_delete_def split: sum.splits)
  then show ?thesis by blast
qed

lemma execute_write_ops: "\<exists>ops. tw_fs (snd (execute_write sj he ws args w)) = ws_run ws ops (tw_fs w)"
proof (cases "\<exists>a nrm. parse_write_args sj args = Inr (Inr a)
    \<and> normalize_html_write he (wa_path a) (wa_content a) = Inr nrm")
  case True
  then show ?thesis using store_text_ops by (auto simp: execute_write_def)
next
  case False
  then have "tw_fs (snd (execute_write sj he ws args w)) = ws_run ws [] (tw_fs w)"
    by (auto simp: execute_write_def split: sum.splits)
  then show ?thesis by blast
qed

lemma file_execute_ops:
  "\<exists>ops. tw_fs (snd (file_execute sj he ws kd args w)) = ws_run ws ops (tw_fs w)"
proof (cases kd)
  case FileWrite
  then show ?thesis using execute_write_ops by (simp add: file_execute_def)
next
  case FileDelete
  then show ?thesis using execute_delete_ops by (simp add: file_execute_def)
next
  case FileList
  then have "tw_fs (snd (file_execute sj he ws kd args w)) = ws_run ws [] (tw_fs w)"
    by (simp add: file_execute_def execute_list_def split: sum.splits)
  then show ?thesis by blast
next
  case FileRead
  then have "tw_fs (snd (file_execute sj he ws kd args w)) = ws_run ws [] (tw_fs w)"
    by (simp add: file_execute_def execute_read_def Let_def split: sum.splits option.splits)
  then show ?thesis by blast
qed

subsection \<open>Pages\<close>

text \<open>A reader that follows \<open>next_offset\<close>, with fuel for the number of pages.\<close>

fun read_pages :: "nat \<Rightarrow> string \<Rightarrow> nat \<Rightarrow> nat \<Rightarrow> string list option" where
  "read_pages 0 c offset limit = None"
| "read_pages (Suc fuel) c offset limit =
     (case next_offset c offset limit of
        None \<Rightarrow> Some (select_lines c offset limit)
      | Some n \<Rightarrow> map_option (\<lambda>rest. select_lines c offset limit @ rest) (read_pages fuel c n limit))"

lemma length_numbered_lines [simp]: "length (numbered_lines c) = length (str_lines c)"
  by (simp add: numbered_lines_def)

lemma select_lines_eq: "select_lines c offset limit = take limit (drop (offset - 1) (numbered_lines c))"
  by (simp add: select_lines_def)

lemma read_pages_from:
  assumes "0 < limit" and "0 < offset" and "length (str_lines c) < offset + fuel"
  shows "read_pages (Suc fuel) c offset limit = Some (drop (offset - 1) (numbered_lines c))"
  using assms(2,3)
proof (induction fuel arbitrary: offset)
  case 0
  then show ?case by (simp add: next_offset_def Let_def select_lines_eq)
next
  case (Suc fuel)
  let ?sel = "select_lines c offset limit"
  show ?case
  proof (cases "next_offset c offset limit")
    case None
    then have "length (str_lines c) < offset + length ?sel"
      by (simp add: next_offset_def Let_def split: if_splits)
    then have "length (drop (offset - 1) (numbered_lines c)) \<le> limit"
      using Suc.prems by (auto simp: select_lines_eq min_def split: if_splits)
    with None show ?thesis by (simp add: select_lines_eq)
  next
    case (Some n)
    then have n: "n = offset + length ?sel" "n \<le> length (str_lines c)"
      by (auto simp: next_offset_def Let_def split: if_splits)
    then have len: "length ?sel = limit"
      using Suc.prems by (auto simp: select_lines_eq min_def split: if_splits)
    have "read_pages (Suc fuel) c n limit = Some (drop (n - 1) (numbered_lines c))"
      using assms(1) n len Suc.prems by (intro Suc.IH) simp_all
    moreover have "drop (n - 1) (numbered_lines c) = drop limit (drop (offset - 1) (numbered_lines c))"
      using n len Suc.prems(1) by (simp add: add.commute)
    ultimately show ?thesis
      using Some append_take_drop_id [of limit "drop (offset - 1) (numbered_lines c)"]
      by (simp add: select_lines_eq)
  qed
qed

subsection \<open>Properties of the file tools\<close>

text \<open>C15: reading a file page by page, with any positive page size, and following the reported
  \<open>next_offset\<close>, ends after finitely many pages and yields every line of the file exactly once, in
  order and with its number.\<close>

theorem read_pages_complete:
  assumes "0 < limit"
  shows "read_pages (Suc (length (str_lines c))) c 1 limit = Some (numbered_lines c)"
  using read_pages_from [OF assms, of 1 c "length (str_lines c)"] by simp

theorem read_pages_complete_witness:
  "read_pages (Suc (length (str_lines (''a'' @ [CHR 0x0A] @ ''b'')))) (''a'' @ [CHR 0x0A] @ ''b'') 1 1
     = Some (numbered_lines (''a'' @ [CHR 0x0A] @ ''b''))"
  by (rule read_pages_complete) simp

lemma normalize_html_write_valid:
  "normalize_html_write he path c = Inr (Some doc) \<Longrightarrow> html_validate he doc = []"
  by (auto simp: normalize_html_write_def Let_def and_then_Inr_iff validate_document_def
      split: if_splits)

lemma tool_json_success:
  "tool_json sj j user = Inr res \<Longrightarrow>
     res_success res = unwrap_or True (Option.bind (json_get j ''success'') as_bool)"
  by (auto simp: tool_json_def and_then_Inr_iff)

lemma file_error_not_success:
  "file_error sj tool action path err hint = Inr res \<Longrightarrow> \<not> res_success res"
  unfolding file_error_def Let_def
  by (drule tool_json_success) (simp add: json_get_obj json_get_set split: option.splits)

text \<open>C16: an HTML file that the write tool reports as written has passed the validator: the file
  below the root holds the normalised document and the validator has no complaint about it.\<close>

theorem written_html_is_valid:
  assumes "local_inv ws (tw_fs w)" and "parse_write_args sj args = Inr (Inr a)"
    and "is_html_path (wa_path a)" and "execute_write sj he ws args w = (Inr res, w')"
    and "res_success res"
  shows "\<exists>p doc. strict_prefix (ws_root ws) p \<and> stat_at (tw_fs w') p = Some (KFile doc)
    \<and> html_validate he doc = [] \<and> normalize_html_write he (wa_path a) (wa_content a) = Inr (Some doc)"
proof -
  from assms(2,4,5) obtain nrm where nrm: "normalize_html_write he (wa_path a) (wa_content a) = Inr nrm"
      and st: "store_text sj ws (wa_path a) (unwrap_or (wa_content a) nrm) w = (Inr res, w')"
    by (auto simp: execute_write_def dest: file_error_not_success split: sum.splits)
  from nrm assms(3) obtain doc where doc: "nrm = Some doc"
    by (auto simp: normalize_html_write_def Let_def and_then_Inr_iff split: if_splits)
  from st doc obtain r fs where wr: "write_text ws (wa_path a) doc (tw_fs w) = (Inr r, fs)" "tw_fs w' = fs"
    by (auto simp: store_text_def split: prod.splits sum.splits)
  from assms(1) wr(1) obtain cp where cp: "prefix (ws_root ws) cp"
      "stat_at fs (cp @ [last (rel_names (wa_path a))]) = Some (KFile doc)"
    by (rule write_text_ok_effect) blast
  have "strict_prefix (ws_root ws) (cp @ [last (rel_names (wa_path a))])"
    using cp(1) by (auto simp: strict_prefix_def dest: prefix_length_le)
  with cp(2) wr(2) nrm doc normalize_html_write_valid [of he "wa_path a" "wa_content a" doc]
  show ?thesis by auto
qed

definition sample_html :: html_env where
  "sample_html = \<lparr>html_elements = (\<lambda>h t. []), html_validate = (\<lambda>h. []), append_to_head = (\<lambda>h l. Inr (h @ l))\<rparr>"

definition sample_write_args :: json where
  "sample_write_args = json_obj [(''path'', JStr ''p.html''), (''content'', JStr ''hi'')]"

theorem written_html_is_valid_witness:
  "\<exists>p doc. strict_prefix (ws_root sample_ws) p
     \<and> stat_at (tw_fs (snd (execute_write sample_serde sample_html sample_ws sample_write_args
          \<lparr>tw_fs = sample_fs, tw_net = ()\<rparr>))) p = Some (KFile doc)
     \<and> html_validate sample_html doc = []"
proof -
  let ?w = "\<lparr>tw_fs = sample_fs, tw_net = ()\<rparr>"
  let ?a = "\<lparr>wa_path = ''p.html'', wa_content = ''hi''\<rparr>"
  let ?res = "\<lparr>res_success = True, content_for_model = ''{}'', content_for_user = Some ''Wrote p.html'',
    should_continue = True\<rparr>"
  have inv: "local_inv sample_ws (tw_fs ?w)" by (simp add: fs_eval)
  have args: "parse_write_args sample_serde sample_write_args = Inr (Inr ?a)" by code_simp
  have html: "is_html_path (wa_path ?a)" by code_simp
  have "fst (execute_write sample_serde sample_html sample_ws sample_write_args ?w) = Inr ?res"
    by code_simp
  then have run: "execute_write sample_serde sample_html sample_ws sample_write_args ?w
      = (Inr ?res, snd (execute_write sample_serde sample_html sample_ws sample_write_args ?w))"
    by (simp add: prod_eq_iff)
  from written_html_is_valid [OF inv args html run] show ?thesis by auto
qed

end
