(* ===== verification/Map_Tool.thy ===== *)
theory Map_Tool
  imports File_Tool
begin

section \<open>The workspace map\<close>

text \<open>
  \<open>tools/map.rs\<close>: the graph of the workspace. Links are taken from HTML elements (through the
  parser of \<open>html_env\<close>) and from Markdown text, by the two scanners translated here; every link is
  classified and resolved against the file that holds it; backlinks, entry points and orphans are
  computed from the classified links.
\<close>

record file_node =
  fn_path :: string
  fn_extension :: "string option"
  fn_kind :: string
  fn_is_hub_candidate :: bool

record link_node =
  ln_source :: string
  ln_href :: string
  ln_target :: "string option"
  ln_status :: string
  ln_kind :: string

record backlink_node =
  bl_path :: string
  bl_sources :: "string list"

datatype href_target = Local string | External | Anchor | Unsupported

subsection \<open>Names and kinds of files\<close>

definition path_to_workspace_string :: "string \<Rightarrow> string" where
  "path_to_workspace_string p = map (\<lambda>c. if c = CHR 0x5C then CHR ''/'' else c) (utf8_lossy p)"

definition extension :: "string \<Rightarrow> string option" where
  "extension path = map_option to_ascii_lowercase (path_extension path)"

definition file_kind :: "string \<Rightarrow> string" where
  "file_kind path =
     (case extension path of
        None \<Rightarrow> ''unknown''
      | Some e \<Rightarrow>
          (if e \<in> set [''html'', ''htm''] then ''html''
           else if e = ''md'' then ''markdown''
           else if e = ''css'' then ''stylesheet''
           else if e = ''js'' then ''script''
           else if e = ''json'' then ''data''
           else if e = ''txt'' then ''text''
           else if e \<in> set [''png'', ''jpg'', ''jpeg'', ''gif'', ''webp''] then ''image''
           else if e \<in> set [''mp4'', ''webm''] then ''video''
           else if e \<in> set [''mp3'', ''wav''] then ''audio''
           else if e = ''pdf'' then ''document''
           else ''unknown''))"

definition is_markdown_path :: "string \<Rightarrow> bool" where
  "is_markdown_path path \<longleftrightarrow> extension path = Some ''md''"

definition is_page_document :: "string \<Rightarrow> bool" where
  "is_page_document path \<longleftrightarrow> is_html_path path \<or> is_markdown_path path"

definition is_root_document :: "string \<Rightarrow> bool" where
  "is_root_document path \<longleftrightarrow> CHR ''/'' \<notin> set path \<and> is_page_document path"

definition is_hub_candidate :: "string \<Rightarrow> bool" where
  "is_hub_candidate path \<longleftrightarrow> path = ''index.html'' \<or> is_root_document path"

subsection \<open>Resolving a link\<close>

fun normalize_parts :: "pcomp list \<Rightarrow> string list \<Rightarrow> string list option" where
  "normalize_parts [] parts = Some parts"
| "normalize_parts (Normal n # cs) parts = normalize_parts cs (parts @ [n])"
| "normalize_parts (CurDir # cs) parts = normalize_parts cs parts"
| "normalize_parts (ParentDir # cs) parts =
     (if parts = [] then None else normalize_parts cs (butlast parts))"
| "normalize_parts (RootDir # cs) parts = None"

definition normalize_workspace_path :: "pcomp list \<Rightarrow> string option" where
  "normalize_workspace_path cs =
     (case normalize_parts cs [] of
        None \<Rightarrow> None
      | Some parts \<Rightarrow> (if parts = [] then None else Some (join ''/'' parts)))"

text \<open>\<open>PathBuf::push\<close>: an absolute path replaces what is there.\<close>

definition resolve_relative_target :: "string \<Rightarrow> string \<Rightarrow> string option" where
  "resolve_relative_target source href =
     normalize_workspace_path
       (if is_absolute href then path_components href
        else unwrap_or [] (path_parent (path_components source)) @ path_components href)"

definition is_external_href :: "string \<Rightarrow> bool" where
  "is_external_href href \<longleftrightarrow>
     starts_with ''//'' href
     \<or> (case split_once (CHR '':'') href of
          None \<Rightarrow> False
        | Some (scheme, rest) \<Rightarrow> CHR ''/'' \<notin> set scheme \<and> CHR 0x5C \<notin> set scheme)"

definition classify_href :: "string \<Rightarrow> string \<Rightarrow> string list \<Rightarrow> href_target" where
  "classify_href source href path_set =
     (let trimmed = trim href
      in if trimmed = '''' then Unsupported
         else if starts_with ''#'' trimmed then Anchor
         else if is_external_href trimmed then External
         else if starts_with ''/'' trimmed then Unsupported
         else
           let path_part = hd (split_on (CHR ''?'') (hd (split_on (CHR ''#'') trimmed)))
           in if path_part = '''' then Anchor
              else case resolve_relative_target source path_part of
                None \<Rightarrow> Unsupported
              | Some target \<Rightarrow>
                  (if target \<in> set path_set then Local target
                   else if extension target = None \<and> target @ ''.md'' \<in> set path_set
                   then Local (target @ ''.md'')
                   else Local target))"

definition link_node_of :: "string \<Rightarrow> string \<Rightarrow> string list \<Rightarrow> string \<Rightarrow> link_node" where
  "link_node_of source href path_set kd =
     (case classify_href source href path_set of
        External \<Rightarrow> \<lparr>ln_source = source, ln_href = href, ln_target = None, ln_status = ''external'', ln_kind = kd\<rparr>
      | Anchor \<Rightarrow> \<lparr>ln_source = source, ln_href = href, ln_target = None, ln_status = ''anchor'', ln_kind = kd\<rparr>
      | Unsupported \<Rightarrow>
          \<lparr>ln_source = source, ln_href = href, ln_target = None, ln_status = ''unsupported'', ln_kind = kd\<rparr>
      | Local target \<Rightarrow>
          \<lparr>ln_source = source, ln_href = href, ln_target = Some target,
           ln_status = (if target \<in> set path_set then ''resolved'' else ''missing''), ln_kind = kd\<rparr>)"

subsection \<open>Finding links\<close>

definition extract_html_links :: "html_env \<Rightarrow> string \<Rightarrow> string \<Rightarrow> string list \<Rightarrow> link_node list" where
  "extract_html_links he source c path_set =
     concat (map (\<lambda>(tag, attribute).
       concat (map (\<lambda>el. case el attribute of
                      None \<Rightarrow> [] | Some href \<Rightarrow> [link_node_of source href path_set tag])
         (html_elements he c tag)))
       [(''a'', ''href''), (''link'', ''href''), (''script'', ''src''), (''img'', ''src'')])"

text \<open>The scanner for \<open>[label](href)\<close>, on the rest of the text from the current index.\<close>

function markdown_hrefs :: "string \<Rightarrow> string list" where
  "markdown_hrefs [] = []"
| "markdown_hrefs (c # rest) =
     (if c \<noteq> CHR ''['' then markdown_hrefs rest
      else if starts_with ''['' rest then markdown_hrefs (tl rest)
      else case split_once (CHR '']'') rest of
        None \<Rightarrow> []
      | Some (label, after) \<Rightarrow>
          (if \<not> starts_with ''('' after then markdown_hrefs rest
           else case split_once (CHR '')'') (tl after) of
             None \<Rightarrow> []
           | Some (href, rest') \<Rightarrow>
               (if trim href = '''' then [] else [trim href]) @ markdown_hrefs rest'))"
  by pat_completeness auto
termination
proof (relation "measure length", goal_cases)
  case 3
  then show ?case by (auto simp: starts_with_iff)
next
  case 5
  then show ?case by (auto simp: split_once_Some_iff starts_with_iff)
qed auto

definition markdown_inline_links :: "string \<Rightarrow> string \<Rightarrow> string list \<Rightarrow> link_node list" where
  "markdown_inline_links source c path_set =
     map (\<lambda>href. link_node_of source href path_set ''markdown'') (markdown_hrefs c)"

function wiki_hrefs :: "string \<Rightarrow> string list" where
  "wiki_hrefs s =
     (case find_str ''[['' s of
        None \<Rightarrow> []
      | Some start \<Rightarrow>
          (let after = drop (start + 2) s
           in case find_str '']]'' after of
                None \<Rightarrow> []
              | Some e \<Rightarrow>
                  (let href = trim (hd (split_on (CHR ''|'') (trim (take e after))))
                   in (if href = '''' then [] else [href]) @ wiki_hrefs (drop (e + 2) after))))"
  by pat_completeness auto
termination
proof (relation "measure length", goal_cases)
  case (2 s start after e href)
  then have "start + length ''[['' \<le> length s" by (auto dest: find_str_SomeD)
  with 2 show ?case by simp
qed simp

declare wiki_hrefs.simps [simp del]

definition markdown_wiki_links :: "string \<Rightarrow> string \<Rightarrow> string list \<Rightarrow> link_node list" where
  "markdown_wiki_links source c path_set =
     map (\<lambda>href. link_node_of source href path_set ''wikilink'') (wiki_hrefs c)"

definition extract_markdown_links :: "string \<Rightarrow> string \<Rightarrow> string list \<Rightarrow> link_node list" where
  "extract_markdown_links source c path_set =
     markdown_inline_links source c path_set @ markdown_wiki_links source c path_set"

definition extract_links :: "html_env \<Rightarrow> string \<Rightarrow> string \<Rightarrow> string list \<Rightarrow> link_node list" where
  "extract_links he source c path_set =
     (if is_html_path source then extract_html_links he source c path_set
      else extract_markdown_links source c path_set)"

subsection \<open>The graph\<close>

definition add_backlink ::
    "link_node \<Rightarrow> (string, string list) btree_map \<Rightarrow> (string, string list) btree_map" where
  "add_backlink l m =
     (case ln_target l of
        Some target \<Rightarrow>
          (if ln_status l = ''resolved''
           then bt_insert target (bs_insert (ln_source l) (unwrap_or [] (bt_get m target))) m else m)
      | None \<Rightarrow> m)"

definition backlinks :: "link_node list \<Rightarrow> backlink_node list" where
  "backlinks links =
     map (\<lambda>(path, sources). \<lparr>bl_path = path, bl_sources = sources\<rparr>) (fold add_backlink links [])"

definition entrypoints :: "string list \<Rightarrow> string list" where
  "entrypoints paths =
     (if ''index.html'' \<in> set paths then [''index.html''] else filter is_root_document paths)"

definition orphans :: "string list \<Rightarrow> backlink_node list \<Rightarrow> string list" where
  "orphans paths bls =
     filter (\<lambda>path. path \<notin> bl_path ` set bls)
       (filter is_page_document (filter (\<lambda>path. path \<noteq> ''index.html'') paths))"

text \<open>The links of all pages, in the order of the listing; a page that cannot be read ends the
  call with its error.\<close>

fun collect_links ::
    "html_env \<Rightarrow> local_workspace \<Rightarrow> node \<Rightarrow> string list \<Rightarrow> string list \<Rightarrow> link_node list result" where
  "collect_links he ws fs path_set [] = Inr []"
| "collect_links he ws fs path_set (path # paths) =
     (if is_html_path path \<or> is_markdown_path path
      then and_then (read_text ws path fs) (\<lambda>c.
             and_then (collect_links he ws fs path_set paths) (\<lambda>links.
               Inr (extract_links he path c path_set @ links)))
      else collect_links he ws fs path_set paths)"

definition file_node_json :: "file_node \<Rightarrow> json" where
  "file_node_json n =
     json_obj [(''path'', JStr (fn_path n)), (''extension'', json_opt_str (fn_extension n)),
       (''kind'', JStr (fn_kind n)), (''is_hub_candidate'', JBool (fn_is_hub_candidate n))]"

definition link_node_json :: "link_node \<Rightarrow> json" where
  "link_node_json n =
     json_obj [(''source'', JStr (ln_source n)), (''href'', JStr (ln_href n)),
       (''target'', json_opt_str (ln_target n)), (''status'', JStr (ln_status n)),
       (''kind'', JStr (ln_kind n))]"

definition backlink_node_json :: "backlink_node \<Rightarrow> json" where
  "backlink_node_json n =
     json_obj [(''path'', JStr (bl_path n)), (''sources'', JArr (map JStr (bl_sources n)))]"

definition file_node_of :: "string \<Rightarrow> file_node" where
  "file_node_of path =
     \<lparr>fn_path = path, fn_extension = extension path, fn_kind = file_kind path,
      fn_is_hub_candidate = is_hub_candidate path\<rparr>"

definition map_execute ::
    "serde_json \<Rightarrow> html_env \<Rightarrow> local_workspace \<Rightarrow> json \<Rightarrow> 'n tool_world \<Rightarrow> tool_result result \<times> 'n tool_world" where
  "map_execute sj he ws args w =
     (if args \<noteq> JObj []
      then (tool_json sj
              (json_obj [(''tool'', JStr ''map_workspace''), (''action'', JStr ''map''),
                 (''success'', JBool False), (''recoverable'', JBool True),
                 (''error'', JStr ''invalid arguments: map_workspace does not accept arguments''),
                 (''retry_hint'', JStr ''Call map_workspace with an empty object: {}.'')]) None, w)
      else
        (and_then (list_files ws (tw_fs w)) (\<lambda>paths.
           let path_strings = map path_to_workspace_string paths
           in and_then (collect_links he ws (tw_fs w) path_strings path_strings) (\<lambda>links.
                let bls = backlinks links
                in tool_json sj
                     (json_obj [(''tool'', JStr ''map_workspace''), (''action'', JStr ''map''),
                        (''success'', JBool True), (''file_count'', json_nat (length path_strings)),
                        (''link_count'', json_nat (length links)),
                        (''entrypoints'', JArr (map JStr (entrypoints path_strings))),
                        (''files'', JArr (map (file_node_json \<circ> file_node_of) path_strings)),
                        (''links'', JArr (map link_node_json links)),
                        (''backlinks'', JArr (map backlink_node_json bls)),
                        (''orphans'', JArr (map JStr (orphans path_strings bls)))])
                     (Some (''Mapped '' @ show_nat (length path_strings) @ '' workspace ''
                        @ (if length path_strings = 1 then ''file'' else ''files'') @ '' and ''
                        @ show_nat (length links) @ '' ''
                        @ (if length links = 1 then ''link'' else ''links''))))), w))"

definition map_definition :: tool_definition where
  "map_definition =
     \<lparr>def_name = ''map_workspace'',
      def_description = ''Map the configured wiki-like workspace: files, entrypoints, local links, backlinks, missing links, and orphan HTML/Markdown pages so the model can choose focused read_file calls.'',
      def_parameters = schema ''Inspect the current workspace file graph without modifying files.'' [] []\<rparr>"

definition map_tool :: "serde_json \<Rightarrow> html_env \<Rightarrow> local_workspace \<Rightarrow> 'n tool_world tool" where
  "map_tool sj he ws = \<lparr>tool_def = map_definition, tool_run = map_execute sj he ws\<rparr>"

subsection \<open>Backlinks and orphans\<close>

definition resolved_sources :: "link_node list \<Rightarrow> string \<Rightarrow> string set" where
  "resolved_sources links t =
     {ln_source l | l. l \<in> set links \<and> ln_target l = Some t \<and> ln_status l = ''resolved''}"

lemma resolved_sources_Cons:
  "resolved_sources (l # links) t =
     (if ln_target l = Some t \<and> ln_status l = ''resolved'' then {ln_source l} else {})
     \<union> resolved_sources links t"
  by (auto simp: resolved_sources_def)

definition backlinks_inv :: "(string, string list) btree_map \<Rightarrow> bool" where
  "backlinks_inv m \<longleftrightarrow> bt_wf m \<and> (\<forall>t S. bt_get m t = Some S \<longrightarrow> sorted_wrt (<) S \<and> S \<noteq> [])"

lemma bs_insert_nonempty: "bs_insert k s \<noteq> []"
  by (cases s) auto

lemma add_backlink_inv: "backlinks_inv m \<Longrightarrow> backlinks_inv (add_backlink l m)"
proof -
  assume inv: "backlinks_inv m"
  have "sorted_wrt (<) (unwrap_or [] (bt_get m t))" for t
    using inv by (cases "bt_get m t") (auto simp: backlinks_inv_def)
  with inv show ?thesis
    by (auto simp: backlinks_inv_def add_backlink_def bt_wf_insert bt_get_insert sorted_bs_insert
        bs_insert_nonempty split: option.splits)
qed

lemma add_backlink_get:
  "set (unwrap_or [] (bt_get (add_backlink l m) t)) =
     (if ln_target l = Some t \<and> ln_status l = ''resolved'' then {ln_source l} else {})
     \<union> set (unwrap_or [] (bt_get m t))"
  by (auto simp: add_backlink_def bt_get_insert split: option.splits)

lemma fold_add_backlink:
  assumes "backlinks_inv m"
  shows "backlinks_inv (fold add_backlink links m)"
    and "set (unwrap_or [] (bt_get (fold add_backlink links m) t))
      = resolved_sources links t \<union> set (unwrap_or [] (bt_get m t))"
  using assms
proof (induction links arbitrary: m)
  case Nil
  {
    case 1
    then show ?case by simp
  next
    case 2
    then show ?case by (simp add: resolved_sources_def)
  }
next
  case (Cons l links)
  {
    case 1
    then show ?case using Cons.IH(1) add_backlink_inv by simp
  next
    case 2
    then show ?case
      using Cons.IH(2) [OF add_backlink_inv [OF 2]]
      by (auto simp: add_backlink_get resolved_sources_Cons)
  }
qed

lemma backlinks_entries:
  "(b \<in> set (backlinks links)) \<longleftrightarrow> bt_get (fold add_backlink links []) (bl_path b) = Some (bl_sources b)"
proof -
  let ?m = "fold add_backlink links []"
  have "bt_wf ?m" using fold_add_backlink(1) [of "[]" links] by (simp add: backlinks_inv_def)
  then have e: "(k, v) \<in> set ?m \<longleftrightarrow> bt_get ?m k = Some v" for k v by (rule bt_wf_entries)
  have "b \<in> set (backlinks links) \<longleftrightarrow> (bl_path b, bl_sources b) \<in> set ?m"
    by (force simp: backlinks_def image_iff)
  with e show ?thesis by simp
qed

lemma backlinks_inv_Nil [simp]: "backlinks_inv []"
  by (simp add: backlinks_inv_def)

lemma backlink_sources:
  assumes "b \<in> set (backlinks links)"
  shows "sorted_wrt (<) (bl_sources b)" "set (bl_sources b) = resolved_sources links (bl_path b)"
    "bl_sources b \<noteq> []"
proof -
  from assms have e: "bt_get (fold add_backlink links []) (bl_path b) = Some (bl_sources b)"
    by (simp add: backlinks_entries)
  then show "sorted_wrt (<) (bl_sources b)" "bl_sources b \<noteq> []"
    using fold_add_backlink(1) [OF backlinks_inv_Nil, of links] by (auto simp: backlinks_inv_def)
  show "set (bl_sources b) = resolved_sources links (bl_path b)"
    using fold_add_backlink(2) [OF backlinks_inv_Nil, of links "bl_path b"] e by simp
qed

lemma backlink_exists:
  "t \<in> bl_path ` set (backlinks links) \<longleftrightarrow> resolved_sources links t \<noteq> {}"
proof
  assume "t \<in> bl_path ` set (backlinks links)"
  then show "resolved_sources links t \<noteq> {}" using backlink_sources by force
next
  assume "resolved_sources links t \<noteq> {}"
  then obtain S where "bt_get (fold add_backlink links []) t = Some S"
    using fold_add_backlink(2) [OF backlinks_inv_Nil, of links t]
    by (cases "bt_get (fold add_backlink links []) t") auto
  then have "\<lparr>bl_path = t, bl_sources = S\<rparr> \<in> set (backlinks links)"
    by (simp add: backlinks_entries)
  then show "t \<in> bl_path ` set (backlinks links)" by force
qed

subsection \<open>Targets\<close>

definition plain_part :: "string \<Rightarrow> bool" where
  "plain_part n \<longleftrightarrow> n \<noteq> '''' \<and> n \<noteq> ''.'' \<and> n \<noteq> ''..'' \<and> slash \<notin> set n"

lemma path_components_plain: "Normal n \<in> set (path_components p) \<Longrightarrow> plain_part n"
  using split_on_no_sep [of _ slash p]
  by (auto simp: path_components_def Let_def plain_part_def split: if_splits)

lemma normalize_parts_plain:
  "normalize_parts cs parts = Some out \<Longrightarrow> (\<And>n. Normal n \<in> set cs \<Longrightarrow> plain_part n)
     \<Longrightarrow> list_all plain_part parts \<Longrightarrow> list_all plain_part out"
proof (induction cs parts rule: normalize_parts.induct)
  case (4 cs parts)
  then show ?case by (auto simp: list_all_iff dest: in_set_butlastD split: if_splits)
qed auto

lemma join_plain_components:
  assumes "list_all plain_part parts" and "parts \<noteq> []"
  shows "path_components (join ''/'' parts) = map Normal parts"
proof -
  have sp: "split_on slash (join ''/'' parts) = parts"
    using assms split_on_join [of parts slash] by (auto simp: list_all_iff plain_part_def slash_def)
  have "concat (map segment_comp parts) = map Normal parts"
    using assms(1) by (induction parts) (auto simp: plain_part_def)
  moreover have "\<not> is_absolute (join ''/'' parts)"
  proof
    assume "is_absolute (join ''/'' parts)"
    then obtain t where "join ''/'' parts = slash # t"
      by (auto simp: is_absolute_def starts_with_iff slash_def)
    then have "parts = '''' # split_on slash t" using sp by simp
    with assms show False by (auto simp: plain_part_def)
  qed
  ultimately show ?thesis
    unfolding path_components_def Let_def sp
    using assms by (cases parts) (auto simp: plain_part_def)
qed

lemma join_snoc_suffix: "join d (ps @ [p]) @ s = join d (ps @ [p @ s])"
  by (induction d ps rule: join.induct) auto

lemma resolve_target_parts:
  assumes "resolve_relative_target source href = Some t"
  obtains parts where "t = join ''/'' parts" "list_all plain_part parts" "parts \<noteq> []"
proof -
  let ?cs = "if is_absolute href then path_components href
    else unwrap_or [] (path_parent (path_components source)) @ path_components href"
  from assms obtain parts where p: "normalize_parts ?cs [] = Some parts" "parts \<noteq> []" "t = join ''/'' parts"
    by (auto simp: resolve_relative_target_def normalize_workspace_path_def split: option.splits if_splits)
  have "plain_part n" if "Normal n \<in> set ?cs" for n
  proof -
    have "Normal n \<in> set (path_components source) \<or> Normal n \<in> set (path_components href)"
      using that by (auto simp: path_parent_def split: if_splits option.splits list.splits
          dest: in_set_butlastD)
    then show ?thesis using path_components_plain by blast
  qed
  then have "list_all plain_part parts" using normalize_parts_plain [OF p(1)] by simp
  with p show ?thesis using that by blast
qed

lemma classify_local_parts:
  assumes "classify_href source href ps = Local t"
  obtains parts where "t = join ''/'' parts" "list_all plain_part parts" "parts \<noteq> []"
proof -
  from assms obtain part target where res: "resolve_relative_target source part = Some target"
      and t: "t = target \<or> t = target @ ''.md''"
    by (auto simp: classify_href_def Let_def split: if_splits option.splits)
  from res obtain parts where p: "target = join ''/'' parts" "list_all plain_part parts" "parts \<noteq> []"
    by (rule resolve_target_parts)
  then obtain qs q where qs: "parts = qs @ [q]" by (cases parts rule: rev_cases) auto
  have "list_all plain_part (qs @ [q @ ''.md''])"
    using p(2) by (auto simp: qs plain_part_def slash_def)
  moreover have "target @ ''.md'' = join ''/'' (qs @ [q @ ''.md''])"
    unfolding p(1) qs by (rule join_snoc_suffix)
  ultimately show ?thesis using t p that by blast
qed

subsection \<open>The default stylesheet\<close>

lemma split_on_parents:
  "split_on slash (concat (replicate n ''../'') @ ''assets/site.css'')
     = replicate n ''..'' @ [''assets'', ''site.css'']"
  by (induction n) (simp_all add: slash_def)

lemma parents_components:
  "path_components (concat (replicate n ''../'') @ ''assets/site.css'')
     = replicate n ParentDir @ [Normal ''assets'', Normal ''site.css'']"
proof -
  have "concat (map segment_comp (replicate n ''..'' @ [''assets'', ''site.css'']))
      = replicate n ParentDir @ [Normal ''assets'', Normal ''site.css'']"
    by (induction n) simp_all
  moreover have "\<not> is_absolute (concat (replicate n ''../'') @ ''assets/site.css'')"
    by (cases n) (simp_all add: is_absolute_def starts_with_def)
  moreover have "hd (replicate n ''..'' @ [''assets'', ''site.css'']) \<noteq> ''.''"
    by (cases n) simp_all
  ultimately show ?thesis
    unfolding path_components_def Let_def split_on_parents by simp
qed

lemma normalize_parts_app:
  "normalize_parts (cs @ ds) parts = Option.bind (normalize_parts cs parts) (normalize_parts ds)"
  by (induction cs parts rule: normalize_parts.induct) auto

lemma normalize_parts_normals:
  "list_all (\<lambda>c. c \<noteq> ParentDir \<and> c \<noteq> RootDir) cs \<Longrightarrow>
     \<exists>ns. normalize_parts cs parts = Some (parts @ ns) \<and> length ns = length (filter is_normal cs)"
proof (induction cs parts rule: normalize_parts.induct)
  case (2 n cs parts)
  then obtain ns where "normalize_parts cs (parts @ [n]) = Some ((parts @ [n]) @ ns)"
      "length ns = length (filter is_normal cs)" by auto
  moreover have "is_normal (Normal n)" by (simp add: is_normal_def)
  ultimately show ?case by (intro exI [of _ "n # ns"]) simp
next
  case (3 cs parts)
  moreover have "\<not> is_normal CurDir" by (simp add: is_normal_def)
  ultimately show ?case by simp
qed auto

lemma normalize_parts_up:
  "length ns = n \<Longrightarrow> normalize_parts (replicate n ParentDir @ cs) ns = normalize_parts cs []"
  by (induction n arbitrary: ns) auto

lemma normalize_up_to_root:
  assumes "normalize_parts ps [] = Some ns" and "length ns = n"
  shows "normalize_parts (ps @ replicate n ParentDir @ cs) [] = normalize_parts cs []"
  using assms normalize_parts_up [OF assms(2)] by (simp add: normalize_parts_app [of ps])

lemma stylesheet_href_eq:
  "path_components path \<noteq> [] \<Longrightarrow> last (path_components path) \<noteq> RootDir \<Longrightarrow>
     default_stylesheet_href path
       = concat (replicate (length (filter is_normal (butlast (path_components path)))) ''../'')
           @ ''assets/site.css''"
  by (cases "path_components path") (auto simp: default_stylesheet_href_def path_parent_def)

lemma parents_href_chars:
  "c \<in> set (concat (replicate n ''../'') @ ''assets/site.css'') \<Longrightarrow> c \<in> set ''../assets/site.css''"
  by (auto split: if_splits)

lemma parents_href_plain:
  fixes n defines "h \<equiv> concat (replicate n ''../'') @ ''assets/site.css''"
  shows "trim h = h" "\<not> starts_with ''#'' h" "\<not> is_external_href h" "\<not> starts_with ''/'' h"
    "hd (split_on (CHR ''?'') (hd (split_on (CHR ''#'') h))) = h"
proof -
  have mem: "c \<in> set ''../assets/site.css''" if "c \<in> set h" for c
    using that unfolding h_def by (rule parents_href_chars)
  have cont: "list_all (\<lambda>c. \<not> is_continuation c) h"
    unfolding list_all_iff using mem by (fastforce simp: is_continuation_def)
  have h: "h = (if n = 0 then ''assets/site.css'' else ''../'' @ concat (replicate (n - 1) ''../'') @ ''assets/site.css'')"
    unfolding h_def by (cases n) simp_all
  have last: "last h = CHR ''s''" unfolding h_def by simp
  show "trim h = h"
    by (rule trim_plain [OF cont]) (simp_all add: last, simp_all add: h is_whitespace_def white_space_chars_def)
  have "CHR '':'' \<notin> set h" "CHR ''#'' \<notin> set h" "CHR ''?'' \<notin> set h"
    using mem by fastforce+
  then show "hd (split_on (CHR ''?'') (hd (split_on (CHR ''#'') h))) = h"
    by (simp add: split_on_fresh)
  have "split_once (CHR '':'') h = None"
    using \<open>CHR '':'' \<notin> set h\<close> by (simp add: split_once_None_iff)
  moreover have start: "\<not> starts_with ''//'' h" "\<not> starts_with ''#'' h" "\<not> starts_with ''/'' h"
    by (simp_all add: h starts_with_def)
  ultimately show "\<not> is_external_href h" by (simp add: is_external_href_def)
  show "\<not> starts_with ''#'' h" "\<not> starts_with ''/'' h" by (rule start)+
qed

lemma stylesheet_resolves:
  assumes "list_all (\<lambda>c. c \<noteq> ParentDir \<and> c \<noteq> RootDir) (path_components path)"
    and "path_components path \<noteq> []"
  shows "resolve_relative_target path (default_stylesheet_href path) = Some ''assets/site.css''"
proof -
  let ?parent = "butlast (path_components path)"
  let ?n = "length (filter is_normal ?parent)"
  have last: "last (path_components path) \<noteq> RootDir"
    using assms last_in_set [OF assms(2)] by (auto simp: list_all_iff)
  then have parent: "unwrap_or [] (path_parent (path_components path)) = ?parent"
    using assms(2) by (cases "path_components path") (auto simp: path_parent_def)
  have href: "default_stylesheet_href path = concat (replicate ?n ''../'') @ ''assets/site.css''"
    using assms(2) last by (rule stylesheet_href_eq)
  have "\<not> is_absolute (concat (replicate ?n ''../'') @ ''assets/site.css'')"
    by (cases ?n) (simp_all add: is_absolute_def starts_with_def)
  moreover have "list_all (\<lambda>c. c \<noteq> ParentDir \<and> c \<noteq> RootDir) ?parent"
    using assms(1) by (auto simp: list_all_iff dest: in_set_butlastD)
  then obtain ns where "normalize_parts ?parent [] = Some ns" "length ns = ?n"
    using normalize_parts_normals [of ?parent "[]"] by auto
  ultimately show ?thesis
    unfolding resolve_relative_target_def parent href
    using normalize_up_to_root [of ?parent ns ?n "[Normal ''assets'', Normal ''site.css'']"]
    by (simp add: parents_components normalize_workspace_path_def)
qed

subsection \<open>Properties of the map\<close>

text \<open>C17: the graph is exact. The backlink table lists, in sorted order and once each, the files
  that some resolved link points to, each with the sorted set of exactly the files those links are
  in; and the orphans are exactly the listed pages other than \<open>index.html\<close> that no resolved link
  points to.\<close>

theorem map_graph_exact:
  "sorted_wrt (<) (map bl_path (backlinks links))
   \<and> (\<forall>b \<in> set (backlinks links). sorted_wrt (<) (bl_sources b)
        \<and> set (bl_sources b) = resolved_sources links (bl_path b))
   \<and> bl_path ` set (backlinks links) = {t. resolved_sources links t \<noteq> {}}
   \<and> set (orphans paths (backlinks links))
       = {p \<in> set paths. p \<noteq> ''index.html'' \<and> is_page_document p \<and> resolved_sources links p = {}}"
proof (intro conjI ballI)
  have "bt_wf (fold add_backlink links [])"
    using fold_add_backlink(1) [OF backlinks_inv_Nil] by (simp add: backlinks_inv_def)
  moreover have "map bl_path (backlinks links) = map fst (fold add_backlink links [])"
    by (simp add: backlinks_def case_prod_beta)
  ultimately show "sorted_wrt (<) (map bl_path (backlinks links))" by (simp add: bt_wf_def)
  show "bl_path ` set (backlinks links) = {t. resolved_sources links t \<noteq> {}}"
    using backlink_exists by blast
  show "set (orphans paths (backlinks links))
      = {p \<in> set paths. p \<noteq> ''index.html'' \<and> is_page_document p \<and> resolved_sources links p = {}}"
    using backlink_exists [of _ links] by (auto simp: orphans_def)
qed (use backlink_sources in blast)+

theorem map_graph_exact_witness:
  "set (orphans [''a.html'', ''index.html''] (backlinks
     [link_node_of ''index.html'' ''a.html'' [''a.html'', ''index.html''] ''a''])) = {}"
proof -
  let ?l = "link_node_of ''index.html'' ''a.html'' [''a.html'', ''index.html''] ''a''"
  have l: "ln_target ?l = Some ''a.html''" "ln_status ?l = ''resolved''" by code_simp+
  then have r: "resolved_sources [?l] ''a.html'' \<noteq> {}" by (auto simp: resolved_sources_def)
  have "set (orphans [''a.html'', ''index.html''] (backlinks [?l]))
      = {p \<in> set [''a.html'', ''index.html'']. p \<noteq> ''index.html'' \<and> is_page_document p
          \<and> resolved_sources [?l] p = {}}"
    using map_graph_exact [of "[?l]" "[''a.html'', ''index.html'']"] by blast
  also have "\<dots> = {}" using r by auto
  finally show ?thesis .
qed

text \<open>A link never resolves to a place outside the workspace: the target of a link that is
  classified as local is a non-empty relative path of plain names, without a parent step, whatever
  the link and the file it is in.\<close>

theorem link_targets_stay_inside:
  assumes "classify_href source href path_set = Local target"
  shows "path_components target \<noteq> [] \<and> list_all is_normal (path_components target)"
proof -
  from assms obtain parts where "target = join ''/'' parts" "list_all plain_part parts" "parts \<noteq> []"
    by (rule classify_local_parts)
  then show ?thesis
    using join_plain_components [of parts] by (auto simp: list_all_iff is_normal_def)
qed

theorem link_targets_stay_inside_witness:
  "path_components ''b.html'' \<noteq> [] \<and> list_all is_normal (path_components ''b.html'')"
  by (rule link_targets_stay_inside [of "''p/a.html''" "''../b.html#x''" "[''b.html'']"]) code_simp

text \<open>The stylesheet reference that the write tool puts into a page at any depth is the one the
  map resolves to the stylesheet of the workspace root.\<close>

theorem default_stylesheet_resolves:
  assumes "relative_path path = Inr rel"
  shows "classify_href path (default_stylesheet_href path) path_set = Local ''assets/site.css''"
proof -
  from assms have all: "list_all (\<lambda>c. c \<noteq> ParentDir \<and> c \<noteq> RootDir) (path_components path)"
    by (auto simp: relative_path_def list_ex_iff list_all_iff split: if_splits)
  have ne: "path_components path \<noteq> []"
    using relative_path_Inr [OF assms] by auto
  have "last (path_components path) \<noteq> RootDir"
    using all last_in_set [OF ne] by (auto simp: list_all_iff)
  note href = stylesheet_href_eq [OF ne this]
  note plain = parents_href_plain [of "length (filter is_normal (butlast (path_components path)))", folded href]
  have "extension ''assets/site.css'' = Some ''css''" by code_simp
  moreover have "default_stylesheet_href path \<noteq> ''''" by (simp add: href)
  ultimately show ?thesis
    using stylesheet_resolves [OF all ne] plain by (simp add: classify_href_def Let_def)
qed

theorem default_stylesheet_resolves_witness:
  "classify_href ''pages/team/a.html'' (default_stylesheet_href ''pages/team/a.html'') []
     = Local ''assets/site.css''"
  by (rule default_stylesheet_resolves [where rel = "''pages/team/a.html''"]) code_simp

definition shouting_fs :: node where
  "shouting_fs = Dir [(''ws'', Dir [(''NOTES.MD'', RegFile ''hi''), (''index.html'', RegFile ''x'')])]"

text \<open>The map looks at file extensions without regard to case, but the workspace reads only
  lower-case ones: one file named \<open>NOTES.MD\<close> makes the whole map fail.\<close>

theorem map_fails_on_upper_case_markdown:
  "fst (map_execute sample_serde sample_html sample_ws (JObj []) \<lparr>tw_fs = shouting_fs, tw_net = ()\<rparr>)
     = Inl (UnsupportedWorkspaceFile ''NOTES.MD'')"
  by code_simp

end
