(* ===== verification/Net_Address.thy ===== *)
theory Net_Address
  imports Prelude "HOL-Library.Word"
begin

section \<open>IP addresses\<close>

text \<open>
  What the sources use of \<open>std::net\<close>: an IPv4 address is a 32-bit word, an IPv6 address a 128-bit
  word, both in network order. The parsers accept what \<open>FromStr\<close> accepts: four decimal octets
  without superfluous zeros, or up to eight groups of hexadecimal digits with at most one \<open>::\<close> and
  possibly an IPv4 tail.
\<close>

unbundle bit_operations_syntax

type_synonym ipv4 = "32 word"
type_synonym ipv6 = "128 word"

datatype ip_addr = V4 ipv4 | V6 ipv6

subsection \<open>Classification\<close>

definition octet :: "nat \<Rightarrow> ipv4 \<Rightarrow> nat" where
  "octet i a = unat (drop_bit (8 * (3 - i)) a AND 255)"

definition segment :: "nat \<Rightarrow> ipv6 \<Rightarrow> 16 word" where
  "segment i a = ucast (drop_bit (16 * (7 - i)) a)"

definition v4_is_loopback :: "ipv4 \<Rightarrow> bool" where
  "v4_is_loopback a \<longleftrightarrow> octet 0 a = 127"

definition v4_is_private :: "ipv4 \<Rightarrow> bool" where
  "v4_is_private a \<longleftrightarrow>
     octet 0 a = 10 \<or> octet 0 a = 172 \<and> 16 \<le> octet 1 a \<and> octet 1 a \<le> 31
     \<or> octet 0 a = 192 \<and> octet 1 a = 168"

definition v4_is_link_local :: "ipv4 \<Rightarrow> bool" where
  "v4_is_link_local a \<longleftrightarrow> octet 0 a = 169 \<and> octet 1 a = 254"

definition v4_is_broadcast :: "ipv4 \<Rightarrow> bool" where
  "v4_is_broadcast a \<longleftrightarrow> a = 0xFFFFFFFF"

definition v4_is_unspecified :: "ipv4 \<Rightarrow> bool" where
  "v4_is_unspecified a \<longleftrightarrow> a = 0"

definition v6_is_loopback :: "ipv6 \<Rightarrow> bool" where
  "v6_is_loopback a \<longleftrightarrow> a = 1"

definition v6_is_unspecified :: "ipv6 \<Rightarrow> bool" where
  "v6_is_unspecified a \<longleftrightarrow> a = 0"

fun ip_is_loopback :: "ip_addr \<Rightarrow> bool" where
  "ip_is_loopback (V4 a) = v4_is_loopback a"
| "ip_is_loopback (V6 a) = v6_is_loopback a"

subsection \<open>Parsing\<close>

definition parse_octet :: "string \<Rightarrow> nat option" where
  "parse_octet s =
     (if s = '''' \<or> length s > 3 \<or> \<not> list_all is_ascii_digit s \<or> length s > 1 \<and> hd s = CHR ''0''
      then None
      else if digits_value 0 s \<le> 255 then Some (digits_value 0 s) else None)"

fun collect_some :: "('a \<Rightarrow> 'b option) \<Rightarrow> 'a list \<Rightarrow> 'b list option" where
  "collect_some f [] = Some []"
| "collect_some f (x # xs) =
     (case f x of None \<Rightarrow> None
      | Some y \<Rightarrow> (case collect_some f xs of None \<Rightarrow> None | Some ys \<Rightarrow> Some (y # ys)))"

definition parse_ipv4 :: "string \<Rightarrow> ipv4 option" where
  "parse_ipv4 s =
     (let parts = split_on (CHR ''.'') s
      in if length parts \<noteq> 4 then None
         else case collect_some parse_octet parts of
           None \<Rightarrow> None
         | Some os \<Rightarrow> Some (foldl (\<lambda>acc b. acc * 256 + word_of_nat b) 0 os))"

definition hex_digit :: "char \<Rightarrow> nat option" where
  "hex_digit c =
     (let n = (of_char c :: nat)
      in if 48 \<le> n \<and> n \<le> 57 then Some (n - 48)
         else if 97 \<le> n \<and> n \<le> 102 then Some (n - 87)
         else if 65 \<le> n \<and> n \<le> 70 then Some (n - 55)
         else None)"

definition parse_group :: "string \<Rightarrow> 16 word option" where
  "parse_group s =
     (if s = '''' \<or> length s > 4 then None
      else map_option (foldl (\<lambda>acc d. acc * 16 + word_of_nat d) 0) (collect_some hex_digit s))"

text \<open>The groups of one side of \<open>::\<close>; the last one may be an IPv4 address, which fills two.\<close>

fun parse_groups :: "bool \<Rightarrow> string list \<Rightarrow> 16 word list option" where
  "parse_groups v4 [] = Some []"
| "parse_groups v4 [s] =
     (case (if v4 then parse_ipv4 s else None) of
        Some a \<Rightarrow> Some [ucast (drop_bit 16 a), ucast a]
      | None \<Rightarrow> map_option (\<lambda>g. [g]) (parse_group s))"
| "parse_groups v4 (s # t # ss) =
     (case parse_group s of
        None \<Rightarrow> None
      | Some g \<Rightarrow> map_option (Cons g) (parse_groups v4 (t # ss)))"

definition groups_of :: "bool \<Rightarrow> string \<Rightarrow> 16 word list option" where
  "groups_of v4 s = (if s = '''' then Some [] else parse_groups v4 (split_on (CHR '':'') s))"

definition join_groups :: "16 word list \<Rightarrow> ipv6" where
  "join_groups gs = foldl (\<lambda>acc g. acc * 65536 + ucast g) 0 gs"

definition parse_ipv6 :: "string \<Rightarrow> ipv6 option" where
  "parse_ipv6 s =
     (case find_str ''::'' s of
        None \<Rightarrow>
          (case groups_of True s of
             None \<Rightarrow> None
           | Some gs \<Rightarrow> (if length gs = 8 then Some (join_groups gs) else None))
      | Some i \<Rightarrow>
          (case (groups_of False (take i s), groups_of True (drop (i + 2) s)) of
             (Some hs, Some ts) \<Rightarrow>
               (if length hs + length ts \<le> 7
                then Some (join_groups (hs @ replicate (8 - length hs - length ts) 0 @ ts))
                else None)
           | _ \<Rightarrow> None))"

definition parse_ip :: "string \<Rightarrow> ip_addr option" where
  "parse_ip s =
     (case parse_ipv4 s of
        Some a \<Rightarrow> Some (V4 a)
      | None \<Rightarrow> map_option V6 (parse_ipv6 s))"

subsection \<open>Printing\<close>

definition ipv4_text :: "ipv4 \<Rightarrow> string" where
  "ipv4_text a = join ''.'' (map (\<lambda>i. show_nat (octet i a)) [0..<4])"

definition nibble_char :: "nat \<Rightarrow> char" where
  "nibble_char n = (if n < 10 then char_of (48 + n) else char_of (87 + n))"

definition hex_text :: "16 word \<Rightarrow> string" where
  "hex_text w =
     (let ns = dropWhile (\<lambda>n. n = 0) (map (\<lambda>i. unat (drop_bit (12 - 4 * i) w AND 15)) [0..<4])
      in if ns = [] then ''0'' else map nibble_char ns)"

text \<open>The first longest run of zero groups, as start and length.\<close>

fun zero_run :: "16 word list \<Rightarrow> nat" where
  "zero_run (g # gs) = (if g = 0 then Suc (zero_run gs) else 0)"
| "zero_run [] = 0"

definition longest_zeros :: "16 word list \<Rightarrow> nat \<times> nat" where
  "longest_zeros gs =
     fold (\<lambda>i best. if zero_run (drop i gs) > snd best then (i, zero_run (drop i gs)) else best)
       [0..<length gs] (0, 0)"

definition ipv6_text :: "ipv6 \<Rightarrow> string" where
  "ipv6_text a =
     (let gs = map (\<lambda>i. segment i a) [0..<8];
          (start, n) = longest_zeros gs;
          texts = (\<lambda>xs. join '':'' (map hex_text xs))
      in if take 5 gs = [0, 0, 0, 0, 0] \<and> gs ! 5 = 65535
         then ''::ffff:'' @ ipv4_text (ucast a)
         else if n > 1 then texts (take start gs) @ ''::'' @ texts (drop (start + n) gs)
         else texts gs)"

fun ip_text :: "ip_addr \<Rightarrow> string" where
  "ip_text (V4 a) = ipv4_text a"
| "ip_text (V6 a) = ipv6_text a"

end
