(* ===== verification/Web_Fetch.thy ===== *)
theory Web_Fetch
  imports Net_Address Tools Config
begin

section \<open>The download tool\<close>

text \<open>
  \<open>tools/web_fetch.rs\<close>. The URL parser, the HTTP client, name resolution and the hash are the
  fields of \<open>fetch_env\<close>, over a type \<open>'u\<close> of URLs and a network state \<open>'n\<close>; everything else, the
  address check before every request, the redirect loop, the size limit, the content types, the
  destination path and the write into the workspace, is translated.
\<close>

unbundle bit_operations_syntax

record http_answer =
  ha_redirection :: bool
  ha_success :: bool
  ha_status :: string
  ha_location :: "string option"
  ha_content_type :: "string option"
  ha_content_length :: "nat option"
  ha_chunks :: "(string + string) list"

record ('u, 'n) fetch_env =
  url_parse :: "string \<Rightarrow> string + 'u"
  url_scheme :: "'u \<Rightarrow> string"
  url_host :: "'u \<Rightarrow> string option"
  url_port :: "'u \<Rightarrow> nat option"
  url_join :: "'u \<Rightarrow> string \<Rightarrow> string + 'u"
  url_text :: "'u \<Rightarrow> string"
  url_segments :: "'u \<Rightarrow> string list option"
  http_get :: "'u \<Rightarrow> 'n \<Rightarrow> (string + http_answer) \<times> 'n"
  lookup_host :: "string \<Rightarrow> 'n \<Rightarrow> (string + ip_addr list) \<times> 'n"
  sha256_hex :: "string \<Rightarrow> string"

record fetch_args =
  fa_url :: string
  fa_path :: "string option"
  fa_overwrite :: "bool option"
  fa_max_bytes :: "nat option"
  fa_expected_content_type :: "string option"

record fetch_response =
  fr_url :: string
  fr_final_url :: string
  fr_redirects :: "string list"
  fr_content_type :: string
  fr_bytes :: string

subsection \<open>Addresses\<close>

definition is_unique_local_v6 :: "ipv6 \<Rightarrow> bool" where
  "is_unique_local_v6 a \<longleftrightarrow> segment 0 a AND 0xFE00 = 0xFC00"

definition is_unicast_link_local_v6 :: "ipv6 \<Rightarrow> bool" where
  "is_unicast_link_local_v6 a \<longleftrightarrow> segment 0 a AND 0xFFC0 = 0xFE80"

fun is_private_ip :: "ip_addr \<Rightarrow> bool" where
  "is_private_ip (V4 a) \<longleftrightarrow>
     v4_is_loopback a \<or> v4_is_private a \<or> v4_is_link_local a \<or> v4_is_broadcast a
     \<or> v4_is_unspecified a"
| "is_private_ip (V6 a) \<longleftrightarrow>
     v6_is_loopback a \<or> v6_is_unspecified a \<or> is_unique_local_v6 a \<or> is_unicast_link_local_v6 a"

definition allowlist_v4_contains :: "string \<Rightarrow> ipv4 \<Rightarrow> bool" where
  "allowlist_v4_contains entry ip =
     (case split_once (CHR ''/'') entry of
        None \<Rightarrow> parse_ipv4 entry = Some ip
      | Some (base_text, prefix_text) \<Rightarrow>
          (case parse_ipv4 base_text of
             None \<Rightarrow> False
           | Some base \<Rightarrow>
               (case parse_unsigned u32_max prefix_text of
                  None \<Rightarrow> False
                | Some pre \<Rightarrow>
                    (if pre > 32 then False
                     else let m = (if pre = 0 then 0 else push_bit (32 - pre) (- 1))
                          in base AND m = ip AND m))))"

definition allowlist_v6_contains :: "string \<Rightarrow> ipv6 \<Rightarrow> bool" where
  "allowlist_v6_contains entry ip =
     (case split_once (CHR ''/'') entry of
        None \<Rightarrow> parse_ipv6 entry = Some ip
      | Some (base_text, prefix_text) \<Rightarrow>
          (case parse_ipv6 base_text of
             None \<Rightarrow> False
           | Some base \<Rightarrow>
               (case parse_unsigned u32_max prefix_text of
                  None \<Rightarrow> False
                | Some pre \<Rightarrow>
                    (if pre > 128 then False
                     else let m = (if pre = 0 then 0 else push_bit (128 - pre) (- 1))
                          in base AND m = ip AND m))))"

definition is_allowlisted :: "ip_addr \<Rightarrow> string list \<Rightarrow> bool" where
  "is_allowlisted ip allowlist =
     list_ex (\<lambda>entry. case ip of
        V4 a \<Rightarrow> allowlist_v4_contains entry a
      | V6 a \<Rightarrow> allowlist_v6_contains entry a) allowlist"

definition blocked_ip :: "web_fetch_config \<Rightarrow> ip_addr \<Rightarrow> bool" where
  "blocked_ip cfg ip \<longleftrightarrow> is_private_ip ip \<and> \<not> is_allowlisted ip (wf_ssrf_allowlist cfg)"

definition blocked_error :: "string \<Rightarrow> ip_addr \<Rightarrow> reshape_error" where
  "blocked_error host ip =
     Provider (''SSRF blocked: '' @ host @ '' resolves to private IP '' @ ip_text ip)"

definition check_ssrf ::
    "('u, 'n) fetch_env \<Rightarrow> web_fetch_config \<Rightarrow> 'u \<Rightarrow> 'n \<Rightarrow> unit result \<times> 'n" where
  "check_ssrf env cfg url n =
     (case url_host env url of
        None \<Rightarrow> (Inl (Config ''URL has no host''), n)
      | Some host \<Rightarrow>
          (case parse_ip host of
             Some ip \<Rightarrow> (if blocked_ip cfg ip then Inl (blocked_error host ip) else Inr (), n)
           | None \<Rightarrow>
               (case lookup_host env (host @ '':'' @ show_nat (unwrap_or 443 (url_port env url))) n of
                  (Inl e, n') \<Rightarrow> (Inl (Provider (''DNS lookup failed: '' @ e)), n')
                | (Inr addrs, n') \<Rightarrow>
                    (if addrs = []
                     then (Inl (Provider (''DNS resolution failed for '' @ host)), n')
                     else case find (blocked_ip cfg) addrs of
                            Some ip \<Rightarrow> (Inl (blocked_error host ip), n')
                          | None \<Rightarrow> (Inr (), n')))))"

subsection \<open>Downloading\<close>

definition normalize_content_type :: "string \<Rightarrow> string" where
  "normalize_content_type v = to_ascii_lowercase (trim (hd (split_on (CHR '';'') v)))"

fun read_body :: "nat \<Rightarrow> (string + string) list \<Rightarrow> string \<Rightarrow> string result" where
  "read_body mx [] bytes = Inr bytes"
| "read_body mx (Inl e # chunks) bytes = Inl (Provider (''failed reading response body: '' @ e))"
| "read_body mx (Inr chunk # chunks) bytes =
     (if length bytes + length chunk > mx
      then Inl (Provider (''download exceeds max_bytes ('' @ show_nat mx @ '')''))
      else read_body mx chunks (bytes @ chunk))"

definition accept_answer ::
    "('u, 'n) fetch_env \<Rightarrow> nat \<Rightarrow> string \<Rightarrow> 'u \<Rightarrow> string list \<Rightarrow> http_answer \<Rightarrow> fetch_response result" where
  "accept_answer env mx original url redirects ans =
     (if \<not> ha_success ans
      then Inl (Provider (''web_fetch request failed with status '' @ ha_status ans))
      else if unwrap_or 0 (ha_content_length ans) > mx
      then Inl (Provider (''download exceeds max_bytes ('' @ show_nat (unwrap_or 0 (ha_content_length ans))
             @ '' > '' @ show_nat mx @ '')''))
      else and_then (read_body mx (ha_chunks ans) '''') (\<lambda>bytes.
        Inr \<lparr>fr_url = original, fr_final_url = url_text env url, fr_redirects = redirects,
             fr_content_type = unwrap_or '''' (map_option normalize_content_type (ha_content_type ans)),
             fr_bytes = bytes\<rparr>))"

fun fetch_loop ::
    "('u, 'n) fetch_env \<Rightarrow> web_fetch_config \<Rightarrow> nat \<Rightarrow> string \<Rightarrow> nat \<Rightarrow> 'u \<Rightarrow> string list \<Rightarrow> 'n
     \<Rightarrow> fetch_response result \<times> 'n" where
  "fetch_loop env cfg mx original 0 url redirects n =
     (Inl (Provider (''too many redirects (max '' @ show_nat (wf_max_redirects cfg) @ '')'')), n)"
| "fetch_loop env cfg mx original (Suc k) url redirects n =
     (case check_ssrf env cfg url n of
        (Inl e, n1) \<Rightarrow> (Inl e, n1)
      | (Inr u, n1) \<Rightarrow>
          (case http_get env url n1 of
             (Inl e, n2) \<Rightarrow> (Inl (Provider (''web_fetch request failed: '' @ e)), n2)
           | (Inr ans, n2) \<Rightarrow>
               (if ha_redirection ans then
                  (case ha_location ans of
                     None \<Rightarrow> (Inl (Provider ''redirect missing Location''), n2)
                   | Some location \<Rightarrow>
                       (case url_join env url location of
                          Inl e \<Rightarrow> (Inl (Provider (''invalid redirect location: '' @ e)), n2)
                        | Inr next \<Rightarrow>
                            fetch_loop env cfg mx original k next (redirects @ [url_text env url]) n2))
                else (accept_answer env mx original url redirects ans, n2))))"

definition fetch_url ::
    "('u, 'n) fetch_env \<Rightarrow> web_fetch_config \<Rightarrow> string \<Rightarrow> nat \<Rightarrow> 'n \<Rightarrow> fetch_response result \<times> 'n" where
  "fetch_url env cfg raw mx n =
     (let original = trim raw
      in case url_parse env original of
           Inl e \<Rightarrow> (Inl (Config (''invalid url: '' @ e)), n)
         | Inr url \<Rightarrow>
             (if url_scheme env url \<noteq> ''http'' \<and> url_scheme env url \<noteq> ''https''
              then (Inl (Config (''unsupported URL scheme: '' @ url_scheme env url)), n)
              else fetch_loop env cfg mx original (Suc (wf_max_redirects cfg)) url [] n))"

subsection \<open>Arguments, content types and paths\<close>

definition fetch_error :: "serde_json \<Rightarrow> string \<Rightarrow> string \<Rightarrow> nat option \<Rightarrow> tool_result result" where
  "fetch_error sj code err status =
     (let c = json_obj [(''tool'', JStr ''web_fetch''), (''success'', JBool False),
                (''recoverable'', JBool True), (''code'', JStr code), (''error'', JStr err)]
      in tool_json sj (case status of None \<Rightarrow> c | Some s \<Rightarrow> json_set c ''status'' (json_nat s)) None)"

definition decode_fetch_args :: "json \<Rightarrow> de_error + fetch_args" where
  "decode_fetch_args j =
     and_then (struct_source ''struct FetchArgs with 5 elements''
        [''url'', ''path'', ''overwrite'', ''max_bytes'', ''expected_content_type''] j) (\<lambda>src.
       and_then (visit_entries (\<lambda>k v.
           if k = ''url'' then error_of (dec_string v)
           else if k = ''path'' \<or> k = ''expected_content_type'' then error_of (dec_option dec_string v)
           else if k = ''overwrite'' then error_of (dec_option dec_bool v)
           else if k = ''max_bytes'' then error_of (dec_option dec_usize v) else None) src) (\<lambda>u.
         and_then (req_field src ''url'' dec_string) (\<lambda>url.
           and_then (default_field src ''path'' None (dec_option dec_string)) (\<lambda>path.
             and_then (default_field src ''overwrite'' None (dec_option dec_bool)) (\<lambda>overwrite.
               and_then (default_field src ''max_bytes'' None (dec_option dec_usize)) (\<lambda>mx.
                 and_then (default_field src ''expected_content_type'' None (dec_option dec_string)) (\<lambda>expected.
                   Inr \<lparr>fa_url = url, fa_path = path, fa_overwrite = overwrite, fa_max_bytes = mx,
                        fa_expected_content_type = expected\<rparr>)))))))"

text \<open>\<open>Inr (Inr args)\<close> are the arguments, \<open>Inr (Inl res)\<close> the result to answer with at once.\<close>

definition parse_fetch_args :: "serde_json \<Rightarrow> json \<Rightarrow> (tool_result + fetch_args) result" where
  "parse_fetch_args sj j =
     (case decode_fetch_args j of
        Inl e \<Rightarrow> and_then (fetch_error sj ''invalid_args'' (''invalid arguments: '' @ de_msg sj e) None)
                  (\<lambda>r. Inr (Inl r))
      | Inr a \<Rightarrow>
          (if trim (fa_url a) = ''''
           then and_then (fetch_error sj ''invalid_args'' ''`url` cannot be empty'' None) (\<lambda>r. Inr (Inl r))
           else if fa_max_bytes a = Some 0
           then and_then (fetch_error sj ''invalid_args'' ''`max_bytes` must be greater than 0'' None)
                  (\<lambda>r. Inr (Inl r))
           else Inr (Inr a)))"

definition validate_content_type ::
    "serde_json \<Rightarrow> web_fetch_config \<Rightarrow> string \<Rightarrow> string option \<Rightarrow> (tool_result + unit) result" where
  "validate_content_type sj cfg ct expected =
     (let ex = unwrap_or ct (map_option normalize_content_type expected)
      in if ex \<noteq> ct
         then and_then (fetch_error sj ''unexpected_content_type''
                (''expected content type `'' @ ex @ ''`, got `'' @ ct @ ''`'') None) (\<lambda>r. Inr (Inl r))
         else if ct \<notin> set (wf_allowed_content_types cfg)
         then and_then (fetch_error sj ''unsupported_content_type''
                (''unsupported content type `'' @ ct @ ''`'') None) (\<lambda>r. Inr (Inl r))
         else Inr (Inr ()))"

definition extension_for_content_type :: "string \<Rightarrow> string option" where
  "extension_for_content_type ct =
     map_of [(''image/png'', ''png''), (''image/jpeg'', ''jpg''), (''image/gif'', ''gif''),
       (''image/webp'', ''webp''), (''video/mp4'', ''mp4''), (''video/webm'', ''webm''),
       (''audio/mpeg'', ''mp3''), (''audio/wav'', ''wav''), (''application/pdf'', ''pdf'')] ct"

definition extension_matches_content_type :: "string \<Rightarrow> string \<Rightarrow> bool" where
  "extension_matches_content_type path ct =
     (case map_option to_ascii_lowercase (path_extension path) of
        None \<Rightarrow> False
      | Some ext \<Rightarrow>
          (if ct = ''image/jpeg'' then ext = ''jpg'' \<or> ext = ''jpeg''
           else extension_for_content_type ct = Some ext))"

definition sanitize_char :: "string \<Rightarrow> string" where
  "sanitize_char g =
     (case g of
        [c] \<Rightarrow> (if is_ascii_alphanumeric c \<or> c = CHR ''-'' \<or> c = CHR ''_'' then [ascii_lower c] else ''-'')
      | _ \<Rightarrow> ''-'')"

definition sanitize_stem :: "string \<Rightarrow> string" where
  "sanitize_stem v = trim_matches (CHR ''-'') (concat (map sanitize_char (chars v)))"

definition download_stem :: "('u, 'n) fetch_env \<Rightarrow> string \<Rightarrow> string" where
  "download_stem env url =
     (let seg = (case url_parse env url of
                   Inl e \<Rightarrow> None
                 | Inr u \<Rightarrow> (case url_segments env u of
                             Some (s # ss) \<Rightarrow> Some (last (s # ss)) | _ \<Rightarrow> None));
          stem = map_option sanitize_stem (Option.bind seg path_file_stem)
      in case stem of None \<Rightarrow> ''download'' | Some s \<Rightarrow> (if s = '''' then ''download'' else s))"

definition default_download_path ::
    "('u, 'n) fetch_env \<Rightarrow> string \<Rightarrow> string \<Rightarrow> string \<Rightarrow> string \<Rightarrow> string" where
  "default_download_path env dir url ct sha =
     trim_end_matches (CHR ''/'') dir @ ''/'' @ download_stem env url @ ''-'' @ take 8 sha @ ''.''
       @ unwrap_or ''bin'' (extension_for_content_type ct)"

definition suggested_html :: "string \<Rightarrow> string \<Rightarrow> string option" where
  "suggested_html path ct =
     (if starts_with ''image/'' ct
      then Some (''<img src='' @ [CHR 0x22] @ path @ [CHR 0x22] @ '' alt='' @ [CHR 0x22, CHR 0x22] @ ''>'')
      else if starts_with ''video/'' ct
      then Some (''<video src='' @ [CHR 0x22] @ path @ [CHR 0x22] @ '' controls></video>'')
      else if starts_with ''audio/'' ct
      then Some (''<audio src='' @ [CHR 0x22] @ path @ [CHR 0x22] @ '' controls></audio>'')
      else if ct = ''application/pdf''
      then Some (''<a href='' @ [CHR 0x22] @ path @ [CHR 0x22] @ ''>Download PDF</a>'')
      else None)"

subsection \<open>The tool\<close>

text \<open>\<open>existing == Path::new(&path)\<close> compares paths by their components.\<close>

definition lists_path :: "string list \<Rightarrow> string \<Rightarrow> bool" where
  "lists_path files path = list_ex (\<lambda>f. path_components f = path_components path) files"

definition store_download ::
    "serde_json \<Rightarrow> local_workspace \<Rightarrow> fetch_response \<Rightarrow> string \<Rightarrow> string \<Rightarrow> 'n tool_world
     \<Rightarrow> tool_result result \<times> 'n tool_world" where
  "store_download sj ws f sha path w =
     (case write_bytes ws path (fr_bytes f) (tw_fs w) of
        (Inl e, fs) \<Rightarrow> (Inl e, w\<lparr>tw_fs := fs\<rparr>)
      | (Inr written, fs) \<Rightarrow>
          (tool_json sj
             (json_obj
               [(''tool'', JStr ''web_fetch''), (''success'', JBool True), (''url'', JStr (fr_url f)),
                (''final_url'', JStr (fr_final_url f)), (''path'', JStr written),
                (''content_type'', JStr (fr_content_type f)),
                (''bytes_written'', json_nat (length (fr_bytes f))), (''sha256'', JStr sha),
                (''redirects'', JArr (map JStr (fr_redirects f))), (''cached'', JBool False),
                (''suggested_html'', json_opt_str (suggested_html written (fr_content_type f)))])
             (Some (''Downloaded '' @ written)),
           w\<lparr>tw_fs := fs\<rparr>))"

definition place_download ::
    "serde_json \<Rightarrow> ('u, 'n) fetch_env \<Rightarrow> web_fetch_config \<Rightarrow> local_workspace \<Rightarrow> fetch_args
     \<Rightarrow> fetch_response \<Rightarrow> 'n tool_world \<Rightarrow> tool_result result \<times> 'n tool_world" where
  "place_download sj env cfg ws a f w =
     (let sha = sha256_hex env (fr_bytes f);
          path = unwrap_or (default_download_path env (wf_download_dir cfg) (fr_final_url f)
                              (fr_content_type f) sha) (fa_path a)
      in if \<not> extension_matches_content_type path (fr_content_type f)
         then (fetch_error sj ''extension_mismatch''
                (''destination extension does not match content type `'' @ fr_content_type f @ ''`'') None, w)
         else if unwrap_or False (fa_overwrite a) then store_download sj ws f sha path w
         else case list_files ws (tw_fs w) of
                Inl e \<Rightarrow> (Inl e, w)
              | Inr files \<Rightarrow>
                  (if lists_path files path
                   then (fetch_error sj ''file_exists''
                          (''workspace file `'' @ path @ ''` already exists'') None, w)
                   else store_download sj ws f sha path w))"

definition fetch_execute ::
    "serde_json \<Rightarrow> ('u, 'n) fetch_env \<Rightarrow> web_fetch_config \<Rightarrow> local_workspace \<Rightarrow> json \<Rightarrow> 'n tool_world
     \<Rightarrow> tool_result result \<times> 'n tool_world" where
  "fetch_execute sj env cfg ws args w =
     (case parse_fetch_args sj args of
        Inl e \<Rightarrow> (Inl e, w)
      | Inr (Inl res) \<Rightarrow> (Inr res, w)
      | Inr (Inr a) \<Rightarrow>
          (case fetch_url env cfg (fa_url a) (unwrap_or (wf_max_bytes cfg) (fa_max_bytes a)) (tw_net w) of
             (Inl e, n) \<Rightarrow> (fetch_error sj ''request_failed'' (error_text e) None, w\<lparr>tw_net := n\<rparr>)
           | (Inr f, n) \<Rightarrow>
               (let w1 = w\<lparr>tw_net := n\<rparr>
                in case validate_content_type sj cfg (fr_content_type f) (fa_expected_content_type a) of
                     Inl e \<Rightarrow> (Inl e, w1)
                   | Inr (Inl res) \<Rightarrow> (Inr res, w1)
                   | Inr (Inr u) \<Rightarrow> place_download sj env cfg ws a f w1)))"

definition prop_json :: "string \<Rightarrow> string \<Rightarrow> (string \<times> json) list \<Rightarrow> json" where
  "prop_json ty desc extra = json_obj ([(''type'', JStr ty), (''description'', JStr desc)] @ extra)"

definition fetch_definition :: tool_definition where
  "fetch_definition =
     \<lparr>def_name = ''web_fetch'',
      def_description = ''Download an internet media or binary resource into the configured workspace and return saved-file metadata.'',
      def_parameters = json_obj
        [(''type'', JStr ''object''),
         (''description'', JStr ''Download one HTTP/HTTPS media resource to the workspace. This tool does not extract webpage text.''),
         (''properties'', json_obj
           [(''url'', prop_json ''string'' ''HTTP/HTTPS URL for an image, video, audio file, or PDF.'' []),
            (''path'', prop_json ''string'' ''Optional workspace-relative destination path. Defaults under configured download_dir.'' []),
            (''overwrite'', prop_json ''boolean'' ''Whether to overwrite an existing workspace file. Defaults to false.'' [(''default'', JBool False)]),
            (''max_bytes'', prop_json ''integer'' ''Maximum bytes to download. Defaults to configured max_bytes.'' [(''minimum'', json_nat 1)]),
            (''expected_content_type'', prop_json ''string'' ''Optional expected MIME type, for example image/png.'' [])]),
         (''required'', JArr [JStr ''url'']), (''additionalProperties'', JBool False)]\<rparr>"

definition web_fetch_tool ::
    "serde_json \<Rightarrow> ('u, 'n) fetch_env \<Rightarrow> web_fetch_config \<Rightarrow> local_workspace \<Rightarrow> 'n tool_world tool" where
  "web_fetch_tool sj env cfg ws =
     \<lparr>tool_def = fetch_definition, tool_run = fetch_execute sj env cfg ws\<rparr>"

subsection \<open>Every request is checked\<close>

datatype 'u net_call = Lookup string "string + ip_addr list" | Get 'u

definition traced_net :: "('u, 'n) fetch_env \<Rightarrow> ('u, 'n \<times> 'u net_call list) fetch_env" where
  "traced_net env =
     \<lparr>url_parse = url_parse env, url_scheme = url_scheme env, url_host = url_host env,
      url_port = url_port env, url_join = url_join env, url_text = url_text env,
      url_segments = url_segments env,
      http_get = (\<lambda>u (n, l). case http_get env u n of (r, n') \<Rightarrow> (r, n', l @ [Get u])),
      lookup_host = (\<lambda>h (n, l). case lookup_host env h n of (r, n') \<Rightarrow> (r, n', l @ [Lookup h r])),
      sha256_hex = sha256_hex env\<rparr>"

lemma traced_net_fields [simp]:
  "url_parse (traced_net env) = url_parse env" "url_scheme (traced_net env) = url_scheme env"
  "url_host (traced_net env) = url_host env" "url_port (traced_net env) = url_port env"
  "url_join (traced_net env) = url_join env" "url_text (traced_net env) = url_text env"
  "http_get (traced_net env) u (n, l)
     = (case http_get env u n of (r, n') \<Rightarrow> (r, n', l @ [Get u]))"
  "lookup_host (traced_net env) h (n, l)
     = (case lookup_host env h n of (r, n') \<Rightarrow> (r, n', l @ [Lookup h r]))"
  by (simp_all add: traced_net_def)

text \<open>A request to \<open>u\<close> is justified by what was learned just before it: its host is an address that
  may be contacted, or a name that has just been resolved to nothing but such addresses.\<close>

definition justified ::
    "('u, 'n) fetch_env \<Rightarrow> web_fetch_config \<Rightarrow> 'u net_call list \<Rightarrow> 'u \<Rightarrow> bool" where
  "justified env cfg before u \<longleftrightarrow>
     (\<exists>host. url_host env u = Some host \<and>
        (case parse_ip host of
           Some ip \<Rightarrow> \<not> blocked_ip cfg ip
         | None \<Rightarrow> (\<exists>pre addrs.
             before = pre @ [Lookup (host @ '':'' @ show_nat (unwrap_or 443 (url_port env u))) (Inr addrs)]
             \<and> addrs \<noteq> [] \<and> list_all (\<lambda>ip. \<not> blocked_ip cfg ip) addrs)))"

definition all_justified :: "('u, 'n) fetch_env \<Rightarrow> web_fetch_config \<Rightarrow> 'u net_call list \<Rightarrow> bool" where
  "all_justified env cfg l \<longleftrightarrow> (\<forall>pre u post. l = pre @ Get u # post \<longrightarrow> justified env cfg pre u)"

definition gets :: "'u net_call list \<Rightarrow> 'u list" where
  "gets l = concat (map (\<lambda>c. case c of Get u \<Rightarrow> [u] | _ \<Rightarrow> []) l)"

lemma gets_simps [simp]:
  "gets [] = []" "gets (a @ b) = gets a @ gets b" "gets [Get u] = [u]" "gets [Lookup h r] = []"
  by (simp_all add: gets_def)

lemma all_justified_Nil [simp]: "all_justified env cfg []"
  by (simp add: all_justified_def)

lemma all_justified_snoc:
  "all_justified env cfg (l @ [c]) \<longleftrightarrow>
     all_justified env cfg l \<and> (case c of Get u \<Rightarrow> justified env cfg l u | Lookup h r \<Rightarrow> True)"
proof -
  have "l @ [c] = pre @ Get u # post \<longleftrightarrow>
      (\<exists>post'. post = post' @ [c] \<and> l = pre @ Get u # post') \<or> post = [] \<and> l = pre \<and> c = Get u"
    for pre u post
    by (cases post rule: rev_cases) auto
  then show ?thesis unfolding all_justified_def by (cases c) (auto split: net_call.splits)
qed

lemma check_ssrf_traced:
  assumes "check_ssrf (traced_net env) cfg u (n, l) = (r, n', l')" and "all_justified env cfg l"
  shows "all_justified env cfg l' \<and> gets l' = gets l \<and> (r = Inr () \<longrightarrow> justified env cfg l' u)"
proof (cases "url_host env u")
  case None
  with assms show ?thesis by (auto simp: check_ssrf_def)
next
  case (Some host)
  let ?q = "host @ '':'' @ show_nat (unwrap_or 443 (url_port env u))"
  show ?thesis
  proof (cases "parse_ip host")
    case (Some ip)
    with assms \<open>url_host env u = _\<close> show ?thesis
      by (auto simp: check_ssrf_def justified_def split: if_splits)
  next
    case None
    obtain q n1 where look: "lookup_host env ?q n = (q, n1)" by (rule prod.exhaust)
    then have l': "l' = l @ [Lookup ?q q]"
      using assms(1) \<open>url_host env u = _\<close> None
      by (auto simp: check_ssrf_def split: sum.splits if_splits option.splits)
    have "list_all (\<lambda>ip. \<not> blocked_ip cfg ip) addrs" "addrs \<noteq> []" "q = Inr addrs"
      if "r = Inr ()" "q = Inr addrs" for addrs
      using that assms(1) \<open>url_host env u = _\<close> None look
      by (auto simp: check_ssrf_def list_all_iff find_None_iff split: if_splits option.splits)
    moreover have "\<exists>addrs. q = Inr addrs" if "r = Inr ()"
      using that assms(1) \<open>url_host env u = _\<close> None look
      by (auto simp: check_ssrf_def split: sum.splits)
    ultimately show ?thesis
      using assms(2) \<open>url_host env u = _\<close> None
      by (auto simp: l' all_justified_snoc justified_def)
  qed
qed

lemma fetch_loop_traced:
  assumes "fetch_loop (traced_net env) cfg mx original k u rs (n, l) = (r, n', l')"
    and "all_justified env cfg l"
  shows "all_justified env cfg l' \<and> length (gets l') \<le> length (gets l) + k"
  using assms
proof (induction k arbitrary: u rs n l)
  case (Suc k)
  obtain c n1 l1 where chk: "check_ssrf (traced_net env) cfg u (n, l) = (c, n1, l1)"
    by (metis surj_pair)
  note c = check_ssrf_traced [OF chk Suc.prems(2)]
  show ?case
  proof (cases c)
    case (Inl e)
    with Suc.prems chk c show ?thesis by auto
  next
    case (Inr x)
    obtain a n2 where get: "http_get env u n1 = (a, n2)" by (rule prod.exhaust)
    have step: "all_justified env cfg (l1 @ [Get u])" "gets (l1 @ [Get u]) = gets l @ [u]"
      using c Inr by (simp_all add: all_justified_snoc)
    show ?thesis
    proof (cases "\<exists>ans location next. a = Inr ans \<and> ha_redirection ans
        \<and> ha_location ans = Some location \<and> url_join env u location = Inr next")
      case True
      then obtain nxt where
        "fetch_loop (traced_net env) cfg mx original k nxt (rs @ [url_text env u])
            (n2, l1 @ [Get u]) = (r, n', l')"
        using Suc.prems(1) chk Inr get by auto
      from Suc.IH [OF this step(1)] step(2) show ?thesis by simp
    next
      case False
      then have "l' = l1 @ [Get u]"
        using Suc.prems(1) chk Inr get by (auto split: sum.splits if_splits option.splits)
      with step show ?thesis by simp
    qed
  qed
qed simp

lemma read_body_bound:
  "read_body mx chunks bytes = Inr out \<Longrightarrow> length bytes \<le> mx \<Longrightarrow> length out \<le> mx"
  by (induction mx chunks bytes rule: read_body.induct) (auto split: if_splits)

lemma fetch_loop_bound:
  "fetch_loop env cfg mx original k u rs n = (Inr f, n') \<Longrightarrow>
     length (fr_bytes f) \<le> mx \<and> length (fr_redirects f) < length rs + k"
proof (induction k arbitrary: u rs n)
  case (Suc k)
  then show ?case
    using read_body_bound [of mx _ "''''"]
    by (fastforce simp: accept_answer_def and_then_Inr_iff
        split: prod.splits sum.splits if_splits option.splits)
qed simp

subsection \<open>Masks\<close>

lemma prefix_mask_eq:
  fixes a b :: "'a::len word"
  assumes "pre \<le> LENGTH('a)"
  shows "a AND (if pre = 0 then 0 else push_bit (LENGTH('a) - pre) (- 1))
       = b AND (if pre = 0 then 0 else push_bit (LENGTH('a) - pre) (- 1))
     \<longleftrightarrow> drop_bit (LENGTH('a) - pre) a = drop_bit (LENGTH('a) - pre) b"
proof (cases "pre = 0")
  case True
  have "drop_bit LENGTH('a) w = 0" for w :: "'a word"
    by (rule bit_eqI) (auto simp: bit_drop_bit_eq dest: bit_imp_le_length)
  with True show ?thesis by simp
next
  case False
  let ?n = "LENGTH('a) - pre"
  have "a AND push_bit ?n (- 1) = b AND push_bit ?n (- 1)
      \<longleftrightarrow> (\<forall>i. ?n \<le> i \<and> i < LENGTH('a) \<longrightarrow> bit a i = bit b i)"
    by (auto simp: bit_eq_iff bit_and_iff bit_push_bit_iff bit_not_iff bit_mask_iff dest: bit_imp_le_length)
  also have "\<dots> \<longleftrightarrow> drop_bit ?n a = drop_bit ?n b"
  proof
    assume "\<forall>i. ?n \<le> i \<and> i < LENGTH('a) \<longrightarrow> bit a i = bit b i"
    then have "bit a j = bit b j" if "?n \<le> j" for j
      using that by (cases "j < LENGTH('a)") (auto dest: bit_imp_le_length)
    then show "drop_bit ?n a = drop_bit ?n b" by (intro bit_eqI) (simp add: bit_drop_bit_eq)
  next
    assume eq: "drop_bit ?n a = drop_bit ?n b"
    show "\<forall>i. ?n \<le> i \<and> i < LENGTH('a) \<longrightarrow> bit a i = bit b i"
    proof (intro allI impI)
      fix i assume "?n \<le> i \<and> i < LENGTH('a)"
      moreover have "bit (drop_bit ?n a) (i - ?n) = bit (drop_bit ?n b) (i - ?n)" using eq by simp
      ultimately show "bit a i = bit b i" by (simp add: bit_drop_bit_eq)
    qed
  qed
  finally show ?thesis using False by simp
qed

definition mapped_v4 :: "ipv4 \<Rightarrow> ipv6" where
  "mapped_v4 a = push_bit 32 0xFFFF OR ucast a"

lemma segment0_mapped: "segment 0 (mapped_v4 a) = 0"
  by (rule bit_eqI)
    (auto simp: segment_def mapped_v4_def bit_ucast_iff bit_drop_bit_eq bit_or_iff bit_push_bit_iff
      dest: bit_imp_le_length)

lemma mapped_v4_bit: "bit (mapped_v4 a) 40"
  by (simp add: mapped_v4_def bit_or_iff bit_push_bit_iff)

lemma mapped_v4_not_private: "\<not> is_private_ip (V6 (mapped_v4 a))"
proof -
  have "mapped_v4 a \<noteq> 0" using mapped_v4_bit [of a] by auto
  moreover have "mapped_v4 a \<noteq> 1" using mapped_v4_bit [of a] by (auto simp: bit_1_iff)
  ultimately show ?thesis
    by (simp add: v6_is_loopback_def v6_is_unspecified_def is_unique_local_v6_def
        is_unicast_link_local_v6_def segment0_mapped)
qed

subsection \<open>File names\<close>

lemma split_last_dot_None_iff: "split_last_dot s = None \<longleftrightarrow> CHR ''.'' \<notin> set s"
  by (induction s) (auto split: option.splits)

lemma split_last_dot_append:
  "CHR ''.'' \<notin> set ext \<Longrightarrow> split_last_dot (stem @ CHR ''.'' # ext) = Some (stem, ext)"
  by (induction stem) (simp_all add: split_last_dot_None_iff [THEN iffD2])

lemma path_file_name_last:
  assumes "slash \<notin> set n" and "n \<noteq> ''''" and "n \<noteq> ''.''" and "n \<noteq> ''..''"
  shows "path_file_name (d @ slash # n) = Some n"
proof -
  have "split_on slash (d @ slash # n) = split_on slash d @ [n]"
    using assms(1) by (simp add: split_on_append split_on_fresh)
  then obtain cs where "path_components (d @ slash # n) = cs @ [Normal n]"
    using assms(2-4) by (auto simp: path_components_def Let_def)
  moreover obtain c cs' where "cs @ [Normal n] = c # cs'" by (cases "cs @ [Normal n]") auto
  moreover from this have "last (c # cs') = Normal n" by (metis last_snoc)
  ultimately show ?thesis by (simp add: path_file_name_def)
qed

lemma path_extension_last:
  assumes "slash \<notin> set stem" and "slash \<notin> set ext" and "CHR ''.'' \<notin> set ext" and "stem \<noteq> ''''"
    and "ext \<noteq> ''''"
  shows "path_extension (d @ slash # stem @ CHR ''.'' # ext) = Some ext"
proof -
  have "path_file_name (d @ slash # stem @ CHR ''.'' # ext) = Some (stem @ CHR ''.'' # ext)"
    using assms by (intro path_file_name_last) (auto simp: slash_def append_eq_Cons_conv)
  with assms show ?thesis by (simp add: path_extension_def split_last_dot_append)
qed

lemma ascii_lower_not_slash: "c \<noteq> slash \<Longrightarrow> ascii_lower c \<noteq> slash"
proof
  assume ne: "c \<noteq> slash" and eq: "ascii_lower c = slash"
  with ne have up: "65 \<le> (of_char c :: nat)" "(of_char c :: nat) \<le> 90"
    by (auto simp: ascii_lower_def split: if_splits)
  with eq have "char_of ((of_char c :: nat) + 32) = slash" by (simp add: ascii_lower_def)
  then have "(of_char (char_of ((of_char c :: nat) + 32) :: char) :: nat) = of_char slash" by simp
  with up show False by (simp add: slash_def)
qed

lemma sanitize_stem_no_slash: "slash \<notin> set (sanitize_stem v)"
proof -
  have "slash \<notin> set (sanitize_char g)" for g
  proof (cases g)
    case (Cons c cs)
    have "ascii_lower c \<noteq> slash" if "is_ascii_alphanumeric c \<or> c = CHR ''-'' \<or> c = CHR ''_''"
    proof (rule ascii_lower_not_slash)
      show "c \<noteq> slash"
        using that by (auto simp: is_ascii_alphanumeric_def slash_def is_ascii_digit_def)
    qed
    then show ?thesis by (cases cs) (auto simp: sanitize_char_def Cons slash_def)
  qed (simp add: sanitize_char_def slash_def)
  then have "slash \<notin> set (concat (map sanitize_char (chars v)))" by auto
  then show ?thesis
    unfolding sanitize_stem_def trim_matches_def trim_start_matches_def trim_end_matches_def
    by (auto dest!: set_dropWhileD)
qed

lemma download_stem_safe: "slash \<notin> set (download_stem env url)" "download_stem env url \<noteq> ''''"
  using sanitize_stem_no_slash
  by (auto simp: download_stem_def Let_def slash_def split: option.splits)

lemma default_download_path_extension:
  assumes "extension_for_content_type ct = Some ext" and "slash \<notin> set sha"
  shows "path_extension (default_download_path env dir url ct sha) = Some ext"
proof -
  have ext: "slash \<notin> set ext" "CHR ''.'' \<notin> set ext" "ext \<noteq> ''''"
    using assms(1) by (auto simp: extension_for_content_type_def slash_def split: if_splits)
  have "default_download_path env dir url ct sha
      = trim_end_matches (CHR ''/'') dir @ slash # (download_stem env url @ ''-'' @ take 8 sha)
          @ CHR ''.'' # ext"
    using assms(1) by (simp add: default_download_path_def slash_def)
  also have "path_extension \<dots> = Some ext"
    using assms(2) ext download_stem_safe [of env url]
    by (intro path_extension_last) (auto simp: slash_def dest: in_set_takeD)
  finally show ?thesis .
qed

subsection \<open>Properties of the download tool\<close>

text \<open>C12: no request without a check. Every HTTP request of a download, the first one and each one
  after a redirect, goes to a URL whose host is an address that passes the check of the code, or a
  name which was resolved directly before the request, for its port, to at least one address and
  only to addresses that pass it. An address passes when it is on the allow list or \<open>is_private_ip\<close>
  does not count it as private; that is the code's own test and not the same as "public": it lets
  the IPv4-mapped addresses such as \<open>::ffff:127.0.0.1\<close> pass (\<open>mapped_addresses_are_not_blocked\<close>),
  although docs/configuration.md says that loopback and private addresses are blocked by default. At
  most \<open>max_redirects + 1\<close> requests are made.\<close>

theorem fetch_requests_are_checked:
  assumes "fetch_url (traced_net env) cfg raw mx (n, []) = (r, n', l)"
  shows "(\<forall>pre u post. l = pre @ Get u # post \<longrightarrow> justified env cfg pre u)
    \<and> length (gets l) \<le> Suc (wf_max_redirects cfg)"
proof -
  consider "l = []"
    | u where "fetch_loop (traced_net env) cfg mx (trim raw) (Suc (wf_max_redirects cfg)) u []
        (n, []) = (r, n', l)"
    using assms by (auto simp: fetch_url_def Let_def split: sum.splits if_splits)
  then show ?thesis
  proof cases
    case 2
    from fetch_loop_traced [OF 2] show ?thesis by (simp add: all_justified_def)
  qed simp
qed

text \<open>URLs for evaluating examples: the text is the host, every name is \<open>127.0.0.1\<close>, every request
  answers with two bytes of PNG.\<close>

definition sample_net :: "(string, unit) fetch_env" where
  "sample_net =
     \<lparr>url_parse = Inr, url_scheme = (\<lambda>u. ''http''), url_host = Some, url_port = (\<lambda>u. Some 80),
      url_join = (\<lambda>u l. Inr l), url_text = (\<lambda>u. u), url_segments = (\<lambda>u. Some [u]),
      http_get = (\<lambda>u n. (Inr \<lparr>ha_redirection = False, ha_success = True, ha_status = ''200 OK'',
        ha_location = None, ha_content_type = Some ''image/png'', ha_content_length = None,
        ha_chunks = [Inr ''PN'']\<rparr>, n)),
      lookup_host = (\<lambda>h n. (Inr [V4 0x7F000001], n)),
      sha256_hex = (\<lambda>b. ''0123456789abcdef'')\<rparr>"

definition sample_fetch_config :: web_fetch_config where
  "sample_fetch_config =
     \<lparr>wf_enabled = True, wf_max_bytes = 10, wf_timeout_secs = 1, wf_max_redirects = 5,
      wf_download_dir = ''dl'', wf_allowed_content_types = [''image/png''], wf_ssrf_allowlist = []\<rparr>"

theorem fetch_requests_are_checked_witness:
  "length (gets (snd (snd (fetch_url (traced_net sample_net) sample_fetch_config ''8.8.8.8'' 10
      ((), []))))) \<le> 6"
proof -
  obtain r n' l where run: "fetch_url (traced_net sample_net) sample_fetch_config ''8.8.8.8'' 10
      ((), []) = (r, n', l)"
    by (metis surj_pair)
  from fetch_requests_are_checked [OF run] run show ?thesis
    by (simp add: sample_fetch_config_def)
qed

text \<open>C13: a download that succeeds is at most \<open>max_bytes\<close> long, whatever length the server
  announced and however many chunks it sent, and followed at most \<open>max_redirects\<close> redirects.\<close>

theorem fetch_size_bound:
  assumes "fetch_url env cfg raw mx n = (Inr f, n')"
  shows "length (fr_bytes f) \<le> mx \<and> length (fr_redirects f) \<le> wf_max_redirects cfg"
proof -
  from assms obtain u where "fetch_loop env cfg mx (trim raw) (Suc (wf_max_redirects cfg)) u [] n
      = (Inr f, n')"
    by (auto simp: fetch_url_def Let_def simp del: fetch_loop.simps split: sum.splits if_splits)
  from fetch_loop_bound [OF this] show ?thesis by simp
qed

theorem fetch_size_bound_witness:
  "length (fr_bytes (\<lparr>fr_url = ''8.8.8.8'', fr_final_url = ''8.8.8.8'', fr_redirects = [],
     fr_content_type = ''image/png'', fr_bytes = ''PN''\<rparr>)) \<le> 10"
proof -
  have "fetch_url sample_net sample_fetch_config ''8.8.8.8'' 10 ()
      = (Inr \<lparr>fr_url = ''8.8.8.8'', fr_final_url = ''8.8.8.8'', fr_redirects = [],
          fr_content_type = ''image/png'', fr_bytes = ''PN''\<rparr>, ())"
    by code_simp
  from fetch_size_bound [OF this] show ?thesis by blast
qed

text \<open>An allow-list entry in CIDR notation admits exactly the addresses that agree with its
  base in the first \<open>n\<close> bits, for every prefix length from 0 to 32.\<close>

theorem allowlist_v4_is_prefix_match:
  assumes "split_once (CHR ''/'') entry = Some (base_text, prefix_text)"
    and "parse_ipv4 base_text = Some base" and "parse_unsigned u32_max prefix_text = Some k"
  shows "allowlist_v4_contains entry ip \<longleftrightarrow>
    k \<le> 32 \<and> drop_bit (32 - k) ip = drop_bit (32 - k) base"
proof (cases "k \<le> 32")
  case True
  with prefix_mask_eq [of k base ip] assms show ?thesis
    by (auto simp: allowlist_v4_contains_def Let_def)
qed (use assms in \<open>simp add: allowlist_v4_contains_def\<close>)

theorem allowlist_v4_is_prefix_match_witness:
  "allowlist_v4_contains ''10.0.0.0/8'' 0x0A010203
     \<longleftrightarrow> 8 \<le> (32 :: nat) \<and> drop_bit (32 - 8) (0x0A010203 :: ipv4) = drop_bit (32 - 8) 0x0A000000"
proof (rule allowlist_v4_is_prefix_match)
  show "split_once (CHR ''/'') ''10.0.0.0/8'' = Some (''10.0.0.0'', ''8'')" by code_simp
  show "parse_ipv4 ''10.0.0.0'' = Some 0x0A000000" by code_simp
  show "parse_unsigned u32_max ''8'' = Some 8"
    by code_simp
qed

text \<open>The address check does not look through IPv4-mapped IPv6 addresses: with whatever
  configuration, the mapped form of any IPv4 address, loopback and private ones included, is never
  blocked, and the mapped form of \<open>127.0.0.1\<close> is an address the parser accepts.\<close>

theorem mapped_addresses_are_not_blocked:
  "\<not> blocked_ip cfg (V6 (mapped_v4 a))
   \<and> parse_ip ''::ffff:127.0.0.1'' = Some (V6 (mapped_v4 0x7F000001))
   \<and> blocked_ip default_web_fetch_config (V4 0x7F000001)"
proof (intro conjI)
  show "\<not> blocked_ip cfg (V6 (mapped_v4 a))" by (simp add: blocked_ip_def mapped_v4_not_private del: is_private_ip.simps)
  show "parse_ip ''::ffff:127.0.0.1'' = Some (V6 (mapped_v4 0x7F000001))" by code_simp
  have "v4_is_loopback 0x7F000001" by code_simp
  then show "blocked_ip default_web_fetch_config (V4 0x7F000001)"
    by (simp add: blocked_ip_def is_allowlisted_def default_web_fetch_config_def)
qed

text \<open>The path chosen for a download without a \<open>path\<close> argument always carries the extension
  of its content type, whatever the URL and the configured directory are, so that such a download
  is never refused for its extension; the hash is hexadecimal, as its documentation says.\<close>

theorem default_path_matches_content_type:
  assumes "extension_for_content_type ct \<noteq> None" and "list_all is_ascii_alphanumeric sha"
  shows "extension_matches_content_type (default_download_path env dir url ct sha) ct"
proof -
  from assms(1) obtain ext where ext: "extension_for_content_type ct = Some ext" by blast
  have "slash \<notin> set sha"
    using assms(2) by (auto simp: list_all_iff slash_def is_ascii_alphanumeric_def is_ascii_digit_def)
  from default_download_path_extension [OF ext this]
  have "path_extension (default_download_path env dir url ct sha) = Some ext" .
  moreover have "to_ascii_lowercase ext = ext" "ct = ''image/jpeg'' \<Longrightarrow> ext = ''jpg''"
    using ext by (auto simp: extension_for_content_type_def to_ascii_lowercase_def ascii_lower_def
        split: if_splits)
  ultimately show ?thesis using ext by (simp add: extension_matches_content_type_def)
qed

theorem default_path_matches_content_type_witness:
  "extension_matches_content_type
     (default_download_path sample_net ''assets/downloads/'' ''logo.svg'' ''image/png'' ''0123abcd99'')
     ''image/png''"
  by (rule default_path_matches_content_type) code_simp+

text \<open>Without \<open>overwrite\<close> an existing file is not touched when the destination is spelled as
  the listing spells it: if the destination has the components of a listed workspace file, the
  file tree after the call is the tree before it.\<close>

theorem fetch_keeps_existing_file:
  assumes "parse_fetch_args sj args = Inr (Inr a)" and "\<not> unwrap_or False (fa_overwrite a)"
    and "fa_path a = Some path" and "list_files ws (tw_fs w) = Inr files" and "lists_path files path"
  shows "tw_fs (snd (fetch_execute sj env cfg ws args w)) = tw_fs w"
  using assms
  by (auto simp: fetch_execute_def place_download_def Let_def split: prod.splits sum.splits)

definition picture_fs :: node where
  "picture_fs = Dir [(''ws'', Dir [(''pic.png'', RegFile ''old'')])]"

definition picture_args :: "string \<Rightarrow> json" where
  "picture_args path = json_obj [(''url'', JStr ''8.8.8.8''), (''path'', JStr path)]"

theorem fetch_keeps_existing_file_witness:
  "tw_fs (snd (fetch_execute sample_serde sample_net sample_fetch_config sample_ws
     (picture_args ''pic.png'') \<lparr>tw_fs = picture_fs, tw_net = ()\<rparr>)) = picture_fs"
proof -
  have "tw_fs (snd (fetch_execute sample_serde sample_net sample_fetch_config sample_ws
     (picture_args ''pic.png'') \<lparr>tw_fs = picture_fs, tw_net = ()\<rparr>))
     = tw_fs \<lparr>tw_fs = picture_fs, tw_net = ()\<rparr>"
    by (rule fetch_keeps_existing_file [where files = "[''pic.png'']" and path = "''pic.png''"
          and a = "\<lparr>fa_url = ''8.8.8.8'', fa_path = Some ''pic.png'', fa_overwrite = None,
              fa_max_bytes = None, fa_expected_content_type = None\<rparr>"]) code_simp+
  then show ?thesis by simp
qed

text \<open>The guard compares spellings, not files: with \<open>./\<close> in front of the path the same existing
  file is overwritten although \<open>overwrite\<close> was not given.\<close>

theorem fetch_overwrites_through_dot:
  "lookup (tw_fs (snd (fetch_execute sample_serde sample_net sample_fetch_config sample_ws
       (picture_args ''./pic.png'') \<lparr>tw_fs = picture_fs, tw_net = ()\<rparr>))) [''ws'', ''pic.png'']
     = Some (RegFile ''PN'')
   \<and> lookup picture_fs [''ws'', ''pic.png''] = Some (RegFile ''old'')"
  by code_simp

end
