(* ===== verification/Web_Search.thy ===== *)
theory Web_Search
  imports Tools Config
begin

section \<open>The search tool\<close>

text \<open>
  \<open>tools/web_search.rs\<close>. The environment variables, the HTTP client and the parser derived for the
  answer of the Tavily service are the fields of \<open>search_env\<close>.
\<close>

definition MAX_RESULTS_LIMIT :: nat where
  "MAX_RESULTS_LIMIT = 20"

record tavily_result =
  tr_title :: string
  tr_url :: string
  tr_content :: "string option"
  tr_score :: "json option"
  tr_favicon :: "json option"
  tr_images :: "json option"

record tavily_response =
  ta_answer :: "json option"
  ta_results :: "tavily_result list"
  ta_images :: "json list"
  ta_response_time :: "json option"
  ta_request_id :: "json option"
  ta_usage :: "json option"

record search_answer =
  sa_success :: bool
  sa_status :: nat
  sa_status_text :: string
  sa_text :: "string + string"
  sa_json :: "string + tavily_response"

record 'n search_env =
  env_var :: "string \<Rightarrow> string option"
  search_client :: "nat \<Rightarrow> string + unit"
  search_post :: "string \<Rightarrow> (string \<times> string) list \<Rightarrow> json \<Rightarrow> 'n \<Rightarrow> (string + search_answer) \<times> 'n"

record search_tool =
  st_config :: web_search_config
  st_api_key :: string

record search_args =
  sr_query :: string
  sr_max_results :: "nat option"
  sr_search_depth :: "string option"
  sr_topic :: "string option"
  sr_time_range :: "string option"
  sr_include_domains :: "string list option"
  sr_exclude_domains :: "string list option"
  sr_include_answer :: "bool option"
  sr_include_images :: "bool option"

definition resolve_tavily_api_key :: "'n search_env \<Rightarrow> web_search_config \<Rightarrow> string result" where
  "resolve_tavily_api_key env cfg =
     (let configured = trim (tv_api_key (ws_tavily cfg));
          env_key = trim (tv_env_key (ws_tavily cfg));
          missing = Config ''Tavily web_search requires tools.web_search.tavily.api_key or a configured env_key''
      in if configured \<noteq> '''' then Inr configured
         else if env_key = '''' then Inl missing
         else case env_var env env_key of
                Some v \<Rightarrow> (if trim v \<noteq> '''' then Inr v else Inl missing)
              | None \<Rightarrow> Inl missing)"

definition search_tool_new :: "'n search_env \<Rightarrow> web_search_config \<Rightarrow> search_tool result" where
  "search_tool_new env cfg =
     (if trim (ws_provider cfg) \<noteq> ''tavily''
      then Inl (Config (''unsupported web_search provider: '' @ ws_provider cfg))
      else and_then (resolve_tavily_api_key env cfg) (\<lambda>key.
        and_then (map_err (\<lambda>e. Config (''build Tavily client: '' @ e))
                    (search_client env (tv_timeout_secs (ws_tavily cfg)))) (\<lambda>u.
          Inr \<lparr>st_config = cfg, st_api_key = key\<rparr>)))"

definition search_error :: "serde_json \<Rightarrow> string \<Rightarrow> string \<Rightarrow> nat option \<Rightarrow> tool_result result" where
  "search_error sj code err status =
     (let c = json_obj [(''tool'', JStr ''web_search''), (''provider'', JStr ''tavily''),
                (''success'', JBool False), (''recoverable'', JBool True), (''code'', JStr code),
                (''error'', JStr err)]
      in tool_json sj (case status of None \<Rightarrow> c | Some s \<Rightarrow> json_set c ''status'' (json_nat s)) None)"

definition decode_search_args :: "json \<Rightarrow> de_error + search_args" where
  "decode_search_args j =
     and_then (struct_source ''struct SearchArgs with 9 elements''
        [''query'', ''max_results'', ''search_depth'', ''topic'', ''time_range'', ''include_domains'',
         ''exclude_domains'', ''include_answer'', ''include_images''] j) (\<lambda>src.
       and_then (visit_entries (\<lambda>k v.
           if k = ''query'' then error_of (dec_string v)
           else if k = ''max_results'' then error_of (dec_option dec_usize v)
           else if k \<in> set [''search_depth'', ''topic'', ''time_range''] then error_of (dec_option dec_string v)
           else if k \<in> set [''include_domains'', ''exclude_domains'']
           then error_of (dec_option (dec_vec dec_string) v)
           else if k \<in> set [''include_answer'', ''include_images''] then error_of (dec_option dec_bool v)
           else None) src) (\<lambda>u.
         and_then (req_field src ''query'' dec_string) (\<lambda>query.
         and_then (default_field src ''max_results'' None (dec_option dec_usize)) (\<lambda>mx.
         and_then (default_field src ''search_depth'' None (dec_option dec_string)) (\<lambda>depth.
         and_then (default_field src ''topic'' None (dec_option dec_string)) (\<lambda>topic.
         and_then (default_field src ''time_range'' None (dec_option dec_string)) (\<lambda>range.
         and_then (default_field src ''include_domains'' None (dec_option (dec_vec dec_string))) (\<lambda>incl.
         and_then (default_field src ''exclude_domains'' None (dec_option (dec_vec dec_string))) (\<lambda>excl.
         and_then (default_field src ''include_answer'' None (dec_option dec_bool)) (\<lambda>answer.
         and_then (default_field src ''include_images'' None (dec_option dec_bool)) (\<lambda>images.
           Inr \<lparr>sr_query = query, sr_max_results = mx, sr_search_depth = depth, sr_topic = topic,
                sr_time_range = range, sr_include_domains = incl, sr_exclude_domains = excl,
                sr_include_answer = answer, sr_include_images = images\<rparr>)))))))))))"

definition parse_search_args :: "serde_json \<Rightarrow> json \<Rightarrow> (tool_result + search_args) result" where
  "parse_search_args sj j =
     (case decode_search_args j of
        Inl e \<Rightarrow> and_then (search_error sj ''invalid_args'' (''invalid arguments: '' @ de_msg sj e) None)
                  (\<lambda>r. Inr (Inl r))
      | Inr a \<Rightarrow>
          (if trim (sr_query a) = ''''
           then and_then (search_error sj ''invalid_args'' ''`query` cannot be empty'' None) (\<lambda>r. Inr (Inl r))
           else if sr_max_results a = Some 0
           then and_then (search_error sj ''invalid_args'' ''`max_results` must be greater than 0'' None)
                  (\<lambda>r. Inr (Inl r))
           else Inr (Inr a)))"

definition set_opt :: "string \<Rightarrow> json option \<Rightarrow> json \<Rightarrow> json" where
  "set_opt k v j = (case v of None \<Rightarrow> j | Some x \<Rightarrow> json_set j k x)"

definition search_body :: "web_search_config \<Rightarrow> search_args \<Rightarrow> json" where
  "search_body cfg a =
     (let tv = ws_tavily cfg;
          body = json_obj
            [(''query'', JStr (trim (sr_query a))),
             (''max_results'', json_nat (min (unwrap_or (tv_max_results tv) (sr_max_results a)) MAX_RESULTS_LIMIT)),
             (''search_depth'', JStr (unwrap_or (tv_search_depth tv) (sr_search_depth a))),
             (''topic'', JStr (unwrap_or (tv_topic tv) (sr_topic a))),
             (''include_answer'', JBool (unwrap_or (tv_include_answer tv) (sr_include_answer a))),
             (''include_images'', JBool (unwrap_or (tv_include_images tv) (sr_include_images a))),
             (''include_favicon'', JBool (tv_include_favicon tv))]
      in set_opt ''exclude_domains'' (map_option (JArr \<circ> map JStr) (sr_exclude_domains a))
          (set_opt ''include_domains'' (map_option (JArr \<circ> map JStr) (sr_include_domains a))
            (set_opt ''time_range'' (map_option JStr (sr_time_range a)) body)))"

definition opt_json :: "json option \<Rightarrow> json" where
  "opt_json v = unwrap_or JNull v"

definition result_json :: "tavily_result \<Rightarrow> json" where
  "result_json r =
     json_obj [(''title'', JStr (tr_title r)), (''url'', JStr (tr_url r)),
       (''content'', JStr (unwrap_or '''' (tr_content r))), (''score'', opt_json (tr_score r)),
       (''favicon'', opt_json (tr_favicon r)), (''images'', opt_json (tr_images r))]"

definition search_execute ::
    "serde_json \<Rightarrow> 'n search_env \<Rightarrow> search_tool \<Rightarrow> json \<Rightarrow> 'n tool_world \<Rightarrow> tool_result result \<times> 'n tool_world" where
  "search_execute sj env st args w =
     (case parse_search_args sj args of
        Inl e \<Rightarrow> (Inl e, w)
      | Inr (Inl res) \<Rightarrow> (Inr res, w)
      | Inr (Inr a) \<Rightarrow>
          (let body = search_body (st_config st) a;
               url = trim_end_matches (CHR ''/'') (tv_base_url (ws_tavily (st_config st))) @ ''/search'';
               (r, n) = search_post env url
                 [(''Authorization'', ''Bearer '' @ st_api_key st), (''Content-Type'', ''application/json'')]
                 body (tw_net w);
               w1 = w\<lparr>tw_net := n\<rparr>
           in case r of
                Inl e \<Rightarrow> (search_error sj ''request_failed'' (''Tavily request failed: '' @ e) None, w1)
              | Inr ans \<Rightarrow>
                  (if \<not> sa_success ans
                   then (search_error sj ''http_error''
                          (''Tavily request failed with status '' @ sa_status_text ans @ '': ''
                             @ (case sa_text ans of Inr t \<Rightarrow> t | Inl e \<Rightarrow> ''''))
                          (Some (sa_status ans)), w1)
                   else case sa_json ans of
                     Inl e \<Rightarrow> (search_error sj ''invalid_response'' (''invalid Tavily response: '' @ e) None, w1)
                   | Inr p \<Rightarrow>
                       (tool_json sj
                          (json_obj
                            [(''tool'', JStr ''web_search''), (''provider'', JStr ''tavily''),
                             (''success'', JBool True), (''query'', JStr (trim (sr_query a))),
                             (''answer'', opt_json (ta_answer p)),
                             (''results'', JArr (map result_json (ta_results p))),
                             (''images'', JArr (ta_images p)),
                             (''response_time'', opt_json (ta_response_time p)),
                             (''request_id'', opt_json (ta_request_id p)), (''usage'', opt_json (ta_usage p)),
                             (''truncated'', JBool False)])
                          (Some (''Searched Tavily for `''
                             @ unwrap_or '''' (Option.bind (json_get body ''query'') as_str) @ ''`'')), w1))))"

definition search_field :: "string \<Rightarrow> string \<Rightarrow> (string \<times> json) list \<Rightarrow> json" where
  "search_field ty desc extra = json_obj ([(''type'', JStr ty), (''description'', JStr desc)] @ extra)"

definition search_definition :: "search_tool \<Rightarrow> tool_definition" where
  "search_definition st =
     \<lparr>def_name = ''web_search'',
      def_description = ''Search the public web through Tavily for current external information and return structured source metadata.'',
      def_parameters = json_obj
        [(''type'', JStr ''object''),
         (''description'', JStr ''Search Tavily for web results. Use focused queries with entities, versions, dates, or domains when possible.''),
         (''properties'', json_obj
           [(''query'', search_field ''string'' ''Natural-language search query.''
               [(''minLength'', json_nat 1),
                (''examples'', JArr [JStr ''Rust reqwest timeout docs'', JStr ''Tavily Search API max_results''])]),
            (''max_results'', search_field ''integer'' ''Maximum results to return. Defaults to configured Tavily max_results and is clamped to 20.''
               [(''minimum'', json_nat 1), (''maximum'', json_nat 20),
                (''default'', json_nat (tv_max_results (ws_tavily (st_config st))))]),
            (''search_depth'', search_field ''string'' ''Tavily search depth. Defaults to configured value.''
               [(''enum'', JArr [JStr ''basic'', JStr ''advanced''])]),
            (''topic'', search_field ''string'' ''Tavily topic such as general or news. Defaults to configured value.'' []),
            (''time_range'', search_field ''string'' ''Optional Tavily time range for recency filtering.'' []),
            (''include_domains'', search_field ''array'' ''Optional domains to restrict results to.''
               [(''items'', json_obj [(''type'', JStr ''string'')])]),
            (''exclude_domains'', search_field ''array'' ''Optional domains to exclude.''
               [(''items'', json_obj [(''type'', JStr ''string'')])]),
            (''include_answer'', search_field ''boolean'' ''Whether Tavily should include an answer summary.'' []),
            (''include_images'', search_field ''boolean'' ''Whether Tavily should include image results.'' [])]),
         (''required'', JArr [JStr ''query'']), (''additionalProperties'', JBool False)]\<rparr>"

definition web_search_tool :: "serde_json \<Rightarrow> 'n search_env \<Rightarrow> search_tool \<Rightarrow> 'n tool_world tool" where
  "web_search_tool sj env st =
     \<lparr>tool_def = search_definition st, tool_run = search_execute sj env st\<rparr>"

subsection \<open>Properties of the search tool\<close>

lemma search_execute_fs: "tw_fs (snd (search_execute sj env st args w)) = tw_fs w"
  by (simp add: search_execute_def Let_def split: prod.splits sum.splits)

lemma tool_json_total:
  assumes "\<forall>j. \<exists>s. ser_pretty sj j = Inr s"
  shows "\<exists>res. tool_json sj c user = Inr res \<and> should_continue res"
proof -
  from assms obtain s where "ser_pretty sj c = Inr s" by blast
  then show ?thesis by (simp add: tool_json_def)
qed

lemma search_error_total:
  assumes "\<forall>j. \<exists>s. ser_pretty sj j = Inr s"
  obtains res where "search_error sj code err status = Inr res" "should_continue res"
  using tool_json_total [OF assms] unfolding search_error_def Let_def by blast

lemma search_body_max:
  "json_get (search_body cfg a) ''max_results''
     = Some (json_nat (min (unwrap_or (tv_max_results (ws_tavily cfg)) (sr_max_results a)) 20))"
  by (simp add: search_body_def Let_def set_opt_def json_get_set json_get_obj MAX_RESULTS_LIMIT_def
      split: option.splits)

lemma parse_search_args_total:
  assumes "\<forall>j. \<exists>s. ser_pretty sj j = Inr s"
  shows "(\<exists>res. parse_search_args sj args = Inr (Inl res) \<and> should_continue res)
    \<or> (\<exists>a. parse_search_args sj args = Inr (Inr a))"
proof (cases "decode_search_args args")
  case (Inl e)
  obtain res where "search_error sj ''invalid_args'' (''invalid arguments: '' @ de_msg sj e) None = Inr res"
      "should_continue res"
    using assms by (rule search_error_total)
  with Inl show ?thesis by (simp add: parse_search_args_def)
next
  case (Inr a)
  obtain r1 where "search_error sj ''invalid_args'' ''`query` cannot be empty'' None = Inr r1"
      "should_continue r1"
    using assms by (rule search_error_total)
  moreover obtain r2 where
      "search_error sj ''invalid_args'' ''`max_results` must be greater than 0'' None = Inr r2"
      "should_continue r2"
    using assms by (rule search_error_total)
  ultimately show ?thesis using Inr by (simp add: parse_search_args_def)
qed

text \<open>No failure of a search ends the turn: as long as JSON values can be printed, the tool
  answers every call, with whatever arguments and whatever the service answers, with a result after
  which the turn goes on, never with an error; and it never touches the file tree.\<close>

theorem search_never_fails:
  assumes "\<forall>j. \<exists>s. ser_pretty sj j = Inr s"
  shows "(\<exists>res. fst (search_execute sj env st args w) = Inr res \<and> should_continue res)
    \<and> tw_fs (snd (search_execute sj env st args w)) = tw_fs w"
proof (intro conjI search_execute_fs)
  from parse_search_args_total [OF assms, of args]
  consider res where "parse_search_args sj args = Inr (Inl res)" "should_continue res"
    | a where "parse_search_args sj args = Inr (Inr a)" by blast
  then show "\<exists>res. fst (search_execute sj env st args w) = Inr res \<and> should_continue res"
  proof cases
    case 1
    then show ?thesis by (simp add: search_execute_def)
  next
    case (2 a)
    then show ?thesis
      using tool_json_total [OF assms]
      by (simp add: search_execute_def search_error_def Let_def split: prod.splits sum.splits)
  qed
qed

definition sample_search :: "unit search_env" where
  "sample_search =
     \<lparr>env_var = (\<lambda>k. None), search_client = (\<lambda>t. Inr ()), search_post = (\<lambda>u hs b n. (Inl ''offline'', n))\<rparr>"

theorem search_never_fails_witness:
  "(\<exists>res. fst (search_execute sample_serde sample_search
        \<lparr>st_config = default_web_search_config, st_api_key = ''k''\<rparr> JNull
        \<lparr>tw_fs = sample_fs, tw_net = ()\<rparr>) = Inr res \<and> should_continue res)
   \<and> tw_fs (snd (search_execute sample_serde sample_search
        \<lparr>st_config = default_web_search_config, st_api_key = ''k''\<rparr> JNull
        \<lparr>tw_fs = sample_fs, tw_net = ()\<rparr>)) = tw_fs \<lparr>tw_fs = sample_fs, tw_net = ()\<rparr>"
  by (rule search_never_fails) (simp add: sample_serde_def)

end
