(* ===== verification/Runtime.thy ===== *)
theory Runtime
  imports Tools
begin

section \<open>The agent runtime\<close>

text \<open>
  \<open>runtime/mod.rs\<close>: one turn of the agent. The dependencies (\<open>RuntimeDeps\<close>: language model, tool
  registry, session store, telemetry, and the clock and random source behind a fresh envelope) are
  a record of functions over a state \<open>'w\<close> they share; the turn threads that state, the progress
  events handed to the callback (\<open>None\<close> without one), the sequence number, the conversation and the
  number of tool calls. \<open>turn_loop\<close> is the \<open>for\<close> loop over the iterations, \<open>tool_loop\<close> the inner
  loop over the tool calls of one response; their first component is \<open>Some\<close> result once the
  function has returned.
\<close>

record 'w runtime_deps =
  llm_chat :: "chat_message list \<Rightarrow> tool_definition list \<Rightarrow> chat_options \<Rightarrow> 'w \<Rightarrow> llm_response result \<times> 'w"
  tools_definitions :: "tool_definition list"
  tools_execute :: "string \<Rightarrow> json \<Rightarrow> 'w \<Rightarrow> tool_result result \<times> 'w"
  sessions_load :: "'w \<Rightarrow> session result \<times> 'w"
  sessions_save :: "session \<Rightarrow> 'w \<Rightarrow> unit result \<times> 'w"
  record_event :: "string \<Rightarrow> 'w \<Rightarrow> 'w"
  fresh_stamps :: "'w \<Rightarrow> stamps \<times> 'w"
  system_prompt :: string

record runtime_limits =
  max_tool_iterations :: nat
  max_tool_calls :: nat

definition default_limits :: runtime_limits where
  "default_limits = \<lparr>max_tool_iterations = 8, max_tool_calls = 32\<rparr>"

subsection \<open>Previews\<close>

definition preview_text :: "string \<Rightarrow> string" where
  "preview_text text =
     concat (take 500 (chars text)) @ (if length (chars text) > 500 then ''...'' else '''')"

fun redact_preview_value :: "json \<Rightarrow> json" where
  "redact_preview_value (JObj m) =
     JObj (map (\<lambda>kv.
       (fst kv,
        if fst kv = ''content''
        then (case as_str (snd kv) of
                None \<Rightarrow> redact_preview_value (snd kv)
              | Some text \<Rightarrow> JStr (''<'' @ show_nat (length text) @ '' chars>''))
        else redact_preview_value (snd kv))) m)"
| "redact_preview_value (JArr items) = JArr (map redact_preview_value items)"
| "redact_preview_value (JStr text) = JStr (preview_text text)"
| "redact_preview_value v = v"

definition preview_value :: "serde_json \<Rightarrow> json \<Rightarrow> string" where
  "preview_value sj v =
     (case ser_str sj (redact_preview_value v) of
        Inr text \<Rightarrow> preview_text text
      | Inl e \<Rightarrow> ''<unserializable arguments>'')"

fun input_text :: "input_event \<Rightarrow> string" where
  "input_text (UserText text src) = text"
| "input_text (CdpUserEvent ev) = ''CDP event: '' @ event_type ev"
| "input_text (PluginMessage text) = text"
| "input_text (WorkspaceChanged path) = ''Workspace changed: '' @ path"

definition turn_id :: "input_event envelope \<Rightarrow> string" where
  "turn_id event =
     unwrap_or (message_id (header event))
       (Option.bind (bt_get (metadata event) ''jsonrpc_id'') as_str)"

subsection \<open>The state of a turn\<close>

record 'w turn =
  world :: 'w
  progress :: "turn_progress_event list option"
  seq_no :: "32 word"
  messages :: "chat_message list"
  calls_made :: nat

definition emit_progress ::
    "string \<Rightarrow> turn_progress_kind \<Rightarrow> string option \<Rightarrow> string option \<Rightarrow> string option \<Rightarrow> string
     \<Rightarrow> 'w turn \<Rightarrow> 'w turn" where
  "emit_progress tid kd tool args res msg t =
     (case progress t of
        None \<Rightarrow> t
      | Some evs \<Rightarrow>
          t\<lparr>seq_no := seq_no t + 1,
            progress := Some (evs @ [\<lparr>turn_id_of = tid, sequence_of = seq_no t + 1, kind_of = kd,
              tool_name_of = tool, arguments_preview_of = args, result_preview_of = res,
              message_of = msg\<rparr>])\<rparr>)"

definition emit_turn_failed :: "string \<Rightarrow> reshape_error \<Rightarrow> 'w turn \<Rightarrow> 'w turn" where
  "emit_turn_failed tid e t =
     emit_progress tid TurnFailed None None (Some (preview_text (error_text e)))
       ''Agent turn failed'' t"

text \<open>The two ends of a turn: emit the failure and return the error, or record the output, save
  the session, emit the completion and return the output in a fresh envelope. An error of the
  store is returned without an event.\<close>

definition fail_turn ::
    "string \<Rightarrow> reshape_error \<Rightarrow> 'w turn \<Rightarrow> output_event envelope result option \<times> 'w turn" where
  "fail_turn tid e t = (Some (Inl e), emit_turn_failed tid e t)"

definition complete_turn ::
    "'w runtime_deps \<Rightarrow> string \<Rightarrow> session \<Rightarrow> output_event \<Rightarrow> string \<Rightarrow> 'w turn
     \<Rightarrow> output_event envelope result option \<times> 'w turn" where
  "complete_turn deps tid session output preview t =
     (case sessions_save deps (record_output output session) (world t) of
        (Inl e, w) \<Rightarrow> (Some (Inl e), t\<lparr>world := w\<rparr>)
      | (Inr u, w) \<Rightarrow>
          (let t = emit_progress tid TurnCompleted None None (Some preview)
                     ''Agent turn completed'' (t\<lparr>world := w\<rparr>);
               (st, w) = fresh_stamps deps (world t)
           in (Some (Inr (for_session st DEFAULT_SESSION_KEY output)), t\<lparr>world := w\<rparr>)))"

definition tool_step ::
    "serde_json \<Rightarrow> 'w runtime_deps \<Rightarrow> runtime_limits \<Rightarrow> string \<Rightarrow> session \<Rightarrow> tool_call \<Rightarrow> 'w turn
     \<Rightarrow> output_event envelope result option \<times> 'w turn" where
  "tool_step sj deps limits tid session call t0 =
     (let t1 = t0\<lparr>calls_made := calls_made t0 + 1\<rparr>
      in if calls_made t1 > max_tool_calls limits
         then fail_turn tid (ToolBudgetExceeded ''max tool calls reached'') t1
         else
           let args = preview_value sj (call_arguments call);
               t2 = emit_progress tid ToolStarted (Some (call_name call)) (Some args) None
                      (''Running '' @ call_name call) t1;
               (r, w) = tools_execute deps (call_name call) (call_arguments call) (world t2);
               t3 = t2\<lparr>world := w\<rparr>
           in case r of
                Inl e \<Rightarrow>
                  fail_turn tid e
                    (emit_progress tid ToolFailed (Some (call_name call)) (Some args)
                       (Some (preview_text (error_text e))) (call_name call @ '' failed'') t3)
              | Inr res \<Rightarrow>
                  (let t4 = t3\<lparr>messages := messages t3
                                 @ [tool_for_call (call_id call) (content_for_model res)]\<rparr>;
                       t5 = emit_progress tid ToolFinished (Some (call_name call)) (Some args)
                              (Some (preview_text (content_for_model res)))
                              (call_name call @ '' finished'') t4
                   in if \<not> should_continue res
                      then complete_turn deps tid session (CompletedEvent (content_for_model res))
                             (preview_text (content_for_model res)) t5
                      else (None, t5)))"

fun tool_loop ::
    "serde_json \<Rightarrow> 'w runtime_deps \<Rightarrow> runtime_limits \<Rightarrow> string \<Rightarrow> session \<Rightarrow> tool_call list \<Rightarrow> 'w turn
     \<Rightarrow> output_event envelope result option \<times> 'w turn" where
  "tool_loop sj deps limits tid session [] t = (None, t)"
| "tool_loop sj deps limits tid session (call # calls) t =
     (case tool_step sj deps limits tid session call t of
        (Some r, t') \<Rightarrow> (Some r, t')
      | (None, t') \<Rightarrow> tool_loop sj deps limits tid session calls t')"

definition turn_step ::
    "serde_json \<Rightarrow> 'w runtime_deps \<Rightarrow> runtime_limits \<Rightarrow> string \<Rightarrow> session \<Rightarrow> nat \<Rightarrow> 'w turn
     \<Rightarrow> output_event envelope result option \<times> 'w turn" where
  "turn_step sj deps limits tid session iteration t0 =
     (let (r, w) = llm_chat deps (messages t0) (tools_definitions deps) default_chat_options (world t0);
          t1 = t0\<lparr>world := w\<rparr>
      in case r of
           Inl e \<Rightarrow> fail_turn tid e t1
         | Inr response \<Rightarrow>
             (let t2 = (if trim (resp_content response) = '''' then t1
                        else emit_progress tid AssistantMessage None None
                               (Some (preview_text (resp_content response)))
                               ''Assistant message received'' t1);
                  t3 = t2\<lparr>messages := messages t2
                            @ [assistant_with_tool_calls (resp_content response)
                                 (resp_tool_calls response)]\<rparr>
              in if resp_tool_calls response = []
                 then complete_turn deps tid session (FinalMessage (resp_content response))
                        (preview_text (resp_content response)) t3
                 else if iteration = max_tool_iterations limits
                 then fail_turn tid (ToolBudgetExceeded ''max tool iterations reached'') t3
                 else tool_loop sj deps limits tid session (resp_tool_calls response) t3))"

fun turn_loop ::
    "serde_json \<Rightarrow> 'w runtime_deps \<Rightarrow> runtime_limits \<Rightarrow> string \<Rightarrow> session \<Rightarrow> nat list \<Rightarrow> 'w turn
     \<Rightarrow> output_event envelope result option \<times> 'w turn" where
  "turn_loop sj deps limits tid session [] t =
     fail_turn tid (ToolBudgetExceeded ''tool loop ended unexpectedly'') t"
| "turn_loop sj deps limits tid session (i # is) t =
     (case turn_step sj deps limits tid session i t of
        (Some r, t') \<Rightarrow> (Some r, t')
      | (None, t') \<Rightarrow> turn_loop sj deps limits tid session is t')"

definition start_turn :: "bool \<Rightarrow> 'w \<Rightarrow> 'w turn" where
  "start_turn with_progress w =
     \<lparr>world = w, progress = (if with_progress then Some [] else None), seq_no = 0, messages = [],
      calls_made = 0\<rparr>"

definition process_with_optional_progress ::
    "serde_json \<Rightarrow> 'w runtime_deps \<Rightarrow> runtime_limits \<Rightarrow> bool \<Rightarrow> input_event envelope \<Rightarrow> 'w
     \<Rightarrow> output_event envelope result option \<times> 'w turn" where
  "process_with_optional_progress sj deps limits with_progress event w =
     (if session_key (header event) \<noteq> DEFAULT_SESSION_KEY
      then (Some (Inl (InvalidSessionKey DEFAULT_SESSION_KEY (session_key (header event)))),
            start_turn with_progress w)
      else
        let tid = turn_id event;
            t0 = start_turn with_progress (record_event deps ''inbound_received'' w);
            t1 = emit_progress tid TurnStarted None None None ''Agent turn started'' t0;
            (r, w) = sessions_load deps (world t1);
            t2 = t1\<lparr>world := w\<rparr>
        in case r of
             Inl e \<Rightarrow> (Some (Inl e), t2)
           | Inr session \<Rightarrow>
               turn_loop sj deps limits tid (record_input (payload event) session)
                 [0..<Suc (max_tool_iterations limits)]
                 (t2\<lparr>messages := [msg_system (system_prompt deps), msg_user (input_text (payload event))]\<rparr>))"

definition run_process ::
    "serde_json \<Rightarrow> 'w runtime_deps \<Rightarrow> runtime_limits \<Rightarrow> input_event envelope \<Rightarrow> 'w
     \<Rightarrow> output_event envelope result option \<times> 'w" where
  "run_process sj deps limits event w =
     (case process_with_optional_progress sj deps limits False event w of (r, t) \<Rightarrow> (r, world t))"

definition process_with_progress ::
    "serde_json \<Rightarrow> 'w runtime_deps \<Rightarrow> runtime_limits \<Rightarrow> input_event envelope \<Rightarrow> 'w
     \<Rightarrow> output_event envelope result option \<times> turn_progress_event list \<times> 'w" where
  "process_with_progress sj deps limits event w =
     (case process_with_optional_progress sj deps limits True event w of
        (r, t) \<Rightarrow> (r, unwrap_or [] (progress t), world t))"

definition runtime_session :: "'w runtime_deps \<Rightarrow> 'w \<Rightarrow> session result \<times> 'w" where
  "runtime_session deps w = sessions_load deps w"

definition reset_session :: "'w runtime_deps \<Rightarrow> 'w \<Rightarrow> session result \<times> 'w" where
  "reset_session deps w =
     (case sessions_save deps default_session w of
        (Inl e, w) \<Rightarrow> (Inl e, w)
      | (Inr u, w) \<Rightarrow> (Inr default_session, w))"

subsection \<open>What a turn does to its dependencies\<close>

text \<open>The dependencies with a log of the calls made to them, the answers of the session store
  included. Statements about a turn are statements about that log and the progress events.\<close>

datatype dep_call =
    CallChat "chat_message list" "tool_definition list"
  | CallExec string json
  | CallLoad "session result"
  | CallSave session "unit result"
  | CallEvent string

definition traced :: "'w runtime_deps \<Rightarrow> ('w \<times> dep_call list) runtime_deps" where
  "traced deps =
     \<lparr>llm_chat = (\<lambda>ms ds opts (w, l).
        case llm_chat deps ms ds opts w of (r, w') \<Rightarrow> (r, w', l @ [CallChat ms ds])),
      tools_definitions = tools_definitions deps,
      tools_execute = (\<lambda>n a (w, l).
        case tools_execute deps n a w of (r, w') \<Rightarrow> (r, w', l @ [CallExec n a])),
      sessions_load = (\<lambda>(w, l). case sessions_load deps w of (r, w') \<Rightarrow> (r, w', l @ [CallLoad r])),
      sessions_save = (\<lambda>s (w, l).
        case sessions_save deps s w of (r, w') \<Rightarrow> (r, w', l @ [CallSave s r])),
      record_event = (\<lambda>n (w, l). (record_event deps n w, l @ [CallEvent n])),
      fresh_stamps = (\<lambda>(w, l). case fresh_stamps deps w of (s, w') \<Rightarrow> (s, w', l)),
      system_prompt = system_prompt deps\<rparr>"

definition log_of :: "('w \<times> dep_call list) turn \<Rightarrow> dep_call list" where
  "log_of t = snd (world t)"

definition chats_in :: "dep_call list \<Rightarrow> chat_message list list" where
  "chats_in l = concat (map (\<lambda>c. case c of CallChat ms ds \<Rightarrow> [ms] | _ \<Rightarrow> []) l)"

definition execs_in :: "dep_call list \<Rightarrow> (string \<times> json) list" where
  "execs_in l = concat (map (\<lambda>c. case c of CallExec n a \<Rightarrow> [(n, a)] | _ \<Rightarrow> []) l)"

definition saves_in :: "dep_call list \<Rightarrow> (session \<times> unit result) list" where
  "saves_in l = concat (map (\<lambda>c. case c of CallSave s r \<Rightarrow> [(s, r)] | _ \<Rightarrow> []) l)"

definition loads_in :: "dep_call list \<Rightarrow> session result list" where
  "loads_in l = concat (map (\<lambda>c. case c of CallLoad r \<Rightarrow> [r] | _ \<Rightarrow> []) l)"

lemmas log_defs = chats_in_def execs_in_def saves_in_def loads_in_def

lemma log_append [simp]:
  "chats_in (a @ b) = chats_in a @ chats_in b" "execs_in (a @ b) = execs_in a @ execs_in b"
  "saves_in (a @ b) = saves_in a @ saves_in b" "loads_in (a @ b) = loads_in a @ loads_in b"
  by (simp_all add: log_defs)

lemma log_single [simp]:
  "chats_in [CallChat ms ds] = [ms]" "chats_in [CallExec n a] = []" "chats_in [CallLoad q] = []"
  "chats_in [CallSave s r] = []" "chats_in [CallEvent e] = []"
  "execs_in [CallChat ms ds] = []" "execs_in [CallExec n a] = [(n, a)]" "execs_in [CallLoad q] = []"
  "execs_in [CallSave s r] = []" "execs_in [CallEvent e] = []"
  "saves_in [CallChat ms ds] = []" "saves_in [CallExec n a] = []" "saves_in [CallLoad q] = []"
  "saves_in [CallSave s r] = [(s, r)]" "saves_in [CallEvent e] = []"
  "loads_in [CallChat ms ds] = []" "loads_in [CallExec n a] = []" "loads_in [CallLoad q] = [q]"
  "loads_in [CallSave s r] = []" "loads_in [CallEvent e] = []"
  by (simp_all add: log_defs)

lemma log_Nil [simp]: "chats_in [] = []" "execs_in [] = []" "saves_in [] = []" "loads_in [] = []"
  by (simp_all add: log_defs)

text \<open>The shape of the event stream, as an automaton over the kinds of events.\<close>

datatype stream_state = Fresh | Open | InTool | Broken | Succeeded | Aborted

fun stream_next :: "stream_state \<Rightarrow> turn_progress_kind \<Rightarrow> stream_state option" where
  "stream_next Fresh TurnStarted = Some Open"
| "stream_next Open AssistantMessage = Some Open"
| "stream_next Open ToolStarted = Some InTool"
| "stream_next InTool ToolFinished = Some Open"
| "stream_next InTool ToolFailed = Some Broken"
| "stream_next Open TurnCompleted = Some Succeeded"
| "stream_next Open TurnFailed = Some Aborted"
| "stream_next Broken TurnFailed = Some Aborted"
| "stream_next _ _ = None"

definition stream_of :: "turn_progress_event list \<Rightarrow> stream_state option" where
  "stream_of evs = foldl (\<lambda>s e. Option.bind s (\<lambda>s. stream_next s (kind_of e))) (Some Fresh) evs"

lemma stream_of_simps [simp]:
  "stream_of [] = Some Fresh"
  "stream_of (evs @ [e]) = Option.bind (stream_of evs) (\<lambda>s. stream_next s (kind_of e))"
  by (simp_all add: stream_of_def)

definition numbered :: "string \<Rightarrow> turn_progress_event list \<Rightarrow> bool" where
  "numbered tid evs \<longleftrightarrow>
     map sequence_of evs = map (\<lambda>i. word_of_nat (Suc i)) [0..<length evs]
     \<and> list_all (\<lambda>e. turn_id_of e = tid) evs"

text \<open>A conversation: a system and a user message, then assistant messages, each followed by one
  tool message per tool call, in the order of the calls. The state is the list of the calls that
  still wait for their answer.\<close>

definition conv_next :: "string list \<Rightarrow> chat_message \<Rightarrow> string list option" where
  "conv_next out m =
     (case role m of
        Assistant \<Rightarrow> (if out = [] then Some (map call_id (tool_calls m)) else None)
      | ToolRole \<Rightarrow> (case out of
                     [] \<Rightarrow> None
                   | i # rest \<Rightarrow> (if tool_call_id m = Some i then Some rest else None))
      | _ \<Rightarrow> None)"

definition waiting :: "chat_message list \<Rightarrow> string list option" where
  "waiting ms =
     (case ms of
        sys # usr # rest \<Rightarrow>
          (if role sys = System \<and> role usr = User
           then foldl (\<lambda>s m. Option.bind s (\<lambda>out. conv_next out m)) (Some []) rest else None)
      | _ \<Rightarrow> None)"

lemma waiting_snoc:
  "waiting ms = Some out \<Longrightarrow> waiting (ms @ [m]) = conv_next out m"
  by (auto simp: waiting_def split: list.splits if_splits)

lemma conv_next_simps [simp]:
  "conv_next [] (assistant_with_tool_calls c calls) = Some (map call_id calls)"
  "conv_next (i # rest) (tool_for_call i c) = Some rest"
  by (simp_all add: conv_next_def assistant_with_tool_calls_def tool_for_call_def)

subsection \<open>The invariant of a turn\<close>

definition events_ok :: "string \<Rightarrow> stream_state \<Rightarrow> 'w turn \<Rightarrow> bool" where
  "events_ok tid st t \<longleftrightarrow> (\<exists>evs. progress t = Some evs \<and> stream_of evs = Some st
     \<and> numbered tid evs \<and> seq_no t = word_of_nat (length evs))"

definition asked_ok :: "dep_call list \<Rightarrow> bool" where
  "asked_ok l \<longleftrightarrow> list_all (\<lambda>ms. waiting ms = Some []) (chats_in l)"

definition turn_inv ::
    "runtime_limits \<Rightarrow> string \<Rightarrow> session \<Rightarrow> nat \<Rightarrow> string list \<Rightarrow> ('w \<times> dep_call list) turn \<Rightarrow> bool" where
  "turn_inv limits tid s0 n out t \<longleftrightarrow>
     length (chats_in (log_of t)) = n
     \<and> length (execs_in (log_of t)) = calls_made t \<and> calls_made t \<le> max_tool_calls limits
     \<and> saves_in (log_of t) = [] \<and> loads_in (log_of t) = [Inr s0] \<and> asked_ok (log_of t)
     \<and> waiting (messages t) = Some out \<and> events_ok tid Open t"

definition turn_post ::
    "runtime_limits \<Rightarrow> string \<Rightarrow> session \<Rightarrow> session \<Rightarrow> output_event envelope result
     \<Rightarrow> ('w \<times> dep_call list) turn \<Rightarrow> bool" where
  "turn_post limits tid s0 session r t \<longleftrightarrow>
     length (chats_in (log_of t)) \<le> Suc (max_tool_iterations limits)
     \<and> length (execs_in (log_of t)) \<le> max_tool_calls limits
     \<and> loads_in (log_of t) = [Inr s0] \<and> asked_ok (log_of t)
     \<and> (case r of
          Inr env \<Rightarrow>
            saves_in (log_of t) = [(record_output (payload env) session, Inr ())]
            \<and> events_ok tid Succeeded t
        | Inl e \<Rightarrow>
            saves_in (log_of t) = [] \<and> events_ok tid Aborted t
            \<or> (\<exists>s. saves_in (log_of t) = [(s, Inl e)]) \<and> events_ok tid Open t)"

lemma numbered_Nil [simp]: "numbered tid []"
  by (simp add: numbered_def)

lemma numbered_snoc:
  "numbered tid (evs @ [e]) \<longleftrightarrow>
     numbered tid evs \<and> sequence_of e = word_of_nat (Suc (length evs)) \<and> turn_id_of e = tid"
  by (auto simp: numbered_def)

lemma events_ok_emit:
  assumes "events_ok tid st t" and "stream_next st kd = Some st'"
  shows "events_ok tid st' (emit_progress tid kd a b c d t)"
  using assms by (auto simp: events_ok_def emit_progress_def numbered_snoc)

lemma emit_progress_frame [simp]:
  "world (emit_progress tid kd a b c d t) = world t"
  "messages (emit_progress tid kd a b c d t) = messages t"
  "calls_made (emit_progress tid kd a b c d t) = calls_made t"
  by (simp_all add: emit_progress_def split: option.splits)

lemma events_ok_frame [simp]:
  "events_ok tid st (t\<lparr>world := w\<rparr>) = events_ok tid st t"
  "events_ok tid st (t\<lparr>messages := ms\<rparr>) = events_ok tid st t"
  "events_ok tid st (t\<lparr>calls_made := n\<rparr>) = events_ok tid st t"
  by (simp_all add: events_ok_def)

lemma log_of_frame [simp]:
  "log_of (emit_progress tid kd a b c d t) = log_of t"
  "log_of (t\<lparr>messages := ms\<rparr>) = log_of t" "log_of (t\<lparr>calls_made := n\<rparr>) = log_of t"
  "log_of (t\<lparr>world := w'\<rparr>) = snd w'"
  by (simp_all add: log_of_def)

text \<open>The effect of each call on the log.\<close>

lemma traced_effect:
  "llm_chat (traced deps) ms ds o1 w = (r, w') \<Longrightarrow> snd w' = snd w @ [CallChat ms ds]"
  "tools_execute (traced deps) n a w = (q, w') \<Longrightarrow> snd w' = snd w @ [CallExec n a]"
  "sessions_load (traced deps) w = (u, w') \<Longrightarrow> snd w' = snd w @ [CallLoad u]"
  "sessions_save (traced deps) s w = (v, w') \<Longrightarrow> snd w' = snd w @ [CallSave s v]"
  "snd (record_event (traced deps) e w) = snd w @ [CallEvent e]"
  "fresh_stamps (traced deps) w = (z, w') \<Longrightarrow> snd w' = snd w"
  by (auto simp: traced_def split: prod.splits)

lemma asked_ok_append [simp]: "asked_ok (a @ b) \<longleftrightarrow> asked_ok a \<and> asked_ok b"
  by (simp add: asked_ok_def)

lemma asked_ok_single [simp]:
  "asked_ok []" "asked_ok [CallExec n a]" "asked_ok [CallLoad q]" "asked_ok [CallSave s r]"
  "asked_ok [CallEvent e]" "asked_ok [CallChat ms ds] \<longleftrightarrow> waiting ms = Some []"
  by (simp_all add: asked_ok_def)

lemma complete_turn_post:
  assumes "complete_turn (traced deps) tid session output preview t = (r, t')"
    and "length (chats_in (log_of t)) \<le> Suc (max_tool_iterations limits)"
    and "length (execs_in (log_of t)) \<le> max_tool_calls limits"
    and "saves_in (log_of t) = []" and "loads_in (log_of t) = [Inr s0] \<and> asked_ok (log_of t)" and "events_ok tid Open t"
  shows "\<exists>r'. r = Some r' \<and> turn_post limits tid s0 session r' t'"
proof -
  obtain v w where save: "sessions_save (traced deps) (record_output output session) (world t) = (v, w)"
    by (rule prod.exhaust)
  note w = traced_effect(4) [OF save, folded log_of_def]
  show ?thesis
  proof (cases v)
    case (Inl e)
    with assms save w show ?thesis by (auto simp: complete_turn_def turn_post_def)
  next
    case (Inr u)
    obtain z w' where st: "fresh_stamps (traced deps) w = (z, w')" by (rule prod.exhaust)
    from assms(1) save Inr st have "r = Some (Inr (for_session z DEFAULT_SESSION_KEY output))"
        and t': "t' = (emit_progress tid TurnCompleted None None (Some preview)
          ''Agent turn completed'' (t\<lparr>world := w\<rparr>))\<lparr>world := w'\<rparr>"
      by (simp_all add: complete_turn_def)
    moreover have "payload (for_session z DEFAULT_SESSION_KEY output) = output"
      by (simp add: for_session_def split: prod.splits)
    moreover have "events_ok tid Succeeded t'"
      unfolding t' using events_ok_emit [OF _ , of tid Open "t\<lparr>world := w\<rparr>"] assms(6) by simp
    ultimately show ?thesis
      using assms w Inr traced_effect(6) [OF st] by (simp add: turn_post_def)
  qed
qed

lemma fail_turn_post:
  assumes "fail_turn tid e t = (r, t')"
    and "length (chats_in (log_of t)) \<le> Suc (max_tool_iterations limits)"
    and "length (execs_in (log_of t)) \<le> max_tool_calls limits"
    and "saves_in (log_of t) = []" and "loads_in (log_of t) = [Inr s0] \<and> asked_ok (log_of t)"
    and "events_ok tid st t" and "st = Open \<or> st = Broken"
  shows "\<exists>r'. r = Some r' \<and> turn_post limits tid s0 session r' t'"
  using assms events_ok_emit [OF assms(6), of TurnFailed Aborted]
  by (auto simp: fail_turn_def emit_turn_failed_def turn_post_def)

lemma tool_step_inv:
  assumes "turn_inv limits tid s0 n (call_id c # out) t" and "n \<le> Suc (max_tool_iterations limits)"
    and "tool_step sj (traced deps) limits tid session c t = (r, t')"
  shows "case r of None \<Rightarrow> turn_inv limits tid s0 n out t' | Some r' \<Rightarrow> turn_post limits tid s0 session r' t'"
proof (cases "calls_made t < max_tool_calls limits")
  case False
  with assms have "fail_turn tid (ToolBudgetExceeded ''max tool calls reached'')
      (t\<lparr>calls_made := calls_made t + 1\<rparr>) = (r, t')"
    by (simp add: tool_step_def Let_def)
  from fail_turn_post [OF this, of limits s0 Open session] assms(1,2) show ?thesis
    by (auto simp: turn_inv_def)
next
  case True
  let ?args = "preview_value sj (call_arguments c)"
  let ?t2 = "emit_progress tid ToolStarted (Some (call_name c)) (Some ?args) None
      (''Running '' @ call_name c) (t\<lparr>calls_made := calls_made t + 1\<rparr>)"
  obtain q w where ex: "tools_execute (traced deps) (call_name c) (call_arguments c) (world t) = (q, w)"
    by (rule prod.exhaust)
  note w = traced_effect(2) [OF ex, folded log_of_def]
  have t2: "events_ok tid InTool ?t2"
    by (rule events_ok_emit [of _ Open]) (use assms(1) in \<open>simp_all add: turn_inv_def\<close>)
  show ?thesis
  proof (cases q)
    case (Inl e)
    let ?t3 = "emit_progress tid ToolFailed (Some (call_name c)) (Some ?args)
        (Some (preview_text (error_text e))) (call_name c @ '' failed'') (?t2\<lparr>world := w\<rparr>)"
    have "fail_turn tid e ?t3 = (r, t')"
      using assms(3) True ex Inl by (simp add: tool_step_def Let_def)
    moreover have "events_ok tid Broken ?t3" by (rule events_ok_emit [of _ InTool]) (use t2 in simp_all)
    ultimately show ?thesis
      using fail_turn_post [of tid e ?t3 r t' limits s0 Broken session] assms(1,2) True w
      by (auto simp: turn_inv_def)
  next
    case (Inr res)
    let ?t3 = "emit_progress tid ToolFinished (Some (call_name c)) (Some ?args)
        (Some (preview_text (content_for_model res))) (call_name c @ '' finished'')
        (?t2\<lparr>world := w, messages := messages t @ [tool_for_call (call_id c) (content_for_model res)]\<rparr>)"
    have ev: "events_ok tid Open ?t3" by (rule events_ok_emit [of _ InTool]) (use t2 in simp_all)
    show ?thesis
    proof (cases "should_continue res")
      case True
      then have "r = None" "t' = ?t3"
        using assms(3) \<open>calls_made t < _\<close> ex Inr by (simp_all add: tool_step_def Let_def)
      with ev assms(1) w \<open>calls_made t < _\<close> show ?thesis
        by (simp add: turn_inv_def waiting_snoc)
    next
      case False
      then have "complete_turn (traced deps) tid session (CompletedEvent (content_for_model res))
          (preview_text (content_for_model res)) ?t3 = (r, t')"
        using assms(3) True ex Inr by (simp add: tool_step_def Let_def)
      from complete_turn_post [OF this, of limits s0] ev assms(1,2) w True show ?thesis
        by (auto simp: turn_inv_def)
    qed
  qed
qed

lemma tool_loop_inv:
  assumes "turn_inv limits tid s0 n (map call_id calls) t" and "n \<le> Suc (max_tool_iterations limits)"
    and "tool_loop sj (traced deps) limits tid session calls t = (r, t')"
  shows "case r of None \<Rightarrow> turn_inv limits tid s0 n [] t' | Some r' \<Rightarrow> turn_post limits tid s0 session r' t'"
  using assms
proof (induction calls arbitrary: t)
  case (Cons c calls)
  obtain r1 t1 where step: "tool_step sj (traced deps) limits tid session c t = (r1, t1)" by (rule prod.exhaust)
  with Cons.prems tool_step_inv [of limits tid s0 n c "map call_id calls" t sj deps session r1 t1]
  have "case r1 of None \<Rightarrow> turn_inv limits tid s0 n (map call_id calls) t1
      | Some r' \<Rightarrow> turn_post limits tid s0 session r' t1"
    by simp
  with Cons step show ?case by (cases r1) auto
qed simp

lemma turn_step_inv:
  assumes "turn_inv limits tid s0 i [] t" and "i \<le> max_tool_iterations limits"
    and "turn_step sj (traced deps) limits tid session i t = (r, t')"
  shows "case r of None \<Rightarrow> i \<noteq> max_tool_iterations limits \<and> turn_inv limits tid s0 (Suc i) [] t'
    | Some r' \<Rightarrow> turn_post limits tid s0 session r' t'"
proof -
  obtain q w where chat: "llm_chat (traced deps) (messages t) (tools_definitions (traced deps))
      default_chat_options (world t) = (q, w)"
    by (rule prod.exhaust)
  note w = traced_effect(1) [OF chat, folded log_of_def]
  show ?thesis
  proof (cases q)
    case (Inl e)
    with assms(3) chat have "fail_turn tid e (t\<lparr>world := w\<rparr>) = (r, t')" by (simp add: turn_step_def)
    from fail_turn_post [OF this, of limits s0 Open session] assms(1,2) w show ?thesis
      by (auto simp: turn_inv_def)
  next
    case (Inr resp)
    define t2 where "t2 = (if trim (resp_content resp) = '''' then t\<lparr>world := w\<rparr>
      else emit_progress tid AssistantMessage None None (Some (preview_text (resp_content resp)))
        ''Assistant message received'' (t\<lparr>world := w\<rparr>))"
    define t3 where "t3 = t2\<lparr>messages := messages t @ [assistant_with_tool_calls (resp_content resp)
        (resp_tool_calls resp)]\<rparr>"
    have frame: "messages t2 = messages t" "calls_made t2 = calls_made t"
        "log_of t2 = log_of t @ [CallChat (messages t) (tools_definitions (traced deps))]"
      using w by (simp_all add: t2_def)
    have "events_ok tid Open t2"
      using assms(1) events_ok_emit [of tid Open "t\<lparr>world := w\<rparr>" AssistantMessage Open]
      by (simp add: turn_inv_def t2_def)
    with assms(1) frame have inv: "turn_inv limits tid s0 (Suc i) (map call_id (resp_tool_calls resp)) t3"
      by (simp add: turn_inv_def waiting_snoc t3_def)
    have bound: "Suc i \<le> Suc (max_tool_iterations limits)" using assms(2) by simp
    have step: "(if resp_tool_calls resp = []
        then complete_turn (traced deps) tid session (FinalMessage (resp_content resp))
               (preview_text (resp_content resp)) t3
        else if i = max_tool_iterations limits
        then fail_turn tid (ToolBudgetExceeded ''max tool iterations reached'') t3
        else tool_loop sj (traced deps) limits tid session (resp_tool_calls resp) t3) = (r, t')"
      using assms(3) unfolding turn_step_def chat Inr Let_def prod.case sum.case
        t2_def [symmetric] frame(1) t3_def [symmetric] .
    consider "resp_tool_calls resp = []"
      | "resp_tool_calls resp \<noteq> []" "i = max_tool_iterations limits"
      | "resp_tool_calls resp \<noteq> []" "i \<noteq> max_tool_iterations limits" by blast
    then show ?thesis
    proof cases
      case 1
      with step complete_turn_post [of deps tid session "FinalMessage (resp_content resp)"
          "preview_text (resp_content resp)" t3 r t' limits s0] inv bound
      show ?thesis by (auto simp: turn_inv_def)
    next
      case 2
      with step fail_turn_post [of tid "ToolBudgetExceeded ''max tool iterations reached''"
          t3 r t' limits s0 Open session] inv bound
      show ?thesis by (auto simp: turn_inv_def)
    next
      case 3
      with step tool_loop_inv [OF inv bound, of sj deps session r t'] show ?thesis
        by (auto split: option.splits)
    qed
  qed
qed

text \<open>The loop always returns from inside: the error after it is never reached.\<close>

lemma turn_loop_post:
  assumes "turn_inv limits tid s0 i [] t" and "i \<le> max_tool_iterations limits"
  shows "\<exists>r t'. turn_loop sj (traced deps) limits tid session [i..<Suc (max_tool_iterations limits)] t
      = (Some r, t') \<and> turn_post limits tid s0 session r t'"
  using assms
proof (induction "max_tool_iterations limits - i" arbitrary: i t)
  case 0
  obtain r t' where step: "turn_step sj (traced deps) limits tid session i t = (r, t')"
    by (rule prod.exhaust)
  from turn_step_inv [OF 0(2,3) step] 0 obtain r' where "r = Some r'"
      "turn_post limits tid s0 session r' t'"
    by (auto split: option.splits)
  with 0 step show ?case by (simp add: upt_conv_Cons)
next
  case (Suc k)
  obtain r t' where step: "turn_step sj (traced deps) limits tid session i t = (r, t')"
    by (rule prod.exhaust)
  have upt: "[i..<Suc (max_tool_iterations limits)] = i # [Suc i..<Suc (max_tool_iterations limits)]"
    using Suc.prems(2) by (simp add: upt_conv_Cons del: upt_Suc)
  show ?case
  proof (cases r)
    case None
    with turn_step_inv [OF Suc.prems step] Suc.hyps(2)
      Suc.hyps(1) [of "Suc i" t'] Suc.prems(2) step
    show ?thesis unfolding upt by (simp del: upt_Suc)
  next
    case (Some r')
    with turn_step_inv [OF Suc.prems step] step show ?thesis unfolding upt by (simp del: upt_Suc)
  qed
qed

text \<open>What is known of a whole turn on the logged dependencies.\<close>

lemma process_post:
  assumes key: "session_key (header event) = DEFAULT_SESSION_KEY"
    and run: "process_with_optional_progress sj (traced deps) limits True event (w, []) = (r, t)"
  obtains e where "r = Some (Inl e)" "log_of t = [CallEvent ''inbound_received'', CallLoad (Inl e)]"
      "events_ok (turn_id event) Open t"
  | s0 r' where "r = Some r'"
      "turn_post limits (turn_id event) s0 (record_input (payload event) s0) r' t"
proof -
  define t1 where "t1 = emit_progress (turn_id event) TurnStarted None None None ''Agent turn started''
    (start_turn True (record_event (traced deps) ''inbound_received'' (w, [])))"
  obtain q w' where load: "sessions_load (traced deps) (world t1) = (q, w')"
    by (rule prod.exhaust)
  have ev: "events_ok (turn_id event) Open t1"
    unfolding t1_def by (rule events_ok_emit [of _ Fresh])
      (simp_all add: events_ok_def start_turn_def)
  have log: "snd w' = [CallEvent ''inbound_received'', CallLoad q]"
    using traced_effect(3) [OF load] by (simp add: t1_def start_turn_def traced_effect(5))
  have frame: "calls_made t1 = 0" by (simp add: t1_def start_turn_def)
  show ?thesis
  proof (cases q)
    case (Inl e)
    with run key load have "r = Some (Inl e)" "t = t1\<lparr>world := w'\<rparr>"
      by (simp_all add: process_with_optional_progress_def Let_def t1_def)
    with that(1) ev log Inl show ?thesis by simp
  next
    case (Inr s0)
    let ?t2 = "t1\<lparr>world := w', messages := [msg_system (system_prompt deps),
        msg_user (input_text (payload event))]\<rparr>"
    have loop: "turn_loop sj (traced deps) limits (turn_id event) (record_input (payload event) s0)
        [0..<Suc (max_tool_iterations limits)] ?t2 = (r, t)"
      using run key load Inr
      by (simp add: process_with_optional_progress_def Let_def t1_def traced_def del: upt_Suc)
    have "turn_inv limits (turn_id event) s0 0 [] ?t2"
      using ev log frame Inr
      by (simp add: turn_inv_def asked_ok_def waiting_def msg_system_def msg_user_def log_defs)
    from turn_loop_post [OF this, of sj deps "record_input (payload event) s0"] loop that(2)
    show ?thesis by (auto simp del: upt_Suc)
  qed
qed

subsection \<open>Progress reporting does not change a turn\<close>

definition silent :: "'w turn \<Rightarrow> 'w turn" where
  "silent t = t\<lparr>progress := None, seq_no := 0\<rparr>"

lemma silent_simps [simp]:
  "world (silent t) = world t" "messages (silent t) = messages t"
  "calls_made (silent t) = calls_made t" "progress (silent t) = None"
  "silent (emit_progress tid kd a b c d t) = silent t"
  "emit_progress tid kd a b c d (silent t) = silent t"
  by (simp_all add: silent_def emit_progress_def split: option.splits)

lemma silent_update [simp]:
  "silent (t\<lparr>world := w\<rparr>) = (silent t)\<lparr>world := w\<rparr>"
  "silent (t\<lparr>messages := ms\<rparr>) = (silent t)\<lparr>messages := ms\<rparr>"
  "silent (t\<lparr>calls_made := n\<rparr>) = (silent t)\<lparr>calls_made := n\<rparr>"
  by (simp_all add: silent_def)

lemma emit_silent_update [simp]:
  "progress t = None \<Longrightarrow> emit_progress tid kd a b c d t = t"
  by (simp add: emit_progress_def)

lemma fail_turn_silent: "fail_turn tid e (silent t) = map_prod id silent (fail_turn tid e t)"
  by (simp add: fail_turn_def emit_turn_failed_def)

lemma complete_turn_silent:
  "complete_turn deps tid s out pv (silent t) = map_prod id silent (complete_turn deps tid s out pv t)"
  by (simp add: complete_turn_def Let_def split: prod.splits sum.splits)

lemmas silent_ends = fail_turn_silent [symmetric] complete_turn_silent [symmetric]

lemma tool_step_silent:
  "tool_step sj deps limits tid s c (silent t) = map_prod id silent (tool_step sj deps limits tid s c t)"
  by (simp add: tool_step_def Let_def silent_ends split: prod.splits sum.splits)

lemma tool_loop_silent:
  "tool_loop sj deps limits tid s calls (silent t)
     = map_prod id silent (tool_loop sj deps limits tid s calls t)"
  by (induction calls arbitrary: t) (simp_all add: tool_step_silent split: prod.splits option.splits)

lemma turn_step_silent:
  "turn_step sj deps limits tid s i (silent t) = map_prod id silent (turn_step sj deps limits tid s i t)"
  by (simp add: turn_step_def Let_def silent_ends tool_loop_silent [symmetric]
      split: prod.splits sum.splits)

lemma turn_loop_silent:
  "turn_loop sj deps limits tid s is (silent t)
     = map_prod id silent (turn_loop sj deps limits tid s is t)"
  by (induction "is" arbitrary: t)
    (simp_all add: turn_step_silent fail_turn_silent split: prod.splits option.splits)

lemma process_silent:
  "process_with_optional_progress sj deps limits False event w
     = map_prod id silent (process_with_optional_progress sj deps limits True event w)"
proof -
  have start: "start_turn False v = silent (start_turn True v)" for v :: 'b
    by (simp add: start_turn_def silent_def)
  show ?thesis
    by (simp add: process_with_optional_progress_def start Let_def turn_loop_silent [symmetric]
        del: upt_Suc split: prod.splits sum.splits)
qed

subsection \<open>Properties of a turn\<close>

text \<open>A model that asks for one tool and then answers, with a store that keeps the session, for
  evaluating examples.\<close>

definition sample_deps :: "(nat \<times> session) runtime_deps" where
  "sample_deps =
     \<lparr>llm_chat = (\<lambda>ms ds opts (n, s).
        (Inr (if n = 0
              then \<lparr>resp_content = '''', resp_tool_calls =
                     [\<lparr>call_id = ''c1'', call_name = ''echo'', call_arguments = JNull\<rparr>]\<rparr>
              else \<lparr>resp_content = ''done'', resp_tool_calls = []\<rparr>), (Suc n, s))),
      tools_definitions = [],
      tools_execute = (\<lambda>n a w. (Inr (tool_success ''ok''), w)),
      sessions_load = (\<lambda>(n, s). (Inr s, (n, s))),
      sessions_save = (\<lambda>s' (n, s). (Inr (), (n, s'))),
      record_event = (\<lambda>n w. w),
      fresh_stamps = (\<lambda>w. ((''m'', ''t'', 0), w)),
      system_prompt = ''p''\<rparr>"

definition sample_event :: "input_event envelope" where
  "sample_event = envelope_new (''m0'', ''t0'', 0) (UserText ''hello'' WebSocket)"

lemma sample_event_key: "session_key (header sample_event) = DEFAULT_SESSION_KEY"
  by (simp add: sample_event_def envelope_new_def for_session_def)

subsection \<open>What every call keeps, a turn keeps\<close>

text \<open>The interface between a turn and its dependencies, for properties of the turn state: what
  emitting an event, noting a message, counting a call and every call of a dependency keep is kept
  by the whole loop, however it ends.\<close>

locale turn_invariant =
  fixes deps :: "'w runtime_deps" and tid :: string and P :: "'w turn \<Rightarrow> bool"
  assumes emit: "P t \<Longrightarrow> P (emit_progress tid kd tool args res msg t)"
    and note_message: "P t \<Longrightarrow> P (t\<lparr>messages := ms\<rparr>)"
    and count_call: "P t \<Longrightarrow> P (t\<lparr>calls_made := n\<rparr>)"
    and chat: "P t \<Longrightarrow> llm_chat deps ms ds opts (world t) = (r, w) \<Longrightarrow> P (t\<lparr>world := w\<rparr>)"
    and exec: "P t \<Longrightarrow> tools_execute deps name a (world t) = (q, w) \<Longrightarrow> P (t\<lparr>world := w\<rparr>)"
    and save: "P t \<Longrightarrow> sessions_save deps s (world t) = (u, w) \<Longrightarrow> P (t\<lparr>world := w\<rparr>)"
    and stamp: "P t \<Longrightarrow> fresh_stamps deps (world t) = (st, w) \<Longrightarrow> P (t\<lparr>world := w\<rparr>)"
begin

lemma fail_keeps: "P t \<Longrightarrow> fail_turn tid e t = (r, t') \<Longrightarrow> P t'"
  by (auto simp: fail_turn_def emit_turn_failed_def intro: emit)

lemma complete_keeps:
  assumes "P t" and "complete_turn deps tid s out pv t = (r, t')"
  shows "P t'"
proof -
  obtain u w where sv: "sessions_save deps (record_output out s) (world t) = (u, w)" by (rule prod.exhaust)
  have 1: "P (t\<lparr>world := w\<rparr>)" using assms(1) sv by (rule save)
  show ?thesis
  proof (cases u)
    case (Inl e)
    with assms(2) sv 1 show ?thesis by (auto simp: complete_turn_def)
  next
    case (Inr x)
    let ?t = "emit_progress tid TurnCompleted None None (Some pv) ''Agent turn completed'' (t\<lparr>world := w\<rparr>)"
    obtain st w' where fs: "fresh_stamps deps (world ?t) = (st, w')" by (rule prod.exhaust)
    have "P (?t\<lparr>world := w'\<rparr>)" using emit [OF 1] fs by (rule stamp)
    with assms(2) sv Inr fs show ?thesis by (auto simp: complete_turn_def Let_def)
  qed
qed

lemma tool_step_keeps:
  assumes "P t" and "tool_step sj deps limits tid s call t = (r, t')"
  shows "P t'"
proof -
  let ?t1 = "t\<lparr>calls_made := calls_made t + 1\<rparr>"
  let ?args = "preview_value sj (call_arguments call)"
  let ?t2 = "emit_progress tid ToolStarted (Some (call_name call)) (Some ?args) None
      (''Running '' @ call_name call) ?t1"
  obtain q w where ex: "tools_execute deps (call_name call) (call_arguments call) (world ?t2) = (q, w)"
    by (rule prod.exhaust)
  have 1: "P ?t1" by (rule count_call [OF assms(1)])
  have 2: "P (?t2\<lparr>world := w\<rparr>)" using emit [OF 1] ex by (rule exec)
  show ?thesis
  proof (cases "calls_made ?t1 > max_tool_calls limits")
    case True
    with assms(2) 1 show ?thesis by (auto simp: tool_step_def Let_def intro: fail_keeps)
  next
    case False
    show ?thesis
    proof (cases q)
      case (Inl e)
      with False assms(2) ex show ?thesis
        using fail_keeps [OF emit [OF 2]] by (auto simp: tool_step_def Let_def)
    next
      case (Inr res)
      note 3 = emit [OF note_message [OF 2]]
      from Inr False assms(2) ex show ?thesis
        using complete_keeps [OF 3] 3
        by (auto simp: tool_step_def Let_def split: if_splits)
    qed
  qed
qed

lemma tool_loop_keeps: "P t \<Longrightarrow> tool_loop sj deps limits tid s calls t = (r, t') \<Longrightarrow> P t'"
proof (induction calls arbitrary: t)
  case (Cons call calls)
  obtain r1 t1 where st: "tool_step sj deps limits tid s call t = (r1, t1)" by (rule prod.exhaust)
  have "P t1" using Cons.prems(1) st by (rule tool_step_keeps)
  with Cons st show ?case by (auto split: option.splits)
qed simp

lemma turn_step_keeps:
  assumes "P t" and "turn_step sj deps limits tid s i t = (r, t')"
  shows "P t'"
proof -
  obtain q w where ch: "llm_chat deps (messages t) (tools_definitions deps) default_chat_options (world t) = (q, w)"
    by (rule prod.exhaust)
  have 1: "P (t\<lparr>world := w\<rparr>)" using assms(1) ch by (rule chat)
  show ?thesis
  proof (cases q)
    case (Inl e)
    with assms(2) ch 1 show ?thesis by (auto simp: turn_step_def intro: fail_keeps)
  next
    case (Inr resp)
    let ?t2 = "if trim (resp_content resp) = '''' then t\<lparr>world := w\<rparr>
        else emit_progress tid AssistantMessage None None (Some (preview_text (resp_content resp)))
               ''Assistant message received'' (t\<lparr>world := w\<rparr>)"
    let ?t3 = "?t2\<lparr>messages := messages ?t2
        @ [assistant_with_tool_calls (resp_content resp) (resp_tool_calls resp)]\<rparr>"
    have "P ?t2" using 1 emit by simp
    then have "P ?t3" by (rule note_message)
    moreover have "turn_step sj deps limits tid s i t =
        (if resp_tool_calls resp = []
         then complete_turn deps tid s (FinalMessage (resp_content resp)) (preview_text (resp_content resp)) ?t3
         else if i = max_tool_iterations limits
         then fail_turn tid (ToolBudgetExceeded ''max tool iterations reached'') ?t3
         else tool_loop sj deps limits tid s (resp_tool_calls resp) ?t3)"
      by (simp only: turn_step_def ch Let_def prod.case Inr sum.case)
    ultimately show ?thesis
      using assms(2) by (metis complete_keeps fail_keeps tool_loop_keeps)
  qed
qed

lemma turn_loop_keeps: "P t \<Longrightarrow> turn_loop sj deps limits tid s is t = (r, t') \<Longrightarrow> P t'"
proof (induction "is" arbitrary: t)
  case Nil
  then show ?case by (auto intro: fail_keeps)
next
  case (Cons i "is")
  obtain r1 t1 where st: "turn_step sj deps limits tid s i t = (r1, t1)" by (rule prod.exhaust)
  have "P t1" using Cons.prems(1) st by (rule turn_step_keeps)
  with Cons st show ?case by (auto split: option.splits)
qed

text \<open>A turn succeeds only by completing, in a state that still has the property.\<close>

definition completes :: "session \<Rightarrow> output_event envelope \<Rightarrow> 'w turn \<Rightarrow> bool" where
  "completes s e t' \<longleftrightarrow> (\<exists>out pv t. P t \<and> complete_turn deps tid s out pv t = (Some (Inr e), t'))"

lemma completesI: "P t \<Longrightarrow> complete_turn deps tid s out pv t = (Some (Inr e), t') \<Longrightarrow> completes s e t'"
  unfolding completes_def by blast

lemma tool_step_completes:
  assumes "P t" and "tool_step sj deps limits tid s call t = (Some (Inr e), t')"
  shows "completes s e t'"
proof -
  let ?t1 = "t\<lparr>calls_made := calls_made t + 1\<rparr>"
  let ?args = "preview_value sj (call_arguments call)"
  let ?t2 = "emit_progress tid ToolStarted (Some (call_name call)) (Some ?args) None
      (''Running '' @ call_name call) ?t1"
  obtain q w where ex: "tools_execute deps (call_name call) (call_arguments call) (world ?t2) = (q, w)"
    by (rule prod.exhaust)
  have 2: "P (?t2\<lparr>world := w\<rparr>)" using emit [OF count_call [OF assms(1)]] ex by (rule exec)
  show ?thesis
  proof (cases q)
    case (Inl e)
    with assms(2) ex show ?thesis by (auto simp: tool_step_def Let_def fail_turn_def split: if_splits)
  next
    case (Inr res)
    note 3 = emit [OF note_message [OF 2]]
    from Inr assms(2) ex show ?thesis
      using completesI [OF 3] by (auto simp: tool_step_def Let_def fail_turn_def split: if_splits)
  qed
qed

lemma tool_loop_completes:
  "P t \<Longrightarrow> tool_loop sj deps limits tid s calls t = (Some (Inr e), t') \<Longrightarrow> completes s e t'"
proof (induction calls arbitrary: t)
  case (Cons call calls)
  obtain r1 t1 where st: "tool_step sj deps limits tid s call t = (r1, t1)" by (rule prod.exhaust)
  have "P t1" using Cons.prems(1) st by (rule tool_step_keeps)
  with Cons st tool_step_completes [OF Cons.prems(1)] show ?case by (auto split: option.splits)
qed simp

lemma turn_step_completes:
  assumes "P t" and "turn_step sj deps limits tid s i t = (Some (Inr e), t')"
  shows "completes s e t'"
proof -
  obtain q w where ch: "llm_chat deps (messages t) (tools_definitions deps) default_chat_options (world t) = (q, w)"
    by (rule prod.exhaust)
  have 1: "P (t\<lparr>world := w\<rparr>)" using assms(1) ch by (rule chat)
  show ?thesis
  proof (cases q)
    case (Inl e)
    with assms(2) ch show ?thesis by (simp add: turn_step_def fail_turn_def)
  next
    case (Inr resp)
    let ?t2 = "if trim (resp_content resp) = '''' then t\<lparr>world := w\<rparr>
        else emit_progress tid AssistantMessage None None (Some (preview_text (resp_content resp)))
               ''Assistant message received'' (t\<lparr>world := w\<rparr>)"
    let ?t3 = "?t2\<lparr>messages := messages ?t2
        @ [assistant_with_tool_calls (resp_content resp) (resp_tool_calls resp)]\<rparr>"
    have "P ?t3" by (rule note_message) (use 1 emit in simp)
    moreover have "complete_turn deps tid s (FinalMessage (resp_content resp)) (preview_text (resp_content resp)) ?t3
          = (Some (Inr e), t')
        \<or> tool_loop sj deps limits tid s (resp_tool_calls resp) ?t3 = (Some (Inr e), t')"
      using assms(2) by (simp only: turn_step_def ch Let_def prod.case Inr sum.case)
        (simp only: fail_turn_def prod.inject option.inject sum.distinct simp_thms split: if_splits)
    ultimately show ?thesis using completesI tool_loop_completes by blast
  qed
qed

lemma turn_loop_completes:
  "P t \<Longrightarrow> turn_loop sj deps limits tid s is t = (Some (Inr e), t') \<Longrightarrow> completes s e t'"
proof (induction "is" arbitrary: t)
  case (Cons i "is")
  obtain r1 t1 where st: "turn_step sj deps limits tid s i t = (r1, t1)" by (rule prod.exhaust)
  have "P t1" using Cons.prems(1) st by (rule turn_step_keeps)
  with Cons st turn_step_completes [OF Cons.prems(1)] show ?case by (auto split: option.splits)
qed (simp add: fail_turn_def)

text \<open>The whole turn: it keeps the property, and succeeds by completing with the session it loaded.\<close>

lemma process_inv:
  assumes "tid = turn_id event" and "P (start_turn pg w)"
    and start: "P (start_turn pg (record_event deps ''inbound_received'' w))"
    and load: "\<And>t r w. P t \<Longrightarrow> sessions_load deps (world t) = (r, w) \<Longrightarrow> P (t\<lparr>world := w\<rparr>)"
    and pr: "process_with_optional_progress sj deps limits pg event w = (r, t)"
  shows "P t \<and> (\<forall>e. r = Some (Inr e) \<longrightarrow>
      (\<exists>s w1. sessions_load deps (record_event deps ''inbound_received'' w) = (Inr s, w1)
         \<and> completes (record_input (payload event) s) e t))"
proof (cases "session_key (header event) = DEFAULT_SESSION_KEY")
  case False
  with pr assms(2) show ?thesis by (auto simp: process_with_optional_progress_def)
next
  case True
  let ?t1 = "emit_progress tid TurnStarted None None None ''Agent turn started''
      (start_turn pg (record_event deps ''inbound_received'' w))"
  obtain q w1 where ld: "sessions_load deps (world ?t1) = (q, w1)" by (rule prod.exhaust)
  have 1: "P (?t1\<lparr>world := w1\<rparr>)" using emit [OF start] ld by (rule load)
  have w: "world ?t1 = record_event deps ''inbound_received'' w"
    by (simp add: emit_progress_def start_turn_def)
  show ?thesis
  proof (cases q)
    case (Inl e)
    with pr True ld 1 show ?thesis by (auto simp: process_with_optional_progress_def Let_def assms(1))
  next
    case (Inr s)
    let ?t3 = "?t1\<lparr>world := w1, messages := [msg_system (system_prompt deps), msg_user (input_text (payload event))]\<rparr>"
    have 3: "P ?t3" using note_message [OF 1] by simp
    have "turn_loop sj deps limits tid (record_input (payload event) s) [0..<Suc (max_tool_iterations limits)] ?t3 = (r, t)"
      using pr True ld Inr by (simp add: process_with_optional_progress_def Let_def assms(1) del: upt_Suc)
    with turn_loop_keeps [OF 3] turn_loop_completes [OF 3] ld Inr w show ?thesis by auto
  qed
qed

end

text \<open>Instance: whoever the dependencies are, every event of a turn carries its turn id.\<close>

definition events_named :: "string \<Rightarrow> 'w turn \<Rightarrow> bool" where
  "events_named tid t \<longleftrightarrow> (case progress t of None \<Rightarrow> True | Some evs \<Rightarrow> list_all (\<lambda>e. turn_id_of e = tid) evs)"

interpretation tid: turn_invariant deps tid "events_named tid" for deps tid
  by unfold_locales (auto simp: events_named_def emit_progress_def split: option.splits)

lemma process_events_named:
  assumes "process_with_progress sj deps limits event w = (r, evs, w')"
  shows "list_all (\<lambda>e. turn_id_of e = turn_id event) evs"
proof -
  obtain r' t where pr: "process_with_optional_progress sj deps limits True event w = (r', t)"
    by (rule prod.exhaust)
  have "events_named (turn_id event) t"
    using tid.process_inv [OF refl _ _ _ pr] by (simp add: events_named_def start_turn_def)
  moreover have "evs = unwrap_or [] (progress t)" using assms pr by (simp add: process_with_progress_def)
  ultimately show ?thesis by (auto simp: events_named_def split: option.splits)
qed

text \<open>The last round returns, whatever the model answers: it completes the turn, or fails it at the
  budget. So rounds after it would never be run, and neither is the error after the loop.\<close>

lemma complete_turn_returns: "fst (complete_turn deps tid s out pv t) \<noteq> None"
  by (simp add: complete_turn_def Let_def split: prod.splits sum.splits)

lemma fail_turn_returns: "fst (fail_turn tid e t) \<noteq> None"
  by (simp add: fail_turn_def)

lemma last_turn_step_returns: "fst (turn_step sj deps limits tid s (max_tool_iterations limits) t) \<noteq> None"
  by (simp only: turn_step_def Let_def if_True simp_thms split: prod.split sum.split if_split)
    (simp add: complete_turn_returns fail_turn_returns)

lemma turn_loop_returning_round:
  assumes "i \<in> set is" and "\<And>t. fst (turn_step sj deps limits tid s i t) \<noteq> None"
  shows "turn_loop sj deps limits tid s (is @ extra) t = turn_loop sj deps limits tid s is t"
  using assms(1)
proof (induction "is" arbitrary: t)
  case (Cons j js)
  show ?case
  proof (cases "j = i")
    case True
    with assms(2) [of t] show ?thesis by (auto split: prod.splits option.splits)
  next
    case False
    with Cons show ?thesis by (simp split: prod.splits option.splits)
  qed
qed simp

text \<open>C3: a turn always returns, whatever the model and the tools answer, after at most
  \<open>max_tool_iterations + 1\<close> requests to the model and at most \<open>max_tool_calls\<close> tool executions.
  And from any state the loop returns from inside one of its \<open>max_tool_iterations + 1\<close> rounds: any
  further rounds, put before the error that follows the loop, would never be run, so that error
  (\<open>tool loop ended unexpectedly\<close>) is never reached.\<close>

theorem turn_within_budget:
  "(case process_with_optional_progress sj (traced deps) limits True event (w, []) of (r, t) \<Rightarrow>
     r \<noteq> None
     \<and> length (chats_in (log_of t)) \<le> Suc (max_tool_iterations limits)
     \<and> length (execs_in (log_of t)) \<le> max_tool_calls limits)
   \<and> turn_loop sj any_deps limits tid s ([0..<Suc (max_tool_iterations limits)] @ extra) t0
     = turn_loop sj any_deps limits tid s [0..<Suc (max_tool_iterations limits)] t0"
proof (rule conjI)
  show "turn_loop sj any_deps limits tid s ([0..<Suc (max_tool_iterations limits)] @ extra) t0
     = turn_loop sj any_deps limits tid s [0..<Suc (max_tool_iterations limits)] t0"
    by (rule turn_loop_returning_round [of "max_tool_iterations limits"]) (simp_all add: last_turn_step_returns)
next
  show "case process_with_optional_progress sj (traced deps) limits True event (w, []) of (r, t) \<Rightarrow>
     r \<noteq> None
     \<and> length (chats_in (log_of t)) \<le> Suc (max_tool_iterations limits)
     \<and> length (execs_in (log_of t)) \<le> max_tool_calls limits"
  proof (cases "session_key (header event) = DEFAULT_SESSION_KEY")
    case False
    then show ?thesis
      by (simp add: process_with_optional_progress_def start_turn_def log_of_def)
  next
    case True
    obtain r t where run: "process_with_optional_progress sj (traced deps) limits True event (w, []) = (r, t)"
      by (rule prod.exhaust)
    from True run show ?thesis
      by (rule process_post) (use run in \<open>auto simp: turn_post_def log_defs\<close>)
  qed
qed

text \<open>C4: the session store. A turn that returns an output has loaded the session once and saved
  it once, successfully: the loaded session with the input and then the output appended to the
  history and the turn counter advanced by one. A turn that returns an error has saved nothing.\<close>

theorem turn_saves_exactly_on_success:
  "case process_with_optional_progress sj (traced deps) limits True event (w, []) of (r, t) \<Rightarrow>
     (case r of
        Some (Inr env) \<Rightarrow>
          (\<exists>s s'. loads_in (log_of t) = [Inr s] \<and> saves_in (log_of t) = [(s', Inr ())]
             \<and> history s' = history s @ [Input (payload event), Output (payload env)]
             \<and> turn_index s' = turn_index s + 1 \<and> sess_key s' = sess_key s)
      | _ \<Rightarrow> (\<forall>s. (s, Inr ()) \<notin> set (saves_in (log_of t))))"
proof (cases "session_key (header event) = DEFAULT_SESSION_KEY")
  case False
  then show ?thesis
    by (simp add: process_with_optional_progress_def start_turn_def log_of_def)
next
  case True
  obtain r t where run: "process_with_optional_progress sj (traced deps) limits True event (w, []) = (r, t)"
    by (rule prod.exhaust)
  from True run show ?thesis
  proof (rule process_post)
    fix s0 r' assume "r = Some r'"
      and "turn_post limits (turn_id event) s0 (record_input (payload event) s0) r' t"
    then show ?thesis unfolding run by (cases r') (auto simp: turn_post_def)
  qed (use run in \<open>auto simp: log_defs\<close>)
qed

text \<open>The errors that the session store has answered with.\<close>

definition store_errors_in :: "dep_call list \<Rightarrow> reshape_error list" where
  "store_errors_in l =
     concat (map (\<lambda>r. case r of Inl e \<Rightarrow> [e] | Inr s \<Rightarrow> []) (loads_in l))
     @ concat (map (\<lambda>r. case r of Inl e \<Rightarrow> [e] | Inr u \<Rightarrow> []) (map snd (saves_in l)))"

text \<open>C6: the progress events of a turn for the default session all carry its turn id and are
  numbered 1, 2, 3 and so on. Their kinds form a complete stream: it starts with \<open>TurnStarted\<close>,
  every \<open>ToolStarted\<close> is directly followed by its \<open>ToolFinished\<close> or \<open>ToolFailed\<close>, and it ends
  with \<open>TurnCompleted\<close> exactly if the turn returns an output. If the turn returns an error and the
  session store has answered no call of this turn with an error, the stream ends with \<open>TurnFailed\<close>.
  If the store has, that error is what the turn returns, the stream is left open and no closing
  event is sent.\<close>

theorem turn_event_stream:
  assumes "session_key (header event) = DEFAULT_SESSION_KEY"
    and "process_with_optional_progress sj (traced deps) limits True event (w, []) = (Some r, t)"
  shows "\<exists>evs. progress t = Some evs \<and> numbered (turn_id event) evs
    \<and> (case r of
         Inr env \<Rightarrow> store_errors_in (log_of t) = [] \<and> stream_of evs = Some Succeeded
       | Inl e \<Rightarrow>
           (if store_errors_in (log_of t) = [] then stream_of evs = Some Aborted
            else store_errors_in (log_of t) = [e] \<and> stream_of evs = Some Open))"
  using assms
proof (rule process_post)
  fix s0 r' assume "Some r = Some r'"
    and "turn_post limits (turn_id event) s0 (record_input (payload event) s0) r' t"
  then show ?thesis by (cases r) (auto simp: turn_post_def events_ok_def store_errors_in_def)
next
  fix e assume "Some r = Some (Inl e)" and "log_of t = [CallEvent ''inbound_received'', CallLoad (Inl e)]"
    and "events_ok (turn_id event) Open t"
  then show ?thesis by (auto simp: events_ok_def store_errors_in_def log_defs)
qed

theorem turn_event_stream_witness:
  "\<exists>evs. progress (snd (process_with_optional_progress sample_serde (traced sample_deps) default_limits
        True sample_event ((0, default_session), []))) = Some evs
     \<and> numbered (turn_id sample_event) evs \<and> stream_of evs = Some Succeeded"
proof -
  have "fst (process_with_optional_progress sample_serde (traced sample_deps) default_limits
      True sample_event ((0, default_session), []))
      = Some (Inr (for_session (''m'', ''t'', 0) DEFAULT_SESSION_KEY (FinalMessage ''done'')))"
    by code_simp
  then have "process_with_optional_progress sample_serde (traced sample_deps) default_limits
      True sample_event ((0, default_session), [])
      = (Some (Inr (for_session (''m'', ''t'', 0) DEFAULT_SESSION_KEY (FinalMessage ''done''))),
         snd (process_with_optional_progress sample_serde (traced sample_deps) default_limits
           True sample_event ((0, default_session), [])))"
    by (simp add: prod_eq_iff)
  from turn_event_stream [OF sample_event_key this] show ?thesis by auto
qed

text \<open>C5: every request to the model carries a well-formed conversation: a system message, a user
  message, then assistant messages each followed, before the next assistant message, by exactly
  one tool message per tool call, in order and with its id.\<close>

theorem turn_conversations_well_formed:
  "case process_with_optional_progress sj (traced deps) limits True event (w, []) of (r, t) \<Rightarrow>
     list_all (\<lambda>ms. waiting ms = Some []) (chats_in (log_of t))"
proof (cases "session_key (header event) = DEFAULT_SESSION_KEY")
  case False
  then show ?thesis
    by (simp add: process_with_optional_progress_def start_turn_def log_of_def)
next
  case True
  obtain r t where run: "process_with_optional_progress sj (traced deps) limits True event (w, []) = (r, t)"
    by (rule prod.exhaust)
  from True run show ?thesis
    by (rule process_post) (use run in \<open>auto simp: turn_post_def asked_ok_def log_defs\<close>)
qed

text \<open>An event for another session is rejected before anything happens: no dependency is
  called, no progress event is sent.\<close>

theorem turn_rejects_other_session:
  assumes "session_key (header event) \<noteq> DEFAULT_SESSION_KEY"
  shows "process_with_progress sj deps limits event w
    = (Some (Inl (InvalidSessionKey DEFAULT_SESSION_KEY (session_key (header event)))), [], w)"
  using assms
  by (simp add: process_with_progress_def process_with_optional_progress_def start_turn_def)

theorem turn_rejects_other_session_witness:
  "process_with_progress sample_serde sample_deps default_limits
     (for_session (''m0'', ''t0'', 0) ''other'' (PluginMessage ''x'')) (0, default_session)
   = (Some (Inl (InvalidSessionKey ''local:main'' ''other'')), [], (0, default_session))"
  using turn_rejects_other_session [of "for_session (''m0'', ''t0'', 0) ''other'' (PluginMessage ''x'')"
      sample_serde sample_deps default_limits "(0, default_session)"]
  by (simp add: for_session_def DEFAULT_SESSION_KEY_def)

text \<open>Reporting progress does not change a turn: with and without a progress callback it has
  the same result and the same effect on every dependency.\<close>

theorem progress_does_not_change_turn:
  "run_process sj deps limits event w
     = (case process_with_progress sj deps limits event w of (r, evs, w') \<Rightarrow> (r, w'))"
  by (simp add: run_process_def process_with_progress_def process_silent split: prod.splits)

end
