(* ===== verification/Rpc_Protocol.thy ===== *)
theory Rpc_Protocol
  imports Runtime Filesystem
begin

section \<open>The JSON-RPC protocol\<close>

text \<open>
  \<open>rpc_protocol.rs\<close>: the handshake, requests, responses, error bodies, the history and their JSON
  form. A request is parsed to a JSON value first and decoded from it; the handshake is decoded
  from its text by derived code, which is the field \<open>de_handshake\<close> of the record \<open>rpc_codec\<close>,
  beside the printers of the three kinds of frames the server sends.
\<close>

subsection \<open>Errors\<close>

datatype json_rpc_error_code = ParseError | InvalidRequest | MethodNotFound | InvalidParams | ServerError

fun as_i64 :: "json_rpc_error_code \<Rightarrow> int" where
  "as_i64 ParseError = -32700"
| "as_i64 InvalidRequest = -32600"
| "as_i64 MethodNotFound = -32601"
| "as_i64 InvalidParams = -32602"
| "as_i64 ServerError = -32000"

record rpc_error =
  err_kind :: json_rpc_error_code
  err_message :: string
  err_code :: error_code

type_synonym 'a rpc_result = "rpc_error + 'a"

definition rpc_parse_error :: "string \<Rightarrow> rpc_error" where
  "rpc_parse_error m = \<lparr>err_kind = ParseError, err_message = m, err_code = InvalidSchema\<rparr>"

definition invalid_request :: "string \<Rightarrow> rpc_error" where
  "invalid_request m = \<lparr>err_kind = InvalidRequest, err_message = m, err_code = InvalidSchema\<rparr>"

definition method_not_found :: "string \<Rightarrow> rpc_error" where
  "method_not_found method =
     \<lparr>err_kind = MethodNotFound, err_message = ''method not found: '' @ method, err_code = ValidationFailed\<rparr>"

definition invalid_params :: "string \<Rightarrow> rpc_error" where
  "invalid_params m = \<lparr>err_kind = InvalidParams, err_message = m, err_code = ValidationFailed\<rparr>"

definition server_error :: "string \<Rightarrow> rpc_error" where
  "server_error m = \<lparr>err_kind = ServerError, err_message = m, err_code = FailedCode\<rparr>"

subsection \<open>Frames\<close>

record rpc_request =
  rq_id :: json
  rq_method :: string
  rq_params :: json

record rpc_error_body =
  eb_code :: int
  eb_message :: string
  eb_data :: "error_code option"

record rpc_response =
  rs_id :: json
  rs_result :: "json option"
  rs_error :: "rpc_error_body option"

record rpc_client =
  client_name :: string
  client_version :: string

record rpc_tab_context =
  tab_id :: "nat option"
  tab_url :: "string option"
  tab_title :: "string option"

record rpc_handshake =
  hs_frame_type :: string
  hs_protocol_version :: string
  hs_client :: rpc_client
  hs_tab :: rpc_tab_context

record rpc_handshake_ack =
  ack_frame_type :: string
  ack_protocol_version :: string
  ack_schema_version :: string
  ack_session_key :: string

datatype rpc_history_role = HistUser | HistReshape | HistSystem

record rpc_history_message =
  hm_role :: rpc_history_role
  hm_text :: string

record rpc_history_body =
  hb_schema_version :: string
  hb_session_key :: string
  hb_messages :: "rpc_history_message list"

datatype rpc_output =
    RpcFinalMessage string
  | RpcStreamChunk string
  | RpcToolProgress string string
  | RpcWorkspaceFileChanged string
  | RpcError error_code string
  | RpcCompleted string

record rpc_result_body =
  rb_schema_version :: string
  rb_message_id :: string
  rb_trace_id :: string
  rb_session_key :: string
  rb_output :: rpc_output
  rb_metadata :: "(string, json) btree_map"

record rpc_codec =
  de_handshake :: "string \<Rightarrow> string + rpc_handshake"
  ser_response :: "rpc_response \<Rightarrow> string + string"
  ser_progress :: "turn_progress_event \<Rightarrow> string + string"
  ser_ack :: "rpc_handshake_ack \<Rightarrow> string + string"

subsection \<open>JSON forms\<close>

fun error_code_text :: "error_code \<Rightarrow> string" where
  "error_code_text InvalidSchema = ''InvalidSchema''"
| "error_code_text ValidationFailed = ''ValidationFailed''"
| "error_code_text DuplicateMessage = ''DuplicateMessage''"
| "error_code_text AgentTimeout = ''AgentTimeout''"
| "error_code_text ToolTimeout = ''ToolTimeout''"
| "error_code_text ProviderUnavailable = ''ProviderUnavailable''"
| "error_code_text ProviderResponseInvalid = ''ProviderResponseInvalid''"
| "error_code_text ToolBudgetExceededCode = ''ToolBudgetExceeded''"
| "error_code_text FailedCode = ''Failed''"

fun rpc_output_json :: "rpc_output \<Rightarrow> json" where
  "rpc_output_json (RpcFinalMessage t) = json_obj [(''type'', JStr ''final_message''), (''text'', JStr t)]"
| "rpc_output_json (RpcStreamChunk t) = json_obj [(''type'', JStr ''stream_chunk''), (''text'', JStr t)]"
| "rpc_output_json (RpcToolProgress n m) =
     json_obj [(''type'', JStr ''tool_progress''), (''tool_name'', JStr n), (''message'', JStr m)]"
| "rpc_output_json (RpcWorkspaceFileChanged p) =
     json_obj [(''type'', JStr ''workspace_file_changed''), (''path'', JStr p)]"
| "rpc_output_json (RpcError c m) =
     json_obj [(''type'', JStr ''error''), (''code'', JStr (error_code_text c)), (''message'', JStr m)]"
| "rpc_output_json (RpcCompleted s) = json_obj [(''type'', JStr ''completed''), (''summary'', JStr s)]"

definition result_body_json :: "rpc_result_body \<Rightarrow> json" where
  "result_body_json b =
     json_obj [(''schemaVersion'', JStr (rb_schema_version b)), (''messageId'', JStr (rb_message_id b)),
       (''traceId'', JStr (rb_trace_id b)), (''sessionKey'', JStr (rb_session_key b)),
       (''output'', rpc_output_json (rb_output b)), (''metadata'', JObj (rb_metadata b))]"

fun history_role_text :: "rpc_history_role \<Rightarrow> string" where
  "history_role_text HistUser = ''user''"
| "history_role_text HistReshape = ''reshape''"
| "history_role_text HistSystem = ''system''"

definition history_message_json :: "rpc_history_message \<Rightarrow> json" where
  "history_message_json m =
     json_obj [(''role'', JStr (history_role_text (hm_role m))), (''text'', JStr (hm_text m))]"

definition history_body_json :: "rpc_history_body \<Rightarrow> json" where
  "history_body_json b =
     json_obj [(''schemaVersion'', JStr (hb_schema_version b)), (''sessionKey'', JStr (hb_session_key b)),
       (''messages'', JArr (map history_message_json (hb_messages b)))]"

subsection \<open>Parsing\<close>

definition decode_request_body :: "json \<Rightarrow> de_error + (string \<times> json option \<times> string option \<times> json)" where
  "decode_request_body j =
     and_then (struct_source ''struct JsonRpcRequestBody with 4 elements''
        [''jsonrpc'', ''id'', ''method'', ''params''] j) (\<lambda>src.
       and_then (visit_entries (\<lambda>k v.
           if k = ''jsonrpc'' then error_of (dec_string v)
           else if k = ''method'' then error_of (dec_option dec_string v) else None) src) (\<lambda>u.
         and_then (req_field src ''jsonrpc'' dec_string) (\<lambda>version.
           and_then (opt_field src ''id'' dec_value) (\<lambda>rid.
             and_then (opt_field src ''method'' dec_string) (\<lambda>method.
               and_then (default_field src ''params'' JNull dec_value) (\<lambda>params.
                 Inr (version, rid, method, params)))))))"

fun is_valid_id :: "json \<Rightarrow> bool" where
  "is_valid_id (JStr s) = True"
| "is_valid_id (JNum n) = True"
| "is_valid_id JNull = True"
| "is_valid_id _ = False"

definition from_json_value :: "serde_json \<Rightarrow> json \<Rightarrow> rpc_request rpc_result" where
  "from_json_value sj value =
     (if \<not> is_object value then Inl (invalid_request ''request must be a JSON object'')
      else case decode_request_body value of
        Inl e \<Rightarrow> Inl (invalid_request (de_msg sj e))
      | Inr (version, rid, method, params) \<Rightarrow>
          (if version \<noteq> ''2.0'' then Inl (invalid_request ''jsonrpc must be 2.0'')
           else and_then (ok_or (invalid_request ''id is required'') rid) (\<lambda>rid.
             if \<not> is_valid_id rid then Inl (invalid_request ''id must be a string, number, or null'')
             else and_then (ok_or (invalid_request ''method is required'') method) (\<lambda>method.
               Inr \<lparr>rq_id = rid, rq_method = method, rq_params = params\<rparr>))))"

definition parse_rpc_request :: "serde_json \<Rightarrow> string \<Rightarrow> rpc_request rpc_result" where
  "parse_rpc_request sj text =
     and_then (map_err rpc_parse_error (de_str sj text)) (from_json_value sj)"

definition parse_rpc_handshake :: "rpc_codec \<Rightarrow> string \<Rightarrow> rpc_handshake rpc_result" where
  "parse_rpc_handshake cd text =
     and_then (map_err (\<lambda>e. invalid_request (''rpc handshake required: '' @ e)) (de_handshake cd text)) (\<lambda>h.
       if hs_frame_type h \<noteq> ''reshape.rpc.handshake'' then Inl (invalid_request ''rpc handshake required'')
       else if hs_protocol_version h \<noteq> DEFAULT_SCHEMA_VERSION
       then Inl (invalid_params (''unsupported rpc protocolVersion: '' @ hs_protocol_version h))
       else if trim (client_name (hs_client h)) = '''' \<or> trim (client_version (hs_client h)) = ''''
       then Inl (invalid_params ''rpc client name and version are required'')
       else Inr h)"

definition rpc_handshake_ack :: rpc_handshake_ack where
  "rpc_handshake_ack =
     \<lparr>ack_frame_type = ''reshape.rpc.handshake_ack'', ack_protocol_version = DEFAULT_SCHEMA_VERSION,
      ack_schema_version = DEFAULT_SCHEMA_VERSION, ack_session_key = DEFAULT_SESSION_KEY\<rparr>"

subsection \<open>The parameters of an input\<close>

text \<open>\<open>RpcInput\<close> is tagged by its field \<open>type\<close>; an array gives the tag first and the fields after it.\<close>

definition decode_variant :: "json \<Rightarrow> de_error + unit" where
  "decode_variant tag =
     (case tag of
        JStr s \<Rightarrow> (if s = ''user_text'' then Inr () else Inl (UnknownVariant s [''user_text'']))
      | _ \<Rightarrow> Inl (InvalidType tag ''variant identifier''))"

definition decode_rpc_input :: "json \<Rightarrow> de_error + string" where
  "decode_rpc_input j =
     (case j of
        JObj m \<Rightarrow>
          (case map_of m ''type'' of
             None \<Rightarrow> Inl (MissingField ''type'')
           | Some tag \<Rightarrow> and_then (decode_variant tag) (\<lambda>u.
               case map_of m ''text'' of None \<Rightarrow> Inl (MissingField ''text'') | Some v \<Rightarrow> dec_string v))
      | JArr [] \<Rightarrow> Inl (MissingField ''type'')
      | JArr (tag # vs) \<Rightarrow> and_then (decode_variant tag) (\<lambda>u.
          case vs of
            [] \<Rightarrow> Inl (InvalidLength 0 ''struct variant RpcInput::UserText with 1 element'')
          | v # rest \<Rightarrow> and_then (dec_string v) (\<lambda>s.
              if rest = [] then Inr s else Inl (InvalidLength (length vs) ''1 element in sequence'')))
      | _ \<Rightarrow> Inl (InvalidType j ''internally tagged enum RpcInput''))"

record input_params =
  ip_session_key :: "string option"
  ip_schema_version :: "string option"
  ip_metadata :: "(string, json) btree_map"
  ip_input :: "string option"

definition decode_input_params :: "json \<Rightarrow> de_error + input_params" where
  "decode_input_params j =
     and_then (struct_source ''struct InputParams with 4 elements''
        [''sessionKey'', ''schemaVersion'', ''metadata'', ''input''] j) (\<lambda>src.
       and_then (visit_entries (\<lambda>k v.
           if k = ''sessionKey'' \<or> k = ''schemaVersion'' then error_of (dec_option dec_string v)
           else if k = ''metadata'' then error_of (dec_map v)
           else if k = ''input'' then error_of (dec_option decode_rpc_input v) else None) src) (\<lambda>u.
         and_then (opt_field src ''sessionKey'' dec_string) (\<lambda>key.
           and_then (opt_field src ''schemaVersion'' dec_string) (\<lambda>version.
             and_then (default_field src ''metadata'' [] dec_map) (\<lambda>meta.
               and_then (opt_field src ''input'' decode_rpc_input) (\<lambda>input.
                 Inr \<lparr>ip_session_key = key, ip_schema_version = version, ip_metadata = meta,
                      ip_input = input\<rparr>))))))"

definition input_params_error :: "serde_json \<Rightarrow> de_error \<Rightarrow> string" where
  "input_params_error sj e =
     (let message = de_msg sj e
      in if contains_str ''missing field `text`'' message then ''input.text is required''
         else if contains_str ''unknown variant'' message
         then ''invalid params: unsupported input.type ('' @ message @ '')''
         else ''invalid params: '' @ message)"

definition number_text :: "serde_json \<Rightarrow> json_num \<Rightarrow> string" where
  "number_text sj n = (case ser_str sj (JNum n) of Inr s \<Rightarrow> s | Inl e \<Rightarrow> '''')"

definition metadata_id :: "serde_json \<Rightarrow> json \<Rightarrow> json" where
  "metadata_id sj value =
     (case value of JStr s \<Rightarrow> JStr s | JNum n \<Rightarrow> JStr (number_text sj n) | _ \<Rightarrow> JNull)"

definition into_input_event :: "string \<Rightarrow> input_event" where
  "into_input_event text = UserText text WebSocket"

definition input_envelope ::
    "serde_json \<Rightarrow> stamps \<Rightarrow> json \<Rightarrow> string \<Rightarrow> input_params \<Rightarrow> input_event envelope rpc_result" where
  "input_envelope sj st rid key params =
     and_then (ok_or (invalid_params ''input is required'') (ip_input params)) (\<lambda>text.
       Inr ((for_session st key (into_input_event text))
              \<lparr>metadata := bt_insert ''jsonrpc_id'' (metadata_id sj rid) (ip_metadata params)\<rparr>))"

definition into_input_envelope ::
    "serde_json \<Rightarrow> stamps \<Rightarrow> rpc_request \<Rightarrow> input_event envelope rpc_result" where
  "into_input_envelope sj st r =
     (if rq_method r \<noteq> ''reshape.input'' then Inl (method_not_found (rq_method r))
      else case decode_input_params (rq_params r) of
        Inl e \<Rightarrow> Inl (invalid_params (input_params_error sj e))
      | Inr params \<Rightarrow>
          (let key = unwrap_or DEFAULT_SESSION_KEY (ip_session_key params)
           in if key \<noteq> DEFAULT_SESSION_KEY then Inl (invalid_params (''unsupported sessionKey: '' @ key))
              else case ip_schema_version params of
                None \<Rightarrow> input_envelope sj st (rq_id r) key params
              | Some v \<Rightarrow>
                  (if v \<noteq> DEFAULT_SCHEMA_VERSION
                   then Inl (invalid_params (''unsupported schemaVersion: '' @ v))
                   else input_envelope sj st (rq_id r) key params)))"

subsection \<open>Responses\<close>

fun rpc_output_of :: "output_event \<Rightarrow> rpc_output" where
  "rpc_output_of (FinalMessage t) = RpcFinalMessage t"
| "rpc_output_of (StreamChunk t) = RpcStreamChunk t"
| "rpc_output_of (ToolProgress n m) = RpcToolProgress n m"
| "rpc_output_of (WorkspaceFileChanged p) = RpcWorkspaceFileChanged (utf8_lossy p)"
| "rpc_output_of (ErrorEvent c m) = RpcError c m"
| "rpc_output_of (CompletedEvent s) = RpcCompleted s"

definition raw_success :: "json \<Rightarrow> json \<Rightarrow> rpc_response" where
  "raw_success rid res = \<lparr>rs_id = rid, rs_result = Some res, rs_error = None\<rparr>"

definition rpc_success :: "json \<Rightarrow> output_event envelope \<Rightarrow> rpc_response" where
  "rpc_success rid env =
     raw_success rid (result_body_json
       \<lparr>rb_schema_version = schema_version (header env), rb_message_id = message_id (header env),
        rb_trace_id = trace_id (header env), rb_session_key = session_key (header env),
        rb_output = rpc_output_of (payload env), rb_metadata = metadata env\<rparr>)"

definition response_error :: "json option \<Rightarrow> rpc_error \<Rightarrow> rpc_response" where
  "response_error rid e =
     \<lparr>rs_id = unwrap_or JNull rid, rs_result = None,
      rs_error = Some \<lparr>eb_code = as_i64 (err_kind e), eb_message = err_message e,
                       eb_data = Some (err_code e)\<rparr>\<rparr>"

fun history_message_of :: "session_message \<Rightarrow> rpc_history_message option" where
  "history_message_of (Input (UserText t src)) = Some \<lparr>hm_role = HistUser, hm_text = t\<rparr>"
| "history_message_of (Input (PluginMessage t)) = Some \<lparr>hm_role = HistUser, hm_text = t\<rparr>"
| "history_message_of (Output (FinalMessage t)) = Some \<lparr>hm_role = HistReshape, hm_text = t\<rparr>"
| "history_message_of (Output (CompletedEvent s)) = Some \<lparr>hm_role = HistReshape, hm_text = s\<rparr>"
| "history_message_of (Output (ErrorEvent c m)) = Some \<lparr>hm_role = HistSystem, hm_text = m\<rparr>"
| "history_message_of _ = None"

definition history_body_of :: "session \<Rightarrow> rpc_history_body" where
  "history_body_of s =
     \<lparr>hb_schema_version = DEFAULT_SCHEMA_VERSION, hb_session_key = sess_key s,
      hb_messages = List.map_filter history_message_of (history s)\<rparr>"

definition rpc_history :: "json \<Rightarrow> session \<Rightarrow> rpc_response" where
  "rpc_history rid s = raw_success rid (history_body_json (history_body_of s))"

definition rpc_ping :: "json \<Rightarrow> rpc_response" where
  "rpc_ping rid =
     raw_success rid (json_obj [(''ok'', JBool True), (''schemaVersion'', JStr DEFAULT_SCHEMA_VERSION)])"

subsection \<open>What is accepted\<close>

lemma visit_entries_ok:
  "visit_entries chk (FromMap m) = Inr u \<longleftrightarrow> list_all (\<lambda>(k, v). chk k v = None) m"
proof -
  have "first_bad_entry chk m = None \<longleftrightarrow> list_all (\<lambda>(k, v). chk k v = None) m"
    by (induction chk m rule: first_bad_entry.induct) (auto split: option.splits)
  then show ?thesis by (auto simp: visit_entries_def split: option.splits)
qed

lemma map_of_entry: "bt_wf m \<Longrightarrow> (k, v) \<in> set m \<Longrightarrow> map_of m k = Some v"
  by (simp add: bt_wf_def strict_sorted_iff map_of_is_SomeI)

lemma list_all_fields:
  assumes "bt_wf m" and "\<And>k v. map_of m k = Some v \<Longrightarrow> chk k v = None"
  shows "list_all (\<lambda>(k, v). chk k v = None) m"
  using assms map_of_entry by (fastforce simp: list_all_iff)

definition sample_request :: json where
  "sample_request = json_obj [(''jsonrpc'', JStr ''2.0''), (''id'', JStr ''7''), (''method'', JStr ''reshape.input''),
     (''params'', json_obj [(''metadata'', json_obj [(''jsonrpc_id'', JStr ''spoofed'')]),
        (''input'', json_obj [(''type'', JStr ''user_text''), (''text'', JStr ''hello'')])])]"

lemma field_iff:
  "req_field (FromMap m) k dec_string = Inr s \<longleftrightarrow> map_of m k = Some (JStr s)"
  "opt_field (FromMap m) k dec_value = Inr v \<longleftrightarrow>
     v = (case map_of m k of None \<Rightarrow> None | Some JNull \<Rightarrow> None | x \<Rightarrow> x)"
  "opt_field (FromMap m) k dec_string = Inr w \<longleftrightarrow>
     (case w of None \<Rightarrow> map_of m k \<in> {None, Some JNull} | Some s \<Rightarrow> map_of m k = Some (JStr s))"
  "default_field (FromMap m) k d dec_value = Inr x \<longleftrightarrow> x = unwrap_or d (map_of m k)"
  by (auto simp: req_field_def opt_field_def default_field_def dec_string_def dec_option_def dec_value_def
      split: option.splits json.splits)

lemma decode_request_body_iff:
  assumes "bt_wf m"
  shows "decode_request_body (JObj m) = Inr (version, rid, method, params) \<longleftrightarrow>
     map_of m ''jsonrpc'' = Some (JStr version)
     \<and> rid = (case map_of m ''id'' of None \<Rightarrow> None | Some JNull \<Rightarrow> None | v \<Rightarrow> v)
     \<and> (case method of None \<Rightarrow> map_of m ''method'' \<in> {None, Some JNull} | Some s \<Rightarrow> map_of m ''method'' = Some (JStr s))
     \<and> params = unwrap_or JNull (map_of m ''params'')"
  (is "?L \<longleftrightarrow> ?R")
proof -
  let ?chk = "\<lambda>k v. if k = ''jsonrpc'' then error_of (dec_string v)
      else if k = ''method'' then error_of (dec_option dec_string v) else None"
  have "?R \<Longrightarrow> list_all (\<lambda>(k, v). ?chk k v = None) m"
    by (rule list_all_fields [OF assms])
      (auto simp: error_of_def dec_string_def dec_option_def split: option.splits)
  moreover have "?L \<longleftrightarrow> list_all (\<lambda>(k, v). ?chk k v = None) m \<and> ?R"
    unfolding decode_request_body_def struct_source_def json.case and_then_simps and_then_Inr_iff
      visit_entries_ok field_iff by auto
  ultimately show ?thesis by blast
qed

lemma from_json_value_iff:
  assumes "json_wf j"
  shows "from_json_value sj j = Inr r \<longleftrightarrow>
    (\<exists>m. j = JObj m \<and> map_of m ''jsonrpc'' = Some (JStr ''2.0'')
       \<and> map_of m ''id'' = Some (rq_id r) \<and> ((\<exists>s. rq_id r = JStr s) \<or> (\<exists>n. rq_id r = JNum n))
       \<and> map_of m ''method'' = Some (JStr (rq_method r))
       \<and> rq_params r = unwrap_or JNull (map_of m ''params''))"
proof (cases j)
  case (JObj m)
  with assms have wf: "bt_wf m" by simp
  have "from_json_value sj j = Inr r \<longleftrightarrow> (\<exists>rid. is_valid_id rid \<and> rid = rq_id r
      \<and> decode_request_body (JObj m) = Inr (''2.0'', Some rid, Some (rq_method r), rq_params r))"
    by (auto simp: from_json_value_def JObj and_then_Inr_iff split: sum.splits prod.splits if_splits)
  then show ?thesis
    unfolding decode_request_body_iff [OF wf]
    by (auto simp: JObj split: option.splits json.splits elim: is_valid_id.elims)
qed (simp_all add: from_json_value_def)

text \<open>C21: which requests are accepted. A JSON value is taken as a request exactly when it is an
  object with version 2.0, a method name and an id that is a string or a number; the id, the
  method and the parameters (null when absent) are passed on as they are. A null id is not
  accepted, although the error for other ids names null as allowed: the optional field \<open>id\<close>
  reads null as absent.\<close>

theorem request_accepted_iff:
  assumes "json_wf j"
  shows "from_json_value sj j = Inr r \<longleftrightarrow>
    (\<exists>m. j = JObj m \<and> map_of m ''jsonrpc'' = Some (JStr ''2.0'')
       \<and> map_of m ''id'' = Some (rq_id r) \<and> ((\<exists>s. rq_id r = JStr s) \<or> (\<exists>n. rq_id r = JNum n))
       \<and> map_of m ''method'' = Some (JStr (rq_method r))
       \<and> rq_params r = unwrap_or JNull (map_of m ''params''))"
  using assms by (rule from_json_value_iff)

theorem request_accepted_iff_witness:
  "json_wf sample_request \<and> (\<exists>r. from_json_value sample_serde sample_request = Inr r \<and> rq_id r = JStr ''7'')"
proof -
  have wf: "json_wf sample_request" by code_simp
  let ?r = "\<lparr>rq_id = JStr ''7'', rq_method = ''reshape.input'',
     rq_params = json_obj [(''metadata'', json_obj [(''jsonrpc_id'', JStr ''spoofed'')]),
        (''input'', json_obj [(''type'', JStr ''user_text''), (''text'', JStr ''hello'')])]\<rparr>"
  obtain m where m: "sample_request = JObj m" by (simp add: sample_request_def json_obj_def)
  have "json_get sample_request k = map_of m k" for k by (simp add: m bt_get_def)
  then have "map_of m ''jsonrpc'' = Some (JStr ''2.0'')" "map_of m ''id'' = Some (rq_id ?r)"
      "map_of m ''method'' = Some (JStr (rq_method ?r))" "map_of m ''params'' = Some (rq_params ?r)"
    by (simp_all flip: \<open>\<And>k. json_get sample_request k = map_of m k\<close> add: sample_request_def json_get_obj)
  then have "from_json_value sample_serde sample_request = Inr ?r"
    unfolding request_accepted_iff [OF wf] by (simp add: m)
  with wf show ?thesis by auto
qed

text \<open>A request becomes an input of its own. The envelope made from an accepted
  \<open>reshape.input\<close> request is for the one session the runtime serves, holds the text as typed by
  the client, and names the request: the turn id, which marks every progress event, is the id of
  the request, whatever the client has put into the metadata under the same key; the other
  metadata are the client's.\<close>

theorem input_envelope_names_request:
  assumes "json_wf j" and "from_json_value sj j = Inr r" and "into_input_envelope sj st r = Inr env"
  shows "session_key (header env) = DEFAULT_SESSION_KEY
    \<and> turn_id env = (case rq_id r of JStr s \<Rightarrow> s | JNum n \<Rightarrow> number_text sj n)
    \<and> (\<exists>params t. decode_input_params (rq_params r) = Inr params \<and> ip_input params = Some t
         \<and> payload env = UserText t WebSocket
         \<and> (\<forall>k. k \<noteq> ''jsonrpc_id'' \<longrightarrow> bt_get (metadata env) k = bt_get (ip_metadata params) k))"
proof -
  have rid: "(\<exists>s. rq_id r = JStr s) \<or> (\<exists>n. rq_id r = JNum n)"
    using assms(2) unfolding from_json_value_iff [OF assms(1)] by blast
  obtain params t where "decode_input_params (rq_params r) = Inr params" "ip_input params = Some t"
      "env = (for_session st DEFAULT_SESSION_KEY (into_input_event t))
              \<lparr>metadata := bt_insert ''jsonrpc_id'' (metadata_id sj (rq_id r)) (ip_metadata params)\<rparr>"
    using assms(3) by (auto simp: into_input_envelope_def input_envelope_def Let_def and_then_Inr_iff
        split: if_splits sum.splits option.splits)
  with rid show ?thesis
    by (auto simp: for_session_def into_input_event_def turn_id_def bt_get_insert metadata_id_def
        split: prod.splits)
qed

theorem input_envelope_names_request_witness:
  "\<exists>r env. from_json_value sample_serde sample_request = Inr r
     \<and> into_input_envelope sample_serde (''m'', ''t'', 0) r = Inr env
     \<and> turn_id env = ''7'' \<and> payload env = UserText ''hello'' WebSocket"
proof -
  let ?r = "\<lparr>rq_id = JStr ''7'', rq_method = ''reshape.input'',
     rq_params = json_obj [(''metadata'', json_obj [(''jsonrpc_id'', JStr ''spoofed'')]),
        (''input'', json_obj [(''type'', JStr ''user_text''), (''text'', JStr ''hello'')])]\<rparr>"
  let ?p = "\<lparr>ip_session_key = None, ip_schema_version = None,
     ip_metadata = [(''jsonrpc_id'', JStr ''spoofed'')], ip_input = Some ''hello''\<rparr>"
  have wf: "json_wf sample_request" by code_simp
  have r: "from_json_value sample_serde sample_request = Inr ?r" by code_simp
  have p: "decode_input_params (rq_params ?r) = Inr ?p" by code_simp
  obtain env where env: "into_input_envelope sample_serde (''m'', ''t'', 0) ?r = Inr env"
    using p by (auto simp: into_input_envelope_def input_envelope_def Let_def)
  with input_envelope_names_request [OF wf r env] r p show ?thesis by auto
qed

end
