(* ===== verification/Rpc_Server.thy ===== *)
theory Rpc_Server
  imports Rpc_Protocol Workspace
begin

section \<open>The JSON-RPC server\<close>

text \<open>
  \<open>rpc_server.rs\<close>: the static file handler, the fingerprint of the workspace, the agent worker and
  the connections. A connection is a state machine over the messages it receives and the answers
  of the worker; the server is a step relation over any number of connections, the queue between
  them and the worker (32 requests), the request the worker is busy with, the progress channels
  and the reply slots. The WebSocket and HTTP libraries, the clock and the browser are parameters.
\<close>

subsection \<open>Static files\<close>

record http_reply =
  hr_status :: nat
  hr_content_type :: "string option"
  hr_body :: string

definition resolve_static_path :: "apath \<Rightarrow> string \<Rightarrow> node \<Rightarrow> string + apath option" where
  "resolve_static_path root request fs =
     (let stripped = trim_start_matches slash request;
          rel = (if stripped = '''' then ''index.html'' else stripped)
      in if list_ex (\<lambda>c. c = ParentDir \<or> c = RootDir) (path_components rel)
         then Inl ''static path escapes workspace root''
         else
           let candidate = RootDir # map Normal root @ os_components rel
           in case metadata_of fs candidate of
                Inl e \<Rightarrow> Inr None
              | Inr kd \<Rightarrow>
                  (case canonicalize fs (if kd = KDir then candidate @ [Normal ''index.html''] else candidate) of
                     Inl e \<Rightarrow> Inr None
                   | Inr p \<Rightarrow>
                       (if \<not> prefix root p then Inl ''static path escapes workspace root''
                        else if \<not> fs_is_file fs (RootDir # map Normal p) then Inr None
                        else Inr (Some p))))"

definition content_type :: "apath \<Rightarrow> string" where
  "content_type p =
     (case path_extension (canonical_text p) of
        None \<Rightarrow> ''application/octet-stream''
      | Some e \<Rightarrow>
          (if e = ''html'' \<or> e = ''htm'' then ''text/html; charset=utf-8''
           else if e = ''css'' then ''text/css; charset=utf-8''
           else if e = ''js'' then ''text/javascript; charset=utf-8''
           else if e = ''json'' then ''application/json; charset=utf-8''
           else if e = ''svg'' then ''image/svg+xml''
           else if e = ''png'' then ''image/png''
           else if e = ''jpg'' \<or> e = ''jpeg'' then ''image/jpeg''
           else if e = ''gif'' then ''image/gif''
           else if e = ''webp'' then ''image/webp''
           else if e = ''wasm'' then ''application/wasm''
           else if e = ''txt'' then ''text/plain; charset=utf-8''
           else ''application/octet-stream''))"

definition static_handler :: "apath \<Rightarrow> string \<Rightarrow> node \<Rightarrow> http_reply" where
  "static_handler root request fs =
     (case resolve_static_path root request fs of
        Inr (Some p) \<Rightarrow>
          (case fs_read (RootDir # map Normal p) fs of
             Inr c \<Rightarrow> \<lparr>hr_status = 200, hr_content_type = Some (content_type p), hr_body = c\<rparr>
           | Inl e \<Rightarrow> \<lparr>hr_status = 500, hr_content_type = None, hr_body = io_text e\<rparr>)
      | Inr None \<Rightarrow> \<lparr>hr_status = 404, hr_content_type = None, hr_body = ''not found''\<rparr>
      | Inl e \<Rightarrow> \<lparr>hr_status = 400, hr_content_type = None, hr_body = e\<rparr>)"

subsection \<open>The fingerprint of the workspace\<close>

record file_stamp =
  fp_len :: nat
  modified_nanos :: "nat option"

text \<open>The entries of one directory, as \<open>lstat\<close> sees them; \<open>mt\<close> gives the modification times.\<close>

fun fingerprint_entries ::
    "(apath \<Rightarrow> nat option) \<Rightarrow> apath \<Rightarrow> apath \<Rightarrow> (string \<times> kind) list \<Rightarrow> apath list
     \<Rightarrow> (apath, file_stamp) btree_map \<Rightarrow> apath list \<times> (apath, file_stamp) btree_map" where
  "fingerprint_entries mt root dir [] dirs files = (dirs, files)"
| "fingerprint_entries mt root dir ((name, kd) # es) dirs files =
     (case kd of
        KDir \<Rightarrow> fingerprint_entries mt root dir es ((dir @ [name]) # dirs) files
      | KFile c \<Rightarrow>
          fingerprint_entries mt root dir es dirs
            (bt_insert (drop (length root) (dir @ [name]))
               \<lparr>fp_len = length c, modified_nanos = mt (dir @ [name])\<rparr> files)
      | KLink t \<Rightarrow> fingerprint_entries mt root dir es dirs files)"

text \<open>The loop over the stack of directories, with fuel for the number it may visit.\<close>

fun fingerprint_loop ::
    "nat \<Rightarrow> (apath \<Rightarrow> nat option) \<Rightarrow> apath \<Rightarrow> node \<Rightarrow> apath list \<Rightarrow> (apath, file_stamp) btree_map
     \<Rightarrow> (io_error + (apath, file_stamp) btree_map) option" where
  "fingerprint_loop fuel mt root fs [] files = Some (Inr files)"
| "fingerprint_loop 0 mt root fs (d # ds) files = None"
| "fingerprint_loop (Suc fuel) mt root fs (d # ds) files =
     (case fs_read_dir d fs of
        Inl e \<Rightarrow> Some (Inl e)
      | Inr es \<Rightarrow>
          (case fingerprint_entries mt root d es ds files of
             (ds', files') \<Rightarrow> fingerprint_loop fuel mt root fs ds' files'))"

definition workspace_fingerprint ::
    "(apath \<Rightarrow> nat option) \<Rightarrow> apath \<Rightarrow> node \<Rightarrow> io_error + (apath, file_stamp) btree_map" where
  "workspace_fingerprint mt root fs =
     unwrap_or (Inl (OtherIo ''directory walk did not end''))
       (fingerprint_loop (dir_count fs) mt root fs [root] [])"

definition fingerprint_or_default ::
    "(apath \<Rightarrow> nat option) \<Rightarrow> apath \<Rightarrow> node \<Rightarrow> (apath, file_stamp) btree_map" where
  "fingerprint_or_default mt root fs = (case workspace_fingerprint mt root fs of Inr m \<Rightarrow> m | Inl e \<Rightarrow> [])"

definition changed_workspace_files ::
    "(apath \<Rightarrow> nat option) \<Rightarrow> apath \<Rightarrow> (apath, file_stamp) btree_map \<Rightarrow> node \<Rightarrow> string list" where
  "changed_workspace_files mt root before fs =
     map (\<lambda>e. utf8_lossy (relative_text (fst e)))
       (filter (\<lambda>e. bt_get before (fst e) \<noteq> Some (snd e)) (fingerprint_or_default mt root fs))"

definition workspace_index_exists :: "apath option \<Rightarrow> node \<Rightarrow> bool" where
  "workspace_index_exists root fs =
     (case root of
        None \<Rightarrow> False
      | Some p \<Rightarrow> fs_is_file fs (RootDir # map Normal p @ [Normal ''index.html'']))"

subsection \<open>Static files stay inside\<close>

lemma resolve_static_path_ok:
  assumes "local_inv ws fs" and "resolve_static_path (ws_root ws) request fs = Inr (Some p)"
  obtains c where "strict_prefix (ws_root ws) p" "stat_at fs p = Some (KFile c)"
    "canonicalize fs (RootDir # map Normal p) = Inr p"
proof -
  have root: "stat_at fs [] = Some KDir" using assms(1) stat_at_root by (auto simp: local_inv_def)
  from assms(2) obtain cs where cs: "canonicalize fs cs = Inr p" and pre: "prefix (ws_root ws) p"
      and isf: "fs_is_file fs (RootDir # map Normal p)"
    by (auto simp: resolve_static_path_def Let_def split: if_splits sum.splits)
  have nn: "list_all (\<lambda>n. \<not> has_nul n) p"
    using walk_no_nul [OF cs [unfolded canonicalize_def]] by simp
  have real: "stat_at fs p = Some KDir \<or> (\<exists>c. stat_at fs p = Some (KFile c))"
    by (rule walk_False_real [OF cs [unfolded canonicalize_def] root])
  have self: "canonicalize fs (RootDir # map Normal p) = Inr p" by (rule canonicalize_self [OF real nn root])
  with isf real obtain c where c: "stat_at fs p = Some (KFile c)"
    by (auto simp: fs_is_file_def metadata_of_def)
  with pre assms(1) have "strict_prefix (ws_root ws) p" by (auto simp: strict_prefix_def local_inv_def)
  with c self show ?thesis using that by blast
qed

lemma static_handler_found:
  assumes "local_inv ws fs" and "resolve_static_path (ws_root ws) request fs = Inr (Some p)"
    and "stat_at fs p = Some (KFile c)"
  shows "static_handler (ws_root ws) request fs
    = \<lparr>hr_status = 200, hr_content_type = Some (content_type p), hr_body = c\<rparr>"
proof -
  from assms(1,2) have "canonicalize fs (RootDir # map Normal p) = Inr p"
    by (rule resolve_static_path_ok) simp
  with assms(2,3) show ?thesis by (simp add: static_handler_def fs_read_def)
qed

lemma trim_start_slash:
  assumes "\<not> is_absolute path" shows "trim_start_matches slash (slash # path) = path"
  using assms by (cases path) (auto simp: trim_start_matches_def is_absolute_def starts_with_iff slash_def)

lemma static_handler_serves_readable:
  assumes "local_inv ws fs" and "resolve_existing ws path fs = Inr p" and "stat_at fs p = Some (KFile c)"
  shows "static_handler (ws_root ws) (slash # path) fs
    = \<lparr>hr_status = 200, hr_content_type = Some (content_type p), hr_body = c\<rparr>"
proof -
  from assms(2) obtain rel where "relative_path path = Inr rel"
    by (auto simp: resolve_existing_def and_then_Inr_iff)
  then have rp: "relative_path path = Inr path" using relative_path_Inr(1) by blast
  then have comps: "\<not> list_ex (\<lambda>c. c = ParentDir \<or> c = RootDir) (path_components path)"
    by (auto simp: relative_path_def split: if_splits)
  have ne: "path \<noteq> ''''" using relative_path_Inr(3) [OF rp]
    by (auto simp: rel_names_def path_components_def slash_def Let_def is_absolute_def starts_with_iff)
  have na: "\<not> is_absolute path" using comps by (auto simp: path_components_def Let_def)
  have can: "canonicalize fs (RootDir # map Normal (ws_root ws) @ os_components path) = Inr p"
    using assms(2) rp by (auto simp: resolve_existing_def and_then_Inr_iff candidate_os_def split: if_splits)
  note p = resolve_existing_ok [OF assms(1,2)]
  have "resolve_static_path (ws_root ws) (slash # path) fs = Inr (Some p)"
    unfolding resolve_static_path_def trim_start_slash [OF na]
    using ne comps can p assms(3) by (simp add: Let_def metadata_of_def fs_is_file_def)
  then show ?thesis using assms(1,3) by (rule_tac static_handler_found)
qed

text \<open>C20: the static file handler answers with nothing but workspace files. Whatever path is
  requested, with links anywhere in the tree, an answer with status 200 is the contents of a
  regular file strictly below the workspace root; every other answer has status 400 or 404
  and a fixed text. Status 500 is left for trees that change between the check and the read.\<close>

theorem static_files_stay_inside:
  assumes "local_inv ws fs"
  shows "case static_handler (ws_root ws) request fs of r \<Rightarrow>
    (hr_status r = 200 \<and> (\<exists>p c. strict_prefix (ws_root ws) p \<and> stat_at fs p = Some (KFile c)
        \<and> hr_content_type r = Some (content_type p) \<and> hr_body r = c))
    \<or> (hr_status r, hr_body r) \<in> {(404, ''not found''), (400, ''static path escapes workspace root'')}"
proof (cases "resolve_static_path (ws_root ws) request fs")
  case (Inl e)
  then have "e = ''static path escapes workspace root''"
    by (auto simp: resolve_static_path_def Let_def split: if_splits sum.splits)
  with Inl show ?thesis by (simp add: static_handler_def)
next
  case (Inr po)
  show ?thesis
  proof (cases po)
    case None
    with Inr show ?thesis by (simp add: static_handler_def)
  next
    case (Some p)
    with Inr have r: "resolve_static_path (ws_root ws) request fs = Inr (Some p)" by simp
    from assms r obtain c where "strict_prefix (ws_root ws) p" "stat_at fs p = Some (KFile c)"
      by (rule resolve_static_path_ok)
    with static_handler_found [OF assms r] show ?thesis by auto
  qed
qed

theorem static_files_stay_inside_witness:
  "local_inv sample_ws sample_fs
   \<and> (case static_handler (ws_root sample_ws) ''/../secret'' sample_fs of r \<Rightarrow>
    (hr_status r = 200 \<and> (\<exists>p c. strict_prefix (ws_root sample_ws) p \<and> stat_at sample_fs p = Some (KFile c)
        \<and> hr_content_type r = Some (content_type p) \<and> hr_body r = c))
    \<or> (hr_status r, hr_body r) \<in> {(404, ''not found''), (400, ''static path escapes workspace root'')})"
proof -
  have i: "local_inv sample_ws sample_fs" by (simp add: fs_eval)
  with static_files_stay_inside [OF i, of "''/../secret''"] show ?thesis by blast
qed

text \<open>What an agent writes is what the browser gets. After a successful write, the request for
  the path that was written, as the agent spelled it, is answered with exactly these bytes.\<close>

theorem written_pages_are_served:
  assumes "local_inv ws fs" and "write_text ws path c fs = (Inr rel, fs')"
  shows "hr_status (static_handler (ws_root ws) (''/'' @ path) fs') = 200
    \<and> hr_body (static_handler (ws_root ws) (''/'' @ path) fs') = c"
proof -
  obtain cp where "stat_at fs' (cp @ [last (rel_names path)]) = Some (KFile c)"
      "resolve_existing ws path fs' = Inr (cp @ [last (rel_names path)])"
    using assms by (rule write_text_ok_effect) blast
  moreover have "local_inv ws fs'" using assms by (rule write_text_inv)
  ultimately show ?thesis using static_handler_serves_readable by (simp add: slash_def)
qed

theorem written_pages_are_served_witness:
  "hr_body (static_handler [''ws''] ''/a/b.html'' (snd (write_text sample_ws ''a/b.html'' ''hi'' sample_fs))) = ''hi''"
proof -
  have i: "local_inv sample_ws sample_fs" by (simp add: fs_eval)
  have w: "write_text sample_ws ''a/b.html'' ''hi'' sample_fs
      = (Inr ''a/b.html'', snd (write_text sample_ws ''a/b.html'' ''hi'' sample_fs))"
    by code_simp
  from written_pages_are_served [OF i w] show ?thesis by (simp add: sample_ws_def)
qed

subsection \<open>The fingerprint is exact\<close>

definition stamp_at :: "(apath \<Rightarrow> nat option) \<Rightarrow> apath \<Rightarrow> node \<Rightarrow> apath \<Rightarrow> file_stamp" where
  "stamp_at mt root fs q =
     \<lparr>fp_len = (case stat_at fs (root @ q) of Some (KFile c) \<Rightarrow> length c | _ \<Rightarrow> 0),
      modified_nanos = mt (root @ q)\<rparr>"

definition stamps_of ::
    "(apath \<Rightarrow> nat option) \<Rightarrow> apath \<Rightarrow> node \<Rightarrow> apath list \<Rightarrow> (apath, file_stamp) btree_map" where
  "stamps_of mt root fs files = bt_extend [] (map (\<lambda>q. (q, stamp_at mt root fs q)) files)"

lemma stamps_of_snoc:
  "stamps_of mt root fs (files @ [q]) = bt_insert q (stamp_at mt root fs q) (stamps_of mt root fs files)"
  by (simp add: stamps_of_def bt_extend_def)

lemma bt_get_stamps_of:
  "bt_get (stamps_of mt root fs files) q = (if q \<in> set files then Some (stamp_at mt root fs q) else None)"
proof -
  have "map_of (map (\<lambda>q. (q, stamp_at mt root fs q)) (rev files)) q
      = (if q \<in> set files then Some (stamp_at mt root fs q) else None)"
    by (simp add: map_of_map_restrict restrict_map_def)
  then show ?thesis by (simp add: stamps_of_def bt_get_extend rev_map)
qed

text \<open>The walk of the fingerprint follows the walk of the listing, file by file.\<close>

lemma fingerprint_entries_sim:
  assumes "open_dir ws fs d" and "stat_at fs [] = Some KDir"
    and "list_all (\<lambda>e. lookup fs (d @ [fst e]) = Some (snd e) \<and> \<not> has_nul (fst e)) es"
    and "list_entries ws fs d (map (\<lambda>(n, v). (n, kind_of_node v)) es) dirs files = Inr (dirs', files')"
  shows "fingerprint_entries mt (ws_root ws) d (map (\<lambda>(n, v). (n, kind_of_node v)) es) dirs
      (stamps_of mt (ws_root ws) fs files) = (dirs', stamps_of mt (ws_root ws) fs files')"
  using assms(3,4)
proof (induction es arbitrary: dirs files)
  case (Cons e es)
  obtain name v where e: "e = (name, v)" by (cases e)
  from Cons.prems have look: "lookup fs (d @ [name]) = Some v" and nul: "\<not> has_nul name"
    by (simp_all add: e)
  have pre: "prefix (ws_root ws) (d @ [name])" "list_all (\<lambda>n. \<not> has_nul n) (d @ [name])"
    using assms(1) nul by (auto simp: open_dir_def)
  then obtain q where q: "d @ [name] = ws_root ws @ q" by (auto simp: prefix_def)
  have can: "canonicalize fs (RootDir # map Normal (d @ [name])) = Inr (d @ [name])"
    if "kind_of_node v = KDir \<or> (\<exists>c. kind_of_node v = KFile c)"
    by (rule canonicalize_self [OF _ pre(2) assms(2)]) (use that look in \<open>auto simp: stat_at_def\<close>)
  show ?case
  proof (cases v)
    case (RegFile c)
    have "stamp_at mt (ws_root ws) fs q = \<lparr>fp_len = length c, modified_nanos = mt (d @ [name])\<rparr>"
      using look RegFile by (simp add: stamp_at_def stat_at_def flip: q)
    moreover have "drop (length (ws_root ws)) (d @ [name]) = q" unfolding q by simp
    ultimately show ?thesis
      using Cons.IH [of dirs "files @ [q]"] Cons.prems can pre(1) RegFile
      by (simp add: e stamps_of_snoc del: map_append drop_append)
  next
    case (Dir es')
    with Cons.IH [of "(d @ [name]) # dirs" files] Cons.prems can pre(1) show ?thesis
      by (simp add: e del: map_append)
  next
    case (Symlink t)
    with Cons show ?thesis by (simp add: e)
  qed
qed simp

lemma fingerprint_loop_sim:
  assumes "fs_wf fs" and "stat_at fs [] = Some KDir" and "list_all (open_dir ws fs) dirs"
    and "list_loop fuel ws fs dirs files = Some (Inr files')"
  shows "fingerprint_loop fuel mt (ws_root ws) fs dirs (stamps_of mt (ws_root ws) fs files)
    = Some (Inr (stamps_of mt (ws_root ws) fs files'))"
  using assms(3,4)
proof (induction fuel arbitrary: dirs files)
  case (Suc fuel)
  show ?case
  proof (cases dirs)
    case (Cons d ds)
    with Suc.prems obtain es where es: "lookup fs d = Some (Dir es)" by (auto simp: open_dir_def)
    let ?es = "map (\<lambda>(n, v). (n, kind_of_node v)) es"
    from Suc.prems Cons have od: "open_dir ws fs d" "list_all (open_dir ws fs) ds" by simp_all
    note en = open_dir_entries [OF assms(1) es]
    obtain ds1 files1 where r: "list_entries ws fs d ?es ds files = Inr (ds1, files1)"
        "list_all (open_dir ws fs) ds1"
      using list_entries_ok [OF od(2,1) assms(2) en, of files] by blast
    note sim = fingerprint_entries_sim [OF od(1) assms(2) en r(1), of mt]
    show ?thesis
      using Suc.IH [OF r(2), of files1] Suc.prems(2) r(1) sim by (simp add: Cons fs_read_dir_def es)
  qed (use Suc.prems in simp)
qed (case_tac dirs; simp)

lemma fingerprint_exact:
  assumes "local_inv ws fs" and "fs_wf fs"
  shows "bt_wf (fingerprint_or_default mt (ws_root ws) fs)"
    and "bt_get (fingerprint_or_default mt (ws_root ws) fs) q =
      (case stat_at fs (ws_root ws @ q) of
         Some (KFile c) \<Rightarrow> Some \<lparr>fp_len = length c, modified_nanos = mt (ws_root ws @ q)\<rparr>
       | _ \<Rightarrow> None)"
proof -
  have root: "stat_at fs [] = Some KDir" using assms(1) stat_at_root by (auto simp: local_inv_def)
  obtain n where n: "lookup fs (ws_root ws) = Some n"
    using assms(1) by (auto simp: local_inv_def stat_at_def)
  have od: "list_all (open_dir ws fs) [ws_root ws]"
    using assms(1) n by (auto simp: local_inv_def open_dir_def stat_at_def kind_of_node_KDir_iff)
  have fuel: "dirs_below fs [ws_root ws] \<le> dir_count fs"
    using n dir_count_lookup by (simp add: dirs_below_def)
  from list_loop_ok [OF assms(2) root od fuel, of "[]"] obtain files' where
      l: "list_loop (dir_count fs) ws fs [ws_root ws] [] = Some (Inr files')"
      and m: "mset files' = mset (files_under n)"
    using n by (auto simp: found_under_def)
  have fp: "fingerprint_or_default mt (ws_root ws) fs = stamps_of mt (ws_root ws) fs files'"
    using fingerprint_loop_sim [OF assms(2) root od l, of mt]
    by (simp add: fingerprint_or_default_def workspace_fingerprint_def stamps_of_def bt_extend_def)
  show "bt_wf (fingerprint_or_default mt (ws_root ws) fs)"
    unfolding fp stamps_of_def by (rule bt_wf_extend) simp
  have "stat_at fs (ws_root ws @ q) = stat_at n q" by (simp add: stat_at_def lookup_append n)
  then have "q \<in> set files' \<longleftrightarrow> (\<exists>c. stat_at fs (ws_root ws @ q) = Some (KFile c))"
    using files_under_iff [OF fs_wf_lookup [OF assms(2) n], of q] mset_eq_setD [OF m] by simp
  then show "bt_get (fingerprint_or_default mt (ws_root ws) fs) q =
      (case stat_at fs (ws_root ws @ q) of
         Some (KFile c) \<Rightarrow> Some \<lparr>fp_len = length c, modified_nanos = mt (ws_root ws @ q)\<rparr>
       | _ \<Rightarrow> None)"
    unfolding fp bt_get_stamps_of by (auto simp: stamp_at_def split: option.splits kind.splits)
qed

text \<open>The changed files reported with an answer are exact as far as lengths and modification
  times tell: in path order and once each, the regular files below the root after the turn that
  were not there before it or had another length or modification time. Deleted files and links
  are not reported.\<close>

theorem changed_files_exact:
  assumes "local_inv ws fs" and "fs_wf fs" and "local_inv ws fs'" and "fs_wf fs'"
  shows "\<exists>qs. changed_workspace_files mt' (ws_root ws) (fingerprint_or_default mt (ws_root ws) fs) fs'
      = map (\<lambda>q. utf8_lossy (relative_text q)) qs \<and> sorted_wrt (<) qs
    \<and> set qs = {q. \<exists>c'. stat_at fs' (ws_root ws @ q) = Some (KFile c')
        \<and> \<not> (\<exists>c. stat_at fs (ws_root ws @ q) = Some (KFile c) \<and> length c = length c'
              \<and> mt (ws_root ws @ q) = mt' (ws_root ws @ q))}"
proof -
  let ?b = "fingerprint_or_default mt (ws_root ws) fs" and ?a = "fingerprint_or_default mt' (ws_root ws) fs'"
  let ?qs = "map fst (filter (\<lambda>e. bt_get ?b (fst e) \<noteq> Some (snd e)) ?a)"
  note wf = fingerprint_exact(1) [OF assms(3,4), of mt']
  have "changed_workspace_files mt' (ws_root ws) ?b fs' = map (\<lambda>q. utf8_lossy (relative_text q)) ?qs"
    by (simp add: changed_workspace_files_def)
  moreover have "sorted_wrt (<) ?qs"
    using wf unfolding bt_wf_def sorted_wrt_map by (rule sorted_wrt_filter)
  moreover have "q \<in> set ?qs \<longleftrightarrow> (\<exists>s. bt_get ?a q = Some s \<and> bt_get ?b q \<noteq> Some s)" for q
    using bt_wf_entries [OF wf] by force
  then have "q \<in> set ?qs \<longleftrightarrow> (\<exists>c'. stat_at fs' (ws_root ws @ q) = Some (KFile c')
        \<and> \<not> (\<exists>c. stat_at fs (ws_root ws @ q) = Some (KFile c) \<and> length c = length c'
              \<and> mt (ws_root ws @ q) = mt' (ws_root ws @ q)))" for q
    unfolding fingerprint_exact(2) [OF assms(3,4)] fingerprint_exact(2) [OF assms(1,2)]
    by (cases "stat_at fs (ws_root ws @ q)"; cases "stat_at fs' (ws_root ws @ q)")
      (auto split: kind.splits)
  then have "set ?qs = {q. \<exists>c'. stat_at fs' (ws_root ws @ q) = Some (KFile c')
        \<and> \<not> (\<exists>c. stat_at fs (ws_root ws @ q) = Some (KFile c) \<and> length c = length c'
              \<and> mt (ws_root ws @ q) = mt' (ws_root ws @ q))}"
    by (intro set_eqI) (simp only: mem_Collect_eq)
  ultimately show ?thesis by blast
qed

theorem changed_files_exact_witness:
  "\<exists>qs. changed_workspace_files (\<lambda>p. Some 1) [''ws'']
      (fingerprint_or_default (\<lambda>p. Some 1) [''ws''] sample_fs)
      (snd (write_text sample_ws ''a/b.html'' ''hi'' sample_fs)) = map (\<lambda>q. utf8_lossy (relative_text q)) qs
    \<and> [''a'', ''b.html''] \<in> set qs"
proof -
  let ?fs' = "snd (write_text sample_ws ''a/b.html'' ''hi'' sample_fs)"
  have i: "local_inv sample_ws sample_fs" "local_inv sample_ws ?fs'" by code_simp+
  have wf: "fs_wf sample_fs" "fs_wf ?fs'" by code_simp+
  have "stat_at ?fs' [''ws'', ''a'', ''b.html''] = Some (KFile ''hi'')"
    "stat_at sample_fs [''ws'', ''a'', ''b.html''] = None" by code_simp+
  with changed_files_exact [OF i(1) wf(1) i(2) wf(2), of "\<lambda>p. Some 1" "\<lambda>p. Some 1"] show ?thesis
    by (auto simp: sample_ws_def)
qed

end
