(* ===== verification/Rpc_Connections.thy ===== *)
theory Rpc_Connections
  imports Rpc_Server
begin

section \<open>The worker and the connections\<close>

text \<open>
  The rest of \<open>rpc_server.rs\<close>: what the agent worker does with a request, what a connection does
  with a message, and the server as a step relation over any number of connections, the queue of
  32 requests, the one request the worker is busy with, the progress channel and the reply slot of
  every request. A request gets a ticket when it is queued, which stands for its channels. The
  step relation has the whole interleaving: messages arrive, the worker takes, reports, finishes
  or drops a request whose client is gone, sends fail, the worker may die. A turn that is dropped
  at an await point leaves what the relation \<open>cutoff\<close> says, an argument of the step relation.
\<close>

subsection \<open>The worker\<close>

definition AGENT_QUEUE_CAPACITY :: nat where
  "AGENT_QUEUE_CAPACITY = 32"

datatype agent_request_kind = ReqInput "input_event envelope" | ReqHistory | ReqReset

datatype agent_response = RespOutput "output_event envelope" | RespHistory json

type_synonym reply = "agent_response rpc_result"

record 'w server_env =
  se_serde :: serde_json
  se_codec :: rpc_codec
  se_deps :: "'w runtime_deps"
  se_limits :: runtime_limits
  se_root :: "apath option"
  se_fs :: "'w \<Rightarrow> node"
  se_mtime :: "'w \<Rightarrow> apath \<Rightarrow> nat option"
  se_render :: "string option"
  se_reload :: "'w \<Rightarrow> (string + unit) \<times> 'w"
  se_open_url :: "string \<Rightarrow> 'w \<Rightarrow> (string + unit) \<times> 'w"

fun progress_kind_text :: "turn_progress_kind \<Rightarrow> string" where
  "progress_kind_text TurnStarted = ''turn_started''"
| "progress_kind_text AssistantMessage = ''assistant_message''"
| "progress_kind_text ToolStarted = ''tool_started''"
| "progress_kind_text ToolFinished = ''tool_finished''"
| "progress_kind_text ToolFailed = ''tool_failed''"
| "progress_kind_text TurnCompleted = ''turn_completed''"
| "progress_kind_text TurnFailed = ''turn_failed''"

definition progress_event_json :: "turn_progress_event \<Rightarrow> json" where
  "progress_event_json e =
     json_obj [(''turnId'', JStr (turn_id_of e)), (''sequence'', json_nat (unat (sequence_of e))),
       (''kind'', JStr (progress_kind_text (kind_of e))), (''toolName'', json_opt_str (tool_name_of e)),
       (''argumentsPreview'', json_opt_str (arguments_preview_of e)),
       (''resultPreview'', json_opt_str (result_preview_of e)), (''message'', JStr (message_of e))]"

text \<open>The browser preview: reload it, or open it when there is nothing to reload.\<close>

definition refresh_browser_preview ::
    "'w server_env \<Rightarrow> string \<Rightarrow> 'w \<Rightarrow> (string + string) option \<times> 'w" where
  "refresh_browser_preview env url w =
     (if url = '''' then (None, w)
      else case se_reload env w of
        (Inr u, w1) \<Rightarrow> (Some (Inr url), w1)
      | (Inl reload_error, w1) \<Rightarrow>
          (case se_open_url env url w1 of
             (Inr u, w2) \<Rightarrow> (Some (Inr url), w2)
           | (Inl open_error, w2) \<Rightarrow>
               (Some (Inl (''browser render failed: reload failed: '' @ reload_error
                  @ ''; open failed: '' @ open_error)), w2)))"

fun is_completed :: "output_event \<Rightarrow> bool" where
  "is_completed (CompletedEvent s) = True"
| "is_completed _ = False"

definition with_meta :: "string \<Rightarrow> json \<Rightarrow> output_event envelope \<Rightarrow> output_event envelope" where
  "with_meta k v e = e\<lparr>metadata := bt_insert k v (metadata e)\<rparr>"

definition report_turn ::
    "'w server_env \<Rightarrow> (apath, file_stamp) btree_map \<Rightarrow> turn_progress_event list \<Rightarrow> output_event envelope
     \<Rightarrow> 'w \<Rightarrow> output_event envelope" where
  "report_turn env before evs e w =
     (let e1 = (if evs = [] then e else with_meta ''toolEvents'' (JArr (map progress_event_json evs)) e)
      in case se_root env of
           None \<Rightarrow> e1
         | Some root \<Rightarrow>
             (let changed = changed_workspace_files (se_mtime env w) root before (se_fs env w)
              in if changed = [] then e1 else with_meta ''changedFiles'' (JArr (map JStr changed)) e1))"

definition render_turn ::
    "'w server_env \<Rightarrow> output_event envelope \<Rightarrow> 'w \<Rightarrow> output_event envelope \<times> 'w" where
  "render_turn env e w =
     (case se_render env of
        None \<Rightarrow> (e, w)
      | Some url \<Rightarrow>
          (if is_completed (payload e) \<and> workspace_index_exists (se_root env) (se_fs env w)
           then case refresh_browser_preview env url w of
                  (None, w1) \<Rightarrow> (e, w1)
                | (Some (Inr rendered), w1) \<Rightarrow> (with_meta ''renderedUrl'' (JStr rendered) e, w1)
                | (Some (Inl warning), w1) \<Rightarrow> (with_meta ''renderWarning'' (JStr warning) e, w1)
           else (e, w)))"

definition work_input ::
    "'w server_env \<Rightarrow> input_event envelope \<Rightarrow> 'w \<Rightarrow> reply \<times> turn_progress_event list \<times> 'w" where
  "work_input env event w =
     (let before = (case se_root env of
                      Some root \<Rightarrow> fingerprint_or_default (se_mtime env w) root (se_fs env w)
                    | None \<Rightarrow> [])
      in case process_with_progress (se_serde env) (se_deps env) (se_limits env) event w of
           (Some (Inr e), evs, w1) \<Rightarrow>
             (case render_turn env (report_turn env before evs e w1) w1 of
                (e2, w2) \<Rightarrow> (Inr (RespOutput e2), evs, w2))
         | (Some (Inl err), evs, w1) \<Rightarrow> (Inl (server_error (error_text err)), evs, w1)
         | (None, evs, w1) \<Rightarrow> (Inl (server_error ''turn did not end''), evs, w1))"

definition history_reply :: "session result \<Rightarrow> reply" where
  "history_reply r =
     (case r of
        Inl e \<Rightarrow> Inl (server_error (error_text e))
      | Inr s \<Rightarrow> Inr (RespHistory (unwrap_or JNull (rs_result (rpc_history JNull s)))))"

fun work :: "'w server_env \<Rightarrow> agent_request_kind \<Rightarrow> 'w \<Rightarrow> reply \<times> turn_progress_event list \<times> 'w" where
  "work env ReqHistory w = (case runtime_session (se_deps env) w of (r, w1) \<Rightarrow> (history_reply r, [], w1))"
| "work env ReqReset w = (case reset_session (se_deps env) w of (r, w1) \<Rightarrow> (history_reply r, [], w1))"
| "work env (ReqInput event) w = work_input env event w"

subsection \<open>A connection\<close>

datatype ws_message = MText string | MBinary | MClose | MPing | MPong | MFail string | MEnd

datatype frame = FAck | FResponse rpc_response | FProgress turn_progress_event

text \<open>The texts on the wire, with their fallbacks when a frame cannot be printed.\<close>

definition dq :: string where
  "dq = [CHR 0x22]"

definition json_key :: "string \<Rightarrow> string" where
  "json_key k = dq @ k @ dq @ '':''"

definition error_frame_text :: "string \<Rightarrow> string" where
  "error_frame_text m =
     ''{'' @ json_key ''jsonrpc'' @ dq @ ''2.0'' @ dq @ '','' @ json_key ''error'' @ ''{'' @ json_key ''code''
     @ ''-32000,'' @ json_key ''message'' @ dq @ m @ dq @ ''}}''"

definition response_to_text :: "rpc_codec \<Rightarrow> rpc_response \<Rightarrow> string" where
  "response_to_text cd r =
     (case ser_response cd r of
        Inr s \<Rightarrow> s
      | Inl e \<Rightarrow> error_frame_text (''failed to serialize response: '' @ e))"

definition rpc_handshake_ack_to_text :: "rpc_codec \<Rightarrow> string" where
  "rpc_handshake_ack_to_text cd =
     (case ser_ack cd rpc_handshake_ack of
        Inr s \<Rightarrow> s
      | Inl e \<Rightarrow> error_frame_text (''failed to serialize rpc handshake ack: '' @ e))"

definition progress_to_text :: "rpc_codec \<Rightarrow> turn_progress_event \<Rightarrow> string" where
  "progress_to_text cd ev =
     (case ser_progress cd ev of
        Inr s \<Rightarrow> s
      | Inl e \<Rightarrow>
          ''{'' @ json_key ''jsonrpc'' @ dq @ ''2.0'' @ dq @ '','' @ json_key ''method'' @ dq @ ''reshape.progress'' @ dq
          @ '','' @ json_key ''params'' @ ''{'' @ json_key ''turnId'' @ dq @ ''unknown'' @ dq @ '','' @ json_key ''sequence''
          @ ''0,'' @ json_key ''kind'' @ dq @ ''turn_failed'' @ dq @ '','' @ json_key ''toolName'' @ ''null,''
          @ json_key ''argumentsPreview'' @ ''null,'' @ json_key ''resultPreview'' @ dq @ ''failed to serialize progress: ''
          @ e @ dq @ '','' @ json_key ''message'' @ dq @ ''Agent turn failed'' @ dq @ ''}}'')"

definition frame_text :: "rpc_codec \<Rightarrow> frame \<Rightarrow> string" where
  "frame_text cd f =
     (case f of
        FAck \<Rightarrow> rpc_handshake_ack_to_text cd
      | FResponse r \<Rightarrow> response_to_text cd r
      | FProgress ev \<Rightarrow> progress_to_text cd ev)"

text \<open>What a text frame asks for: \<open>Inl\<close> is answered at once, \<open>Inr\<close> is queued for the worker.\<close>

definition request_action ::
    "serde_json \<Rightarrow> stamps \<Rightarrow> string \<Rightarrow> rpc_response + (json \<times> agent_request_kind)" where
  "request_action sj st t =
     (case parse_rpc_request sj t of
        Inl e \<Rightarrow> Inl (response_error None e)
      | Inr r \<Rightarrow>
          (if rq_method r = ''reshape.ping'' then Inl (rpc_ping (rq_id r))
           else if rq_method r = ''reshape.history'' then Inr (rq_id r, ReqHistory)
           else if rq_method r = ''reshape.reset_session'' then Inr (rq_id r, ReqReset)
           else case into_input_envelope sj st r of
             Inl e \<Rightarrow> Inl (response_error (Some (rq_id r)) e)
           | Inr event \<Rightarrow> Inr (rq_id r, ReqInput event)))"

datatype conn_phase = Reading | Awaiting nat json agent_request_kind | Closed

record conn =
  cn_handshake :: bool
  cn_phase :: conn_phase

definition fresh_conn :: conn where
  "fresh_conn = \<lparr>cn_handshake = False, cn_phase = Reading\<rparr>"

text \<open>One message of \<open>handle_socket\<close>: the new state, the frames sent, the request to queue.\<close>

fun receive ::
    "'w server_env \<Rightarrow> stamps \<Rightarrow> conn \<Rightarrow> ws_message \<Rightarrow> conn \<times> frame list \<times> (json \<times> agent_request_kind) option" where
  "receive env st cn (MText t) =
     (if \<not> cn_handshake cn
      then case parse_rpc_handshake (se_codec env) t of
             Inr h \<Rightarrow> (cn\<lparr>cn_handshake := True\<rparr>, [FAck], None)
           | Inl e \<Rightarrow> (cn, [FResponse (response_error None e)], None)
      else case request_action (se_serde env) st t of
             Inl r \<Rightarrow> (cn, [FResponse r], None)
           | Inr q \<Rightarrow> (cn, [], Some q))"
| "receive env st cn MBinary =
     (cn, [FResponse (response_error None (invalid_request ''binary frames are not supported''))], None)"
| "receive env st cn (MFail e) = (cn, [FResponse (response_error None (server_error e))], None)"
| "receive env st cn MPing = (cn, [], None)"
| "receive env st cn MPong = (cn, [], None)"
| "receive env st cn MClose = (cn\<lparr>cn_phase := Closed\<rparr>, [], None)"
| "receive env st cn MEnd = (cn\<lparr>cn_phase := Closed\<rparr>, [], None)"

text \<open>Messages that end the wait for an answer: all others are ignored while an input is worked on.\<close>

fun ends_wait :: "ws_message \<Rightarrow> bool" where
  "ends_wait MClose = True"
| "ends_wait (MFail e) = True"
| "ends_wait MEnd = True"
| "ends_wait _ = False"

text \<open>The answer to a request, from what the worker has put into the reply slot.\<close>

fun answer :: "json \<Rightarrow> agent_request_kind \<Rightarrow> reply \<Rightarrow> rpc_response" where
  "answer rid kd (Inl e) = response_error (Some rid) e"
| "answer rid (ReqInput event) (Inr (RespOutput e)) = rpc_success rid e"
| "answer rid (ReqInput event) (Inr (RespHistory h)) =
     response_error (Some rid) (server_error ''agent worker returned unexpected history response'')"
| "answer rid kd (Inr (RespHistory h)) = raw_success rid h"
| "answer rid kd (Inr (RespOutput e)) =
     response_error (Some rid) (server_error ''agent worker returned unexpected output response'')"

definition no_worker :: "json \<Rightarrow> rpc_response" where
  "no_worker rid = response_error (Some rid) (server_error ''agent worker is not available'')"

definition no_reply :: "json \<Rightarrow> rpc_response" where
  "no_reply rid = response_error (Some rid) (server_error ''channel closed'')"

subsection \<open>The server\<close>

text \<open>What happens on a connection, in order: a message is read, a request is queued for the worker, a
  frame is sent, a request is given up.\<close>

datatype conn_event = Got ws_message | Asked json agent_request_kind | Sent frame | Dropped

record 'w server =
  sv_conns :: "nat \<Rightarrow> conn"
  sv_next :: nat
  sv_alive :: bool
  sv_queue :: "(nat \<times> agent_request_kind) list"
  sv_busy :: "(nat \<times> agent_request_kind \<times> turn_progress_event list \<times> reply \<times> 'w) option"
  sv_chan :: "nat \<Rightarrow> turn_progress_event list"
  sv_reply :: "nat \<Rightarrow> reply option"
  sv_world :: 'w
  sv_log :: "nat \<Rightarrow> conn_event list"

definition rpc_router :: "'w \<Rightarrow> 'w server" where
  "rpc_router w =
     \<lparr>sv_conns = (\<lambda>c. fresh_conn), sv_next = 0, sv_alive = True, sv_queue = [], sv_busy = None,
      sv_chan = (\<lambda>k. []), sv_reply = (\<lambda>k. None), sv_world = w, sv_log = (\<lambda>c. [])\<rparr>"

definition set_phase :: "nat \<Rightarrow> conn_phase \<Rightarrow> 'w server \<Rightarrow> 'w server" where
  "set_phase c ph s = s\<lparr>sv_conns := (sv_conns s)(c := (sv_conns s c)\<lparr>cn_phase := ph\<rparr>)\<rparr>"

definition log_events :: "nat \<Rightarrow> conn_event list \<Rightarrow> 'w server \<Rightarrow> 'w server" where
  "log_events c es s = s\<lparr>sv_log := (sv_log s)(c := sv_log s c @ es)\<rparr>"

definition phase_of :: "'w server \<Rightarrow> nat \<Rightarrow> conn_phase" where
  "phase_of s c = cn_phase (sv_conns s c)"

definition waited_for :: "'w server \<Rightarrow> nat \<Rightarrow> bool" where
  "waited_for s k \<longleftrightarrow> (\<exists>c rid kd. phase_of s c = Awaiting k rid kd)"

definition drained :: "'w server \<Rightarrow> nat \<Rightarrow> conn_event list" where
  "drained s k = map (Sent \<circ> FProgress) (sv_chan s k)"

text \<open>Who moves: a client, the server on its own, or a fault (a send that fails, a worker that panics).\<close>

datatype actor = Client | Server | Fault

inductive server_step ::
    "'w server_env \<Rightarrow> (input_event envelope \<Rightarrow> 'w \<Rightarrow> 'w \<Rightarrow> bool) \<Rightarrow> actor \<Rightarrow> 'w server \<Rightarrow> 'w server
     \<Rightarrow> bool"
  for env cutoff where
  step_receive:
    "phase_of s c = Reading \<Longrightarrow> receive env st (sv_conns s c) m = (cn, frames, None) \<Longrightarrow>
     server_step env cutoff Client s (log_events c (Got m # map Sent frames) (s\<lparr>sv_conns := (sv_conns s)(c := cn)\<rparr>))"
| step_ask:
    "phase_of s c = Reading \<Longrightarrow> receive env st (sv_conns s c) m = (cn, frames, Some (rid, kd)) \<Longrightarrow>
     sv_alive s \<Longrightarrow> length (sv_queue s) < AGENT_QUEUE_CAPACITY \<Longrightarrow>
     server_step env cutoff Client s (log_events c [Got m, Asked rid kd] (set_phase c (Awaiting (sv_next s) rid kd)
       (s\<lparr>sv_queue := sv_queue s @ [(sv_next s, kd)], sv_next := Suc (sv_next s)\<rparr>)))"
| step_no_worker:
    "phase_of s c = Reading \<Longrightarrow> receive env st (sv_conns s c) m = (cn, frames, Some (rid, kd)) \<Longrightarrow>
     \<not> sv_alive s \<Longrightarrow> server_step env cutoff Client s (log_events c [Got m, Sent (FResponse (no_worker rid))] s)"
| step_send_fails:
    "phase_of s c = Reading \<Longrightarrow> server_step env cutoff Fault s (set_phase c Closed s)"
| step_answer:
    "phase_of s c = Awaiting k rid kd \<Longrightarrow> sv_reply s k = Some r \<Longrightarrow>
     server_step env cutoff Server s (log_events c (drained s k @ [Sent (FResponse (answer rid kd r))])
       (set_phase c Reading (s\<lparr>sv_chan := (sv_chan s)(k := [])\<rparr>)))"
| step_no_reply:
    "phase_of s c = Awaiting k rid kd \<Longrightarrow> sv_reply s k = None \<Longrightarrow> \<not> sv_alive s \<Longrightarrow>
     server_step env cutoff Server s (log_events c (drained s k @ [Sent (FResponse (no_reply rid))])
       (set_phase c Reading (s\<lparr>sv_chan := (sv_chan s)(k := [])\<rparr>)))"
| step_progress:
    "phase_of s c = Awaiting k rid kd \<Longrightarrow> sv_chan s k = ev # evs \<Longrightarrow>
     server_step env cutoff Server s (log_events c [Sent (FProgress ev)] (s\<lparr>sv_chan := (sv_chan s)(k := evs)\<rparr>))"
| step_ignore:
    "phase_of s c = Awaiting k rid (ReqInput event) \<Longrightarrow> \<not> ends_wait m \<Longrightarrow>
     server_step env cutoff Client s (log_events c [Got m] s)"
| step_abandon:
    "phase_of s c = Awaiting k rid (ReqInput event) \<Longrightarrow>
     server_step env cutoff Client s (log_events c [Dropped] (set_phase c Reading s))"
| step_take:
    "sv_alive s \<Longrightarrow> sv_busy s = None \<Longrightarrow> sv_queue s = (k, kd) # q \<Longrightarrow> work env kd (sv_world s) = (r, evs, w) \<Longrightarrow>
     server_step env cutoff Server s (s\<lparr>sv_queue := q, sv_busy := Some (k, kd, evs, r, w)\<rparr>)"
| step_emit:
    "sv_busy s = Some (k, kd, ev # evs, r, w) \<Longrightarrow>
     server_step env cutoff Server s (s\<lparr>sv_chan := (sv_chan s)(k := sv_chan s k @ [ev]), sv_busy := Some (k, kd, evs, r, w)\<rparr>)"
| step_finish:
    "sv_busy s = Some (k, kd, [], r, w) \<Longrightarrow>
     server_step env cutoff Server s (s\<lparr>sv_reply := (sv_reply s)(k := Some r), sv_world := w, sv_busy := None\<rparr>)"
| step_cancel:
    "sv_busy s = Some (k, ReqInput event, evs, r, w) \<Longrightarrow> \<not> waited_for s k \<Longrightarrow> cutoff event (sv_world s) w' \<Longrightarrow>
     server_step env cutoff Server s (s\<lparr>sv_world := w', sv_busy := None\<rparr>)"
| step_worker_dies:
    "(case sv_busy s of Some (k, ReqInput event, evs, r, w) \<Rightarrow> cutoff event (sv_world s) w' | _ \<Rightarrow> w' = sv_world s) \<Longrightarrow>
     server_step env cutoff Fault s (s\<lparr>sv_alive := False, sv_queue := [], sv_busy := None, sv_world := w'\<rparr>)"

inductive reachable ::
    "'w server_env \<Rightarrow> (input_event envelope \<Rightarrow> 'w \<Rightarrow> 'w \<Rightarrow> bool) \<Rightarrow> 'w \<Rightarrow> 'w server \<Rightarrow> bool"
  for env cutoff w0 where
  reach_start: "reachable env cutoff w0 (rpc_router w0)"
| reach_step: "reachable env cutoff w0 s \<Longrightarrow> server_step env cutoff who s s' \<Longrightarrow> reachable env cutoff w0 s'"

subsection \<open>What a client sees\<close>

text \<open>A connection's log as an automaton. Before the handshake it is \<open>Silent\<close>, after it \<open>Idle\<close>; in both
  states nothing is sent unless a message has been read. What a message calls for is \<open>owed\<close>: the
  acknowledgement, one error without an id, or one response with the id of the request, which may
  first be queued (\<open>Working\<close>). Messages that are read while the worker is at it are ignored.\<close>

datatype talk =
  Silent | Idle | Ack_Due | Error_Due bool | Answer_Due json | Working json agent_request_kind

definition at_rest :: "bool \<Rightarrow> talk" where
  "at_rest greeted = (if greeted then Idle else Silent)"

fun owed :: "serde_json \<Rightarrow> rpc_codec \<Rightarrow> bool \<Rightarrow> ws_message \<Rightarrow> talk" where
  "owed sj cd greeted (MText t) =
     (if greeted
      then case parse_rpc_request sj t of Inr r \<Rightarrow> Answer_Due (rq_id r) | Inl e \<Rightarrow> Error_Due True
      else case parse_rpc_handshake cd t of Inr h \<Rightarrow> Ack_Due | Inl e \<Rightarrow> Error_Due False)"
| "owed sj cd greeted MBinary = Error_Due greeted"
| "owed sj cd greeted (MFail e) = Error_Due greeted"
| "owed sj cd greeted m = at_rest greeted"

fun named :: "agent_request_kind \<Rightarrow> turn_progress_event list \<Rightarrow> bool" where
  "named (ReqInput event) evs = list_all (\<lambda>e. turn_id_of e = turn_id event) evs"
| "named _ evs = (evs = [])"

fun talk_next :: "serde_json \<Rightarrow> rpc_codec \<Rightarrow> talk \<Rightarrow> conn_event \<Rightarrow> talk option" where
  "talk_next sj cd Silent (Got m) = Some (owed sj cd False m)"
| "talk_next sj cd Idle (Got m) = Some (owed sj cd True m)"
| "talk_next sj cd Ack_Due (Sent FAck) = Some Idle"
| "talk_next sj cd (Error_Due greeted) (Sent (FResponse r)) =
     (if rs_id r = JNull \<and> rs_result r = None then Some (at_rest greeted) else None)"
| "talk_next sj cd (Answer_Due rid) (Sent (FResponse r)) = (if rs_id r = rid then Some Idle else None)"
| "talk_next sj cd (Answer_Due rid) (Asked rid' kd) = (if rid' = rid then Some (Working rid kd) else None)"
| "talk_next sj cd (Working rid kd) (Got m) = Some (Working rid kd)"
| "talk_next sj cd (Working rid kd) (Sent (FProgress ev)) =
     (if named kd [ev] then Some (Working rid kd) else None)"
| "talk_next sj cd (Working rid kd) (Sent (FResponse r)) = (if rs_id r = rid then Some Idle else None)"
| "talk_next sj cd (Working rid kd) Dropped = Some Idle"
| "talk_next sj cd _ _ = None"

definition talk_of :: "'w server_env \<Rightarrow> conn_event list \<Rightarrow> talk option" where
  "talk_of env es =
     foldl (\<lambda>t e. Option.bind t (\<lambda>t. talk_next (se_serde env) (se_codec env) t e)) (Some Silent) es"

lemma talk_of_simps [simp]:
  "talk_of env [] = Some Silent"
  "talk_of env (es @ [e]) = Option.bind (talk_of env es) (\<lambda>t. talk_next (se_serde env) (se_codec env) t e)"
  by (simp_all add: talk_of_def)

lemma talk_of_snoc2 [simp]:
  "talk_of env (es @ [e, e']) = Option.bind (talk_of env (es @ [e])) (\<lambda>t. talk_next (se_serde env) (se_codec env) t e')"
  by (simp add: talk_of_def)

fun reply_fits :: "agent_request_kind \<Rightarrow> reply \<Rightarrow> bool" where
  "reply_fits (ReqInput event) (Inr (RespHistory h)) = False"
| "reply_fits ReqHistory (Inr (RespOutput e)) = False"
| "reply_fits ReqReset (Inr (RespOutput e)) = False"
| "reply_fits _ _ = True"

definition pending :: "'w server \<Rightarrow> nat list" where
  "pending s = map fst (sv_queue s) @ (case sv_busy s of None \<Rightarrow> [] | Some (k, kd, evs, r, w) \<Rightarrow> [k])"

subsection \<open>Invariants\<close>

definition ticket_inv :: "'w server \<Rightarrow> bool" where
  "ticket_inv s \<longleftrightarrow> distinct (pending s) \<and> (\<forall>k \<in> set (pending s). k < sv_next s)
     \<and> (\<forall>k. sv_reply s k \<noteq> None \<longrightarrow> k < sv_next s \<and> k \<notin> set (pending s))
     \<and> (\<forall>k. sv_next s \<le> k \<longrightarrow> sv_chan s k = []) \<and> (\<forall>k \<in> fst ` set (sv_queue s). sv_chan s k = [])
     \<and> length (sv_queue s) \<le> AGENT_QUEUE_CAPACITY
     \<and> (\<not> sv_alive s \<longrightarrow> sv_queue s = [] \<and> sv_busy s = None)"

definition wait_inv :: "'w server \<Rightarrow> bool" where
  "wait_inv s \<longleftrightarrow>
     (\<forall>c k rid kd. phase_of s c = Awaiting k rid kd \<longrightarrow> k < sv_next s
        \<and> (\<forall>c' rid' kd'. phase_of s c' = Awaiting k rid' kd' \<longrightarrow> c' = c))"

definition kind_inv :: "'w server \<Rightarrow> bool" where
  "kind_inv s \<longleftrightarrow>
     (\<forall>c k rid kd. phase_of s c = Awaiting k rid kd \<longrightarrow>
        (\<forall>kd'. (k, kd') \<in> set (sv_queue s) \<longrightarrow> kd' = kd)
        \<and> (\<forall>kd' evs r w. sv_busy s = Some (k, kd', evs, r, w) \<longrightarrow> kd' = kd)
        \<and> (\<forall>r. sv_reply s k = Some r \<longrightarrow> reply_fits kd r) \<and> named kd (sv_chan s k)
        \<and> (sv_alive s \<longrightarrow> k \<in> set (pending s) \<or> sv_reply s k \<noteq> None))
     \<and> (\<forall>k kd evs r w. sv_busy s = Some (k, kd, evs, r, w) \<longrightarrow> reply_fits kd r \<and> named kd evs)"

definition talk_ok :: "'w server_env \<Rightarrow> conn \<Rightarrow> conn_event list \<Rightarrow> bool" where
  "talk_ok env cn es = (case cn_phase cn of
       Reading \<Rightarrow> talk_of env es = Some (at_rest (cn_handshake cn))
     | Awaiting k rid kd \<Rightarrow> cn_handshake cn \<and> talk_of env es = Some (Working rid kd)
     | Closed \<Rightarrow> talk_of env es \<noteq> None)"

definition talk_inv :: "'w server_env \<Rightarrow> 'w server \<Rightarrow> bool" where
  "talk_inv env s \<longleftrightarrow> (\<forall>c. talk_ok env (sv_conns s c) (sv_log s c))"

lemma talk_invD:
  assumes "talk_inv env s"
  shows "phase_of s c = Reading \<Longrightarrow> talk_of env (sv_log s c) = Some (at_rest (cn_handshake (sv_conns s c)))"
    and "phase_of s c = Awaiting k rid kd \<Longrightarrow> talk_of env (sv_log s c) = Some (Working rid kd)"
    and "phase_of s c = Awaiting k rid kd \<Longrightarrow> cn_handshake (sv_conns s c)"
    and "talk_of env (sv_log s c) \<noteq> None"
proof -
  have "talk_ok env (sv_conns s c) (sv_log s c)" using assms by (simp add: talk_inv_def)
  then show "phase_of s c = Reading \<Longrightarrow> talk_of env (sv_log s c) = Some (at_rest (cn_handshake (sv_conns s c)))"
    "phase_of s c = Awaiting k rid kd \<Longrightarrow> talk_of env (sv_log s c) = Some (Working rid kd)"
    "phase_of s c = Awaiting k rid kd \<Longrightarrow> cn_handshake (sv_conns s c)"
    "talk_of env (sv_log s c) \<noteq> None"
    by (auto simp: talk_ok_def phase_of_def split: conn_phase.splits)
qed

text \<open>A step that touches one connection: only this one is to be looked at.\<close>

lemma talk_invI:
  assumes "talk_inv env s" and "\<And>d. d \<noteq> c \<Longrightarrow> sv_conns s' d = sv_conns s d \<and> sv_log s' d = sv_log s d"
    and "talk_ok env (sv_conns s' c) (sv_log s' c)"
  shows "talk_inv env s'"
  using assms unfolding talk_inv_def by metis

lemma phase_of_simps [simp]:
  "phase_of (log_events c es s) c' = phase_of s c'"
  "phase_of (set_phase c ph s) c' = (if c' = c then ph else phase_of s c')"
  "phase_of (s\<lparr>sv_queue := q\<rparr>) c' = phase_of s c'"
  "phase_of (s\<lparr>sv_next := n\<rparr>) c' = phase_of s c'"
  "phase_of (s\<lparr>sv_alive := al\<rparr>) c' = phase_of s c'"
  "phase_of (s\<lparr>sv_busy := b\<rparr>) c' = phase_of s c'"
  "phase_of (s\<lparr>sv_chan := ch\<rparr>) c' = phase_of s c'"
  "phase_of (s\<lparr>sv_reply := rp\<rparr>) c' = phase_of s c'"
  "phase_of (s\<lparr>sv_world := w\<rparr>) c' = phase_of s c'"
  "phase_of (s\<lparr>sv_conns := cs\<rparr>) c' = cn_phase (cs c')"
  by (simp_all add: phase_of_def log_events_def set_phase_def)

lemma server_simps [simp]:
  "sv_next (log_events c es s) = sv_next s" "sv_alive (log_events c es s) = sv_alive s"
  "sv_queue (log_events c es s) = sv_queue s" "sv_busy (log_events c es s) = sv_busy s"
  "sv_chan (log_events c es s) = sv_chan s" "sv_reply (log_events c es s) = sv_reply s"
  "sv_conns (log_events c es s) = sv_conns s"
  "sv_log (log_events c es s) = (sv_log s)(c := sv_log s c @ es)"
  "sv_next (set_phase c ph s) = sv_next s" "sv_alive (set_phase c ph s) = sv_alive s"
  "sv_queue (set_phase c ph s) = sv_queue s" "sv_busy (set_phase c ph s) = sv_busy s"
  "sv_chan (set_phase c ph s) = sv_chan s" "sv_reply (set_phase c ph s) = sv_reply s"
  "sv_log (set_phase c ph s) = sv_log s"
  "cn_handshake (sv_conns (set_phase c ph s) c') = cn_handshake (sv_conns s c')"
  by (simp_all add: log_events_def set_phase_def)

lemma receive_phase:
  assumes "receive env st cn m = (cn', frames, q)"
  shows "cn_phase cn' = cn_phase cn \<or> cn_phase cn' = Closed"
  using assms by (cases m) (auto split: if_splits sum.splits)

lemma ticket_inv_step: "server_step env cutoff who s s' \<Longrightarrow> ticket_inv s \<Longrightarrow> wait_inv s \<Longrightarrow> ticket_inv s'"
proof (induction rule: server_step.induct)
  case (step_ask s c st m cn frames rid kd)
  then have "\<forall>e \<in> set (sv_queue s). fst e < Suc (sv_next s)" by (auto simp: ticket_inv_def pending_def less_Suc_eq)
  with step_ask show ?case by (auto simp: ticket_inv_def pending_def split: option.splits)
next
  case (step_take s k kd q r evs w)
  then show ?case by (auto simp: ticket_inv_def pending_def)
next
  case (step_emit s k kd ev evs r w)
  then show ?case by (auto simp: ticket_inv_def pending_def)
next
  case (step_finish s k kd r w)
  then show ?case by (auto simp: ticket_inv_def pending_def)
next
  case (step_cancel s k event evs r w w')
  then show ?case by (auto simp: ticket_inv_def pending_def)
next
  case (step_worker_dies s w')
  then show ?case by (auto simp: ticket_inv_def pending_def AGENT_QUEUE_CAPACITY_def)
qed (auto simp: ticket_inv_def pending_def)

lemma wait_inv_step: "server_step env cutoff who s s' \<Longrightarrow> wait_inv s \<Longrightarrow> wait_inv s'"
proof (induction rule: server_step.induct)
  case (step_receive s c st m cn frames)
  then have "cn_phase cn = Reading \<or> cn_phase cn = Closed"
    using receive_phase by (fastforce simp: phase_of_def)
  with step_receive show ?case by (auto simp: wait_inv_def phase_of_def split: if_splits)
next
  case (step_ask s c st m cn frames rid kd)
  then show ?case by (fastforce simp: wait_inv_def split: if_splits)
qed (fastforce simp: wait_inv_def split: if_splits)+

lemma work_fits:
  assumes "work env kd w = (r, evs, w')"
  shows "reply_fits kd r" and "named kd evs"
proof -
  have hist: "reply_fits ReqHistory (history_reply q)" "reply_fits ReqReset (history_reply q)" for q
    by (cases q; simp add: history_reply_def)+
  show "reply_fits kd r"
    using assms hist
    by (cases kd) (auto simp: work_input_def Let_def split: prod.splits option.splits sum.splits)
  show "named kd evs"
  proof (cases kd)
    case (ReqInput event)
    obtain r1 evs1 w1 where p: "process_with_progress (se_serde env) (se_deps env) (se_limits env) event w
        = (r1, evs1, w1)" by (metis prod.exhaust)
    then have "evs = evs1"
      using assms ReqInput by (auto simp: work_input_def Let_def split: prod.splits option.splits sum.splits)
    with process_events_named [OF p] ReqInput show ?thesis by simp
  qed (use assms in \<open>auto split: prod.splits\<close>)
qed

lemma named_append: "named kd (evs @ [ev]) \<longleftrightarrow> named kd evs \<and> named kd [ev]"
  by (cases kd) auto

lemma named_Cons: "named kd (ev # evs) \<longleftrightarrow> named kd [ev] \<and> named kd evs"
  by (cases kd) auto

lemma named_Nil [simp]: "named kd []"
  by (cases kd) auto

lemmas kind_invD = kind_inv_def [THEN iffD1, THEN conjunct1, rule_format]

lemma waits_elsewhere:
  assumes "kind_inv s" and "sv_busy s = Some (k, kd, evs, r, w)" and "phase_of s c = Awaiting ka rid kda"
    and "ka \<noteq> k" and "sv_alive s"
  shows "ka \<in> fst ` set (sv_queue s) \<or> (\<exists>y. sv_reply s ka = Some y)"
proof -
  have "ka \<in> set (pending s) \<or> sv_reply s ka \<noteq> None"
    using kind_invD [OF assms(1,3)] assms(5) by blast
  with assms(2,4) show ?thesis by (auto simp: pending_def)
qed

lemma kind_inv_step:
  assumes "server_step env cutoff who s s'" and "ticket_inv s" and "wait_inv s" and "kind_inv s"
  shows "kind_inv s'"
  using assms
proof (induction rule: server_step.induct)
  case (step_receive s c st m cn frames)
  then have "cn_phase cn = Reading \<or> cn_phase cn = Closed"
    using receive_phase by (fastforce simp: phase_of_def)
  with step_receive show ?case
    by (auto simp: kind_inv_def pending_def phase_of_def split: if_splits)
next
  case (step_ask s c st m cn frames rid kd)
  have "sv_reply s (sv_next s) = None" "sv_chan s (sv_next s) = []" "sv_next s \<notin> set (pending s)"
      "\<And>c k rid kd. phase_of s c = Awaiting k rid kd \<Longrightarrow> k \<noteq> sv_next s"
    using step_ask by (fastforce simp: ticket_inv_def wait_inv_def)+
  with step_ask show ?case
    by (auto simp: kind_inv_def pending_def image_iff split: if_splits option.splits)
next
  case (step_progress s c k rid kd ev evs)
  have "named kd' evs" if "phase_of s c' = Awaiting k rid' kd'" for c' rid' kd'
  proof -
    have "named kd' (sv_chan s k)" using that step_progress.prems by (auto simp: kind_inv_def)
    then show ?thesis using step_progress(2) named_Cons [of kd' ev evs] by simp
  qed
  with step_progress show ?case by (auto simp: kind_inv_def pending_def)
next
  case (step_take s k kd q r evs w)
  then show ?case
    using work_fits [OF step_take(4)] by (auto simp: kind_inv_def pending_def)
next
  case (step_emit s k kd ev evs r w)
  then have "named kd (ev # evs)" by (auto simp: kind_inv_def)
  then have "named kd [ev]" "named kd evs" using named_Cons [of kd ev evs] by simp_all
  with step_emit show ?case by (auto simp: kind_inv_def pending_def named_append)
next
  case (step_finish s k kd r w)
  from step_finish have "ka \<in> fst ` set (sv_queue s) \<or> (\<exists>y. sv_reply s ka = Some y)"
    if "phase_of s c = Awaiting ka rid kda" "ka \<noteq> k" "sv_alive s" for c ka rid kda
    using that by (rule_tac waits_elsewhere)
  with step_finish show ?case by (auto simp: kind_inv_def pending_def)
next
  case (step_cancel s k event evs r w w')
  have "ka \<in> fst ` set (sv_queue s) \<or> (\<exists>y. sv_reply s ka = Some y)"
    if "phase_of s c = Awaiting ka rid kda" "sv_alive s" for c ka rid kda
  proof -
    have "ka \<noteq> k" using that(1) step_cancel(2) by (auto simp: waited_for_def)
    then show ?thesis using waits_elsewhere [OF step_cancel(6,1) that(1) _ that(2)] by blast
  qed
  with step_cancel show ?case by (auto simp: kind_inv_def pending_def waited_for_def)
qed (auto simp: kind_inv_def pending_def split: if_splits)

text \<open>One message: what is sent at once is what is owed for it, and a request is queued under its own id.\<close>

lemma request_action_id:
  assumes "parse_rpc_request sj t = Inr r"
  shows "request_action sj st t = Inl resp \<Longrightarrow> rs_id resp = rq_id r"
    and "request_action sj st t = Inr (rid, kd) \<Longrightarrow> rid = rq_id r"
  using assms
  by (auto simp: request_action_def response_error_def rpc_ping_def rpc_success_def raw_success_def split: if_splits sum.splits)

lemma request_action_bad:
  assumes "parse_rpc_request sj t = Inl e"
  shows "request_action sj st t = Inl (response_error None e)"
  using assms by (simp add: request_action_def)

lemma error_without_id [simp]:
  "rs_id (response_error None e) = JNull" "rs_result (response_error None e) = None"
  by (simp_all add: response_error_def)

lemma receive_frames:
  assumes "receive env st cn m = (cn', frames, None)" and "talk_of env es = Some (at_rest (cn_handshake cn))"
  shows "talk_of env (es @ Got m # map Sent frames) = Some (at_rest (cn_handshake cn'))"
  using assms
proof (cases m)
  case (MText t)
  show ?thesis
  proof (cases "parse_rpc_request (se_serde env) t")
    case (Inl e)
    with assms MText request_action_bad [OF Inl] show ?thesis by (auto simp: at_rest_def split: if_splits sum.splits)
  next
    case (Inr r)
    with assms MText request_action_id(1) [OF Inr, of st] show ?thesis
      by (auto simp: at_rest_def split: if_splits sum.splits)
  qed
qed (use assms in \<open>auto simp: at_rest_def split: if_splits\<close>)

lemma receive_request:
  assumes "receive env st cn m = (cn', frames, Some (rid, kd))"
  shows "cn_handshake cn" and "owed (se_serde env) (se_codec env) True m = Answer_Due rid"
  using assms
  by (cases m; auto simp: request_action_bad split: if_splits sum.splits dest: request_action_id)+

lemma answer_id [simp]: "rs_id (answer rid kd r) = rid" "rs_id (no_reply rid) = rid" "rs_id (no_worker rid) = rid"
  by (induction rid kd r rule: answer.induct)
    (simp_all add: response_error_def rpc_success_def raw_success_def no_reply_def no_worker_def)

lemma talk_of_drained:
  "talk_of env es = Some (Working rid kd) \<Longrightarrow> named kd evs \<Longrightarrow>
     talk_of env (es @ map (Sent \<circ> FProgress) evs) = Some (Working rid kd)"
proof (induction evs rule: rev_induct)
  case (snoc ev evs)
  then show ?case by (simp add: named_append flip: append_assoc)
qed simp

lemma talk_inv_answer:
  assumes "phase_of s c = Awaiting k rid kd" and "kind_inv s" and "talk_inv env s" and "rs_id r = rid"
  shows "talk_ok env ((sv_conns s c)\<lparr>cn_phase := Reading\<rparr>) (sv_log s c @ drained s k @ [Sent (FResponse r)])"
proof -
  have "talk_of env (sv_log s c) = Some (Working rid kd)" "cn_handshake (sv_conns s c)"
    using assms(1,3) by (auto dest: talk_invD)
  moreover have "named kd (sv_chan s k)" using assms(1,2) by (auto simp: kind_inv_def)
  ultimately show ?thesis
    using talk_of_drained [of env "sv_log s c" rid kd "sv_chan s k"] assms(4)
    by (simp add: talk_ok_def drained_def at_rest_def flip: append_assoc)
qed

lemma talk_inv_step:
  assumes "server_step env cutoff who s s'" and "kind_inv s" and "talk_inv env s"
  shows "talk_inv env s'"
  using assms
proof (induction rule: server_step.induct)
  case (step_receive s c st m cn frames)
  then have "cn_phase cn = Reading \<or> cn_phase cn = Closed"
    using receive_phase [OF step_receive(2)] by (auto simp: phase_of_def)
  with receive_frames [OF step_receive(2) talk_invD(1) [OF step_receive(4,1)]]
  have "talk_ok env cn (sv_log s c @ Got m # map Sent frames)" by (auto simp: talk_ok_def)
  then show ?case by (intro talk_invI [where c = c, OF step_receive(4)]) simp_all
next
  case (step_ask s c st m cn frames rid kd)
  then have "talk_ok env ((sv_conns s c)\<lparr>cn_phase := Awaiting (sv_next s) rid kd\<rparr>) (sv_log s c @ [Got m, Asked rid kd])"
    using receive_request [OF step_ask(2)] talk_invD(1) [OF step_ask(6,1)] by (simp add: talk_ok_def at_rest_def)
  then show ?case by (intro talk_invI [where c = c, OF step_ask(6)]) (simp_all add: set_phase_def)
next
  case (step_no_worker s c st m cn frames rid kd)
  then have "talk_ok env (sv_conns s c) (sv_log s c @ [Got m, Sent (FResponse (no_worker rid))])"
    using receive_request [OF step_no_worker(2)] talk_invD(1) [OF step_no_worker(5,1)]
    by (simp add: talk_ok_def phase_of_def at_rest_def)
  then show ?case by (intro talk_invI [where c = c, OF step_no_worker(5)]) simp_all
next
  case (step_send_fails s c)
  then have "talk_ok env ((sv_conns s c)\<lparr>cn_phase := Closed\<rparr>) (sv_log s c)"
    using talk_invD(1) [OF step_send_fails(3,1)] by (simp add: talk_ok_def)
  then show ?case by (intro talk_invI [where c = c, OF step_send_fails(3)]) (simp_all add: set_phase_def)
next
  case (step_answer s c k rid kd r)
  show ?case
    by (intro talk_invI [where c = c, OF step_answer(4)])
      (use talk_inv_answer [OF step_answer(1,3,4)] in \<open>simp_all add: set_phase_def\<close>)
next
  case (step_no_reply s c k rid kd)
  show ?case
    by (intro talk_invI [where c = c, OF step_no_reply(5)])
      (use talk_inv_answer [OF step_no_reply(1,4,5)] in \<open>simp_all add: set_phase_def\<close>)
next
  case (step_progress s c k rid kd ev evs)
  have "named kd (sv_chan s k)" using step_progress(1,3) by (auto simp: kind_inv_def)
  then have "named kd [ev]" by (simp add: step_progress(2) named_Cons [of kd ev evs])
  then have "talk_ok env (sv_conns s c) (sv_log s c @ [Sent (FProgress ev)])"
    using talk_invD(2,3) [OF step_progress(4,1)] step_progress(1) by (simp add: talk_ok_def phase_of_def)
  then show ?case by (intro talk_invI [where c = c, OF step_progress(4)]) simp_all
next
  case (step_ignore s c k rid event m)
  then have "talk_ok env (sv_conns s c) (sv_log s c @ [Got m])"
    using talk_invD(2,3) [OF step_ignore(4,1)] by (simp add: talk_ok_def phase_of_def)
  then show ?case by (intro talk_invI [where c = c, OF step_ignore(4)]) simp_all
next
  case (step_abandon s c k rid event)
  have "talk_ok env ((sv_conns s c)\<lparr>cn_phase := Reading\<rparr>) (sv_log s c @ [Dropped])"
    using talk_invD(2,3) [OF step_abandon(3,1)] by (simp add: talk_ok_def at_rest_def)
  then show ?case by (intro talk_invI [where c = c, OF step_abandon(3)]) (simp_all add: set_phase_def)
qed (simp_all add: talk_inv_def)

lemma reachable_inv:
  "reachable env cutoff w0 s \<Longrightarrow> ticket_inv s \<and> wait_inv s \<and> kind_inv s \<and> talk_inv env s"
proof (induction rule: reachable.induct)
  case reach_start
  show ?case
    by (simp add: ticket_inv_def wait_inv_def kind_inv_def talk_inv_def talk_ok_def at_rest_def rpc_router_def phase_of_def
        fresh_conn_def pending_def)
next
  case (reach_step s who s')
  then show ?case using ticket_inv_step wait_inv_step kind_inv_step talk_inv_step by blast
qed

definition sample_env :: "nat server_env" where
  "sample_env =
     \<lparr>se_serde = sample_serde\<lparr>de_str := (\<lambda>t. if t = ''input'' then Inr sample_request else Inl ''bad'')\<rparr>,
      se_codec = \<lparr>de_handshake = (\<lambda>t. if t = ''hello'' then
           Inr \<lparr>hs_frame_type = ''reshape.rpc.handshake'', hs_protocol_version = ''1.0'',
                hs_client = \<lparr>client_name = ''c'', client_version = ''1''\<rparr>,
                hs_tab = \<lparr>tab_id = None, tab_url = None, tab_title = None\<rparr>\<rparr> else Inl ''no''),
         ser_response = (\<lambda>r. Inr ''r''), ser_progress = (\<lambda>e. Inr ''p''), ser_ack = (\<lambda>a. Inr ''a'')\<rparr>,
      se_deps = \<lparr>llm_chat = (\<lambda>ms ds opts w. (Inr \<lparr>resp_content = ''done'', resp_tool_calls = []\<rparr>, w)),
         tools_definitions = [], tools_execute = (\<lambda>n a w. (Inl (UnknownTool n), w)),
         sessions_load = (\<lambda>w. (Inr default_session, w)), sessions_save = (\<lambda>s w. (Inr (), Suc w)),
         record_event = (\<lambda>n w. w), fresh_stamps = (\<lambda>w. ((''m'', ''t'', 0), w)), system_prompt = ''be kind''\<rparr>,
      se_limits = \<lparr>max_tool_iterations = 1, max_tool_calls = 1\<rparr>, se_root = None,
      se_fs = (\<lambda>w. Dir []), se_mtime = (\<lambda>w p. None), se_render = None,
      se_reload = (\<lambda>w. (Inr (), w)), se_open_url = (\<lambda>u w. (Inr (), w))\<rparr>"

text \<open>C18: what every client sees, in every state the server can reach, with any number of clients and
  any interleaving. The log of a connection holds the messages the server has read from it and the
  frames it has sent; the statement is that it is a run of the automaton \<open>talk_next\<close>. So nothing is
  ever sent unasked: before the handshake every text or binary message gets exactly one frame, the
  acknowledgement or an error without an id; after it, a request that parses gets exactly one
  response, with the id of that request, and a message that is no request exactly one error without
  an id, in both cases before the next message is taken up. Progress notifications come only while
  an input of this client is worked on, and only those of its own turn; messages read meanwhile are
  ignored; an input the client gives up gets no response. A connection that reads has no answer
  outstanding, and one that waits has the outstanding request it waits for. The queue never holds
  more than 32 requests, and the branches for an answer of the wrong kind are never taken.\<close>

theorem server_conversations:
  assumes "reachable env cutoff w0 s"
  shows "talk_of env (sv_log s c) \<noteq> None
    \<and> (phase_of s c = Reading \<longrightarrow>
         talk_of env (sv_log s c) = Some (if cn_handshake (sv_conns s c) then Idle else Silent))
    \<and> (\<forall>k rid kd. phase_of s c = Awaiting k rid kd \<longrightarrow> talk_of env (sv_log s c) = Some (Working rid kd))
    \<and> length (sv_queue s) \<le> AGENT_QUEUE_CAPACITY
    \<and> (\<forall>k rid kd r. phase_of s c = Awaiting k rid kd \<longrightarrow> sv_reply s k = Some r \<longrightarrow> reply_fits kd r)"
proof -
  note inv = reachable_inv [OF assms]
  then have "talk_inv env s" by blast
  note talk_invD [OF this, of c]
  with inv show ?thesis by (auto simp: ticket_inv_def kind_inv_def at_rest_def)
qed

text \<open>The server on its own: no message of a client is needed and nothing fails.\<close>

abbreviation serves :: "'w server_env \<Rightarrow> (input_event envelope \<Rightarrow> 'w \<Rightarrow> 'w \<Rightarrow> bool) \<Rightarrow> 'w server \<Rightarrow> 'w server \<Rightarrow> bool" where
  "serves env cutoff \<equiv> (server_step env cutoff Server)\<^sup>*\<^sup>*"

definition same_clients :: "'w server \<Rightarrow> 'w server \<Rightarrow> bool" where
  "same_clients s s' \<longleftrightarrow> sv_conns s' = sv_conns s \<and> sv_log s' = sv_log s \<and> sv_alive s' = sv_alive s"

lemma worker_finishes:
  assumes "sv_busy s = Some (k, kd, evs, r, w)"
  shows "\<exists>s'. serves env cutoff s s' \<and> same_clients s s' \<and> sv_busy s' = None \<and> sv_queue s' = sv_queue s
    \<and> sv_reply s' = (sv_reply s)(k := Some r)"
  using assms
proof (induction evs arbitrary: s)
  case Nil
  from server_step.step_finish [OF Nil] show ?case
    by (intro exI conjI, rule r_into_rtranclp) (simp_all add: same_clients_def)
next
  case (Cons ev evs)
  let ?s = "s\<lparr>sv_chan := (sv_chan s)(k := sv_chan s k @ [ev]), sv_busy := Some (k, kd, evs, r, w)\<rparr>"
  have st: "server_step env cutoff Server s ?s" by (rule server_step.step_emit [OF Cons.prems])
  have "sv_busy ?s = Some (k, kd, evs, r, w)" by simp
  from Cons.IH [OF this] obtain s' where "serves env cutoff ?s s'" "same_clients ?s s'" "sv_busy s' = None"
      "sv_queue s' = sv_queue ?s" "sv_reply s' = (sv_reply ?s)(k := Some r)" by blast
  with st show ?case
    by (intro exI [of _ s'] conjI, rule_tac converse_rtranclp_into_rtranclp) (simp_all add: same_clients_def)
qed

lemma worker_reaches:
  assumes "sv_alive s" and "sv_busy s = None" and "sv_queue s = pre @ (k, kd) # post"
  shows "\<exists>s'. serves env cutoff s s' \<and> same_clients s s' \<and> sv_reply s' k \<noteq> None"
  using assms
proof (induction pre arbitrary: s)
  case Nil
  obtain r evs w where wk: "work env kd (sv_world s) = (r, evs, w)" by (metis prod.exhaust)
  let ?s = "s\<lparr>sv_queue := post, sv_busy := Some (k, kd, evs, r, w)\<rparr>"
  have st: "server_step env cutoff Server s ?s"
    using Nil wk by (intro server_step.step_take) simp_all
  from worker_finishes [of ?s] obtain s' where "serves env cutoff ?s s'" "same_clients ?s s'"
      "sv_reply s' = (sv_reply ?s)(k := Some r)" by fastforce
  with st show ?case
    by (intro exI [of _ s'] conjI, rule_tac converse_rtranclp_into_rtranclp) (simp_all add: same_clients_def)
next
  case (Cons e pre)
  obtain k1 kd1 where e: "e = (k1, kd1)" by (cases e)
  obtain r evs w where wk: "work env kd1 (sv_world s) = (r, evs, w)" by (metis prod.exhaust)
  let ?s = "s\<lparr>sv_queue := pre @ (k, kd) # post, sv_busy := Some (k1, kd1, evs, r, w)\<rparr>"
  have st: "server_step env cutoff Server s ?s"
    using Cons.prems wk e by (intro server_step.step_take) simp_all
  from worker_finishes [of ?s] obtain s1 where s1: "serves env cutoff ?s s1" "same_clients ?s s1"
      "sv_busy s1 = None" "sv_queue s1 = sv_queue ?s" by fastforce
  with Cons.IH [of s1] Cons.prems obtain s' where "serves env cutoff s1 s'" "same_clients s1 s'" "sv_reply s' k \<noteq> None"
    by (auto simp: same_clients_def)
  moreover from st s1(1) \<open>serves env cutoff s1 s'\<close> have "serves env cutoff s s'"
    by (meson converse_rtranclp_into_rtranclp rtranclp_trans)
  ultimately show ?case using s1(2) by (auto simp: same_clients_def)
qed

lemma worker_answers:
  assumes "sv_alive s" and "k \<in> set (pending s)"
  shows "\<exists>s'. serves env cutoff s s' \<and> same_clients s s' \<and> sv_reply s' k \<noteq> None"
proof (cases "sv_busy s")
  case None
  with assms(2) obtain kd where "(k, kd) \<in> set (sv_queue s)" by (auto simp: pending_def)
  then obtain pre post where "sv_queue s = pre @ (k, kd) # post" by (auto dest: split_list)
  with assms(1) None show ?thesis by (rule_tac worker_reaches)
next
  case (Some b)
  obtain k1 kd1 evs r w where b: "sv_busy s = Some (k1, kd1, evs, r, w)" using Some by (metis prod.exhaust)
  from worker_finishes [OF b] obtain s1 where s1: "serves env cutoff s s1" "same_clients s s1"
      "sv_busy s1 = None" "sv_queue s1 = sv_queue s" "sv_reply s1 = (sv_reply s)(k1 := Some r)" by blast
  show ?thesis
  proof (cases "k = k1")
    case True
    with s1 show ?thesis by auto
  next
    case False
    with assms(2) b obtain kd where "(k, kd) \<in> set (sv_queue s1)" by (auto simp: pending_def s1(4))
    then obtain pre post where "sv_queue s1 = pre @ (k, kd) # post" by (auto dest: split_list)
    with worker_reaches [of s1 pre k kd post env cutoff] assms(1) s1 obtain s' where
        "serves env cutoff s1 s'" "same_clients s1 s'" "sv_reply s' k \<noteq> None"
      by (auto simp: same_clients_def)
    with s1 show ?thesis by (auto simp: same_clients_def intro: rtranclp_trans)
  qed
qed

text \<open>C19: every request can be answered. From any state the server can reach, a client that waits for
  an answer gets one by steps of the server alone, without another message of any client: one response
  with the id of the request, after the remaining progress notifications. This holds whatever is
  before it in the queue, and also when the worker has died.\<close>

theorem every_request_is_answerable:
  assumes "reachable env cutoff w0 s" and "phase_of s c = Awaiting k rid kd"
  shows "\<exists>s' evs r. serves env cutoff s s' \<and> phase_of s' c = Reading \<and> rs_id r = rid
    \<and> sv_log s' c = sv_log s c @ map (Sent \<circ> FProgress) evs @ [Sent (FResponse r)]"
proof -
  have wait: "sv_alive s \<Longrightarrow> sv_reply s k = None \<Longrightarrow> k \<in> set (pending s)"
    using reachable_inv [OF assms(1)] kind_invD [OF _ assms(2)] by blast
  have answered: ?thesis if "serves env cutoff s s1" "same_clients s s1" "sv_reply s1 k \<noteq> None \<or> \<not> sv_alive s1" for s1
  proof -
    have ph: "phase_of s1 c = Awaiting k rid kd" using that(2) assms(2) by (simp add: same_clients_def phase_of_def)
    have "\<exists>r. server_step env cutoff Server s1 (log_events c (drained s1 k @ [Sent (FResponse r)])
        (set_phase c Reading (s1\<lparr>sv_chan := (sv_chan s1)(k := [])\<rparr>))) \<and> rs_id r = rid"
    proof (cases "sv_reply s1 k")
      case None
      with that(3) server_step.step_no_reply [OF ph None] show ?thesis using answer_id(2) by blast
    next
      case (Some rp)
      with server_step.step_answer [OF ph Some] show ?thesis using answer_id(1) by blast
    qed
    then obtain r where r: "server_step env cutoff Server s1 (log_events c (drained s1 k @ [Sent (FResponse r)])
        (set_phase c Reading (s1\<lparr>sv_chan := (sv_chan s1)(k := [])\<rparr>)))" "rs_id r = rid" by blast
    let ?s' = "log_events c (drained s1 k @ [Sent (FResponse r)]) (set_phase c Reading (s1\<lparr>sv_chan := (sv_chan s1)(k := [])\<rparr>))"
    have "serves env cutoff s ?s'" using that(1) r(1) by (rule rtranclp.rtrancl_into_rtrancl)
    moreover have "sv_log ?s' c = sv_log s c @ map (Sent \<circ> FProgress) (sv_chan s1 k) @ [Sent (FResponse r)]"
      using that(2) by (simp add: same_clients_def drained_def)
    ultimately show ?thesis using r(2) by (intro exI [of _ ?s'] exI [of _ "sv_chan s1 k"] exI [of _ r]) simp
  qed
  show ?thesis
  proof (cases "sv_reply s k = None \<and> sv_alive s")
    case True
    with wait have "k \<in> set (pending s)" by simp
    with True worker_answers [of s k env cutoff] obtain s1 where
        "serves env cutoff s s1" "same_clients s s1" "sv_reply s1 k \<noteq> None" by blast
    then show ?thesis by (intro answered [of s1]) simp_all
  next
    case False
    then show ?thesis by (intro answered [of s]) (auto simp: same_clients_def)
  qed
qed

text \<open>A run with one client: it shakes hands, asks, and waits.\<close>

lemma sample_run:
  "\<exists>s event. reachable sample_env cutoff 0 s \<and> phase_of s 5 = Awaiting 0 (JStr ''7'') (ReqInput event)
     \<and> sv_alive s \<and> sv_log s 5 = [Got (MText ''hello''), Sent FAck, Got (MText ''input''), Asked (JStr ''7'') (ReqInput event)]"
proof -
  let ?s0 = "rpc_router 0 :: nat server"
  let ?cn = "fresh_conn\<lparr>cn_handshake := True\<rparr>"
  let ?s1 = "log_events 5 (Got (MText ''hello'') # map Sent [FAck]) (?s0\<lparr>sv_conns := (sv_conns ?s0)(5 := ?cn)\<rparr>)"
  obtain event where ev: "receive sample_env (''m'', ''t'', 0) ?cn (MText ''input'')
      = (?cn, [], Some (JStr ''7'', ReqInput event))"
  proof -
    have "\<exists>event. request_action (se_serde sample_env) (''m'', ''t'', 0) ''input'' = Inr (JStr ''7'', ReqInput event)"
    proof -
      have "case request_action (se_serde sample_env) (''m'', ''t'', 0) ''input'' of
          Inr (JStr t, ReqInput event) \<Rightarrow> t = ''7'' | _ \<Rightarrow> False" by code_simp
      then show ?thesis by (auto split: sum.splits prod.splits json.splits agent_request_kind.splits)
    qed
    with that show ?thesis by (auto simp: fresh_conn_def)
  qed
  have h: "receive sample_env (''m'', ''t'', 0) fresh_conn (MText ''hello'') = (?cn, [FAck], None)"
    by code_simp
  have r1: "reachable sample_env cutoff 0 ?s1"
    by (rule reachable.reach_step [OF reachable.reach_start],
        rule server_step.step_receive [where st = "(''m'', ''t'', 0)" and m = "MText ''hello''"])
      (use h in \<open>simp_all add: rpc_router_def phase_of_def fresh_conn_def\<close>)
  let ?s2 = "log_events 5 [Got (MText ''input''), Asked (JStr ''7'') (ReqInput event)] (set_phase 5 (Awaiting 0 (JStr ''7'') (ReqInput event))
       (?s1\<lparr>sv_queue := sv_queue ?s1 @ [(0, ReqInput event)], sv_next := Suc 0\<rparr>))"
  have "server_step sample_env cutoff Client ?s1 ?s2"
    using server_step.step_ask [of ?s1 5 sample_env "(''m'', ''t'', 0)" "MText ''input''" ?cn "[]" "JStr ''7''"
        "ReqInput event" cutoff] ev
    by (simp add: rpc_router_def phase_of_def fresh_conn_def AGENT_QUEUE_CAPACITY_def log_events_def)
  with r1 have "reachable sample_env cutoff 0 ?s2" by (rule reachable.reach_step)
  then show ?thesis by (intro exI [of _ ?s2] exI [of _ event]) (simp add: rpc_router_def)
qed

theorem server_conversations_witness:
  "\<exists>s. reachable sample_env (\<lambda>e w w'. w' = w) 0 s \<and> sv_log s 5 \<noteq> []
     \<and> talk_of sample_env (sv_log s 5) \<noteq> None \<and> length (sv_queue s) \<le> AGENT_QUEUE_CAPACITY"
proof -
  obtain s event where s: "reachable sample_env (\<lambda>e w w'. w' = w) 0 s"
      "sv_log s 5 = [Got (MText ''hello''), Sent FAck, Got (MText ''input''), Asked (JStr ''7'') (ReqInput event)]"
    using sample_run by blast
  with server_conversations [OF s(1), of 5] show ?thesis by (intro exI [of _ s]) simp
qed

theorem every_request_is_answerable_witness:
  "\<exists>s s' evs r event. reachable sample_env (\<lambda>e w w'. w' = w) 0 s
     \<and> phase_of s 5 = Awaiting 0 (JStr ''7'') (ReqInput event)
     \<and> serves sample_env (\<lambda>e w w'. w' = w) s s' \<and> rs_id r = JStr ''7''
     \<and> sv_log s' 5 = sv_log s 5 @ map (Sent \<circ> FProgress) evs @ [Sent (FResponse r)]"
proof -
  obtain s event where s: "reachable sample_env (\<lambda>e w w'. w' = w) 0 s"
      "phase_of s 5 = Awaiting 0 (JStr ''7'') (ReqInput event)"
    using sample_run by blast
  with every_request_is_answerable [OF s(1,2)] show ?thesis by blast
qed

end
