(* ===== verification/Cli_Config.thy ===== *)
theory Cli_Config
  imports Config Net_Address
begin

section \<open>Command line and configuration file\<close>

text \<open>
  The first half of \<open>reshape-cli/src/lib.rs\<close>: the command line options and their merge, the
  sections of the configuration file, what is read and written below the home directory, and the
  configuration of the application and of the server that results. The value of the command line
  is an argument; what \<open>clap\<close> does to get it is not modelled. The TOML parser is a parameter, as
  are the texts of the two page templates. Every operation that may create files returns the new
  tree.
\<close>

subsection \<open>Paths\<close>

text \<open>\<open>Path::join\<close>, and \<open>create_dir_all\<close> on the text of a path: the system gets the text, the parents
  are those of \<open>Path::parent\<close>.\<close>

definition path_join :: "string \<Rightarrow> string \<Rightarrow> string" where
  "path_join base name =
     (if is_absolute name then name
      else if base = '''' \<or> last base = slash then base @ name
      else base @ ''/'' @ name)"

definition made_text :: "string \<Rightarrow> string" where
  "made_text p = (if list_all (\<lambda>c. c = slash) p then p else trim_end_matches slash p)"

definition create_dir_path :: "apath \<Rightarrow> string \<Rightarrow> node \<Rightarrow> (io_error + unit) \<times> node" where
  "create_dir_path cwd p fs =
     (if p = '''' then (Inr (), fs)
      else case mkdir fs (abs_components cwd (made_text p)) of
        Inr fs1 \<Rightarrow> (Inr (), fs1)
      | Inl e \<Rightarrow>
          (if e = NotFound then
             (case path_parent (path_components p) of
                None \<Rightarrow> (Inl (OtherIo ''failed to create whole tree''), fs)
              | Some parent \<Rightarrow>
                  (case create_dir_all
                          (if is_absolute p then parent else RootDir # map Normal cwd @ parent) fs of
                     (Inl e', fs1) \<Rightarrow> (Inl e', fs1)
                   | (Inr u, fs1) \<Rightarrow>
                       (case mkdir fs1 (abs_components cwd (made_text p)) of
                          Inr fs2 \<Rightarrow> (Inr (), fs2)
                        | Inl e' \<Rightarrow> (if fs_is_dir fs1 (abs_components cwd p) then (Inr (), fs1)
                                   else (Inl e', fs1)))))
           else if fs_is_dir fs (abs_components cwd p) then (Inr (), fs)
           else (Inl e, fs)))"

subsection \<open>The command line\<close>

record agent_options =
  ao_workspace :: "string option"
  ao_config :: "string option"
  ao_model :: "string option"
  ao_render_browser :: bool
  ao_browser_session :: string
  ao_browser_headed :: bool
  ao_host :: "string option"
  ao_port :: "16 word option"

datatype cli_command = CmdAgent | CmdVersion | CmdWorkspaceClean | CmdWorkspaceInit

datatype workspace_subcommand = Clean agent_options | Init agent_options

datatype command_args = Agent agent_options | Version | Workspace workspace_subcommand

record cli_args =
  ca_agent :: agent_options
  ca_log_level :: "string option"
  ca_command :: "command_args option"

definition or_else :: "'a option \<Rightarrow> 'a option \<Rightarrow> 'a option" where
  "or_else a b = (case a of None \<Rightarrow> b | Some x \<Rightarrow> Some x)"

definition merge_options :: "agent_options \<Rightarrow> agent_options \<Rightarrow> agent_options" where
  "merge_options base over =
     \<lparr>ao_workspace = or_else (ao_workspace over) (ao_workspace base),
      ao_config = or_else (ao_config over) (ao_config base),
      ao_model = or_else (ao_model over) (ao_model base),
      ao_render_browser = (ao_render_browser base \<or> ao_render_browser over),
      ao_browser_session = (if ao_browser_session over \<noteq> ''reshape-main'' then ao_browser_session over
                            else ao_browser_session base),
      ao_browser_headed = (ao_browser_headed base \<or> ao_browser_headed over),
      ao_host = or_else (ao_host over) (ao_host base),
      ao_port = or_else (ao_port over) (ao_port base)\<rparr>"

definition agent_options :: "cli_args \<Rightarrow> agent_options" where
  "agent_options args =
     (case ca_command args of
        Some (Agent options) \<Rightarrow> merge_options (ca_agent args) options
      | Some (Workspace (Clean options)) \<Rightarrow> merge_options (ca_agent args) options
      | Some (Workspace (Init options)) \<Rightarrow> merge_options (ca_agent args) options
      | _ \<Rightarrow> ca_agent args)"

definition command_kind :: "cli_args \<Rightarrow> cli_command" where
  "command_kind args =
     (case ca_command args of
        Some Version \<Rightarrow> CmdVersion
      | Some (Workspace (Clean options)) \<Rightarrow> CmdWorkspaceClean
      | Some (Workspace (Init options)) \<Rightarrow> CmdWorkspaceInit
      | _ \<Rightarrow> CmdAgent)"

subsection \<open>The configuration file\<close>

record file_openai_config =
  fo_model :: "string option"
  fo_base_url :: "string option"
  fo_api_key :: "string option"
  fo_stream :: "bool option"
  fo_timeout_secs :: "nat option"
  fo_organization :: "string option"
  fo_project :: "string option"

record file_llm_config =
  fl_provider :: "string option"
  fl_openai :: "file_openai_config option"

record file_runtime_config =
  fr_max_tool_iterations :: "nat option"
  fr_max_tool_calls :: "nat option"

record file_server_config =
  fs_host :: "string option"
  fs_port :: "16 word option"

record file_tavily_config =
  fv_api_key :: "string option"
  fv_env_key :: "string option"
  fv_base_url :: "string option"
  fv_search_depth :: "string option"
  fv_max_results :: "nat option"
  fv_topic :: "string option"
  fv_include_answer :: "bool option"
  fv_include_images :: "bool option"
  fv_include_favicon :: "bool option"
  fv_timeout_secs :: "nat option"

record file_web_search_config =
  fw_enabled :: "bool option"
  fw_provider :: "string option"
  fw_tavily :: "file_tavily_config option"

record file_web_fetch_config =
  ff_enabled :: "bool option"
  ff_max_bytes :: "nat option"
  ff_timeout_secs :: "nat option"
  ff_max_redirects :: "nat option"
  ff_download_dir :: "string option"
  ff_allowed_content_types :: "string list option"
  ff_ssrf_allowlist :: "string list option"

record file_tools_config =
  ft_web_search :: "file_web_search_config option"
  ft_web_fetch :: "file_web_fetch_config option"

record file_config =
  fc_workspace :: "string option"
  fc_log_level :: "string option"
  fc_llm :: "file_llm_config option"
  fc_runtime :: "file_runtime_config option"
  fc_server :: "file_server_config option"
  fc_tools :: "file_tools_config option"

definition default_file_config :: file_config where
  "default_file_config =
     \<lparr>fc_workspace = None, fc_log_level = None, fc_llm = None, fc_runtime = None, fc_server = None,
      fc_tools = None\<rparr>"

text \<open>The working directory, the TOML parser and the two templates.\<close>

record cli_env =
  ce_cwd :: apath
  ce_toml :: "string \<Rightarrow> string + file_config"
  ce_index_html :: string
  ce_site_css :: string

definition abs_path :: "cli_env \<Rightarrow> string \<Rightarrow> pcomp list" where
  "abs_path env p = abs_components (ce_cwd env) p"

definition default_app_dir :: "string \<Rightarrow> string" where
  "default_app_dir home = path_join home ''.reshape''"

definition default_workspace_dir :: "string \<Rightarrow> string" where
  "default_workspace_dir home = path_join (default_app_dir home) ''workspace''"

definition default_session_path :: "string \<Rightarrow> string" where
  "default_session_path home = path_join (default_app_dir home) ''session-local-main.json''"

definition resolved_config_path :: "cli_args \<Rightarrow> string \<Rightarrow> string" where
  "resolved_config_path args home =
     unwrap_or (path_join (default_app_dir home) ''config.toml'') (ao_config (agent_options args))"

definition load_file_config :: "cli_env \<Rightarrow> string \<Rightarrow> bool \<Rightarrow> node \<Rightarrow> file_config result" where
  "load_file_config env path explicit fs =
     (if \<not> fs_exists fs (abs_path env path)
      then if explicit then Inl (Config (''config file does not exist: '' @ path))
           else Inr default_file_config
      else and_then (map_err Io (fs_read_to_string (abs_path env path) fs)) (\<lambda>c.
        map_err (\<lambda>e. Config (''failed to parse config TOML: '' @ e)) (ce_toml env c)))"

definition file_config_of :: "cli_env \<Rightarrow> cli_args \<Rightarrow> string \<Rightarrow> node \<Rightarrow> file_config result" where
  "file_config_of env args home fs =
     load_file_config env (resolved_config_path args home) (ao_config (agent_options args) \<noteq> None) fs"

definition resolved_log_level :: "cli_env \<Rightarrow> cli_args \<Rightarrow> string \<Rightarrow> node \<Rightarrow> string result" where
  "resolved_log_level env args home fs =
     (case ca_log_level args of
        Some level \<Rightarrow> Inr level
      | None \<Rightarrow> and_then (file_config_of env args home fs) (\<lambda>fc. Inr (unwrap_or ''info'' (fc_log_level fc))))"

definition resolve_workspace ::
    "cli_env \<Rightarrow> string \<Rightarrow> agent_options \<Rightarrow> file_config \<Rightarrow> node \<Rightarrow> string result \<times> node" where
  "resolve_workspace env home options fc fs =
     (case ao_workspace options of
        Some w \<Rightarrow> (validate_workspace (ce_cwd env) fs w, fs)
      | None \<Rightarrow>
          (case fc_workspace fc of
             Some w \<Rightarrow> (validate_workspace (ce_cwd env) fs w, fs)
           | None \<Rightarrow>
               (case create_dir_path (ce_cwd env) (default_workspace_dir home) fs of
                  (Inl e, fs1) \<Rightarrow> (Inl (Io e), fs1)
                | (Inr u, fs1) \<Rightarrow> (validate_workspace (ce_cwd env) fs1 (default_workspace_dir home), fs1))))"


subsection \<open>The configuration of the application\<close>

definition apply_runtime_file_config :: "file_runtime_config option \<Rightarrow> app_config \<Rightarrow> app_config" where
  "apply_runtime_file_config f c =
     (case f of
        None \<Rightarrow> c
      | Some r \<Rightarrow>
          c\<lparr>ac_runtime :=
             \<lparr>rc_max_tool_iterations =
                unwrap_or (rc_max_tool_iterations (ac_runtime c)) (fr_max_tool_iterations r),
              rc_max_tool_calls = unwrap_or (rc_max_tool_calls (ac_runtime c)) (fr_max_tool_calls r)\<rparr>\<rparr>)"

definition apply_openai_file_config :: "file_openai_config \<Rightarrow> openai_config \<Rightarrow> openai_config" where
  "apply_openai_file_config f c =
     \<lparr>oa_model = unwrap_or (oa_model c) (fo_model f),
      oa_base_url = unwrap_or (oa_base_url c) (fo_base_url f),
      oa_api_key = unwrap_or (oa_api_key c) (fo_api_key f),
      oa_stream = unwrap_or (oa_stream c) (fo_stream f),
      oa_timeout_secs = unwrap_or (oa_timeout_secs c) (fo_timeout_secs f),
      oa_organization = or_else (fo_organization f) (oa_organization c),
      oa_project = or_else (fo_project f) (oa_project c)\<rparr>"

definition apply_llm_file_config :: "file_llm_config option \<Rightarrow> app_config \<Rightarrow> app_config result" where
  "apply_llm_file_config f c =
     (case f of
        None \<Rightarrow> Inr c
      | Some l \<Rightarrow>
          and_then (case fl_provider l of None \<Rightarrow> Inr (lc_provider (ac_llm c)) | Some p \<Rightarrow> provider_try_from p)
            (\<lambda>provider.
              Inr (c\<lparr>ac_llm :=
                \<lparr>lc_provider = provider,
                 lc_openai = (case fl_openai l of
                                None \<Rightarrow> lc_openai (ac_llm c)
                              | Some o' \<Rightarrow> apply_openai_file_config o' (lc_openai (ac_llm c)))\<rparr>\<rparr>)))"

definition apply_tavily_file_config :: "file_tavily_config \<Rightarrow> tavily_config \<Rightarrow> tavily_config" where
  "apply_tavily_file_config f c =
     \<lparr>tv_api_key = unwrap_or (tv_api_key c) (fv_api_key f),
      tv_env_key = unwrap_or (tv_env_key c) (fv_env_key f),
      tv_base_url = unwrap_or (tv_base_url c) (fv_base_url f),
      tv_search_depth = unwrap_or (tv_search_depth c) (fv_search_depth f),
      tv_max_results = unwrap_or (tv_max_results c) (fv_max_results f),
      tv_topic = unwrap_or (tv_topic c) (fv_topic f),
      tv_include_answer = unwrap_or (tv_include_answer c) (fv_include_answer f),
      tv_include_images = unwrap_or (tv_include_images c) (fv_include_images f),
      tv_include_favicon = unwrap_or (tv_include_favicon c) (fv_include_favicon f),
      tv_timeout_secs = unwrap_or (tv_timeout_secs c) (fv_timeout_secs f)\<rparr>"

definition apply_search_file_config ::
    "file_web_search_config \<Rightarrow> web_search_config \<Rightarrow> web_search_config" where
  "apply_search_file_config f c =
     \<lparr>ws_enabled = unwrap_or (ws_enabled c) (fw_enabled f),
      ws_provider = unwrap_or (ws_provider c) (fw_provider f),
      ws_tavily = (case fw_tavily f of
                     None \<Rightarrow> ws_tavily c
                   | Some t \<Rightarrow> apply_tavily_file_config t (ws_tavily c))\<rparr>"

definition apply_fetch_file_config ::
    "file_web_fetch_config \<Rightarrow> web_fetch_config \<Rightarrow> web_fetch_config" where
  "apply_fetch_file_config f c =
     \<lparr>wf_enabled = unwrap_or (wf_enabled c) (ff_enabled f),
      wf_max_bytes = unwrap_or (wf_max_bytes c) (ff_max_bytes f),
      wf_timeout_secs = unwrap_or (wf_timeout_secs c) (ff_timeout_secs f),
      wf_max_redirects = unwrap_or (wf_max_redirects c) (ff_max_redirects f),
      wf_download_dir = unwrap_or (wf_download_dir c) (ff_download_dir f),
      wf_allowed_content_types = unwrap_or (wf_allowed_content_types c) (ff_allowed_content_types f),
      wf_ssrf_allowlist = unwrap_or (wf_ssrf_allowlist c) (ff_ssrf_allowlist f)\<rparr>"

definition apply_tools_file_config :: "file_tools_config option \<Rightarrow> app_config \<Rightarrow> app_config" where
  "apply_tools_file_config f c =
     (case f of
        None \<Rightarrow> c
      | Some t \<Rightarrow>
          c\<lparr>ac_tools :=
             \<lparr>tc_web_search = (case ft_web_search t of
                                 None \<Rightarrow> tc_web_search (ac_tools c)
                               | Some s \<Rightarrow> apply_search_file_config s (tc_web_search (ac_tools c))),
              tc_web_fetch = (case ft_web_fetch t of
                                None \<Rightarrow> tc_web_fetch (ac_tools c)
                              | Some s \<Rightarrow> apply_fetch_file_config s (tc_web_fetch (ac_tools c)))\<rparr>\<rparr>)"

subsection \<open>The home directory\<close>

definition default_config_toml :: "string \<Rightarrow> string" where
  \<open>default_config_toml workspace =
     join [CHR 0x0A]
       [''workspace = "'' @ utf8_lossy workspace @ ''"'',
        ''log_level = "info"'',
        '''',
        ''[llm]'',
        ''provider = "openai"'',
        '''',
        ''[llm.openai]'',
        ''model = "gpt-5.5"'',
        ''base_url = "https://api.openai.com/v1"'',
        ''api_key = ""'',
        ''stream = true'',
        ''timeout_secs = 120'',
        '''',
        ''[runtime]'',
        ''max_tool_iterations = 8'',
        ''max_tool_calls = 32'',
        '''',
        ''[server]'',
        ''host = "127.0.0.1"'',
        ''port = 7331'',
        '''',
        ''[tools.web_search]'',
        ''enabled = false'',
        ''provider = "tavily"'',
        '''',
        ''[tools.web_search.tavily]'',
        ''api_key = ""'',
        ''env_key = "TAVILY_API_KEY"'',
        ''base_url = "https://api.tavily.com"'',
        ''search_depth = "basic"'',
        ''max_results = 5'',
        ''topic = "general"'',
        ''include_answer = false'',
        ''include_images = false'',
        ''include_favicon = true'',
        ''timeout_secs = 15'',
        '''',
        ''[tools.web_fetch]'',
        ''enabled = false'',
        ''max_bytes = 52428800'',
        ''timeout_secs = 60'',
        ''max_redirects = 5'',
        ''download_dir = "assets/downloads"'',
        ''allowed_content_types = ['',
        ''  "image/png",'',
        ''  "image/jpeg",'',
        ''  "image/gif",'',
        ''  "image/webp",'',
        ''  "video/mp4",'',
        ''  "video/webm",'',
        ''  "audio/mpeg",'',
        ''  "audio/wav",'',
        ''  "application/pdf",'',
        '']'',
        ''ssrf_allowlist = []'',
        '''']\<close>

definition prepare_user_environment ::
    "cli_env \<Rightarrow> cli_args \<Rightarrow> string \<Rightarrow> node \<Rightarrow> unit result \<times> node" where
  "prepare_user_environment env args home fs =
     (case create_dir_path (ce_cwd env) (default_workspace_dir home) fs of
        (Inl e, fs1) \<Rightarrow> (Inl (Io e), fs1)
      | (Inr u, fs1) \<Rightarrow>
          (let config_path = path_join (default_app_dir home) ''config.toml''
           in if ao_config (agent_options args) \<noteq> None \<or> fs_exists fs1 (abs_path env config_path)
              then (Inr (), fs1)
              else case create_dir_path (ce_cwd env) (default_app_dir home) fs1 of
                (Inl e, fs2) \<Rightarrow> (Inl (Io e), fs2)
              | (Inr u, fs2) \<Rightarrow>
                  (case fs_write (abs_path env config_path) (default_config_toml (default_workspace_dir home)) fs2 of
                     (Inl e, fs3) \<Rightarrow> (Inl (Io e), fs3)
                   | (Inr u, fs3) \<Rightarrow> (Inr (), fs3))))"

definition into_config_with_home ::
    "cli_env \<Rightarrow> cli_args \<Rightarrow> string \<Rightarrow> node \<Rightarrow> app_config result \<times> node" where
  "into_config_with_home env args home fs =
     (case prepare_user_environment env args home fs of
        (Inl e, fs1) \<Rightarrow> (Inl e, fs1)
      | (Inr u, fs1) \<Rightarrow>
          (case file_config_of env args home fs1 of
             Inl e \<Rightarrow> (Inl e, fs1)
           | Inr fc \<Rightarrow>
               (case resolve_workspace env home (agent_options args) fc fs1 of
                  (Inl e, fs2) \<Rightarrow> (Inl e, fs2)
                | (Inr workspace, fs2) \<Rightarrow>
                    (and_then (config_for_workspace (ce_cwd env) fs2 workspace) (\<lambda>c0.
                       and_then (apply_llm_file_config (fc_llm fc) (apply_runtime_file_config (fc_runtime fc) c0)) (\<lambda>c1.
                         let c2 = apply_tools_file_config (fc_tools fc) c1
                         in Inr (case ao_model (agent_options args) of
                                   None \<Rightarrow> c2
                                 | Some m \<Rightarrow> with_model m c2))), fs2))))"

definition into_config :: "cli_env \<Rightarrow> cli_args \<Rightarrow> string option \<Rightarrow> node \<Rightarrow> app_config result \<times> node" where
  "into_config env args home fs =
     (case home of
        None \<Rightarrow> (Inl (Config ''could not determine user home directory''), fs)
      | Some h \<Rightarrow> into_config_with_home env args h fs)"

subsection \<open>The configuration of the server\<close>

record server_config =
  sc_host :: string
  sc_port :: "16 word"

definition invalid_host :: "server_config \<Rightarrow> reshape_error" where
  "invalid_host c = Config (''invalid server host '' @ sc_host c @ '': invalid IP address syntax'')"

definition server_validate :: "server_config \<Rightarrow> unit result" where
  "server_validate c =
     and_then (ok_or (invalid_host c) (parse_ip (sc_host c))) (\<lambda>ip.
       if \<not> ip_is_loopback ip
       then Inl (Config (''server host must be a loopback address, got '' @ sc_host c))
       else Inr ())"

definition bind_addr :: "server_config \<Rightarrow> (ip_addr \<times> 16 word) result" where
  "bind_addr c =
     and_then (ok_or (invalid_host c) (parse_ip (sc_host c))) (\<lambda>ip.
       and_then (server_validate c) (\<lambda>u. Inr (ip, sc_port c)))"

definition local_url :: "server_config \<Rightarrow> string" where
  "local_url c =
     (let host = (if CHR '':'' \<in> set (sc_host c) then ''['' @ sc_host c @ '']'' else sc_host c)
      in ''http://'' @ host @ '':'' @ show_nat (unat (sc_port c)) @ ''/'')"

definition server_config_with_home :: "cli_env \<Rightarrow> cli_args \<Rightarrow> string \<Rightarrow> node \<Rightarrow> server_config result" where
  "server_config_with_home env args home fs =
     and_then (file_config_of env args home fs) (\<lambda>fc.
       let options = agent_options args;
           file_server = unwrap_or \<lparr>fs_host = None, fs_port = None\<rparr> (fc_server fc);
           config = \<lparr>sc_host = unwrap_or ''127.0.0.1'' (or_else (ao_host options) (fs_host file_server)),
                     sc_port = unwrap_or 7331 (or_else (ao_port options) (fs_port file_server))\<rparr>
       in and_then (server_validate config) (\<lambda>u. Inr config))"


subsection \<open>Operations that only add\<close>

text \<open>What exists stays as it is, and no link is made.\<close>

definition only_adds :: "node \<Rightarrow> node \<Rightarrow> bool" where
  "only_adds fs fs' \<longleftrightarrow> (\<forall>q. stat_at fs q \<noteq> None \<longrightarrow> stat_at fs' q = stat_at fs q)
     \<and> (\<forall>q t. stat_at fs' q = Some (KLink t) \<longrightarrow> stat_at fs q = Some (KLink t))"

lemma only_adds_keeps: "only_adds a b \<Longrightarrow> stat_at a q \<noteq> None \<Longrightarrow> stat_at b q = stat_at a q"
  unfolding only_adds_def by blast

lemma only_adds_link: "only_adds a b \<Longrightarrow> stat_at b q = Some (KLink t) \<Longrightarrow> stat_at a q = Some (KLink t)"
  unfolding only_adds_def by blast

lemma only_adds_refl [simp]: "only_adds fs fs"
  by (simp add: only_adds_def)

lemma only_adds_trans: "only_adds a b \<Longrightarrow> only_adds b c \<Longrightarrow> only_adds a c"
  unfolding only_adds_def by metis

lemma only_adds_new_dirs: "only_new_dirs a b \<Longrightarrow> only_adds a b"
  unfolding only_new_dirs_def only_adds_def by (metis kind.distinct(6) option.inject)

lemma only_adds_root: "only_adds a b \<Longrightarrow> stat_at a [] = Some KDir \<Longrightarrow> stat_at b [] = Some KDir"
  by (simp add: only_adds_keeps)

lemma only_adds_canonicalize: "only_adds a b \<Longrightarrow> canonicalize a cs = Inr p \<Longrightarrow> canonicalize b cs = Inr p"
  unfolding canonicalize_def by (erule walk_agree) (rule only_adds_keeps)

lemma only_adds_metadata: "only_adds a b \<Longrightarrow> metadata_of a cs = Inr k \<Longrightarrow> metadata_of b cs = Inr k"
  by (auto simp: metadata_of_def and_then_Inr_iff only_adds_canonicalize only_adds_keeps)

lemma only_adds_is_dir: "only_adds a b \<Longrightarrow> fs_is_dir a cs \<Longrightarrow> fs_is_dir b cs"
  by (auto simp: fs_is_dir_def only_adds_metadata)

lemma only_adds_exists: "only_adds a b \<Longrightarrow> fs_exists a cs \<Longrightarrow> fs_exists b cs"
  by (auto simp: fs_exists_def dest: only_adds_metadata split: sum.splits)

lemma create_dir_path_only_adds: "create_dir_path cwd p fs = (r, fs') \<Longrightarrow> only_adds fs fs'"
  unfolding create_dir_path_def
  by (auto dest!: mkdir_only_new_dirs create_dir_all_only_new_dirs
      intro: only_adds_new_dirs only_new_dirs_trans
      split: if_splits sum.splits option.splits prod.splits)

lemma walk_found_if_exists:
  "walk True fs k cur cs = Inr p \<Longrightarrow> stat_at fs p \<noteq> None \<Longrightarrow> walk False fs k cur cs = Inr p"
  by (induction True fs k cur cs rule: walk.induct)
    (auto split: if_splits option.splits kind.splits nat.splits)

lemma walk_new_file:
  assumes "walk True fs k cur cs = Inr p" and "stat_at fs p = None"
    and "\<And>q. stat_at fs' q = (if q = p then Some (KFile c) else stat_at fs q)"
  shows "walk False fs' k cur cs = Inr p"
  using assms
proof (induction True fs k cur cs rule: walk.induct)
  case (5 fs k cur x cs)
  show ?case
  proof (cases "stat_at fs (cur @ [x])")
    case None
    with 5 show ?thesis by (auto split: if_splits)
  next
    case (Some kd)
    with 5 have "stat_at fs' (cur @ [x]) = Some kd" by auto
    with Some 5 show ?thesis by (cases kd) (auto split: if_splits nat.splits)
  qed
qed auto

text \<open>A write to a path that leads nowhere makes one file, and the path then leads to it.\<close>

lemma fs_write_new:
  assumes "fs_write cs c fs = (Inr u, fs')" and "\<not> fs_exists fs cs" and "stat_at fs [] = Some KDir"
  shows "only_adds fs fs'" and "metadata_of fs' cs = Inr (KFile c)"
proof -
  from assms(1) obtain p where w: "walk True fs max_links [] cs = Inr p" and nd: "stat_at fs p \<noteq> Some KDir"
      and put: "fs' = put p (RegFile c) fs"
    by (rule fs_write_ok)
  have new: "stat_at fs p = None"
  proof (rule ccontr)
    assume some: "stat_at fs p \<noteq> None"
    with w have "canonicalize fs cs = Inr p" unfolding canonicalize_def by (rule walk_found_if_exists)
    with some assms(2) show False by (auto simp: fs_exists_def metadata_of_def split: sum.splits)
  qed
  with walk_real [OF w assms(3)] obtain d x where "p = d @ [x]" "stat_at fs d = Some KDir" by auto
  then have st: "stat_at fs' q = (if q = p then Some (KFile c) else stat_at fs q)" for q
    using put nd stat_at_put_file by auto
  show "only_adds fs fs'" using st new by (auto simp: only_adds_def)
  from walk_new_file [OF w new st] st show "metadata_of fs' cs = Inr (KFile c)"
    by (simp add: metadata_of_def canonicalize_def)
qed

lemma fs_write_fail: "fs_write cs c fs = (Inl e, fs') \<Longrightarrow> fs' = fs"
  by (auto simp: fs_write_def split: sum.splits if_splits)

lemma fs_write_only_adds:
  assumes "fs_write cs c fs = (r, fs')" and "\<not> fs_exists fs cs" and "stat_at fs [] = Some KDir"
  shows "only_adds fs fs'"
proof (cases r)
  case (Inl e)
  with assms(1) show ?thesis using fs_write_fail by force
next
  case (Inr u)
  with assms show ?thesis using fs_write_new(1) by blast
qed


subsection \<open>Directories that are there already\<close>

text \<open>A path whose last component is a name, without a separator after it.\<close>

definition ends_in_name :: "string \<Rightarrow> bool" where
  "ends_in_name p \<longleftrightarrow> made_text p = p \<and> (\<exists>ps x. os_components p = ps @ [Normal x])"

lemma ends_in_nameE:
  assumes "ends_in_name p"
  obtains ps x where "abs_components cwd p = ps @ [Normal x]" "p \<noteq> ''''" "made_text p = p"
proof -
  from assms obtain ps x where os: "os_components p = ps @ [Normal x]" and m: "made_text p = p"
    by (auto simp: ends_in_name_def)
  have "p \<noteq> ''''" using os by (auto simp: os_components_def is_absolute_def starts_with_iff)
  moreover have "abs_components cwd p = (RootDir # map Normal cwd @ ps) @ [Normal x]"
    by (simp add: abs_components_def os)
  ultimately show ?thesis using m that by blast
qed

lemma ends_in_name_join:
  assumes "legal_name n"
  shows "ends_in_name (path_join base n)"
proof -
  have n: "n \<noteq> ''''" "n \<noteq> ''.''" "n \<noteq> ''..''" "slash \<notin> set n" using assms by (auto simp: legal_name_def)
  have na: "\<not> is_absolute n" using n(4) by (auto simp: is_absolute_def starts_with_iff slash_def)
  have last: "last n \<noteq> slash" using n by (metis last_in_set)
  have sep: "os_components (b @ slash # n)
      = (if is_absolute (b @ slash # n) then [RootDir] else []) @ concat (map os_segment (split_on slash b)) @ [Normal n]" for b
    using n last by (simp add: os_components_def split_on_append split_on_fresh)
  have "path_join base n = n \<or> (\<exists>b. path_join base n = b @ slash # n)"
  proof (cases "base = '''' \<or> last base \<noteq> slash")
    case True
    then show ?thesis using na by (auto simp: path_join_def slash_def)
  next
    case False
    then have "base = butlast base @ [slash]" using append_butlast_last_id [of base] by simp
    then have "base @ n = butlast base @ slash # n"
      by (metis append_Cons append_Nil append_assoc)
    then show ?thesis using na False by (auto simp: path_join_def)
  qed
  then have "\<exists>ps x. os_components (path_join base n) = ps @ [Normal x]"
  proof (elim disjE exE)
    assume "path_join base n = n"
    then show ?thesis using n na last by (simp add: os_components_def split_on_fresh)
  next
    fix b assume "path_join base n = b @ slash # n"
    then show ?thesis using sep [of b] by auto
  qed
  moreover have "path_join base n \<noteq> ''''" "last (path_join base n) \<noteq> slash"
    using n last by (auto simp: path_join_def)
  then have "made_text (path_join base n) = path_join base n"
    by (cases "path_join base n" rule: rev_cases) (simp_all add: made_text_def trim_end_matches_def)
  ultimately show ?thesis by (simp add: ends_in_name_def)
qed

lemma legal_names [simp]: "legal_name ''.reshape''" "legal_name ''workspace''" "legal_name ''config.toml''"
    "legal_name ''index.html''" "legal_name ''assets''" "legal_name ''site.css''"
  by (simp_all add: legal_name_def slash_def has_nul_def)

lemma mkdir_is_dir:
  assumes "mkdir fs (ps @ [Normal x]) = Inr fs'"
  shows "fs_is_dir fs' (ps @ [Normal x])"
proof -
  from assms obtain d where "canonicalize fs' (ps @ [Normal x]) = Inr (d @ [x])"
      "stat_at fs' (d @ [x]) = Some KDir"
    by (rule mkdir_snoc) simp
  then show ?thesis by (simp add: fs_is_dir_def metadata_of_def)
qed

lemma create_dir_path_is_dir:
  assumes "create_dir_path cwd p fs = (Inr u, fs')" and "ends_in_name p"
  shows "fs_is_dir fs' (abs_components cwd p)"
proof -
  from assms(2) obtain ps x where p: "abs_components cwd p = ps @ [Normal x]" "p \<noteq> ''''" "made_text p = p"
    by (rule ends_in_nameE)
  with assms(1) show ?thesis
    by (auto simp: create_dir_path_def dest: mkdir_is_dir
        split: if_splits sum.splits option.splits prod.splits)
qed

lemma mkdir_exists:
  assumes "fs_is_dir fs (ps @ [Normal x])" and "stat_at fs [] = Some KDir"
  shows "mkdir fs (ps @ [Normal x]) = Inl AlreadyExists"
proof -
  from assms(1) obtain p where w: "walk False fs max_links [] (ps @ [Normal x]) = Inr p"
    by (auto simp: fs_is_dir_def metadata_of_def canonicalize_def and_then_Inr_iff)
  then obtain d where d: "walk False fs max_links [] ps = Inr d"
    using walk_append_err by (metis sum.exhaust Inl_Inr_False)
  from walk_snoc_parent [OF d w assms(2)] have "stat_at fs d = Some KDir" "\<not> has_nul x" by simp_all
  moreover have "stat_at fs (d @ [x]) \<noteq> None"
    using walk_snoc_found [OF d] w calculation walk_create_if_found [OF w] walk_False_real [OF w assms(2)]
    by force
  ultimately show ?thesis using d by (simp add: mkdir_def canonicalize_def)
qed

lemma create_dir_path_again:
  assumes "fs_is_dir fs (abs_components cwd p)" and "ends_in_name p" and "stat_at fs [] = Some KDir"
  shows "create_dir_path cwd p fs = (Inr (), fs)"
proof -
  from assms(2) obtain ps x where "abs_components cwd p = ps @ [Normal x]" "p \<noteq> ''''" "made_text p = p"
    by (rule ends_in_nameE)
  with assms(1,3) mkdir_exists show ?thesis by (simp add: create_dir_path_def)
qed


subsection \<open>Starting is safe and repeatable\<close>

lemma ends_in_name_dirs [simp]:
  "ends_in_name (default_app_dir home)" "ends_in_name (default_workspace_dir home)"
  by (simp_all add: default_app_dir_def default_workspace_dir_def ends_in_name_join)

lemma abs_components_join:
  assumes "ends_in_name b" and "legal_name n"
  shows "abs_components cwd (path_join b n) = abs_components cwd b @ [Normal n]"
proof -
  have n: "n \<noteq> ''''" "n \<noteq> ''.''" "n \<noteq> ''..''" "slash \<notin> set n" using assms(2) by (auto simp: legal_name_def)
  from assms(1) obtain ps x where os: "os_components b = ps @ [Normal x]" and "made_text b = b"
    by (auto simp: ends_in_name_def)
  have b: "b \<noteq> ''''" "last b \<noteq> slash"
    using os by (auto simp: os_components_def is_absolute_def starts_with_iff split: if_splits)
  then have pj: "path_join b n = b @ slash # n"
    using n(4) by (auto simp: path_join_def is_absolute_def starts_with_iff slash_def)
  have "is_absolute (b @ slash # n) = is_absolute b"
    using b(1) by (cases b) (simp_all add: is_absolute_def starts_with_iff)
  moreover have "last n \<noteq> slash" using n by (metis last_in_set)
  ultimately have "os_components (path_join b n) = os_components b @ [Normal n]"
    unfolding pj os_components_def using n b by (simp add: split_on_append split_on_fresh)
  then show ?thesis by (simp add: abs_components_def)
qed

lemma is_dir_parent:
  assumes "fs_is_dir fs (ps @ [Normal x])" and root: "stat_at fs [] = Some KDir"
  shows "fs_is_dir fs ps"
proof -
  from assms(1) obtain p where w: "walk False fs max_links [] (ps @ [Normal x]) = Inr p"
    by (auto simp: fs_is_dir_def metadata_of_def canonicalize_def and_then_Inr_iff)
  then obtain d where d: "walk False fs max_links [] ps = Inr d"
    using walk_append_err by (metis sum.exhaust Inl_Inr_False)
  from walk_snoc_parent [OF d w root] d show ?thesis
    by (simp add: fs_is_dir_def metadata_of_def canonicalize_def)
qed

text \<open>Once the workspace directory is there, so is the directory above it.\<close>

lemma prepare_after_workspace:
  assumes "create_dir_path (ce_cwd env) (default_workspace_dir home) fs = (Inr u, fs1)"
    and root: "stat_at fs [] = Some KDir"
  shows "prepare_user_environment env args home fs =
    (let config_path = abs_path env (path_join (default_app_dir home) ''config.toml'')
     in if ao_config (agent_options args) \<noteq> None \<or> fs_exists fs1 config_path then (Inr (), fs1)
        else case fs_write config_path (default_config_toml (default_workspace_dir home)) fs1 of
          (Inl e, fs3) \<Rightarrow> (Inl (Io e), fs3)
        | (Inr u, fs3) \<Rightarrow> (Inr (), fs3))"
proof -
  have root1: "stat_at fs1 [] = Some KDir"
    using only_adds_root [OF create_dir_path_only_adds [OF assms(1)] root] .
  have "fs_is_dir fs1 (abs_components (ce_cwd env) (default_workspace_dir home))"
    using assms(1) by (rule create_dir_path_is_dir) simp
  then have "fs_is_dir fs1 (abs_components (ce_cwd env) (default_app_dir home))"
    using is_dir_parent [OF _ root1] by (simp add: default_workspace_dir_def abs_components_join)
  then have "create_dir_path (ce_cwd env) (default_app_dir home) fs1 = (Inr (), fs1)"
    using root1 by (intro create_dir_path_again) simp_all
  then show ?thesis using assms(1) by (simp add: prepare_user_environment_def Let_def)
qed

lemma prepare_only_adds:
  assumes "prepare_user_environment env args home fs = (r, fs')" and root: "stat_at fs [] = Some KDir"
  shows "only_adds fs fs'"
proof -
  obtain r1 fs1 where c1: "create_dir_path (ce_cwd env) (default_workspace_dir home) fs = (r1, fs1)"
    by (cases "create_dir_path (ce_cwd env) (default_workspace_dir home) fs")
  note a1 = create_dir_path_only_adds [OF c1]
  note root1 = only_adds_root [OF a1 root]
  show ?thesis
  proof (cases r1)
    case (Inl e)
    with c1 assms(1) a1 show ?thesis by (simp add: prepare_user_environment_def)
  next
    case (Inr u)
    with c1 assms(1) root have "only_adds fs1 fs'"
      by (auto simp: prepare_after_workspace [of env home fs u fs1] Let_def
          dest: fs_write_only_adds [OF _ _ root1] split: if_splits prod.splits sum.splits)
    with a1 show ?thesis by (rule only_adds_trans)
  qed
qed

lemma prepare_ok:
  assumes "prepare_user_environment env args home fs = (Inr u, fs')" and root: "stat_at fs [] = Some KDir"
  shows "fs_is_dir fs' (abs_components (ce_cwd env) (default_workspace_dir home))"
    and "ao_config (agent_options args) \<noteq> None
      \<or> fs_exists fs' (abs_path env (path_join (default_app_dir home) ''config.toml''))"
proof -
  from assms(1) obtain fs1 u' where c1: "create_dir_path (ce_cwd env) (default_workspace_dir home) fs = (Inr u', fs1)"
    by (auto simp: prepare_user_environment_def split: prod.splits sum.splits)
  note root1 = only_adds_root [OF create_dir_path_only_adds [OF c1] root]
  from assms(1) have p: "(ao_config (agent_options args) \<noteq> None
        \<or> fs_exists fs1 (abs_path env (path_join (default_app_dir home) ''config.toml''))) \<and> fs' = fs1
    \<or> (\<not> fs_exists fs1 (abs_path env (path_join (default_app_dir home) ''config.toml''))
       \<and> (\<exists>u c. fs_write (abs_path env (path_join (default_app_dir home) ''config.toml'')) c fs1 = (Inr u, fs')))"
    by (auto simp: prepare_after_workspace [OF c1 root] Let_def split: if_splits prod.splits sum.splits)
  then have "only_adds fs1 fs'" using fs_write_new(1) [OF _ _ root1] by auto
  with create_dir_path_is_dir [OF c1] show "fs_is_dir fs' (abs_components (ce_cwd env) (default_workspace_dir home))"
    by (simp add: only_adds_is_dir)
  from p show "ao_config (agent_options args) \<noteq> None
      \<or> fs_exists fs' (abs_path env (path_join (default_app_dir home) ''config.toml''))"
    using fs_write_new(2) [OF _ _ root1] by (auto simp: fs_exists_def)
qed

lemma prepare_again:
  assumes "prepare_user_environment env args home fs = (Inr u, fs')" and root: "stat_at fs [] = Some KDir"
  shows "prepare_user_environment env args home fs' = (Inr (), fs')"
proof -
  have root': "stat_at fs' [] = Some KDir" by (rule only_adds_root [OF prepare_only_adds [OF assms] root])
  note c = create_dir_path_again [OF prepare_ok(1) [OF assms] _ root']
  show ?thesis using prepare_ok(2) [OF assms] prepare_after_workspace [OF c root'] by (simp add: Let_def)
qed


lemma into_config_steps:
  assumes "into_config_with_home env args home fs = (Inr c, fs')"
  obtains u fs1 fc root where "prepare_user_environment env args home fs = (Inr u, fs1)"
    "file_config_of env args home fs1 = Inr fc"
    "resolve_workspace env home (agent_options args) fc fs1 = (Inr root, fs')"
    "config_for_workspace (ce_cwd env) fs' root = Inr (default_app_config\<lparr>ac_workspace := \<lparr>wc_root = root\<rparr>\<rparr>)"
  using assms
  by (auto simp: into_config_with_home_def config_for_workspace_def and_then_Inr_iff validate_workspace_def Let_def
      split: prod.splits sum.splits if_splits)

lemma resolve_workspace_only_adds:
  "resolve_workspace env home options fc fs = (r, fs') \<Longrightarrow> only_adds fs fs'"
  by (auto simp: resolve_workspace_def dest: create_dir_path_only_adds
      split: option.splits prod.splits sum.splits)

lemma resolve_workspace_same:
  assumes "fs_is_dir fs (abs_components (ce_cwd env) (default_workspace_dir home))" and "stat_at fs [] = Some KDir"
    and "resolve_workspace env home options fc fs = (r, fs')"
  shows "fs' = fs"
  using assms create_dir_path_again [OF assms(1) _ assms(2)]
  by (auto simp: resolve_workspace_def split: option.splits)

text \<open>Starting the program is safe and repeatable. Whatever the options and the outcome, nothing
  that exists is changed: in particular an existing configuration file is kept. After a
  successful start, starting again gives the same configuration and changes nothing at all.\<close>

theorem start_is_repeatable:
  assumes "into_config_with_home env args home fs = (r, fs')" and "stat_at fs [] = Some KDir"
  shows "(\<forall>q. stat_at fs q \<noteq> None \<longrightarrow> stat_at fs' q = stat_at fs q)
    \<and> (\<forall>c. r = Inr c \<longrightarrow> into_config_with_home env args home fs' = (r, fs'))"
proof -
  obtain r1 fs1 where p: "prepare_user_environment env args home fs = (r1, fs1)"
    by (cases "prepare_user_environment env args home fs")
  have a1: "only_adds fs fs1" using p assms(2) by (rule prepare_only_adds)
  have "only_adds fs1 fs'"
    using assms(1) p by (auto simp: into_config_with_home_def dest: resolve_workspace_only_adds
        split: sum.splits prod.splits)
  with a1 have "only_adds fs fs'" by (rule only_adds_trans)
  moreover have "into_config_with_home env args home fs' = (r, fs')" if "r = Inr c" for c
  proof -
    from assms(1) that p obtain u fc root where r1: "r1 = Inr u"
        and res: "resolve_workspace env home (agent_options args) fc fs1 = (Inr root, fs')"
      by (auto elim: into_config_steps)
    have root1: "stat_at fs1 [] = Some KDir" using a1 assms(2) by (rule only_adds_root)
    have "fs' = fs1"
      by (rule resolve_workspace_same [OF prepare_ok(1) [OF p [unfolded r1] assms(2)] root1 res])
    moreover have "prepare_user_environment env args home fs1 = (Inr u, fs1)"
      using prepare_again [OF p [unfolded r1] assms(2)] by simp
    ultimately show ?thesis using assms(1) p r1 by (simp add: into_config_with_home_def)
  qed
  ultimately show ?thesis using only_adds_keeps by blast
qed

definition sample_cli_env :: cli_env where
  "sample_cli_env =
     \<lparr>ce_cwd = [''home''], ce_toml = (\<lambda>c. Inr default_file_config), ce_index_html = ''<html></html>'',
      ce_site_css = ''body {}''\<rparr>"

definition sample_options :: agent_options where
  "sample_options =
     \<lparr>ao_workspace = None, ao_config = Some ''/home/c.toml'', ao_model = Some ''m'', ao_render_browser = False,
      ao_browser_session = ''reshape-main'', ao_browser_headed = False, ao_host = Some ''::1'',
      ao_port = None\<rparr>"

definition sample_args :: cli_args where
  "sample_args = \<lparr>ca_agent = sample_options, ca_log_level = None, ca_command = None\<rparr>"

definition sample_home :: node where
  "sample_home = Dir [(''home'', Dir [(''c.toml'', RegFile '''')])]"

lemmas sample_cli_defs = sample_cli_env_def sample_options_def sample_args_def sample_home_def

text \<open>The tree after a first start in a home directory with a configuration file.\<close>

definition started_home :: node where
  "started_home = snd (prepare_user_environment sample_cli_env sample_args ''/home'' sample_home)"

lemma sample_agent_options: "agent_options sample_args = sample_options"
  by (simp add: agent_options_def sample_args_def)

lemma sample_start:
  "into_config_with_home sample_cli_env sample_args ''/home'' sample_home
   = (Inr (with_model ''m'' (default_app_config\<lparr>ac_workspace := \<lparr>wc_root = ''/home/.reshape/workspace''\<rparr>\<rparr>)), started_home)"
proof -
  have "fst (prepare_user_environment sample_cli_env sample_args ''/home'' sample_home) = Inr ()" by code_simp
  then have p: "prepare_user_environment sample_cli_env sample_args ''/home'' sample_home = (Inr (), started_home)"
    by (simp add: started_home_def prod_eq_iff)
  have f: "file_config_of sample_cli_env sample_args ''/home'' started_home = Inr default_file_config" by code_simp
  have r: "resolve_workspace sample_cli_env ''/home'' sample_options default_file_config started_home
      = (Inr ''/home/.reshape/workspace'', started_home)"
    by code_simp
  have v: "validate_workspace (ce_cwd sample_cli_env) started_home ''/home/.reshape/workspace''
      = Inr ''/home/.reshape/workspace''"
    by code_simp
  show ?thesis
    unfolding into_config_with_home_def p
    by (simp add: f sample_agent_options r v config_for_workspace_def) (simp add: default_file_config_def apply_llm_file_config_def
        apply_runtime_file_config_def apply_tools_file_config_def sample_options_def)
qed

theorem start_is_repeatable_witness:
  "let fs' = snd (into_config_with_home sample_cli_env sample_args ''/home'' sample_home)
   in stat_at fs' [''home''] = Some KDir
      \<and> snd (into_config_with_home sample_cli_env sample_args ''/home'' fs') = fs'"
proof -
  define r where "r = into_config_with_home sample_cli_env sample_args ''/home'' sample_home"
  have root: "stat_at sample_home [] = Some KDir" by (simp add: sample_home_def)
  have st: "stat_at sample_home [''home''] = Some KDir" by (simp add: sample_home_def stat_at_def)
  obtain c where c: "fst r = Inr c" by (simp add: r_def sample_start)
  from start_is_repeatable [of sample_cli_env sample_args "''/home''" sample_home "fst r" "snd r"] root st c
  show ?thesis by (auto simp: r_def Let_def)
qed


subsection \<open>Where a setting comes from\<close>

text \<open>The first source that gives a value wins, the default is used when none does.\<close>

fun setting :: "'a option list \<Rightarrow> 'a \<Rightarrow> 'a" where
  "setting [] d = d"
| "setting (s # ss) d = (case s of Some v \<Rightarrow> v | None \<Rightarrow> setting ss d)"

declare setting.simps [simp del]

lemma setting_given [simp]: "setting [] d = d" "setting (None # ss) d = setting ss d" "setting (Some v # ss) d = v"
  by (simp_all add: setting.simps)

abbreviation file_runtime :: "file_config \<Rightarrow> (file_runtime_config \<Rightarrow> 'a option) \<Rightarrow> 'a option" where
  "file_runtime fc get \<equiv> Option.bind (fc_runtime fc) get"

abbreviation file_openai :: "file_config \<Rightarrow> (file_openai_config \<Rightarrow> 'a option) \<Rightarrow> 'a option" where
  "file_openai fc get \<equiv> Option.bind (fc_llm fc) (\<lambda>l. Option.bind (fl_openai l) get)"

abbreviation file_search :: "file_config \<Rightarrow> (file_web_search_config \<Rightarrow> 'a option) \<Rightarrow> 'a option" where
  "file_search fc get \<equiv> Option.bind (fc_tools fc) (\<lambda>t. Option.bind (ft_web_search t) get)"

abbreviation file_fetch :: "file_config \<Rightarrow> (file_web_fetch_config \<Rightarrow> 'a option) \<Rightarrow> 'a option" where
  "file_fetch fc get \<equiv> Option.bind (fc_tools fc) (\<lambda>t. Option.bind (ft_web_fetch t) get)"

lemma into_config_result:
  assumes "into_config_with_home env args home fs = (Inr c, fs')"
    and "prepare_user_environment env args home fs = (Inr u, fs1)"
    and "file_config_of env args home fs1 = Inr fc"
  obtains root c1 where "resolve_workspace env home (agent_options args) fc fs1 = (Inr root, fs')"
    "apply_llm_file_config (fc_llm fc) (apply_runtime_file_config (fc_runtime fc)
       (default_app_config\<lparr>ac_workspace := \<lparr>wc_root = root\<rparr>\<rparr>)) = Inr c1"
    "c = (case ao_model (agent_options args) of
            None \<Rightarrow> apply_tools_file_config (fc_tools fc) c1
          | Some m \<Rightarrow> with_model m (apply_tools_file_config (fc_tools fc) c1))"
    "validate_workspace (ce_cwd env) fs' root = Inr root"
  using assms
  by (auto simp: into_config_with_home_def config_for_workspace_def and_then_Inr_iff validate_workspace_def Let_def
      split: prod.splits sum.splits if_splits)

lemma resolve_workspace_setting:
  assumes "resolve_workspace env home options fc fs = (Inr root, fs')"
  shows "root = setting [ao_workspace options, fc_workspace fc] (default_workspace_dir home)"
  using assms
  by (auto simp: setting.simps resolve_workspace_def validate_workspace_def Let_def split: option.splits prod.splits sum.splits if_splits)

lemma llm_settings:
  assumes "apply_llm_file_config (fc_llm fc) c = Inr c1"
  shows "oa_model (lc_openai (ac_llm c1)) = setting [file_openai fc fo_model] (oa_model (lc_openai (ac_llm c)))"
    and "oa_base_url (lc_openai (ac_llm c1)) = setting [file_openai fc fo_base_url] (oa_base_url (lc_openai (ac_llm c)))"
    and "oa_api_key (lc_openai (ac_llm c1)) = setting [file_openai fc fo_api_key] (oa_api_key (lc_openai (ac_llm c)))"
    and "oa_stream (lc_openai (ac_llm c1)) = setting [file_openai fc fo_stream] (oa_stream (lc_openai (ac_llm c)))"
    and "ac_workspace c1 = ac_workspace c" and "ac_runtime c1 = ac_runtime c" and "ac_tools c1 = ac_tools c"
  using assms
  by (auto simp: setting.simps apply_llm_file_config_def apply_openai_file_config_def and_then_Inr_iff split: option.splits)

lemma runtime_settings:
  "rc_max_tool_iterations (ac_runtime (apply_runtime_file_config (fc_runtime fc) c))
     = setting [file_runtime fc fr_max_tool_iterations] (rc_max_tool_iterations (ac_runtime c))"
  "rc_max_tool_calls (ac_runtime (apply_runtime_file_config (fc_runtime fc) c))
     = setting [file_runtime fc fr_max_tool_calls] (rc_max_tool_calls (ac_runtime c))"
  "ac_workspace (apply_runtime_file_config r c) = ac_workspace c"
  "ac_llm (apply_runtime_file_config r c) = ac_llm c" "ac_tools (apply_runtime_file_config r c) = ac_tools c"
  by (auto simp: setting.simps apply_runtime_file_config_def split: option.splits)

lemma tool_settings:
  "ws_enabled (tc_web_search (ac_tools (apply_tools_file_config (fc_tools fc) c)))
     = setting [file_search fc fw_enabled] (ws_enabled (tc_web_search (ac_tools c)))"
  "wf_enabled (tc_web_fetch (ac_tools (apply_tools_file_config (fc_tools fc) c)))
     = setting [file_fetch fc ff_enabled] (wf_enabled (tc_web_fetch (ac_tools c)))"
  "wf_max_bytes (tc_web_fetch (ac_tools (apply_tools_file_config (fc_tools fc) c)))
     = setting [file_fetch fc ff_max_bytes] (wf_max_bytes (tc_web_fetch (ac_tools c)))"
  "wf_ssrf_allowlist (tc_web_fetch (ac_tools (apply_tools_file_config (fc_tools fc) c)))
     = setting [file_fetch fc ff_ssrf_allowlist] (wf_ssrf_allowlist (tc_web_fetch (ac_tools c)))"
  "ac_workspace (apply_tools_file_config t c) = ac_workspace c"
  "ac_llm (apply_tools_file_config t c) = ac_llm c" "ac_runtime (apply_tools_file_config t c) = ac_runtime c"
  by (auto simp: setting.simps apply_tools_file_config_def apply_search_file_config_def apply_fetch_file_config_def
      split: option.splits)

lemma model_settings [simp]:
  "oa_model (lc_openai (ac_llm (with_model m c))) = m"
  "ac_workspace (with_model m c) = ac_workspace c" "ac_runtime (with_model m c) = ac_runtime c"
  "ac_tools (with_model m c) = ac_tools c"
  "oa_base_url (lc_openai (ac_llm (with_model m c))) = oa_base_url (lc_openai (ac_llm c))"
  "oa_api_key (lc_openai (ac_llm (with_model m c))) = oa_api_key (lc_openai (ac_llm c))"
  "oa_stream (lc_openai (ac_llm (with_model m c))) = oa_stream (lc_openai (ac_llm c))"
  by (simp_all add: with_model_def)

lemmas setting_rules = llm_settings runtime_settings tool_settings

text \<open>Precedence of the settings. With \<open>fc\<close> the configuration file that was read, the workspace and
  the model come from the command line, else from the file, else from the default; the limits,
  the provider and the web tools come from the file, else from the default, which keeps the web
  tools off and the list of exempt addresses empty. The workspace is an existing directory.\<close>

theorem config_precedence:
  assumes "into_config_with_home env args home fs = (Inr c, fs')"
    and "prepare_user_environment env args home fs = (Inr u, fs1)"
    and "file_config_of env args home fs1 = Inr fc"
  shows "wc_root (ac_workspace c)
      = setting [ao_workspace (agent_options args), fc_workspace fc] (default_workspace_dir home)
    \<and> fs_is_dir fs' (abs_path env (wc_root (ac_workspace c)))
    \<and> oa_model (lc_openai (ac_llm c)) = setting [ao_model (agent_options args), file_openai fc fo_model] ''gpt-5.5''
    \<and> oa_base_url (lc_openai (ac_llm c)) = setting [file_openai fc fo_base_url] ''https://api.openai.com/v1''
    \<and> oa_api_key (lc_openai (ac_llm c)) = setting [file_openai fc fo_api_key] ''''
    \<and> oa_stream (lc_openai (ac_llm c)) = setting [file_openai fc fo_stream] True
    \<and> rc_max_tool_iterations (ac_runtime c) = setting [file_runtime fc fr_max_tool_iterations] 8
    \<and> rc_max_tool_calls (ac_runtime c) = setting [file_runtime fc fr_max_tool_calls] 32
    \<and> ws_enabled (tc_web_search (ac_tools c)) = setting [file_search fc fw_enabled] False
    \<and> wf_enabled (tc_web_fetch (ac_tools c)) = setting [file_fetch fc ff_enabled] False
    \<and> wf_max_bytes (tc_web_fetch (ac_tools c)) = setting [file_fetch fc ff_max_bytes] 52428800
    \<and> wf_ssrf_allowlist (tc_web_fetch (ac_tools c)) = setting [file_fetch fc ff_ssrf_allowlist] []"
proof -
  from assms obtain root c1 where res: "resolve_workspace env home (agent_options args) fc fs1 = (Inr root, fs')"
      and llm: "apply_llm_file_config (fc_llm fc) (apply_runtime_file_config (fc_runtime fc)
        (default_app_config\<lparr>ac_workspace := \<lparr>wc_root = root\<rparr>\<rparr>)) = Inr c1"
      and c: "c = (case ao_model (agent_options args) of
            None \<Rightarrow> apply_tools_file_config (fc_tools fc) c1
          | Some m \<Rightarrow> with_model m (apply_tools_file_config (fc_tools fc) c1))"
      and v: "validate_workspace (ce_cwd env) fs' root = Inr root"
    by (rule into_config_result)
  note s = llm_settings [OF llm] runtime_settings tool_settings
  have d: "fs_is_dir fs' (abs_path env root)"
    using v by (simp add: validate_workspace_def abs_path_def Let_def split: if_splits)
  show ?thesis
    using resolve_workspace_setting [OF res] d
    by (cases "ao_model (agent_options args)")
      (simp_all add: c s default_app_config_def default_openai_config_def default_web_search_config_def
        default_web_fetch_config_def)
qed

theorem config_precedence_witness:
  "\<exists>c. into_config_with_home sample_cli_env sample_args ''/home'' sample_home = (Inr c, started_home)
     \<and> wc_root (ac_workspace c) = ''/home/.reshape/workspace'' \<and> oa_model (lc_openai (ac_llm c)) = ''m''
     \<and> rc_max_tool_calls (ac_runtime c) = 32 \<and> \<not> wf_enabled (tc_web_fetch (ac_tools c))"
proof -
  have p: "prepare_user_environment sample_cli_env sample_args ''/home'' sample_home = (Inr (), started_home)"
    by (simp add: started_home_def prod_eq_iff) code_simp
  have f: "file_config_of sample_cli_env sample_args ''/home'' started_home = Inr default_file_config" by code_simp
  have w: "default_workspace_dir ''/home'' = ''/home/.reshape/workspace''" by code_simp
  from config_precedence [OF sample_start p f] sample_start show ?thesis
    by (simp add: w sample_agent_options) (simp add: default_file_config_def sample_options_def)
qed

subsection \<open>The server listens locally\<close>

lemma section_setting:
  "get e = None \<Longrightarrow> unwrap_or d (or_else a (get (unwrap_or e sec))) = setting [a, Option.bind sec get] d"
  by (cases sec) (auto simp: or_else_def unwrap_or_def setting.simps split: option.splits)

text \<open>The server is local. A server configuration is accepted only when its host is the text of a
  loopback address, one of 127.0.0.0/8 or ::1, which is then the address that is bound; host and
  port come from the command line, else from the file, else they are 127.0.0.1 and 7331.\<close>

theorem server_binds_loopback:
  assumes "server_config_with_home env args home fs = Inr cfg" and "file_config_of env args home fs = Inr fc"
  shows "(\<exists>ip. parse_ip (sc_host cfg) = Some ip \<and> bind_addr cfg = Inr (ip, sc_port cfg)
        \<and> ((\<exists>a. ip = V4 a \<and> octet 0 a = 127) \<or> ip = V6 1))
    \<and> sc_host cfg = setting [ao_host (agent_options args), Option.bind (fc_server fc) fs_host] ''127.0.0.1''
    \<and> sc_port cfg = setting [ao_port (agent_options args), Option.bind (fc_server fc) fs_port] 7331"
proof -
  from assms have val: "server_validate cfg = Inr ()"
      and host: "sc_host cfg = unwrap_or ''127.0.0.1'' (or_else (ao_host (agent_options args))
        (fs_host (unwrap_or \<lparr>fs_host = None, fs_port = None\<rparr> (fc_server fc))))"
      and port: "sc_port cfg = unwrap_or 7331 (or_else (ao_port (agent_options args))
        (fs_port (unwrap_or \<lparr>fs_host = None, fs_port = None\<rparr> (fc_server fc))))"
    by (auto simp: server_config_with_home_def and_then_Inr_iff Let_def)
  from val obtain ip where ip: "parse_ip (sc_host cfg) = Some ip" "ip_is_loopback ip"
    by (auto simp: server_validate_def and_then_Inr_iff split: if_splits)
  moreover have "bind_addr cfg = Inr (ip, sc_port cfg)" using ip(1) val by (simp add: bind_addr_def)
  moreover have "(\<exists>a. ip = V4 a \<and> octet 0 a = 127) \<or> ip = V6 1"
    using ip(2) by (cases ip) (simp_all add: v4_is_loopback_def v6_is_loopback_def)
  ultimately show ?thesis unfolding host [symmetric] port [symmetric]
    using section_setting [of fs_host _ _ "ao_host (agent_options args)" "fc_server fc"]
      section_setting [of fs_port _ _ "ao_port (agent_options args)" "fc_server fc"]
    by (simp add: host port)
qed

theorem server_binds_loopback_witness:
  "\<exists>cfg. server_config_with_home sample_cli_env sample_args ''/home'' sample_home = Inr cfg
     \<and> sc_host cfg = ''::1'' \<and> bind_addr cfg = Inr (V6 1, 7331)"
proof -
  have p: "parse_ip ''::1'' = Some (V6 1)" by code_simp
  have f: "file_config_of sample_cli_env sample_args ''/home'' sample_home = Inr default_file_config" by code_simp
  have s: "server_config_with_home sample_cli_env sample_args ''/home'' sample_home
      = Inr \<lparr>sc_host = ''::1'', sc_port = 7331\<rparr>"
    unfolding server_config_with_home_def f sample_agent_options
    by (simp add: server_validate_def p v6_is_loopback_def default_file_config_def sample_options_def or_else_def)
  from server_binds_loopback [OF s f] s p show ?thesis by auto
qed

end
