(* ===== verification/Cli_Workspace.thy ===== *)
theory Cli_Workspace
  imports Cli_Config
begin

section \<open>Preparing and cleaning a workspace\<close>

text \<open>
  The workspace commands of \<open>reshape-cli/src/lib.rs\<close>: the default page and style sheet, the
  command that initialises a workspace and the command that empties it. The lemmas show that
  initialising keeps everything that exists and can be repeated, and that cleaning removes
  exactly what is below the root.
\<close>

subsection \<open>The default page\<close>

definition ensure_default_site_css :: "cli_env \<Rightarrow> string \<Rightarrow> node \<Rightarrow> unit result \<times> node" where
  "ensure_default_site_css env root fs =
     (let assets = path_join root ''assets'';
          made = (case metadata_of fs (abs_path env assets) of
                    Inr KDir \<Rightarrow> (Inr (), fs)
                  | Inr _ \<Rightarrow> (Inl (Config (''workspace assets path exists but is not a directory: '' @ assets)), fs)
                  | Inl e \<Rightarrow> (if e = NotFound
                             then case create_dir_path (ce_cwd env) assets fs of
                                    (Inl e', fs1) \<Rightarrow> (Inl (Io e'), fs1)
                                  | (Inr u, fs1) \<Rightarrow> (Inr (), fs1)
                             else (Inl (Io e), fs)))
      in case made of
           (Inl e, fs1) \<Rightarrow> (Inl e, fs1)
         | (Inr u, fs1) \<Rightarrow>
             (let css = path_join assets ''site.css''
              in case metadata_of fs1 (abs_path env css) of
                   Inr (KFile c) \<Rightarrow> (Inr (), fs1)
                 | Inr _ \<Rightarrow> (Inl (Config (''workspace stylesheet path exists but is not a file: '' @ css)), fs1)
                 | Inl e \<Rightarrow> (if e = NotFound
                            then case fs_write (abs_path env css) (ce_site_css env) fs1 of
                                   (Inl e', fs2) \<Rightarrow> (Inl (Io e'), fs2)
                                 | (Inr u, fs2) \<Rightarrow> (Inr (), fs2)
                            else (Inl (Io e), fs1))))"

definition ensure_workspace_index_html :: "cli_env \<Rightarrow> string \<Rightarrow> node \<Rightarrow> bool result \<times> node" where
  "ensure_workspace_index_html env root fs =
     (let index = path_join root ''index.html''
      in case metadata_of fs (abs_path env index) of
           Inr (KFile c) \<Rightarrow> (Inr False, fs)
         | Inr _ \<Rightarrow> (Inl (Config (''workspace index path exists but is not a file: '' @ index)), fs)
         | Inl e \<Rightarrow>
             (if e = NotFound
              then case ensure_default_site_css env root fs of
                     (Inl e', fs1) \<Rightarrow> (Inl e', fs1)
                   | (Inr u, fs1) \<Rightarrow>
                       (case fs_write (abs_path env index) (ce_index_html env) fs1 of
                          (Inl e', fs2) \<Rightarrow> (Inl (Io e'), fs2)
                        | (Inr u, fs2) \<Rightarrow> (Inr True, fs2))
              else (Inl (Io e), fs)))"

definition resolved_workspace_for_init :: "cli_env \<Rightarrow> cli_args \<Rightarrow> string \<Rightarrow> node \<Rightarrow> string result" where
  "resolved_workspace_for_init env args home fs =
     (case ao_workspace (agent_options args) of
        Some w \<Rightarrow> Inr w
      | None \<Rightarrow>
          and_then (file_config_of env args home fs) (\<lambda>fc.
            Inr (unwrap_or (default_workspace_dir home) (fc_workspace fc))))"

definition init_workspace_with_home :: "cli_env \<Rightarrow> cli_args \<Rightarrow> string \<Rightarrow> node \<Rightarrow> bool result \<times> node" where
  "init_workspace_with_home env args home fs =
     (case prepare_user_environment env args home fs of
        (Inl e, fs1) \<Rightarrow> (Inl e, fs1)
      | (Inr u, fs1) \<Rightarrow>
          (case resolved_workspace_for_init env args home fs1 of
             Inl e \<Rightarrow> (Inl e, fs1)
           | Inr w \<Rightarrow>
               (case create_dir_path (ce_cwd env) w fs1 of
                  (Inl e, fs2) \<Rightarrow> (Inl (Io e), fs2)
                | (Inr u, fs2) \<Rightarrow> ensure_workspace_index_html env w fs2)))"

subsection \<open>Cleaning\<close>

text \<open>\<open>remove_dir_all\<close> removes a directory with all it contains, and does not follow links.\<close>

definition fs_remove_dir_all :: "apath \<Rightarrow> node \<Rightarrow> (io_error + unit) \<times> node" where
  "fs_remove_dir_all p fs =
     (case stat_at fs p of
        None \<Rightarrow> (Inl NotFound, fs)
      | Some (KFile c) \<Rightarrow> (Inl NotADirectory, fs)
      | Some _ \<Rightarrow> (Inr (), remove p fs))"

fun clean_entries :: "apath \<Rightarrow> (string \<times> kind) list \<Rightarrow> nat \<Rightarrow> node \<Rightarrow> nat result \<times> node" where
  "clean_entries root [] removed fs = (Inr removed, fs)"
| "clean_entries root ((name, kd) # es) removed fs =
     (case symlink_metadata fs (RootDir # map Normal (root @ [name])) of
        Inl e \<Rightarrow> (Inl (Io e), fs)
      | Inr file_type \<Rightarrow>
          (case (if file_type = KDir then fs_remove_dir_all (root @ [name]) fs
                 else fs_remove_file (root @ [name]) fs) of
             (Inl e, fs1) \<Rightarrow> (Inl (Io e), fs1)
           | (Inr u, fs1) \<Rightarrow> clean_entries root es (removed + 1) fs1))"

definition clean_workspace :: "apath \<Rightarrow> string \<Rightarrow> node \<Rightarrow> nat result \<times> node" where
  "clean_workspace cwd root fs =
     (case local_workspace_new cwd fs root of
        Inl e \<Rightarrow> (Inl e, fs)
      | Inr ws \<Rightarrow>
          (case fs_read_dir (ws_root ws) fs of
             Inl e \<Rightarrow> (Inl (Io e), fs)
           | Inr es \<Rightarrow> clean_entries (ws_root ws) es 0 fs))"

subsection \<open>Cleaning is exact\<close>

lemma clean_entry:
  assumes "stat_at fs (root @ [n]) = Some kd" and "list_all (\<lambda>n. \<not> has_nul n) root" and "\<not> has_nul n"
  shows "clean_entries root ((n, kd') # es) k fs = clean_entries root es (k + 1) (remove (root @ [n]) fs)"
proof -
  have root: "stat_at fs root = Some KDir" using assms(1) stat_at_parent [of fs root n "[]"] by simp
  then have "canonicalize fs (RootDir # map Normal root) = Inr root"
    using assms(2) stat_at_root by (intro canonicalize_self) auto
  then have "symlink_metadata fs ((RootDir # map Normal root) @ [Normal n]) = Inr kd"
    using assms by (simp add: symlink_metadata_def)
  then have "symlink_metadata fs (RootDir # map Normal (root @ [n])) = Inr kd" by simp
  then show ?thesis using assms(1) by (cases kd) (simp_all add: fs_remove_dir_all_def fs_remove_file_def)
qed

lemma clean_entries_ok:
  assumes "\<And>n kd. (n, kd) \<in> set es \<Longrightarrow> stat_at fs (root @ [n]) = Some kd \<and> \<not> has_nul n"
    and "distinct (map fst es)" and "list_all (\<lambda>n. \<not> has_nul n) root" and "stat_at fs root = Some KDir"
  shows "\<exists>fs'. clean_entries root es k fs = (Inr (k + length es), fs')
    \<and> (\<forall>q. stat_at fs' q = (if \<exists>n \<in> fst ` set es. prefix (root @ [n]) q then None else stat_at fs q))"
  using assms
proof (induction es arbitrary: fs k)
  case (Cons e es)
  obtain n kd where e: "e = (n, kd)" by (cases e)
  let ?fs1 = "remove (root @ [n]) fs"
  have st1: "stat_at ?fs1 q = (if prefix (root @ [n]) q then None else stat_at fs q)" for q
    using Cons.prems(4) by (rule stat_at_remove)
  have "stat_at ?fs1 (root @ [m]) = Some kd' \<and> \<not> has_nul m" if "(m, kd') \<in> set es" for m kd'
  proof -
    have "m \<noteq> n" using that Cons.prems(2) e by force
    with that Cons.prems(1) show ?thesis by (auto simp: st1)
  qed
  moreover have "stat_at ?fs1 root = Some KDir" using Cons.prems(4) by (auto simp: st1 prefix_def)
  ultimately obtain fs' where fs': "clean_entries root es (k + 1) ?fs1 = (Inr (k + 1 + length es), fs')"
      "\<And>q. stat_at fs' q = (if \<exists>n \<in> fst ` set es. prefix (root @ [n]) q then None else stat_at ?fs1 q)"
    using Cons.IH [of ?fs1 "k + 1"] Cons.prems(2,3) e by auto
  have "clean_entries root (e # es) k fs = clean_entries root es (k + 1) ?fs1"
    unfolding e using Cons.prems e by (intro clean_entry) auto
  with fs' show ?case by (auto simp: e st1)
qed simp

lemma clean_workspace_ok:
  assumes new: "local_workspace_new cwd fs root = Inr ws" and wf: "fs_wf fs" and "stat_at fs [] = Some KDir"
  obtains es fs' where "fs_read_dir (ws_root ws) fs = Inr es" "clean_workspace cwd root fs = (Inr (length es), fs')"
    "\<And>q. stat_at fs' q = (if strict_prefix (ws_root ws) q then None else stat_at fs q)"
proof -
  have inv: "local_inv ws fs" using new assms(3) by (rule local_workspace_new_inv)
  then obtain ds where lk: "lookup fs (ws_root ws) = Some (Dir ds)"
    by (auto simp: local_inv_def stat_at_def kind_of_node_KDir_iff)
  let ?es = "map (\<lambda>(n, v). (n, kind_of_node v)) ds"
  have rd: "fs_read_dir (ws_root ws) fs = Inr ?es" using lk by (simp add: fs_read_dir_def)
  have wfd: "distinct (map fst ds)" "list_all (\<lambda>e. legal_name (fst e) \<and> fs_wf (snd e)) ds"
    using fs_wf_lookup [OF wf lk] by auto
  have st: "stat_at fs (ws_root ws @ [n]) = map_option kind_of_node (map_of ds n)" for n
    using lk by (auto simp: stat_at_def lookup_append split: option.splits)
  have "stat_at fs (ws_root ws @ [n]) = Some kd \<and> \<not> has_nul n" if "(n, kd) \<in> set ?es" for n kd
    using that wfd by (auto simp: st list_all_iff legal_name_def)
  moreover have "map fst ?es = map fst ds" by (auto simp: case_prod_beta)
  with wfd(1) have "distinct (map fst ?es)" by metis
  ultimately have "\<exists>fs'. clean_entries (ws_root ws) ?es 0 fs = (Inr (0 + length ?es), fs')
      \<and> (\<forall>q. stat_at fs' q = (if \<exists>n \<in> fst ` set ?es. prefix (ws_root ws @ [n]) q then None else stat_at fs q))"
    using inv by (intro clean_entries_ok) (auto simp: local_inv_def)
  then obtain fs' where fs': "clean_entries (ws_root ws) ?es 0 fs = (Inr (length ?es), fs')"
      "\<And>q. stat_at fs' q = (if \<exists>n \<in> fst ` set ?es. prefix (ws_root ws @ [n]) q then None else stat_at fs q)"
    by auto
  have "stat_at fs' q = (if strict_prefix (ws_root ws) q then None else stat_at fs q)" for q
  proof (cases "strict_prefix (ws_root ws) q \<and> stat_at fs q \<noteq> None")
    case True
    then obtain s where "q = ws_root ws @ s" "s \<noteq> []" by (auto simp: strict_prefix_def prefix_def)
    then obtain n r where q: "q = (ws_root ws @ [n]) @ r" by (cases s) auto
    have "stat_at fs (ws_root ws @ [n]) \<noteq> None"
      using True q stat_at_parent [of fs "ws_root ws @ [n]"] by (cases r) auto
    then obtain v where "map_of ds n = Some v" using st [of n] by (cases "map_of ds n") auto
    then have "(n, kind_of_node v) \<in> set ?es" by (force dest: map_of_SomeD)
    then have "n \<in> fst ` set ?es" by force
    with q True show ?thesis by (auto simp: fs'(2))
  next
    case False
    have "strict_prefix (ws_root ws) q" if "prefix (ws_root ws @ [n]) q" for n
      using that by (auto simp: strict_prefix_def prefix_def)
    with False show ?thesis by (auto simp: fs'(2))
  qed
  with rd fs'(1) new show ?thesis using that by (simp add: clean_workspace_def)
qed

text \<open>C22: cleaning a workspace removes exactly what is below its root. On every well-formed tree and for
  every directory that can be opened as a workspace the command succeeds, reports the number of
  entries of the root, leaves nothing below the root and changes nothing else; links in the root
  are removed, not followed.\<close>

theorem clean_empties_exactly_the_root:
  assumes "local_workspace_new cwd fs root = Inr ws" and "fs_wf fs" and "stat_at fs [] = Some KDir"
  shows "\<exists>es fs'. fs_read_dir (ws_root ws) fs = Inr es \<and> clean_workspace cwd root fs = (Inr (length es), fs')
    \<and> (\<forall>q. stat_at fs' q = (if strict_prefix (ws_root ws) q then None else stat_at fs q))"
proof -
  from assms obtain es fs' where "fs_read_dir (ws_root ws) fs = Inr es"
      "clean_workspace cwd root fs = (Inr (length es), fs')"
      "\<And>q. stat_at fs' q = (if strict_prefix (ws_root ws) q then None else stat_at fs q)"
    by (rule clean_workspace_ok) blast
  then show ?thesis by blast
qed

theorem clean_empties_exactly_the_root_witness:
  "stat_at (snd (clean_workspace [] ''/ws'' sample_fs)) [''ws'', ''a''] = None
   \<and> stat_at (snd (clean_workspace [] ''/ws'' sample_fs)) [''ws''] = Some KDir"
proof -
  have n: "local_workspace_new [] sample_fs ''/ws'' = Inr sample_ws" by code_simp
  have "fs_wf sample_fs" "stat_at sample_fs [] = Some KDir" by code_simp+
  from clean_empties_exactly_the_root [OF n this] obtain fs' m where c: "clean_workspace [] ''/ws'' sample_fs = (m, fs')"
      and st: "\<And>q. stat_at fs' q = (if strict_prefix (ws_root sample_ws) q then None else stat_at sample_fs q)"
    by blast
  have "stat_at sample_fs [''ws''] = Some KDir" by code_simp
  then show ?thesis by (simp add: c st sample_ws_def)
qed

subsection \<open>Initialising keeps what is there\<close>

lemma fs_exists_metadata: "metadata_of fs cs = Inl e \<Longrightarrow> \<not> fs_exists fs cs"
  by (simp add: fs_exists_def)

lemma ensure_css_only_adds:
  assumes "ensure_default_site_css env root fs = (r, fs')" and "stat_at fs [] = Some KDir"
  shows "only_adds fs fs'"
proof -
  obtain r1 fs1 where c: "create_dir_path (ce_cwd env) (path_join root ''assets'') fs = (r1, fs1)"
    by (cases "create_dir_path (ce_cwd env) (path_join root ''assets'') fs")
  have a1: "only_adds fs fs1" using c by (rule create_dir_path_only_adds)
  have step: "only_adds g g'"
    if "fs_write cs t g = (w, g')" "metadata_of g cs = Inl NotFound" "stat_at g [] = Some KDir" for cs t g g' w
    using fs_write_only_adds [OF that(1) fs_exists_metadata [OF that(2)] that(3)] .
  show ?thesis
    using assms(1) c a1 only_adds_root [OF a1 assms(2)] assms(2)
    by (auto simp: ensure_default_site_css_def Let_def dest: step
        intro: only_adds_trans [OF a1] split: sum.splits kind.splits if_splits prod.splits)
qed


text \<open>The parent of a joined path is the directory it was joined to.\<close>

lemma is_dir_trailing_CurDir:
  assumes "fs_is_dir fs (cs @ [CurDir])"
  shows "fs_is_dir fs cs"
proof -
  from assms obtain p where w: "walk False fs max_links [] (cs @ [CurDir]) = Inr p" and d: "stat_at fs p = Some KDir"
    by (auto simp: fs_is_dir_def metadata_of_def canonicalize_def and_then_Inr_iff)
  have "walk False fs k cur (cs @ [CurDir]) = Inr p \<Longrightarrow> walk False fs k cur cs = Inr p" for k cur
    by (induction False fs k cur cs rule: walk.induct)
      (auto split: if_splits option.splits kind.splits nat.splits)
  with w d show ?thesis by (simp add: fs_is_dir_def metadata_of_def canonicalize_def)
qed

lemma join_parent:
  assumes "legal_name n" and "fs_is_dir fs (abs_components cwd b)"
  obtains ps where "abs_components cwd (path_join b n) = ps @ [Normal n]" "fs_is_dir fs ps"
proof -
  have n: "n \<noteq> ''''" "n \<noteq> ''.''" "n \<noteq> ''..''" "slash \<notin> set n" using assms(1) by (auto simp: legal_name_def)
  have na: "\<not> is_absolute n" using n(4) by (auto simp: is_absolute_def starts_with_iff slash_def)
  have last: "last n \<noteq> slash" using n by (metis last_in_set)
  consider "b = ''''" | "b \<noteq> ''''" "last b \<noteq> slash" | b' where "b = b' @ [slash]"
    by (metis append_butlast_last_id)
  then show ?thesis
  proof cases
    case 1
    then have "path_join b n = n" using na by (simp add: path_join_def)
    then have "abs_components cwd (path_join b n) = (RootDir # map Normal cwd) @ [Normal n]"
      using n na last by (simp add: abs_components_def os_components_def split_on_fresh)
    with 1 assms(2) show ?thesis using that by (simp add: abs_components_def os_components_def is_absolute_def starts_with_iff)
  next
    case 2
    then have "is_absolute (b @ slash # n) = is_absolute b"
      by (cases b) (simp_all add: is_absolute_def starts_with_iff)
    with 2 n na last have "abs_components cwd (path_join b n) = abs_components cwd b @ [Normal n]"
      by (simp add: path_join_def abs_components_def os_components_def split_on_append split_on_fresh
          flip: slash_def)
    with assms(2) show ?thesis using that by blast
  next
    case 3
    have abs: "is_absolute (b' @ slash # n) = is_absolute (b' @ [slash])"
      by (cases b') (simp_all add: is_absolute_def starts_with_iff)
    let ?ps = "RootDir # map Normal cwd @ (if is_absolute b then [RootDir] else []) @ concat (map os_segment (split_on slash b'))"
    have "abs_components cwd (path_join b n) = ?ps @ [Normal n]"
      using n na last by (simp add: 3 abs path_join_def abs_components_def os_components_def split_on_append split_on_fresh)
    moreover have "abs_components cwd b = ?ps @ [CurDir]"
      by (simp add: 3 abs_components_def os_components_def split_on_append)
    with assms(2) have "fs_is_dir fs ?ps" using is_dir_trailing_CurDir by metis
    ultimately show ?thesis by (rule that)
  qed
qed

text \<open>A write to a name that was free: whatever was added before, it makes this file and no other change.\<close>

lemma write_free_name:
  assumes w: "fs_write (ps @ [Normal x]) c fs1 = (Inr u, fs2)"
    and d: "canonicalize fs ps = Inr d" "stat_at fs d = Some KDir" "stat_at fs (d @ [x]) = None"
    and add: "only_adds fs fs1" and root: "stat_at fs [] = Some KDir"
  shows "only_adds fs fs2" and "metadata_of fs2 (ps @ [Normal x]) = Inr (KFile c)"
proof -
  from w obtain p where p: "walk True fs1 max_links [] (ps @ [Normal x]) = Inr p" "stat_at fs1 p \<noteq> Some KDir"
      "fs2 = put p (RegFile c) fs1"
    by (rule fs_write_ok)
  have d1: "walk False fs1 max_links [] ps = Inr d" "stat_at fs1 d = Some KDir"
    using only_adds_canonicalize [OF add d(1)] only_adds_keeps [OF add] d(2) by (simp_all add: canonicalize_def)
  have root1: "stat_at fs1 [] = Some KDir" using add root by (rule only_adds_root)
  have nl: "stat_at fs1 (d @ [x]) \<noteq> Some (KLink t)" for t using only_adds_link [OF add] d(3) by force
  have pd: "p = d @ [x]" by (rule walk_snoc_target [OF d1(1) p(1) root1 nl])
  have st: "stat_at fs2 q = (if q = d @ [x] then Some (KFile c) else stat_at fs1 q)" for q
    using p d1(2) by (simp add: pd stat_at_put_file)
  show "only_adds fs fs2"
    using add d(3) unfolding only_adds_def st by (metis kind.distinct(4) option.inject option.distinct(1))
  have "walk False fs2 max_links [] ps = Inr d"
    using d1
  proof (rule walk_agree_dir)
    fix q kd assume "stat_at fs1 q = Some kd" "\<And>c. kd \<noteq> KFile c"
    moreover from this p(2) pd nl have "q \<noteq> d @ [x]" by (cases kd) auto
    ultimately show "stat_at fs2 q = Some kd" by (simp add: st)
  qed
  then have "walk False fs2 max_links [] (ps @ [Normal x]) = Inr (d @ [x])"
    using st walk_snoc_parent [OF d1(1) p(1) root1] by (intro walk_snoc_file) auto
  then show "metadata_of fs2 (ps @ [Normal x]) = Inr (KFile c)" by (simp add: metadata_of_def canonicalize_def st)
qed


lemma free_name:
  assumes "metadata_of fs (ps @ [Normal x]) = Inl e" and "\<And>t. symlink_metadata fs (ps @ [Normal x]) \<noteq> Inr (KLink t)"
    and d: "canonicalize fs ps = Inr d" "stat_at fs d = Some KDir" and "\<not> has_nul x"
  shows "stat_at fs (d @ [x]) = None"
proof (rule ccontr)
  assume "stat_at fs (d @ [x]) \<noteq> None"
  then obtain kd where kd: "stat_at fs (d @ [x]) = Some kd" by blast
  then have "symlink_metadata fs (ps @ [Normal x]) = Inr kd" using d(1) assms(5) by (intro symlink_metadata_snoc)
  with assms(2) have "kd = KDir \<or> (\<exists>c. kd = KFile c)" by (cases kd) auto
  then have "canonicalize fs (ps @ [Normal x]) = Inr (d @ [x])"
    using kd d(1) assms(5) walk_snoc_dir walk_snoc_file unfolding canonicalize_def by blast
  with kd assms(1) show False by (simp add: metadata_of_def)
qed

lemma ensure_index_ok:
  assumes "ensure_workspace_index_html env root fs = (r, fs')" and "fs_is_dir fs (abs_path env root)"
    and nl: "\<And>t. symlink_metadata fs (abs_path env (path_join root ''index.html'')) \<noteq> Inr (KLink t)"
    and fsroot: "stat_at fs [] = Some KDir"
  shows "only_adds fs fs'"
    and "r = Inr b \<Longrightarrow> \<exists>c. metadata_of fs' (abs_path env (path_join root ''index.html'')) = Inr (KFile c)
      \<and> (b \<longrightarrow> c = ce_index_html env)"
proof -
  let ?cs = "abs_path env (path_join root ''index.html'')"
  obtain r1 fs1 where css: "ensure_default_site_css env root fs = (r1, fs1)"
    by (cases "ensure_default_site_css env root fs")
  have a1: "only_adds fs fs1" using css fsroot by (rule ensure_css_only_adds)
  have "legal_name ''index.html''" by simp
  then obtain ps where ps: "?cs = ps @ [Normal ''index.html'']" and "fs_is_dir fs ps"
    using assms(2) unfolding abs_path_def by (rule join_parent)
  then obtain d where d: "canonicalize fs ps = Inr d" "stat_at fs d = Some KDir"
    by (auto simp: fs_is_dir_def metadata_of_def and_then_Inr_iff)
  consider "fs' = fs \<and> (r = Inr b \<longrightarrow> \<not> b \<and> (\<exists>c. metadata_of fs ?cs = Inr (KFile c)))"
    | "metadata_of fs ?cs = Inl NotFound" "fs' = fs1" "\<forall>b. r \<noteq> Inr b"
    | w where "metadata_of fs ?cs = Inl NotFound" "fs_write ?cs (ce_index_html env) fs1 = (w, fs')"
        "\<forall>e. w = Inl e \<longrightarrow> (\<forall>b. r \<noteq> Inr b)"
    using assms(1) css
    by (auto simp: ensure_workspace_index_html_def Let_def split: sum.splits kind.splits if_splits prod.splits)
  then have "only_adds fs fs' \<and> (r = Inr b \<longrightarrow> (\<exists>c. metadata_of fs' ?cs = Inr (KFile c) \<and> (b \<longrightarrow> c = ce_index_html env)))"
  proof cases
    case (3 w)
    show ?thesis
    proof (cases w)
      case (Inl e)
      with 3(2) have "fs' = fs1" by (simp add: fs_write_fail)
      with 3(3) Inl a1 show ?thesis by simp
    next
      case (Inr u)
      have "stat_at fs (d @ [''index.html'']) = None"
        using 3(1) nl d unfolding ps by (rule free_name) (simp add: has_nul_def)
      from write_free_name [OF 3(2) [unfolded ps Inr] d this a1 fsroot] show ?thesis by (simp add: ps)
    qed
  qed (use a1 in auto)
  then show "only_adds fs fs'"
    and "r = Inr b \<Longrightarrow> \<exists>c. metadata_of fs' ?cs = Inr (KFile c) \<and> (b \<longrightarrow> c = ce_index_html env)"
    by blast+
qed

text \<open>Preparing a workspace keeps what is there. When the root is a directory and \<open>index.html\<close> is
  not a link, nothing that exists changes, whatever the outcome. After success \<open>index.html\<close> is a
  regular file, with the default page when the command says it made one, and running the command
  again makes nothing and changes nothing.\<close>

theorem initialising_keeps_files:
  assumes "ensure_workspace_index_html env root fs = (r, fs')" and "fs_is_dir fs (abs_path env root)"
    and "\<forall>t. symlink_metadata fs (abs_path env (path_join root ''index.html'')) \<noteq> Inr (KLink t)"
    and "stat_at fs [] = Some KDir"
  shows "(\<forall>q. stat_at fs q \<noteq> None \<longrightarrow> stat_at fs' q = stat_at fs q)
    \<and> (\<forall>b. r = Inr b \<longrightarrow> ensure_workspace_index_html env root fs' = (Inr False, fs')
        \<and> (\<exists>c. metadata_of fs' (abs_path env (path_join root ''index.html'')) = Inr (KFile c)
            \<and> (b \<longrightarrow> c = ce_index_html env)))"
proof -
  note ok = ensure_index_ok [OF assms(1,2) _ assms(4)]
  have "ensure_workspace_index_html env root fs' = (Inr False, fs')" if "r = Inr b" for b
    using ok(2) [OF _ that] assms(3) by (auto simp: ensure_workspace_index_html_def Let_def)
  moreover have "\<forall>q. stat_at fs q \<noteq> None \<longrightarrow> stat_at fs' q = stat_at fs q"
    using only_adds_keeps [OF ok(1)] assms(3) by blast
  ultimately show ?thesis using ok(2) assms(3) by blast
qed

theorem initialising_keeps_files_witness:
  "ensure_workspace_index_html sample_cli_env ''/home''
     (snd (ensure_workspace_index_html sample_cli_env ''/home'' sample_home))
   = (Inr False, snd (ensure_workspace_index_html sample_cli_env ''/home'' sample_home))"
proof -
  have e: "ensure_workspace_index_html sample_cli_env ''/home'' sample_home
      = (Inr True, snd (ensure_workspace_index_html sample_cli_env ''/home'' sample_home))"
    by code_simp
  have d: "fs_is_dir sample_home (abs_path sample_cli_env ''/home'')" by code_simp
  have "symlink_metadata sample_home (abs_path sample_cli_env (path_join ''/home'' ''index.html'')) = Inl NotFound"
    by code_simp
  then have l: "\<forall>t. symlink_metadata sample_home (abs_path sample_cli_env (path_join ''/home'' ''index.html'')) \<noteq> Inr (KLink t)"
    by simp
  have "stat_at sample_home [] = Some KDir" by code_simp
  from initialising_keeps_files [OF e d l this] show ?thesis by blast
qed

end
