(* ===== verification/Application.thy ===== *)
theory Application
  imports Session_Store Openai_Provider File_Tool Map_Tool Web_Fetch Web_Search Rpc_Connections Cli_Workspace
begin

section \<open>The application\<close>

text \<open>
  How \<open>reshape-cli/src/lib.rs\<close> puts the parts together: the registry of tools a configuration asks
  for, the runtime over the OpenAI provider and the session file, and the command \<open>run\<close>. The world
  of the application is a file tree and a network; the provider and the web tools work on the
  network, the file tools and the session store on the tree. The lemmas show what a whole turn of
  the application can do to the tree, whatever the language model and the web servers answer.
\<close>

subsection \<open>Building the runtime\<close>

record ('u, 'n) app_env =
  ae_serde :: serde_json
  ae_html :: html_env
  ae_openai :: "'n openai_env"
  ae_search :: "'n search_env"
  ae_fetch :: "('u, 'n) fetch_env"
  ae_fetch_client :: "nat \<Rightarrow> string + unit"
  ae_stamps :: "'n \<Rightarrow> stamps \<times> 'n"
  ae_codec :: session_codec
  ae_prompt :: string

definition on_net :: "('n \<Rightarrow> 'r \<times> 'n) \<Rightarrow> 'n tool_world \<Rightarrow> 'r \<times> 'n tool_world" where
  "on_net f w = (case f (tw_net w) of (r, n) \<Rightarrow> (r, w\<lparr>tw_net := n\<rparr>))"

definition on_fs :: "(node \<Rightarrow> 'r \<times> node) \<Rightarrow> 'n tool_world \<Rightarrow> 'r \<times> 'n tool_world" where
  "on_fs f w = (case f (tw_fs w) of (r, fs) \<Rightarrow> (r, w\<lparr>tw_fs := fs\<rparr>))"

definition fetch_tool_new :: "('u, 'n) app_env \<Rightarrow> web_fetch_config \<Rightarrow> unit result" where
  "fetch_tool_new env cfg =
     map_err (\<lambda>e. Config (''build web_fetch client: '' @ e)) (ae_fetch_client env (wf_timeout_secs cfg))"

definition base_tools :: "('u, 'n) app_env \<Rightarrow> local_workspace \<Rightarrow> 'n tool_world tool list" where
  "base_tools env ws =
     [file_tool (ae_serde env) (ae_html env) ws FileList, map_tool (ae_serde env) (ae_html env) ws,
      file_tool (ae_serde env) (ae_html env) ws FileRead, file_tool (ae_serde env) (ae_html env) ws FileWrite,
      file_tool (ae_serde env) (ae_html env) ws FileDelete, complete_task_tool (ae_serde env)]"

definition web_tools ::
    "('u, 'n) app_env \<Rightarrow> app_config \<Rightarrow> local_workspace \<Rightarrow> 'n tool_world tool list result" where
  "web_tools env cfg ws =
     (let search_cfg = tc_web_search (ac_tools cfg);
          fetch_cfg = tc_web_fetch (ac_tools cfg)
      in and_then (if ws_enabled search_cfg
                   then and_then (search_tool_new (ae_search env) search_cfg) (\<lambda>st.
                          Inr [web_search_tool (ae_serde env) (ae_search env) st])
                   else Inr []) (\<lambda>searches.
           and_then (if wf_enabled fetch_cfg
                     then and_then (fetch_tool_new env fetch_cfg) (\<lambda>u.
                            Inr [web_fetch_tool (ae_serde env) (ae_fetch env) fetch_cfg ws])
                     else Inr []) (\<lambda>fetches.
             Inr (searches @ fetches))))"

definition build_tools ::
    "('u, 'n) app_env \<Rightarrow> app_config \<Rightarrow> local_workspace \<Rightarrow> 'n tool_world tool_registry result" where
  "build_tools env cfg ws =
     and_then (web_tools env cfg ws) (\<lambda>ts. Inr (fold register (base_tools env ws @ ts) registry_new))"

definition app_deps ::
    "('u, 'n) app_env \<Rightarrow> openai_provider \<Rightarrow> 'n tool_world tool_registry \<Rightarrow> file_store \<Rightarrow> 'n tool_world runtime_deps" where
  "app_deps env p tools st =
     \<lparr>llm_chat = (\<lambda>ms ds opts. on_net (provider_chat (ae_serde env) (ae_openai env) p ms ds opts)),
      tools_definitions = registry_definitions tools,
      tools_execute = registry_execute tools,
      sessions_load = on_fs (file_load (ae_codec env) st),
      sessions_save = (\<lambda>s. on_fs (file_save (ae_codec env) st s)),
      record_event = (\<lambda>n w. w),
      fresh_stamps = on_net (ae_stamps env),
      system_prompt = ae_prompt env\<rparr>"

definition build_runtime_with_provider_and_session_store ::
    "('u, 'n) app_env \<Rightarrow> apath \<Rightarrow> app_config \<Rightarrow> openai_provider \<Rightarrow> file_store \<Rightarrow> node
     \<Rightarrow> ('n tool_world runtime_deps \<times> runtime_limits) result" where
  "build_runtime_with_provider_and_session_store env cwd cfg p st fs =
     and_then (local_workspace_new cwd fs (wc_root (ac_workspace cfg))) (\<lambda>ws.
       and_then (build_tools env cfg ws) (\<lambda>tools.
         Inr (app_deps env p tools st,
              \<lparr>max_tool_iterations = rc_max_tool_iterations (ac_runtime cfg),
               max_tool_calls = rc_max_tool_calls (ac_runtime cfg)\<rparr>)))"

definition build_runtime_with_session_store ::
    "('u, 'n) app_env \<Rightarrow> apath \<Rightarrow> app_config \<Rightarrow> file_store \<Rightarrow> node
     \<Rightarrow> ('n tool_world runtime_deps \<times> runtime_limits) result" where
  "build_runtime_with_session_store env cwd cfg st fs =
     (case lc_provider (ac_llm cfg) of
        OpenAi \<Rightarrow>
          and_then (provider_from_config (ae_openai env) (lc_openai (ac_llm cfg))) (\<lambda>p.
            build_runtime_with_provider_and_session_store env cwd cfg p st fs))"

subsection \<open>The command\<close>

record cli_io =
  io_home :: "string option"
  io_version :: string
  io_level_ok :: "string \<Rightarrow> bool"
  io_bind :: "ip_addr \<times> 16 word \<Rightarrow> io_error + unit"

datatype 'w run_outcome = Printed string | Serving "ip_addr \<times> 16 word" "'w runtime_deps" runtime_limits apath string

definition init_logging :: "cli_io \<Rightarrow> string \<Rightarrow> unit result" where
  "init_logging io level =
     (if io_level_ok io level then Inr () else Inl (Config (''invalid log level: '' @ level)))"

definition run_clean :: "cli_env \<Rightarrow> cli_args \<Rightarrow> string \<Rightarrow> node \<Rightarrow> string result \<times> node" where
  "run_clean ce args home fs =
     (case into_config_with_home ce args home fs of
        (Inl e, fs1) \<Rightarrow> (Inl e, fs1)
      | (Inr cfg, fs1) \<Rightarrow>
          (case clean_workspace (ce_cwd ce) (wc_root (ac_workspace cfg)) fs1 of
             (Inl e, fs2) \<Rightarrow> (Inl e, fs2)
           | (Inr n, fs2) \<Rightarrow>
               (Inr (''removed '' @ show_nat n @ '' workspace entries from '' @ wc_root (ac_workspace cfg)), fs2)))"

definition run_init :: "cli_env \<Rightarrow> cli_args \<Rightarrow> string \<Rightarrow> node \<Rightarrow> string result \<times> node" where
  "run_init ce args home fs =
     (case init_workspace_with_home ce args home fs of
        (Inl e, fs1) \<Rightarrow> (Inl e, fs1)
      | (Inr generated, fs1) \<Rightarrow>
          (and_then (resolved_workspace_for_init ce args home fs1) (\<lambda>w.
             Inr ((if generated then ''initialized workspace at '' else ''workspace already initialized at '') @ w)), fs1))"

definition run_agent ::
    "('u, 'n) app_env \<Rightarrow> cli_env \<Rightarrow> cli_io \<Rightarrow> cli_args \<Rightarrow> string \<Rightarrow> node
     \<Rightarrow> 'n tool_world run_outcome result \<times> node" where
  "run_agent env ce io args home fs =
     (case server_config_with_home ce args home fs of
        Inl e \<Rightarrow> (Inl e, fs)
      | Inr server \<Rightarrow>
          (case into_config_with_home ce args home fs of
             (Inl e, fs1) \<Rightarrow> (Inl e, fs1)
           | (Inr cfg, fs1) \<Rightarrow>
               (case ensure_workspace_index_html ce (wc_root (ac_workspace cfg)) fs1 of
                  (Inl e, fs2) \<Rightarrow> (Inl e, fs2)
                | (Inr generated, fs2) \<Rightarrow>
                    (and_then (build_runtime_with_session_store env (ce_cwd ce) cfg
                         \<lparr>store_cwd = ce_cwd ce, store_path = default_session_path home\<rparr> fs2) (\<lambda>(deps, limits).
                       and_then (bind_addr server) (\<lambda>addr.
                         and_then (map_err Io (io_bind io addr)) (\<lambda>u.
                           and_then (map_err Io (canonicalize fs2 (abs_path ce (wc_root (ac_workspace cfg))))) (\<lambda>root.
                             Inr (Serving addr deps limits root (local_url server)))))), fs2))))"

definition run_cli ::
    "('u, 'n) app_env \<Rightarrow> cli_env \<Rightarrow> cli_io \<Rightarrow> cli_args \<Rightarrow> node \<Rightarrow> 'n tool_world run_outcome result \<times> node" where
  "run_cli env ce io args fs =
     (case io_home io of
        None \<Rightarrow> (Inl (Config ''could not determine user home directory''), fs)
      | Some home \<Rightarrow>
          (case and_then (resolved_log_level ce args home fs) (init_logging io) of
             Inl e \<Rightarrow> (Inl e, fs)
           | Inr u \<Rightarrow>
               (case prepare_user_environment ce args home fs of
                  (Inl e, fs1) \<Rightarrow> (Inl e, fs1)
                | (Inr u, fs1) \<Rightarrow>
                    (case command_kind args of
                       CmdVersion \<Rightarrow> (Inr (Printed (io_version io)), fs1)
                     | CmdWorkspaceClean \<Rightarrow>
                         (case run_clean ce args home fs1 of (r, fs2) \<Rightarrow> (and_then r (\<lambda>s. Inr (Printed s)), fs2))
                     | CmdWorkspaceInit \<Rightarrow>
                         (case run_init ce args home fs1 of (r, fs2) \<Rightarrow> (and_then r (\<lambda>s. Inr (Printed s)), fs2))
                     | CmdAgent \<Rightarrow> run_agent env ce io args home fs1))))"


subsection \<open>What an operation can touch\<close>

text \<open>Outside the set \<open>S\<close> nothing changes but that directories may appear; no link is made anywhere.\<close>

definition touches :: "apath set \<Rightarrow> node \<Rightarrow> node \<Rightarrow> bool" where
  "touches S fs fs' \<longleftrightarrow>
     (\<forall>q. q \<notin> S \<longrightarrow> stat_at fs' q = stat_at fs q \<or> stat_at fs q = None \<and> stat_at fs' q = Some KDir)
     \<and> (\<forall>q t. stat_at fs' q = Some (KLink t) \<longrightarrow> stat_at fs q = Some (KLink t))"

lemma touches_refl [simp]: "touches S fs fs"
  by (simp add: touches_def)

lemma touches_trans: "touches S a b \<Longrightarrow> touches S b c \<Longrightarrow> touches S a c"
  unfolding touches_def by metis

lemma touches_mono: "touches S a b \<Longrightarrow> S \<subseteq> T \<Longrightarrow> touches T a b"
  unfolding touches_def by blast

lemma touches_keeps: "touches S a b \<Longrightarrow> q \<notin> S \<Longrightarrow> stat_at a q \<noteq> None \<Longrightarrow> stat_at b q = stat_at a q"
  unfolding touches_def by metis

lemma touches_new_dirs: "only_new_dirs a b \<Longrightarrow> touches S a b"
  unfolding only_new_dirs_def touches_def by (metis kind.distinct(5) option.inject)

lemma write_touches:
  assumes "local_inv ws fs" and "write_text ws path c fs = (r, fs')"
  shows "touches {q. prefix (ws_root ws) q} fs fs'"
proof (cases r)
  case (Inl e)
  with assms(2) show ?thesis using write_text_fail_effect touches_new_dirs by blast
next
  case (Inr v)
  from assms(1) assms(2) [unfolded Inr] obtain cp where "prefix (ws_root ws) cp"
      "stat_at fs' (cp @ [last (rel_names path)]) = Some (KFile c)"
      "\<And>q. q \<noteq> cp @ [last (rel_names path)] \<Longrightarrow> stat_at fs' q = stat_at fs q
         \<or> prefix (ws_root ws) q \<and> stat_at fs q = None \<and> stat_at fs' q = Some KDir"
    by (rule write_text_ok_effect) blast
  then show ?thesis
    unfolding touches_def by (metis kind.distinct(3,5) mem_Collect_eq option.inject prefix_append)
qed

lemma delete_touches:
  assumes "local_inv ws fs" and "delete_file ws path fs = (r, fs')"
  shows "touches {q. prefix (ws_root ws) q} fs fs'"
  using assms by (rule delete_file_effect) (auto simp: touches_def strict_prefix_def)

lemma ws_run_touches:
  "local_inv ws fs \<Longrightarrow> local_inv ws (ws_run ws ops fs) \<and> touches {q. prefix (ws_root ws) q} fs (ws_run ws ops fs)"
proof (induction ws ops fs rule: ws_run.induct)
  case (2 ws path c ops fs)
  obtain r fs1 where w: "write_text ws path c fs = (r, fs1)" by (rule prod.exhaust)
  with 2 write_text_inv write_touches show ?case by (fastforce intro: touches_trans)
next
  case (3 ws path c ops fs)
  obtain r fs1 where w: "write_text ws path c fs = (r, fs1)" by (rule prod.exhaust)
  with 3 write_text_inv write_touches show ?case
    by (fastforce simp: write_bytes_eq_write_text intro: touches_trans)
next
  case (4 ws path ops fs)
  obtain r fs1 where w: "delete_file ws path fs = (r, fs1)" by (rule prod.exhaust)
  with 4 delete_file_inv delete_touches show ?case by (fastforce intro: touches_trans)
qed simp

definition session_places :: "file_store \<Rightarrow> apath set" where
  "session_places st = {store_names st, tmp_names st}"

lemma save_touches:
  assumes "store_ready st fs" and "file_save cd st s fs = (r, fs')"
  shows "touches (session_places st) fs fs'"
proof -
  have "store_ready st fs'" using file_save_effect [OF assms] by blast
  then have "no_links fs' (store_names st)" "no_links fs' (tmp_names st)" by (simp_all add: store_ready_def)
  then have "stat_at fs' q \<noteq> Some (KLink t)" if "q \<in> session_places st" for q t
    using that no_linksD by (auto simp: session_places_def)
  with file_save_elsewhere [OF assms] show ?thesis
    unfolding touches_def session_places_def by (metis insertCI kind.distinct(5) option.inject)
qed

subsection \<open>The tools of the application\<close>

definition confined_tool :: "local_workspace \<Rightarrow> 'n tool_world tool \<Rightarrow> bool" where
  "confined_tool ws t \<longleftrightarrow> (\<forall>args w. \<exists>ops. tw_fs (snd (tool_run t args w)) = ws_run ws ops (tw_fs w))"

definition confined :: "local_workspace \<Rightarrow> 'n tool_world tool_registry \<Rightarrow> bool" where
  "confined ws reg \<longleftrightarrow> (\<forall>name args w. \<exists>ops. tw_fs (snd (registry_execute reg name args w)) = ws_run ws ops (tw_fs w))"

lemma no_ops: "tw_fs w' = tw_fs w \<Longrightarrow> \<exists>ops. tw_fs w' = ws_run ws ops (tw_fs w)"
  by (rule exI [of _ "[]"]) simp

lemma confined_register: "confined ws reg \<Longrightarrow> confined_tool ws t \<Longrightarrow> confined ws (register t reg)"
  unfolding confined_def confined_tool_def tr.exec_reg by simp

lemma confined_fold: "confined ws reg \<Longrightarrow> list_all (confined_tool ws) ts \<Longrightarrow> confined ws (fold register ts reg)"
  by (induction ts arbitrary: reg) (simp_all add: confined_register)

lemma confined_new: "confined ws registry_new"
  unfolding confined_def by (simp add: registry_execute_def registry_new_def no_ops)

lemma fetch_execute_ops:
  "\<exists>ops. tw_fs (snd (fetch_execute sj env cfg ws args w)) = ws_run ws ops (tw_fs w)"
proof -
  have s: "\<exists>ops. tw_fs (snd (store_download sj ws f sha path w1)) = ws_run ws ops (tw_fs w1)" for f sha path w1
  proof -
    have "tw_fs (snd (store_download sj ws f sha path w1)) = snd (write_bytes ws path (fr_bytes f) (tw_fs w1))"
      by (simp add: store_download_def split: prod.splits sum.splits)
    then show ?thesis unfolding ws_run_one by blast
  qed
  have p: "\<exists>ops. tw_fs (snd (place_download sj env cfg ws a f w1)) = ws_run ws ops (tw_fs w1)" for a f w1
  proof -
    define path where "path = unwrap_or (default_download_path env (wf_download_dir cfg) (fr_final_url f)
        (fr_content_type f) (sha256_hex env (fr_bytes f))) (fa_path a)"
    have "snd (place_download sj env cfg ws a f w1) = w1
        \<or> place_download sj env cfg ws a f w1 = store_download sj ws f (sha256_hex env (fr_bytes f)) path w1"
      by (cases "list_files ws (tw_fs w1)") (simp_all add: place_download_def Let_def path_def)
    then show ?thesis
    proof
      assume "snd (place_download sj env cfg ws a f w1) = w1"
      then show ?thesis by (intro no_ops) simp
    qed (simp add: s)
  qed
  show ?thesis
  proof (cases "\<exists>a. parse_fetch_args sj args = Inr (Inr a)")
    case False
    then show ?thesis by (intro no_ops) (auto simp: fetch_execute_def split: sum.split)
  next
    case True
    then obtain a r n where a: "parse_fetch_args sj args = Inr (Inr a)"
        and u: "fetch_url env cfg (fa_url a) (unwrap_or (wf_max_bytes cfg) (fa_max_bytes a)) (tw_net w) = (r, n)"
      by (metis prod.exhaust)
    show ?thesis
    proof (cases "\<exists>f. r = Inr f \<and> validate_content_type sj cfg (fr_content_type f) (fa_expected_content_type a) = Inr (Inr ())")
      case True
      then obtain f where "fetch_execute sj env cfg ws args w = place_download sj env cfg ws a f (w\<lparr>tw_net := n\<rparr>)"
        using a u by (auto simp: fetch_execute_def)
      with p [of a f "w\<lparr>tw_net := n\<rparr>"] show ?thesis by simp
    next
      case False
      with a u show ?thesis by (intro no_ops) (auto simp: fetch_execute_def Let_def split: sum.split)
    qed
  qed
qed

lemma confined_base: "list_all (confined_tool ws) (base_tools env ws)"
proof -
  have f: "confined_tool ws (file_tool sj he ws kd)" for sj he kd
    by (simp add: confined_tool_def file_tool_def file_execute_ops)
  have m: "confined_tool ws (map_tool sj he ws)" for sj he
    by (simp add: confined_tool_def map_tool_def map_execute_def no_ops)
  have c: "confined_tool ws (complete_task_tool sj)" for sj
    by (simp add: confined_tool_def complete_task_tool_def complete_execute_def no_ops split: sum.split)
  show ?thesis by (simp add: base_tools_def f m c)
qed

lemma confined_web: "web_tools env cfg ws = Inr ts \<Longrightarrow> list_all (confined_tool ws) ts"
proof -
  have s: "confined_tool ws (web_search_tool sj senv st)" for sj senv st
    by (simp add: confined_tool_def web_search_tool_def no_ops search_execute_fs)
  have f: "confined_tool ws (web_fetch_tool sj fenv fcfg ws)" for sj fenv fcfg
    by (simp add: confined_tool_def web_fetch_tool_def fetch_execute_ops)
  show "web_tools env cfg ws = Inr ts \<Longrightarrow> list_all (confined_tool ws) ts"
    by (auto simp: web_tools_def Let_def and_then_Inr_iff s f split: if_splits)
qed

lemma build_tools_confined: "build_tools env cfg ws = Inr reg \<Longrightarrow> confined ws reg"
  by (auto simp: build_tools_def and_then_Inr_iff intro!: confined_fold confined_new confined_base dest: confined_web)


subsection \<open>A whole turn\<close>

text \<open>The session file and its temporary file lie outside the workspace.\<close>

definition apart :: "local_workspace \<Rightarrow> file_store \<Rightarrow> bool" where
  "apart ws st \<longleftrightarrow> \<not> prefix (ws_root ws) (store_names st) \<and> \<not> prefix (ws_root ws) (tmp_names st)"

definition app_ready :: "local_workspace \<Rightarrow> file_store \<Rightarrow> node \<Rightarrow> bool" where
  "app_ready ws st fs \<longleftrightarrow> local_inv ws fs \<and> store_ready st fs"

definition app_places :: "local_workspace \<Rightarrow> file_store \<Rightarrow> apath set" where
  "app_places ws st = {q. prefix (ws_root ws) q} \<union> session_places st"

definition app_inv ::
    "'n tool_world tool_registry \<Rightarrow> local_workspace \<Rightarrow> file_store \<Rightarrow> node \<Rightarrow> 'n tool_world turn \<Rightarrow> bool" where
  "app_inv tools ws st fs0 t \<longleftrightarrow>
     (confined ws tools \<and> apart ws st \<longrightarrow>
        app_ready ws st (tw_fs (world t)) \<and> touches (app_places ws st) fs0 (tw_fs (world t)))"

lemma touches_root: "touches S a b \<Longrightarrow> [] \<notin> S \<Longrightarrow> stat_at a [] = Some KDir \<Longrightarrow> stat_at b [] = Some KDir"
  using touches_keeps by fastforce

lemma store_ready_touched:
  assumes "store_ready st fs" and "touches S fs fs'" and "stat_at fs' [] = Some KDir"
  shows "store_ready st fs'"
  using assms(1) _ assms(3) by (rule store_ready_keep) (use assms(2) in \<open>auto simp: touches_def\<close>)

lemma local_inv_root: "local_inv ws fs \<Longrightarrow> stat_at fs [] = Some KDir"
  using stat_at_root by (auto simp: local_inv_def)

lemma app_step_workspace:
  assumes "app_ready ws st fs" and "touches (app_places ws st) fs0 fs"
  shows "app_ready ws st (ws_run ws ops fs) \<and> touches (app_places ws st) fs0 (ws_run ws ops fs)"
proof -
  have i: "local_inv ws (ws_run ws ops fs)" and t: "touches {q. prefix (ws_root ws) q} fs (ws_run ws ops fs)"
    using ws_run_touches assms(1) by (simp_all add: app_ready_def)
  have "store_ready st (ws_run ws ops fs)"
    using _ t local_inv_root [OF i] by (rule store_ready_touched) (use assms(1) in \<open>simp add: app_ready_def\<close>)
  moreover have "touches (app_places ws st) fs (ws_run ws ops fs)"
    using t by (rule touches_mono) (simp add: app_places_def)
  ultimately show ?thesis using i assms(2) by (auto simp: app_ready_def intro: touches_trans)
qed

lemma app_step_save:
  assumes "apart ws st" and "app_ready ws st fs" and "touches (app_places ws st) fs0 fs"
    and "file_save cd st s fs = (r, fs')"
  shows "app_ready ws st fs' \<and> touches (app_places ws st) fs0 fs'"
proof -
  have rd: "store_ready st fs" and li: "local_inv ws fs" using assms(2) by (simp_all add: app_ready_def)
  have t: "touches (session_places st) fs fs'" using rd assms(4) by (rule save_touches)
  have "ws_root ws \<notin> session_places st" using assms(1) by (auto simp: apart_def session_places_def)
  then have "local_inv ws fs'" using touches_keeps [OF t] li by (auto simp: local_inv_def)
  moreover have "touches (app_places ws st) fs fs'" using t by (rule touches_mono) (simp add: app_places_def)
  ultimately show ?thesis
    using file_save_effect [OF rd assms(4)] assms(3) by (auto simp: app_ready_def intro: touches_trans)
qed

interpretation app: turn_invariant "app_deps env p tools st" tid "app_inv tools ws st fs0"
  for env :: "('u, 'n) app_env" and p tools st tid ws fs0
proof (unfold_locales, goal_cases)
  case (1 t kd tool args res msg)
  then show ?case by (simp add: app_inv_def emit_progress_def split: option.split)
next
  case (4 t ms ds opts r w)
  then show ?case by (auto simp: app_inv_def app_deps_def on_net_def split: prod.splits)
next
  case (5 t name a q w)
  show ?case
    unfolding app_inv_def
  proof
    assume h: "confined ws tools \<and> apart ws st"
    then have "\<exists>ops. tw_fs (snd (registry_execute tools name a (world t))) = ws_run ws ops (tw_fs (world t))"
      by (simp add: confined_def)
    then obtain ops where "tw_fs w = ws_run ws ops (tw_fs (world t))" using 5(2) by (auto simp: app_deps_def)
    with 5(1) h app_step_workspace [of ws st "tw_fs (world t)" fs0 ops] show "app_ready ws st (tw_fs (world (t\<lparr>world := w\<rparr>)))
        \<and> touches (app_places ws st) fs0 (tw_fs (world (t\<lparr>world := w\<rparr>)))"
      by (simp add: app_inv_def)
  qed
next
  case (6 t s u w)
  obtain r fs' where "file_save (ae_codec env) st s (tw_fs (world t)) = (r, fs')" by (rule prod.exhaust)
  with 6 show ?case
    using app_step_save [of ws st "tw_fs (world t)" fs0 "ae_codec env" s r fs']
    by (auto simp: app_inv_def app_deps_def on_fs_def)
next
  case (7 t stp w)
  then show ?case by (auto simp: app_inv_def app_deps_def on_net_def split: prod.splits)
qed (simp_all add: app_inv_def)


lemma app_process:
  assumes "confined ws tools" and "apart ws st" and "app_ready ws st (tw_fs w)"
    and "process_with_optional_progress sj (app_deps env p tools st) limits pg event w = (r, t)"
  shows "app_ready ws st (tw_fs (world t)) \<and> touches (app_places ws st) (tw_fs w) (tw_fs (world t))"
    and "r = Some (Inr e) \<Longrightarrow> \<exists>s out pv t0. fst (file_load (ae_codec env) st (tw_fs w)) = Inr s
      \<and> app_inv tools ws st (tw_fs w) t0
      \<and> complete_turn (app_deps env p tools st) (turn_id event) (record_input (payload event) s) out pv t0
        = (Some (Inr e), t)"
proof -
  let ?P = "app_inv tools ws st (tw_fs w)"
  have start: "?P (start_turn pg w)" using assms(3) by (simp add: app_inv_def start_turn_def)
  have load: "?P (t\<lparr>world := w1\<rparr>)" if "?P t" "sessions_load (app_deps env p tools st) (world t) = (q, w1)" for t q w1
  proof -
    have "tw_fs w1 = tw_fs (world t)"
      using that(2) fstore.load_state by (fastforce simp: app_deps_def on_fs_def split: prod.splits)
    with that(1) show ?thesis by (simp add: app_inv_def)
  qed
  have ev: "record_event (app_deps env p tools st) n w = w" for n by (simp add: app_deps_def)
  have start': "?P (start_turn pg (record_event (app_deps env p tools st) ''inbound_received'' w))"
    using start by (simp add: ev)
  have inv: "?P t \<and> (\<forall>e. r = Some (Inr e) \<longrightarrow>
      (\<exists>s w1. sessions_load (app_deps env p tools st) w = (Inr s, w1)
         \<and> (\<exists>out pv t0. ?P t0 \<and> complete_turn (app_deps env p tools st) (turn_id event)
              (record_input (payload event) s) out pv t0 = (Some (Inr e), t))))"
    by (rule app.process_inv [OF refl start start' _ assms(4), unfolded ev app.completes_def]) (rule load)
  from inv assms(1,2) show "app_ready ws st (tw_fs (world t)) \<and> touches (app_places ws st) (tw_fs w) (tw_fs (world t))"
    by (simp add: app_inv_def)
  show "\<exists>s out pv t0. fst (file_load (ae_codec env) st (tw_fs w)) = Inr s
      \<and> app_inv tools ws st (tw_fs w) t0
      \<and> complete_turn (app_deps env p tools st) (turn_id event) (record_input (payload event) s) out pv t0
        = (Some (Inr e), t)"
    if "r = Some (Inr e)"
  proof -
    from inv that obtain s w1 where ld: "sessions_load (app_deps env p tools st) w = (Inr s, w1)"
        and c: "\<exists>out pv t0. ?P t0 \<and> complete_turn (app_deps env p tools st) (turn_id event)
          (record_input (payload event) s) out pv t0 = (Some (Inr e), t)"
      by blast
    have "fst (file_load (ae_codec env) st (tw_fs w)) = Inr s"
      using ld by (auto simp: app_deps_def on_fs_def split: prod.splits)
    with c show ?thesis by blast
  qed
qed

lemma build_runtimeD:
  assumes "build_runtime_with_session_store env cwd cfg st fs = Inr (deps, limits)"
  obtains ws p tools where "local_workspace_new cwd fs (wc_root (ac_workspace cfg)) = Inr ws"
    "confined ws tools" "deps = app_deps env p tools st"
proof -
  from assms obtain ws p tools where "local_workspace_new cwd fs (wc_root (ac_workspace cfg)) = Inr ws"
      "build_tools env cfg ws = Inr tools" "deps = app_deps env p tools st"
    by (auto simp: build_runtime_with_session_store_def build_runtime_with_provider_and_session_store_def
        and_then_Inr_iff split: llm_provider_kind.splits)
  then show ?thesis using build_tools_confined that by blast
qed

text \<open>C1: a turn of the application changes nothing outside the workspace. With the runtime that the
  configuration builds, for whatever the language model asks for and whatever web servers answer,
  and whether the turn succeeds or fails: outside the workspace root every file, directory and
  link is left as it was, the session file and its temporary file excepted. All that can appear
  there are directories; no file and no link is created. No link is created inside either.\<close>

theorem turn_stays_in_workspace:
  assumes "build_runtime_with_session_store env cwd cfg st fs = Inr (deps, limits)"
    and "local_workspace_new cwd fs (wc_root (ac_workspace cfg)) = Inr ws"
    and "apart ws st" and "app_ready ws st (tw_fs w)"
    and "process_with_optional_progress sj deps limits pg event w = (r, t)"
  shows "app_ready ws st (tw_fs (world t))
    \<and> (\<forall>q. \<not> prefix (ws_root ws) q \<longrightarrow> q \<noteq> store_names st \<longrightarrow> q \<noteq> tmp_names st \<longrightarrow>
        stat_at (tw_fs (world t)) q = stat_at (tw_fs w) q
        \<or> stat_at (tw_fs w) q = None \<and> stat_at (tw_fs (world t)) q = Some KDir)
    \<and> (\<forall>q l. stat_at (tw_fs (world t)) q = Some (KLink l) \<longrightarrow> stat_at (tw_fs w) q = Some (KLink l))"
proof -
  from assms(1) obtain ws' p tools where "local_workspace_new cwd fs (wc_root (ac_workspace cfg)) = Inr ws'"
      "confined ws' tools" "deps = app_deps env p tools st"
    by (rule build_runtimeD)
  with assms have "confined ws tools" "process_with_optional_progress sj (app_deps env p tools st) limits pg event w = (r, t)"
    by simp_all
  from app_process(1) [OF this(1) assms(3,4) this(2)] show ?thesis
    by (auto simp: touches_def app_places_def session_places_def)
qed


text \<open>C2: a finished turn is remembered. When a turn of the application succeeds with an answer, the
  session file afterwards holds the session it held before with exactly the input and that
  answer appended, although the tools have worked on the same tree in between; the history that
  clients are shown grows by these two messages.\<close>

theorem finished_turn_is_remembered:
  assumes "build_runtime_with_session_store env cwd cfg st fs = Inr (deps, limits)"
    and "local_workspace_new cwd fs (wc_root (ac_workspace cfg)) = Inr ws"
    and "apart ws st" and "app_ready ws st (tw_fs w)"
    and "process_with_optional_progress sj deps limits pg event w = (Some (Inr e), t)"
    and "fst (file_load (ae_codec env) st (tw_fs w)) = Inr s"
    and "s' = record_output (payload e) (record_input (payload event) s)" and "storable (ae_codec env) s'"
  shows "fst (file_load (ae_codec env) st (tw_fs (world t))) = Inr s'
    \<and> hb_messages (history_body_of s') = hb_messages (history_body_of s)
        @ List.map_filter history_message_of [Input (payload event), Output (payload e)]"
proof -
  from assms(1) obtain ws' p tools where b: "local_workspace_new cwd fs (wc_root (ac_workspace cfg)) = Inr ws'"
      "confined ws' tools" "deps = app_deps env p tools st"
    by (rule build_runtimeD)
  with assms(2) have c: "confined ws tools" by simp
  from app_process(2) [OF c assms(3,4) assms(5) [unfolded b(3)] refl] assms(6) obtain out pv t0 where
      inv: "app_inv tools ws st (tw_fs w) t0"
      and fin: "complete_turn (app_deps env p tools st) (turn_id event) (record_input (payload event) s) out pv t0
        = (Some (Inr e), t)"
    by auto
  obtain u fs1 where sv: "file_save (ae_codec env) st (record_output out (record_input (payload event) s))
      (tw_fs (world t0)) = (u, fs1)" by (rule prod.exhaust)
  from fin sv have "u = Inr ()" and pe: "payload e = out" and fs1: "tw_fs (world t) = fs1"
    by (auto simp: complete_turn_def app_deps_def on_fs_def on_net_def emit_progress_def Let_def for_session_def
        split: sum.splits prod.splits option.splits)
  moreover have "store_ready st (tw_fs (world t0))" using inv c assms(3) by (simp add: app_inv_def app_ready_def)
  ultimately have "fst (file_load (ae_codec env) st fs1) = Inr s'"
    using fstore.save_load [of st "tw_fs (world t0)" "ae_codec env" s' fs1] sv assms(7,8) by simp
  moreover have "hb_messages (history_body_of s') = hb_messages (history_body_of s)
        @ List.map_filter history_message_of [Input (payload event), Output (payload e)]"
    by (simp add: assms(7) history_body_of_def record_output_def record_input_def List.map_filter_def)
  ultimately show ?thesis by (simp add: fs1)
qed


subsection \<open>A concrete application\<close>

definition answering_openai :: "unit openai_env" where
  "answering_openai =
     \<lparr>build_client = (\<lambda>n. Inr ()), header_value = Inr,
      http_post = (\<lambda>u hs b w. (Inr \<lparr>status_text = '''', status_success = True, body_text = Inr '''',
        body_bytes = Inr '''', body_chunks = []\<rparr>, w)),
      de_response = (\<lambda>s. Inr \<lparr>choices = [\<lparr>choice_message = \<lparr>rm_content = Some ''ok'', rm_tool_calls = None\<rparr>\<rparr>]\<rparr>),
      de_chunk = (\<lambda>s. Inl ''none'')\<rparr>"

definition next_session :: session where
  "next_session = record_output (FinalMessage ''ok'') (record_input (payload sample_event) default_session)"

definition two_session_codec :: session_codec where
  "two_session_codec =
     \<lparr>ser_session = (\<lambda>s. if s = default_session then Inr ''{}'' else if s = next_session then Inr ''1'' else Inl ''no''),
      de_session = (\<lambda>c. if c = ''{}'' then Inr default_session else Inr next_session)\<rparr>"

definition sample_app_env :: "(string, unit) app_env" where
  "sample_app_env =
     \<lparr>ae_serde = sample_serde, ae_html = sample_html, ae_openai = answering_openai, ae_search = sample_search,
      ae_fetch = sample_net, ae_fetch_client = (\<lambda>n. Inr ()), ae_stamps = (\<lambda>n. (([], [], 0), n)),
      ae_codec = two_session_codec, ae_prompt = ''''\<rparr>"

definition sample_app_config :: app_config where
  "sample_app_config =
     default_app_config\<lparr>ac_workspace := \<lparr>wc_root = ''/ws''\<rparr>,
       ac_llm := \<lparr>lc_provider = OpenAi, lc_openai = default_openai_config\<lparr>oa_api_key := ''k'', oa_stream := False\<rparr>\<rparr>\<rparr>"

definition sample_app_fs :: node where
  "sample_app_fs = Dir [(''ws'', Dir []), (''home'', Dir [])]"

definition sample_app_world :: "unit tool_world" where
  "sample_app_world = \<lparr>tw_fs = sample_app_fs, tw_net = ()\<rparr>"

definition sample_app_deps :: "unit tool_world runtime_deps" where
  "sample_app_deps =
     app_deps sample_app_env
       \<lparr>op_config = default_openai_config\<lparr>oa_api_key := ''k'', oa_stream := False\<rparr>, op_api_key = ''k''\<rparr>
       (fold register (base_tools sample_app_env sample_ws) registry_new) sample_store"

lemma sample_build:
  "build_runtime_with_session_store sample_app_env [] sample_app_config sample_store sample_app_fs
   = Inr (sample_app_deps, \<lparr>max_tool_iterations = 8, max_tool_calls = 32\<rparr>)"
  and sample_open: "local_workspace_new [] sample_app_fs (wc_root (ac_workspace sample_app_config)) = Inr sample_ws"
proof -
  have p: "provider_from_config answering_openai (default_openai_config\<lparr>oa_api_key := ''k'', oa_stream := False\<rparr>)
      = Inr \<lparr>op_config = default_openai_config\<lparr>oa_api_key := ''k'', oa_stream := False\<rparr>, op_api_key = ''k''\<rparr>"
    by code_simp
  have n: "local_workspace_new [] sample_app_fs ''/ws'' = Inr sample_ws" by code_simp
  then show "local_workspace_new [] sample_app_fs (wc_root (ac_workspace sample_app_config)) = Inr sample_ws"
    by (simp add: sample_app_config_def)
  have f: "ac_llm sample_app_config
        = \<lparr>lc_provider = OpenAi, lc_openai = default_openai_config\<lparr>oa_api_key := ''k'', oa_stream := False\<rparr>\<rparr>"
      "ac_workspace sample_app_config = \<lparr>wc_root = ''/ws''\<rparr>"
      "ac_runtime sample_app_config = \<lparr>rc_max_tool_iterations = 8, rc_max_tool_calls = 32\<rparr>"
    by (simp_all add: sample_app_config_def default_app_config_def)
  have o: "ae_openai sample_app_env = answering_openai" by (simp add: sample_app_env_def)
  have t: "build_tools sample_app_env sample_app_config sample_ws
      = Inr (fold register (base_tools sample_app_env sample_ws) registry_new)"
    by (simp add: build_tools_def web_tools_def sample_app_config_def default_app_config_def
        default_web_search_config_def default_web_fetch_config_def)
  show "build_runtime_with_session_store sample_app_env [] sample_app_config sample_store sample_app_fs
    = Inr (sample_app_deps, \<lparr>max_tool_iterations = 8, max_tool_calls = 32\<rparr>)"
    unfolding build_runtime_with_session_store_def build_runtime_with_provider_and_session_store_def
    by (simp add: t o f n p sample_app_deps_def)
qed

lemma sample_app_ready: "apart sample_ws sample_store" "app_ready sample_ws sample_store (tw_fs sample_app_world)"
  by code_simp+

theorem turn_stays_in_workspace_witness:
  "app_ready sample_ws sample_store (tw_fs (world (snd (process_with_optional_progress sample_serde sample_app_deps
     \<lparr>max_tool_iterations = 8, max_tool_calls = 32\<rparr> True sample_event sample_app_world))))"
  using turn_stays_in_workspace [OF sample_build sample_open sample_app_ready prod.collapse [symmetric]] by blast

lemma sample_turn:
  "\<exists>e t. process_with_optional_progress sample_serde sample_app_deps
     \<lparr>max_tool_iterations = 8, max_tool_calls = 32\<rparr> False sample_event sample_app_world = (Some (Inr e), t)
     \<and> payload e = FinalMessage ''ok''"
proof -
  let ?r = "process_with_optional_progress sample_serde sample_app_deps
     \<lparr>max_tool_iterations = 8, max_tool_calls = 32\<rparr> False sample_event sample_app_world"
  have "case fst ?r of Some (Inr e) \<Rightarrow> payload e = FinalMessage ''ok'' | _ \<Rightarrow> False" by code_simp
  then show ?thesis by (cases ?r) (auto split: option.splits sum.splits)
qed


theorem finished_turn_is_remembered_witness:
  "\<exists>t e. process_with_optional_progress sample_serde sample_app_deps
     \<lparr>max_tool_iterations = 8, max_tool_calls = 32\<rparr> False sample_event sample_app_world = (Some (Inr e), t)
     \<and> fst (file_load two_session_codec sample_store (tw_fs (world t))) = Inr next_session"
proof -
  obtain e t where pr: "process_with_optional_progress sample_serde sample_app_deps
     \<lparr>max_tool_iterations = 8, max_tool_calls = 32\<rparr> False sample_event sample_app_world = (Some (Inr e), t)"
     and e: "payload e = FinalMessage ''ok''"
    using sample_turn by blast
  have cd: "ae_codec sample_app_env = two_session_codec" by (simp add: sample_app_env_def)
  have ld: "fst (file_load (ae_codec sample_app_env) sample_store (tw_fs sample_app_world)) = Inr default_session"
    by code_simp
  have n: "next_session = record_output (payload e) (record_input (payload sample_event) default_session)"
    by (simp add: next_session_def e)
  have st: "storable (ae_codec sample_app_env) next_session" by code_simp
  from finished_turn_is_remembered [OF sample_build sample_open sample_app_ready pr ld n st] pr show ?thesis
    unfolding cd by blast
qed

end
