(* ===== verification/Browser.thy ===== *)
theory Browser
  imports Application
begin

section \<open>The browser preview\<close>

text \<open>
  \<open>reshape-browser/src/lib.rs\<close>, the facade of \<open>agent-browser\<close> it drives (\<open>facade.rs\<close>) and the
  functions of \<open>reshape-cli/src/lib.rs\<close> that open and render pages. A session of the browser is a
  daemon that answers JSON commands; sending a command, starting the daemon, its files and its
  environment variables are the fields of \<open>browser_env\<close> over a world \<open>'w\<close>.
\<close>

subsection \<open>The facade (agent-browser/src/facade.rs)\<close>

record browser_options =
  bo_session :: string
  bo_headed :: bool
  bo_debug :: bool
  bo_allow_file_access :: bool
  bo_extensions :: "string list"
  bo_idle_timeout :: "string option"
  bo_default_timeout :: "nat option"
  bo_no_auto_dialog :: bool

definition default_browser_options :: browser_options where
  "default_browser_options =
     \<lparr>bo_session = ''default'', bo_headed = False, bo_debug = False, bo_allow_file_access = False,
      bo_extensions = [], bo_idle_timeout = None, bo_default_timeout = None, bo_no_auto_dialog = False\<rparr>"

datatype browser_error = DaemonStart string | Transport string

fun browser_error_text :: "browser_error \<Rightarrow> string" where
  "browser_error_text (DaemonStart session) = ''failed to start agent-browser daemon for session '' @ session"
| "browser_error_text (Transport e) = ''agent-browser transport failed: '' @ e"

record 'w browser_env =
  be_gen_id :: "'w \<Rightarrow> string \<times> 'w"
  be_send :: "json \<Rightarrow> string \<Rightarrow> 'w \<Rightarrow> (string + json) \<times> 'w"
  be_extensions_file :: "string \<Rightarrow> 'w \<Rightarrow> string option"
  be_cleanup :: "string \<Rightarrow> 'w \<Rightarrow> 'w"
  be_set_var :: "string \<Rightarrow> string \<Rightarrow> 'w \<Rightarrow> 'w"
  be_spawn_daemon :: "string \<Rightarrow> 'w \<Rightarrow> 'w"
  be_sleep :: "nat \<Rightarrow> 'w \<Rightarrow> 'w"
  be_fs :: "'w \<Rightarrow> node"
  be_file_url :: "apath \<Rightarrow> string option"

text \<open>\<open>str::to_lowercase\<close>, as far as the comparison with these ASCII prefixes can tell.\<close>

definition url_prefixes :: "string list" where
  "url_prefixes = [''http://'', ''https://'', ''about:'', ''data:'', ''file:'', ''chrome-extension://'', ''chrome://'']"

definition normalize_url :: "string \<Rightarrow> string" where
  "normalize_url url =
     (if list_ex (\<lambda>p. starts_with p (to_ascii_lowercase url)) url_prefixes then url else ''https://'' @ url)"

definition command :: "'w browser_env \<Rightarrow> string \<Rightarrow> (string \<times> json) list \<Rightarrow> 'w \<Rightarrow> json \<times> 'w" where
  "command env action args w =
     (case be_gen_id env w of (i, w1) \<Rightarrow> (json_obj ([(''id'', JStr i), (''action'', JStr action)] @ args), w1))"

definition send :: "'w browser_env \<Rightarrow> browser_options \<Rightarrow> json \<times> 'w \<Rightarrow> (browser_error + json) \<times> 'w" where
  "send env opts c =
     (case c of (cmd, w) \<Rightarrow>
        (case be_send env cmd (bo_session opts) w of (r, w1) \<Rightarrow> (map_err Transport r, w1)))"

definition daemon_ready :: "'w browser_env \<Rightarrow> browser_options \<Rightarrow> 'w \<Rightarrow> bool \<times> 'w" where
  "daemon_ready env opts w =
     (case send env opts (command env ''stream_status'' [] w) of
        (Inr r, w1) \<Rightarrow> (True, w1)
      | (Inl e, w1) \<Rightarrow> (False, w1))"

definition running_extensions :: "'w browser_env \<Rightarrow> browser_options \<Rightarrow> 'w \<Rightarrow> string list" where
  "running_extensions env opts w =
     (case be_extensions_file env (bo_session opts) w of
        None \<Rightarrow> []
      | Some c \<Rightarrow>
          filter (\<lambda>p. p \<noteq> '''')
            (map trim (concat (map (split_on (CHR '','')) (split_on (CHR 0x0A) c)))))"

definition daemon_matches_options :: "'w browser_env \<Rightarrow> browser_options \<Rightarrow> 'w \<Rightarrow> bool" where
  "daemon_matches_options env opts w \<longleftrightarrow> running_extensions env opts w = bo_extensions opts"

definition set_if :: "'w browser_env \<Rightarrow> bool \<Rightarrow> string \<Rightarrow> string \<Rightarrow> 'w \<Rightarrow> 'w" where
  "set_if env b k v w = (if b then be_set_var env k v w else w)"

definition apply_daemon_environment :: "'w browser_env \<Rightarrow> browser_options \<Rightarrow> 'w \<Rightarrow> 'w" where
  "apply_daemon_environment env opts w =
     (let w = be_set_var env ''AGENT_BROWSER_SESSION'' (bo_session opts) w;
          w = be_set_var env ''AGENT_BROWSER_EMBEDDED_DAEMON'' ''1'' w;
          w = set_if env (bo_headed opts) ''AGENT_BROWSER_HEADED'' ''1'' w;
          w = set_if env (bo_debug opts) ''AGENT_BROWSER_DEBUG'' ''1'' w;
          w = set_if env (bo_allow_file_access opts) ''AGENT_BROWSER_ALLOW_FILE_ACCESS'' ''1'' w;
          w = set_if env (bo_extensions opts \<noteq> []) ''AGENT_BROWSER_EXTENSIONS'' (join '','' (bo_extensions opts)) w;
          w = (case bo_idle_timeout opts of
                 None \<Rightarrow> w | Some t \<Rightarrow> be_set_var env ''AGENT_BROWSER_IDLE_TIMEOUT_MS'' t w);
          w = (case bo_default_timeout opts of
                 None \<Rightarrow> w | Some t \<Rightarrow> be_set_var env ''AGENT_BROWSER_DEFAULT_TIMEOUT'' (show_nat t) w)
      in set_if env (bo_no_auto_dialog opts) ''AGENT_BROWSER_NO_AUTO_DIALOG'' ''1'' w)"

text \<open>Both waiting loops: sleep, ask, stop when the answer is the one waited for.\<close>

fun wait_until :: "nat \<Rightarrow> nat \<Rightarrow> bool \<Rightarrow> 'w browser_env \<Rightarrow> browser_options \<Rightarrow> 'w \<Rightarrow> bool \<times> 'w" where
  "wait_until 0 ms goal env opts w = (False, w)"
| "wait_until (Suc n) ms goal env opts w =
     (case daemon_ready env opts (be_sleep env ms w) of
        (ready, w1) \<Rightarrow> (if ready = goal then (True, w1) else wait_until n ms goal env opts w1))"

definition browser_close :: "'w browser_env \<Rightarrow> browser_options \<Rightarrow> 'w \<Rightarrow> (browser_error + json) \<times> 'w" where
  "browser_close env opts w = send env opts (command env ''close'' [] w)"

definition start_daemon :: "'w browser_env \<Rightarrow> browser_options \<Rightarrow> 'w \<Rightarrow> (browser_error + unit) \<times> 'w" where
  "start_daemon env opts w =
     (let w1 = apply_daemon_environment env opts (be_cleanup env (bo_session opts) w);
          w2 = be_spawn_daemon env (bo_session opts) w1
      in case wait_until 25 200 True env opts w2 of
           (True, w3) \<Rightarrow> (Inr (), w3)
         | (False, w3) \<Rightarrow> (Inl (DaemonStart (bo_session opts)), w3))"

definition ensure :: "'w browser_env \<Rightarrow> browser_options \<Rightarrow> 'w \<Rightarrow> (browser_error + unit) \<times> 'w" where
  "ensure env opts w =
     (case daemon_ready env opts w of
        (False, w1) \<Rightarrow> start_daemon env opts w1
      | (True, w1) \<Rightarrow>
          (if daemon_matches_options env opts w1 then (Inr (), w1)
           else case browser_close env opts w1 of
             (r, w2) \<Rightarrow>
               (case wait_until 20 100 False env opts w2 of
                  (stopped, w3) \<Rightarrow> start_daemon env opts (be_cleanup env (bo_session opts) w3))))"

definition ensured ::
    "'w browser_env \<Rightarrow> browser_options \<Rightarrow> ('w \<Rightarrow> json \<times> 'w) \<Rightarrow> 'w \<Rightarrow> (browser_error + json) \<times> 'w" where
  "ensured env opts cmd w =
     (case ensure env opts w of
        (Inl e, w1) \<Rightarrow> (Inl e, w1)
      | (Inr u, w1) \<Rightarrow> send env opts (cmd w1))"

definition browser_open :: "'w browser_env \<Rightarrow> browser_options \<Rightarrow> string \<Rightarrow> 'w \<Rightarrow> (browser_error + json) \<times> 'w" where
  "browser_open env opts url =
     ensured env opts (command env ''navigate'' [(''url'', JStr (normalize_url url))])"

definition browser_reload :: "'w browser_env \<Rightarrow> browser_options \<Rightarrow> 'w \<Rightarrow> (browser_error + json) \<times> 'w" where
  "browser_reload env opts = ensured env opts (command env ''reload'' [])"

definition browser_snapshot :: "'w browser_env \<Rightarrow> browser_options \<Rightarrow> 'w \<Rightarrow> (browser_error + json) \<times> 'w" where
  "browser_snapshot env opts = ensured env opts (command env ''snapshot'' [])"

definition browser_screenshot ::
    "'w browser_env \<Rightarrow> browser_options \<Rightarrow> string option \<Rightarrow> 'w \<Rightarrow> (browser_error + json) \<times> 'w" where
  "browser_screenshot env opts path =
     ensured env opts (command env ''screenshot'' [(''path'', json_opt_str path), (''selector'', JNull)])"

subsection \<open>The renderer (reshape-browser/src/lib.rs)\<close>

datatype render_error = NotAFile string | FileUrl string "string option" | AgentBrowser browser_error

fun render_error_text :: "render_error \<Rightarrow> string" where
  "render_error_text (NotAFile p) = ''workspace entry is not a file: '' @ p"
| "render_error_text (FileUrl p reason) = ''failed to convert workspace entry to file URL: '' @ p"
| "render_error_text (AgentBrowser e) = browser_error_text e"

definition rendered :: "(browser_error + json) \<times> 'w \<Rightarrow> (render_error + unit) \<times> 'w" where
  "rendered r = (case r of (Inl e, w) \<Rightarrow> (Inl (AgentBrowser e), w) | (Inr j, w) \<Rightarrow> (Inr (), w))"

definition default_renderer :: browser_options where
  "default_renderer = default_browser_options\<lparr>bo_session := ''reshape-main'', bo_allow_file_access := True\<rparr>"

definition workspace_entry_url ::
    "'w browser_env \<Rightarrow> apath \<Rightarrow> string \<Rightarrow> node \<Rightarrow> render_error + string" where
  "workspace_entry_url env cwd path fs =
     and_then (map_err (\<lambda>e. FileUrl path (Some (io_text e))) (metadata_of fs (abs_components cwd path))) (\<lambda>kd.
       case kd of
         KFile c \<Rightarrow>
           and_then (map_err (\<lambda>e. FileUrl path (Some (io_text e))) (canonicalize fs (abs_components cwd path))) (\<lambda>p.
             ok_or (FileUrl (canonical_text p) None) (be_file_url env p))
       | _ \<Rightarrow> Inl (NotAFile path))"

definition open_workspace_entry ::
    "'w browser_env \<Rightarrow> browser_options \<Rightarrow> apath \<Rightarrow> string \<Rightarrow> 'w \<Rightarrow> (render_error + unit) \<times> 'w" where
  "open_workspace_entry env opts cwd path w =
     (case workspace_entry_url env cwd path (be_fs env w) of
        Inl e \<Rightarrow> (Inl e, w)
      | Inr url \<Rightarrow> rendered (browser_open env opts url w))"

subsection \<open>What the command line does with it\<close>

text \<open>\<open>manifest_dir\<close> is the directory of the crate \<open>reshape-cli\<close> the program was built from.\<close>

definition bundled_browser_extension_paths :: "apath \<Rightarrow> node \<Rightarrow> string list" where
  "bundled_browser_extension_paths manifest_dir fs =
     (let repo_root = (if length manifest_dir \<ge> 2 then butlast (butlast manifest_dir) else manifest_dir);
          extension = repo_root @ [''extensions'', ''reshape'', ''build'', ''chrome-mv3-prod'']
      in if fs_is_file fs (RootDir # map Normal (extension @ [''manifest.json'']))
         then [canonical_text extension] else [])"

definition managed_browser_options :: "apath \<Rightarrow> node \<Rightarrow> string \<Rightarrow> bool \<Rightarrow> browser_options" where
  "managed_browser_options manifest_dir fs session headed =
     default_browser_options\<lparr>bo_session := session, bo_headed := headed, bo_allow_file_access := True,
       bo_extensions := map utf8_lossy (bundled_browser_extension_paths manifest_dir fs)\<rparr>"

definition startup_browser_options :: "apath \<Rightarrow> node \<Rightarrow> cli_args \<Rightarrow> browser_options" where
  "startup_browser_options manifest_dir fs args =
     managed_browser_options manifest_dir fs (ao_browser_session (agent_options args)) True"

definition render_browser_options :: "apath \<Rightarrow> node \<Rightarrow> cli_args \<Rightarrow> browser_options" where
  "render_browser_options manifest_dir fs args =
     managed_browser_options manifest_dir fs (ao_browser_session (agent_options args))
       (ao_browser_headed (agent_options args))"

definition browser_renderer :: "apath \<Rightarrow> node \<Rightarrow> cli_args \<Rightarrow> browser_options option" where
  "browser_renderer manifest_dir fs args =
     (if \<not> ao_render_browser (agent_options args) then None
      else Some (render_browser_options manifest_dir fs args))"

definition render_completed_output ::
    "'w browser_env \<Rightarrow> browser_options option \<Rightarrow> apath \<Rightarrow> string \<Rightarrow> output_event \<Rightarrow> 'w \<Rightarrow> string option \<times> 'w" where
  "render_completed_output env browser cwd root output w =
     (if \<not> is_completed output then (None, w)
      else case browser of
        None \<Rightarrow> (None, w)
      | Some opts \<Rightarrow>
          (let entry = path_join root ''index.html''
           in if \<not> fs_exists (be_fs env w) (abs_components cwd entry) then (None, w)
              else case open_workspace_entry env opts cwd entry w of
                (Inl e, w1) \<Rightarrow> (Some (''browser render failed: '' @ render_error_text e), w1)
              | (Inr u, w1) \<Rightarrow> (None, w1)))"

definition open_startup_browser ::
    "'w browser_env \<Rightarrow> browser_options option \<Rightarrow> server_config \<Rightarrow> 'w \<Rightarrow> string option \<times> 'w" where
  "open_startup_browser env browser server w =
     (case browser of
        None \<Rightarrow> (None, w)
      | Some opts \<Rightarrow>
          (case browser_close env opts w of
             (r, w1) \<Rightarrow>
               (case rendered (browser_open env opts (local_url server) (be_sleep env 250 w1)) of
                  (Inl e, w2) \<Rightarrow> (Some (''browser startup open failed: '' @ render_error_text e), w2)
                | (Inr u, w2) \<Rightarrow> (None, w2))))"


subsection \<open>Waiting for the daemon ends\<close>

lemma normalize_url_idem: "normalize_url (normalize_url url) = normalize_url url"
  by (simp add: normalize_url_def url_prefixes_def to_ascii_lowercase_def ascii_lower_def starts_with_def)

text \<open>The environment with a log of the commands sent and whether each was answered.\<close>

definition traced_browser :: "'w browser_env \<Rightarrow> ('w \<times> (json \<times> bool) list) browser_env" where
  "traced_browser env =
     \<lparr>be_gen_id = (\<lambda>(w, l). case be_gen_id env w of (i, w1) \<Rightarrow> (i, w1, l)),
      be_send = (\<lambda>c s (w, l). case be_send env c s w of
        (r, w1) \<Rightarrow> (r, w1, l @ [(c, case r of Inl e \<Rightarrow> False | Inr j \<Rightarrow> True)])),
      be_extensions_file = (\<lambda>s (w, l). be_extensions_file env s w),
      be_cleanup = (\<lambda>s (w, l). (be_cleanup env s w, l)),
      be_set_var = (\<lambda>k v (w, l). (be_set_var env k v w, l)),
      be_spawn_daemon = (\<lambda>s (w, l). (be_spawn_daemon env s w, l)),
      be_sleep = (\<lambda>n (w, l). (be_sleep env n w, l)),
      be_fs = (\<lambda>(w, l). be_fs env w), be_file_url = be_file_url env\<rparr>"

abbreviation sent :: "'w \<times> (json \<times> bool) list \<Rightarrow> (json \<times> bool) list" where
  "sent \<equiv> snd"

lemma sent_kept [simp]:
  "sent (be_cleanup (traced_browser env) s x) = sent x" "sent (be_set_var (traced_browser env) k v x) = sent x"
  "sent (be_spawn_daemon (traced_browser env) s x) = sent x" "sent (be_sleep (traced_browser env) n x) = sent x"
  by (cases x; simp add: traced_browser_def)+

lemma sent_environment [simp]: "sent (apply_daemon_environment (traced_browser env) opts x) = sent x"
  by (simp add: apply_daemon_environment_def set_if_def Let_def split: option.split)

lemma send_traced:
  assumes "send (traced_browser env) opts (command (traced_browser env) act args x) = (r, y)"
  shows "\<exists>c. sent y = sent x @ [(c, case r of Inl e \<Rightarrow> False | Inr j \<Rightarrow> True)]"
  using assms by (cases x) (auto simp: send_def command_def traced_browser_def map_err_def split: prod.splits sum.splits)

lemma daemon_ready_traced:
  assumes "daemon_ready (traced_browser env) opts x = (b, y)"
  shows "\<exists>c. sent y = sent x @ [(c, b)]"
  using assms send_traced [of env opts "''stream_status''" "[]" x]
  by (auto simp: daemon_ready_def split: prod.splits sum.splits)

lemma wait_until_traced:
  "wait_until n ms goal (traced_browser env) opts x = (b, y) \<Longrightarrow>
     \<exists>k. sent y = sent x @ k \<and> length k \<le> n \<and> (b \<longrightarrow> k \<noteq> [] \<and> snd (last k) = goal)"
proof (induction n arbitrary: x)
  case (Suc n)
  obtain rd z where dr: "daemon_ready (traced_browser env) opts (be_sleep (traced_browser env) ms x) = (rd, z)"
    by (rule prod.exhaust)
  from daemon_ready_traced [OF dr] obtain c where c: "sent z = sent x @ [(c, rd)]" by auto
  show ?case
  proof (cases "rd = goal")
    case True
    with Suc.prems dr c show ?thesis by auto
  next
    case False
    with Suc.prems dr have "wait_until n ms goal (traced_browser env) opts z = (b, y)" by simp
    from Suc.IH [OF this] c show ?thesis by auto
  qed
qed simp

lemma start_daemon_traced:
  assumes "start_daemon (traced_browser env) opts x = (r, y)"
  shows "\<exists>k. sent y = sent x @ k \<and> length k \<le> 25
    \<and> (r = Inr () \<and> k \<noteq> [] \<and> snd (last k) \<or> r = Inl (DaemonStart (bo_session opts)))"
proof -
  let ?x = "be_spawn_daemon (traced_browser env) (bo_session opts)
      (apply_daemon_environment (traced_browser env) opts (be_cleanup (traced_browser env) (bo_session opts) x))"
  obtain b z where w: "wait_until 25 200 True (traced_browser env) opts ?x = (b, z)" by (rule prod.exhaust)
  from wait_until_traced [OF w] obtain k where "sent z = sent x @ k" "length k \<le> 25"
      "b \<longrightarrow> k \<noteq> [] \<and> snd (last k) = True"
    by auto
  moreover have "(r, y) = (if b then Inr () else Inl (DaemonStart (bo_session opts)), z)"
    using assms w by (simp add: start_daemon_def Let_def split: if_splits bool.splits)
  ultimately show ?thesis by (auto split: if_splits)
qed

text \<open>Bringing up the browser ends. Whatever the daemon does, \<open>ensure\<close> returns after at most 47
  commands: it reports success only when the last command it sent was answered, and its only
  error is that the daemon could not be started.\<close>

theorem browser_start_is_bounded:
  assumes "ensure (traced_browser env) opts (w, []) = (r, w', log)"
  shows "length log \<le> 47 \<and> (r = Inr () \<and> log \<noteq> [] \<and> snd (last log) \<or> r = Inl (DaemonStart (bo_session opts)))"
proof -
  obtain b x1 where dr: "daemon_ready (traced_browser env) opts (w, []) = (b, x1)" by (rule prod.exhaust)
  from daemon_ready_traced [OF dr] obtain c where c: "sent x1 = [(c, b)]" by auto
  obtain q x2 where cl: "browser_close (traced_browser env) opts x1 = (q, x2)" by (rule prod.exhaust)
  obtain s x3 where wt: "wait_until 20 100 False (traced_browser env) opts x2 = (s, x3)" by (rule prod.exhaust)
  from send_traced [OF cl [unfolded browser_close_def]] wait_until_traced [OF wt] c
  have x3: "length (sent x3) \<le> 22" by auto
  consider "b" "r = Inr ()" "x1 = (w', log)"
    | "\<not> b" "start_daemon (traced_browser env) opts x1 = (r, w', log)"
    | "start_daemon (traced_browser env) opts (be_cleanup (traced_browser env) (bo_session opts) x3) = (r, w', log)"
    using assms dr cl wt by (auto simp: ensure_def split: if_splits bool.splits)
  then show ?thesis
  proof cases
    case 1
    with c show ?thesis by simp
  next
    case 2
    from start_daemon_traced [OF 2(2)] c show ?thesis by auto
  next
    case 3
    from start_daemon_traced [OF 3] x3 show ?thesis by auto
  qed
qed

definition silent_browser :: "unit browser_env" where
  "silent_browser =
     \<lparr>be_gen_id = (\<lambda>w. (''1'', w)), be_send = (\<lambda>c s w. (Inl ''no socket'', w)),
      be_extensions_file = (\<lambda>s w. None), be_cleanup = (\<lambda>s w. w), be_set_var = (\<lambda>k v w. w),
      be_spawn_daemon = (\<lambda>s w. w), be_sleep = (\<lambda>n w. w), be_fs = (\<lambda>w. Dir []), be_file_url = (\<lambda>p. None)\<rparr>"

theorem browser_start_is_bounded_witness:
  "fst (ensure (traced_browser silent_browser) default_renderer ((), [])) = Inl (DaemonStart ''reshape-main'')
   \<and> length (snd (snd (ensure (traced_browser silent_browser) default_renderer ((), [])))) \<le> 47"
proof -
  obtain r w' log where e: "ensure (traced_browser silent_browser) default_renderer ((), []) = (r, w', log)"
    by (metis prod.exhaust)
  have "fst (ensure (traced_browser silent_browser) default_renderer ((), [])) = Inl (DaemonStart ''reshape-main'')"
    by code_simp
  with browser_start_is_bounded [OF e] e show ?thesis by simp
qed

end
