(* ===== verification/Cmd_Args.thy ===== *)
theory Cmd_Args
  imports Workspace
begin

section \<open>Arguments of the browser command line\<close>

text \<open>
  The first part of \<open>agent-browser/src/commands.rs\<close>: the errors of the command parser, the
  cookie imports, the splitting of a batch line into words, and what \<open>validation.rs\<close> and
  \<open>flags.rs\<close> contribute to them. Arguments are byte strings in UTF-8. The Unicode tables behind
  \<open>str::to_lowercase\<close> and \<open>char::is_alphanumeric\<close> are the fields of the record \<open>unicode\<close>; the
  decoding of base64, the parsing of floating-point numbers, the parser of JSON texts, the
  lines of standard input and the file system are those of \<open>cmd_env\<close>.
\<close>

subsection \<open>Unicode, flags and the environment\<close>

record unicode =
  to_lowercase :: "string \<Rightarrow> string"
  is_alphanumeric :: "string \<Rightarrow> bool"

definition ascii_unicode :: unicode where
  "ascii_unicode =
     \<lparr>to_lowercase = to_ascii_lowercase,
      is_alphanumeric = (\<lambda>g. length g = 1 \<and> list_all is_ascii_alphanumeric g)\<rparr>"

text \<open>The fields of \<open>Flags\<close> that the command parser reads.\<close>

record flags =
  headed :: bool
  provider :: "string option"
  fl_headers :: "string option"
  device :: "string option"
  annotate :: bool
  screenshot_format :: "string option"
  screenshot_quality :: "32 word option"
  screenshot_dir :: "string option"
  default_timeout :: "64 word option"

record cmd_env =
  cx_unicode :: unicode
  cx_serde :: serde_json
  cx_base64 :: "string \<Rightarrow> string option"
  cx_parse_f64 :: "string \<Rightarrow> 64 word option"
  cx_show_f64 :: "64 word \<Rightarrow> string"
  cx_stdin :: "string option list"
  cx_cwd :: apath
  cx_fs :: node

definition gen_id :: "nat \<Rightarrow> string" where
  "gen_id micros = ''r'' @ show_nat (micros mod 1000000)"

subsection \<open>Session names (validation.rs)\<close>

definition is_valid_session_name :: "unicode \<Rightarrow> string \<Rightarrow> bool" where
  "is_valid_session_name u name \<longleftrightarrow>
     name \<noteq> [] \<and> list_all (\<lambda>c. is_alphanumeric u c \<or> c = ''-'' \<or> c = ''_'') (chars name)"

definition session_name_error :: "string \<Rightarrow> string" where
  "session_name_error name =
     ''Invalid session name '' @ [CHR 0x27] @ name @ [CHR 0x27]
     @ ''. Only alphanumeric characters, hyphens, and underscores are allowed.''"

subsection \<open>Errors\<close>

datatype parse_error =
    UnknownCommand string
  | UnknownSubcommand string "string list"
  | MissingArguments string string
  | InvalidValue string string
  | InvalidSessionName string

fun parse_error_format :: "parse_error \<Rightarrow> string" where
  "parse_error_format (UnknownCommand c) = ''Unknown command: '' @ c"
| "parse_error_format (UnknownSubcommand s valid) =
     ''Unknown subcommand: '' @ s @ [CHR 0x0A] @ ''Valid options: '' @ join '', '' valid"
| "parse_error_format (MissingArguments ctx usage) =
     ''Missing arguments for: '' @ ctx @ [CHR 0x0A] @ ''Usage: agent-browser '' @ usage"
| "parse_error_format (InvalidValue msg usage) =
     msg @ [CHR 0x0A] @ ''Usage: agent-browser '' @ usage"
| "parse_error_format (InvalidSessionName name) = session_name_error name"

subsection \<open>Positions and values\<close>

definition get_arg :: "'a list \<Rightarrow> nat \<Rightarrow> 'a option" where
  "get_arg xs i = (if i < length xs then Some (xs ! i) else None)"

fun position :: "('a \<Rightarrow> bool) \<Rightarrow> 'a list \<Rightarrow> nat option" where
  "position p [] = None"
| "position p (x # xs) = (if p x then Some 0 else map_option Suc (position p xs))"

text \<open>\<open>position(..).and_then(|i| rest.get(i + 1))\<close>\<close>

definition flag_value :: "string list \<Rightarrow> string list \<Rightarrow> string option" where
  "flag_value names rest =
     Option.bind (position (\<lambda>s. s \<in> set names) rest) (\<lambda>i. get_arg rest (Suc i))"

text \<open>\<open>str::parse\<close> at a signed type.\<close>

definition parse_signed :: "int \<Rightarrow> int \<Rightarrow> string \<Rightarrow> int option" where
  "parse_signed lo hi s =
     (case s of
        c # ds \<Rightarrow>
          (if c = CHR ''-''
           then (if ds = [] \<or> \<not> list_all is_ascii_digit ds \<or> - int (digits_value 0 ds) < lo then None
                 else Some (- int (digits_value 0 ds)))
           else map_option int (parse_unsigned hi s))
      | [] \<Rightarrow> None)"

definition parse_i32 :: "string \<Rightarrow> int option" where
  "parse_i32 = parse_signed (- 2147483648) 2147483647"

definition parse_i64 :: "string \<Rightarrow> int option" where
  "parse_i64 = parse_signed (- 9223372036854775808) 9223372036854775807"

definition parse_u32 :: "string \<Rightarrow> nat option" where
  "parse_u32 = parse_unsigned u32_max"

definition parse_u64 :: "string \<Rightarrow> nat option" where
  "parse_u64 = parse_unsigned usize_max"

definition json_int :: "int \<Rightarrow> json" where
  "json_int i = JNum (if i < 0 then NegInt i else PosInt (nat i))"

text \<open>\<open>json!\<close> on an \<open>f64\<close>: infinities and NaN, whose exponent bits are all set, become
  \<open>null\<close>. The range test \<open>0.0..=1.0\<close> holds of the bits up to those of 1, and of \<open>-0.0\<close>.\<close>

definition json_f64 :: "64 word \<Rightarrow> json" where
  "json_f64 b =
     (if take_bit 11 (drop_bit 52 b) = 2047 then JNull else JNum (FloatBits b))"

definition in_unit_interval :: "64 word \<Rightarrow> bool" where
  "in_unit_interval b \<longleftrightarrow> b \<le> 0x3FF0000000000000 \<or> b = 0x8000000000000000"

definition json_strs :: "string list \<Rightarrow> json" where
  "json_strs xs = JArr (map JStr xs)"

definition set_opt :: "string \<Rightarrow> ('a \<Rightarrow> json) \<Rightarrow> 'a option \<Rightarrow> json \<Rightarrow> json" where
  "set_opt k f v j = (case v of None \<Rightarrow> j | Some x \<Rightarrow> json_set j k (f x))"

definition set_when :: "bool \<Rightarrow> string \<Rightarrow> json \<Rightarrow> json \<Rightarrow> json" where
  "set_when b k v j = (if b then json_set j k v else j)"

subsection \<open>Cookies\<close>

definition cookie :: "string \<Rightarrow> string \<Rightarrow> json" where
  "cookie name v = json_obj [(''name'', JStr name), (''value'', JStr v)]"

fun json_cookies :: "nat \<Rightarrow> json list \<Rightarrow> string + json list" where
  "json_cookies i [] = Inr []"
| "json_cookies i (c # cs) =
     and_then (ok_or (''cookies['' @ show_nat i @ ''] missing string name'')
                (Option.bind (json_get c ''name'') as_str))
       (\<lambda>name. and_then (ok_or (''cookies['' @ show_nat i @ ''] missing string value'')
                (Option.bind (json_get c ''value'') as_str))
       (\<lambda>v. and_then (json_cookies (Suc i) cs) (\<lambda>out. Inr (cookie name v # out))))"

definition parse_cookie_header :: "string \<Rightarrow> string + json list" where
  "parse_cookie_header h =
     (let out = List.map_filter
            (\<lambda>piece. case split_once (CHR ''='') (trim piece) of
                None \<Rightarrow> None
              | Some (name, v) \<Rightarrow> (if trim name = [] then None else Some (cookie (trim name) (trim v))))
            (split_on (CHR '';'') h)
      in if out = [] then Inl ''no cookies found in input'' else Inr out)"

definition is_ascii_whitespace :: "char \<Rightarrow> bool" where
  "is_ascii_whitespace c \<longleftrightarrow> c \<in> {CHR '' '', CHR 0x09, CHR 0x0A, CHR 0x0C, CHR 0x0D}"

definition span_len :: "(char \<Rightarrow> bool) \<Rightarrow> string \<Rightarrow> nat \<Rightarrow> nat" where
  "span_len p s j = j + length (takeWhile p (drop j s))"

text \<open>The search moves right in every round: over a byte, over the blanks after the flag, or
  past the closing quote.\<close>

function match_quoted_arg ::
    "unicode \<Rightarrow> string \<Rightarrow> string \<Rightarrow> string option \<Rightarrow> nat \<Rightarrow> string option" where
  "match_quoted_arg u hay flag hdr i =
     (if length hay \<le> i + length flag then None
      else if take (length flag) (drop i hay) \<noteq> flag then match_quoted_arg u hay flag hdr (i + 1)
      else if 0 < i \<and> \<not> is_ascii_whitespace (hay ! (i - 1)) then match_quoted_arg u hay flag hdr (i + 1)
      else if \<not> is_ascii_whitespace (hay ! (i + length flag)) then match_quoted_arg u hay flag hdr (i + 1)
      else
        (let j = span_len is_ascii_whitespace hay (i + length flag)
         in if length hay \<le> j then None
            else if hay ! j \<noteq> CHR 0x27 \<and> hay ! j \<noteq> CHR 0x22 then match_quoted_arg u hay flag hdr j
            else
              (let k = span_len (\<lambda>c. c \<noteq> hay ! j) hay (j + 1);
                   v = utf8_lossy (take (k - (j + 1)) (drop (j + 1) hay))
               in if length hay \<le> k then None
                  else case hdr of
                         None \<Rightarrow> Some v
                       | Some h \<Rightarrow>
                           (let p = to_lowercase u h @ '':''
                            in if starts_with p (to_lowercase u v) then Some (trim (drop (length p) v))
                               else match_quoted_arg u hay flag hdr (k + 1)))))"
  by pat_completeness auto

lemma span_len_ge: "j \<le> span_len p s j"
  by (simp add: span_len_def)

lemma span_len_gt: "j < length s \<Longrightarrow> p (s ! j) \<Longrightarrow> j < span_len p s j"
  by (simp add: span_len_def Cons_nth_drop_Suc [symmetric])

termination match_quoted_arg
proof (relation "measure (\<lambda>(u, hay, flag, hdr, i). length hay - i)", goal_cases)
  case (5 u hay flag hdr i j)
  then have "i + length flag < j" by (simp add: span_len_gt)
  with 5 show ?case by simp
next
  case (6 u hay flag hdr i j k v h p)
  have "i + length flag \<le> j" "j + 1 \<le> k" using 6 by (simp_all add: span_len_ge)
  with 6 show ?case by simp
qed simp_all

declare match_quoted_arg.simps [simp del]

fun replace_all :: "string \<Rightarrow> string \<Rightarrow> string \<Rightarrow> nat \<Rightarrow> string" where
  "replace_all p r [] n = []"
| "replace_all p r (c # cs) n =
     (case n of
        Suc m \<Rightarrow> replace_all p r cs m
      | 0 \<Rightarrow> (if starts_with p (c # cs) then r @ replace_all p r cs (length p - 1)
             else c # replace_all p r cs 0))"

definition extract_cookie_header_from_curl :: "unicode \<Rightarrow> string \<Rightarrow> string option" where
  "extract_cookie_header_from_curl u curl =
     (let joined =
            replace_all [CHR ''^'', CHR 0x0A] '' ''
              (replace_all [CHR ''^'', CHR 0x0D, CHR 0x0A] '' ''
                (replace_all [CHR 0x5C, CHR 0x0A] '' ''
                  (replace_all [CHR 0x5C, CHR 0x0D, CHR 0x0A] '' '' curl 0) 0) 0) 0
      in case match_quoted_arg u joined ''-H'' (Some ''cookie'') 0 of
           Some v \<Rightarrow> Some v
         | None \<Rightarrow>
             (case match_quoted_arg u joined ''-b'' None 0 of
                Some v \<Rightarrow> Some v
              | None \<Rightarrow> match_quoted_arg u joined ''--cookie'' None 0))"

definition looks_like_curl :: "unicode \<Rightarrow> string \<Rightarrow> bool" where
  "looks_like_curl u t =
     (let head = to_lowercase u (concat (take 5 (chars t)))
      in starts_with ''curl'' head \<and> 4 < length head
         \<and> (let c = chars head ! 4 in is_whitespace c \<or> c = [CHR 0x27] \<or> c = [CHR 0x22]))"

text \<open>The arrows of the hint are three bytes each.\<close>

definition right_arrow :: string where
  "right_arrow = [CHR 0xE2, CHR 0x86, CHR 0x92]"

definition parse_curl_cookies :: "cmd_env \<Rightarrow> string \<Rightarrow> string + json list" where
  "parse_curl_cookies env raw =
     (let t = trim raw
      in if t = [] then Inl ''cookies file is empty''
         else if starts_with ''['' t
         then and_then
                (map_err (\<lambda>e. ''cookies JSON parse error: '' @ e)
                  (and_then (de_str (cx_serde env) t)
                     (\<lambda>j. map_err (de_msg (cx_serde env)) (dec_vec dec_value j))))
                (json_cookies 0)
         else and_then
                (if looks_like_curl (cx_unicode env) t
                 then ok_or (''no Cookie header found in this cURL - right-click an authenticated request in DevTools ''
                             @ right_arrow @ '' Network '' @ right_arrow @ '' Copy '' @ right_arrow @ '' Copy as cURL'')
                        (extract_cookie_header_from_curl (cx_unicode env) t)
                 else Inr t)
                parse_cookie_header)"

subsection \<open>Splitting a batch line into words\<close>

text \<open>The characters are read one by one; a backslash outside single quotes takes the character
  after it as it is, and an empty word is never produced.\<close>

fun split_words :: "bool \<Rightarrow> bool \<Rightarrow> string \<Rightarrow> string list \<Rightarrow> string list" where
  "split_words dq sq cur [] = (if cur = [] then [] else [cur])"
| "split_words dq sq cur (c # cs) =
     (if c = [CHR 0x5C] \<and> \<not> sq
      then (case cs of [] \<Rightarrow> split_words dq sq cur [] | d # ds \<Rightarrow> split_words dq sq (cur @ d) ds)
      else if c = [CHR 0x22] \<and> \<not> sq then split_words (\<not> dq) sq cur cs
      else if c = [CHR 0x27] \<and> \<not> dq then split_words dq (\<not> sq) cur cs
      else if c = '' '' \<and> \<not> dq \<and> \<not> sq
      then (if cur = [] then split_words dq sq cur cs else cur # split_words dq sq [] cs)
      else split_words dq sq (cur @ c) cs)"

definition shell_words_split :: "string \<Rightarrow> string list" where
  "shell_words_split s = split_words False False [] (chars s)"

end
