(* ===== verification/Cmd_Parser.thy ===== *)
theory Cmd_Parser
  imports Cmd_Args
begin

section \<open>The parser of browser commands\<close>

text \<open>
  \<open>parse_command\<close> of \<open>agent-browser/src/commands.rs\<close>: the words of a command line become the
  JSON command that the browser daemon executes, or an error. The branches of the one large
  \<open>match\<close> are grouped by the section comments of the source; a group answers \<open>None\<close> for a
  command that is not its own. Loops over the remaining words are recursive functions on the
  list of those words. Warnings printed on standard error are left out.
\<close>

definition cmd_obj :: "string \<Rightarrow> string \<Rightarrow> (string \<times> json) list \<Rightarrow> json" where
  "cmd_obj rid action kvs = json_obj ((''id'', JStr rid) # (''action'', JStr action) # kvs)"

definition need :: "string \<Rightarrow> string \<Rightarrow> string list \<Rightarrow> nat \<Rightarrow> (string \<Rightarrow> parse_error + 'a) \<Rightarrow> parse_error + 'a" where
  "need ctx usage rest i f = and_then (ok_or (MissingArguments ctx usage) (get_arg rest i)) f"

definition one_arg :: "string \<Rightarrow> string \<Rightarrow> string list \<Rightarrow> string \<Rightarrow> string \<Rightarrow> string \<Rightarrow> parse_error + json" where
  "one_arg ctx usage rest rid action k =
     need ctx usage rest 0 (\<lambda>v. Inr (cmd_obj rid action [(k, JStr v)]))"

subsection \<open>Navigation\<close>

definition command_url :: "string \<Rightarrow> string" where
  "command_url url =
     (if list_ex (\<lambda>p. starts_with p (to_ascii_lowercase url))
           [''http://'', ''https://'', ''about:'', ''data:'', ''file:'', ''chrome-extension://'', ''chrome://'']
      then url else ''https://'' @ url)"

definition parse_open :: "cmd_env \<Rightarrow> flags \<Rightarrow> string \<Rightarrow> string \<Rightarrow> string list \<Rightarrow> parse_error + json" where
  "parse_open env fl rid c rest =
     (case List.find (\<lambda>a. \<not> starts_with ''--'' a) rest of
        None \<Rightarrow>
          (if c = ''open'' then Inr (cmd_obj rid ''launch'' [(''headless'', JBool (\<not> headed fl))])
           else Inl (MissingArguments c ''goto <url>''))
      | Some u \<Rightarrow>
          (let nav = cmd_obj rid ''navigate'' [(''url'', JStr (command_url u))];
               nav = set_when (provider fl \<noteq> None) ''waitUntil'' (JStr ''none'') nav
           in and_then
                (case fl_headers fl of
                   None \<Rightarrow> Inr nav
                 | Some hs \<Rightarrow>
                     (case de_str (cx_serde env) hs of
                        Inl e \<Rightarrow> Inl (InvalidValue (''Invalid JSON for --headers: '' @ hs)
                                   (''open <url> --headers '' @ [CHR 0x27] @ ''{'' @ [CHR 0x22] @ ''Key'' @ [CHR 0x22]
                                    @ '': '' @ [CHR 0x22] @ ''Value'' @ [CHR 0x22] @ ''}'' @ [CHR 0x27]))
                      | Inr j \<Rightarrow> Inr (json_set nav ''headers'' j)))
                (\<lambda>nav. Inr (if provider fl = Some ''ios'' then set_opt ''iosDevice'' JStr (device fl) nav else nav))))"

definition navigation_cmd ::
    "cmd_env \<Rightarrow> flags \<Rightarrow> string \<Rightarrow> string \<Rightarrow> string list \<Rightarrow> (parse_error + json) option" where
  "navigation_cmd env fl rid c rest =
     (if c = ''open'' \<or> c = ''goto'' \<or> c = ''navigate'' then Some (parse_open env fl rid c rest)
      else if c = ''back'' then Some (Inr (cmd_obj rid ''back'' []))
      else if c = ''forward'' then Some (Inr (cmd_obj rid ''forward'' []))
      else if c = ''reload'' then Some (Inr (cmd_obj rid ''reload'' []))
      else None)"

subsection \<open>Core actions\<close>

definition parse_click :: "string \<Rightarrow> string list \<Rightarrow> parse_error + json" where
  "parse_click rid rest =
     and_then (ok_or (MissingArguments ''click'' ''click <selector> [--new-tab]'')
                (List.find (\<lambda>a. a \<noteq> ''--new-tab'') rest))
       (\<lambda>sel. Inr (if ''--new-tab'' \<in> set rest
                   then cmd_obj rid ''click'' [(''selector'', JStr sel), (''newTab'', JBool True)]
                   else cmd_obj rid ''click'' [(''selector'', JStr sel)]))"

definition parse_select :: "string \<Rightarrow> string list \<Rightarrow> parse_error + json" where
  "parse_select rid rest =
     need ''select'' ''select <selector> <value...>'' rest 0
       (\<lambda>sel. need ''select'' ''select <selector> <value...>'' rest 1
          (\<lambda>v. Inr (cmd_obj rid ''select''
                 [(''selector'', JStr sel),
                  (''values'', if length (tl rest) = 1 then JStr v else json_strs (tl rest))])))"

definition two_args ::
    "string \<Rightarrow> string \<Rightarrow> string list \<Rightarrow> string \<Rightarrow> string \<Rightarrow> string \<Rightarrow> string \<Rightarrow> parse_error + json" where
  "two_args ctx usage rest rid action k1 k2 =
     need ctx usage rest 0
       (\<lambda>a. need ctx usage rest 1 (\<lambda>b. Inr (cmd_obj rid action [(k1, JStr a), (k2, JStr b)])))"

definition core_cmd :: "string \<Rightarrow> string \<Rightarrow> string list \<Rightarrow> (parse_error + json) option" where
  "core_cmd rid c rest =
     (if c = ''click'' then Some (parse_click rid rest)
      else if c = ''dblclick'' then Some (one_arg c ''dblclick <selector>'' rest rid ''dblclick'' ''selector'')
      else if c = ''fill''
      then Some (need c ''fill <selector> <text>'' rest 0
             (\<lambda>sel. Inr (cmd_obj rid ''fill'' [(''selector'', JStr sel), (''value'', JStr (join '' '' (tl rest)))])))
      else if c = ''type''
      then Some (need c ''type <selector> <text>'' rest 0
             (\<lambda>sel. Inr (cmd_obj rid ''type'' [(''selector'', JStr sel), (''text'', JStr (join '' '' (tl rest)))])))
      else if c = ''hover'' then Some (one_arg c ''hover <selector>'' rest rid ''hover'' ''selector'')
      else if c = ''focus'' then Some (one_arg c ''focus <selector>'' rest rid ''focus'' ''selector'')
      else if c = ''check'' then Some (one_arg c ''check <selector>'' rest rid ''check'' ''selector'')
      else if c = ''uncheck'' then Some (one_arg c ''uncheck <selector>'' rest rid ''uncheck'' ''selector'')
      else if c = ''select'' then Some (parse_select rid rest)
      else if c = ''drag'' then Some (two_args c ''drag <source> <target>'' rest rid ''drag'' ''source'' ''target'')
      else if c = ''upload''
      then Some (need c ''upload <selector> <files...>'' rest 0
             (\<lambda>sel. Inr (cmd_obj rid ''upload'' [(''selector'', JStr sel), (''files'', json_strs (tl rest))])))
      else if c = ''download''
      then Some (two_args c ''download <selector> <path>'' rest rid ''download'' ''selector'' ''path'')
      else None)"

subsection \<open>Keyboard and scrolling\<close>

definition parse_keyboard :: "string \<Rightarrow> string list \<Rightarrow> parse_error + json" where
  "parse_keyboard rid rest =
     need ''keyboard'' ''keyboard <type|inserttext> <text>'' rest 0
       (\<lambda>sub. let t = join '' '' (tl rest)
              in if sub = ''type''
                 then (if t = [] then Inl (MissingArguments ''keyboard type'' ''keyboard type <text>'')
                       else Inr (cmd_obj rid ''keyboard'' [(''subaction'', JStr ''type''), (''text'', JStr t)]))
                 else if sub = ''inserttext'' \<or> sub = ''insertText''
                 then (if t = [] then Inl (MissingArguments ''keyboard inserttext'' ''keyboard inserttext <text>'')
                       else Inr (cmd_obj rid ''keyboard'' [(''subaction'', JStr ''insertText''), (''text'', JStr t)]))
                 else Inl (UnknownSubcommand sub [''type'', ''inserttext'']))"

definition keyboard_cmd :: "string \<Rightarrow> string \<Rightarrow> string list \<Rightarrow> (parse_error + json) option" where
  "keyboard_cmd rid c rest =
     (if c = ''press'' \<or> c = ''key'' then Some (one_arg ''press'' ''press <key>'' rest rid ''press'' ''key'')
      else if c = ''keydown'' then Some (one_arg c ''keydown <key>'' rest rid ''keydown'' ''key'')
      else if c = ''keyup'' then Some (one_arg c ''keyup <key>'' rest rid ''keyup'' ''key'')
      else if c = ''keyboard'' then Some (parse_keyboard rid rest)
      else None)"

definition scroll_positional :: "nat \<Rightarrow> string \<Rightarrow> json \<Rightarrow> json" where
  "scroll_positional p a obj =
     (if p = 0 then json_set obj ''direction'' (JStr a)
      else if p = 1 then set_opt ''amount'' json_int (parse_i32 a) obj
      else obj)"

fun scroll_args :: "nat \<Rightarrow> json \<Rightarrow> string list \<Rightarrow> parse_error + json" where
  "scroll_args p obj [] = Inr obj"
| "scroll_args p obj (a # as) =
     (if a = ''-s'' \<or> a = ''--selector''
      then (case as of
              [] \<Rightarrow> Inl (MissingArguments ''scroll --selector'' ''scroll [direction] [amount] [--selector <sel>]'')
            | s # as' \<Rightarrow> scroll_args p (json_set obj ''selector'' (JStr s)) as')
      else if starts_with ''-'' a then scroll_args p obj as
      else scroll_args (Suc p) (scroll_positional p a obj) as)"

definition set_default :: "string \<Rightarrow> json \<Rightarrow> json \<Rightarrow> json" where
  "set_default k v j = (if json_get j k = None then json_set j k v else j)"

definition parse_scroll :: "string \<Rightarrow> string list \<Rightarrow> parse_error + json" where
  "parse_scroll rid rest =
     and_then (scroll_args 0 (cmd_obj rid ''scroll'' []) rest)
       (\<lambda>obj. Inr (set_default ''amount'' (json_int 300) (set_default ''direction'' (JStr ''down'') obj)))"

definition scroll_cmd :: "string \<Rightarrow> string \<Rightarrow> string list \<Rightarrow> (parse_error + json) option" where
  "scroll_cmd rid c rest =
     (if c = ''scroll'' then Some (parse_scroll rid rest)
      else if c = ''scrollintoview'' \<or> c = ''scrollinto''
      then Some (one_arg ''scrollintoview'' ''scrollintoview <selector>'' rest rid ''scrollintoview'' ''selector'')
      else None)"

subsection \<open>Waiting\<close>

definition timeout_flag :: "string list \<Rightarrow> json \<Rightarrow> json" where
  "timeout_flag rest = set_opt ''timeout'' json_nat (Option.bind (flag_value [''--timeout''] rest) parse_u64)"

definition wait_flag ::
    "string list \<Rightarrow> string list \<Rightarrow> string \<Rightarrow> string \<Rightarrow> (string \<Rightarrow> json) \<Rightarrow> (parse_error + json) option" where
  "wait_flag names rest ctx usage mk =
     (case position (\<lambda>s. s \<in> set names) rest of
        None \<Rightarrow> None
      | Some i \<Rightarrow> Some (need ctx usage rest (Suc i) (\<lambda>v. Inr (mk v))))"

definition wait_download :: "string \<Rightarrow> string list \<Rightarrow> (parse_error + json) option" where
  "wait_download rid rest =
     (case position (\<lambda>s. s \<in> set [''--download'', ''-d'']) rest of
        None \<Rightarrow> None
      | Some i \<Rightarrow>
          Some (Inr (timeout_flag rest
            (case get_arg rest (Suc i) of
               Some path \<Rightarrow> set_when (\<not> starts_with ''--'' path) ''path'' (JStr path) (cmd_obj rid ''waitfordownload'' [])
             | None \<Rightarrow> cmd_obj rid ''waitfordownload'' []))))"

definition wait_default :: "string \<Rightarrow> string list \<Rightarrow> parse_error + json" where
  "wait_default rid rest =
     (case rest of
        [] \<Rightarrow> Inl (MissingArguments ''wait'' ''wait <selector|ms|--url|--load|--fn|--text>'')
      | a # as \<Rightarrow>
          Inr (case parse_u64 a of
                 Some t \<Rightarrow> cmd_obj rid ''wait'' [(''timeout'', json_nat t)]
               | None \<Rightarrow> cmd_obj rid ''wait'' [(''selector'', JStr a)]))"

fun first_some :: "'a option list \<Rightarrow> 'a \<Rightarrow> 'a" where
  "first_some [] d = d"
| "first_some (None # xs) d = first_some xs d"
| "first_some (Some x # xs) d = x"

definition parse_wait :: "string \<Rightarrow> string list \<Rightarrow> parse_error + json" where
  "parse_wait rid rest =
     first_some
       [wait_flag [''--url'', ''-u''] rest ''wait --url'' ''wait --url <pattern>''
          (\<lambda>v. cmd_obj rid ''waitforurl'' [(''url'', JStr v)]),
        wait_flag [''--load'', ''-l''] rest ''wait --load'' ''wait --load <state>''
          (\<lambda>v. cmd_obj rid ''waitforloadstate'' [(''state'', JStr v)]),
        wait_flag [''--fn'', ''-f''] rest ''wait --fn'' ''wait --fn <expression>''
          (\<lambda>v. cmd_obj rid ''waitforfunction'' [(''expression'', JStr v)]),
        wait_flag [''--text'', ''-t''] rest ''wait --text'' ''wait --text <text>''
          (\<lambda>v. timeout_flag rest (cmd_obj rid ''wait'' [(''text'', JStr v)])),
        wait_download rid rest]
       (wait_default rid rest)"

subsection \<open>Screenshots, snapshots and scripts\<close>

definition screenshot_target :: "string list \<Rightarrow> string option \<times> string option" where
  "screenshot_target ps =
     (case ps of
        [] \<Rightarrow> (None, None)
      | [a] \<Rightarrow>
          (let is_relative_path = starts_with ''./'' a \<or> starts_with ''../'' a;
               is_selector = \<not> is_relative_path
                 \<and> (starts_with ''.'' a \<or> starts_with ''#'' a \<or> starts_with ''@'' a);
               has_path_extension = ends_with ''.png'' a \<or> ends_with ''.jpg'' a \<or> ends_with ''.jpeg'' a
                 \<or> ends_with ''.webp'' a;
               is_path = is_relative_path \<or> CHR ''/'' \<in> set a \<or> has_path_extension
           in if is_selector \<or> \<not> is_path then (Some a, None) else (None, Some a))
      | a # b # _ \<Rightarrow> (Some a, Some b))"

definition parse_screenshot :: "flags \<Rightarrow> string \<Rightarrow> string list \<Rightarrow> parse_error + json" where
  "parse_screenshot fl rid rest =
     (let is_full = (\<lambda>a. a = ''--full'' \<or> a = ''-f'')
      in case screenshot_target (filter (\<lambda>a. \<not> is_full a) rest) of (selector, path) \<Rightarrow>
        (let j = cmd_obj rid ''screenshot''
               [(''path'', json_opt_str path), (''selector'', json_opt_str selector),
                (''fullPage'', JBool (list_ex is_full rest)), (''annotate'', JBool (annotate fl))];
             j = set_opt ''format'' JStr (screenshot_format fl) j;
             j = set_opt ''quality'' (\<lambda>q. json_nat (unat q)) (screenshot_quality fl) j
         in Inr (set_opt ''screenshotDir'' JStr (screenshot_dir fl) j)))"

fun snapshot_args :: "json \<Rightarrow> string list \<Rightarrow> json" where
  "snapshot_args obj [] = obj"
| "snapshot_args obj (a # as) =
     (if a = ''-i'' \<or> a = ''--interactive'' then snapshot_args (json_set obj ''interactive'' (JBool True)) as
      else if a = ''-c'' \<or> a = ''--compact'' then snapshot_args (json_set obj ''compact'' (JBool True)) as
      else if a = ''-C'' \<or> a = ''--cursor'' then snapshot_args (json_set obj ''cursor'' (JBool True)) as
      else if a = ''-u'' \<or> a = ''--urls'' then snapshot_args (json_set obj ''urls'' (JBool True)) as
      else if a = ''-d'' \<or> a = ''--depth''
      then (case as of
              [] \<Rightarrow> obj
            | d # as' \<Rightarrow>
                (case parse_i32 d of
                   Some n \<Rightarrow> snapshot_args (json_set obj ''maxDepth'' (json_int n)) as'
                 | None \<Rightarrow> snapshot_args obj as))
      else if a = ''-s'' \<or> a = ''--selector''
      then (case as of
              [] \<Rightarrow> obj
            | s # as' \<Rightarrow> snapshot_args (json_set obj ''selector'' (JStr s)) as')
      else snapshot_args obj as)"

definition parse_eval :: "cmd_env \<Rightarrow> string \<Rightarrow> string list \<Rightarrow> parse_error + json" where
  "parse_eval env rid rest =
     (let is_base64 = (get_arg rest 0 = Some ''-b'' \<or> get_arg rest 0 = Some ''--base64'');
          is_stdin = (\<not> is_base64 \<and> get_arg rest 0 = Some ''--stdin'');
          parts = (if is_base64 \<or> is_stdin then tl rest else rest)
      in and_then
           (if is_stdin then Inr (join [CHR 0x0A] (map (unwrap_or []) (cx_stdin env)))
            else if is_base64
            then and_then (ok_or (InvalidValue ''Invalid base64 encoding'' ''eval -b <base64-encoded-script>'')
                            (cx_base64 env (join '' '' parts)))
                   (\<lambda>d. if valid_utf8 d then Inr d
                        else Inl (InvalidValue ''Base64 decoded to invalid UTF-8'' ''eval -b <base64-encoded-script>''))
            else Inr (join '' '' parts))
           (\<lambda>script. Inr (cmd_obj rid ''evaluate'' [(''script'', JStr script)])))"

definition page_cmd ::
    "cmd_env \<Rightarrow> flags \<Rightarrow> string \<Rightarrow> string \<Rightarrow> string list \<Rightarrow> (parse_error + json) option" where
  "page_cmd env fl rid c rest =
     (if c = ''wait'' then Some (parse_wait rid rest)
      else if c = ''screenshot'' then Some (parse_screenshot fl rid rest)
      else if c = ''pdf'' then Some (one_arg c ''pdf <path>'' rest rid ''pdf'' ''path'')
      else if c = ''snapshot'' then Some (Inr (snapshot_args (cmd_obj rid ''snapshot'' []) rest))
      else if c = ''eval'' then Some (parse_eval env rid rest)
      else if c = ''close'' \<or> c = ''quit'' \<or> c = ''exit'' then Some (Inr (cmd_obj rid ''close'' []))
      else if c = ''inspect'' then Some (Inr (cmd_obj rid ''inspect'' []))
      else None)"

subsection \<open>The authentication vault and confirmations\<close>

record auth_opts =
  ao_url :: "string option"
  ao_username :: "string option"
  ao_password :: "string option"
  ao_password_stdin :: bool
  ao_username_selector :: "string option"
  ao_password_selector :: "string option"
  ao_submit_selector :: "string option"

definition no_auth_opts :: auth_opts where
  "no_auth_opts = \<lparr>ao_url = None, ao_username = None, ao_password = None, ao_password_stdin = False,
     ao_username_selector = None, ao_password_selector = None, ao_submit_selector = None\<rparr>"

definition auth_save_usage :: string where
  "auth_save_usage = ''agent-browser auth save <name> --url <url> --username <user> --password <pass>''"

text \<open>A flag at the very end takes no value and resets the option.\<close>

fun auth_args :: "auth_opts \<Rightarrow> string list \<Rightarrow> parse_error + auth_opts" where
  "auth_args ao [] = Inr ao"
| "auth_args ao (a # as) =
     (let v = get_arg as 0; as' = drop 1 as
      in if a = ''--url'' then auth_args (ao\<lparr>ao_url := v\<rparr>) as'
         else if a = ''--username'' then auth_args (ao\<lparr>ao_username := v\<rparr>) as'
         else if a = ''--password'' then auth_args (ao\<lparr>ao_password := v\<rparr>) as'
         else if a = ''--password-stdin'' then auth_args (ao\<lparr>ao_password_stdin := True\<rparr>) as
         else if a = ''--username-selector'' then auth_args (ao\<lparr>ao_username_selector := v\<rparr>) as'
         else if a = ''--password-selector'' then auth_args (ao\<lparr>ao_password_selector := v\<rparr>) as'
         else if a = ''--submit-selector'' then auth_args (ao\<lparr>ao_submit_selector := v\<rparr>) as'
         else if starts_with ''--'' a
         then Inl (InvalidValue (''unknown flag '' @ [CHR 0x27] @ a @ [CHR 0x27] @ '' for auth save'') auth_save_usage)
         else auth_args ao as)"

definition parse_auth_save :: "string \<Rightarrow> string list \<Rightarrow> parse_error + json" where
  "parse_auth_save rid rest =
     (let lacking = MissingArguments ''auth save'' (auth_save_usage @ '' [--password-stdin]'')
      in need ''auth save'' auth_save_usage rest 1
           (\<lambda>name. and_then (auth_args no_auth_opts (drop 2 rest))
           (\<lambda>ao. and_then (ok_or lacking (ao_url ao))
           (\<lambda>url. and_then (ok_or lacking (ao_username ao))
           (\<lambda>user. if \<not> ao_password_stdin ao \<and> ao_password ao = None then Inl lacking
                   else
                     (let j = cmd_obj rid ''auth_save''
                            [(''name'', JStr name), (''url'', JStr url), (''username'', JStr user)];
                          j = set_when (ao_password_stdin ao) ''passwordStdin'' (JBool True) j;
                          j = set_opt ''password'' JStr (ao_password ao) j;
                          j = set_opt ''usernameSelector'' JStr (ao_username_selector ao) j;
                          j = set_opt ''passwordSelector'' JStr (ao_password_selector ao) j
                      in Inr (set_opt ''submitSelector'' JStr (ao_submit_selector ao) j)))))))"

definition sub_arg :: "string \<Rightarrow> string \<Rightarrow> string list \<Rightarrow> string \<Rightarrow> string \<Rightarrow> string \<Rightarrow> parse_error + json" where
  "sub_arg ctx usage rest rid action k =
     need ctx usage rest 1 (\<lambda>v. Inr (cmd_obj rid action [(k, JStr v)]))"

definition parse_auth :: "string \<Rightarrow> string list \<Rightarrow> parse_error + json" where
  "parse_auth rid rest =
     (let sub = get_arg rest 0
      in if sub = Some ''save'' then parse_auth_save rid rest
         else if sub = Some ''login''
         then sub_arg ''auth login'' ''agent-browser auth login <name>'' rest rid ''auth_login'' ''name''
         else if sub = Some ''list'' then Inr (cmd_obj rid ''auth_list'' [])
         else if sub = Some ''delete'' \<or> sub = Some ''remove''
         then sub_arg ''auth delete'' ''agent-browser auth delete <name>'' rest rid ''auth_delete'' ''name''
         else if sub = Some ''show''
         then sub_arg ''auth show'' ''agent-browser auth show <name>'' rest rid ''auth_show'' ''name''
         else Inl (UnknownSubcommand (unwrap_or ''(none)'' sub) [''save'', ''login'', ''list'', ''delete'', ''show'']))"

subsection \<open>Connections and the stream server\<close>

definition connect_usage :: string where
  "connect_usage = ''connect <port|url>''"

definition parse_connect :: "string \<Rightarrow> string list \<Rightarrow> parse_error + json" where
  "parse_connect rid rest =
     need ''connect'' connect_usage rest 0
       (\<lambda>e. if list_ex (\<lambda>p. starts_with p e) [''ws://'', ''wss://'', ''http://'', ''https://'']
            then Inr (cmd_obj rid ''launch'' [(''cdpUrl'', JStr e)])
            else case parse_u32 e of
                   None \<Rightarrow> Inl (InvalidValue (''Invalid value: '' @ [CHR 0x27] @ e @ [CHR 0x27]
                              @ '' is not a valid port number or URL'') connect_usage)
                 | Some p \<Rightarrow>
                     (if p = 0 then Inl (InvalidValue ''Invalid port: port must be greater than 0'' connect_usage)
                      else if 65535 < p
                      then Inl (InvalidValue (''Invalid port: '' @ show_nat p
                             @ '' is out of range (valid range: 1-65535)'') connect_usage)
                      else Inr (cmd_obj rid ''launch'' [(''cdpPort'', json_nat p)])))"

definition stream_usage :: string where
  "stream_usage = ''stream enable [--port <port>]''"

fun stream_args :: "json \<Rightarrow> string list \<Rightarrow> parse_error + json" where
  "stream_args j [] = Inr j"
| "stream_args j (a # as) =
     (if a = ''--port''
      then (case as of
              [] \<Rightarrow> Inl (MissingArguments ''stream enable --port'' stream_usage)
            | v # as' \<Rightarrow>
                (case parse_u32 v of
                   None \<Rightarrow> Inl (InvalidValue (''Invalid port: '' @ [CHR 0x27] @ v @ [CHR 0x27]
                              @ '' is not a valid integer'') stream_usage)
                 | Some p \<Rightarrow>
                     (if 65535 < p
                      then Inl (InvalidValue (''Invalid port: '' @ show_nat p
                             @ '' is out of range (valid range: 0-65535)'') stream_usage)
                      else stream_args (json_set j ''port'' (json_nat p)) as')))
      else Inl (InvalidValue (''Unknown flag for stream enable: '' @ a) stream_usage))"

definition parse_stream :: "string \<Rightarrow> string list \<Rightarrow> parse_error + json" where
  "parse_stream rid rest =
     (case rest of
        [] \<Rightarrow> Inl (MissingArguments ''stream'' ''stream <enable|disable|status>'')
      | sub # as \<Rightarrow>
          (if sub = ''enable'' then stream_args (cmd_obj rid ''stream_enable'' []) as
           else if sub = ''disable'' then Inr (cmd_obj rid ''stream_disable'' [])
           else if sub = ''status'' then Inr (cmd_obj rid ''stream_status'' [])
           else Inl (UnknownSubcommand sub [''enable'', ''disable'', ''status''])))"

definition session_cmd :: "string \<Rightarrow> string \<Rightarrow> string list \<Rightarrow> (parse_error + json) option" where
  "session_cmd rid c rest =
     (if c = ''auth'' then Some (parse_auth rid rest)
      else if c = ''confirm''
      then Some (one_arg c ''agent-browser confirm <confirmation-id>'' rest rid ''confirm'' ''confirmationId'')
      else if c = ''deny''
      then Some (one_arg c ''agent-browser deny <confirmation-id>'' rest rid ''deny'' ''confirmationId'')
      else if c = ''connect'' then Some (parse_connect rid rest)
      else if c = ''stream'' then Some (parse_stream rid rest)
      else None)"

subsection \<open>Reading the page\<close>

definition parse_get :: "string list \<Rightarrow> string \<Rightarrow> parse_error + json" where
  "parse_get rest rid =
     (case rest of
        [] \<Rightarrow> Inl (MissingArguments ''get''
               ''get <text|html|value|attr|url|title|count|box|styles|cdp-url> [args...]'')
      | sub # as \<Rightarrow>
          (if sub = ''text'' then sub_arg ''get text'' ''get text <selector>'' rest rid ''gettext'' ''selector''
           else if sub = ''html'' then sub_arg ''get html'' ''get html <selector>'' rest rid ''innerhtml'' ''selector''
           else if sub = ''value'' then sub_arg ''get value'' ''get value <selector>'' rest rid ''inputvalue'' ''selector''
           else if sub = ''attr''
           then need ''get attr'' ''get attr <selector> <attribute>'' rest 1
                  (\<lambda>sel. need ''get attr'' ''get attr <selector> <attribute>'' rest 2
                     (\<lambda>attr. Inr (cmd_obj rid ''getattribute'' [(''selector'', JStr sel), (''attribute'', JStr attr)])))
           else if sub = ''url'' then Inr (cmd_obj rid ''url'' [])
           else if sub = ''cdp-url'' then Inr (cmd_obj rid ''cdp_url'' [])
           else if sub = ''title'' then Inr (cmd_obj rid ''title'' [])
           else if sub = ''count'' then sub_arg ''get count'' ''get count <selector>'' rest rid ''count'' ''selector''
           else if sub = ''box'' then sub_arg ''get box'' ''get box <selector>'' rest rid ''boundingbox'' ''selector''
           else if sub = ''styles'' then sub_arg ''get styles'' ''get styles <selector>'' rest rid ''styles'' ''selector''
           else Inl (UnknownSubcommand sub
                  [''text'', ''html'', ''value'', ''attr'', ''url'', ''title'', ''count'', ''box'', ''styles'', ''cdp-url''])))"

definition parse_is :: "string list \<Rightarrow> string \<Rightarrow> parse_error + json" where
  "parse_is rest rid =
     (case rest of
        [] \<Rightarrow> Inl (MissingArguments ''is'' ''is <visible|enabled|checked> <selector>'')
      | sub # as \<Rightarrow>
          (if sub = ''visible'' then sub_arg ''is visible'' ''is visible <selector>'' rest rid ''isvisible'' ''selector''
           else if sub = ''enabled'' then sub_arg ''is enabled'' ''is enabled <selector>'' rest rid ''isenabled'' ''selector''
           else if sub = ''checked'' then sub_arg ''is checked'' ''is checked <selector>'' rest rid ''ischecked'' ''selector''
           else Inl (UnknownSubcommand sub [''visible'', ''enabled'', ''checked''])))"

text \<open>The options after the action of a locator: \<open>--exact\<close>, \<open>--name\<close> with its value, and the
  words of the text to fill in.\<close>

fun find_args ::
    "string \<Rightarrow> string option \<Rightarrow> bool \<Rightarrow> string list \<Rightarrow> string list
     \<Rightarrow> parse_error + string option \<times> bool \<times> string list" where
  "find_args loc name exact parts [] = Inr (name, exact, parts)"
| "find_args loc name exact parts (a # as) =
     (if a = ''--exact'' then find_args loc name True parts as
      else if a = ''--name''
      then (case as of
              [] \<Rightarrow> Inl (MissingArguments (''find '' @ loc) ''find role <role> [action] [--name <name>] [--exact]'')
            | n # as' \<Rightarrow> find_args loc (Some n) exact parts as')
      else find_args loc name exact (parts @ [a]) as)"

definition find_usage :: "string \<Rightarrow> string" where
  "find_usage loc =
     (if loc = ''role'' then ''find role <role> [action] [--name <name>] [--exact]''
      else if loc = ''text'' then ''find text <text> [action] [--exact]''
      else if loc = ''label'' then ''find label <label> [action] [text] [--exact]''
      else if loc = ''placeholder'' then ''find placeholder <text> [action] [text] [--exact]''
      else if loc = ''alt'' then ''find alt <text> [action] [--exact]''
      else if loc = ''title'' then ''find title <text> [action] [--exact]''
      else if loc = ''testid'' then ''find testid <id> [action] [text]''
      else if loc = ''first'' then ''find first <selector> [action] [text]''
      else if loc = ''last'' then ''find last <selector> [action] [text]''
      else ''find <locator> <value> [action] [text]'')"

definition locator_command ::
    "string \<Rightarrow> string \<Rightarrow> string \<Rightarrow> string \<Rightarrow> string option \<Rightarrow> bool \<Rightarrow> string option \<Rightarrow> json" where
  "locator_command rid loc v sub name exact fill =
     (let s = (''subaction'', JStr sub); e = (''exact'', JBool exact); filled = set_opt ''value'' JStr fill
      in if loc = ''role''
         then filled (cmd_obj rid ''getbyrole'' [(''role'', JStr v), s, (''name'', json_opt_str name), e])
         else if loc = ''text'' then cmd_obj rid ''getbytext'' [(''text'', JStr v), s, e]
         else if loc = ''label'' then filled (cmd_obj rid ''getbylabel'' [(''label'', JStr v), s, e])
         else if loc = ''placeholder'' then filled (cmd_obj rid ''getbyplaceholder'' [(''placeholder'', JStr v), s, e])
         else if loc = ''alt'' then cmd_obj rid ''getbyalttext'' [(''text'', JStr v), s, e]
         else if loc = ''title'' then cmd_obj rid ''getbytitle'' [(''text'', JStr v), s, e]
         else if loc = ''testid'' then filled (cmd_obj rid ''getbytestid'' [(''testId'', JStr v), s])
         else if loc = ''first'' then filled (cmd_obj rid ''nth'' [(''selector'', JStr v), (''index'', json_int 0), s])
         else filled (cmd_obj rid ''nth'' [(''selector'', JStr v), (''index'', json_int (- 1)), s]))"

definition simple_locators :: "string list" where
  "simple_locators =
     [''role'', ''text'', ''label'', ''placeholder'', ''alt'', ''title'', ''testid'', ''first'', ''last'']"

definition parse_find :: "string list \<Rightarrow> string \<Rightarrow> parse_error + json" where
  "parse_find rest rid =
     need ''find'' ''find <locator> <value> [action] [text]'' rest 0
       (\<lambda>loc.
          if loc \<in> set simple_locators
          then need (''find '' @ loc) (find_usage loc) rest 1
                 (\<lambda>v. and_then (find_args loc None False [] (drop 3 rest))
                    (\<lambda>(name, exact, parts).
                       Inr (locator_command rid loc v (unwrap_or ''click'' (get_arg rest 2)) name exact
                              (if parts = [] then None else Some (join '' '' parts)))))
          else if loc = ''nth''
          then (let lacking = MissingArguments ''find nth'' ''find nth <index> <selector> [action] [text]''
                in and_then (ok_or lacking (get_arg rest 1))
                   (\<lambda>i. and_then (ok_or lacking (parse_i32 i))
                   (\<lambda>idx. and_then (ok_or lacking (get_arg rest 2))
                   (\<lambda>sel. Inr (set_opt ''value'' JStr
                              (if 4 < length rest then Some (join '' '' (drop 4 rest)) else None)
                              (cmd_obj rid ''nth'' [(''selector'', JStr sel), (''index'', json_int idx),
                                 (''subaction'', JStr (unwrap_or ''click'' (get_arg rest 3)))]))))))
          else Inl (UnknownSubcommand loc (simple_locators @ [''nth''])))"

subsection \<open>Mouse and browser settings\<close>

definition parse_mouse :: "string list \<Rightarrow> string \<Rightarrow> parse_error + json" where
  "parse_mouse rest rid =
     (case rest of
        [] \<Rightarrow> Inl (MissingArguments ''mouse'' ''mouse <move|down|up|wheel> [args...]'')
      | sub # as \<Rightarrow>
          (if sub = ''move''
           then (let lacking = MissingArguments ''mouse move'' ''mouse move <x> <y>''
                 in and_then (ok_or lacking (get_arg rest 1))
                    (\<lambda>xs. and_then (ok_or lacking (get_arg rest 2))
                    (\<lambda>ys. and_then (ok_or lacking (parse_i32 xs))
                    (\<lambda>x. and_then (ok_or lacking (parse_i32 ys))
                    (\<lambda>y. Inr (cmd_obj rid ''mousemove'' [(''x'', json_int x), (''y'', json_int y)]))))))
           else if sub = ''down''
           then Inr (cmd_obj rid ''mousedown'' [(''button'', JStr (unwrap_or ''left'' (get_arg rest 1)))])
           else if sub = ''up''
           then Inr (cmd_obj rid ''mouseup'' [(''button'', JStr (unwrap_or ''left'' (get_arg rest 1)))])
           else if sub = ''wheel''
           then Inr (cmd_obj rid ''wheel''
                  [(''deltaX'', json_int (unwrap_or 0 (Option.bind (get_arg rest 2) parse_i32))),
                   (''deltaY'', json_int (unwrap_or 100 (Option.bind (get_arg rest 1) parse_i32)))])
           else Inl (UnknownSubcommand sub [''move'', ''down'', ''up'', ''wheel''])))"

definition parse_viewport :: "cmd_env \<Rightarrow> string list \<Rightarrow> string \<Rightarrow> parse_error + json" where
  "parse_viewport env rest rid =
     (let lacking = MissingArguments ''set viewport'' ''set viewport <width> <height> [scale]''
      in and_then (ok_or lacking (get_arg rest 1))
         (\<lambda>ws. and_then (ok_or lacking (get_arg rest 2))
         (\<lambda>hs. and_then (ok_or lacking (parse_i32 ws))
         (\<lambda>w. and_then (ok_or lacking (parse_i32 hs))
         (\<lambda>h. let j = cmd_obj rid ''viewport'' [(''width'', json_int w), (''height'', json_int h)]
              in case get_arg rest 3 of
                   None \<Rightarrow> Inr j
                 | Some s \<Rightarrow> and_then (ok_or lacking (cx_parse_f64 env s))
                              (\<lambda>scale. Inr (json_set j ''deviceScaleFactor'' (json_f64 scale))))))))"

definition parse_geo :: "cmd_env \<Rightarrow> string list \<Rightarrow> string \<Rightarrow> parse_error + json" where
  "parse_geo env rest rid =
     (let lacking = MissingArguments ''set geo'' ''set geo <latitude> <longitude>''
      in and_then (ok_or lacking (get_arg rest 1))
         (\<lambda>lats. and_then (ok_or lacking (get_arg rest 2))
         (\<lambda>lngs. and_then (ok_or lacking (cx_parse_f64 env lats))
         (\<lambda>lat. and_then (ok_or lacking (cx_parse_f64 env lngs))
         (\<lambda>lng. Inr (cmd_obj rid ''geolocation'' [(''latitude'', json_f64 lat), (''longitude'', json_f64 lng)]))))))"

definition parse_set :: "cmd_env \<Rightarrow> string list \<Rightarrow> string \<Rightarrow> parse_error + json" where
  "parse_set env rest rid =
     (case rest of
        [] \<Rightarrow> Inl (MissingArguments ''set'' ''set <viewport|device|geo|offline|headers|credentials|media> [args...]'')
      | sub # as \<Rightarrow>
          (if sub = ''viewport'' then parse_viewport env rest rid
           else if sub = ''device'' then sub_arg ''set device'' ''set device <name>'' rest rid ''device'' ''device''
           else if sub = ''geo'' \<or> sub = ''geolocation'' then parse_geo env rest rid
           else if sub = ''offline''
           then Inr (cmd_obj rid ''offline'' [(''offline'',
                  JBool (case get_arg rest 1 of None \<Rightarrow> True | Some s \<Rightarrow> s \<noteq> ''off'' \<and> s \<noteq> ''false''))])
           else if sub = ''headers''
           then need ''set headers'' ''set headers <json>'' rest 1
                  (\<lambda>t. and_then (map_err (\<lambda>_. MissingArguments ''set headers'' ''set headers <json> (must be valid JSON object)'')
                                 (de_str (cx_serde env) t))
                  (\<lambda>j. Inr (cmd_obj rid ''headers'' [(''headers'', j)])))
           else if sub = ''credentials'' \<or> sub = ''auth''
           then need ''set credentials'' ''set credentials <username> <password>'' rest 1
                  (\<lambda>user. need ''set credentials'' ''set credentials <username> <password>'' rest 2
                     (\<lambda>pass. Inr (cmd_obj rid ''credentials'' [(''username'', JStr user), (''password'', JStr pass)])))
           else if sub = ''media''
           then Inr (cmd_obj rid ''emulatemedia''
                  [(''colorScheme'', JStr (if ''dark'' \<in> set rest then ''dark''
                       else if ''light'' \<in> set rest then ''light'' else ''no-preference'')),
                   (''reducedMotion'', JStr (if ''reduced-motion'' \<in> set rest then ''reduce'' else ''no-preference''))])
           else Inl (UnknownSubcommand sub
                  [''viewport'', ''device'', ''geo'', ''geolocation'', ''offline'', ''headers'', ''credentials'', ''auth'', ''media''])))"

subsection \<open>Network and storage\<close>

definition parse_har :: "string list \<Rightarrow> string \<Rightarrow> parse_error + json" where
  "parse_har rest rid =
     (case get_arg rest 1 of
        None \<Rightarrow> Inl (MissingArguments ''network har'' ''network har <start|stop> [path]'')
      | Some sub \<Rightarrow>
          (if sub = ''start'' then Inr (cmd_obj rid ''har_start'' [])
           else if sub = ''stop'' then Inr (set_opt ''path'' JStr (get_arg rest 2) (cmd_obj rid ''har_stop'' []))
           else Inl (UnknownSubcommand sub [''start'', ''stop''])))"

definition parse_network :: "string list \<Rightarrow> string \<Rightarrow> parse_error + json" where
  "parse_network rest rid =
     (case rest of
        [] \<Rightarrow> Inl (MissingArguments ''network'' ''network <route|unroute|requests|request|har> [args...]'')
      | sub # as \<Rightarrow>
          (if sub = ''route''
           then need ''network route'' ''network route <url> [--abort|--body <json>] [--resource-type <csv>]'' rest 1
                  (\<lambda>url. Inr (set_opt ''resourceType'' JStr (flag_value [''--resource-type'', ''--resource-types''] rest)
                     (cmd_obj rid ''route'' [(''url'', JStr url), (''abort'', JBool (''--abort'' \<in> set rest)),
                        (''body'', json_opt_str (flag_value [''--body''] rest))])))
           else if sub = ''unroute'' then Inr (set_opt ''url'' JStr (get_arg rest 1) (cmd_obj rid ''unroute'' []))
           else if sub = ''requests''
           then (let j = cmd_obj rid ''requests'' [(''clear'', JBool (''--clear'' \<in> set rest))];
                     j = set_opt ''filter'' JStr (flag_value [''--filter''] rest) j;
                     j = set_opt ''type'' JStr (flag_value [''--type''] rest) j;
                     j = set_opt ''method'' JStr (flag_value [''--method''] rest) j
                 in Inr (set_opt ''status'' JStr (flag_value [''--status''] rest) j))
           else if sub = ''request''
           then sub_arg ''network request'' ''network request <requestId>'' rest rid ''request_detail'' ''requestId''
           else if sub = ''har'' then parse_har rest rid
           else Inl (UnknownSubcommand sub [''route'', ''unroute'', ''requests'', ''request'', ''har''])))"

definition parse_storage :: "string list \<Rightarrow> string \<Rightarrow> parse_error + json" where
  "parse_storage rest rid =
     (case rest of
        [] \<Rightarrow> Inl (MissingArguments ''storage'' ''storage <local|session> [get|set|clear] [key] [value]'')
      | kd # as \<Rightarrow>
          (if kd = ''local'' \<or> kd = ''session''
           then (let lacking = MissingArguments (''storage '' @ kd @ '' set'') ''storage <local|session> set <key> <value>'';
                     (oper, key, v) =
                       (case get_arg rest 1 of
                          None \<Rightarrow> (''get'', None, None)
                        | Some w \<Rightarrow>
                            (if w = ''get'' \<or> w = ''set'' \<or> w = ''clear'' then (w, get_arg rest 2, get_arg rest 3)
                             else (''get'', get_arg rest 1, get_arg rest 2)))
                 in if oper = ''set''
                    then and_then (ok_or lacking key)
                         (\<lambda>k. and_then (ok_or lacking v)
                         (\<lambda>x. Inr (cmd_obj rid ''storage_set'' [(''type'', JStr kd), (''key'', JStr k), (''value'', JStr x)])))
                    else if oper = ''clear'' then Inr (cmd_obj rid ''storage_clear'' [(''type'', JStr kd)])
                    else Inr (set_opt ''key'' JStr key (cmd_obj rid ''storage_get'' [(''type'', JStr kd)])))
           else Inl (UnknownSubcommand kd [''local'', ''session''])))"

definition settings_cmd ::
    "cmd_env \<Rightarrow> string \<Rightarrow> string \<Rightarrow> string list \<Rightarrow> (parse_error + json) option" where
  "settings_cmd env rid c rest =
     (if c = ''get'' then Some (parse_get rest rid)
      else if c = ''is'' then Some (parse_is rest rid)
      else if c = ''find'' then Some (parse_find rest rid)
      else if c = ''mouse'' then Some (parse_mouse rest rid)
      else if c = ''set'' then Some (parse_set env rest rid)
      else if c = ''network'' then Some (parse_network rest rid)
      else if c = ''storage'' then Some (parse_storage rest rid)
      else None)"

subsection \<open>Cookies\<close>

definition scope_cookie :: "string option \<Rightarrow> string option \<Rightarrow> json \<Rightarrow> json" where
  "scope_cookie domain url c =
     set_opt ''url'' JStr url
       (case domain of
          None \<Rightarrow> c
        | Some d \<Rightarrow>
            (let c' = json_set c ''domain'' (JStr d)
             in json_set c' ''path'' (unwrap_or (JStr ''/'') (json_get c' ''path''))))"

definition parse_cookies_curl :: "cmd_env \<Rightarrow> string \<Rightarrow> string list \<Rightarrow> nat \<Rightarrow> parse_error + json" where
  "parse_cookies_curl env rid rest i =
     need ''cookies set --curl'' ''cookies set --curl <file> [--domain <domain>] [--url <url>]'' rest (Suc i)
       (\<lambda>path. and_then
          (map_err (\<lambda>e. InvalidValue (''cookies --curl: cannot read '' @ [CHR 0x27] @ path @ [CHR 0x27] @ '': ''
                        @ io_text e) ''cookies set --curl <file>'')
             (fs_read_to_string (abs_components (cx_cwd env) path) (cx_fs env)))
       (\<lambda>raw. and_then
          (map_err (\<lambda>e. InvalidValue (''cookies --curl: '' @ e) ''cookies set --curl <file>'')
             (parse_curl_cookies env raw))
       (\<lambda>cs. Inr (cmd_obj rid ''cookies_set''
               [(''cookies'', JArr (map (scope_cookie (flag_value [''--domain''] rest) (flag_value [''--url''] rest)) cs))]))))"

definition same_site_usage :: string where
  "same_site_usage = ''--sameSite <Strict|Lax|None>''"

fun cookie_args :: "json \<Rightarrow> string list \<Rightarrow> parse_error + json" where
  "cookie_args c [] = Inr c"
| "cookie_args c (a # as) =
     (if a = ''--url''
      then (case as of [] \<Rightarrow> Inl (MissingArguments ''cookies set --url'' ''--url <url>'')
                     | v # as' \<Rightarrow> cookie_args (json_set c ''url'' (JStr v)) as')
      else if a = ''--domain''
      then (case as of [] \<Rightarrow> Inl (MissingArguments ''cookies set --domain'' ''--domain <domain>'')
                     | v # as' \<Rightarrow> cookie_args (json_set c ''domain'' (JStr v)) as')
      else if a = ''--path''
      then (case as of [] \<Rightarrow> Inl (MissingArguments ''cookies set --path'' ''--path <path>'')
                     | v # as' \<Rightarrow> cookie_args (json_set c ''path'' (JStr v)) as')
      else if a = ''--httpOnly'' then cookie_args (json_set c ''httpOnly'' (JBool True)) as
      else if a = ''--secure'' then cookie_args (json_set c ''secure'' (JBool True)) as
      else if a = ''--sameSite''
      then (case as of [] \<Rightarrow> Inl (MissingArguments ''cookies set --sameSite'' same_site_usage)
                     | v # as' \<Rightarrow>
                         (if v = ''Strict'' \<or> v = ''Lax'' \<or> v = ''None''
                          then cookie_args (json_set c ''sameSite'' (JStr v)) as'
                          else Inl (MissingArguments ''cookies set --sameSite'' same_site_usage)))
      else if a = ''--expires''
      then (case as of [] \<Rightarrow> Inl (MissingArguments ''cookies set --expires'' ''--expires <timestamp>'')
                     | v # as' \<Rightarrow>
                         (case parse_i64 v of
                            Some n \<Rightarrow> cookie_args (json_set c ''expires'' (json_int n)) as'
                          | None \<Rightarrow> Inl (MissingArguments ''cookies set --expires'' ''--expires <timestamp>'')))
      else cookie_args c as)"

definition cookies_usage :: string where
  "cookies_usage =
     ''cookies set <name> <value> [--url <url>] [--domain <domain>] [--path <path>] [--httpOnly] [--secure] [--sameSite <Strict|Lax|None>] [--expires <timestamp>]''
     @ [CHR 0x0A] @ ''  or:  cookies set --curl <file> [--domain <domain>] [--url <url>]''"

definition parse_cookies :: "cmd_env \<Rightarrow> string \<Rightarrow> string list \<Rightarrow> parse_error + json" where
  "parse_cookies env rid rest =
     (let oper = unwrap_or ''get'' (get_arg rest 0)
      in if oper = ''set''
         then (case position (\<lambda>a. a = ''--curl'') rest of
                 Some i \<Rightarrow> parse_cookies_curl env rid rest i
               | None \<Rightarrow>
                   need ''cookies set'' cookies_usage rest 1
                     (\<lambda>name. need ''cookies set'' cookies_usage rest 2
                     (\<lambda>v. and_then (cookie_args (cookie name v) (drop 3 rest))
                     (\<lambda>c. Inr (cmd_obj rid ''cookies_set'' [(''cookies'', JArr [c])])))))
         else if oper = ''clear'' then Inr (cmd_obj rid ''cookies_clear'' [])
         else Inr (cmd_obj rid ''cookies_get'' []))"

subsection \<open>Tabs, windows, frames and dialogs\<close>

fun tab_new_args :: "json \<Rightarrow> string list \<Rightarrow> parse_error + json" where
  "tab_new_args j [] = Inr j"
| "tab_new_args j (a # as) =
     (if a = ''--label''
      then (case as of
              [] \<Rightarrow> Inl (MissingArguments ''tab new --label'' ''tab new --label <name> [url]'')
            | n # as' \<Rightarrow> tab_new_args (json_set j ''label'' (JStr n)) as')
      else if \<not> starts_with ''--'' a \<and> json_get j ''url'' = None
      then tab_new_args (json_set j ''url'' (JStr a)) as
      else Inl (UnknownSubcommand a [''--label'', ''<url>'']))"

definition parse_tab :: "string \<Rightarrow> string list \<Rightarrow> parse_error + json" where
  "parse_tab rid rest =
     (case rest of
        [] \<Rightarrow> Inr (cmd_obj rid ''tab_list'' [])
      | sub # as \<Rightarrow>
          (if sub = ''new'' then tab_new_args (cmd_obj rid ''tab_new'' []) as
           else if sub = ''list'' then Inr (cmd_obj rid ''tab_list'' [])
           else if sub = ''close'' then Inr (set_opt ''tabId'' JStr (get_arg rest 1) (cmd_obj rid ''tab_close'' []))
           else Inr (cmd_obj rid ''tab_switch'' [(''tabId'', JStr sub)])))"

definition parse_window :: "string \<Rightarrow> string list \<Rightarrow> parse_error + json" where
  "parse_window rid rest =
     (case rest of
        [] \<Rightarrow> Inl (MissingArguments ''window'' ''window <new>'')
      | sub # as \<Rightarrow>
          (if sub = ''new'' then Inr (cmd_obj rid ''window_new'' []) else Inl (UnknownSubcommand sub [''new''])))"

definition parse_frame :: "string \<Rightarrow> string list \<Rightarrow> parse_error + json" where
  "parse_frame rid rest =
     (if get_arg rest 0 = Some ''main'' then Inr (cmd_obj rid ''mainframe'' [])
      else one_arg ''frame'' ''frame <selector|main>'' rest rid ''frame'' ''selector'')"

definition parse_dialog :: "string \<Rightarrow> string list \<Rightarrow> parse_error + json" where
  "parse_dialog rid rest =
     (case rest of
        [] \<Rightarrow> Inl (MissingArguments ''dialog'' ''dialog <accept|dismiss|status> [text]'')
      | sub # as \<Rightarrow>
          (if sub = ''accept'' \<or> sub = ''dismiss''
           then Inr (set_opt ''promptText'' JStr (get_arg rest 1) (cmd_obj rid ''dialog'' [(''response'', JStr sub)]))
           else if sub = ''status'' then Inr (cmd_obj rid ''dialog'' [(''response'', JStr ''status'')])
           else Inl (UnknownSubcommand sub [''accept'', ''dismiss'', ''status''])))"

definition window_cmd ::
    "cmd_env \<Rightarrow> string \<Rightarrow> string \<Rightarrow> string list \<Rightarrow> (parse_error + json) option" where
  "window_cmd env rid c rest =
     (if c = ''cookies'' then Some (parse_cookies env rid rest)
      else if c = ''tab'' then Some (parse_tab rid rest)
      else if c = ''window'' then Some (parse_window rid rest)
      else if c = ''frame'' then Some (parse_frame rid rest)
      else if c = ''dialog'' then Some (parse_dialog rid rest)
      else None)"

subsection \<open>Tracing, recording and the clipboard\<close>

definition start_stop ::
    "string list \<Rightarrow> string \<Rightarrow> string \<Rightarrow> (parse_error + json) \<Rightarrow> json \<Rightarrow> parse_error + json" where
  "start_stop rest ctx usage start stop =
     (case rest of
        [] \<Rightarrow> Inl (MissingArguments ctx usage)
      | sub # as \<Rightarrow>
          (if sub = ''start'' then start
           else if sub = ''stop'' then Inr (set_opt ''path'' JStr (get_arg rest 1) stop)
           else Inl (UnknownSubcommand sub [''start'', ''stop''])))"

definition parse_trace :: "string \<Rightarrow> string list \<Rightarrow> parse_error + json" where
  "parse_trace rid rest =
     start_stop rest ''trace'' ''trace <start|stop> [path]''
       (Inr (cmd_obj rid ''trace_start'' [])) (cmd_obj rid ''trace_stop'' [])"

definition parse_profiler :: "string \<Rightarrow> string list \<Rightarrow> parse_error + json" where
  "parse_profiler rid rest =
     start_stop rest ''profiler'' ''profiler <start|stop> [options]''
       (case position (\<lambda>s. s = ''--categories'') rest of
          None \<Rightarrow> Inr (cmd_obj rid ''profiler_start'' [])
        | Some i \<Rightarrow>
            need ''profiler start --categories'' ''--categories <list>'' rest (Suc i)
              (\<lambda>cats. Inr (json_set (cmd_obj rid ''profiler_start'' []) ''categories''
                         (json_strs (split_on (CHR '','') cats)))))
       (cmd_obj rid ''profiler_stop'' [])"

definition recording_url :: "string \<Rightarrow> string" where
  "recording_url u = (if starts_with ''http'' u \<or> contains_str ''://'' u then u else ''https://'' @ u)"

definition parse_recording :: "string \<Rightarrow> string list \<Rightarrow> string \<Rightarrow> string \<Rightarrow> string \<Rightarrow> parse_error + json" where
  "parse_recording rid rest ctx usage action =
     need ctx usage rest 1
       (\<lambda>path. Inr (set_opt ''url'' (\<lambda>u. JStr (recording_url u)) (get_arg rest 2)
                  (cmd_obj rid action [(''path'', JStr path)])))"

definition parse_record :: "string \<Rightarrow> string list \<Rightarrow> parse_error + json" where
  "parse_record rid rest =
     (case rest of
        [] \<Rightarrow> Inl (MissingArguments ''record'' ''record <start|stop|restart> [path] [url]'')
      | sub # as \<Rightarrow>
          (if sub = ''start''
           then parse_recording rid rest ''record start'' ''record start <output.webm> [url]'' ''recording_start''
           else if sub = ''stop'' then Inr (cmd_obj rid ''recording_stop'' [])
           else if sub = ''restart''
           then parse_recording rid rest ''record restart'' ''record restart <output.webm> [url]'' ''recording_restart''
           else Inl (UnknownSubcommand sub [''start'', ''stop'', ''restart''])))"

definition parse_clipboard :: "string \<Rightarrow> string list \<Rightarrow> parse_error + json" where
  "parse_clipboard rid rest =
     (case rest of
        [] \<Rightarrow> Inr (cmd_obj rid ''clipboard'' [(''operation'', JStr ''read'')])
      | sub # as \<Rightarrow>
          (if sub = ''write''
           then need ''clipboard write'' ''clipboard write <text>'' rest 1
                  (\<lambda>_. Inr (cmd_obj rid ''clipboard'' [(''operation'', JStr ''write''), (''text'', JStr (join '' '' as))]))
           else if sub = ''read'' \<or> sub = ''copy'' \<or> sub = ''paste''
           then Inr (cmd_obj rid ''clipboard'' [(''operation'', JStr sub)])
           else Inl (UnknownSubcommand sub [''read'', ''write'', ''copy'', ''paste''])))"

definition debug_cmd :: "string \<Rightarrow> string \<Rightarrow> string list \<Rightarrow> (parse_error + json) option" where
  "debug_cmd rid c rest =
     (if c = ''trace'' then Some (parse_trace rid rest)
      else if c = ''profiler'' then Some (parse_profiler rid rest)
      else if c = ''record'' then Some (parse_record rid rest)
      else if c = ''console'' then Some (Inr (cmd_obj rid ''console'' [(''clear'', JBool (''--clear'' \<in> set rest))]))
      else if c = ''errors'' then Some (Inr (cmd_obj rid ''errors'' [(''clear'', JBool (''--clear'' \<in> set rest))]))
      else if c = ''highlight'' then Some (one_arg c ''highlight <selector>'' rest rid ''highlight'' ''selector'')
      else if c = ''clipboard'' then Some (parse_clipboard rid rest)
      else None)"

subsection \<open>Saved states\<close>

fun state_clear_args :: "string option \<Rightarrow> bool \<Rightarrow> string list \<Rightarrow> string option \<times> bool" where
  "state_clear_args name all [] = (name, all)"
| "state_clear_args name all (a # as) =
     (if a = ''--all'' \<or> a = ''-a'' then state_clear_args name True as
      else if \<not> starts_with ''-'' a then state_clear_args (Some a) all as
      else state_clear_args name all as)"

definition parse_state_clear :: "unicode \<Rightarrow> string \<Rightarrow> string list \<Rightarrow> parse_error + json" where
  "parse_state_clear u rid rest =
     (case state_clear_args None False (tl rest) of (name, all) \<Rightarrow>
        (case name of
           Some n \<Rightarrow>
             (if is_valid_session_name u n
              then Inr (json_set (set_when all ''all'' (JBool True) (cmd_obj rid ''state_clear'' [])) ''sessionName'' (JStr n))
              else Inl (InvalidSessionName n))
         | None \<Rightarrow> Inr (set_when all ''all'' (JBool True) (cmd_obj rid ''state_clear'' []))))"

fun state_clean_args :: "int option \<Rightarrow> string list \<Rightarrow> int option" where
  "state_clean_args days [] = days"
| "state_clean_args days (a # as) =
     (if a = ''--older-than''
      then (case as of [] \<Rightarrow> days | d # as' \<Rightarrow> state_clean_args (parse_i64 d) as')
      else state_clean_args days as)"

function strip_json_suffix :: "string \<Rightarrow> string" where
  "strip_json_suffix s = (if ends_with ''.json'' s then strip_json_suffix (take (length s - 5) s) else s)"
  by pat_completeness auto

termination strip_json_suffix
proof (relation "measure length", goal_cases)
  case (2 s)
  then have "s \<noteq> []" by (auto simp: ends_with_def starts_with_def)
  then show ?case by simp
qed simp

declare strip_json_suffix.simps [simp del]

definition parse_state_rename :: "unicode \<Rightarrow> string \<Rightarrow> string list \<Rightarrow> parse_error + json" where
  "parse_state_rename u rid rest =
     need ''state rename'' ''state rename <old-name> <new-name>'' rest 1
       (\<lambda>a. need ''state rename'' ''state rename <old-name> <new-name>'' rest 2
       (\<lambda>b. let old = strip_json_suffix a; new = strip_json_suffix b
            in if \<not> is_valid_session_name u old then Inl (InvalidSessionName old)
               else if \<not> is_valid_session_name u new then Inl (InvalidSessionName new)
               else Inr (cmd_obj rid ''state_rename'' [(''oldName'', JStr old), (''newName'', JStr new)])))"

definition parse_state :: "unicode \<Rightarrow> string \<Rightarrow> string list \<Rightarrow> parse_error + json" where
  "parse_state u rid rest =
     (case rest of
        [] \<Rightarrow> Inl (MissingArguments ''state'' ''state <save|load|list|clear|show|clean|rename> ...'')
      | sub # as \<Rightarrow>
          (if sub = ''save'' then sub_arg ''state save'' ''state save <path>'' rest rid ''state_save'' ''path''
           else if sub = ''load'' then sub_arg ''state load'' ''state load <path>'' rest rid ''state_load'' ''path''
           else if sub = ''list'' then Inr (cmd_obj rid ''state_list'' [])
           else if sub = ''clear'' then parse_state_clear u rid rest
           else if sub = ''show'' then sub_arg ''state show'' ''state show <filename>'' rest rid ''state_show'' ''path''
           else if sub = ''clean''
           then and_then (ok_or (MissingArguments ''state clean'' ''state clean --older-than <days>'') (state_clean_args None as))
                  (\<lambda>days. Inr (cmd_obj rid ''state_clean'' [(''days'', json_int days)]))
           else if sub = ''rename'' then parse_state_rename u rid rest
           else Inl (UnknownSubcommand sub [''save'', ''load'', ''list'', ''clear'', ''show'', ''clean'', ''rename''])))"

subsection \<open>Devices and comparisons\<close>

definition parse_swipe :: "string \<Rightarrow> string list \<Rightarrow> parse_error + json" where
  "parse_swipe rid rest =
     need ''swipe'' ''swipe <up|down|left|right> [distance]'' rest 0
       (\<lambda>d. if d \<notin> set [''up'', ''down'', ''left'', ''right'']
            then Inl (InvalidValue (''Invalid swipe direction: '' @ d) ''swipe <up|down|left|right> [distance]'')
            else Inr (set_opt ''distance'' json_nat (Option.bind (get_arg rest 1) parse_u32)
                   (cmd_obj rid ''swipe'' [(''direction'', JStr d)])))"

definition parse_device :: "string \<Rightarrow> string list \<Rightarrow> parse_error + json" where
  "parse_device rid rest =
     (case rest of
        [] \<Rightarrow> Inr (cmd_obj rid ''device_list'' [])
      | sub # as \<Rightarrow>
          (if sub = ''list'' then Inr (cmd_obj rid ''device_list'' []) else Inl (UnknownSubcommand sub [''list''])))"

text \<open>A flag that takes a value, in the comparison commands.\<close>

definition flagged :: "string list \<Rightarrow> string \<Rightarrow> string \<Rightarrow> (string \<Rightarrow> parse_error + 'a) \<Rightarrow> parse_error + 'a" where
  "flagged as ctx usage f = (case as of [] \<Rightarrow> Inl (MissingArguments ctx usage) | v # as' \<Rightarrow> f v)"

lemma flagged_cong [fundef_cong]:
  "as = bs \<Longrightarrow> ctx = ctx' \<Longrightarrow> usage = usage' \<Longrightarrow> (\<And>v vs. bs = v # vs \<Longrightarrow> f v = g v)
   \<Longrightarrow> flagged as ctx usage f = flagged bs ctx' usage' g"
  by (simp add: flagged_def split: list.split)

definition no_such_flag :: "string \<Rightarrow> string \<Rightarrow> parse_error + 'a" where
  "no_such_flag a usage =
     Inl (InvalidValue ((if starts_with ''-'' a then ''Unknown flag: '' else ''Unexpected argument: '') @ a) usage)"

definition depth_value :: "string \<Rightarrow> string \<Rightarrow> (nat \<Rightarrow> parse_error + 'a) \<Rightarrow> parse_error + 'a" where
  "depth_value d usage f =
     (case parse_u32 d of
        Some n \<Rightarrow> f n
      | None \<Rightarrow> Inl (InvalidValue (''Depth must be a non-negative integer, got: '' @ d) usage))"

lemma depth_value_cong [fundef_cong]:
  "d = d' \<Longrightarrow> usage = usage' \<Longrightarrow> (\<And>n. parse_u32 d' = Some n \<Longrightarrow> f n = g n)
   \<Longrightarrow> depth_value d usage f = depth_value d' usage' g"
  by (simp add: depth_value_def split: option.split)

definition threshold_value :: "cmd_env \<Rightarrow> string \<Rightarrow> (64 word \<Rightarrow> parse_error + 'a) \<Rightarrow> parse_error + 'a" where
  "threshold_value env v f =
     (case cx_parse_f64 env v of
        None \<Rightarrow> Inl (InvalidValue (''Invalid threshold value: '' @ v) ''diff screenshot --threshold <0-1>'')
      | Some t \<Rightarrow>
          (if in_unit_interval t then f t
           else Inl (InvalidValue (''Threshold must be between 0 and 1, got '' @ cx_show_f64 env t)
                  ''diff screenshot --threshold <0-1>'')))"

lemma threshold_value_cong [fundef_cong]:
  "env = env' \<Longrightarrow> v = v' \<Longrightarrow> (\<And>t. cx_parse_f64 env' v' = Some t \<Longrightarrow> f t = g t)
   \<Longrightarrow> threshold_value env v f = threshold_value env' v' g"
  by (simp add: threshold_value_def split: option.split)

fun diff_snapshot_args :: "json \<Rightarrow> string list \<Rightarrow> parse_error + json" where
  "diff_snapshot_args obj [] = Inr obj"
| "diff_snapshot_args obj (a # as) =
     (if a = ''-b'' \<or> a = ''--baseline''
      then flagged as ''diff snapshot --baseline'' ''diff snapshot --baseline <file>''
             (\<lambda>v. diff_snapshot_args (json_set obj ''baseline'' (JStr v)) (drop 1 as))
      else if a = ''-s'' \<or> a = ''--selector''
      then flagged as ''diff snapshot --selector'' ''diff snapshot --selector <sel>''
             (\<lambda>v. diff_snapshot_args (json_set obj ''selector'' (JStr v)) (drop 1 as))
      else if a = ''-c'' \<or> a = ''--compact'' then diff_snapshot_args (json_set obj ''compact'' (JBool True)) as
      else if a = ''-d'' \<or> a = ''--depth''
      then flagged as ''diff snapshot --depth'' ''diff snapshot --depth <n>''
             (\<lambda>v. depth_value v ''diff snapshot --depth <n>''
                (\<lambda>n. diff_snapshot_args (json_set obj ''maxDepth'' (json_nat n)) (drop 1 as)))
      else no_such_flag a ''diff snapshot [--baseline <file>] [--selector <sel>] [--compact] [--depth <n>]'')"

fun diff_screenshot_args :: "cmd_env \<Rightarrow> json \<Rightarrow> string list \<Rightarrow> parse_error + json" where
  "diff_screenshot_args env obj [] = Inr obj"
| "diff_screenshot_args env obj (a # as) =
     (if a = ''-b'' \<or> a = ''--baseline''
      then flagged as ''diff screenshot --baseline'' ''diff screenshot --baseline <file>''
             (\<lambda>v. diff_screenshot_args env (json_set obj ''baseline'' (JStr v)) (drop 1 as))
      else if a = ''-o'' \<or> a = ''--output''
      then flagged as ''diff screenshot --output'' ''diff screenshot --output <file>''
             (\<lambda>v. diff_screenshot_args env (json_set obj ''output'' (JStr v)) (drop 1 as))
      else if a = ''-t'' \<or> a = ''--threshold''
      then flagged as ''diff screenshot --threshold'' ''diff screenshot --threshold <0-1>''
             (\<lambda>v. threshold_value env v
                (\<lambda>t. diff_screenshot_args env (json_set obj ''threshold'' (json_f64 t)) (drop 1 as)))
      else if a = ''-s'' \<or> a = ''--selector''
      then flagged as ''diff screenshot --selector'' ''diff screenshot --selector <sel>''
             (\<lambda>v. diff_screenshot_args env (json_set obj ''selector'' (JStr v)) (drop 1 as))
      else if a = ''--full'' \<or> a = ''-f'' then diff_screenshot_args env (json_set obj ''fullPage'' (JBool True)) as
      else no_such_flag a
             ''diff screenshot --baseline <file> [--output <file>] [--threshold <0-1>] [--selector <sel>] [--full/-f]'')"

fun diff_url_args :: "json \<Rightarrow> string list \<Rightarrow> parse_error + json" where
  "diff_url_args obj [] = Inr obj"
| "diff_url_args obj (a # as) =
     (if a = ''--screenshot'' then diff_url_args (json_set obj ''screenshot'' (JBool True)) as
      else if a = ''--full'' \<or> a = ''-f'' then diff_url_args (json_set obj ''fullPage'' (JBool True)) as
      else if a = ''--wait-until''
      then flagged as ''diff url --wait-until'' ''diff url <url1> <url2> --wait-until <load|domcontentloaded|networkidle>''
             (\<lambda>v. diff_url_args (json_set obj ''waitUntil'' (JStr v)) (drop 1 as))
      else if a = ''-s'' \<or> a = ''--selector''
      then flagged as ''diff url --selector'' ''diff url <url1> <url2> --selector <sel>''
             (\<lambda>v. diff_url_args (json_set obj ''selector'' (JStr v)) (drop 1 as))
      else if a = ''-c'' \<or> a = ''--compact'' then diff_url_args (json_set obj ''compact'' (JBool True)) as
      else if a = ''-d'' \<or> a = ''--depth''
      then flagged as ''diff url --depth'' ''diff url <url1> <url2> --depth <n>''
             (\<lambda>v. depth_value v ''diff url <url1> <url2> --depth <n>''
                (\<lambda>n. diff_url_args (json_set obj ''maxDepth'' (json_nat n)) (drop 1 as)))
      else no_such_flag a
             ''diff url <url1> <url2> [--screenshot] [--full/-f] [--wait-until <strategy>] [--selector <sel>] [--compact] [--depth <n>]'')"

definition parse_diff :: "cmd_env \<Rightarrow> string list \<Rightarrow> string \<Rightarrow> parse_error + json" where
  "parse_diff env rest rid =
     (case rest of
        [] \<Rightarrow> Inl (MissingArguments ''diff'' ''diff <snapshot|screenshot|url>'')
      | sub # as \<Rightarrow>
          (if sub = ''snapshot'' then diff_snapshot_args (cmd_obj rid ''diff_snapshot'' []) as
           else if sub = ''screenshot''
           then and_then (diff_screenshot_args env (cmd_obj rid ''diff_screenshot'' []) as)
                  (\<lambda>obj. if json_get obj ''baseline'' = None
                         then Inl (MissingArguments ''diff screenshot'' ''diff screenshot --baseline <file>'')
                         else Inr obj)
           else if sub = ''url''
           then need ''diff url'' ''diff url <url1> <url2>'' rest 1
                  (\<lambda>u1. need ''diff url'' ''diff url <url1> <url2>'' rest 2
                  (\<lambda>u2. diff_url_args (cmd_obj rid ''diff_url'' [(''url1'', JStr u1), (''url2'', JStr u2)]) (drop 3 rest)))
           else Inl (UnknownSubcommand sub [''snapshot'', ''screenshot'', ''url''])))"

subsection \<open>Batches and React\<close>

definition parse_batch :: "string \<Rightarrow> string list \<Rightarrow> json" where
  "parse_batch rid rest =
     (let cmds = filter (\<lambda>a. a \<noteq> ''--bail'') rest
      in set_when (cmds \<noteq> []) ''commands'' (json_strs cmds)
           (cmd_obj rid ''batch'' [(''bail'', JBool (''--bail'' \<in> set rest))]))"

definition parse_react :: "string list \<Rightarrow> string \<Rightarrow> parse_error + json" where
  "parse_react rest rid =
     need ''react'' ''react <tree|inspect|renders|suspense>'' rest 0
       (\<lambda>sub. let flag = (\<lambda>key. set_when (''--json'' \<in> set rest) ''json'' (JBool True) (cmd_obj rid key []))
              in if sub = ''tree'' then Inr (flag ''react_tree'')
                 else if sub = ''inspect''
                 then and_then (ok_or (MissingArguments ''react inspect'' ''react inspect <id>'')
                                 (List.find (\<lambda>a. \<not> starts_with ''--'' a) (drop 1 rest)))
                        (\<lambda>a. and_then (ok_or (InvalidValue (''react inspect id must be a number, got ''
                                           @ [CHR 0x27] @ a @ [CHR 0x27]) ''react inspect <id>'') (parse_i64 a))
                        (\<lambda>n. Inr (set_when (''--json'' \<in> set rest) ''json'' (JBool True)
                                 (cmd_obj rid ''react_inspect'' [(''fiberId'', json_int n)]))))
                 else if sub = ''renders''
                 then (let oper = unwrap_or ''start'' (get_arg rest 1)
                       in if oper = ''start'' then Inr (flag ''react_renders_start'')
                          else if oper = ''stop'' then Inr (flag ''react_renders_stop'')
                          else Inl (UnknownSubcommand oper [''start'', ''stop'']))
                 else if sub = ''suspense''
                 then Inr (set_when (''--only-dynamic'' \<in> set rest) ''onlyDynamic'' (JBool True) (flag ''react_suspense''))
                 else Inl (UnknownSubcommand sub [''tree'', ''inspect'', ''renders'', ''suspense'']))"

definition parse_vitals :: "string \<Rightarrow> string list \<Rightarrow> json" where
  "parse_vitals rid rest =
     set_opt ''url'' JStr (List.find (\<lambda>a. \<not> starts_with ''--'' a) rest)
       (set_when (''--json'' \<in> set rest) ''json'' (JBool True) (cmd_obj rid ''vitals'' []))"

definition other_cmd :: "cmd_env \<Rightarrow> string \<Rightarrow> string \<Rightarrow> string list \<Rightarrow> (parse_error + json) option" where
  "other_cmd env rid c rest =
     (if c = ''state'' then Some (parse_state (cx_unicode env) rid rest)
      else if c = ''tap'' then Some (one_arg c ''tap <selector>'' rest rid ''tap'' ''selector'')
      else if c = ''swipe'' then Some (parse_swipe rid rest)
      else if c = ''device'' then Some (parse_device rid rest)
      else if c = ''diff'' then Some (parse_diff env rest rid)
      else if c = ''batch'' then Some (Inr (parse_batch rid rest))
      else if c = ''react'' then Some (parse_react rest rid)
      else if c = ''vitals'' \<or> c = ''web-vitals'' then Some (Inr (parse_vitals rid rest))
      else if c = ''pushstate'' then Some (one_arg c ''pushstate <url>'' rest rid ''pushstate'' ''url'')
      else if c = ''removeinitscript''
      then Some (one_arg c ''removeinitscript <identifier>'' rest rid ''removeinitscript'' ''identifier'')
      else None)"

subsection \<open>The whole command line\<close>

definition parse_command_inner :: "cmd_env \<Rightarrow> flags \<Rightarrow> string \<Rightarrow> string list \<Rightarrow> parse_error + json" where
  "parse_command_inner env fl rid args =
     (case args of
        [] \<Rightarrow> Inl (MissingArguments '''' ''<command> [args...]'')
      | c # rest \<Rightarrow>
          first_some
            [navigation_cmd env fl rid c rest, core_cmd rid c rest, keyboard_cmd rid c rest,
             scroll_cmd rid c rest, page_cmd env fl rid c rest, session_cmd rid c rest,
             settings_cmd env rid c rest, window_cmd env rid c rest, debug_cmd rid c rest,
             other_cmd env rid c rest]
            (Inl (UnknownCommand c)))"

definition add_default_timeout :: "flags \<Rightarrow> json \<Rightarrow> json" where
  "add_default_timeout fl j =
     (case Option.bind (json_get j ''action'') as_str of
        Some a \<Rightarrow>
          (if starts_with ''wait'' a \<and> json_get j ''timeout'' = None
           then set_opt ''timeout'' (\<lambda>t. json_nat (unat t)) (default_timeout fl) j else j)
      | None \<Rightarrow> j)"

definition parse_command :: "cmd_env \<Rightarrow> flags \<Rightarrow> nat \<Rightarrow> string list \<Rightarrow> parse_error + json" where
  "parse_command env fl micros args =
     and_then (parse_command_inner env fl (gen_id micros) args) (\<lambda>j. Inr (add_default_timeout fl j))"

end
