(* ===== verification/Action_Gate.thy ===== *)
theory Action_Gate
  imports Cmd_Args
begin

section \<open>The gate of the browser daemon\<close>

text \<open>
  Which commands the browser daemon executes: the action policy and the confirmation list
  (\<open>native/policy.rs\<close>), \<open>execute_command\<close> with \<open>handle_confirm\<close> and \<open>handle_deny\<close>
  (\<open>native/actions.rs\<close>), and the loop that reads commands from a connection
  (\<open>handle_connection\<close> of \<open>native/daemon.rs\<close>). The fields \<open>policy\<close>, \<open>confirm_actions\<close> and
  \<open>pending_confirmation\<close> of \<open>DaemonState\<close> are written by these functions alone; everything else
  in it is a world \<open>'b\<close>, and what drives the browser (launching it, the handlers of the
  dispatched actions, the stream server, CDP events) are functions on that world in
  \<open>gate_env\<close>.
\<close>

subsection \<open>Policies\<close>

datatype policy_result = Allow | Deny string | RequiresConfirmation

record action_policy =
  ap_path :: string
  ap_default :: "string option"
  ap_allow :: "string list option"
  ap_deny :: "string list option"
  ap_confirm :: "string list option"

definition quoted :: "string \<Rightarrow> string" where
  "quoted s = [CHR 0x27] @ s @ [CHR 0x27]"

definition decode_policy :: "string \<Rightarrow> json \<Rightarrow> de_error + action_policy" where
  "decode_policy path j =
     and_then (struct_source ''struct ActionPolicy with 4 elements'' [''default'', ''allow'', ''deny'', ''confirm''] j)
       (\<lambda>src.
     and_then (visit_entries
        (\<lambda>k v. if k = ''default'' then error_of (dec_option dec_string v)
               else if k = ''allow'' \<or> k = ''deny'' \<or> k = ''confirm'' then error_of (dec_option (dec_vec dec_string) v)
               else None) src)
       (\<lambda>_.
     and_then (default_field src ''default'' None (dec_option dec_string)) (\<lambda>d.
     and_then (default_field src ''allow'' None (dec_option (dec_vec dec_string))) (\<lambda>al.
     and_then (default_field src ''deny'' None (dec_option (dec_vec dec_string))) (\<lambda>dn.
     and_then (default_field src ''confirm'' None (dec_option (dec_vec dec_string))) (\<lambda>cf.
       Inr \<lparr>ap_path = path, ap_default = d, ap_allow = al, ap_deny = dn, ap_confirm = cf\<rparr>))))))"

definition policy_text :: "serde_json \<Rightarrow> string \<Rightarrow> string + string \<Rightarrow> string + action_policy" where
  "policy_text sj path r =
     and_then (map_err (\<lambda>e. ''Failed to read policy file: '' @ e) r)
       (\<lambda>t. map_err (\<lambda>e. ''Invalid policy JSON: '' @ e)
          (and_then (de_str sj t) (\<lambda>j. map_err (de_msg sj) (decode_policy path j))))"

definition policy_load :: "serde_json \<Rightarrow> (string \<Rightarrow> string + string) \<Rightarrow> string \<Rightarrow> string + action_policy" where
  "policy_load sj rd path = policy_text sj path (rd path)"

definition policy_load_if_exists ::
    "serde_json \<Rightarrow> (string \<Rightarrow> string + string) \<Rightarrow> (string \<rightharpoonup> string) \<Rightarrow> action_policy option" where
  "policy_load_if_exists sj rd var =
     (case (case var ''AGENT_BROWSER_ACTION_POLICY'' of
              Some p \<Rightarrow> Some p | None \<Rightarrow> var ''AGENT_BROWSER_POLICY'') of
        None \<Rightarrow> None
      | Some p \<Rightarrow> (case policy_load sj rd p of Inl e \<Rightarrow> None | Inr pol \<Rightarrow> Some pol))"

text \<open>\<open>reload\<close> keeps the policy when the file cannot be read or parsed; \<open>execute_command\<close> drops
  the error.\<close>

definition policy_reload :: "serde_json \<Rightarrow> (string \<Rightarrow> string + string) \<Rightarrow> action_policy \<Rightarrow> (string + unit) \<times> action_policy" where
  "policy_reload sj rd pol =
     (case policy_text sj (ap_path pol) (rd (ap_path pol)) of
        Inl e \<Rightarrow> (Inl e, pol)
      | Inr pol' \<Rightarrow> (Inr (), pol'))"

definition listed :: "string list option \<Rightarrow> string \<Rightarrow> bool" where
  "listed l a = (case l of None \<Rightarrow> False | Some xs \<Rightarrow> a \<in> set xs)"

definition policy_check :: "action_policy \<Rightarrow> string \<Rightarrow> policy_result" where
  "policy_check pol a =
     (if listed (ap_deny pol) a then Deny (''Action '' @ quoted a @ '' is denied by policy'')
      else if listed (ap_confirm pol) a then RequiresConfirmation
      else case ap_allow pol of
             Some xs \<Rightarrow>
               (if xs \<noteq> [] \<and> a \<notin> set xs
                   \<and> (case ap_default pol of None \<Rightarrow> True | Some d \<Rightarrow> eq_ignore_ascii_case d ''deny'')
                then Deny (''Action '' @ quoted a @ '' is not in the allow list'') else Allow)
           | None \<Rightarrow>
               (case ap_default pol of
                  None \<Rightarrow> Allow
                | Some d \<Rightarrow>
                    (if eq_ignore_ascii_case d ''deny''
                     then Deny (''Action '' @ quoted a @ '' denied: default policy is deny'') else Allow)))"

text \<open>\<open>ConfirmActions::from_env\<close>, on the value of \<open>AGENT_BROWSER_CONFIRM_ACTIONS\<close>.\<close>

definition confirm_from_env :: "unicode \<Rightarrow> string option \<Rightarrow> string list option" where
  "confirm_from_env u v =
     (case v of
        None \<Rightarrow> None
      | Some s \<Rightarrow>
          (if s = [] then None
           else let cs = filter (\<lambda>x. x \<noteq> []) (map (\<lambda>x. to_lowercase u (trim x)) (split_on (CHR '','') s))
                in if cs = [] then None else Some cs))"

definition requires_confirmation :: "string list option \<Rightarrow> string \<Rightarrow> bool" where
  "requires_confirmation cs a = (case cs of None \<Rightarrow> False | Some xs \<Rightarrow> a \<in> set xs)"

subsection \<open>Commands\<close>

definition dispatched_actions :: "string list" where
  "dispatched_actions =
     [''launch'', ''navigate'', ''url'', ''cdp_url'', ''inspect'', ''title'', ''content'',
      ''evaluate'', ''close'', ''snapshot'', ''screenshot'', ''click'', ''dblclick'', ''fill'',
      ''type'', ''press'', ''hover'', ''scroll'', ''select'', ''check'', ''uncheck'', ''wait'',
      ''gettext'', ''getattribute'', ''isvisible'', ''isenabled'', ''ischecked'', ''back'',
      ''forward'', ''reload'', ''cookies_get'', ''cookies_set'', ''cookies_clear'', ''storage_get'',
      ''storage_set'', ''storage_clear'', ''setcontent'', ''headers'', ''offline'', ''console'',
      ''errors'', ''state_save'', ''state_load'', ''state_list'', ''state_show'', ''state_clear'',
      ''state_clean'', ''state_rename'', ''trace_start'', ''trace_stop'', ''profiler_start'',
      ''profiler_stop'', ''recording_start'', ''recording_stop'', ''recording_restart'', ''pdf'',
      ''tab_list'', ''tab_new'', ''tab_switch'', ''tab_close'', ''viewport'', ''useragent'',
      ''user_agent'', ''set_media'', ''download'', ''diff_snapshot'', ''diff_url'',
      ''credentials_set'', ''credentials_get'', ''credentials_delete'', ''credentials_list'',
      ''mouse'', ''keyboard'', ''focus'', ''clear'', ''selectall'', ''scrollintoview'', ''dispatch'',
      ''highlight'', ''tap'', ''boundingbox'', ''innertext'', ''innerhtml'', ''inputvalue'',
      ''setvalue'', ''count'', ''styles'', ''bringtofront'', ''timezone'', ''locale'', ''geolocation'',
      ''permissions'', ''dialog'', ''upload'', ''addscript'', ''addinitscript'', ''removeinitscript'',
      ''addstyle'', ''react_tree'', ''react_inspect'', ''react_renders_start'', ''react_renders_stop'',
      ''react_suspense'', ''vitals'', ''pushstate'', ''clipboard'', ''wheel'', ''device'',
      ''screencast_start'', ''screencast_stop'', ''stream_enable'', ''stream_disable'',
      ''stream_status'', ''waitforurl'', ''waitforloadstate'', ''waitforfunction'', ''frame'',
      ''mainframe'', ''getbyrole'', ''getbytext'', ''getbylabel'', ''getbyplaceholder'',
      ''getbyalttext'', ''getbytitle'', ''getbytestid'', ''nth'', ''find'', ''evalhandle'', ''drag'',
      ''expose'', ''pause'', ''multiselect'', ''responsebody'', ''waitfordownload'', ''window_new'',
      ''diff_screenshot'', ''video_start'', ''video_stop'', ''har_start'', ''har_stop'', ''route'',
      ''unroute'', ''requests'', ''request_detail'', ''credentials'', ''emulatemedia'', ''auth_save'',
      ''auth_login'', ''auth_list'', ''auth_delete'', ''auth_show'', ''confirm'', ''deny'', ''swipe'',
      ''device_list'', ''input_mouse'', ''input_keyboard'', ''input_touch'', ''keydown'', ''keyup'',
      ''inserttext'', ''mousemove'', ''mousedown'', ''mouseup'']"

definition skip_launch :: "string \<Rightarrow> bool" where
  "skip_launch a \<longleftrightarrow>
     a \<in> set ['''', ''launch'', ''close'', ''har_stop'', ''credentials_set'', ''credentials_get'', ''credentials_delete'',
       ''credentials_list'', ''auth_save'', ''auth_show'', ''auth_delete'', ''auth_list'', ''state_list'', ''state_show'',
       ''state_clear'', ''state_clean'', ''state_rename'', ''device_list'', ''stream_enable'', ''stream_disable'',
       ''stream_status'']"

definition webdriver_unsupported :: "string \<Rightarrow> bool" where
  "webdriver_unsupported a \<longleftrightarrow>
     a \<in> set [''screencast_start'', ''screencast_stop'', ''trace_start'', ''trace_stop'', ''profiler_start'',
       ''profiler_stop'', ''route'', ''unroute'', ''expose'', ''addscript'', ''addinitscript'', ''network'', ''har_start'',
       ''har_stop'']"

definition str_field :: "json \<Rightarrow> string \<Rightarrow> string option" where
  "str_field j k = Option.bind (json_get j k) as_str"

definition action_of :: "json \<Rightarrow> string" where
  "action_of cmd = unwrap_or '''' (str_field cmd ''action'')"

definition id_of :: "json \<Rightarrow> string" where
  "id_of cmd = unwrap_or '''' (str_field cmd ''id'')"

definition success_response :: "string \<Rightarrow> json \<Rightarrow> json" where
  "success_response i d = json_obj [(''id'', JStr i), (''success'', JBool True), (''data'', d)]"

definition error_response :: "string \<Rightarrow> string \<Rightarrow> json" where
  "error_response i e = json_obj [(''id'', JStr i), (''success'', JBool False), (''error'', JStr e)]"

definition to_ai_friendly_error :: "unicode \<Rightarrow> string \<Rightarrow> string" where
  "to_ai_friendly_error u e =
     (let l = to_lowercase u e
      in if contains_str ''strict mode violation'' l
         then ''Element matched multiple results. Use a more specific selector.''
         else if contains_str ''element is not visible'' l
         then ''Element exists but is not visible. Wait for it to become visible or scroll it into view.''
         else if contains_str ''intercept'' l
         then ''Another element is covering the target element. Try scrolling or closing overlays.''
         else if contains_str ''timeout'' l
         then ''Operation timed out. The page may still be loading or the element may not exist.''
         else if contains_str ''element not found'' l \<or> contains_str ''no element'' l
         then ''Element not found. Verify the selector is correct and the element exists in the DOM.''
         else e)"

record 'b gate_env =
  ge_unicode :: unicode
  ge_serde :: serde_json
  ge_read :: "string \<Rightarrow> 'b \<Rightarrow> string + string"
  ge_announce :: "string \<Rightarrow> string \<Rightarrow> json \<Rightarrow> 'b \<Rightarrow> 'b"
  ge_drain :: "'b \<Rightarrow> 'b"
  ge_launch :: "'b \<Rightarrow> (string + unit) \<times> 'b"
  ge_webdriver :: "'b \<Rightarrow> bool"
  ge_handle :: "string \<Rightarrow> json \<Rightarrow> 'b \<Rightarrow> (string + json) \<times> 'b"
  ge_dialog :: "'b \<Rightarrow> (string \<times> string) option"
  ge_report :: "string \<Rightarrow> string \<Rightarrow> bool \<Rightarrow> json \<Rightarrow> 'b \<Rightarrow> 'b"

record 'b daemon_state =
  ds_policy :: "action_policy option"
  ds_confirm :: "string list option"
  ds_pending :: "(string \<times> json) option"
  ds_world :: 'b

definition on_world :: "('b \<Rightarrow> 'b) \<Rightarrow> 'b daemon_state \<Rightarrow> 'b daemon_state" where
  "on_world f st = st\<lparr>ds_world := f (ds_world st)\<rparr>"

datatype gate = Pass | Refuse string | Ask "(string \<times> json) list"

text \<open>The two checks before anything is done: the policy, reloaded on every command, and the
  confirmation list.\<close>

definition reload_policy :: "'b gate_env \<Rightarrow> 'b daemon_state \<Rightarrow> 'b daemon_state" where
  "reload_policy env st =
     st\<lparr>ds_policy := map_option (\<lambda>p. snd (policy_reload (ge_serde env) (\<lambda>f. ge_read env f (ds_world st)) p)) (ds_policy st)\<rparr>"

definition check_gate :: "string \<Rightarrow> string \<Rightarrow> 'b daemon_state \<Rightarrow> gate" where
  "check_gate a i st =
     (case (case ds_policy st of None \<Rightarrow> Allow | Some p \<Rightarrow> policy_check p a) of
        Deny reason \<Rightarrow> Refuse (''Action '' @ quoted a @ '' denied by policy: '' @ reason)
      | RequiresConfirmation \<Rightarrow> Ask [(''confirmation_required'', JBool True), (''action'', JStr a)]
      | Allow \<Rightarrow>
          (if a \<noteq> ''confirm'' \<and> a \<noteq> ''deny'' \<and> requires_confirmation (ds_confirm st) a
           then Ask [(''confirmation_required'', JBool True), (''confirmation_id'', JStr i), (''action'', JStr a)]
           else Pass))"

definition launch_if_needed :: "'b gate_env \<Rightarrow> string \<Rightarrow> 'b daemon_state \<Rightarrow> (string + unit) \<times> 'b daemon_state" where
  "launch_if_needed env a st =
     (if skip_launch a then (Inr (), st)
      else case ge_launch env (ds_world st) of (r, w) \<Rightarrow> (r, st\<lparr>ds_world := w\<rparr>))"

definition handle_deny :: "'b daemon_state \<Rightarrow> (string + json) \<times> 'b daemon_state" where
  "handle_deny st =
     (case ds_pending st of
        None \<Rightarrow> (Inl ''No pending confirmation'', st)
      | Some (a, c) \<Rightarrow> (Inr (json_obj [(''denied'', JBool True), (''action'', JStr a)]), st\<lparr>ds_pending := None\<rparr>))"

text \<open>Any other action: its handler when the \<open>match\<close> names it.\<close>

definition handle_action ::
    "'b gate_env \<Rightarrow> string \<Rightarrow> json \<Rightarrow> 'b daemon_state \<Rightarrow> (string + json) \<times> 'b daemon_state" where
  "handle_action env a cmd st =
     (if a \<in> set dispatched_actions
      then (case ge_handle env a cmd (ds_world st) of (r, w) \<Rightarrow> (r, st\<lparr>ds_world := w\<rparr>))
      else (Inl (''Not yet implemented: '' @ a), st))"

text \<open>The response, its warning about an open dialog, and the report to the stream server, which
  looks for a field \<open>status\<close>.\<close>

definition dialog_warning :: "string \<times> string \<Rightarrow> string" where
  "dialog_warning d =
     ''A JavaScript '' @ fst d @ '' dialog is blocking the page: '' @ [CHR 0x22] @ snd d @ [CHR 0x22] @ '' ''
     @ [CHR 0xE2, CHR 0x80, CHR 0x94] @ '' use `dialog accept` or `dialog dismiss` to resolve it''"

definition respond ::
    "'b gate_env \<Rightarrow> string \<Rightarrow> string \<Rightarrow> (string + json) \<times> 'b daemon_state \<Rightarrow> json \<times> 'b daemon_state" where
  "respond env a i r =
     (case r of (res, st) \<Rightarrow>
        (let resp = (case res of
               Inr d \<Rightarrow> success_response i d
             | Inl e \<Rightarrow> error_response i (to_ai_friendly_error (ge_unicode env) e));
             resp = (case ge_dialog env (ds_world st) of
               Some d \<Rightarrow> (if a \<noteq> ''dialog'' then json_set resp ''warning'' (JStr (dialog_warning d)) else resp)
             | None \<Rightarrow> resp)
         in (resp, on_world (ge_report env i a (str_field resp ''status'' = Some ''success'')
               (unwrap_or JNull (json_get resp ''data''))) st)))"

definition confirmed :: "string \<Rightarrow> json \<Rightarrow> json" where
  "confirmed a res = json_obj [(''confirmed'', JBool True), (''action'', JStr a), (''result'', res)]"

function execute_command :: "'b gate_env \<Rightarrow> json \<Rightarrow> 'b daemon_state \<Rightarrow> json \<times> 'b daemon_state" where
  "execute_command env cmd st0 =
     (let a = action_of cmd; i = id_of cmd;
          st = reload_policy env (on_world (ge_drain env) (on_world (ge_announce env a i cmd) st0))
      in case check_gate a i st of
           Refuse e \<Rightarrow> (error_response i e, st)
         | Ask d \<Rightarrow> (success_response i (json_obj d), st\<lparr>ds_pending := Some (a, cmd)\<rparr>)
         | Pass \<Rightarrow>
             (case launch_if_needed env a st of
                (Inl e, st1) \<Rightarrow> (error_response i (''Auto-launch failed: '' @ e), st1)
              | (Inr u, st1) \<Rightarrow>
                  (if ge_webdriver env (ds_world st1) \<and> webdriver_unsupported a
                   then (error_response i (''Action '' @ quoted a @ '' is not supported on the WebDriver backend''), st1)
                   else if a = ''confirm''
                   then (case ds_pending st1 of
                           None \<Rightarrow> respond env a i (Inl ''No pending confirmation'', st1)
                         | Some p \<Rightarrow>
                             (case execute_command env (snd p)
                                     (st1\<lparr>ds_pending := None, ds_policy := None, ds_confirm := None\<rparr>) of
                                (res, st2) \<Rightarrow>
                                  respond env a i (Inr (confirmed (fst p) res),
                                    st2\<lparr>ds_policy := ds_policy st1, ds_confirm := ds_confirm st1\<rparr>)))
                   else if a = ''deny'' then respond env a i (handle_deny st1)
                   else respond env a i (handle_action env a cmd st1))))"
  by pat_completeness auto

lemma on_world_sel [simp]:
  "ds_policy (on_world f st) = ds_policy st" "ds_confirm (on_world f st) = ds_confirm st"
  "ds_pending (on_world f st) = ds_pending st" "ds_world (on_world f st) = f (ds_world st)"
  by (simp_all add: on_world_def)

lemma reload_policy_sel [simp]:
  "ds_confirm (reload_policy env st) = ds_confirm st" "ds_pending (reload_policy env st) = ds_pending st"
  "ds_world (reload_policy env st) = ds_world st"
  by (simp_all add: reload_policy_def)

lemma launch_keeps:
  "launch_if_needed env a st = (r, st') \<Longrightarrow>
   ds_policy st' = ds_policy st \<and> ds_confirm st' = ds_confirm st \<and> ds_pending st' = ds_pending st"
  by (auto simp: launch_if_needed_def split: if_splits prod.splits)

text \<open>A confirmed command finds nothing pending any more, so the recursion is one deep.\<close>

termination execute_command
proof (relation "measure (\<lambda>(env, cmd, st). case ds_pending st of None \<Rightarrow> 0 | Some p \<Rightarrow> 1)", goal_cases)
  case (2 env cmd st0 a i st r st1 u p)
  then have "ds_pending st1 = ds_pending st0" by (auto dest!: launch_keeps [OF sym])
  with 2 show ?case by simp
qed simp

declare execute_command.simps [simp del]

subsection \<open>Connections (native/daemon.rs)\<close>

definition looks_like_http :: "string \<Rightarrow> bool" where
  "looks_like_http line \<longleftrightarrow>
     list_ex (\<lambda>p. starts_with p line)
       [''GET '', ''POST '', ''PUT '', ''DELETE '', ''PATCH '', ''HEAD '', ''OPTIONS '', ''CONNECT '', ''TRACE '']"

definition unwrap_text :: "string + string \<Rightarrow> string" where
  "unwrap_text r = (case r of Inl e \<Rightarrow> [] | Inr t \<Rightarrow> t)"

definition invalid_json :: "string \<Rightarrow> json" where
  "invalid_json e = json_obj [(''success'', JBool False), (''error'', JStr (''Invalid JSON: '' @ e))]"

text \<open>The lines a client sends, one element per \<open>read_line\<close> (\<open>Err\<close> is \<open>None\<close>), and whether each
  write succeeds; the result is the text written, whether the daemon was told to exit, and the
  state.\<close>

fun handle_connection ::
    "'b gate_env \<Rightarrow> (string option \<times> bool) list \<Rightarrow> 'b daemon_state \<Rightarrow> string list \<times> bool \<times> 'b daemon_state" where
  "handle_connection env [] st = ([], False, st)"
| "handle_connection env ((None, w) # ls) st = ([], False, st)"
| "handle_connection env ((Some line, w) # ls) st =
     (let t = trim line
      in if t = [] then handle_connection env ls st
         else if looks_like_http t then ([], False, st)
         else case de_str (ge_serde env) t of
                Inl e \<Rightarrow>
                  (case handle_connection env ls st of (out, stop, st') \<Rightarrow>
                     ((unwrap_text (ser_str (ge_serde env) (invalid_json e)) @ [CHR 0x0A]) # out, stop, st'))
              | Inr cmd \<Rightarrow>
                  (case execute_command env cmd st of (resp, st1) \<Rightarrow>
                     (let txt_line = unwrap_text (ser_str (ge_serde env) resp) @ [CHR 0x0A]
                      in if \<not> w then ([txt_line], False, st1)
                         else if str_field cmd ''action'' = Some ''close'' then ([txt_line], True, st1)
                         else case handle_connection env ls st1 of (out, stop, st') \<Rightarrow>
                                (txt_line # out, stop, st'))))"


subsection \<open>What the gate lets through\<close>

text \<open>The same environment with a log of the handlers called.\<close>

definition logged :: "'b gate_env \<Rightarrow> ('b \<times> (string \<times> json) list) gate_env" where
  "logged env =
     \<lparr>ge_unicode = ge_unicode env, ge_serde = ge_serde env,
      ge_read = (\<lambda>f w. ge_read env f (fst w)),
      ge_announce = (\<lambda>a i c w. (ge_announce env a i c (fst w), snd w)),
      ge_drain = (\<lambda>w. (ge_drain env (fst w), snd w)),
      ge_launch = (\<lambda>w. case ge_launch env (fst w) of (r, b) \<Rightarrow> (r, (b, snd w))),
      ge_webdriver = (\<lambda>w. ge_webdriver env (fst w)),
      ge_handle = (\<lambda>a c w. case ge_handle env a c (fst w) of (r, b) \<Rightarrow> (r, (b, snd w @ [(a, c)]))),
      ge_dialog = (\<lambda>w. ge_dialog env (fst w)),
      ge_report = (\<lambda>i a s d w. (ge_report env i a s d (fst w), snd w))\<rparr>"

definition handled :: "('b \<times> (string \<times> json) list) daemon_state \<Rightarrow> (string \<times> json) list" where
  "handled st = snd (ds_world st)"

fun run_commands :: "'b gate_env \<Rightarrow> json list \<Rightarrow> 'b daemon_state \<Rightarrow> 'b daemon_state" where
  "run_commands env [] st = st"
| "run_commands env (c # cs) st = run_commands env cs (snd (execute_command env c st))"

lemma logged_sel [simp]:
  "ge_serde (logged env) = ge_serde env" "ge_read (logged env) f w = ge_read env f (fst w)"
  "snd (ge_announce (logged env) a i c w) = snd w" "snd (ge_drain (logged env) w) = snd w"
  "snd (ge_report (logged env) i a s d w) = snd w"
  by (simp_all add: logged_def)

lemma handled_update [simp]:
  "handled (st\<lparr>ds_pending := p\<rparr>) = handled st" "handled (st\<lparr>ds_policy := q\<rparr>) = handled st"
  "handled (st\<lparr>ds_confirm := c\<rparr>) = handled st"
  by (simp_all add: handled_def)

lemma launch_logged: "launch_if_needed (logged env) a st = (r, st') \<Longrightarrow> handled st' = handled st"
  by (auto simp: launch_if_needed_def logged_def handled_def split: if_splits prod.splits)

lemma respond_sel [simp]:
  "ds_pending (snd (respond env a i r)) = ds_pending (snd r)"
  "ds_policy (snd (respond env a i r)) = ds_policy (snd r)"
  "ds_confirm (snd (respond env a i r)) = ds_confirm (snd r)"
  "handled (snd (respond (logged env') a i r')) = handled (snd r')"
  by (simp_all add: respond_def Let_def handled_def split: prod.splits)

lemma handle_deny_sel [simp]:
  "ds_policy (snd (handle_deny st)) = ds_policy st" "ds_confirm (snd (handle_deny st)) = ds_confirm st"
  "ds_pending (snd (handle_deny st)) = None" "handled (snd (handle_deny st')) = handled st'"
  by (auto simp: handle_deny_def split: option.splits)

lemma handle_action_sel [simp]:
  "ds_pending (snd (handle_action env a c st)) = ds_pending st"
  "ds_policy (snd (handle_action env a c st)) = ds_policy st"
  "ds_confirm (snd (handle_action env a c st)) = ds_confirm st"
  by (simp_all add: handle_action_def split: prod.splits)

lemma handle_action_logged:
  "handled (snd (handle_action (logged env) a c st)) \<in> {handled st, handled st @ [(a, c)]}"
  by (auto simp: handle_action_def logged_def handled_def split: prod.splits)

text \<open>The state in which the gate is checked.\<close>

definition entered :: "'b gate_env \<Rightarrow> json \<Rightarrow> 'b daemon_state \<Rightarrow> 'b daemon_state" where
  "entered env cmd st =
     reload_policy env (on_world (ge_drain env) (on_world (ge_announce env (action_of cmd) (id_of cmd) cmd) st))"

lemma entered_sel [simp]:
  "ds_confirm (entered env cmd st) = ds_confirm st" "ds_pending (entered env cmd st) = ds_pending st"
  "handled (entered (logged env) cmd st') = handled st'"
  by (simp_all add: entered_def handled_def)

lemma entered_open: "ds_policy st = None \<Longrightarrow> ds_policy (entered env cmd st) = None"
  by (simp add: entered_def reload_policy_def)

lemma execute_command_eq:
  "execute_command env cmd st =
     (case check_gate (action_of cmd) (id_of cmd) (entered env cmd st) of
        Refuse e \<Rightarrow> (error_response (id_of cmd) e, entered env cmd st)
      | Ask d \<Rightarrow> (success_response (id_of cmd) (json_obj d), (entered env cmd st)\<lparr>ds_pending := Some (action_of cmd, cmd)\<rparr>)
      | Pass \<Rightarrow>
          (case launch_if_needed env (action_of cmd) (entered env cmd st) of
             (Inl e, st1) \<Rightarrow> (error_response (id_of cmd) (''Auto-launch failed: '' @ e), st1)
           | (Inr u, st1) \<Rightarrow>
               (if ge_webdriver env (ds_world st1) \<and> webdriver_unsupported (action_of cmd)
                then (error_response (id_of cmd)
                       (''Action '' @ quoted (action_of cmd) @ '' is not supported on the WebDriver backend''), st1)
                else if action_of cmd = ''confirm''
                then (case ds_pending st1 of
                        None \<Rightarrow> respond env (action_of cmd) (id_of cmd) (Inl ''No pending confirmation'', st1)
                      | Some p \<Rightarrow>
                          (case execute_command env (snd p)
                                  (st1\<lparr>ds_pending := None, ds_policy := None, ds_confirm := None\<rparr>) of
                             (res, st2) \<Rightarrow>
                               respond env (action_of cmd) (id_of cmd) (Inr (confirmed (fst p) res),
                                 st2\<lparr>ds_policy := ds_policy st1, ds_confirm := ds_confirm st1\<rparr>)))
                else if action_of cmd = ''deny'' then respond env (action_of cmd) (id_of cmd) (handle_deny st1)
                else respond env (action_of cmd) (id_of cmd) (handle_action env (action_of cmd) cmd st1))))"
  by (subst execute_command.simps) (simp only: Let_def entered_def)

text \<open>A command that does not pass the gate changes nothing but the pending confirmation.\<close>

lemma execute_refused:
  "check_gate (action_of cmd) (id_of cmd) (entered env cmd st) = Refuse e \<Longrightarrow>
   execute_command env cmd st = (error_response (id_of cmd) e, entered env cmd st)"
  by (simp add: execute_command_eq [of env cmd])

lemma execute_asked:
  "check_gate (action_of cmd) (id_of cmd) (entered env cmd st) = Ask d \<Longrightarrow>
   execute_command env cmd st =
     (success_response (id_of cmd) (json_obj d), (entered env cmd st)\<lparr>ds_pending := Some (action_of cmd, cmd)\<rparr>)"
  by (simp add: execute_command_eq [of env cmd])

text \<open>What a passed command does after the browser is there.\<close>

lemma execute_passed:
  assumes "check_gate (action_of cmd) (id_of cmd) (entered env cmd st) = Pass"
    and "launch_if_needed env (action_of cmd) (entered env cmd st) = (r, st1)"
  shows "snd (execute_command env cmd st) = st1
     \<or> (action_of cmd = ''confirm'' \<and> snd (execute_command env cmd st) =
          (case ds_pending st1 of
             None \<Rightarrow> snd (respond env ''confirm'' (id_of cmd) (Inl ''No pending confirmation'', st1))
           | Some p \<Rightarrow>
               (case execute_command env (snd p) (st1\<lparr>ds_pending := None, ds_policy := None, ds_confirm := None\<rparr>) of
                  (res, st2) \<Rightarrow> snd (respond env ''confirm'' (id_of cmd) (Inr (confirmed (fst p) res),
                                 st2\<lparr>ds_policy := ds_policy st1, ds_confirm := ds_confirm st1\<rparr>)))))
     \<or> (action_of cmd = ''deny'' \<and> snd (execute_command env cmd st) = snd (respond env ''deny'' (id_of cmd) (handle_deny st1)))
     \<or> (action_of cmd \<noteq> ''confirm'' \<and> action_of cmd \<noteq> ''deny''
        \<and> snd (execute_command env cmd st) = snd (respond env (action_of cmd) (id_of cmd) (handle_action env (action_of cmd) cmd st1)))"
  using assms
  by (simp add: execute_command_eq [of env cmd] split: sum.split option.split prod.split)

text \<open>With nothing pending a command runs its own handler at most, and only when it passes.\<close>

lemma execute_nothing_pending:
  fixes env :: "'b gate_env" and cmd :: json and st :: "('b \<times> (string \<times> json) list) daemon_state"
  defines "st' \<equiv> snd (execute_command (logged env) cmd st)" and "stn \<equiv> entered (logged env) cmd st"
  assumes "ds_pending st = None"
  shows "(handled st' = handled st
       \<or> handled st' = handled st @ [(action_of cmd, cmd)] \<and> check_gate (action_of cmd) (id_of cmd) stn = Pass)
    \<and> ds_policy st' = ds_policy stn \<and> ds_confirm st' = ds_confirm st
    \<and> (ds_pending st' = None
       \<or> ds_pending st' = Some (action_of cmd, cmd)
         \<and> (\<exists>d. check_gate (action_of cmd) (id_of cmd) stn = Ask d))"
proof -
  obtain r st1 where l: "launch_if_needed (logged env) (action_of cmd) stn = (r, st1)" by (rule prod.exhaust)
  note k = launch_keeps [OF l] launch_logged [OF l]
  show ?thesis
  proof (cases "check_gate (action_of cmd) (id_of cmd) stn")
    case Pass
    from execute_passed [OF this [unfolded stn_def] l [unfolded stn_def]] k assms(3) Pass
      handle_action_logged [of env "action_of cmd" cmd st1]
    show ?thesis by (auto simp: st'_def stn_def)
  next
    case (Refuse e)
    from execute_refused [OF this [unfolded stn_def]] assms(3) Refuse show ?thesis
      by (simp add: st'_def stn_def)
  next
    case (Ask d)
    from execute_asked [OF this [unfolded stn_def]] assms(3) Ask show ?thesis
      by (simp add: st'_def stn_def)
  qed
qed

text \<open>The policy file is left alone: reloading it, or failing to, gives the policy that is there.\<close>

definition policy_stays :: "'b gate_env \<Rightarrow> action_policy \<Rightarrow> bool" where
  "policy_stays env p \<longleftrightarrow> (\<forall>w. snd (policy_reload (ge_serde env) (\<lambda>f. ge_read env f w) p) = p)"

definition awaiting_ok :: "action_policy \<Rightarrow> 'b daemon_state \<Rightarrow> bool" where
  "awaiting_ok p st \<longleftrightarrow>
     (case ds_pending st of
        None \<Rightarrow> True
      | Some (b, c) \<Rightarrow> b = action_of c \<and> (\<forall>r. policy_check p b \<noteq> Deny r))"

lemma policy_stays_entered:
  "policy_stays env p \<Longrightarrow> ds_policy st = Some p \<Longrightarrow> ds_policy (entered (logged env) cmd st) = Some p"
  by (simp add: entered_def reload_policy_def policy_stays_def)

lemma check_gate_Pass: "check_gate a i st = Pass \<Longrightarrow> ds_policy st = Some p \<Longrightarrow> policy_check p a = Allow"
  by (simp add: check_gate_def split: policy_result.splits if_splits)

lemma check_gate_Ask: "check_gate a i st = Ask d \<Longrightarrow> ds_policy st = Some p \<Longrightarrow> policy_check p a \<noteq> Deny r"
  by (auto simp: check_gate_def split: policy_result.splits if_splits)

lemma execute_confirmed_once:
  fixes env :: "'b gate_env"
  assumes "ds_pending st = Some (b, c)" and "b = action_of c"
  defines "st' \<equiv> snd (execute_command (logged env) c (st\<lparr>ds_pending := None, ds_policy := None, ds_confirm := None\<rparr>))"
  shows "ds_pending st' = None \<and> handled st' \<in> {handled st, handled st @ [(b, c)]}"
  using execute_nothing_pending [of "st\<lparr>ds_pending := None, ds_policy := None, ds_confirm := None\<rparr>" env c] assms(2)
  by (auto simp: st'_def check_gate_def requires_confirmation_def entered_open)

lemma execute_step:
  fixes env :: "'b gate_env" and cmd :: json and st :: "('b \<times> (string \<times> json) list) daemon_state"
  assumes pol: "ds_policy st = Some p" and stays: "policy_stays env p" and ok: "awaiting_ok p st"
  defines "st' \<equiv> snd (execute_command (logged env) cmd st)"
  shows "ds_policy st' = Some p \<and> awaiting_ok p st'
    \<and> (handled st' = handled st
       \<or> handled st' = handled st @ [(action_of cmd, cmd)] \<and> policy_check p (action_of cmd) = Allow
       \<or> (\<exists>b c. handled st' = handled st @ [(b, c)] \<and> action_of cmd = ''confirm'' \<and> ds_pending st = Some (b, c)))"
proof -
  let ?stn = "entered (logged env) cmd st"
  have pn: "ds_policy ?stn = Some p" using stays pol by (rule policy_stays_entered)
  obtain r st1 where l: "launch_if_needed (logged env) (action_of cmd) ?stn = (r, st1)" by (rule prod.exhaust)
  note k = launch_keeps [OF l] launch_logged [OF l]
  show ?thesis
  proof (cases "check_gate (action_of cmd) (id_of cmd) ?stn")
    case Pass
    have al: "policy_check p (action_of cmd) = Allow" using check_gate_Pass [OF Pass pn] .
    show ?thesis
    proof (cases "action_of cmd = ''confirm'' \<and> ds_pending st1 \<noteq> None")
      case True
      then obtain b c where bc: "ds_pending st1 = Some (b, c)" by auto
      then have "b = action_of c" using ok k by (simp add: awaiting_ok_def)
      from execute_confirmed_once [OF bc this, of env] execute_passed [OF Pass l] True bc k ok pn
      show ?thesis by (auto simp: st'_def awaiting_ok_def split: prod.splits)
    next
      case False
      from execute_passed [OF Pass l] False k ok pn al handle_action_logged [of env "action_of cmd" cmd st1]
      show ?thesis by (auto simp: st'_def awaiting_ok_def split: option.splits)
    qed
  next
    case (Refuse e)
    from execute_refused [OF Refuse] pn ok show ?thesis by (simp add: st'_def awaiting_ok_def)
  next
    case (Ask d)
    from execute_asked [OF Ask] pn check_gate_Ask [OF Ask pn] show ?thesis
      by (simp add: st'_def awaiting_ok_def)
  qed
qed

definition runs_of :: "string \<Rightarrow> (string \<times> json) list \<Rightarrow> nat" where
  "runs_of a l = length (filter (\<lambda>e. fst e = a) l)"

definition confirms :: "json list \<Rightarrow> nat" where
  "confirms cs = length (filter (\<lambda>c. action_of c = ''confirm'') cs)"

lemma run_held_back:
  assumes "ds_policy st = Some p" and "policy_stays env p" and "awaiting_ok p st" and "policy_check p a \<noteq> Allow"
  shows "runs_of a (handled (run_commands (logged env) cs st))
     \<le> runs_of a (handled st) + (if policy_check p a = RequiresConfirmation then confirms cs else 0)"
  using assms(1,3)
proof (induction cs arbitrary: st)
  case (Cons c cs)
  let ?st' = "snd (execute_command (logged env) c st)"
  from execute_step [OF Cons.prems(1) assms(2) Cons.prems(2), of c] have
    s: "ds_policy ?st' = Some p" "awaiting_ok p ?st'" and
    new: "handled ?st' = handled st
       \<or> handled ?st' = handled st @ [(action_of c, c)] \<and> policy_check p (action_of c) = Allow
       \<or> (\<exists>b d. handled ?st' = handled st @ [(b, d)] \<and> action_of c = ''confirm'' \<and> ds_pending st = Some (b, d))"
    by blast+
  have "runs_of a (handled ?st')
     \<le> runs_of a (handled st)
       + (if policy_check p a = RequiresConfirmation \<and> action_of c = ''confirm'' then 1 else 0)"
    using new assms(4) Cons.prems(2) by (cases "policy_check p a") (auto simp: runs_of_def awaiting_ok_def)
  with Cons.IH [OF s] show ?case by (auto simp: confirms_def)
qed simp


subsection \<open>Properties\<close>

text \<open>C23: Whatever commands a client sends, an action that the policy denies never reaches its
  handler, and an action for which the policy asks confirmation reaches its handler at most as
  often as the client sends \<open>confirm\<close>, while the policy file stays as it is. This includes the
  commands that \<open>confirm\<close> runs with the policy set aside.\<close>

theorem policy_holds_actions_back:
  assumes "ds_policy st = Some p" and "policy_stays env p" and "ds_pending st = None"
    and "handled st = []" and "policy_check p a \<noteq> Allow"
  shows "runs_of a (handled (run_commands (logged env) cmds st))
     \<le> (if policy_check p a = RequiresConfirmation then confirms cmds else 0)"
  using run_held_back [OF assms(1,2) _ assms(5), of cmds] assms(3,4)
  by (simp add: awaiting_ok_def runs_of_def)

text \<open>The daemon exits after a command named \<open>close\<close> even when the policy has refused it.\<close>

theorem denied_close_still_exits:
  assumes "trim line \<noteq> []" and "\<not> looks_like_http (trim line)" and "de_str (ge_serde env) (trim line) = Inr cmd"
    and "str_field cmd ''action'' = Some ''close''"
    and "check_gate ''close'' (id_of cmd) (entered env cmd st) = Refuse e"
  shows "handle_connection env [(Some line, True)] st =
     ([unwrap_text (ser_str (ge_serde env) (error_response (id_of cmd) e)) @ [CHR 0x0A]], True, entered env cmd st)"
proof -
  have a: "action_of cmd = ''close''" using assms(4) by (simp add: action_of_def)
  with execute_refused [of cmd env st e] assms(5)
  have "execute_command env cmd st = (error_response (id_of cmd) e, entered env cmd st)" by simp
  with assms(1-4) show ?thesis by (simp add: Let_def)
qed

text \<open>A confirmation names no command: whatever identifier it carries, the pending command runs.\<close>

lemma confirm_ignores_confirmation_id:
  assumes "action_of c1 = ''confirm''" and "action_of c2 = ''confirm''" and "id_of c1 = id_of c2"
    and "\<And>w. ge_announce env ''confirm'' (id_of c1) c1 w = ge_announce env ''confirm'' (id_of c1) c2 w"
    and "check_gate ''confirm'' (id_of c1) (entered env c1 st) = Pass"
  shows "execute_command env c1 st = execute_command env c2 st"
proof -
  have "on_world (ge_announce env ''confirm'' (id_of c1) c1) st = on_world (ge_announce env ''confirm'' (id_of c1) c2) st"
    using assms(4) by (simp add: on_world_def)
  then have "entered env c1 st = entered env c2 st" using assms(1-3) by (simp add: entered_def)
  with assms show ?thesis
    by (auto simp: execute_command_eq [of env c1] execute_command_eq [of env c2] split: prod.split sum.split option.split)
qed

text \<open>No response has a field \<open>status\<close>, so every command is reported to the stream server as
  failed.\<close>

lemma response_without_status:
  "str_field (fst (respond env a i (r, st))) ''status'' = None"
  by (auto simp: respond_def Let_def str_field_def success_response_def error_response_def json_get_obj
      json_get_set split: sum.split option.split)

subsection \<open>An example\<close>

definition sample_gate :: "unit gate_env" where
  "sample_gate =
     \<lparr>ge_unicode = ascii_unicode, ge_serde = sample_serde, ge_read = (\<lambda>f w. Inl ''gone''),
      ge_announce = (\<lambda>a i c w. w), ge_drain = (\<lambda>w. w), ge_launch = (\<lambda>w. (Inr (), w)), ge_webdriver = (\<lambda>w. False),
      ge_handle = (\<lambda>a c w. (Inr JNull, w)), ge_dialog = (\<lambda>w. None), ge_report = (\<lambda>i a s d w. w)\<rparr>"

definition sample_policy :: action_policy where
  "sample_policy =
     \<lparr>ap_path = ''policy.json'', ap_default = None, ap_allow = None, ap_deny = Some [''evaluate''], ap_confirm = Some [''click'']\<rparr>"

definition sample_daemon :: "(unit \<times> (string \<times> json) list) daemon_state" where
  "sample_daemon = \<lparr>ds_policy = Some sample_policy, ds_confirm = None, ds_pending = None, ds_world = ((), [])\<rparr>"

lemma sample_policy_stays: "policy_stays sample_gate sample_policy"
  by (simp add: policy_stays_def policy_reload_def policy_text_def sample_gate_def sample_serde_def)

theorem policy_holds_actions_back_witness:
  "runs_of ''click'' (handled (run_commands (logged sample_gate)
      [json_obj [(''id'', JStr ''1''), (''action'', JStr ''click'')],
       json_obj [(''id'', JStr ''2''), (''action'', JStr ''confirm'')]] sample_daemon)) \<le> 1"
  using policy_holds_actions_back [OF _ sample_policy_stays, of sample_daemon "''click''"
      "[json_obj [(''id'', JStr ''1''), (''action'', JStr ''click'')],
        json_obj [(''id'', JStr ''2''), (''action'', JStr ''confirm'')]]"]
  by (simp add: sample_daemon_def sample_policy_def handled_def policy_check_def listed_def confirms_def
      action_of_def str_field_def json_get_obj)

end
