(* ===== verification/Cmd_Protocol.thy ===== *)
theory Cmd_Protocol
  imports Cmd_Parser Action_Gate "HOL-Library.Sublist"
begin

section \<open>Parsed commands and the daemon\<close>

text \<open>
  The two ends of the browser protocol together: what \<open>parse_command\<close> accepts is a command the
  daemon dispatches, a wait carries the default timeout, and the words of a batch line are the
  words that were quoted.
\<close>

subsection \<open>Commands of the daemon\<close>

text \<open>An object with the request's identifier and an action that \<open>execute_command\<close> dispatches. The
  one command without such an action is \<open>batch\<close>, which the client takes apart itself.\<close>

definition known_action :: "string \<Rightarrow> bool" where
  "known_action a \<longleftrightarrow> a \<in> set dispatched_actions"

definition daemon_command :: "string \<Rightarrow> json \<Rightarrow> bool" where
  "daemon_command rid j \<longleftrightarrow>
     is_object j \<and> json_get j ''id'' = Some (JStr rid)
     \<and> (case json_get j ''action'' of Some (JStr a) \<Rightarrow> known_action a | _ \<Rightarrow> False)"

definition reserved :: "string \<Rightarrow> bool" where
  "reserved k \<longleftrightarrow> k = ''id'' \<or> k = ''action''"

lemma daemon_command_obj [simp]:
  "list_all (\<lambda>kv. \<not> reserved (fst kv)) kvs \<Longrightarrow> daemon_command rid (cmd_obj rid a kvs) = known_action a"
proof -
  assume kvs: "list_all (\<lambda>kv. \<not> reserved (fst kv)) kvs"
  then have "map_of (rev kvs) ''id'' = None" "map_of (rev kvs) ''action'' = None"
    by (auto simp: map_of_eq_None_iff list_all_iff reserved_def)
  then show ?thesis by (simp add: daemon_command_def cmd_obj_def json_get_obj map_add_def)
qed

lemma daemon_command_set [simp]:
  "\<not> reserved k \<Longrightarrow> daemon_command rid (json_set j k v) = daemon_command rid j"
  by (cases "is_object j") (auto simp: daemon_command_def json_get_set reserved_def)

lemma daemon_command_set_opt [simp]:
  "\<not> reserved k \<Longrightarrow> daemon_command rid (set_opt k f v j) = daemon_command rid j"
  by (simp add: set_opt_def split: option.split)

lemma daemon_command_set_when [simp]:
  "\<not> reserved k \<Longrightarrow> daemon_command rid (set_when b k v j) = daemon_command rid j"
  by (simp add: set_when_def)

lemma daemon_command_set_default [simp]:
  "\<not> reserved k \<Longrightarrow> daemon_command rid (set_default k v j) = daemon_command rid j"
  by (simp add: set_default_def)

lemma not_reserved [simp]:
  "k \<noteq> ''id'' \<Longrightarrow> k \<noteq> ''action'' \<Longrightarrow> \<not> reserved k"
  by (simp add: reserved_def)

lemma known_actionI: "a \<in> set dispatched_actions \<Longrightarrow> known_action a"
  by (simp add: known_action_def)

subsection \<open>Arguments kept out of the way\<close>

lemma need_Inr: "need ctx usage rest i f = Inr j \<longleftrightarrow> (\<exists>v. get_arg rest i = Some v \<and> f v = Inr j)"
  by (auto simp: need_def and_then_Inr_iff)

lemma one_arg_command: "one_arg ctx usage rest rid a k = Inr j \<Longrightarrow> \<not> reserved k \<Longrightarrow> daemon_command rid j = known_action a"
  by (auto simp: one_arg_def need_Inr)

lemma two_args_command:
  "two_args ctx usage rest rid a k1 k2 = Inr j \<Longrightarrow> \<not> reserved k1 \<Longrightarrow> \<not> reserved k2 \<Longrightarrow>
   daemon_command rid j = known_action a"
  by (auto simp: two_args_def need_Inr)

lemma sub_arg_command: "sub_arg ctx usage rest rid a k = Inr j \<Longrightarrow> \<not> reserved k \<Longrightarrow> daemon_command rid j = known_action a"
  by (auto simp: sub_arg_def need_Inr)

lemma flagged_Inr: "flagged as ctx usage f = Inr j \<longleftrightarrow> (\<exists>v vs. as = v # vs \<and> f v = Inr j)"
  by (auto simp: flagged_def split: list.split)

lemma depth_value_Inr: "depth_value d usage f = Inr j \<longleftrightarrow> (\<exists>n. parse_u32 d = Some n \<and> f n = Inr j)"
  by (auto simp: depth_value_def split: option.split)

lemma threshold_value_Inr:
  "threshold_value env v f = Inr j \<longleftrightarrow> (\<exists>t. cx_parse_f64 env v = Some t \<and> in_unit_interval t \<and> f t = Inr j)"
  by (auto simp: threshold_value_def split: option.split)

lemma no_such_flag_Inr [simp]: "no_such_flag a usage \<noteq> Inr j"
  by (simp add: no_such_flag_def)

lemmas arg_simps = need_Inr and_then_Inr_iff flagged_Inr depth_value_Inr threshold_value_Inr

lemma scroll_args_command: "scroll_args p obj as = Inr j \<Longrightarrow> daemon_command rid j = daemon_command rid obj"
  by (induction p obj as rule: scroll_args.induct)
     (auto simp: scroll_positional_def split: if_splits list.splits)

lemma snapshot_args_command: "daemon_command rid (snapshot_args obj as) = daemon_command rid obj"
  by (induction obj as rule: snapshot_args.induct) (simp_all split: list.split option.split)

lemma stream_args_command: "stream_args obj as = Inr j \<Longrightarrow> daemon_command rid j = daemon_command rid obj"
  by (induction obj as rule: stream_args.induct) (auto split: if_splits list.splits option.splits)

lemma tab_new_args_command: "tab_new_args obj as = Inr j \<Longrightarrow> daemon_command rid j = daemon_command rid obj"
  by (induction obj as rule: tab_new_args.induct) (auto split: if_splits list.splits)

lemma diff_snapshot_args_command:
  "diff_snapshot_args obj as = Inr j \<Longrightarrow> daemon_command rid j = daemon_command rid obj"
proof (induction "length as" arbitrary: obj as rule: less_induct)
  case less
  then have step: "daemon_command rid j = daemon_command rid obj'"
    if "diff_snapshot_args obj' bs = Inr j" "length bs < length as" for obj' bs
    using that by blast
  from less.prems show ?case
    apply (cases as)
     apply simp
    apply (simp only: diff_snapshot_args.simps split: if_splits)
    apply (simp_all only: arg_simps no_such_flag_Inr)
    apply ((elim exE conjE)?, drule step, simp, simp)+
    done
qed

lemma diff_screenshot_args_command:
  "diff_screenshot_args env obj as = Inr j \<Longrightarrow> daemon_command rid j = daemon_command rid obj"
proof (induction "length as" arbitrary: obj as rule: less_induct)
  case less
  then have step: "daemon_command rid j = daemon_command rid obj'"
    if "diff_screenshot_args env obj' bs = Inr j" "length bs < length as" for obj' bs
    using that by blast
  from less.prems show ?case
    apply (cases as)
     apply simp
    apply (simp only: diff_screenshot_args.simps split: if_splits)
    apply (simp_all only: arg_simps no_such_flag_Inr)
    apply ((elim exE conjE)?, drule step, simp, simp)+
    done
qed

lemma diff_url_args_command:
  "diff_url_args obj as = Inr j \<Longrightarrow> daemon_command rid j = daemon_command rid obj"
proof (induction "length as" arbitrary: obj as rule: less_induct)
  case less
  then have step: "daemon_command rid j = daemon_command rid obj'"
    if "diff_url_args obj' bs = Inr j" "length bs < length as" for obj' bs
    using that by blast
  from less.prems show ?case
    apply (cases as)
     apply simp
    apply (simp only: diff_url_args.simps split: if_splits)
    apply (simp_all only: arg_simps no_such_flag_Inr)
    apply ((elim exE conjE)?, drule step, simp, simp)+
    done
qed

subsection \<open>Every group\<close>

text \<open>The actions of the parsed commands, in the order of the dispatching \<open>match\<close>.\<close>

definition command_actions :: "string list" where
  "command_actions =
     [''launch'', ''navigate'', ''url'', ''cdp_url'', ''inspect'', ''title'', ''evaluate'',
      ''close'', ''snapshot'', ''screenshot'', ''click'', ''dblclick'', ''fill'', ''type'',
      ''press'', ''hover'', ''scroll'', ''select'', ''check'', ''uncheck'', ''wait'', ''gettext'',
      ''getattribute'', ''isvisible'', ''isenabled'', ''ischecked'', ''back'', ''forward'',
      ''reload'', ''cookies_get'', ''cookies_set'', ''cookies_clear'', ''storage_get'',
      ''storage_set'', ''storage_clear'', ''headers'', ''offline'', ''console'', ''errors'',
      ''state_save'', ''state_load'', ''state_list'', ''state_show'', ''state_clear'',
      ''state_clean'', ''state_rename'', ''trace_start'', ''trace_stop'', ''profiler_start'',
      ''profiler_stop'', ''recording_start'', ''recording_stop'', ''recording_restart'', ''pdf'',
      ''tab_list'', ''tab_new'', ''tab_switch'', ''tab_close'', ''viewport'', ''download'',
      ''diff_snapshot'', ''diff_url'', ''keyboard'', ''focus'', ''scrollintoview'', ''highlight'',
      ''tap'', ''boundingbox'', ''innerhtml'', ''inputvalue'', ''count'', ''styles'',
      ''geolocation'', ''dialog'', ''upload'', ''removeinitscript'', ''react_tree'',
      ''react_inspect'', ''react_renders_start'', ''react_renders_stop'', ''react_suspense'',
      ''vitals'', ''pushstate'', ''clipboard'', ''wheel'', ''device'', ''stream_enable'',
      ''stream_disable'', ''stream_status'', ''waitforurl'', ''waitforloadstate'',
      ''waitforfunction'', ''frame'', ''mainframe'', ''getbyrole'', ''getbytext'', ''getbylabel'',
      ''getbyplaceholder'', ''getbyalttext'', ''getbytitle'', ''getbytestid'', ''nth'', ''drag'',
      ''waitfordownload'', ''window_new'', ''diff_screenshot'', ''har_start'', ''har_stop'',
      ''route'', ''unroute'', ''requests'', ''request_detail'', ''credentials'', ''emulatemedia'',
      ''auth_save'', ''auth_login'', ''auth_list'', ''auth_delete'', ''auth_show'', ''confirm'',
      ''deny'', ''swipe'', ''device_list'', ''keydown'', ''keyup'', ''mousemove'', ''mousedown'',
      ''mouseup'']"

lemma command_actions_dispatched: "subseq command_actions dispatched_actions"
  by code_simp

lemma known_command_actions: "list_all known_action command_actions"
  using command_actions_dispatched by (auto simp: list_all_iff known_action_def dest: list_emb_set)

lemmas known_actions [simp] = known_command_actions [unfolded command_actions_def list.pred_inject]

text \<open>Which branch of a \<open>match\<close> was taken does not matter below.\<close>

lemma if_either: "(if b then x else y) = z \<Longrightarrow> x = z \<or> y = z"
  by (simp split: if_splits)

lemma if_taken: "(if b then x else y) = z \<Longrightarrow> b \<and> x = z \<or> y = z"
  by (simp split: if_splits)

lemma open_command: "parse_open env fl rid c rest = Inr j \<Longrightarrow> daemon_command rid j"
  by (auto simp: parse_open_def Let_def arg_simps dest!: if_either split: option.splits sum.splits)

lemma navigation_command: "navigation_cmd env fl rid c rest = Some (Inr j) \<Longrightarrow> daemon_command rid j"
  by (auto simp: navigation_cmd_def dest!: if_either open_command)

lemma click_command: "parse_click rid rest = Inr j \<Longrightarrow> daemon_command rid j"
  by (auto simp: parse_click_def arg_simps)

lemma select_command: "parse_select rid rest = Inr j \<Longrightarrow> daemon_command rid j"
  by (auto simp: parse_select_def arg_simps)

lemma core_command: "core_cmd rid c rest = Some (Inr j) \<Longrightarrow> daemon_command rid j"
  by (auto simp: core_cmd_def arg_simps dest!: if_either one_arg_command two_args_command
      click_command select_command)

lemma keyboard_command: "keyboard_cmd rid c rest = Some (Inr j) \<Longrightarrow> daemon_command rid j"
  by (auto simp: keyboard_cmd_def parse_keyboard_def Let_def arg_simps dest!: if_either one_arg_command)

lemma scroll_command: "scroll_cmd rid c rest = Some (Inr j) \<Longrightarrow> daemon_command rid j"
  by (auto simp: scroll_cmd_def parse_scroll_def arg_simps dest!: if_either one_arg_command scroll_args_command)

lemma timeout_flag_command [simp]: "daemon_command rid (timeout_flag rest j) = daemon_command rid j"
  by (simp add: timeout_flag_def)

lemma first_some_Inr:
  "first_some os d = x \<Longrightarrow> Some x \<in> set os \<or> x = d"
  by (induction os d rule: first_some.induct) auto

lemma wait_flag_command: "wait_flag ns rest ctx usage mk = Some (Inr j) \<Longrightarrow> \<exists>v. j = mk v"
  by (auto simp: wait_flag_def arg_simps split: option.splits)

lemma wait_download_command: "wait_download rid rest = Some (Inr j) \<Longrightarrow> daemon_command rid j"
  by (auto simp: wait_download_def split: option.splits)

lemma wait_default_command: "wait_default rid rest = Inr j \<Longrightarrow> daemon_command rid j"
  by (auto simp: wait_default_def split: list.splits option.splits)

lemma wait_command: "parse_wait rid rest = Inr j \<Longrightarrow> daemon_command rid j"
  unfolding parse_wait_def
  by (drule first_some_Inr)
     (auto dest!: sym [of "Some (Inr j)"] wait_flag_command wait_download_command sym [of "Inr j"] wait_default_command)

lemma screenshot_command: "parse_screenshot fl rid rest = Inr j \<Longrightarrow> daemon_command rid j"
  by (auto simp: parse_screenshot_def Let_def split: prod.splits)

lemma eval_command: "parse_eval env rid rest = Inr j \<Longrightarrow> daemon_command rid j"
  by (auto simp: parse_eval_def Let_def arg_simps)

lemma page_command: "page_cmd env fl rid c rest = Some (Inr j) \<Longrightarrow> daemon_command rid j"
  by (auto simp: page_cmd_def snapshot_args_command dest!: if_either one_arg_command wait_command screenshot_command eval_command)

lemma auth_save_command: "parse_auth_save rid rest = Inr j \<Longrightarrow> daemon_command rid j"
  by (auto simp: parse_auth_save_def Let_def arg_simps dest!: if_either)

lemma auth_command: "parse_auth rid rest = Inr j \<Longrightarrow> daemon_command rid j"
  by (auto simp: parse_auth_def Let_def dest!: if_either sub_arg_command auth_save_command)

lemma connect_command: "parse_connect rid rest = Inr j \<Longrightarrow> daemon_command rid j"
  by (auto simp: parse_connect_def arg_simps dest!: if_either split: option.splits)

lemma stream_command: "parse_stream rid rest = Inr j \<Longrightarrow> daemon_command rid j"
  by (auto simp: parse_stream_def dest!: if_either stream_args_command split: list.splits)

lemma session_command: "session_cmd rid c rest = Some (Inr j) \<Longrightarrow> daemon_command rid j"
  by (auto simp: session_cmd_def dest!: if_either one_arg_command auth_command connect_command stream_command)

lemma get_command: "parse_get rest rid = Inr j \<Longrightarrow> daemon_command rid j"
  by (auto simp: parse_get_def arg_simps dest!: if_either sub_arg_command split: list.splits)

lemma is_command: "parse_is rest rid = Inr j \<Longrightarrow> daemon_command rid j"
  by (auto simp: parse_is_def dest!: if_either sub_arg_command split: list.splits)

lemma locator_command_known [simp]: "daemon_command rid (locator_command rid loc v sub name exact fill)"
  by (simp add: locator_command_def Let_def)

lemma find_command: "parse_find rest rid = Inr j \<Longrightarrow> daemon_command rid j"
  by (auto simp: parse_find_def Let_def arg_simps dest!: if_either)

lemma mouse_command: "parse_mouse rest rid = Inr j \<Longrightarrow> daemon_command rid j"
  by (auto simp: parse_mouse_def Let_def arg_simps dest!: if_either split: list.splits)

lemma viewport_command: "parse_viewport env rest rid = Inr j \<Longrightarrow> daemon_command rid j"
  by (auto simp: parse_viewport_def Let_def arg_simps split: option.splits)

lemma geo_command: "parse_geo env rest rid = Inr j \<Longrightarrow> daemon_command rid j"
  by (auto simp: parse_geo_def Let_def arg_simps)

lemma set_command: "parse_set env rest rid = Inr j \<Longrightarrow> daemon_command rid j"
  by (auto simp: parse_set_def arg_simps dest!: if_either sub_arg_command viewport_command geo_command
      split: list.splits)

lemma network_command: "parse_network rest rid = Inr j \<Longrightarrow> daemon_command rid j"
  by (auto simp: parse_network_def parse_har_def Let_def arg_simps dest!: if_either sub_arg_command
      split: list.splits option.splits)

lemma storage_command: "parse_storage rest rid = Inr j \<Longrightarrow> daemon_command rid j"
  by (auto simp: parse_storage_def Let_def arg_simps dest!: if_either split: list.splits prod.splits)

lemma settings_command: "settings_cmd env rid c rest = Some (Inr j) \<Longrightarrow> daemon_command rid j"
  by (auto simp: settings_cmd_def
      dest!: if_either get_command is_command find_command mouse_command set_command network_command storage_command)

lemma cookies_curl_command: "parse_cookies_curl env rid rest i = Inr j \<Longrightarrow> daemon_command rid j"
  by (auto simp: parse_cookies_curl_def arg_simps)

lemma cookies_command: "parse_cookies env rid rest = Inr j \<Longrightarrow> daemon_command rid j"
  by (auto simp: parse_cookies_def Let_def arg_simps dest!: if_either cookies_curl_command split: option.splits)

lemma tab_command: "parse_tab rid rest = Inr j \<Longrightarrow> daemon_command rid j"
  by (auto simp: parse_tab_def dest!: if_either tab_new_args_command split: list.splits)

lemma window_frame_command:
  "parse_window rid rest = Inr j \<or> parse_frame rid rest = Inr j \<or> parse_dialog rid rest = Inr j \<Longrightarrow> daemon_command rid j"
  by (auto simp: parse_window_def parse_frame_def parse_dialog_def dest!: if_either one_arg_command split: list.splits)

lemma window_command: "window_cmd env rid c rest = Some (Inr j) \<Longrightarrow> daemon_command rid j"
  by (auto simp: window_cmd_def dest!: if_either cookies_command tab_command
      window_frame_command [OF disjI1] window_frame_command [OF disjI2 [OF disjI1]]
      window_frame_command [OF disjI2 [OF disjI2]])

lemma start_stop_command:
  assumes "start_stop rest ctx usage start stop = Inr j" and "\<And>x. start = Inr x \<Longrightarrow> daemon_command rid x"
    and "daemon_command rid stop"
  shows "daemon_command rid j"
  using assms by (auto simp: start_stop_def dest!: if_either split: list.splits)

lemma trace_command: "parse_trace rid rest = Inr j \<Longrightarrow> daemon_command rid j"
  unfolding parse_trace_def by (erule start_stop_command) auto

lemma profiler_command: "parse_profiler rid rest = Inr j \<Longrightarrow> daemon_command rid j"
  unfolding parse_profiler_def by (erule start_stop_command) (auto simp: arg_simps split: option.splits)

lemma record_command: "parse_record rid rest = Inr j \<Longrightarrow> daemon_command rid j"
  by (auto simp: parse_record_def parse_recording_def arg_simps dest!: if_either split: list.splits)

lemma clipboard_command: "parse_clipboard rid rest = Inr j \<Longrightarrow> daemon_command rid j"
  by (auto simp: parse_clipboard_def arg_simps dest!: if_either split: list.splits)

lemma debug_command: "debug_cmd rid c rest = Some (Inr j) \<Longrightarrow> daemon_command rid j"
  by (auto simp: debug_cmd_def
      dest!: if_either one_arg_command trace_command profiler_command record_command clipboard_command)

lemma state_clear_command: "parse_state_clear u rid rest = Inr j \<Longrightarrow> daemon_command rid j"
  by (auto simp: parse_state_clear_def dest!: if_either split: prod.splits option.splits)

lemma state_rename_command: "parse_state_rename u rid rest = Inr j \<Longrightarrow> daemon_command rid j"
  by (auto simp: parse_state_rename_def Let_def arg_simps dest!: if_either)

lemma state_command: "parse_state u rid rest = Inr j \<Longrightarrow> daemon_command rid j"
  by (auto simp: parse_state_def arg_simps
      dest!: if_either sub_arg_command state_clear_command state_rename_command split: list.splits)

lemma swipe_command: "parse_swipe rid rest = Inr j \<Longrightarrow> daemon_command rid j"
  by (auto simp: parse_swipe_def arg_simps dest!: if_either)

lemma device_command: "parse_device rid rest = Inr j \<Longrightarrow> daemon_command rid j"
  by (auto simp: parse_device_def dest!: if_either split: list.splits)

lemma diff_command: "parse_diff env rest rid = Inr j \<Longrightarrow> daemon_command rid j"
  by (auto simp: parse_diff_def arg_simps
      dest!: if_either diff_snapshot_args_command diff_screenshot_args_command diff_url_args_command
      split: list.splits)

lemma react_command: "parse_react rest rid = Inr j \<Longrightarrow> daemon_command rid j"
  by (auto simp: parse_react_def Let_def arg_simps dest!: if_either)

lemma other_command: "other_cmd env rid c rest = Some (Inr j) \<Longrightarrow> c \<noteq> ''batch'' \<Longrightarrow> daemon_command rid j"
  by (auto simp: other_cmd_def parse_vitals_def Let_def
      dest!: if_taken one_arg_command state_command swipe_command device_command diff_command react_command)

lemmas group_commands =
  navigation_command core_command keyboard_command scroll_command page_command session_command
  settings_command window_command debug_command other_command

lemma inner_command:
  assumes "parse_command_inner env fl rid (c # rest) = Inr j" and "c \<noteq> ''batch''"
  shows "daemon_command rid j"
  using assms unfolding parse_command_inner_def
  by (auto dest!: first_some_Inr sym [of "Some (Inr j)"] intro: group_commands)

lemma inner_no_command: "parse_command_inner env fl rid [] \<noteq> Inr j"
  by (simp add: parse_command_inner_def)

lemma inner_batch: "parse_command_inner env fl rid (''batch'' # rest) = Inr (parse_batch rid rest)"
  by (simp add: parse_command_inner_def navigation_cmd_def core_cmd_def keyboard_cmd_def scroll_cmd_def
      page_cmd_def session_cmd_def settings_cmd_def window_cmd_def debug_cmd_def other_cmd_def)

lemma batch_fields:
  "is_object (parse_batch rid rest)" "json_get (parse_batch rid rest) ''id'' = Some (JStr rid)"
  "json_get (parse_batch rid rest) ''action'' = Some (JStr ''batch'')"
  by (simp_all add: parse_batch_def set_opt_def set_when_def cmd_obj_def json_get_obj json_get_set Let_def)

lemma inner_object:
  assumes "parse_command_inner env fl rid args = Inr j"
  shows "is_object j" and "json_get j ''id'' = Some (JStr rid)"
proof -
  obtain c rest where args: "args = c # rest" using assms by (cases args) (simp_all add: inner_no_command)
  show "is_object j" "json_get j ''id'' = Some (JStr rid)"
    using assms inner_command [of env fl rid c rest j] batch_fields inner_batch [of env fl rid rest]
    by (cases "c = ''batch''"; auto simp: args daemon_command_def)+
qed

lemma add_default_timeout_get:
  "is_object j \<Longrightarrow> k \<noteq> ''timeout'' \<Longrightarrow> json_get (add_default_timeout fl j) k = json_get j k"
  by (simp add: add_default_timeout_def set_opt_def json_get_set split: option.split)

lemma default_timeout_command [simp]: "daemon_command rid (add_default_timeout fl j) = daemon_command rid j"
  by (simp add: add_default_timeout_def split: option.split)

subsection \<open>Quoted words\<close>

text \<open>A word between single quotes, as a shell script writes it; the word holds no quote and
  starts with a character, not in the middle of one.\<close>

definition single_quoted :: "string \<Rightarrow> string" where
  "single_quoted w = [CHR 0x27] @ w @ [CHR 0x27]"

definition quotable :: "string \<Rightarrow> bool" where
  "quotable w \<longleftrightarrow> w \<noteq> [] \<and> CHR 0x27 \<notin> set w \<and> \<not> is_continuation (hd w)"

lemma quote_not_continuation [simp]: "\<not> is_continuation (CHR 0x27)" "\<not> is_continuation (CHR '' '')"
  by (simp_all add: is_continuation_def)

lemma chars_single_quoted:
  assumes "quotable w" and "\<And>c t. s = c # t \<Longrightarrow> \<not> is_continuation c"
  shows "chars (single_quoted w @ s) = [CHR 0x27] # chars w @ [CHR 0x27] # chars s"
proof -
  have s: "chars ([CHR 0x27] @ s) = [CHR 0x27] # chars s"
    using chars_append_boundary [of s "[CHR 0x27]"] assms(2) by simp
  have w: "chars (w @ [CHR 0x27] @ s) = chars w @ [CHR 0x27] # chars s"
    using chars_append_boundary [of "[CHR 0x27] @ s" w] s by simp
  have "chars ([CHR 0x27] @ w @ [CHR 0x27] @ s) = chars [CHR 0x27] @ chars (w @ [CHR 0x27] @ s)"
    by (rule chars_append_boundary) (use assms(1) in \<open>cases w; auto simp: quotable_def\<close>)
  with w show ?thesis by (simp add: single_quoted_def)
qed

lemma split_in_quotes:
  "[CHR 0x27] \<notin> set gs \<Longrightarrow>
   split_words False True cur (gs @ [CHR 0x27] # cs) = split_words False False (cur @ concat gs) cs"
  by (induction gs arbitrary: cur) auto

lemma quotable_chars: "quotable w \<Longrightarrow> [CHR 0x27] \<notin> set (chars w)"
proof
  assume "quotable w" "[CHR 0x27] \<in> set (chars w)"
  then have "CHR 0x27 \<in> set (concat (chars w))" by (metis concat.simps in_set_conv_decomp list.set_intros(1) set_concat UN_I)
  with \<open>quotable w\<close> show False by (simp add: quotable_def)
qed

lemma split_quoted_words:
  "list_all quotable ws \<Longrightarrow>
   split_words False False [] (chars (join '' '' (map single_quoted ws))) = ws"
proof (induction ws)
  case (Cons w ws)
  then have w: "quotable w" "w \<noteq> []" by (simp_all add: quotable_def)
  show ?case
  proof (cases ws)
    case Nil
    with chars_single_quoted [of w "[]"] w split_in_quotes [OF quotable_chars [OF w(1)], of "[]" "[]"]
    show ?thesis by simp
  next
    case (Cons v vs)
    let ?t = "join '' '' (map single_quoted ws)"
    obtain t where "?t = CHR 0x27 # t" using Cons by (cases vs) (simp_all add: single_quoted_def)
    then have "chars ('' '' @ ?t) = '' '' # chars ?t"
      using chars_append_boundary [of ?t "'' ''"] by simp
    then have "chars (single_quoted w @ '' '' @ ?t) = [CHR 0x27] # chars w @ [CHR 0x27] # '' '' # chars ?t"
      using chars_single_quoted [OF w(1), of "'' '' @ ?t"] by simp
    with split_in_quotes [OF quotable_chars [OF w(1)], of "[]" "'' '' # chars ?t"] Cons w Cons.IH Cons.prems
    show ?thesis by simp
  qed
qed simp

subsection \<open>Properties\<close>

text \<open>C24: every command line that the parser accepts becomes a JSON object that carries the identifier
  of the request and an action. Unless the first word is \<open>batch\<close>, it is an action the daemon has a
  handler for: the dispatch runs that handler and never answers "Not yet implemented". For \<open>batch\<close>
  the action is \<open>batch\<close>, which the client takes apart before anything is sent; the daemon has no
  handler for it, so a \<open>batch\<close> inside a batch, which \<open>run_batch\<close> sends on like any other command, is
  answered with "Not yet implemented: batch".\<close>

theorem parsed_commands_are_dispatched:
  assumes "parse_command env fl micros args = Inr j"
  shows "is_object j \<and> id_of j = gen_id micros
    \<and> (if hd args = ''batch''
       then action_of j = ''batch'' \<and> handle_action ge (action_of j) j st = (Inl ''Not yet implemented: batch'', st)
       else handle_action ge (action_of j) j st
              = (case ge_handle ge (action_of j) j (ds_world st) of (r, w) \<Rightarrow> (r, st\<lparr>ds_world := w\<rparr>)))"
proof -
  obtain j0 where j0: "parse_command_inner env fl (gen_id micros) args = Inr j0"
      and j: "j = add_default_timeout fl j0"
    using assms by (auto simp: parse_command_def and_then_Inr_iff)
  then obtain c rest where args: "args = c # rest" by (cases args) (simp_all add: inner_no_command)
  note obj = inner_object [OF j0]
  have "is_object j" using obj(1) by (auto simp: j add_default_timeout_def set_opt_def split: option.split)
  moreover have get: "k \<noteq> ''timeout'' \<Longrightarrow> json_get j k = json_get j0 k" for k
    unfolding j using obj(1) by (rule add_default_timeout_get)
  moreover have "id_of j = gen_id micros" using obj(2) get [of "''id''"] by (simp add: id_of_def str_field_def)
  moreover have "if c = ''batch'' then action_of j = ''batch'' else action_of j \<in> set dispatched_actions"
  proof (cases "c = ''batch''")
    case True
    then have "j0 = parse_batch (gen_id micros) rest" using j0 inner_batch by (simp add: args)
    with True get [of "''action''"] show ?thesis by (simp add: action_of_def str_field_def batch_fields)
  next
    case False
    with j0 args inner_command have "daemon_command (gen_id micros) j0" by blast
    with False get [of "''action''"] show ?thesis
      by (auto simp: daemon_command_def known_action_def action_of_def str_field_def split: option.splits json.splits)
  qed
  moreover have "\<not> ''batch'' \<in> set dispatched_actions" by (simp add: dispatched_actions_def)
  ultimately show ?thesis by (simp add: args handle_action_def split: if_splits)
qed

text \<open>Splitting a batch line gives back the words that were put between single quotes and
  joined by blanks, whatever blanks, backslashes and double quotes they hold.\<close>

theorem quoted_words_split_back:
  assumes "list_all quotable ws"
  shows "shell_words_split (join '' '' (map single_quoted ws)) = ws"
  unfolding shell_words_split_def using assms by (rule split_quoted_words)

text \<open>With a default timeout set, every accepted command whose action starts with \<open>wait\<close>
  carries a timeout: its own when the command line gives one, the default otherwise.\<close>

theorem waits_carry_a_timeout:
  assumes "parse_command_inner env fl (gen_id micros) args = Inr j0"
    and "str_field j0 ''action'' = Some a" and "starts_with ''wait'' a" and "default_timeout fl = Some t"
  shows "\<exists>j. parse_command env fl micros args = Inr j
     \<and> json_get j ''timeout'' = Some (unwrap_or (json_nat (unat t)) (json_get j0 ''timeout''))
     \<and> (\<forall>k. k \<noteq> ''timeout'' \<longrightarrow> json_get j k = json_get j0 k)"
proof -
  have "is_object j0" using assms(1) by (rule inner_object)
  with assms show ?thesis
    by (cases "json_get j0 ''timeout''")
       (simp_all add: parse_command_def add_default_timeout_def str_field_def set_opt_def json_get_set)
qed

definition sample_cmd_env :: cmd_env where
  "sample_cmd_env =
     \<lparr>cx_unicode = ascii_unicode, cx_serde = sample_serde, cx_base64 = (\<lambda>s. None), cx_parse_f64 = (\<lambda>s. None),
      cx_show_f64 = (\<lambda>b. []), cx_stdin = [], cx_cwd = [], cx_fs = Dir []\<rparr>"

definition sample_flags :: flags where
  "sample_flags =
     \<lparr>headed = False, provider = None, fl_headers = None, device = None, annotate = False,
      screenshot_format = None, screenshot_quality = None, screenshot_dir = None, default_timeout = Some 5000\<rparr>"

lemma sample_wait:
  "parse_command_inner sample_cmd_env sample_flags (gen_id 7) [''wait'', ''#done'']
   = Inr (cmd_obj (gen_id 7) ''wait'' [(''selector'', JStr ''#done'')])"
  by (simp add: parse_command_inner_def navigation_cmd_def core_cmd_def keyboard_cmd_def scroll_cmd_def page_cmd_def
      parse_wait_def wait_flag_def wait_download_def wait_default_def parse_u64_def parse_unsigned_def is_ascii_digit_def)

definition idle_daemon :: "unit daemon_state" where
  "idle_daemon = \<lparr>ds_policy = None, ds_confirm = None, ds_pending = None, ds_world = ()\<rparr>"

theorem parsed_commands_are_dispatched_witness:
  "\<exists>j. parse_command sample_cmd_env sample_flags 7 [''wait'', ''#done''] = Inr j \<and> id_of j = gen_id 7
     \<and> handle_action sample_gate (action_of j) j idle_daemon
       = (case ge_handle sample_gate (action_of j) j () of (r, w) \<Rightarrow> (r, idle_daemon\<lparr>ds_world := w\<rparr>))"
  using parsed_commands_are_dispatched [of sample_cmd_env sample_flags 7 "[''wait'', ''#done'']" _ sample_gate
      idle_daemon]
  by (simp add: parse_command_def sample_wait idle_daemon_def)

theorem quoted_words_split_back_witness:
  "shell_words_split (join '' '' (map single_quoted [''click'', ''#a b'']))  = [''click'', ''#a b'']"
  by (rule quoted_words_split_back) (simp add: quotable_def is_continuation_def)

theorem waits_carry_a_timeout_witness:
  "\<exists>j. parse_command sample_cmd_env sample_flags 7 [''wait'', ''#done''] = Inr j
     \<and> json_get j ''timeout'' = Some (json_nat 5000)"
  using waits_carry_a_timeout [OF sample_wait, of "''wait''" 5000]
  by (auto simp: str_field_def cmd_obj_def json_get_obj sample_flags_def starts_with_def)

end
