(* ===== verification/State_Files.thy ===== *)
theory State_Files
  imports Cmd_Protocol Cli_Config Session_Store
begin

section \<open>Saved browser states\<close>

text \<open>
  The file side of \<open>agent-browser/src/native/state.rs\<close>: the states saved in the sessions directory are
  listed, shown, cleared, cleaned by age and renamed, and a command is routed to these
  operations by \<open>dispatch_state_command\<close>, which \<open>main.rs\<close> calls on every parsed command before it
  looks for a daemon. Times are nanoseconds relative to the epoch; the modification times,
  the clock, the home and temporary directories, the cipher and the decoding of a state are
  fields of \<open>state_env\<close>. The product of days and seconds is computed at 64 bits, as in the release
  profile.
\<close>

subsection \<open>Files\<close>

record state_env =
  se_home :: "string option"
  se_tmp :: string
  se_cwd :: apath
  se_now :: int
  se_mtime :: "apath \<Rightarrow> int option"
  se_dir_len :: nat
  se_key :: "string option"
  se_seal :: "string \<Rightarrow> string \<Rightarrow> string \<Rightarrow> string + string"
  se_open :: "string \<Rightarrow> string \<Rightarrow> string \<Rightarrow> string + string"
  se_utf8_error :: "string \<Rightarrow> string"
  se_decode :: "string \<Rightarrow> string + nat \<times> nat \<times> json"

definition get_state_dir :: "state_env \<Rightarrow> string" where
  "get_state_dir env =
     (case se_home env of
        Some home \<Rightarrow> path_join home ''.agent-browser''
      | None \<Rightarrow> path_join (se_tmp env) ''agent-browser'')"

definition get_sessions_dir :: "state_env \<Rightarrow> string" where
  "get_sessions_dir env = path_join (get_state_dir env) ''sessions''"

definition is_state_file :: "string \<Rightarrow> bool" where
  "is_state_file fname \<longleftrightarrow> ends_with ''.json'' fname \<or> ends_with ''.json.enc'' fname"

definition is_encrypted_state :: "string \<Rightarrow> bool" where
  "is_encrypted_state path \<longleftrightarrow> ends_with ''.json.enc'' path"

definition sessions_path :: "state_env \<Rightarrow> pcomp list" where
  "sessions_path env = abs_components (se_cwd env) (get_sessions_dir env)"

definition read_sessions :: "state_env \<Rightarrow> node \<Rightarrow> io_error + apath \<times> (string \<times> kind) list" where
  "read_sessions env fs =
     and_then (canonicalize fs (sessions_path env)) (\<lambda>d. and_then (fs_read_dir d fs) (\<lambda>es. Inr (d, es)))"

text \<open>\<open>fs::metadata\<close>, with the resolved path for the modification time.\<close>

definition file_metadata :: "pcomp list \<Rightarrow> node \<Rightarrow> (apath \<times> kind) option" where
  "file_metadata cs fs =
     (case canonicalize fs cs of
        Inl e \<Rightarrow> None
      | Inr p \<Rightarrow> map_option (\<lambda>k. (p, k)) (stat_at fs p))"

definition file_len :: "state_env \<Rightarrow> (apath \<times> kind) option \<Rightarrow> nat" where
  "file_len env md =
     (case md of
        Some (p, KFile c) \<Rightarrow> length c
      | Some _ \<Rightarrow> se_dir_len env
      | None \<Rightarrow> 0)"

definition modified_secs :: "state_env \<Rightarrow> (apath \<times> kind) option \<Rightarrow> nat" where
  "modified_secs env md =
     (case Option.bind md (\<lambda>m. se_mtime env (fst m)) of
        Some t \<Rightarrow> (if 0 \<le> t then nat (t div 1000000000) else 0)
      | None \<Rightarrow> 0)"

definition remove_path :: "pcomp list \<Rightarrow> node \<Rightarrow> (io_error + unit) \<times> node" where
  "remove_path cs fs = (case entry_of fs cs of Inl e \<Rightarrow> (Inl e, fs) | Inr p \<Rightarrow> fs_remove_file p fs)"

subsection \<open>Listing and showing\<close>

definition state_entry :: "state_env \<Rightarrow> node \<Rightarrow> string \<Rightarrow> json" where
  "state_entry env fs n =
     (let path = path_join (get_sessions_dir env) n;
          md = file_metadata (abs_components (se_cwd env) path) fs
      in json_obj [(''filename'', JStr n), (''path'', JStr path), (''size'', json_nat (file_len env md)),
           (''modified'', json_nat (modified_secs env md)), (''encrypted'', JBool (is_encrypted_state path))])"

definition state_list :: "state_env \<Rightarrow> node \<Rightarrow> string + json" where
  "state_list env fs =
     (let dir = (''directory'', JStr (get_sessions_dir env))
      in if \<not> fs_exists fs (sessions_path env) then Inr (json_obj [(''files'', JArr []), dir])
         else and_then (map_err (\<lambda>e. ''Failed to read sessions dir: '' @ io_text e) (read_sessions env fs))
                (\<lambda>(d, es). Inr (json_obj
                   [(''files'', JArr (map (state_entry env fs) (filter is_state_file (map fst es)))), dir])))"

definition encrypt_data :: "state_env \<Rightarrow> string \<Rightarrow> string \<Rightarrow> string \<Rightarrow> string + string" where
  "encrypt_data env nonce data key =
     and_then (map_err (\<lambda>e. ''Encryption failed: '' @ e) (se_seal env key nonce data)) (\<lambda>c. Inr (nonce @ c))"

definition decrypt_data :: "state_env \<Rightarrow> string \<Rightarrow> string \<Rightarrow> string + string" where
  "decrypt_data env data key =
     (if length data < 13 then Inl ''Ciphertext too short''
      else map_err (\<lambda>e. ''Decryption failed: '' @ e) (se_open env key (take 12 data) (drop 12 data)))"

definition state_text :: "state_env \<Rightarrow> string \<Rightarrow> node \<Rightarrow> string + string" where
  "state_text env path fs =
     (let cs = abs_components (se_cwd env) path; failed = (\<lambda>e. ''Failed to read state file: '' @ io_text e)
      in if ends_with ''.enc'' path
         then and_then (ok_or ''Encrypted state file requires AGENT_BROWSER_ENCRYPTION_KEY'' (se_key env))
              (\<lambda>key. and_then (map_err failed (fs_read cs fs))
              (\<lambda>data. and_then (decrypt_data env data key)
              (\<lambda>t. if valid_utf8 t then Inr t else Inl (''Decrypted state is not valid UTF-8: '' @ se_utf8_error env t))))
         else map_err failed (fs_read_to_string cs fs))"

definition state_show :: "state_env \<Rightarrow> string \<Rightarrow> node \<Rightarrow> string + json" where
  "state_show env path fs =
     and_then (state_text env path fs) (\<lambda>t.
     and_then (map_err (\<lambda>e. ''Invalid state file: '' @ e) (se_decode env t)) (\<lambda>(cookies, origins, st).
       let md = file_metadata (abs_components (se_cwd env) path) fs
       in Inr (json_obj [(''filename'', JStr (unwrap_or [] (path_file_name path))), (''path'', JStr path),
            (''size'', json_nat (file_len env md)), (''modified'', json_nat (modified_secs env md)),
            (''encrypted'', JBool (ends_with ''.enc'' path)),
            (''summary'', JStr (show_nat cookies @ '' cookies, '' @ show_nat origins @ '' origins'')),
            (''state'', st)])))"

subsection \<open>Deleting\<close>

fun clear_entries :: "apath \<Rightarrow> (string \<times> kind) list \<Rightarrow> nat \<Rightarrow> node \<Rightarrow> nat \<times> node" where
  "clear_entries d [] n fs = (n, fs)"
| "clear_entries d ((name, kd) # es) n fs =
     (if is_state_file name then clear_entries d es (n + 1) (snd (fs_remove_file (d @ [name]) fs))
      else clear_entries d es n fs)"

definition deleted_json :: "nat \<Rightarrow> json" where
  "deleted_json n = json_obj [(''deleted'', json_nat n)]"

definition state_clear :: "state_env \<Rightarrow> string option \<Rightarrow> node \<Rightarrow> (string + json) \<times> node" where
  "state_clear env path fs =
     (case path of
        Some p \<Rightarrow>
          (case remove_path (abs_components (se_cwd env) p) fs of
             (Inl e, fs1) \<Rightarrow> (Inl (''Failed to delete state: '' @ io_text e), fs1)
           | (Inr u, fs1) \<Rightarrow> (Inr (json_obj [(''deleted'', JStr p)]), fs1))
      | None \<Rightarrow>
          (if \<not> fs_exists fs (sessions_path env) then (Inr (deleted_json 0), fs)
           else case read_sessions env fs of
                  Inl e \<Rightarrow> (Inr (deleted_json 0), fs)
                | Inr (d, es) \<Rightarrow>
                    (case clear_entries d es 0 fs of (n, fs1) \<Rightarrow> (Inr (deleted_json n), fs1))))"

definition max_age_nanos :: "64 word \<Rightarrow> int" where
  "max_age_nanos days = uint (days * 86400) * 1000000000"

definition too_old :: "state_env \<Rightarrow> 64 word \<Rightarrow> string \<Rightarrow> node \<Rightarrow> bool" where
  "too_old env days name fs =
     (case Option.bind (file_metadata (abs_components (se_cwd env) (path_join (get_sessions_dir env) name)) fs)
             (\<lambda>m. se_mtime env (fst m)) of
        None \<Rightarrow> False
      | Some t \<Rightarrow> t \<le> se_now env \<and> max_age_nanos days < se_now env - t)"

fun clean_states :: "state_env \<Rightarrow> 64 word \<Rightarrow> apath \<Rightarrow> (string \<times> kind) list \<Rightarrow> nat \<times> nat \<Rightarrow> node \<Rightarrow> (nat \<times> nat) \<times> node" where
  "clean_states env days d [] nk fs = (nk, fs)"
| "clean_states env days d ((name, kd) # es) nk fs =
     (if \<not> is_state_file name then clean_states env days d es nk fs
      else if too_old env days name fs
      then clean_states env days d es (fst nk + 1, snd nk) (snd (fs_remove_file (d @ [name]) fs))
      else clean_states env days d es (fst nk, snd nk + 1) fs)"

definition cleaned_json :: "64 word \<Rightarrow> nat \<times> nat \<Rightarrow> json" where
  "cleaned_json days nk =
     json_obj [(''cleaned'', json_nat (fst nk)), (''keptCount'', json_nat (snd nk)), (''days'', json_nat (unat days))]"

definition state_clean :: "state_env \<Rightarrow> 64 word \<Rightarrow> node \<Rightarrow> (string + json) \<times> node" where
  "state_clean env days fs =
     (if \<not> fs_exists fs (sessions_path env) then (Inr (cleaned_json days (0, 0)), fs)
      else case read_sessions env fs of
             Inl e \<Rightarrow> (Inr (cleaned_json days (0, 0)), fs)
           | Inr (d, es) \<Rightarrow>
               (case clean_states env days d es (0, 0) fs of (nk, fs1) \<Rightarrow> (Inr (cleaned_json days nk), fs1)))"

text \<open>\<open>Path::parent\<close> on the text of a path: trailing separators and \<open>.\<close> components do not count.\<close>

function trim_path_end :: "string \<Rightarrow> string" where
  "trim_path_end s =
     (if 1 < length s \<and> last s = slash then trim_path_end (butlast s)
      else if 1 < length s \<and> ends_with ''/.'' s then trim_path_end (butlast s)
      else s)"
  by pat_completeness auto

termination trim_path_end
  by (relation "measure length") auto

declare trim_path_end.simps [simp del]

definition parent_text :: "string \<Rightarrow> string option" where
  "parent_text s =
     (let t = trim_path_end s
      in if t = [] \<or> t = [slash] then None
         else Some (trim_path_end (rev (dropWhile (\<lambda>c. c \<noteq> slash) (rev t)))))"

definition state_rename :: "state_env \<Rightarrow> string \<Rightarrow> string \<Rightarrow> node \<Rightarrow> (string + json) \<times> node" where
  "state_rename env old new_name fs =
     (if \<not> fs_exists fs (abs_components (se_cwd env) old) then (Inl (''State file not found: '' @ old), fs)
      else
        (let new_path = path_join (unwrap_or ''.'' (parent_text old)) (new_name @ ''.json'')
         in case fs_rename (abs_components (se_cwd env) old) (abs_components (se_cwd env) new_path) fs of
              (Inl e, fs1) \<Rightarrow> (Inl (''Failed to rename state: '' @ io_text e), fs1)
            | (Inr u, fs1) \<Rightarrow>
                (Inr (json_obj [(''renamed'', JBool True), (''from'', JStr old), (''to'', JStr new_path)]), fs1)))"

text \<open>The newest saved state of a session; of two files with the same time the first listed wins.\<close>

fun newest_state :: "(string \<Rightarrow> int) \<Rightarrow> string list \<Rightarrow> (string \<times> int) option \<Rightarrow> (string \<times> int) option" where
  "newest_state tm [] best = best"
| "newest_state tm (n # ns) best =
     newest_state tm ns
       (case best of None \<Rightarrow> Some (n, tm n) | Some (b, t) \<Rightarrow> (if t < tm n then Some (n, tm n) else best))"

definition state_time :: "state_env \<Rightarrow> node \<Rightarrow> string \<Rightarrow> int" where
  "state_time env fs name =
     unwrap_or 0 (Option.bind
       (file_metadata (abs_components (se_cwd env) (path_join (get_sessions_dir env) name)) fs)
       (\<lambda>m. se_mtime env (fst m)))"

definition auto_candidates :: "string \<Rightarrow> (string \<times> kind) list \<Rightarrow> string list" where
  "auto_candidates session es = filter (\<lambda>n. starts_with (session @ ''-'') n \<and> is_state_file n) (map fst es)"

definition find_auto_state_file :: "state_env \<Rightarrow> string \<Rightarrow> node \<Rightarrow> string option" where
  "find_auto_state_file env session fs =
     (if \<not> fs_exists fs (sessions_path env) then None
      else case read_sessions env fs of
             Inl e \<Rightarrow> None
           | Inr (d, es) \<Rightarrow>
               map_option (\<lambda>b. path_join (get_sessions_dir env) (fst b))
                 (newest_state (state_time env fs) (auto_candidates session es) None))"

subsection \<open>Routing a command\<close>

definition as_u64 :: "json \<Rightarrow> nat option" where
  "as_u64 j = (case j of JNum (PosInt n) \<Rightarrow> Some n | _ \<Rightarrow> None)"

definition missing :: "string \<Rightarrow> string" where
  "missing k = ''Missing '' @ quoted k @ '' parameter''"

definition dispatch_state_command :: "state_env \<Rightarrow> json \<Rightarrow> node \<Rightarrow> ((string + json) \<times> node) option" where
  "dispatch_state_command env cmd fs =
     (case str_field cmd ''action'' of
        None \<Rightarrow> None
      | Some a \<Rightarrow>
          (if a = ''state_list'' then Some (state_list env fs, fs)
           else if a = ''state_show''
           then Some (and_then (ok_or (missing ''path'') (str_field cmd ''path'')) (\<lambda>p. state_show env p fs), fs)
           else if a = ''state_clear'' then Some (state_clear env (str_field cmd ''path'') fs)
           else if a = ''state_clean''
           then Some (state_clean env (of_nat (unwrap_or 30 (Option.bind (json_get cmd ''days'') as_u64))) fs)
           else if a = ''state_rename''
           then Some (case str_field cmd ''path'' of
                        None \<Rightarrow> (Inl (missing ''path''), fs)
                      | Some p \<Rightarrow>
                          (case str_field cmd ''name'' of
                             None \<Rightarrow> (Inl (missing ''name''), fs)
                           | Some n \<Rightarrow> state_rename env p n fs))
           else None))"

subsection \<open>What deleting touches\<close>


lemma remove_file_stat:
  "stat_at (snd (fs_remove_file (d @ [n]) fs)) q =
     (if q = d @ [n] \<and> stat_at fs q \<noteq> Some KDir then None else stat_at fs q)"
proof (cases "stat_at fs (d @ [n]) = None \<or> stat_at fs (d @ [n]) = Some KDir")
  case True
  then show ?thesis by (auto simp: fs_remove_file_def)
next
  case False
  then have "snd (fs_remove_file (d @ [n]) fs) = remove (d @ [n]) fs"
    by (auto simp: fs_remove_file_def split: option.splits kind.splits)
  moreover from False have "stat_at (remove (d @ [n]) fs) q = (if q = d @ [n] then None else stat_at fs q)"
    by (intro stat_at_remove_leaf) auto
  ultimately show ?thesis using False by auto
qed



lemma read_sessions_exists: "read_sessions env fs = Inr (d, es) \<Longrightarrow> fs_exists fs (sessions_path env)"
  by (auto simp: read_sessions_def and_then_Inr_iff fs_exists_def metadata_of_def fs_read_dir_def stat_at_def
      split: option.splits node.splits)

lemma read_sessions_listed:
  assumes "read_sessions env fs = Inr (d, es)"
  shows "n \<in> set (map fst es) \<longleftrightarrow> stat_at fs (d @ [n]) \<noteq> None"
proof -
  from assms obtain ds where d: "lookup fs d = Some (Dir ds)" and es: "es = map (\<lambda>(n, v). (n, kind_of_node v)) ds"
    by (auto simp: read_sessions_def and_then_Inr_iff fs_read_dir_def split: option.splits node.splits)
  have "stat_at fs (d @ [n]) = map_option kind_of_node (map_of ds n)"
    using d by (auto simp: stat_at_def lookup_append split: option.splits)
  moreover have "map_of ds n \<noteq> None \<longleftrightarrow> n \<in> fst ` set ds" using map_of_eq_None_iff by metis
  moreover have "set (map fst es) = fst ` set ds" by (auto simp: es image_iff case_prod_beta)
  ultimately show ?thesis by auto
qed



subsection \<open>Properties\<close>


text \<open>The parser and the operation disagree on the names of a renaming too: it always fails.\<close>

theorem renaming_always_fails:
  assumes "parse_state_rename u rid rest = Inr j"
  shows "dispatch_state_command env j fs = Some (Inl (missing ''path''), fs)"
  using assms
  by (auto simp: parse_state_rename_def need_Inr Let_def dispatch_state_command_def str_field_def cmd_obj_def
      json_get_obj split: if_splits)

text \<open>The age limit wraps around: from about \<open>2 * 10\<^sup>1\<^sup>4\<close> days on, a larger number of days deletes
  younger files.\<close>

theorem clean_age_wraps:
  "max_age_nanos 213503982334602 < max_age_nanos 1"
  by (simp add: max_age_nanos_def)

subsection \<open>Cleaning by age\<close>

text \<open>The sessions directory is reached through directories only, so that deleting a file in it
  cannot change where it is.\<close>

definition reached_by_dirs :: "state_env \<Rightarrow> node \<Rightarrow> apath \<Rightarrow> bool" where
  "reached_by_dirs env fs d \<longleftrightarrow>
     (\<forall>fs1. (\<forall>q. stat_at fs q = Some KDir \<longrightarrow> stat_at fs1 q = Some KDir) \<longrightarrow> canonicalize fs1 (sessions_path env) = Inr d)"

text \<open>Older than the given days, without the wrap-around.\<close>

definition expired :: "state_env \<Rightarrow> nat \<Rightarrow> apath \<Rightarrow> bool" where
  "expired env days p =
     (case se_mtime env p of
        None \<Rightarrow> False
      | Some t \<Rightarrow> t \<le> se_now env \<and> int days * 86400 * 1000000000 < se_now env - t)"

lemma state_path_components:
  "legal_name n \<Longrightarrow> abs_components (se_cwd env) (path_join (get_sessions_dir env) n) = sessions_path env @ [Normal n]"
proof -
  assume "legal_name n"
  moreover have "ends_in_name (get_sessions_dir env)"
    unfolding get_sessions_dir_def by (rule ends_in_name_join) (simp_all add: legal_name_def slash_def has_nul_def)
  ultimately show ?thesis by (simp add: sessions_path_def abs_components_join)
qed

lemma max_age_exact: "unat days * 86400 < 2 ^ 64 \<Longrightarrow> max_age_nanos days = int (unat days) * 86400 * 1000000000"
proof -
  assume "unat days * 86400 < 2 ^ 64"
  then have "unat (days * 86400) = unat days * 86400" by (simp add: unat_word_ariths)
  then have "uint (days * 86400) = int (unat days * 86400)" by (simp only: uint_nat)
  then show ?thesis by (simp only: max_age_nanos_def of_nat_mult of_nat_numeral)
qed

lemma too_old_file:
  assumes "canonicalize fs (sessions_path env) = Inr d" and "stat_at fs (d @ [n]) = Some (KFile c)"
    and "legal_name n" and "unat days * 86400 < 2 ^ 64"
  shows "too_old env days n fs = expired env (unat days) (d @ [n])"
proof -
  have "canonicalize fs (sessions_path env @ [Normal n]) = Inr (d @ [n])"
    using assms(1-3) by (auto simp: canonicalize_def legal_name_def intro: walk_snoc_file)
  then have "file_metadata (abs_components (se_cwd env) (path_join (get_sessions_dir env) n)) fs = Some (d @ [n], KFile c)"
    using assms(2,3) by (simp add: file_metadata_def state_path_components)
  then show ?thesis by (simp add: too_old_def expired_def max_age_exact [OF assms(4)] split: option.split)
qed

lemma clean_states_effect:
  assumes "clean_states env days d es nk fs = (nk', fs')" and "distinct (map fst es)"
    and "list_all legal_name (map fst es)" and "reached_by_dirs env fs d" and "unat days * 86400 < 2 ^ 64"
  shows "fst nk' + snd nk' = fst nk + snd nk + length (filter is_state_file (map fst es))
    \<and> (\<forall>q. (\<forall>n \<in> set (map fst es). is_state_file n \<longrightarrow> q \<noteq> d @ [n]) \<longrightarrow> stat_at fs' q = stat_at fs q)
    \<and> (\<forall>q. stat_at fs q = Some KDir \<longrightarrow> stat_at fs' q = Some KDir)
    \<and> (\<forall>n \<in> set (map fst es). \<forall>c. is_state_file n \<longrightarrow> stat_at fs (d @ [n]) = Some (KFile c) \<longrightarrow>
         stat_at fs' (d @ [n]) = (if expired env (unat days) (d @ [n]) then None else Some (KFile c)))"
  using assms(1-4)
proof (induction es arbitrary: nk fs)
  case (Cons e es)
  obtain n kd where e: "e = (n, kd)" by (cases e)
  define gone where "gone = (is_state_file n \<and> too_old env days n fs)"
  define fs1 where "fs1 = (if gone then snd (fs_remove_file (d @ [n]) fs) else fs)"
  define nk1 where "nk1 = (if gone then (fst nk + 1, snd nk) else if is_state_file n then (fst nk, snd nk + 1) else nk)"
  have st1: "stat_at fs1 q = (if gone \<and> q = d @ [n] \<and> stat_at fs q \<noteq> Some KDir then None else stat_at fs q)" for q
    by (auto simp: fs1_def remove_file_stat)
  have run: "clean_states env days d es nk1 fs1 = (nk', fs')"
    using Cons.prems(1) by (auto simp: e gone_def fs1_def nk1_def)
  have "reached_by_dirs env fs1 d"
    using Cons.prems(4) by (auto simp: reached_by_dirs_def st1)
  from Cons.IH [OF run _ _ this] Cons.prems(2,3) have ih:
    "fst nk' + snd nk' = fst nk1 + snd nk1 + length (filter is_state_file (map fst es))"
    "\<And>q. (\<forall>n \<in> set (map fst es). is_state_file n \<longrightarrow> q \<noteq> d @ [n]) \<Longrightarrow> stat_at fs' q = stat_at fs1 q"
    "\<And>q. stat_at fs1 q = Some KDir \<Longrightarrow> stat_at fs' q = Some KDir"
    "\<And>m c. m \<in> set (map fst es) \<Longrightarrow> is_state_file m \<Longrightarrow> stat_at fs1 (d @ [m]) = Some (KFile c) \<Longrightarrow>
       stat_at fs' (d @ [m]) = (if expired env (unat days) (d @ [m]) then None else Some (KFile c))"
    by auto
  have n: "n \<notin> set (map fst es)" "legal_name n" using Cons.prems(2,3) by (simp_all add: e)
  have canon: "canonicalize fs (sessions_path env) = Inr d" using Cons.prems(4) by (auto simp: reached_by_dirs_def)
  have head: "stat_at fs' (d @ [n]) = (if expired env (unat days) (d @ [n]) then None else Some (KFile c))"
    if "is_state_file n" "stat_at fs (d @ [n]) = Some (KFile c)" for c
  proof -
    have "stat_at fs' (d @ [n]) = stat_at fs1 (d @ [n])" using n(1) by (intro ih(2)) auto
    with that too_old_file [OF canon that(2) n(2) assms(5)] show ?thesis by (auto simp: st1 gone_def)
  qed
  have tail: "stat_at fs' (d @ [m]) = (if expired env (unat days) (d @ [m]) then None else Some (KFile c))"
    if "m \<in> set (map fst es)" "is_state_file m" "stat_at fs (d @ [m]) = Some (KFile c)" for m c
  proof -
    have "m \<noteq> n" using that(1) n(1) by auto
    then have "stat_at fs1 (d @ [m]) = Some (KFile c)" using that(3) by (simp add: st1)
    then show ?thesis by (rule ih(4) [OF that(1,2)])
  qed
  have sum: "fst nk' + snd nk' = fst nk + snd nk + length (filter is_state_file (map fst (e # es)))"
    using ih(1) by (auto simp: nk1_def e gone_def)
  have "\<forall>q. (\<forall>m \<in> set (map fst (e # es)). is_state_file m \<longrightarrow> q \<noteq> d @ [m]) \<longrightarrow> stat_at fs' q = stat_at fs q"
    using ih(2) by (auto simp: e st1 gone_def)
  moreover have "\<forall>q. stat_at fs q = Some KDir \<longrightarrow> stat_at fs' q = Some KDir"
    using ih(3) by (auto simp: st1)
  ultimately show ?case using sum head tail by (simp add: e)
qed simp

lemma read_sessions_wf:
  assumes "read_sessions env fs = Inr (d, es)" and "fs_wf fs"
  shows "distinct (map fst es)" and "list_all legal_name (map fst es)"
proof -
  from assms(1) obtain ds where d: "lookup fs d = Some (Dir ds)" and es: "es = map (\<lambda>(n, v). (n, kind_of_node v)) ds"
    by (auto simp: read_sessions_def and_then_Inr_iff fs_read_dir_def split: option.splits node.splits)
  have m: "map fst es = map fst ds" by (auto simp: es case_prod_beta)
  from fs_wf_lookup [OF assms(2) d] show "distinct (map fst es)" "list_all legal_name (map fst es)"
    unfolding m by (auto simp: list_all_iff)
qed

text \<open>C25: Cleaning with an age limit that does not overflow deletes exactly the expired states:
  a saved state in the sessions directory is gone if and only if it was modified more than the
  given days ago, every directory and everything that is not named like a state there stays,
  and the two counts of the answer add up to the number of entries named like states.\<close>

theorem cleaning_deletes_expired_states:
  assumes "read_sessions env fs = Inr (d, es)" and "fs_wf fs" and "reached_by_dirs env fs d"
    and "unat days * 86400 < 2 ^ 64"
  shows "\<exists>n k fs'. state_clean env days fs = (Inr (cleaned_json days (n, k)), fs')
    \<and> n + k = length (filter is_state_file (map fst es))
    \<and> (\<forall>x c. is_state_file x \<longrightarrow> stat_at fs (d @ [x]) = Some (KFile c) \<longrightarrow>
         stat_at fs' (d @ [x]) = (if expired env (unat days) (d @ [x]) then None else Some (KFile c)))
    \<and> (\<forall>q. stat_at fs q = Some KDir \<or> (\<forall>x. is_state_file x \<longrightarrow> q \<noteq> d @ [x]) \<longrightarrow> stat_at fs' q = stat_at fs q)"
proof -
  obtain n k fs' where c: "clean_states env days d es (0, 0) fs = ((n, k), fs')" by (metis prod.exhaust)
  note ef = clean_states_effect [OF c read_sessions_wf [OF assms(1,2)] assms(3,4)]
  have "state_clean env days fs = (Inr (cleaned_json days (n, k)), fs')"
    using assms(1) read_sessions_exists [OF assms(1)] c by (simp add: state_clean_def)
  moreover have "\<forall>x c. is_state_file x \<longrightarrow> stat_at fs (d @ [x]) = Some (KFile c) \<longrightarrow>
      stat_at fs' (d @ [x]) = (if expired env (unat days) (d @ [x]) then None else Some (KFile c))"
    using ef read_sessions_listed [OF assms(1)] by fastforce
  moreover have "\<forall>q. stat_at fs q = Some KDir \<or> (\<forall>x. is_state_file x \<longrightarrow> q \<noteq> d @ [x]) \<longrightarrow> stat_at fs' q = stat_at fs q"
    using ef by metis
  moreover have "n + k = length (filter is_state_file (map fst es))" using ef by simp
  ultimately show ?thesis by blast
qed

subsection \<open>An example\<close>

definition sample_states :: node where
  "sample_states =
     Dir [(''h'', Dir [(''.agent-browser'', Dir [(''sessions'',
       Dir [(''a.json'', RegFile ''{}''), (''b.json'', RegFile ''{}''), (''keep.txt'', RegFile ''k'')])])])]"

definition sample_dir :: apath where
  "sample_dir = [''h'', ''.agent-browser'', ''sessions'']"

text \<open>The state \<open>b\<close> was saved three days after \<open>a\<close>, a day before now.\<close>

definition sample_state_env :: state_env where
  "sample_state_env =
     \<lparr>se_home = Some ''/h'', se_tmp = ''/tmp'', se_cwd = [], se_now = 345600000000000,
      se_mtime = (\<lambda>p. Some (if last p = ''b.json'' then 259200000000000 else 0)), se_dir_len = 0, se_key = None,
      se_seal = (\<lambda>k n d. Inr d), se_open = (\<lambda>k n d. Inr d), se_utf8_error = (\<lambda>t. []),
      se_decode = (\<lambda>t. Inl ''invalid'')\<rparr>"

lemma sample_sessions_path: "sessions_path sample_state_env = RootDir # RootDir # map Normal sample_dir"
  by code_simp

lemma sample_reached: "reached_by_dirs sample_state_env sample_states sample_dir"
  unfolding reached_by_dirs_def
proof (intro allI impI)
  fix fs1 assume dirs: "\<forall>q. stat_at sample_states q = Some KDir \<longrightarrow> stat_at fs1 q = Some KDir"
  have "stat_at sample_states sample_dir = Some KDir" "stat_at sample_states [] = Some KDir" by code_simp+
  with dirs have "canonicalize fs1 (RootDir # map Normal sample_dir) = Inr sample_dir"
    by (intro canonicalize_self) (simp_all add: sample_dir_def has_nul_def)
  then show "canonicalize fs1 (sessions_path sample_state_env) = Inr sample_dir"
    by (simp add: sample_sessions_path canonicalize_def)
qed

lemma sample_read:
  "read_sessions sample_state_env sample_states =
     Inr (sample_dir, [(''a.json'', KFile ''{}''), (''b.json'', KFile ''{}''), (''keep.txt'', KFile ''k'')])"
proof -
  have "canonicalize sample_states (sessions_path sample_state_env) = Inr sample_dir"
    using sample_reached by (simp add: reached_by_dirs_def)
  moreover have "fs_read_dir sample_dir sample_states =
      Inr [(''a.json'', KFile ''{}''), (''b.json'', KFile ''{}''), (''keep.txt'', KFile ''k'')]" by code_simp
  ultimately show ?thesis by (simp add: read_sessions_def)
qed


theorem cleaning_deletes_expired_states_witness:
  "\<exists>r fs'. state_clean sample_state_env 2 sample_states = (r, fs')
     \<and> stat_at fs' (sample_dir @ [''a.json'']) = None
     \<and> stat_at fs' (sample_dir @ [''b.json'']) = Some (KFile ''{}'')"
proof -
  have "fs_wf sample_states" by code_simp
  from cleaning_deletes_expired_states [OF sample_read this sample_reached, of 2]
  obtain r fs' where r: "state_clean sample_state_env 2 sample_states = (r, fs')"
    and st: "\<And>x c. is_state_file x \<Longrightarrow> stat_at sample_states (sample_dir @ [x]) = Some (KFile c) \<Longrightarrow>
       stat_at fs' (sample_dir @ [x]) = (if expired sample_state_env 2 (sample_dir @ [x]) then None else Some (KFile c))"
    by auto
  have "is_state_file ''a.json''" "is_state_file ''b.json''"
    "stat_at sample_states (sample_dir @ [''a.json'']) = Some (KFile ''{}'')"
    "stat_at sample_states (sample_dir @ [''b.json'']) = Some (KFile ''{}'')" by code_simp+
  moreover have "expired sample_state_env 2 (sample_dir @ [''a.json''])"
    "\<not> expired sample_state_env 2 (sample_dir @ [''b.json''])"
    by (simp_all add: expired_def sample_state_env_def)
  ultimately have "stat_at fs' (sample_dir @ [''a.json'']) = None"
    "stat_at fs' (sample_dir @ [''b.json'']) = Some (KFile ''{}'')"
    using st by auto
  with r show ?thesis by blast
qed

end
