(* ===== verification/Event_Bus.thy ===== *)
theory Event_Bus
  imports Protocol
begin

section \<open>The event bus\<close>

text \<open>
  \<open>reshape-core/src/bus.rs\<close>: an \<open>InProcessBus\<close> is the sending ends of two bounded channels,
  one for inputs and one for outputs; their receiving ends are handed to the creator. A bounded
  \<open>mpsc\<close> channel of the runtime library keeps at most \<open>capacity\<close> values; a sender that finds it
  full waits, the waiting senders are served in the order of their arrival, and when the
  receiver is dropped the stored values are lost and every waiting or later send fails. The
  locale \<open>fifo_channel\<close> states what a publisher may rely on; the bus is proved from it.
\<close>

subsection \<open>Bounded channels\<close>

record 'e channel =
  ch_capacity :: nat
  ch_buffer :: "'e list"
  ch_waiting :: "'e list"
  ch_receiver :: bool

text \<open>\<open>mpsc::channel\<close> panics on a capacity of zero.\<close>

definition channel_new :: "nat \<Rightarrow> 'e channel option" where
  "channel_new capacity =
     (if capacity = 0 then None
      else Some \<lparr>ch_capacity = capacity, ch_buffer = [], ch_waiting = [], ch_receiver = True\<rparr>)"

datatype send_outcome = Sent | Waits | Closed

definition send :: "'e \<Rightarrow> 'e channel \<Rightarrow> send_outcome \<times> 'e channel" where
  "send e ch =
     (if \<not> ch_receiver ch then (Closed, ch)
      else if ch_waiting ch = [] \<and> length (ch_buffer ch) < ch_capacity ch
      then (Sent, ch\<lparr>ch_buffer := ch_buffer ch @ [e]\<rparr>)
      else (Waits, ch\<lparr>ch_waiting := ch_waiting ch @ [e]\<rparr>))"

text \<open>Taking a value makes room for the first sender that waits.\<close>

definition recv :: "'e channel \<Rightarrow> 'e option \<times> 'e channel" where
  "recv ch =
     (case ch_buffer ch of
        [] \<Rightarrow> (None, ch)
      | e # es \<Rightarrow>
          (Some e, ch\<lparr>ch_buffer := es @ take 1 (ch_waiting ch), ch_waiting := drop 1 (ch_waiting ch)\<rparr>))"

definition drop_receiver :: "'e channel \<Rightarrow> 'e channel" where
  "drop_receiver ch = ch\<lparr>ch_buffer := [], ch_waiting := [], ch_receiver := False\<rparr>"

definition held :: "'e channel \<Rightarrow> 'e list" where
  "held ch = ch_buffer ch @ ch_waiting ch"

definition channel_ok :: "'e channel \<Rightarrow> bool" where
  "channel_ok ch \<longleftrightarrow> 0 < ch_capacity ch \<and> length (ch_buffer ch) \<le> ch_capacity ch
     \<and> (ch_waiting ch \<noteq> [] \<longrightarrow> length (ch_buffer ch) = ch_capacity ch)
     \<and> (\<not> ch_receiver ch \<longrightarrow> held ch = [])"

subsection \<open>The bus\<close>

record bus =
  inbound :: "input_event envelope channel"
  outbound :: "output_event envelope channel"

definition bus_new :: "nat \<Rightarrow> bus option" where
  "bus_new capacity =
     Option.bind (channel_new capacity) (\<lambda>i. Option.bind (channel_new capacity)
       (\<lambda>out. Some \<lparr>inbound = i, outbound = out\<rparr>))"

text \<open>What \<open>publish_*\<close> gives back; \<open>None\<close> while the publisher waits for room.\<close>

definition published :: "send_outcome \<Rightarrow> unit result option" where
  "published r =
     (case r of Sent \<Rightarrow> Some (Inr ()) | Waits \<Rightarrow> None
      | Closed \<Rightarrow> Some (Inl (Io (BrokenPipe ''channel closed''))))"

definition publish_inbound :: "input_event envelope \<Rightarrow> bus \<Rightarrow> unit result option \<times> bus" where
  "publish_inbound e b = (case send e (inbound b) of (r, ch) \<Rightarrow> (published r, b\<lparr>inbound := ch\<rparr>))"

definition publish_outbound :: "output_event envelope \<Rightarrow> bus \<Rightarrow> unit result option \<times> bus" where
  "publish_outbound e b = (case send e (outbound b) of (r, ch) \<Rightarrow> (published r, b\<lparr>outbound := ch\<rparr>))"

text \<open>What publishers and the holders of the two receivers do, in the order it happens.\<close>

datatype bus_op =
    PublishIn "input_event envelope"
  | PublishOut "output_event envelope"
  | TakeIn
  | TakeOut
  | DropIn
  | DropOut

record bus_run =
  the_bus :: bus
  got_in :: "input_event envelope list"
  got_out :: "output_event envelope list"

fun bus_step :: "bus_op \<Rightarrow> bus_run \<Rightarrow> bus_run" where
  "bus_step (PublishIn e) r = r\<lparr>the_bus := snd (publish_inbound e (the_bus r))\<rparr>"
| "bus_step (PublishOut e) r = r\<lparr>the_bus := snd (publish_outbound e (the_bus r))\<rparr>"
| "bus_step TakeIn r =
     (case recv (inbound (the_bus r)) of
        (v, ch) \<Rightarrow> r\<lparr>the_bus := (the_bus r)\<lparr>inbound := ch\<rparr>, got_in := got_in r @ (case v of None \<Rightarrow> [] | Some e \<Rightarrow> [e])\<rparr>)"
| "bus_step TakeOut r =
     (case recv (outbound (the_bus r)) of
        (v, ch) \<Rightarrow> r\<lparr>the_bus := (the_bus r)\<lparr>outbound := ch\<rparr>, got_out := got_out r @ (case v of None \<Rightarrow> [] | Some e \<Rightarrow> [e])\<rparr>)"
| "bus_step DropIn r = r\<lparr>the_bus := (the_bus r)\<lparr>inbound := drop_receiver (inbound (the_bus r))\<rparr>\<rparr>"
| "bus_step DropOut r = r\<lparr>the_bus := (the_bus r)\<lparr>outbound := drop_receiver (outbound (the_bus r))\<rparr>\<rparr>"

definition bus_start :: "bus \<Rightarrow> bus_run" where
  "bus_start b = \<lparr>the_bus = b, got_in = [], got_out = []\<rparr>"

subsection \<open>First in, first out\<close>

text \<open>A channel as its users see it: \<open>put\<close> and \<open>get\<close> on a state that still owes the values
  \<open>owed\<close>. A client that puts and gets in any order receives what was put, in that order.\<close>

datatype 'e channel_op = Put 'e | Get

fun put_values :: "'e channel_op list \<Rightarrow> 'e list" where
  "put_values [] = []"
| "put_values (Put e # ops) = e # put_values ops"
| "put_values (Get # ops) = put_values ops"

fun use_channel :: "('e \<Rightarrow> 's \<Rightarrow> 's) \<Rightarrow> ('s \<Rightarrow> 'e option \<times> 's) \<Rightarrow> 'e channel_op list \<Rightarrow> 's \<Rightarrow> 'e list \<times> 's" where
  "use_channel put get [] s = ([], s)"
| "use_channel put get (Put e # ops) s = use_channel put get ops (put e s)"
| "use_channel put get (Get # ops) s =
     (case get s of
        (None, t) \<Rightarrow> use_channel put get ops t
      | (Some e, t) \<Rightarrow> apfst (Cons e) (use_channel put get ops t))"

locale fifo_channel =
  fixes put :: "'e \<Rightarrow> 's \<Rightarrow> 's" and get :: "'s \<Rightarrow> 'e option \<times> 's"
    and owed :: "'s \<Rightarrow> 'e list" and ok :: "'s \<Rightarrow> bool"
  assumes put_ok: "ok s \<Longrightarrow> ok (put e s)"
    and put_owed: "ok s \<Longrightarrow> owed (put e s) = owed s @ [e]"
    and get_ok: "ok s \<Longrightarrow> ok (snd (get s))"
    and get_owed: "ok s \<Longrightarrow>
      owed s = (case fst (get s) of None \<Rightarrow> [] | Some e \<Rightarrow> [e]) @ owed (snd (get s))"
    and get_some: "ok s \<Longrightarrow> owed s \<noteq> [] \<Longrightarrow> fst (get s) \<noteq> None"
begin

lemma delivers_in_order:
  "ok s \<Longrightarrow> use_channel put get ops s = (got, t) \<Longrightarrow> ok t \<and> got @ owed t = owed s @ put_values ops"
proof (induction ops arbitrary: s got)
  case (Cons x ops)
  show ?case
  proof (cases x)
    case (Put e)
    with Cons.prems Cons.IH [OF put_ok [OF Cons.prems(1)], of e got] show ?thesis by (simp add: put_owed)
  next
    case Get
    obtain r u where g: "get s = (r, u)" by (cases "get s")
    with get_ok [OF Cons.prems(1)] get_owed [OF Cons.prems(1)] Cons Get show ?thesis
      by (cases r) (auto simp: apfst_def map_prod_def split: prod.splits)
  qed
qed simp

lemma all_are_delivered:
  "ok s \<Longrightarrow> length (owed s) \<le> n \<Longrightarrow> owed (snd (use_channel put get (replicate n Get) s)) = []"
proof (induction n arbitrary: s)
  case (Suc n)
  obtain r u where g: "get s = (r, u)" by (cases "get s")
  note u = get_ok [OF Suc(2)] get_owed [OF Suc(2)] get_some [OF Suc(2)]
  have "length (owed u) \<le> n" using u Suc.prems g by (cases r; cases "owed u") auto
  with Suc.IH [of u] u g show ?case
    by (cases r) (auto simp: apfst_def map_prod_def split_beta)
qed simp

lemma put_values_gets: "put_values (replicate n Get) = []"
  by (induction n) simp_all

lemma all_taken:
  assumes "ok s" shows "fst (use_channel put get (replicate (length (owed s)) Get) s) = owed s"
proof -
  let ?g = "replicate (length (owed s)) Get"
  have "put_values ?g = []" by (rule put_values_gets)
  with delivers_in_order [OF assms, of ?g] all_are_delivered [OF assms order_refl] show ?thesis
    by (cases "use_channel put get ?g s") auto
qed

end

definition open_channel :: "'e channel \<Rightarrow> bool" where
  "open_channel ch \<longleftrightarrow> channel_ok ch \<and> ch_receiver ch"

interpretation bounded: fifo_channel "\<lambda>e ch. snd (send e ch)" recv held open_channel
  by unfold_locales
    (auto simp: open_channel_def channel_ok_def send_def recv_def held_def split: list.splits)

lemma channel_new_ok: "channel_new n = Some ch \<Longrightarrow> open_channel ch \<and> held ch = []"
  by (auto simp: channel_new_def open_channel_def channel_ok_def held_def split: if_splits)

subsection \<open>The bus as two channels\<close>

text \<open>The operations of each direction; the other direction does not touch its channel.\<close>

fun in_ops :: "bus_op list \<Rightarrow> input_event envelope channel_op list" where
  "in_ops [] = []"
| "in_ops (PublishIn e # ops) = Put e # in_ops ops"
| "in_ops (TakeIn # ops) = Get # in_ops ops"
| "in_ops (_ # ops) = in_ops ops"

fun out_ops :: "bus_op list \<Rightarrow> output_event envelope channel_op list" where
  "out_ops [] = []"
| "out_ops (PublishOut e # ops) = Put e # out_ops ops"
| "out_ops (TakeOut # ops) = Get # out_ops ops"
| "out_ops (_ # ops) = out_ops ops"

definition receivers_kept :: "bus_op list \<Rightarrow> bool" where
  "receivers_kept ops \<longleftrightarrow> DropIn \<notin> set ops \<and> DropOut \<notin> set ops"

lemma inbound_run:
  "receivers_kept ops \<Longrightarrow>
   use_channel (\<lambda>e ch. snd (send e ch)) recv (in_ops ops) (inbound (the_bus r)) = (got, ch) \<Longrightarrow>
   got_in (fold bus_step ops r) = got_in r @ got \<and> inbound (the_bus (fold bus_step ops r)) = ch"
proof (induction ops arbitrary: r got rule: in_ops.induct)
  case (3 ops)
  then show ?case
    by (cases "recv (inbound (the_bus r))")
       (auto simp: receivers_kept_def apfst_def map_prod_def split: option.splits prod.splits)
qed (auto simp: receivers_kept_def publish_inbound_def publish_outbound_def split: prod.splits)

lemma outbound_run:
  "receivers_kept ops \<Longrightarrow>
   use_channel (\<lambda>e ch. snd (send e ch)) recv (out_ops ops) (outbound (the_bus r)) = (got, ch) \<Longrightarrow>
   got_out (fold bus_step ops r) = got_out r @ got \<and> outbound (the_bus (fold bus_step ops r)) = ch"
proof (induction ops arbitrary: r got rule: out_ops.induct)
  case (3 ops)
  then show ?case
    by (cases "recv (outbound (the_bus r))")
       (auto simp: receivers_kept_def apfst_def map_prod_def split: option.splits prod.splits)
qed (auto simp: receivers_kept_def publish_inbound_def publish_outbound_def split: prod.splits)

text \<open>Whatever publishers and receivers do, in any order, the inputs taken from the bus are
  the published inputs in the order of publication, with none lost or doubled, and the same for
  the outputs; the two directions do not disturb each other. At most \<open>capacity\<close> values are
  stored, a publisher waits only while that many are stored, and the rest is delivered by as many
  further takes as there are values left.\<close>

theorem bus_delivers_in_order:
  assumes "bus_new capacity = Some b" and "receivers_kept ops"
  shows "let r = fold bus_step ops (bus_start b); i = inbound (the_bus r); u = outbound (the_bus r) in
     got_in r @ held i = put_values (in_ops ops) \<and> got_out r @ held u = put_values (out_ops ops)
     \<and> channel_ok i \<and> channel_ok u
     \<and> fst (use_channel (\<lambda>e ch. snd (send e ch)) recv (replicate (length (held i)) Get) i) = held i
     \<and> fst (use_channel (\<lambda>e ch. snd (send e ch)) recv (replicate (length (held u)) Get) u) = held u"
proof -
  let ?r = "fold bus_step ops (bus_start b)"
  have n: "open_channel (inbound b)" "held (inbound b) = []" "open_channel (outbound b)" "held (outbound b) = []"
    using assms(1) by (auto simp: bus_new_def bind_eq_Some_conv dest: channel_new_ok)
  have i: "got_in ?r @ held (inbound (the_bus ?r)) = put_values (in_ops ops) \<and> open_channel (inbound (the_bus ?r))"
    using inbound_run [OF assms(2), of "bus_start b"] bounded.delivers_in_order [OF n(1), of "in_ops ops"] n(2)
    by (cases "use_channel (\<lambda>e ch. snd (send e ch)) recv (in_ops ops) (inbound b)") (auto simp: bus_start_def)
  have u: "got_out ?r @ held (outbound (the_bus ?r)) = put_values (out_ops ops) \<and> open_channel (outbound (the_bus ?r))"
    using outbound_run [OF assms(2), of "bus_start b"] bounded.delivers_in_order [OF n(3), of "out_ops ops"] n(4)
    by (cases "use_channel (\<lambda>e ch. snd (send e ch)) recv (out_ops ops) (outbound b)") (auto simp: bus_start_def)
  from i u show ?thesis by (simp add: Let_def open_channel_def bounded.all_taken)
qed

text \<open>Once a receiver is gone, publishing in its direction fails with a broken pipe, for good.\<close>

lemma closed_stays_closed:
  "\<not> ch_receiver (inbound (the_bus r)) \<Longrightarrow> \<not> ch_receiver (inbound (the_bus (fold bus_step ops r)))"
proof (induction ops arbitrary: r)
  case (Cons x ops)
  have "\<not> ch_receiver (inbound (the_bus (bus_step x r)))"
    using Cons.prems by (cases x) (auto simp: publish_inbound_def publish_outbound_def send_def recv_def
        drop_receiver_def split: prod.splits list.splits)
  with Cons.IH show ?case by simp
qed simp

theorem publish_after_drop_fails:
  "fst (publish_inbound e (the_bus (fold bus_step (ops @ DropIn # ops') (bus_start b))))
   = Some (Inl (Io (BrokenPipe ''channel closed'')))"
proof -
  let ?r = "bus_step DropIn (fold bus_step ops (bus_start b))"
  have "\<not> ch_receiver (inbound (the_bus (fold bus_step ops' ?r)))"
    by (rule closed_stays_closed) (simp add: drop_receiver_def)
  then show ?thesis by (simp add: publish_inbound_def send_def published_def)
qed

definition sample_input :: "string \<Rightarrow> input_event envelope" where
  "sample_input s = envelope_new (''m'', ''t'', 0) (UserText s WebSocket)"

definition sample_bus :: bus where
  "sample_bus =
     \<lparr>inbound = \<lparr>ch_capacity = 1, ch_buffer = [], ch_waiting = [], ch_receiver = True\<rparr>,
      outbound = \<lparr>ch_capacity = 1, ch_buffer = [], ch_waiting = [], ch_receiver = True\<rparr>\<rparr>"

theorem bus_delivers_in_order_witness:
  "let r = fold bus_step [PublishIn (sample_input ''a''), PublishIn (sample_input ''b''), TakeIn] (bus_start sample_bus)
   in got_in r @ held (inbound (the_bus r)) = [sample_input ''a'', sample_input ''b'']"
proof -
  have "bus_new 1 = Some sample_bus" by (simp add: bus_new_def channel_new_def sample_bus_def)
  from bus_delivers_in_order [OF this, of "[PublishIn (sample_input ''a''), PublishIn (sample_input ''b''), TakeIn]"]
  show ?thesis by (simp add: Let_def receivers_kept_def)
qed

end
