(* ===== verification/File_Laws.thy ===== *)
theory File_Laws
  imports Cli_Config Session_Store
begin

section \<open>Laws of files shared by the daemon's components\<close>

text \<open>
  Lemmas about the file tree that saved credentials and the files of running daemons share: the
  components of a joined path, what a successful write does and what can be read afterwards, and
  how a name in a directory resolves.
\<close>

subsection \<open>Joined paths\<close>

lemma os_components_join:
  assumes "a \<noteq> []" "last a \<noteq> slash" "slash \<notin> set n" "n \<notin> {[], ''.'', ''..''}"
  shows "os_components (path_join a n) = os_components a @ [Normal n]"
proof -
  have n: "\<not> is_absolute n" "last n \<noteq> slash"
  proof -
    obtain c m where c: "n = c # m" using assms(4) by (cases n) simp_all
    with assms(3) have "c \<noteq> slash" by auto
    with c show "\<not> is_absolute n" by (simp add: is_absolute_def starts_with_def slash_def)
    have "last n \<in> set n" using c by simp
    with assms(3) show "last n \<noteq> slash" by metis
  qed
  then have p: "path_join a n = a @ slash # n" using assms(1,2) by (simp add: path_join_def slash_def)
  have abs: "is_absolute (a @ slash # n) = is_absolute a"
    using assms(1) by (cases a) (simp_all add: is_absolute_def starts_with_def)
  from assms n(2) show ?thesis
    by (simp add: p os_components_def abs split_on_append split_on_fresh last_append)
qed

subsection \<open>Writing a file and reading it back\<close>

text \<open>A path that resolves keeps doing so when a file is written elsewhere, and a path that was written
  resolves to what was written.\<close>

lemma walk_after_write:
  assumes "walk cr fs k cur cs = Inr q" and "cr \<longrightarrow> q = p"
    and "stat_at fs p = None \<or> (\<exists>c. stat_at fs p = Some (KFile c))"
    and "\<And>r. stat_at fs' r = (if r = p then Some (KFile c) else stat_at fs r)"
  shows "walk False fs' k cur cs = Inr q"
  using assms
proof (induction cr fs k cur cs rule: walk.induct)
  case (5 cr fs k cur x cs)
  show ?case
  proof (cases "stat_at fs (cur @ [x])")
    case None
    with 5 show ?thesis by (auto split: if_splits)
  next
    case (Some kd)
    with 5 show ?thesis by (cases kd) (auto split: if_splits nat.splits)
  qed
qed auto

definition written :: "node \<Rightarrow> apath \<Rightarrow> string \<Rightarrow> node \<Rightarrow> bool" where
  "written fs p c fs' \<longleftrightarrow>
     (stat_at fs p = None \<or> (\<exists>d. stat_at fs p = Some (KFile d)))
     \<and> (\<forall>q. stat_at fs' q = (if q = p then Some (KFile c) else stat_at fs q))"

lemma file_write_effect:
  assumes "fs_write cs c fs = (Inr u, fs')" and root: "stat_at fs [] = Some KDir"
  shows "\<exists>p. canonicalize fs' cs = Inr p \<and> written fs p c fs'"
proof -
  from assms(1) obtain p where w: "walk True fs max_links [] cs = Inr p" and nd: "stat_at fs p \<noteq> Some KDir"
      and fs': "fs' = put p (RegFile c) fs"
    by (auto simp: fs_write_def split: sum.splits if_splits)
  from walk_real [OF w root] nd have free: "stat_at fs p = None \<or> (\<exists>d. stat_at fs p = Some (KFile d))" by auto
  have "\<exists>d x. p = d @ [x] \<and> stat_at fs d = Some KDir"
  proof (cases "stat_at fs p")
    case None
    with walk_real [OF w root] show ?thesis by auto
  next
    case (Some kd)
    with nd root obtain d x where p: "p = d @ [x]" by (cases p rule: rev_cases) auto
    with Some show ?thesis using stat_at_parent [of fs d x "[]"] by auto
  qed
  then obtain d x where p: "p = d @ [x]" "stat_at fs d = Some KDir" by blast
  have st: "stat_at fs' q = (if q = p then Some (KFile c) else stat_at fs q)" for q
    using stat_at_put_file [OF p(2), of x c q] nd by (simp add: fs' p(1))
  have "canonicalize fs' cs = Inr p"
    unfolding canonicalize_def by (rule walk_after_write [OF w _ free st]) simp
  with free st show ?thesis by (auto simp: written_def)
qed

lemma written_root: "written fs p c fs' \<Longrightarrow> stat_at fs [] = Some KDir \<Longrightarrow> stat_at fs' [] = Some KDir"
  by (auto simp: written_def)

lemma written_read:
  assumes "canonicalize fs' cs = Inr p" and "written fs p c fs'"
  shows "fs_exists fs' cs" and "fs_read cs fs' = Inr c"
  using assms by (simp_all add: fs_exists_def metadata_of_def fs_read_def written_def)

lemma written_other:
  assumes "written fs p c fs'" and "canonicalize fs cs = Inr q" and "q \<noteq> p"
  shows "canonicalize fs' cs = Inr q" and "fs_exists fs' cs = fs_exists fs cs" and "fs_read cs fs' = fs_read cs fs"
proof -
  show c: "canonicalize fs' cs = Inr q"
    using assms unfolding canonicalize_def by (intro walk_after_write [where p = p and c = c]) (auto simp: written_def)
  show "fs_exists fs' cs = fs_exists fs cs" "fs_read cs fs' = fs_read cs fs"
    using assms c by (simp_all add: fs_exists_def metadata_of_def fs_read_def written_def)
qed

lemma create_dir_all_root: "create_dir_all cs fs = (r, fs') \<Longrightarrow> stat_at fs [] = Some KDir \<Longrightarrow> stat_at fs' [] = Some KDir"
  using create_dir_all_only_new_dirs only_new_dirs_root by blast

subsection \<open>Names in a directory\<close>

text \<open>A directory that is reached through directories only, whatever happens to other files.\<close>

definition by_dirs :: "pcomp list \<Rightarrow> node \<Rightarrow> apath \<Rightarrow> bool" where
  "by_dirs cs fs d \<longleftrightarrow>
     stat_at fs d = Some KDir
     \<and> (\<forall>fs1. (\<forall>q. stat_at fs q = Some KDir \<longrightarrow> stat_at fs1 q = Some KDir) \<longrightarrow> canonicalize fs1 cs = Inr d)"

lemma by_dirs_here: "by_dirs cs fs d \<Longrightarrow> canonicalize fs cs = Inr d \<and> stat_at fs d = Some KDir"
  by (simp add: by_dirs_def)

lemma by_dirs_keep:
  "by_dirs cs fs d \<Longrightarrow> (\<And>q. stat_at fs q = Some KDir \<Longrightarrow> stat_at fs1 q = Some KDir) \<Longrightarrow> by_dirs cs fs1 d"
  by (auto simp: by_dirs_def)

lemma entry_of_name:
  assumes "canonicalize fs cs = Inr d" "stat_at fs d = Some KDir" "\<not> has_nul x"
  shows "entry_of fs (cs @ [Normal x]) = Inr (d @ [x])"
  using assms by (simp add: entry_of_def)

lemma walk_snoc_name:
  assumes "walk False fs k cur cs = Inr d" and "stat_at fs d = Some KDir" and "\<not> has_nul x"
    and "\<And>t. stat_at fs (d @ [x]) \<noteq> Some (KLink t)"
  shows "walk False fs k cur (cs @ [Normal x]) =
    (case stat_at fs (d @ [x]) of None \<Rightarrow> Inl NotFound | Some kd \<Rightarrow> Inr (d @ [x]))"
  using assms
proof (induction False fs k cur cs rule: walk.induct)
  case (1 fs k cur)
  then show ?case by (auto split: option.splits kind.splits)
next
  case (5 fs k cur y cs)
  from 5(3) obtain kd where kd: "stat_at fs (cur @ [y]) = Some kd"
    by (auto split: if_splits option.splits)
  show ?case
  proof (cases kd)
    case (KFile c)
    with 5(3,4) kd show ?thesis by (auto split: if_splits)
  qed (use 5 kd in \<open>auto split: if_splits nat.splits\<close>)
qed auto

lemma read_name_iff:
  assumes d: "canonicalize fs cs = Inr d" "stat_at fs d = Some KDir" and x: "\<not> has_nul x"
    and plain: "\<And>t. stat_at fs (d @ [x]) \<noteq> Some (KLink t)"
  shows "fs_read_to_string (cs @ [Normal x]) fs = Inr c \<longleftrightarrow> stat_at fs (d @ [x]) = Some (KFile c) \<and> valid_utf8 c"
    and "fs_exists fs (cs @ [Normal x]) \<longleftrightarrow> stat_at fs (d @ [x]) \<noteq> None"
proof -
  have w: "walk False fs max_links [] (cs @ [Normal x]) =
      (case stat_at fs (d @ [x]) of None \<Rightarrow> Inl NotFound | Some kd \<Rightarrow> Inr (d @ [x]))"
    using d x plain by (intro walk_snoc_name) (simp_all add: canonicalize_def)
  show "fs_read_to_string (cs @ [Normal x]) fs = Inr c \<longleftrightarrow> stat_at fs (d @ [x]) = Some (KFile c) \<and> valid_utf8 c"
    using w by (auto simp: fs_read_to_string_def fs_read_def canonicalize_def and_then_Inr_iff split: option.splits kind.splits)
  show "fs_exists fs (cs @ [Normal x]) \<longleftrightarrow> stat_at fs (d @ [x]) \<noteq> None"
    using w by (auto simp: fs_exists_def metadata_of_def canonicalize_def ok_or_def split: option.splits)
qed

text \<open>Removing a name takes that entry away, unless it is a directory, and nothing else.\<close>

lemma remove_file_at:
  "stat_at (snd (fs_remove_file (d @ [n]) fs)) q =
     (if q = d @ [n] \<and> stat_at fs q \<noteq> Some KDir then None else stat_at fs q)"
proof (cases "stat_at fs (d @ [n]) = None \<or> stat_at fs (d @ [n]) = Some KDir")
  case True
  then show ?thesis by (auto simp: fs_remove_file_def)
next
  case False
  then have "snd (fs_remove_file (d @ [n]) fs) = remove (d @ [n]) fs"
    by (auto simp: fs_remove_file_def split: option.splits kind.splits)
  moreover from False have "stat_at (remove (d @ [n]) fs) q = (if q = d @ [n] then None else stat_at fs q)"
    by (intro stat_at_remove_leaf) auto
  ultimately show ?thesis using False by auto
qed

end
