(* ===== verification/Auth_Vault.thy ===== *)
theory Auth_Vault
  imports Action_Gate File_Laws
begin

section \<open>Saved credentials\<close>

text \<open>
  \<open>agent-browser/src/native/auth.rs\<close> and the handlers of \<open>native/actions.rs\<close> that call it: login profiles are
  encrypted and kept one per file below the home directory, with the key in an environment
  variable or in a file that is made when there is none. The cipher, base64, the random numbers
  and the derived codecs are fields of \<open>vault_env\<close>. A result is \<open>None\<close> where the Rust code
  panics: \<open>Nonce::from_slice\<close> does on a nonce that is not 12 bytes long. File modes are not modelled;
  the code ignores failures to set them.
\<close>

subsection \<open>Profiles and paths\<close>

record auth_profile =
  au_name :: string
  au_url :: string
  au_username :: string
  au_password :: string
  au_username_selector :: "string option"
  au_password_selector :: "string option"
  au_submit_selector :: "string option"
  au_created_at :: "string option"
  au_last_login_at :: "string option"

record vault_env =
  ve_home :: "string option"
  ve_tmp :: string
  ve_cwd :: apath
  ve_key_var :: "string option"
  ve_random :: "nat \<Rightarrow> string + string"
  ve_length_error :: string
  ve_seal :: "string \<Rightarrow> string \<Rightarrow> string \<Rightarrow> string + string"
  ve_open :: "string \<Rightarrow> string \<Rightarrow> string \<Rightarrow> string + string"
  ve_b64 :: "string \<Rightarrow> string"
  ve_unb64 :: "string \<Rightarrow> string + string"
  ve_serde :: serde_json
  ve_de_payload :: "string \<Rightarrow> (string \<times> string \<times> string) option"
  ve_ser_profile :: "auth_profile \<Rightarrow> string + string"
  ve_de_profile :: "string \<Rightarrow> string + auth_profile"
  ve_utf8_error :: "string \<Rightarrow> string"

definition validate_profile_name :: "string \<Rightarrow> string + unit" where
  "validate_profile_name name =
     (if name = [] \<or> \<not> list_all (\<lambda>c. is_ascii_alphanumeric c \<or> c = CHR ''_'' \<or> c = CHR ''-'') name
      then Inl (''Invalid profile name '' @ quoted name @ ''. Must match /^[a-zA-Z0-9_-]+$/'')
      else Inr ())"

definition get_agent_browser_dir :: "vault_env \<Rightarrow> string" where
  "get_agent_browser_dir env =
     (case ve_home env of
        Some home \<Rightarrow> path_join home ''.agent-browser''
      | None \<Rightarrow> path_join (ve_tmp env) ''agent-browser'')"

definition get_auth_dir :: "vault_env \<Rightarrow> string" where
  "get_auth_dir env =
     (case ve_home env of
        Some home \<Rightarrow> path_join (path_join home ''.agent-browser'') ''auth''
      | None \<Rightarrow> path_join (path_join (ve_tmp env) ''agent-browser'') ''auth'')"

definition get_profile_path :: "vault_env \<Rightarrow> string \<Rightarrow> string" where
  "get_profile_path env name = path_join (get_auth_dir env) (name @ ''.json'')"

definition get_key_file_path :: "vault_env \<Rightarrow> string" where
  "get_key_file_path env = path_join (get_agent_browser_dir env) ''.encryption-key''"

abbreviation vault_comps :: "vault_env \<Rightarrow> string \<Rightarrow> pcomp list" where
  "vault_comps env p \<equiv> abs_components (ve_cwd env) p"

subsection \<open>The key\<close>

definition hex_char :: "nat \<Rightarrow> char" where
  "hex_char n = (if n < 10 then char_of (48 + n) else char_of (87 + n))"

definition hex_byte :: "char \<Rightarrow> string" where
  "hex_byte c = (let n = (of_char c :: nat) in [hex_char (n div 16), hex_char (n mod 16)])"

fun hex_bytes :: "string \<Rightarrow> string" where
  "hex_bytes (a # b # s) = char_of (16 * unwrap_or 0 (hex_digit a) + unwrap_or 0 (hex_digit b)) # hex_bytes s"
| "hex_bytes _ = []"

definition parse_key_hex :: "string \<Rightarrow> string option" where
  "parse_key_hex s =
     (let t = trim s
      in if length t \<noteq> 64 \<or> \<not> list_all (\<lambda>c. hex_digit c \<noteq> None) t then None else Some (hex_bytes t))"

definition get_encryption_key :: "vault_env \<Rightarrow> node \<Rightarrow> string + string" where
  "get_encryption_key env fs =
     (let file = get_key_file_path env; cs = vault_comps env file
      in case ve_key_var env of
           Some h \<Rightarrow>
             ok_or (''AGENT_BROWSER_ENCRYPTION_KEY should be a 64-character hex string (256 bits). Generate one with: openssl rand -hex 32'')
               (parse_key_hex h)
         | None \<Rightarrow>
             (if fs_exists fs cs
              then and_then (map_err (\<lambda>e. ''Failed to read encryption key file: '' @ io_text e) (fs_read_to_string cs fs))
                     (\<lambda>h. ok_or (''Invalid encryption key in '' @ file @ ''. Expected 64-character hex string.'') (parse_key_hex h))
              else Inl (''Encryption key required. Set AGENT_BROWSER_ENCRYPTION_KEY or ensure '' @ file @ '' exists.'')))"

definition ensure_encryption_key :: "vault_env \<Rightarrow> node \<Rightarrow> (string + string) \<times> node" where
  "ensure_encryption_key env fs =
     (case get_encryption_key env fs of
        Inr key \<Rightarrow> (Inr key, fs)
      | Inl _ \<Rightarrow>
          (case ve_random env 32 of
             Inl e \<Rightarrow> (Inl (''Failed to generate key: '' @ e), fs)
           | Inr key \<Rightarrow>
               (case create_dir_all (vault_comps env (get_agent_browser_dir env)) fs of
                  (Inl e, fs1) \<Rightarrow> (Inl (''Failed to create directory: '' @ io_text e), fs1)
                | (Inr u, fs1) \<Rightarrow>
                    (case fs_write (vault_comps env (get_key_file_path env)) (concat (map hex_byte key) @ [CHR 0x0A]) fs1 of
                       (Inl e, fs2) \<Rightarrow> (Inl (''Failed to write encryption key: '' @ io_text e), fs2)
                     | (Inr u, fs2) \<Rightarrow> (Inr key, fs2)))))"

subsection \<open>Encrypting and decrypting\<close>

definition payload_json :: "string \<Rightarrow> string \<Rightarrow> string \<Rightarrow> json" where
  "payload_json iv tag ciphertext =
     json_obj [(''version'', json_nat 1), (''encrypted'', JBool True), (''iv'', JStr iv), (''authTag'', JStr tag),
               (''data'', JStr ciphertext)]"

definition seal_profile :: "vault_env \<Rightarrow> auth_profile \<Rightarrow> string \<Rightarrow> (string + string) option" where
  "seal_profile env profile key =
     (if length key \<noteq> 32 then Some (Inl (''Encryption key error: '' @ ve_length_error env))
      else case ve_ser_profile env profile of
        Inl e \<Rightarrow> Some (Inl (''Failed to serialize profile: '' @ e))
      | Inr plaintext \<Rightarrow>
          (case ve_random env 12 of
             Inl e \<Rightarrow> Some (Inl (''Failed to generate IV: '' @ e))
           | Inr iv \<Rightarrow>
               (case ve_seal env key iv plaintext of
                  Inl e \<Rightarrow> Some (Inl (''Encryption failed: '' @ e))
                | Inr encrypted \<Rightarrow>
                    (if length encrypted < 16 then None
                     else (let tag_offset = length encrypted - 16
                           in Some (map_err (\<lambda>e. ''Failed to serialize payload: '' @ e)
                                (ser_pretty (ve_serde env)
                                   (payload_json (ve_b64 env iv) (ve_b64 env (drop tag_offset encrypted))
                                      (ve_b64 env (take tag_offset encrypted))))))))))"

definition encrypt_profile :: "vault_env \<Rightarrow> auth_profile \<Rightarrow> node \<Rightarrow> (string + string) option \<times> node" where
  "encrypt_profile env profile fs =
     (case ensure_encryption_key env fs of
        (Inl e, fs1) \<Rightarrow> (Some (Inl e), fs1)
      | (Inr key, fs1) \<Rightarrow> (seal_profile env profile key, fs1))"

definition open_profile :: "vault_env \<Rightarrow> string \<Rightarrow> string \<Rightarrow> string \<Rightarrow> (string + auth_profile) option" where
  "open_profile env key iv encrypted =
     (if length key \<noteq> 32 then Some (Inl (''Decryption key error: '' @ ve_length_error env))
      else if length iv \<noteq> 12 then None
      else Some
        (and_then (map_err (\<lambda>e. ''Decryption failed: '' @ e) (ve_open env key iv encrypted)) (\<lambda>t.
         if \<not> valid_utf8 t then Inl (''Decrypted data is not valid UTF-8: '' @ ve_utf8_error env t)
         else map_err (\<lambda>e. ''Invalid profile data: '' @ e) (ve_de_profile env t))))"

definition decrypt_profile :: "vault_env \<Rightarrow> node \<Rightarrow> string \<Rightarrow> (string + auth_profile) option" where
  "decrypt_profile env fs t =
     (if \<not> valid_utf8 t then Some (Inl ''Profile is not valid UTF-8 -- it may use an older incompatible binary format'')
      else case ve_de_payload env t of
        None \<Rightarrow> Some (map_err (\<lambda>e. ''Profile is not a valid encrypted or unencrypted payload'') (ve_de_profile env t))
      | Some (iv64, tag64, data64) \<Rightarrow>
          (case and_then (get_encryption_key env fs) (\<lambda>key.
                and_then (map_err (\<lambda>e. ''Invalid base64 iv: '' @ e) (ve_unb64 env iv64)) (\<lambda>iv.
                and_then (map_err (\<lambda>e. ''Invalid base64 authTag: '' @ e) (ve_unb64 env tag64)) (\<lambda>auth_tag.
                and_then (map_err (\<lambda>e. ''Invalid base64 data: '' @ e) (ve_unb64 env data64)) (\<lambda>ciphertext.
                Inr (key, iv, ciphertext @ auth_tag))))) of
             Inl e \<Rightarrow> Some (Inl e)
           | Inr (key, iv, encrypted) \<Rightarrow> open_profile env key iv encrypted))"

subsection \<open>The operations\<close>

definition save_profile :: "vault_env \<Rightarrow> auth_profile \<Rightarrow> node \<Rightarrow> (string + unit) option \<times> node" where
  "save_profile env profile fs =
     (case create_dir_all (vault_comps env (get_auth_dir env)) fs of
        (Inl e, fs1) \<Rightarrow> (Some (Inl (''Failed to create auth dir: '' @ io_text e)), fs1)
      | (Inr u, fs1) \<Rightarrow>
          (case encrypt_profile env profile fs1 of
             (None, fs2) \<Rightarrow> (None, fs2)
           | (Some (Inl e), fs2) \<Rightarrow> (Some (Inl e), fs2)
           | (Some (Inr t), fs2) \<Rightarrow>
               (case fs_write (vault_comps env (get_profile_path env (au_name profile))) t fs2 of
                  (r, fs3) \<Rightarrow> (Some (map_err (\<lambda>e. ''Failed to write profile: '' @ io_text e) r), fs3))))"

definition not_found :: "string \<Rightarrow> string" where
  "not_found name = ''Auth profile '' @ quoted name @ '' not found''"

definition load_profile :: "vault_env \<Rightarrow> string \<Rightarrow> node \<Rightarrow> (string + auth_profile) option" where
  "load_profile env name fs =
     (let cs = vault_comps env (get_profile_path env name)
      in if \<not> fs_exists fs cs then Some (Inl (not_found name))
         else case fs_read cs fs of
                Inl e \<Rightarrow> Some (Inl (''Failed to read profile: '' @ io_text e))
              | Inr d \<Rightarrow> decrypt_profile env fs d)"

definition store_profile :: "vault_env \<Rightarrow> auth_profile \<Rightarrow> node \<Rightarrow> (string + json) option \<times> node" where
  "store_profile env profile fs =
     (case validate_profile_name (au_name profile) of
        Inl e \<Rightarrow> (Some (Inl e), fs)
      | Inr u \<Rightarrow>
          (case save_profile env profile fs of
             (r, fs1) \<Rightarrow> (map_option (\<lambda>r. and_then r (\<lambda>u. Inr (json_obj [(''saved'', JStr (au_name profile))]))) r, fs1)))"

definition credentials_set :: "vault_env \<Rightarrow> string \<Rightarrow> string \<Rightarrow> string \<Rightarrow> string option \<Rightarrow> node \<Rightarrow> (string + json) option \<times> node" where
  "credentials_set env name username password url fs =
     store_profile env
       \<lparr>au_name = name, au_url = unwrap_or [] url, au_username = username, au_password = password,
        au_username_selector = None, au_password_selector = None, au_submit_selector = None,
        au_created_at = None, au_last_login_at = None\<rparr> fs"

definition auth_save ::
    "vault_env \<Rightarrow> string \<Rightarrow> string \<Rightarrow> string \<Rightarrow> string \<Rightarrow> string option \<Rightarrow> string option \<Rightarrow> string option \<Rightarrow> node
      \<Rightarrow> (string + json) option \<times> node" where
  "auth_save env name url username password user_sel pass_sel submit_sel fs =
     store_profile env
       \<lparr>au_name = name, au_url = url, au_username = username, au_password = password,
        au_username_selector = user_sel, au_password_selector = pass_sel, au_submit_selector = submit_sel,
        au_created_at = None, au_last_login_at = None\<rparr> fs"

definition credentials_get :: "vault_env \<Rightarrow> string \<Rightarrow> node \<Rightarrow> (string + json) option" where
  "credentials_get env name fs =
     map_option (\<lambda>r. and_then r (\<lambda>p. Inr (json_obj
       [(''name'', JStr (au_name p)), (''username'', JStr (au_username p)), (''url'', JStr (au_url p)), (''hasPassword'', JBool True)])))
       (load_profile env name fs)"

definition credentials_get_full :: "vault_env \<Rightarrow> string \<Rightarrow> node \<Rightarrow> (string + auth_profile) option" where
  "credentials_get_full env name fs = load_profile env name fs"

definition credentials_delete :: "vault_env \<Rightarrow> string \<Rightarrow> node \<Rightarrow> (string + json) \<times> node" where
  "credentials_delete env name fs =
     (case validate_profile_name name of
        Inl e \<Rightarrow> (Inl e, fs)
      | Inr u \<Rightarrow>
          (let cs = vault_comps env (get_profile_path env name)
           in if \<not> fs_exists fs cs then (Inl (not_found name), fs)
              else case (case entry_of fs cs of Inl e \<Rightarrow> (Inl e, fs) | Inr p \<Rightarrow> fs_remove_file p fs) of
                     (Inl e, fs1) \<Rightarrow> (Inl (''Failed to delete profile: '' @ io_text e), fs1)
                   | (Inr u, fs1) \<Rightarrow> (Inr (json_obj [(''deleted'', JStr name)]), fs1)))"

definition profile_row :: "string \<Rightarrow> string + auth_profile \<Rightarrow> json" where
  "profile_row name r =
     (case r of
        Inr p \<Rightarrow> json_obj [(''name'', JStr (au_name p)), (''username'', JStr (au_username p)), (''url'', JStr (au_url p))]
      | Inl e \<Rightarrow> json_obj [(''name'', JStr name), (''error'', JStr ''Failed to decrypt'')])"

fun profile_rows :: "vault_env \<Rightarrow> node \<Rightarrow> string list \<Rightarrow> json list option" where
  "profile_rows env fs [] = Some []"
| "profile_rows env fs (n # ns) =
     (if path_extension n \<noteq> Some ''json'' then profile_rows env fs ns
      else (let name = utf8_lossy (unwrap_or [] (path_file_stem n))
            in case load_profile env name fs of
                 None \<Rightarrow> None
               | Some r \<Rightarrow> map_option (Cons (profile_row name r)) (profile_rows env fs ns)))"

definition credentials_list :: "vault_env \<Rightarrow> node \<Rightarrow> (string + json) option" where
  "credentials_list env fs =
     (let cs = vault_comps env (get_auth_dir env); found = (\<lambda>rows. Inr (json_obj [(''profiles'', JArr rows)]))
      in if \<not> fs_exists fs cs then Some (found [])
         else case and_then (canonicalize fs cs) (\<lambda>d. fs_read_dir d fs) of
                Inl e \<Rightarrow> Some (found [])
              | Inr es \<Rightarrow> map_option found (profile_rows env fs (map fst es)))"

definition auth_show :: "vault_env \<Rightarrow> string \<Rightarrow> node \<Rightarrow> (string + json) option" where
  "auth_show env name fs =
     (case validate_profile_name name of
        Inl e \<Rightarrow> Some (Inl e)
      | Inr u \<Rightarrow>
          map_option (\<lambda>r. and_then r (\<lambda>p. Inr (json_obj [(''profile'', json_obj
            [(''name'', JStr (au_name p)), (''url'', JStr (au_url p)), (''username'', JStr (au_username p)),
             (''usernameSelector'', json_opt_str (au_username_selector p)),
             (''passwordSelector'', json_opt_str (au_password_selector p)),
             (''submitSelector'', json_opt_str (au_submit_selector p))])])))
            (load_profile env name fs))"

subsection \<open>The handlers\<close>

definition needed_field :: "json \<Rightarrow> string \<Rightarrow> string + string" where
  "needed_field cmd k = ok_or (''Missing '' @ quoted k) (str_field cmd k)"

definition handle_credentials_set :: "vault_env \<Rightarrow> json \<Rightarrow> node \<Rightarrow> (string + json) option \<times> node" where
  "handle_credentials_set env cmd fs =
     (case and_then (needed_field cmd ''name'') (\<lambda>n. and_then (needed_field cmd ''username'') (\<lambda>u.
           and_then (needed_field cmd ''password'') (\<lambda>p. Inr (n, u, p)))) of
        Inl e \<Rightarrow> (Some (Inl e), fs)
      | Inr (n, u, p) \<Rightarrow> credentials_set env n u p (str_field cmd ''url'') fs)"

definition handle_credentials_get :: "vault_env \<Rightarrow> json \<Rightarrow> node \<Rightarrow> (string + json) option" where
  "handle_credentials_get env cmd fs =
     (case needed_field cmd ''name'' of Inl e \<Rightarrow> Some (Inl e) | Inr n \<Rightarrow> credentials_get env n fs)"

definition handle_credentials_delete :: "vault_env \<Rightarrow> json \<Rightarrow> node \<Rightarrow> (string + json) \<times> node" where
  "handle_credentials_delete env cmd fs =
     (case needed_field cmd ''name'' of Inl e \<Rightarrow> (Inl e, fs) | Inr n \<Rightarrow> credentials_delete env n fs)"

definition handle_auth_show :: "vault_env \<Rightarrow> json \<Rightarrow> node \<Rightarrow> (string + json) option" where
  "handle_auth_show env cmd fs =
     (case needed_field cmd ''name'' of Inl e \<Rightarrow> Some (Inl e) | Inr n \<Rightarrow> auth_show env n fs)"

definition handle_auth_save :: "vault_env \<Rightarrow> json \<Rightarrow> node \<Rightarrow> (string + json) option \<times> node" where
  "handle_auth_save env cmd fs =
     (case and_then (needed_field cmd ''name'') (\<lambda>n. and_then (needed_field cmd ''url'') (\<lambda>l.
           and_then (needed_field cmd ''username'') (\<lambda>u. and_then (needed_field cmd ''password'') (\<lambda>p. Inr (n, l, u, p))))) of
        Inl e \<Rightarrow> (Some (Inl e), fs)
      | Inr (n, l, u, p) \<Rightarrow>
          auth_save env n l u p (str_field cmd ''usernameSelector'') (str_field cmd ''passwordSelector'')
            (str_field cmd ''submitSelector'') fs)"

subsection \<open>The key is found again\<close>

lemma hex_digit_hex_char [simp]: "n < 16 \<Longrightarrow> hex_digit (hex_char n) = Some n"
  by (cases "n < 10") (simp_all add: hex_digit_def hex_char_def of_char_of Let_def)

lemma hex_bytes_hex_byte [simp]: "hex_bytes (hex_byte c @ s) = c # hex_bytes s"
proof -
  have b: "(of_char c :: nat) < 256" by simp
  have "(of_char c :: nat) div 16 < 16" using b by (rule less_mult_imp_div_less [of _ 16 16, simplified])
  moreover have "char_of (16 * ((of_char c :: nat) div 16) + (of_char c :: nat) mod 16) = c" by simp
  ultimately show ?thesis by (simp add: hex_byte_def Let_def)
qed

lemma hex_round_trip [simp]: "hex_bytes (concat (map hex_byte k)) = k"
  by (induction k) simp_all

lemma hex_char_code: "n < 16 \<Longrightarrow> 48 \<le> (of_char (hex_char n) :: nat) \<and> (of_char (hex_char n) :: nat) < 128"
  by (cases "n < 10") (simp_all add: hex_char_def of_char_of)

lemma hex_byte_chars: "c \<in> set (hex_byte b) \<Longrightarrow> hex_digit c \<noteq> None \<and> 48 \<le> (of_char c :: nat) \<and> (of_char c :: nat) < 128"
proof -
  assume c: "c \<in> set (hex_byte b)"
  have "(of_char b :: nat) div 16 < 16" by (rule less_mult_imp_div_less [of _ 16 16, simplified]) simp
  moreover have "(of_char b :: nat) mod 16 < 16" by simp
  ultimately show ?thesis using c hex_char_code by (auto simp: hex_byte_def Let_def)
qed

lemma length_hex [simp]: "length (concat (map hex_byte k)) = 2 * length k"
  by (induction k) (simp_all add: hex_byte_def Let_def)

lemma trim_start_plain:
  assumes "list_all (\<lambda>c. \<not> is_continuation c) s" and "s \<noteq> []" and "\<not> is_whitespace [hd s]"
  shows "trim_start s = s"
  using assms by (cases s) (simp_all add: trim_start_def chars_plain concat_map_singleton del: chars.simps)

lemma trim_newline:
  assumes "list_all (\<lambda>c. \<not> is_continuation c \<and> \<not> is_whitespace [c]) s" and "s \<noteq> []"
  shows "trim (s @ [CHR 0x0A]) = s"
proof -
  let ?t = "s @ [CHR 0x0A]"
  have plain: "list_all (\<lambda>c. \<not> is_continuation c) ?t"
    using assms(1) by (auto simp: list_all_iff is_continuation_def)
  have "trim_start ?t = ?t"
    by (rule trim_start_plain [OF plain]) (use assms in \<open>auto simp: list_all_iff hd_append\<close>)
  moreover have "trim_end ?t = s"
  proof (cases s rule: rev_cases)
    case (snoc u c)
    have "chars ?t = map (\<lambda>c. [c]) ?t" using plain by (rule chars_plain)
    then have "rev (chars ?t) = [CHR 0x0A] # [c] # rev (map (\<lambda>c. [c]) u)" using snoc by simp
    moreover have "is_whitespace [CHR 0x0A]" by (simp add: is_whitespace_def white_space_chars_def)
    moreover have "\<not> is_whitespace [c]" using assms(1) snoc by simp
    ultimately have "trim_end ?t = concat (rev ([c] # rev (map (\<lambda>c. [c]) u)))" by (simp add: trim_end_def)
    then show ?thesis using snoc by simp
  qed (use assms in simp)
  ultimately show ?thesis by (simp add: trim_def)
qed

lemma printable_plain: "48 \<le> (of_char c :: nat) \<Longrightarrow> (of_char c :: nat) < 128 \<Longrightarrow> \<not> is_continuation c \<and> \<not> is_whitespace [c]"
  by (auto simp: is_continuation_def is_whitespace_def white_space_chars_def)

lemma parse_key_file:
  assumes "length key = 32"
  shows "parse_key_hex (concat (map hex_byte key) @ [CHR 0x0A]) = Some key"
proof -
  let ?h = "concat (map hex_byte key)"
  have each: "\<forall>c \<in> set ?h. hex_digit c \<noteq> None \<and> 48 \<le> (of_char c :: nat) \<and> (of_char c :: nat) < 128"
    using hex_byte_chars by fastforce
  have "?h \<noteq> []" using assms length_hex [of key] by (metis list.size(3) mult_eq_0_iff zero_neq_numeral)
  then have "trim (?h @ [CHR 0x0A]) = ?h"
    by (intro trim_newline) (use each printable_plain in \<open>auto simp only: list_all_iff\<close>)
  then show ?thesis using assms each by (auto simp: parse_key_hex_def Let_def list_all_iff)
qed

lemma valid_utf8_ascii: "list_all (\<lambda>c. (of_char c :: nat) < 128) s \<Longrightarrow> valid_utf8 s"
  by (induction s rule: valid_utf8.induct) (auto simp: byte_in_def)

subsection \<open>What the libraries promise\<close>

text \<open>The cipher opens what it sealed and appends a tag of 16 bytes, base64 and the derived codecs read back
  what they wrote, texts are UTF-8, and the random numbers fill their buffer.\<close>

definition vault_laws :: "vault_env \<Rightarrow> bool" where
  "vault_laws env \<longleftrightarrow>
     (\<forall>n r. ve_random env n = Inr r \<longrightarrow> length r = n)
     \<and> (\<forall>key iv t e. ve_seal env key iv t = Inr e \<longrightarrow> 16 \<le> length e \<and> ve_open env key iv e = Inr t)
     \<and> (\<forall>b. ve_unb64 env (ve_b64 env b) = Inr b)
     \<and> (\<forall>iv tag d t. ser_pretty (ve_serde env) (payload_json iv tag d) = Inr t \<longrightarrow>
          valid_utf8 t \<and> ve_de_payload env t = Some (iv, tag, d))
     \<and> (\<forall>p t. ve_ser_profile env p = Inr t \<longrightarrow> valid_utf8 t \<and> ve_de_profile env t = Inr p)"

definition key_variable_ok :: "vault_env \<Rightarrow> bool" where
  "key_variable_ok env \<longleftrightarrow> (case ve_key_var env of None \<Rightarrow> True | Some h \<Rightarrow> parse_key_hex h \<noteq> None)"

lemma parse_key_hex_length: "parse_key_hex h = Some key \<Longrightarrow> length key = 32"
proof -
  have "length (hex_bytes t) = length t div 2" for t by (induction t rule: hex_bytes.induct) simp_all
  then show "parse_key_hex h = Some key \<Longrightarrow> length key = 32"
    by (auto simp: parse_key_hex_def Let_def split: if_splits)
qed

lemma get_key_length: "get_encryption_key env fs = Inr key \<Longrightarrow> length key = 32"
  by (auto simp: get_encryption_key_def Let_def ok_or_def and_then_Inr_iff dest: parse_key_hex_length
      split: option.splits if_splits)

lemma key_file_text:
  assumes "length key = 32"
  shows "parse_key_hex (concat (map hex_byte key) @ [CHR 0x0A]) = Some key"
    and "valid_utf8 (concat (map hex_byte key) @ [CHR 0x0A])"
proof -
  have "\<forall>c \<in> set (concat (map hex_byte key)). (of_char c :: nat) < 128" using hex_byte_chars by fastforce
  then show "valid_utf8 (concat (map hex_byte key) @ [CHR 0x0A])"
    by (intro valid_utf8_ascii) (auto simp: list_all_iff)
qed (rule parse_key_file [OF assms])

lemma ensure_then_get:
  assumes laws: "vault_laws env" and var: "key_variable_ok env" and root: "stat_at fs [] = Some KDir"
    and ens: "ensure_encryption_key env fs = (Inr key, fs')"
  shows "get_encryption_key env fs' = Inr key \<and> stat_at fs' [] = Some KDir \<and> length key = 32"
proof (cases "get_encryption_key env fs")
  case (Inr k)
  with ens root show ?thesis by (auto simp: ensure_encryption_key_def dest: get_key_length)
next
  case (Inl e)
  then have none: "ve_key_var env = None"
    using var by (cases "ve_key_var env") (auto simp: key_variable_ok_def get_encryption_key_def ok_or_def)
  from ens Inl obtain fs1 where r: "ve_random env 32 = Inr key"
      and d: "create_dir_all (vault_comps env (get_agent_browser_dir env)) fs = (Inr (), fs1)"
      and w: "fs_write (vault_comps env (get_key_file_path env)) (concat (map hex_byte key) @ [CHR 0x0A]) fs1 = (Inr (), fs')"
    by (auto simp: ensure_encryption_key_def split: sum.splits prod.splits)
  have root1: "stat_at fs1 [] = Some KDir" using create_dir_all_root [OF d root] .
  obtain p where p: "canonicalize fs' (vault_comps env (get_key_file_path env)) = Inr p"
      "written fs1 p (concat (map hex_byte key) @ [CHR 0x0A]) fs'"
    using file_write_effect [OF w root1] by blast
  have len: "length key = 32" using laws r by (auto simp: vault_laws_def)
  show ?thesis
    using written_read [OF p] key_file_text [OF len] none written_root [OF p(2) root1] len
    by (simp add: get_encryption_key_def Let_def fs_read_to_string_def ok_or_def)
qed

lemma key_kept:
  assumes w: "written fs p c fs'" and key: "get_encryption_key env fs = Inr key"
    and apart: "canonicalize fs' (vault_comps env (get_key_file_path env)) \<noteq> Inr p"
  shows "get_encryption_key env fs' = Inr key"
proof (cases "ve_key_var env")
  case None
  let ?cs = "vault_comps env (get_key_file_path env)"
  from key None have ex: "fs_exists fs ?cs" by (auto simp: get_encryption_key_def Let_def split: if_splits)
  then obtain q where q: "canonicalize fs ?cs = Inr q"
    by (auto simp: fs_exists_def metadata_of_def and_then_Inr_iff split: sum.splits)
  have "canonicalize fs' ?cs = Inr q"
    using w q unfolding canonicalize_def by (intro walk_after_write [where p = p and c = c]) (auto simp: written_def)
  with apart have "q \<noteq> p" by auto
  with written_other [OF w q] key None ex show ?thesis
    by (simp add: get_encryption_key_def Let_def fs_read_to_string_def)
next
  case (Some h)
  with key show ?thesis by (simp add: get_encryption_key_def Let_def)
qed

lemma seal_then_open:
  assumes laws: "vault_laws env" and key: "get_encryption_key env fs = Inr key"
    and sealed: "seal_profile env profile key = Some (Inr t)"
  shows "decrypt_profile env fs t = Some (Inr profile)"
proof -
  from sealed obtain s iv e where s: "ve_ser_profile env profile = Inr s" and iv: "ve_random env 12 = Inr iv"
      and e: "ve_seal env key iv s = Inr e" and len: "length key = 32"
      and t: "ser_pretty (ve_serde env) (payload_json (ve_b64 env iv) (ve_b64 env (drop (length e - 16) e))
                (ve_b64 env (take (length e - 16) e))) = Inr t"
    by (auto simp: seal_profile_def Let_def split: if_splits sum.splits)
  have "valid_utf8 t \<and> ve_de_payload env t =
      Some (ve_b64 env iv, ve_b64 env (drop (length e - 16) e), ve_b64 env (take (length e - 16) e))"
    using laws t by (simp add: vault_laws_def)
  moreover have "ve_unb64 env (ve_b64 env b) = Inr b" for b using laws by (simp add: vault_laws_def)
  moreover have "length iv = 12" "ve_open env key iv e = Inr s" "valid_utf8 s" "ve_de_profile env s = Inr profile"
    using laws s iv e by (auto simp: vault_laws_def)
  ultimately show ?thesis using key len by (simp add: decrypt_profile_def open_profile_def)
qed

lemma saved_is_loaded:
  assumes laws: "vault_laws env" and var: "key_variable_ok env" and root: "stat_at fs [] = Some KDir"
    and saved: "save_profile env profile fs = (Some (Inr u), fs')"
    and apart: "canonicalize fs' (vault_comps env (get_key_file_path env))
      \<noteq> canonicalize fs' (vault_comps env (get_profile_path env (au_name profile)))"
  shows "load_profile env (au_name profile) fs' = Some (Inr profile)"
proof -
  let ?cs = "vault_comps env (get_profile_path env (au_name profile))"
  from saved obtain fs1 fs2 key t where d: "create_dir_all (vault_comps env (get_auth_dir env)) fs = (Inr (), fs1)"
      and k: "ensure_encryption_key env fs1 = (Inr key, fs2)" and t: "seal_profile env profile key = Some (Inr t)"
      and w: "fs_write ?cs t fs2 = (Inr (), fs')"
    by (auto simp: save_profile_def encrypt_profile_def map_err_def split: sum.splits prod.splits option.splits)
  have root1: "stat_at fs1 [] = Some KDir" using create_dir_all_root [OF d root] .
  have key2: "get_encryption_key env fs2 = Inr key" and root2: "stat_at fs2 [] = Some KDir"
    using ensure_then_get [OF laws var root1 k] by auto
  obtain p where p: "canonicalize fs' ?cs = Inr p" "written fs2 p t fs'" using file_write_effect [OF w root2] by blast
  have "get_encryption_key env fs' = Inr key" using key_kept [OF p(2) key2] apart p(1) by simp
  with seal_then_open [OF laws _ t] written_read [OF p] show ?thesis
    by (simp add: load_profile_def Let_def)
qed

text \<open>C36: a profile that was saved is loaded again unchanged and shown without its password, also when
  saving made the key file; the key comes from a well-formed environment variable or from the
  file, and the two files must be different ones.\<close>

theorem saved_profile_is_shown:
  assumes laws: "vault_laws env" and var: "key_variable_ok env" and root: "stat_at fs [] = Some KDir"
    and saved: "auth_save env name url username password user_sel pass_sel submit_sel fs = (Some (Inr j), fs')"
    and apart: "canonicalize fs' (vault_comps env (get_key_file_path env))
      \<noteq> canonicalize fs' (vault_comps env (get_profile_path env name))"
  shows "j = json_obj [(''saved'', JStr name)]
    \<and> credentials_get_full env name fs' = Some (Inr \<lparr>au_name = name, au_url = url, au_username = username,
        au_password = password, au_username_selector = user_sel, au_password_selector = pass_sel,
        au_submit_selector = submit_sel, au_created_at = None, au_last_login_at = None\<rparr>)
    \<and> auth_show env name fs' = Some (Inr (json_obj [(''profile'', json_obj
        [(''name'', JStr name), (''url'', JStr url), (''username'', JStr username),
         (''usernameSelector'', json_opt_str user_sel), (''passwordSelector'', json_opt_str pass_sel),
         (''submitSelector'', json_opt_str submit_sel)])]))"
proof -
  let ?p = "\<lparr>au_name = name, au_url = url, au_username = username, au_password = password,
    au_username_selector = user_sel, au_password_selector = pass_sel, au_submit_selector = submit_sel,
    au_created_at = None, au_last_login_at = None\<rparr>"
  from saved obtain u where v: "validate_profile_name name = Inr ()" and s: "save_profile env ?p fs = (Some (Inr u), fs')"
      and j: "j = json_obj [(''saved'', JStr name)]"
    by (auto simp: auth_save_def store_profile_def and_then_Inr_iff split: sum.splits prod.splits)
  have "load_profile env name fs' = Some (Inr ?p)" using saved_is_loaded [OF laws var root s] apart by simp
  with v j show ?thesis by (simp add: credentials_get_full_def auth_show_def)
qed

subsection \<open>Deleting\<close>

lemma valid_name_chars: "validate_profile_name name = Inr () \<Longrightarrow> c \<in> set (name @ ''.json'') \<Longrightarrow> c \<noteq> slash \<and> c \<noteq> CHR 0x00"
  by (auto simp: validate_profile_name_def list_all_iff slash_def is_ascii_alphanumeric_def is_ascii_digit_def
      split: if_splits)

lemma profile_path_components:
  assumes v: "validate_profile_name name = Inr ()"
  shows "vault_comps env (get_profile_path env name) = vault_comps env (get_auth_dir env) @ [Normal (name @ ''.json'')]"
proof -
  have "\<exists>x. get_auth_dir env = path_join x ''auth''" by (simp add: get_auth_dir_def split: option.splits) blast
  moreover have "path_join x ''auth'' \<noteq> [] \<and> last (path_join x ''auth'') \<noteq> slash" for x
    by (simp add: path_join_def slash_def is_absolute_def starts_with_def)
  moreover have "name @ ''.json'' \<notin> {[], ''.'', ''..''}" by (cases name) auto
  moreover have "slash \<notin> set (name @ ''.json'')" using valid_name_chars [OF v] by blast
  ultimately show ?thesis unfolding get_profile_path_def abs_components_def using os_components_join by auto
qed

text \<open>Deleting a profile removes exactly one directory entry, the one of its own file in the vault, and
  leaves the rest of the tree alone; a name with anything but letters, digits, \<open>_\<close> and \<open>-\<close> is
  refused before any file is touched.\<close>

theorem delete_removes_one_profile:
  assumes run: "credentials_delete env name fs = (r, fs')"
  shows "(\<exists>e. r = Inl e \<and> fs' = fs)
    \<or> (r = Inr (json_obj [(''deleted'', JStr name)]) \<and> validate_profile_name name = Inr ()
       \<and> (\<exists>d. canonicalize fs (vault_comps env (get_auth_dir env)) = Inr d
          \<and> stat_at fs (d @ [name @ ''.json'']) \<noteq> None
          \<and> (\<forall>q. stat_at fs' q = (if q = d @ [name @ ''.json''] then None else stat_at fs q))))"
proof (cases "validate_profile_name name")
  case (Inr u)
  then have v: "validate_profile_name name = Inr ()" by simp
  let ?x = "name @ ''.json''" let ?dir = "vault_comps env (get_auth_dir env)"
  have nul: "\<not> has_nul ?x" using valid_name_chars [OF v] by (auto simp: has_nul_def)
  show ?thesis
  proof (cases "entry_of fs (?dir @ [Normal ?x])")
    case (Inl e)
    with run v show ?thesis
      by (auto simp: credentials_delete_def profile_path_components [OF v] Let_def split: if_splits)
  next
    case (Inr p)
    then obtain d where d: "canonicalize fs ?dir = Inr d" "p = d @ [?x]"
      by (auto simp: entry_of_def and_then_Inr_iff split: if_splits)
    show ?thesis
    proof (cases "stat_at fs p = None \<or> stat_at fs p = Some KDir")
      case True
      with run v Inr show ?thesis
        by (auto simp: credentials_delete_def profile_path_components [OF v] Let_def fs_remove_file_def split: if_splits)
    next
      case False
      then have rm: "fs_remove_file p fs = (Inr (), remove p fs)"
        by (auto simp: fs_remove_file_def split: option.splits kind.splits)
      have "stat_at (remove p fs) q = (if q = p then None else stat_at fs q)" for q
        unfolding d(2) by (rule stat_at_remove_leaf) (use False d(2) in auto)
      with run v Inr rm d False show ?thesis
        by (auto simp: credentials_delete_def profile_path_components [OF v] Let_def split: if_splits)
    qed
  qed
qed (use run in \<open>auto simp: credentials_delete_def\<close>)

subsection \<open>Examples and what goes wrong\<close>

definition example_profile :: auth_profile where
  "example_profile =
     \<lparr>au_name = ''a'', au_url = ''u'', au_username = ''n'', au_password = ''p'', au_username_selector = None,
      au_password_selector = None, au_submit_selector = None, au_created_at = None, au_last_login_at = None\<rparr>"

text \<open>A cipher that only appends a tag, and codecs for the one profile and payload of the examples.\<close>

definition example_payload :: json where
  "example_payload = payload_json (replicate 12 (CHR ''k'')) (replicate 16 (CHR ''t'')) ''s''"

definition example_vault :: vault_env where
  "example_vault =
     \<lparr>ve_home = Some ''/h'', ve_tmp = ''/tmp'', ve_cwd = [], ve_key_var = None,
      ve_random = (\<lambda>n. Inr (replicate n (CHR ''k''))), ve_length_error = ''Invalid Length'',
      ve_seal = (\<lambda>key iv t. Inr (t @ replicate 16 (CHR ''t''))), ve_open = (\<lambda>key iv e. Inr (take (length e - 16) e)),
      ve_b64 = (\<lambda>b. b), ve_unb64 = Inr,
      ve_serde = sample_serde\<lparr>ser_pretty := (\<lambda>j. if j = example_payload then Inr ''e'' else Inl ''no'')\<rparr>,
      ve_de_payload = (\<lambda>t. if t = ''e'' then Some (replicate 12 (CHR ''k''), replicate 16 (CHR ''t''), ''s'') else None),
      ve_ser_profile = (\<lambda>p. if p = example_profile then Inr ''s'' else Inl ''no''),
      ve_de_profile = (\<lambda>t. Inr example_profile), ve_utf8_error = (\<lambda>t. [])\<rparr>"

definition example_home :: node where
  "example_home = Dir [(''h'', Dir [])]"

lemma payload_json_inj: "payload_json a b c = payload_json a' b' c' \<Longrightarrow> a = a' \<and> b = b' \<and> c = c'"
proof -
  assume eq: "payload_json a b c = payload_json a' b' c'"
  have iv: "json_get (payload_json x y z) ''iv'' = Some (JStr x)" "json_get (payload_json x y z) ''authTag'' = Some (JStr y)"
    "json_get (payload_json x y z) ''data'' = Some (JStr z)" for x y z
    by (simp_all add: payload_json_def json_obj_def bt_extend_def bt_get_def)
  show ?thesis using iv(1) [of a b c] iv(2) [of a b c] iv(3) [of a b c] unfolding eq iv by simp
qed

lemma example_vault_laws: "vault_laws example_vault"
proof -
  have "valid_utf8 ''e''" "valid_utf8 ''s''" by code_simp+
  then show ?thesis
    by (auto simp: vault_laws_def example_vault_def example_payload_def dest: payload_json_inj split: if_splits)
qed

definition example_vault_tree :: node where
  "example_vault_tree =
     Dir [(''h'', Dir [(''.agent-browser'',
       Dir [(''auth'', Dir [(''a.json'', RegFile ''e'')]),
            (''.encryption-key'', RegFile (concat (replicate 32 ''6b'') @ [CHR 0x0A]))])])]"

lemma example_saved:
  "auth_save example_vault ''a'' ''u'' ''n'' ''p'' None None None example_home
     = (Some (Inr (json_obj [(''saved'', JStr ''a'')])), example_vault_tree)"
  by code_simp

theorem saved_profile_is_shown_witness:
  "credentials_get_full example_vault ''a'' example_vault_tree = Some (Inr example_profile)
   \<and> stat_at example_vault_tree [''h'', ''.agent-browser'', ''auth'', ''a.json''] = Some (KFile ''e'')"
proof -
  have var: "key_variable_ok example_vault" and root: "stat_at example_home [] = Some KDir" by code_simp+
  have apart: "canonicalize example_vault_tree (vault_comps example_vault (get_key_file_path example_vault))
      \<noteq> canonicalize example_vault_tree (vault_comps example_vault (get_profile_path example_vault ''a''))"
    by code_simp
  have stored: "stat_at example_vault_tree [''h'', ''.agent-browser'', ''auth'', ''a.json''] = Some (KFile ''e'')"
    by code_simp
  show ?thesis
    using saved_profile_is_shown [OF example_vault_laws var root example_saved apart] stored by (simp add: example_profile_def)
qed

theorem delete_removes_one_profile_witness:
  "\<forall>q. stat_at (snd (credentials_delete example_vault ''a'' example_vault_tree)) q =
     (if q = [''h'', ''.agent-browser'', ''auth'', ''a.json''] then None else stat_at example_vault_tree q)"
proof -
  have ok: "fst (credentials_delete example_vault ''a'' example_vault_tree) \<noteq> Inl e" for e
    by (rule notI, drule arg_cong [of _ _ Sum_Type.isl], code_simp)
  have d: "canonicalize example_vault_tree (vault_comps example_vault (get_auth_dir example_vault))
      = Inr [''h'', ''.agent-browser'', ''auth'']" by code_simp
  show ?thesis
    using delete_removes_one_profile [OF surjective_pairing, of example_vault "''a''" example_vault_tree] ok d by auto
qed

text \<open>A malformed key in the environment does not stop a profile from being saved: the key file is
  replaced by a new key, with which nothing can be opened, as the variable still counts.\<close>

lemma malformed_variable_replaces_key:
  assumes "ve_key_var env = Some h" and "parse_key_hex h = None" and root: "stat_at fs [] = Some KDir"
    and run: "ensure_encryption_key env fs = (Inr key, fs')"
  shows "fs_read (vault_comps env (get_key_file_path env)) fs' = Inr (concat (map hex_byte key) @ [CHR 0x0A])
    \<and> (\<exists>e. get_encryption_key env fs' = Inl e)"
proof -
  from assms(1,2) have bad: "\<exists>e. get_encryption_key env t = Inl e" for t
    by (simp add: get_encryption_key_def ok_or_def)
  from run bad [of fs] obtain fs1 where d: "create_dir_all (vault_comps env (get_agent_browser_dir env)) fs = (Inr (), fs1)"
      and w: "fs_write (vault_comps env (get_key_file_path env)) (concat (map hex_byte key) @ [CHR 0x0A]) fs1 = (Inr (), fs')"
    by (auto simp: ensure_encryption_key_def split: sum.splits prod.splits)
  from file_write_effect [OF w create_dir_all_root [OF d root]] bad [of fs'] written_read show ?thesis by blast
qed

text \<open>Only saving, showing and deleting check the name; reading does not, so \<open>../p\<close> is a file outside the
  vault.\<close>

definition example_outside :: node where
  "example_outside = Dir [(''h'', Dir [(''.agent-browser'', Dir [(''auth'', Dir []), (''p.json'', RegFile ''q'')])])]"

lemma get_reads_outside_the_vault:
  "credentials_get_full example_vault ''../p'' example_outside = Some (Inr example_profile)
   \<and> auth_show example_vault ''../p'' example_outside \<noteq> Some (Inr j)"
proof -
  have "credentials_get_full example_vault ''../p'' example_outside = Some (Inr example_profile)" by code_simp
  moreover have "validate_profile_name ''../p'' \<noteq> Inr ()" by code_simp
  ultimately show ?thesis by (auto simp: auth_show_def split: sum.splits)
qed

text \<open>A stored nonce of another length than 12 bytes makes decryption panic, and one such file makes
  listing the profiles panic.\<close>

lemma short_nonce_panics:
  assumes "valid_utf8 t" "ve_de_payload env t = Some (iv64, tag64, data64)" "get_encryption_key env fs = Inr key"
    and "ve_unb64 env iv64 = Inr iv" "ve_unb64 env tag64 = Inr tag" "ve_unb64 env data64 = Inr d" "length iv \<noteq> 12"
  shows "decrypt_profile env fs t = None"
  using assms get_key_length [OF assms(3)] by (simp add: decrypt_profile_def open_profile_def)

end
