(* ===== verification/Daemon_Client.thy ===== *)
theory Daemon_Client
  imports Action_Gate File_Laws
begin

section \<open>Finding, starting and talking to daemons\<close>

text \<open>
  \<open>agent-browser/src/connection.rs\<close> on Unix: where the files of the daemons are, which daemons are alive and
  which files are left over, the environment of a new daemon, how one is started or reused, and
  how a command is sent with retries. The walk over the directory works on a file tree; starting
  and sending work on a world \<open>'w\<close> that holds the tree and everything else, since other processes
  change files while this one sleeps. A connection tried reports the text of its error.
\<close>

subsection \<open>The files of a session\<close>

record client_env =
  cl_socket_var :: "string option"
  cl_runtime_var :: "string option"
  cl_home :: "string option"
  cl_tmp :: string
  cl_cwd :: apath
  cl_alive :: "int \<Rightarrow> bool"
  cl_version :: string

definition get_socket_dir :: "client_env \<Rightarrow> string" where
  "get_socket_dir env =
     (case cl_socket_var env of
        Some (c # cs) \<Rightarrow> c # cs
      | _ \<Rightarrow>
          (case cl_runtime_var env of
             Some (c # cs) \<Rightarrow> path_join (c # cs) ''agent-browser''
           | _ \<Rightarrow>
               (case cl_home env of
                  Some home \<Rightarrow> path_join home ''.agent-browser''
                | None \<Rightarrow> path_join (cl_tmp env) ''agent-browser'')))"

definition session_file :: "client_env \<Rightarrow> string \<Rightarrow> string \<Rightarrow> string" where
  "session_file env session ext = path_join (get_socket_dir env) (session @ ext)"

abbreviation client_comps :: "client_env \<Rightarrow> string \<Rightarrow> pcomp list" where
  "client_comps env p \<equiv> abs_components (cl_cwd env) p"

definition socket_path :: "client_env \<Rightarrow> string \<Rightarrow> string" where
  "socket_path env session = session_file env session ''.sock''"

definition pid_path :: "client_env \<Rightarrow> string \<Rightarrow> string" where
  "pid_path env session = session_file env session ''.pid''"

definition version_path :: "client_env \<Rightarrow> string \<Rightarrow> string" where
  "version_path env session = session_file env session ''.version''"

definition remove_quietly :: "client_env \<Rightarrow> string \<Rightarrow> node \<Rightarrow> node" where
  "remove_quietly env p fs =
     (case entry_of fs (client_comps env p) of Inl e \<Rightarrow> fs | Inr q \<Rightarrow> snd (fs_remove_file q fs))"

definition cleanup_stale_files :: "client_env \<Rightarrow> string \<Rightarrow> node \<Rightarrow> node" where
  "cleanup_stale_files env session fs =
     remove_quietly env (socket_path env session)
       (remove_quietly env (session_file env session ''.stream'')
         (remove_quietly env (version_path env session)
           (remove_quietly env (pid_path env session) fs)))"

text \<open>\<open>pid as i32\<close>: the signal calls take a signed number of 32 bits.\<close>

definition signal_target :: "nat \<Rightarrow> int" where
  "signal_target pid = sint (of_nat pid :: 32 word)"

definition is_pid_alive :: "client_env \<Rightarrow> nat \<Rightarrow> bool" where
  "is_pid_alive env pid = cl_alive env (signal_target pid)"

definition parse_pid :: "string \<Rightarrow> nat option" where
  "parse_pid s = parse_u32 (trim s)"

definition read_session_version :: "client_env \<Rightarrow> string \<Rightarrow> node \<Rightarrow> string option" where
  "read_session_version env session fs =
     (case fs_read_to_string (client_comps env (version_path env session)) fs of
        Inl e \<Rightarrow> None
      | Inr s \<Rightarrow> (if trim s = [] then None else Some (trim s)))"

subsection \<open>Walking over the daemons\<close>

datatype clean_reason = ProcessGone | UnreadablePidFile | OrphanedSocket | DashboardGone

record daemon_inventory =
  di_sessions :: "(string \<times> nat \<times> string option) list"
  di_cleaned :: "(string \<times> clean_reason) list"
  di_dashboard :: "(nat \<times> bool) option"

definition empty_inventory :: daemon_inventory where
  "empty_inventory = \<lparr>di_sessions = [], di_cleaned = [], di_dashboard = None\<rparr>"

definition cleaned :: "string \<Rightarrow> clean_reason \<Rightarrow> daemon_inventory \<Rightarrow> daemon_inventory" where
  "cleaned name why got = got\<lparr>di_cleaned := di_cleaned got @ [(name, why)]\<rparr>"

definition strip_suffix :: "string \<Rightarrow> string \<Rightarrow> string option" where
  "strip_suffix sfx s = (if ends_with sfx s then Some (take (length s - length sfx) s) else None)"

definition entry_text :: "client_env \<Rightarrow> string \<Rightarrow> node \<Rightarrow> io_error + string" where
  "entry_text env name fs = fs_read_to_string (client_comps env (path_join (get_socket_dir env) name)) fs"

definition read_pid :: "client_env \<Rightarrow> string \<Rightarrow> node \<Rightarrow> nat option" where
  "read_pid env name fs = (case entry_text env name fs of Inl e \<Rightarrow> None | Inr s \<Rightarrow> parse_pid s)"

definition dashboard_entry :: "client_env \<Rightarrow> string \<Rightarrow> daemon_inventory \<times> node \<Rightarrow> daemon_inventory \<times> node" where
  "dashboard_entry env name st =
     (case st of (got, fs) \<Rightarrow>
        (case read_pid env name fs of
           None \<Rightarrow> (got, fs)
         | Some pid \<Rightarrow>
             (let alive = is_pid_alive env pid; got = got\<lparr>di_dashboard := Some (pid, alive)\<rparr>
              in if alive then (got, fs)
                 else (cleaned ''dashboard'' DashboardGone got, remove_quietly env (path_join (get_socket_dir env) name) fs))))"

definition walk_entry :: "client_env \<Rightarrow> string \<Rightarrow> daemon_inventory \<times> node \<Rightarrow> daemon_inventory \<times> node" where
  "walk_entry env name st =
     (case st of (got, fs) \<Rightarrow>
        if utf8_lossy name = ''dashboard.pid'' then dashboard_entry env name (got, fs)
        else case strip_suffix ''.pid'' (utf8_lossy name) of
          None \<Rightarrow> (got, fs)
        | Some session \<Rightarrow>
            (if session = [] then (got, fs)
             else case read_pid env name fs of
               None \<Rightarrow> (cleaned session UnreadablePidFile got, cleanup_stale_files env session fs)
             | Some pid \<Rightarrow>
                 (if \<not> is_pid_alive env pid
                  then (cleaned session ProcessGone got, cleanup_stale_files env session fs)
                  else (got\<lparr>di_sessions := di_sessions got @ [(session, pid, read_session_version env session fs)]\<rparr>, fs))))"

definition socket_entry :: "client_env \<Rightarrow> string \<Rightarrow> daemon_inventory \<times> node \<Rightarrow> daemon_inventory \<times> node" where
  "socket_entry env name st =
     (case st of (got, fs) \<Rightarrow>
        (case strip_suffix ''.sock'' (utf8_lossy name) of
           None \<Rightarrow> (got, fs)
         | Some session \<Rightarrow>
             (if session = [] \<or> fs_exists fs (client_comps env (pid_path env session)) then (got, fs)
              else (cleaned session OrphanedSocket got, cleanup_stale_files env session fs))))"

definition socket_names :: "client_env \<Rightarrow> node \<Rightarrow> io_error + string list" where
  "socket_names env fs =
     and_then (canonicalize fs (client_comps env (get_socket_dir env)))
       (\<lambda>d. and_then (fs_read_dir d fs) (\<lambda>es. Inr (map fst es)))"

definition walk_daemons :: "client_env \<Rightarrow> node \<Rightarrow> daemon_inventory \<times> node" where
  "walk_daemons env fs =
     (case socket_names env fs of
        Inl e \<Rightarrow> (empty_inventory, fs)
      | Inr names \<Rightarrow>
          (case fold (walk_entry env) names (empty_inventory, fs) of
             (got, fs1) \<Rightarrow>
               (case socket_names env fs1 of
                  Inl e \<Rightarrow> (got, fs1)
                | Inr names1 \<Rightarrow> fold (socket_entry env) names1 (got, fs1))))"

subsection \<open>What a walk removes\<close>

definition sidecar :: "apath \<Rightarrow> string \<Rightarrow> apath \<Rightarrow> bool" where
  "sidecar d t q \<longleftrightarrow> (\<exists>x \<in> {''.pid'', ''.version'', ''.stream'', ''.sock''}. q = d @ [t @ x])"

definition live_as :: "client_env \<Rightarrow> apath \<Rightarrow> node \<Rightarrow> string \<Rightarrow> nat \<Rightarrow> bool" where
  "live_as env d fs t pid \<longleftrightarrow>
     (\<exists>c. stat_at fs (d @ [t @ ''.pid'']) = Some (KFile c) \<and> valid_utf8 c \<and> parse_pid c = Some pid \<and> is_pid_alive env pid)"

definition live :: "client_env \<Rightarrow> apath \<Rightarrow> node \<Rightarrow> string \<Rightarrow> bool" where
  "live env d fs t \<longleftrightarrow> (\<exists>pid. live_as env d fs t pid)"

definition plain_name :: "string \<Rightarrow> bool" where
  "plain_name n \<longleftrightarrow> \<not> has_nul n \<and> slash \<notin> set n \<and> n \<notin> {[], ''.'', ''..''}"

text \<open>A socket directory as the daemons make it: no links in it or on the way to it, and names in UTF-8.\<close>

definition plain_socket_dir :: "client_env \<Rightarrow> node \<Rightarrow> apath \<Rightarrow> bool" where
  "plain_socket_dir env fs d \<longleftrightarrow>
     by_dirs (client_comps env (get_socket_dir env)) fs d
     \<and> get_socket_dir env \<noteq> [] \<and> last (get_socket_dir env) \<noteq> slash
     \<and> (\<forall>n. stat_at fs (d @ [n]) \<noteq> None \<longrightarrow>
          plain_name n \<and> utf8_lossy n = n \<and> (\<forall>t. stat_at fs (d @ [n]) \<noteq> Some (KLink t)))"

lemma plain_entry:
  "plain_socket_dir env fs d \<Longrightarrow> stat_at fs (d @ [n]) \<noteq> None \<Longrightarrow>
     plain_name n \<and> utf8_lossy n = n \<and> (\<forall>t. stat_at fs (d @ [n]) \<noteq> Some (KLink t))"
  unfolding plain_socket_dir_def by blast

definition pruned :: "apath \<Rightarrow> node \<Rightarrow> (apath \<Rightarrow> bool) \<Rightarrow> node \<Rightarrow> bool" where
  "pruned d fs gone fs1 \<longleftrightarrow>
     (\<forall>q. stat_at fs1 q = stat_at fs q \<or> (stat_at fs q \<noteq> Some KDir \<and> stat_at fs1 q = None \<and> gone q))"

lemma pruned_weaken: "pruned d fs P fs1 \<Longrightarrow> (\<And>q. P q \<Longrightarrow> Q q) \<Longrightarrow> pruned d fs Q fs1"
  by (auto simp: pruned_def)

lemma pruned_trans: "pruned d a P b \<Longrightarrow> pruned d b Q c \<Longrightarrow> pruned d a (\<lambda>q. P q \<or> Q q) c"
  unfolding pruned_def by metis

lemma plain_pruned:
  assumes "plain_socket_dir env fs d" and "pruned d fs P fs1"
  shows "plain_socket_dir env fs1 d"
proof -
  have st: "stat_at fs1 q = stat_at fs q \<or> stat_at fs1 q = None" for q using assms(2) by (auto simp: pruned_def)
  have "by_dirs (client_comps env (get_socket_dir env)) fs1 d"
  proof (rule by_dirs_keep)
    show "by_dirs (client_comps env (get_socket_dir env)) fs d" using assms(1) by (simp add: plain_socket_dir_def)
    show "stat_at fs1 q = Some KDir" if "stat_at fs q = Some KDir" for q
      using that assms(2) unfolding pruned_def by metis
  qed
  moreover have "plain_name n \<and> utf8_lossy n = n \<and> (\<forall>t. stat_at fs1 (d @ [n]) \<noteq> Some (KLink t))"
    if "stat_at fs1 (d @ [n]) \<noteq> None" for n
  proof -
    from that st [of "d @ [n]"] have "stat_at fs1 (d @ [n]) = stat_at fs (d @ [n])" "stat_at fs (d @ [n]) \<noteq> None" by auto
    with assms(1) show ?thesis by (simp add: plain_socket_dir_def)
  qed
  ultimately show ?thesis using assms(1) by (simp add: plain_socket_dir_def)
qed

lemma entry_components:
  "plain_socket_dir env fs d \<Longrightarrow> plain_name n \<Longrightarrow>
     client_comps env (path_join (get_socket_dir env) n) = client_comps env (get_socket_dir env) @ [Normal n]"
  using os_components_join [of "get_socket_dir env" n]
  by (simp add: abs_components_def plain_socket_dir_def plain_name_def)

lemma remove_quietly_pruned:
  assumes p: "plain_socket_dir env fs d" and n: "plain_name n"
  shows "pruned d fs (\<lambda>q. q = d @ [n]) (remove_quietly env (path_join (get_socket_dir env) n) fs)"
proof -
  have d: "canonicalize fs (client_comps env (get_socket_dir env)) = Inr d" "stat_at fs d = Some KDir"
    using p by_dirs_here by (auto simp: plain_socket_dir_def)
  have "entry_of fs (client_comps env (path_join (get_socket_dir env) n)) = Inr (d @ [n])"
    using entry_of_name [OF d] n by (simp add: entry_components [OF p n] plain_name_def)
  then show ?thesis by (auto simp: remove_quietly_def pruned_def remove_file_at)
qed

lemma cleanup_pruned:
  assumes p: "plain_socket_dir env fs d" and n: "\<And>x. x \<in> {''.pid'', ''.version'', ''.stream'', ''.sock''} \<Longrightarrow> plain_name (t @ x)"
  shows "pruned d fs (sidecar d t) (cleanup_stale_files env t fs)"
proof -
  let ?r = "\<lambda>x. remove_quietly env (path_join (get_socket_dir env) (t @ x))"
  let ?a = "?r ''.pid'' fs" let ?b = "?r ''.version'' ?a" let ?c = "?r ''.stream'' ?b"
  have a: "pruned d fs (\<lambda>q. q = d @ [t @ ''.pid'']) ?a" by (rule remove_quietly_pruned [OF p n]) simp
  note pa = plain_pruned [OF p a]
  have b: "pruned d ?a (\<lambda>q. q = d @ [t @ ''.version'']) ?b" by (rule remove_quietly_pruned [OF pa n]) simp
  note pb = plain_pruned [OF pa b]
  have c: "pruned d ?b (\<lambda>q. q = d @ [t @ ''.stream'']) ?c" by (rule remove_quietly_pruned [OF pb n]) simp
  note pc = plain_pruned [OF pb c]
  have e: "pruned d ?c (\<lambda>q. q = d @ [t @ ''.sock'']) (?r ''.sock'' ?c)" by (rule remove_quietly_pruned [OF pc n]) simp
  have "pruned d fs (sidecar d t) (?r ''.sock'' ?c)"
    by (rule pruned_weaken [OF pruned_trans [OF pruned_trans [OF pruned_trans [OF a b] c] e]]) (auto simp: sidecar_def)
  then show ?thesis
    by (simp add: cleanup_stale_files_def socket_path_def version_path_def pid_path_def session_file_def)
qed

lemma sidecar_pid: "sidecar d t (d @ [s @ ''.pid'']) \<Longrightarrow> t = s"
proof -
  assume "sidecar d t (d @ [s @ ''.pid''])"
  then obtain x where x: "x \<in> {''.pid'', ''.version'', ''.stream'', ''.sock''}" and eq: "s @ ''.pid'' = t @ x"
    by (auto simp: sidecar_def)
  have "last (t @ x) = CHR ''d''" using arg_cong [OF eq, of last] by simp
  with x eq show "t = s" by auto
qed

text \<open>Names with an extension of a session whose process file or socket is a plain name.\<close>

lemma plain_session:
  assumes "plain_name (t @ x)" and "y \<in> {''.pid'', ''.version'', ''.stream'', ''.sock''}"
  shows "plain_name (t @ y)"
proof -
  have "t @ y \<notin> {[], ''.'', ''..''}" using assms(2) by (cases t; cases "tl t") auto
  with assms show ?thesis by (auto simp: plain_name_def has_nul_def slash_def)
qed

definition cleaned_file :: "apath \<Rightarrow> daemon_inventory \<Rightarrow> apath \<Rightarrow> bool" where
  "cleaned_file d got q \<longleftrightarrow> (\<exists>t why. (t, why) \<in> set (di_cleaned got) \<and> sidecar d t q)"

text \<open>What holds after some names have been walked over: only files of sessions that were not alive are
  gone, and the sessions found are those of the names that are.\<close>

definition walked :: "client_env \<Rightarrow> apath \<Rightarrow> node \<Rightarrow> string set \<Rightarrow> daemon_inventory \<times> node \<Rightarrow> bool" where
  "walked env d fs seen_names st \<longleftrightarrow>
     pruned d fs (cleaned_file d (fst st)) (snd st)
     \<and> (\<forall>t why. (t, why) \<in> set (di_cleaned (fst st)) \<longrightarrow> \<not> live env d fs t)
     \<and> (\<forall>t pid. (\<exists>v. (t, pid, v) \<in> set (di_sessions (fst st))) \<longleftrightarrow>
          t @ ''.pid'' \<in> seen_names \<and> t \<noteq> [] \<and> t \<noteq> ''dashboard'' \<and> live_as env d fs t pid)"

lemma walked_live:
  assumes "walked env d fs S (got, fs1)"
  shows "live_as env d fs1 t pid \<longleftrightarrow> live_as env d fs t pid"
proof -
  let ?q = "d @ [t @ ''.pid'']"
  have pr: "stat_at fs1 ?q = stat_at fs ?q \<or> (stat_at fs1 ?q = None \<and> cleaned_file d got ?q)"
    using assms unfolding walked_def pruned_def by auto
  have "\<not> live env d fs t" if "cleaned_file d got ?q"
    using that assms sidecar_pid unfolding walked_def cleaned_file_def by fastforce
  from pr show ?thesis
  proof (elim disjE conjE)
    assume "stat_at fs1 ?q = None" "cleaned_file d got ?q"
    with \<open>cleaned_file d got ?q \<Longrightarrow> \<not> live env d fs t\<close> show ?thesis by (auto simp: live_as_def live_def)
  qed (simp add: live_as_def)
qed

lemma read_pid_iff:
  assumes p: "plain_socket_dir env fs d" and n: "plain_name n"
  shows "read_pid env n fs = Some pid \<longleftrightarrow> (\<exists>c. stat_at fs (d @ [n]) = Some (KFile c) \<and> valid_utf8 c \<and> parse_pid c = Some pid)"
proof -
  have d: "canonicalize fs (client_comps env (get_socket_dir env)) = Inr d" "stat_at fs d = Some KDir"
    using p by_dirs_here by (auto simp: plain_socket_dir_def)
  have l: "stat_at fs (d @ [n]) \<noteq> Some (KLink t)" for t
  proof
    assume link: "stat_at fs (d @ [n]) = Some (KLink t)"
    then have "stat_at fs (d @ [n]) \<noteq> None" by simp
    from plain_entry [OF p this] link show False by blast
  qed
  have nul: "\<not> has_nul n" using n by (simp add: plain_name_def)
  have "entry_text env n fs = Inr c \<longleftrightarrow> stat_at fs (d @ [n]) = Some (KFile c) \<and> valid_utf8 c" for c
    unfolding entry_text_def entry_components [OF p n] by (rule read_name_iff(1) [OF d nul l])
  moreover have "read_pid env n fs = Some pid \<longleftrightarrow> (\<exists>c. entry_text env n fs = Inr c \<and> parse_pid c = Some pid)"
    by (cases "entry_text env n fs") (simp_all add: read_pid_def)
  ultimately show ?thesis by simp
qed

lemma read_live:
  assumes p: "plain_socket_dir env fs d" and w: "walked env d fs S (got, fs1)" and n: "plain_name (t @ ''.pid'')"
  shows "(\<exists>pid. read_pid env (t @ ''.pid'') fs1 = Some pid \<and> is_pid_alive env pid) \<longleftrightarrow> live env d fs t"
    and "read_pid env (t @ ''.pid'') fs1 = Some pid \<and> is_pid_alive env pid \<longleftrightarrow> live_as env d fs t pid"
proof -
  have "plain_socket_dir env fs1 d" using w by (intro plain_pruned [OF p]) (auto simp: walked_def)
  from read_pid_iff [OF this n] show one: "read_pid env (t @ ''.pid'') fs1 = Some pid \<and> is_pid_alive env pid \<longleftrightarrow> live_as env d fs t pid" for pid
    unfolding walked_live [OF w, symmetric] by (auto simp: live_as_def)
  show "(\<exists>pid. read_pid env (t @ ''.pid'') fs1 = Some pid \<and> is_pid_alive env pid) \<longleftrightarrow> live env d fs t"
    using one by (auto simp: live_def)
qed

text \<open>Cleaning up a session that is not alive keeps the invariant.\<close>

lemma walked_cleaned:
  assumes w: "walked env d fs S (got, fs1)" and dead: "\<not> live env d fs t"
    and pr: "pruned d fs1 P fs2" "\<And>q. P q \<Longrightarrow> sidecar d t q"
  shows "walked env d fs S (cleaned t why got, fs2)"
proof -
  have "pruned d fs (\<lambda>q. cleaned_file d got q \<or> P q) fs2"
    using w pr(1) by (intro pruned_trans) (auto simp: walked_def)
  then have "pruned d fs (cleaned_file d (cleaned t why got)) fs2"
    by (rule pruned_weaken) (use pr(2) in \<open>auto simp: cleaned_file_def cleaned_def\<close>)
  with w dead show ?thesis by (auto simp: walked_def cleaned_def)
qed

lemma strip_suffix_iff: "strip_suffix x n = Some t \<longleftrightarrow> n = t @ x"
proof
  assume "strip_suffix x n = Some t"
  then obtain u where u: "rev n = rev x @ u" and t: "t = take (length n - length x) n"
    by (auto simp: strip_suffix_def ends_with_def starts_with_iff split: if_splits)
  from u have n: "n = rev u @ x" by (metis rev_append rev_rev_ident)
  with t show "n = t @ x" by simp
qed (simp add: strip_suffix_def ends_with_def starts_with_def)

lemma walked_skip:
  assumes "walked env d fs S st" and "\<And>t. n = t @ ''.pid'' \<Longrightarrow> t = [] \<or> t = ''dashboard'' \<or> \<not> live env d fs t"
  shows "walked env d fs (insert n S) st"
  using assms unfolding walked_def live_def by (metis insert_iff)

lemma cleaned_file_update [simp]:
  "cleaned_file d (got\<lparr>di_dashboard := x\<rparr>) = cleaned_file d got" "cleaned_file d (got\<lparr>di_sessions := ss\<rparr>) = cleaned_file d got"
  by (simp_all add: cleaned_file_def fun_eq_iff)

lemma walked_found:
  assumes w: "walked env d fs S (got, fs1)" and l: "live_as env d fs t pid" and t: "t \<noteq> []" "t \<noteq> ''dashboard''"
  shows "walked env d fs (insert (t @ ''.pid'') S) (got\<lparr>di_sessions := di_sessions got @ [(t, pid, v)]\<rparr>, fs1)"
proof -
  have only: "live_as env d fs t p \<longleftrightarrow> p = pid" for p using l by (auto simp: live_as_def)
  have old: "(\<exists>v. (t', pid', v) \<in> set (di_sessions got)) \<longleftrightarrow>
      t' @ ''.pid'' \<in> S \<and> t' \<noteq> [] \<and> t' \<noteq> ''dashboard'' \<and> live_as env d fs t' pid'" for t' pid'
    using w by (simp add: walked_def)
  have "(\<exists>v'. (t', pid', v') \<in> set (di_sessions got @ [(t, pid, v)])) \<longleftrightarrow>
      t' @ ''.pid'' \<in> insert (t @ ''.pid'') S \<and> t' \<noteq> [] \<and> t' \<noteq> ''dashboard'' \<and> live_as env d fs t' pid'" for t' pid'
  proof -
    have "(\<exists>v'. (t', pid', v') \<in> set (di_sessions got @ [(t, pid, v)])) \<longleftrightarrow>
        (\<exists>v. (t', pid', v) \<in> set (di_sessions got)) \<or> (t' = t \<and> pid' = pid)" by auto
    then show ?thesis unfolding old using only t by (cases "t' = t") auto
  qed
  with w show ?thesis by (simp add: walked_def)
qed

lemma walk_entry_walked:
  assumes p: "plain_socket_dir env fs d" and w: "walked env d fs S (got, fs1)" and here: "stat_at fs (d @ [n]) \<noteq> None"
  shows "walked env d fs (insert n S) (walk_entry env n (got, fs1))"
proof -
  from plain_entry [OF p here] have pn: "plain_name n" and u: "utf8_lossy n = n" by auto
  have p1: "plain_socket_dir env fs1 d" using w by (intro plain_pruned [OF p]) (auto simp: walked_def)
  show ?thesis
  proof (cases "n = ''dashboard.pid''")
    case True
    then have n: "n = ''dashboard'' @ ''.pid''" by simp
    have skip: "walked env d fs (insert n S) st" if "walked env d fs S st" for st
      by (rule walked_skip [OF that]) (use n in simp)
    have same: "walked env d fs S (got\<lparr>di_dashboard := x\<rparr>, fs1)" for x
      using w by (simp add: walked_def)
    have gone: "walked env d fs S (cleaned ''dashboard'' DashboardGone (got\<lparr>di_dashboard := x\<rparr>),
        remove_quietly env (path_join (get_socket_dir env) n) fs1)" if "\<not> live env d fs ''dashboard''" for x
      by (rule walked_cleaned [OF same that remove_quietly_pruned [OF p1 pn]]) (auto simp: n sidecar_def)
    show ?thesis
    proof (cases "read_pid env n fs1")
      case (Some pid)
      with read_live(1) [OF p w, of "''dashboard''"] pn n have "\<not> is_pid_alive env pid \<Longrightarrow> \<not> live env d fs ''dashboard''" by auto
      with Some gone same skip True u show ?thesis by (auto simp: walk_entry_def dashboard_entry_def Let_def)
    qed (use skip w True u in \<open>simp add: walk_entry_def dashboard_entry_def\<close>)
  next
    case nd: False
    show ?thesis
    proof (cases "strip_suffix ''.pid'' n")
      case None
      then have "n \<noteq> t @ ''.pid''" for t using strip_suffix_iff [of "''.pid''" n t] by simp
      then have "walked env d fs (insert n S) (got, fs1)" by (intro walked_skip [OF w]) blast
      with None nd u show ?thesis by (simp add: walk_entry_def)
    next
      case (Some t)
      then have n: "n = t @ ''.pid''" by (simp add: strip_suffix_iff)
      with nd have tn: "t \<noteq> ''dashboard''" by auto
      have pt: "plain_name (t @ ''.pid'')" using pn n by simp
      have pc: "pruned d fs1 (sidecar d t) (cleanup_stale_files env t fs1)"
        by (rule cleanup_pruned [OF p1 plain_session [OF pt]])
      have dead: "walked env d fs (insert n S) (cleaned t why got, cleanup_stale_files env t fs1)"
        if "\<not> live env d fs t" for why
        using walked_cleaned [OF w that pc] that n by (intro walked_skip) auto
      note lv = read_live [OF p w pt, folded n]
      show ?thesis
      proof (cases "t = []")
        case True
        with w n have "walked env d fs (insert n S) (got, fs1)" by (intro walked_skip [OF w]) simp
        with Some nd u True show ?thesis by (simp add: walk_entry_def)
      next
        case False
        show ?thesis
        proof (cases "read_pid env n fs1")
          case None
          with lv(1) have "\<not> live env d fs t" by simp
          with dead Some nd u False None show ?thesis by (simp add: walk_entry_def)
        next
          case pid: (Some pid)
          show ?thesis
          proof (cases "is_pid_alive env pid")
            case True
            with lv(2) [of pid] pid have "live_as env d fs t pid" by simp
            from walked_found [OF w this False tn] True Some nd u False pid n show ?thesis by (simp add: walk_entry_def)
          next
            case no: False
            with lv(1) pid have "\<not> live env d fs t" by simp
            with dead Some nd u False no pid show ?thesis by (simp add: walk_entry_def)
          qed
        qed
      qed
    qed
  qed
qed

lemma walk_entries_walked:
  assumes p: "plain_socket_dir env fs d"
  shows "\<forall>n \<in> set ns. stat_at fs (d @ [n]) \<noteq> None \<Longrightarrow> walked env d fs S st \<Longrightarrow>
    walked env d fs (S \<union> set ns) (fold (walk_entry env) ns st)"
proof (induction ns arbitrary: S st)
  case (Cons n ns)
  obtain got fs1 where st: "st = (got, fs1)" by force
  have "walked env d fs (insert n S) (walk_entry env n st)"
    unfolding st by (rule walk_entry_walked [OF p]) (use Cons.prems st in auto)
  from Cons.IH [OF _ this] Cons.prems(1) show ?case by simp
qed simp

lemma socket_entry_walked:
  assumes p: "plain_socket_dir env fs d" and w: "walked env d fs S (got, fs1)" and here: "stat_at fs (d @ [n]) \<noteq> None"
  shows "walked env d fs S (socket_entry env n (got, fs1))"
proof (cases "strip_suffix ''.sock'' n")
  case None
  then show ?thesis using w plain_entry [OF p here] by (simp add: socket_entry_def)
next
  case (Some t)
  from plain_entry [OF p here] have u: "utf8_lossy n = n" by simp
  from Some have n: "n = t @ ''.sock''" by (simp add: strip_suffix_iff)
  have p1: "plain_socket_dir env fs1 d" using w by (intro plain_pruned [OF p]) (auto simp: walked_def)
  have pn: "plain_name (t @ x)" if "x \<in> {''.pid'', ''.version'', ''.stream'', ''.sock''}" for x
  proof -
    have "plain_name (t @ ''.sock'')" using plain_entry [OF p here] unfolding n by blast
    then show ?thesis using that by (rule plain_session)
  qed
  show ?thesis
  proof (cases "t = [] \<or> fs_exists fs1 (client_comps env (pid_path env t))")
    case True
    with w Some u show ?thesis by (auto simp: socket_entry_def)
  next
    case False
    have pid: "plain_name (t @ ''.pid'')" by (rule pn) simp
    have d: "canonicalize fs1 (client_comps env (get_socket_dir env)) = Inr d" "stat_at fs1 d = Some KDir"
      using p1 by_dirs_here by (auto simp: plain_socket_dir_def)
    have l: "stat_at fs1 (d @ [t @ ''.pid'']) \<noteq> Some (KLink x)" for x
    proof
      assume link: "stat_at fs1 (d @ [t @ ''.pid'']) = Some (KLink x)"
      then have "stat_at fs1 (d @ [t @ ''.pid'']) \<noteq> None" by simp
      from plain_entry [OF p1 this] link show False by blast
    qed
    have nul: "\<not> has_nul (t @ ''.pid'')" using pid by (simp add: plain_name_def)
    have "stat_at fs1 (d @ [t @ ''.pid'']) = None"
      using False read_name_iff(2) [OF d nul l] entry_components [OF p1 pid]
      by (simp add: pid_path_def session_file_def)
    then have "\<not> live_as env d fs1 t pid" for pid by (simp add: live_as_def)
    then have dead: "\<not> live env d fs t" using walked_live [OF w] by (simp add: live_def)
    have "walked env d fs S (cleaned t OrphanedSocket got, cleanup_stale_files env t fs1)"
      by (rule walked_cleaned [OF w dead cleanup_pruned [OF p1 pn]])
    with False Some u show ?thesis by (simp add: socket_entry_def)
  qed
qed

lemma socket_entries_walked:
  assumes p: "plain_socket_dir env fs d"
  shows "\<forall>n \<in> set ns. stat_at fs (d @ [n]) \<noteq> None \<Longrightarrow> walked env d fs S st \<Longrightarrow> walked env d fs S (fold (socket_entry env) ns st)"
proof (induction ns arbitrary: st)
  case (Cons n ns)
  obtain got fs1 where st: "st = (got, fs1)" by force
  have "walked env d fs S (socket_entry env n st)"
    unfolding st by (rule socket_entry_walked [OF p]) (use Cons.prems st in auto)
  with Cons show ?case by simp
qed simp

lemma socket_names_listed:
  assumes p: "plain_socket_dir env fs d"
  shows "\<exists>ns. socket_names env fs = Inr ns \<and> (\<forall>n. n \<in> set ns \<longleftrightarrow> stat_at fs (d @ [n]) \<noteq> None)"
proof -
  have d: "canonicalize fs (client_comps env (get_socket_dir env)) = Inr d" "stat_at fs d = Some KDir"
    using p by_dirs_here by (auto simp: plain_socket_dir_def)
  then obtain ds where ds: "lookup fs d = Some (Dir ds)"
    by (auto simp: stat_at_def kind_of_node_KDir_iff)
  have st: "stat_at fs (d @ [n]) = map_option kind_of_node (map_of ds n)" for n
    using ds by (auto simp: stat_at_def lookup_append split: option.splits)
  have "socket_names env fs = Inr (map fst ds)"
    using d(1) ds by (simp add: socket_names_def fs_read_dir_def comp_def case_prod_beta)
  moreover have "n \<in> set (map fst ds) \<longleftrightarrow> map_of ds n \<noteq> None" for n
    using map_of_eq_None_iff [of ds n] by simp
  ultimately show ?thesis using st by auto
qed

text \<open>C37: walking over a socket directory without links, in it or on the way to it, whose path has no final
  slash and whose file names are all UTF-8, finds exactly the sessions whose process file names a process that is alive, and removes
  nothing but files of sessions for which it does not: in such a directory the files of a live
  session stay. The condition on the names is needed: a stray file may take the files of a live
  session with it when its name is not UTF-8 (\<open>broken_name_removes_live_session\<close>). A session called
  dashboard is never found.\<close>

theorem walk_spares_live_daemons:
  assumes p: "plain_socket_dir env fs d" and run: "walk_daemons env fs = (got, fs')"
  shows "(\<forall>t pid. (\<exists>v. (t, pid, v) \<in> set (di_sessions got)) \<longleftrightarrow> t \<noteq> [] \<and> t \<noteq> ''dashboard'' \<and> live_as env d fs t pid)
    \<and> (\<forall>q. stat_at fs' q \<noteq> stat_at fs q \<longrightarrow> stat_at fs' q = None
          \<and> (\<exists>t why. (t, why) \<in> set (di_cleaned got) \<and> \<not> live env d fs t \<and> sidecar d t q))"
proof -
  obtain ns where ns: "socket_names env fs = Inr ns" "\<And>n. n \<in> set ns \<longleftrightarrow> stat_at fs (d @ [n]) \<noteq> None"
    using socket_names_listed [OF p] by blast
  obtain got1 fs1 where f1: "fold (walk_entry env) ns (empty_inventory, fs) = (got1, fs1)" by force
  have "walked env d fs {} (empty_inventory, fs)"
    by (simp add: walked_def pruned_def empty_inventory_def)
  from walk_entries_walked [OF p _ this, of ns] ns(2) have w1: "walked env d fs (set ns) (got1, fs1)" by (simp add: f1)
  have p1: "plain_socket_dir env fs1 d" using w1 by (intro plain_pruned [OF p]) (auto simp: walked_def)
  obtain ns1 where ns1: "socket_names env fs1 = Inr ns1" "\<And>n. n \<in> set ns1 \<longleftrightarrow> stat_at fs1 (d @ [n]) \<noteq> None"
    using socket_names_listed [OF p1] by blast
  have "stat_at fs (d @ [n]) \<noteq> None" if "n \<in> set ns1" for n
    using that ns1(2) [of n] w1 unfolding walked_def pruned_def by (metis snd_conv)
  then have "walked env d fs (set ns) (fold (socket_entry env) ns1 (got1, fs1))"
    by (intro socket_entries_walked [OF p _ w1]) blast
  with run ns(1) f1 ns1(1) have w: "walked env d fs (set ns) (got, fs')" by (simp add: walk_daemons_def)
  have "t @ ''.pid'' \<in> set ns" if "live_as env d fs t pid" for t pid
    using that ns(2) by (auto simp: live_as_def)
  with w have "(\<exists>v. (t, pid, v) \<in> set (di_sessions got)) \<longleftrightarrow> t \<noteq> [] \<and> t \<noteq> ''dashboard'' \<and> live_as env d fs t pid" for t pid
    unfolding walked_def by (metis fst_conv)
  moreover have "stat_at fs' q = None \<and> (\<exists>t why. (t, why) \<in> set (di_cleaned got) \<and> \<not> live env d fs t \<and> sidecar d t q)"
    if "stat_at fs' q \<noteq> stat_at fs q" for q
    using that w unfolding walked_def pruned_def cleaned_file_def by (metis fst_conv snd_conv)
  ultimately show ?thesis by blast
qed

definition example_client :: client_env where
  "example_client =
     \<lparr>cl_socket_var = Some ''/s'', cl_runtime_var = None, cl_home = None, cl_tmp = ''/tmp'', cl_cwd = [],
      cl_alive = (\<lambda>p. p = 7), cl_version = ''1.0''\<rparr>"

definition example_sockets :: node where
  "example_sockets = Dir [(''s'', Dir [(''a.pid'', RegFile ''7''), (''a.sock'', RegFile []), (''b.pid'', RegFile ''8''), (''c.sock'', RegFile [])])]"

theorem walk_spares_live_daemons_witness:
  "plain_socket_dir example_client example_sockets [''s'']
   \<and> (\<exists>v. (''a'', 7, v) \<in> set (di_sessions (fst (walk_daemons example_client example_sockets))))
   \<and> stat_at (snd (walk_daemons example_client example_sockets)) [''s'', ''a.sock''] = Some (KFile [])
   \<and> stat_at (snd (walk_daemons example_client example_sockets)) [''s'', ''b.pid''] = None"
proof -
  have cs: "client_comps example_client (get_socket_dir example_client) = [RootDir, RootDir, Normal ''s'']" by code_simp
  have dirs: "stat_at example_sockets [] = Some KDir" "stat_at example_sockets [''s''] = Some KDir" by code_simp+
  have nul: "\<not> has_nul ''s''" by code_simp
  have "by_dirs [RootDir, RootDir, Normal ''s''] example_sockets [''s'']"
    using dirs nul by (auto simp: by_dirs_def canonicalize_def)
  moreover have "get_socket_dir example_client = ''/s''" by code_simp
  moreover have "plain_name n \<and> utf8_lossy n = n \<and> (\<forall>t. stat_at example_sockets ([''s''] @ [n]) \<noteq> Some (KLink t))"
    if "stat_at example_sockets ([''s''] @ [n]) \<noteq> None" for n
  proof -
    from that have n: "n \<in> {''a.pid'', ''a.sock'', ''b.pid'', ''c.sock''}"
      by (auto simp: stat_at_def example_sockets_def split: if_splits)
    have "list_all (\<lambda>n. plain_name n \<and> utf8_lossy n = n \<and> (case stat_at example_sockets [''s'', n] of Some (KLink t) \<Rightarrow> False | _ \<Rightarrow> True))
        [''a.pid'', ''a.sock'', ''b.pid'', ''c.sock'']" by code_simp
    with n have "plain_name n \<and> utf8_lossy n = n \<and> (case stat_at example_sockets [''s'', n] of Some (KLink t) \<Rightarrow> False | _ \<Rightarrow> True)"
      by (auto simp: list_all_iff)
    then show ?thesis by auto
  qed
  ultimately have p: "plain_socket_dir example_client example_sockets [''s'']"
    unfolding plain_socket_dir_def cs by (simp add: slash_def)
  have l: "live_as example_client [''s''] example_sockets ''a'' 7"
  proof -
    have "stat_at example_sockets ([''s''] @ [''a'' @ ''.pid'']) = Some (KFile ''7'')" "valid_utf8 ''7''" "parse_pid ''7'' = Some 7"
      "is_pid_alive example_client 7" by code_simp+
    then show ?thesis unfolding live_as_def by blast
  qed
  have rest: "stat_at (snd (walk_daemons example_client example_sockets)) [''s'', ''a.sock''] = Some (KFile [])"
      "stat_at (snd (walk_daemons example_client example_sockets)) [''s'', ''b.pid''] = None" by code_simp+
  from walk_spares_live_daemons [OF p surjective_pairing] l
  have "\<exists>v. (''a'', 7, v) \<in> set (di_sessions (fst (walk_daemons example_client example_sockets)))" by simp
  with p rest show ?thesis by blast
qed

text \<open>The name of a file is made UTF-8 before the session is cut out of it, so a stray file whose name is
  a broken byte stands for the session named U+FFFD and its unreadable text for a dead one.\<close>

definition broken_sockets :: node where
  "broken_sockets =
     Dir [(''s'', Dir [([CHR 0xFF] @ ''.pid'', RegFile ''x''), ([CHR 0xEF, CHR 0xBF, CHR 0xBD] @ ''.pid'', RegFile ''7'')])]"

lemma broken_name_removes_live_session:
  "stat_at broken_sockets [''s'', [CHR 0xEF, CHR 0xBF, CHR 0xBD] @ ''.pid''] = Some (KFile ''7'')"
  "is_pid_alive example_client 7"
  "stat_at (snd (walk_daemons example_client broken_sockets)) [''s'', [CHR 0xEF, CHR 0xBF, CHR 0xBD] @ ''.pid''] = None"
  by code_simp+

subsection \<open>Sending a command\<close>

record response =
  rs_success :: bool
  rs_data :: "json option"
  rs_error :: "string option"
  rs_warning :: "string option"

record 'w client_ops =
  co_connect :: "string \<Rightarrow> 'w \<Rightarrow> (string + unit) \<times> 'w"
  co_sleep :: "nat \<Rightarrow> 'w \<Rightarrow> 'w"
  co_write :: "string \<Rightarrow> 'w \<Rightarrow> (string + unit) \<times> 'w"
  co_read_line :: "'w \<Rightarrow> (string + string) \<times> 'w"
  co_fs :: "'w \<Rightarrow> node"
  co_set_fs :: "node \<Rightarrow> 'w \<Rightarrow> 'w"
  co_kill :: "int \<Rightarrow> nat \<Rightarrow> 'w \<Rightarrow> bool \<times> 'w"
  co_exe :: "'w \<Rightarrow> string + string"
  co_spawn :: "string \<Rightarrow> (string \<times> string) list \<Rightarrow> 'w \<Rightarrow> (string + unit) \<times> 'w"
  co_exited :: "'w \<Rightarrow> string option \<times> 'w"
  co_serde :: serde_json
  co_response :: "string \<Rightarrow> string + response"

definition TRANSIENT_ERRORS :: "string list" where
  "TRANSIENT_ERRORS =
     [''os error 35'', ''os error 11'', ''WouldBlock'', ''Resource temporarily unavailable'', ''EOF'', ''line 1 column 0'',
      ''Connection reset'', ''Broken pipe'', ''os error 54'', ''os error 104'', ''os error 2'', ''os error 61'',
      ''os error 111'', ''os error 10061'', ''os error 10054'']"

definition is_transient_error :: "string \<Rightarrow> bool" where
  "is_transient_error e \<longleftrightarrow> list_ex (\<lambda>p. contains_str p e) TRANSIENT_ERRORS"

definition connect :: "'w client_ops \<Rightarrow> client_env \<Rightarrow> string \<Rightarrow> 'w \<Rightarrow> (string + unit) \<times> 'w" where
  "connect ops env session w =
     (case co_connect ops (socket_path env session) w of (r, w1) \<Rightarrow> (map_err (\<lambda>e. ''Failed to connect: '' @ e) r, w1))"

definition send_command_once :: "'w client_ops \<Rightarrow> client_env \<Rightarrow> json \<Rightarrow> string \<Rightarrow> 'w \<Rightarrow> (string + response) \<times> 'w" where
  "send_command_once ops env cmd session w =
     (case connect ops env session w of
        (Inl e, w1) \<Rightarrow> (Inl e, w1)
      | (Inr u, w1) \<Rightarrow>
          (case ser_str (co_serde ops) cmd of
             Inl e \<Rightarrow> (Inl e, w1)
           | Inr line \<Rightarrow>
               (case co_write ops (line @ [CHR 0x0A]) w1 of
                  (Inl e, w2) \<Rightarrow> (Inl (''Failed to send: '' @ e), w2)
                | (Inr u, w2) \<Rightarrow>
                    (case co_read_line ops w2 of
                       (Inl e, w3) \<Rightarrow> (Inl (''Failed to read: '' @ e), w3)
                     | (Inr reply, w3) \<Rightarrow> (map_err (\<lambda>e. ''Invalid response: '' @ e) (co_response ops reply), w3)))))"

definition MAX_RETRIES :: nat where
  "MAX_RETRIES = 5"

definition RETRY_DELAY_MS :: nat where
  "RETRY_DELAY_MS = 200"

definition retries_exhausted :: "string \<Rightarrow> string" where
  "retries_exhausted e = e @ '' (after '' @ show_nat MAX_RETRIES @ '' retries - daemon may be busy or unresponsive)''"

fun send_tries :: "nat \<Rightarrow> 'w client_ops \<Rightarrow> client_env \<Rightarrow> json \<Rightarrow> string \<Rightarrow> nat \<Rightarrow> string \<Rightarrow> 'w \<Rightarrow> (string + response) \<times> 'w" where
  "send_tries 0 ops env cmd session tried last_error w = (Inl (retries_exhausted last_error), w)"
| "send_tries (Suc n) ops env cmd session tried last_error w =
     (let w0 = (if 0 < tried then co_sleep ops (RETRY_DELAY_MS * tried) w else w)
      in case send_command_once ops env cmd session w0 of
           (Inr r, w1) \<Rightarrow> (Inr r, w1)
         | (Inl e, w1) \<Rightarrow>
             (if is_transient_error e then send_tries n ops env cmd session (Suc tried) e w1 else (Inl e, w1)))"

definition send_command :: "'w client_ops \<Rightarrow> client_env \<Rightarrow> json \<Rightarrow> string \<Rightarrow> 'w \<Rightarrow> (string + response) \<times> 'w" where
  "send_command ops env cmd session w = send_tries MAX_RETRIES ops env cmd session 0 [] w"

subsection \<open>Starting a daemon\<close>

record daemon_options =
  dm_headed :: bool
  dm_debug :: bool
  dm_executable_path :: "string option"
  dm_extensions :: "string list"
  dm_init_scripts :: "string list"
  dm_enable :: "string list"
  dm_args :: "string option"
  dm_user_agent :: "string option"
  dm_proxy :: "string option"
  dm_proxy_bypass :: "string option"
  dm_proxy_username :: "string option"
  dm_proxy_password :: "string option"
  dm_ignore_https_errors :: bool
  dm_allow_file_access :: bool
  dm_profile :: "string option"
  dm_state :: "string option"
  dm_provider :: "string option"
  dm_device :: "string option"
  dm_session_name :: "string option"
  dm_download_path :: "string option"
  dm_allowed_domains :: "string list option"
  dm_action_policy :: "string option"
  dm_confirm_actions :: "string option"
  dm_engine :: "string option"
  dm_auto_connect :: bool
  dm_idle_timeout :: "string option"
  dm_default_timeout :: "nat option"
  dm_cdp :: "string option"
  dm_no_auto_dialog :: bool

definition env_flag :: "string \<Rightarrow> bool \<Rightarrow> (string \<times> string) list" where
  "env_flag name b = (if b then [(''AGENT_BROWSER_'' @ name, ''1'')] else [])"

definition env_list :: "string \<Rightarrow> string list \<Rightarrow> (string \<times> string) list" where
  "env_list name xs = (if xs = [] then [] else [(''AGENT_BROWSER_'' @ name, join '','' xs)])"

definition env_text :: "string \<Rightarrow> string option \<Rightarrow> (string \<times> string) list" where
  "env_text name v = (case v of None \<Rightarrow> [] | Some s \<Rightarrow> [(''AGENT_BROWSER_'' @ name, s)])"

definition apply_daemon_env :: "string \<Rightarrow> daemon_options \<Rightarrow> (string \<times> string) list" where
  "apply_daemon_env session opts =
     [(''AGENT_BROWSER_DAEMON'', ''1''), (''AGENT_BROWSER_SESSION'', session)]
     @ env_flag ''HEADED'' (dm_headed opts) @ env_flag ''DEBUG'' (dm_debug opts)
     @ env_text ''EXECUTABLE_PATH'' (dm_executable_path opts) @ env_list ''EXTENSIONS'' (dm_extensions opts)
     @ env_list ''INIT_SCRIPTS'' (dm_init_scripts opts) @ env_list ''ENABLE'' (dm_enable opts)
     @ env_text ''ARGS'' (dm_args opts) @ env_text ''USER_AGENT'' (dm_user_agent opts) @ env_text ''PROXY'' (dm_proxy opts)
     @ env_text ''PROXY_BYPASS'' (dm_proxy_bypass opts) @ env_text ''PROXY_USERNAME'' (dm_proxy_username opts)
     @ env_text ''PROXY_PASSWORD'' (dm_proxy_password opts)
     @ env_flag ''IGNORE_HTTPS_ERRORS'' (dm_ignore_https_errors opts) @ env_flag ''ALLOW_FILE_ACCESS'' (dm_allow_file_access opts)
     @ env_text ''PROFILE'' (dm_profile opts) @ env_text ''STATE'' (dm_state opts) @ env_text ''PROVIDER'' (dm_provider opts)
     @ env_text ''IOS_DEVICE'' (dm_device opts) @ env_text ''SESSION_NAME'' (dm_session_name opts)
     @ env_text ''DOWNLOAD_PATH'' (dm_download_path opts)
     @ env_text ''ALLOWED_DOMAINS'' (map_option (join '','') (dm_allowed_domains opts))
     @ env_text ''ACTION_POLICY'' (dm_action_policy opts) @ env_text ''CONFIRM_ACTIONS'' (dm_confirm_actions opts)
     @ env_text ''ENGINE'' (dm_engine opts) @ env_flag ''AUTO_CONNECT'' (dm_auto_connect opts)
     @ env_text ''IDLE_TIMEOUT_MS'' (dm_idle_timeout opts)
     @ env_text ''DEFAULT_TIMEOUT'' (map_option show_nat (dm_default_timeout opts)) @ env_text ''CDP'' (dm_cdp opts)
     @ env_flag ''NO_AUTO_DIALOG'' (dm_no_auto_dialog opts)"

definition on_fs :: "'w client_ops \<Rightarrow> (node \<Rightarrow> node) \<Rightarrow> 'w \<Rightarrow> 'w" where
  "on_fs ops f w = co_set_fs ops (f (co_fs ops w)) w"

definition daemon_ready :: "'w client_ops \<Rightarrow> client_env \<Rightarrow> string \<Rightarrow> 'w \<Rightarrow> bool \<times> 'w" where
  "daemon_ready ops env session w =
     (case co_connect ops (socket_path env session) w of (Inr u, w1) \<Rightarrow> (True, w1) | (Inl e, w1) \<Rightarrow> (False, w1))"

definition daemon_version_matches :: "client_env \<Rightarrow> string \<Rightarrow> node \<Rightarrow> bool" where
  "daemon_version_matches env session fs =
     (case fs_read_to_string (client_comps env (version_path env session)) fs of
        Inr v \<Rightarrow> trim v = cl_version env
      | Inl e \<Rightarrow> False)"

definition SIGTERM :: nat where "SIGTERM = 15"
definition SIGKILL :: nat where "SIGKILL = 9"

fun await_exit :: "nat \<Rightarrow> 'w client_ops \<Rightarrow> int \<Rightarrow> 'w \<Rightarrow> 'w" where
  "await_exit 0 ops target w = w"
| "await_exit (Suc n) ops target w =
     (case co_kill ops target 0 (co_sleep ops 100 w) of
        (exists, w1) \<Rightarrow> (if exists then await_exit n ops target w1 else w1))"

definition stop_process :: "'w client_ops \<Rightarrow> int \<Rightarrow> 'w \<Rightarrow> 'w" where
  "stop_process ops target w =
     (case co_kill ops target 0 (await_exit 10 ops target (snd (co_kill ops target SIGTERM w))) of
        (exists, w1) \<Rightarrow> (if exists then co_sleep ops 100 (snd (co_kill ops target SIGKILL w1)) else w1))"

definition kill_stale_daemon :: "'w client_ops \<Rightarrow> client_env \<Rightarrow> string \<Rightarrow> 'w \<Rightarrow> 'w" where
  "kill_stale_daemon ops env session w =
     (let w1 = on_fs ops (remove_quietly env (socket_path env session)) w;
          w2 = (case fs_read_to_string (client_comps env (pid_path env session)) (co_fs ops w1) of
                  Inl e \<Rightarrow> w1
                | Inr s \<Rightarrow> (case parse_pid s of None \<Rightarrow> w1 | Some pid \<Rightarrow> stop_process ops (signal_target pid) w1))
      in on_fs ops (cleanup_stale_files env session) w2)"

fun char_boundary :: "string \<Rightarrow> nat \<Rightarrow> nat" where
  "char_boundary t 0 = 0"
| "char_boundary t (Suc n) = (if is_continuation (t ! Suc n) then char_boundary t n else Suc n)"

definition exit_message :: "string \<Rightarrow> string" where
  "exit_message t =
     (if t = [] then ''Daemon process exited during startup with no error output. Re-run with --debug for more details.''
      else ''Daemon process exited during startup:'' @ [CHR 0x0A] @ (if 500 < length t then take (char_boundary t 500) t else t))"

fun await_start :: "nat \<Rightarrow> 'w client_ops \<Rightarrow> client_env \<Rightarrow> string \<Rightarrow> 'w \<Rightarrow> (string + bool) \<times> 'w" where
  "await_start 0 ops env session w = (Inl (''Daemon failed to start (socket: '' @ socket_path env session @ '')''), w)"
| "await_start (Suc n) ops env session w =
     (case daemon_ready ops env session w of
        (True, w1) \<Rightarrow> (Inr False, w1)
      | (False, w1) \<Rightarrow>
          (case co_exited ops w1 of
             (None, w2) \<Rightarrow> await_start n ops env session (co_sleep ops 100 w2)
           | (Some err, w2) \<Rightarrow>
               (let t = trim err
                in if contains_str ''Address already in use'' t \<or> contains_str ''Failed to bind'' t
                   then (case daemon_ready ops env session (co_sleep ops 200 w2) of
                           (True, w3) \<Rightarrow> (Inr True, w3)
                         | (False, w3) \<Rightarrow> (Inl (exit_message t), w3))
                   else (Inl (exit_message t), w2))))"

definition too_long :: "string \<Rightarrow> nat \<Rightarrow> string" where
  "too_long session n =
     ''Session name '' @ quoted session @ '' is too long. Socket path would be '' @ show_nat n @ '' bytes (max 103).'' @ [CHR 0x0A]
     @ ''Use a shorter session name or set AGENT_BROWSER_SOCKET_DIR to a shorter path.''"

text \<open>The checks before a daemon is started, on the file tree.\<close>

definition preflight :: "client_env \<Rightarrow> string \<Rightarrow> node \<Rightarrow> (string + unit) \<times> node" where
  "preflight env session fs =
     (let dir = get_socket_dir env; fs = cleanup_stale_files env session fs
      in case (if fs_exists fs (client_comps env dir) then (Inr (), fs) else create_dir_all (client_comps env dir) fs) of
           (Inl e, fs1) \<Rightarrow> (Inl (''Failed to create socket directory: '' @ io_text e), fs1)
         | (Inr u, fs1) \<Rightarrow>
             (let n = length (socket_path env session)
              in if 103 < n then (Inl (too_long session n), fs1)
                 else case fs_write (client_comps env (path_join dir ''.write_test'')) [] fs1 of
                        (Inl e, fs2) \<Rightarrow> (Inl (''Socket directory '' @ quoted dir @ '' is not writable: '' @ io_text e), fs2)
                      | (Inr u, fs2) \<Rightarrow> (Inr (), remove_quietly env (path_join dir ''.write_test'') fs2)))"

definition start_daemon :: "'w client_ops \<Rightarrow> client_env \<Rightarrow> string \<Rightarrow> daemon_options \<Rightarrow> 'w \<Rightarrow> (string + bool) \<times> 'w" where
  "start_daemon ops env session opts w =
     (case preflight env session (co_fs ops w) of
        (Inl e, fs1) \<Rightarrow> (Inl e, co_set_fs ops fs1 w)
      | (Inr u, fs1) \<Rightarrow>
          (let w1 = co_set_fs ops fs1 w
           in case co_exe ops w1 of
                Inl e \<Rightarrow> (Inl e, w1)
              | Inr exe \<Rightarrow>
                  (case co_spawn ops exe ((''AGENT_BROWSER_DAEMON'', ''1'') # apply_daemon_env session opts) w1 of
                     (Inl e, w2) \<Rightarrow> (Inl (''Failed to start daemon: '' @ e), w2)
                   | (Inr u, w2) \<Rightarrow> await_start 50 ops env session w2)))"

definition ensure_daemon :: "'w client_ops \<Rightarrow> client_env \<Rightarrow> string \<Rightarrow> daemon_options \<Rightarrow> 'w \<Rightarrow> (string + bool) \<times> 'w" where
  "ensure_daemon ops env session opts w =
     (case daemon_ready ops env session w of
        (False, w1) \<Rightarrow> start_daemon ops env session opts w1
      | (True, w1) \<Rightarrow>
          (case daemon_ready ops env session (co_sleep ops 150 w1) of
             (False, w2) \<Rightarrow> start_daemon ops env session opts w2
           | (True, w2) \<Rightarrow>
               (if daemon_version_matches env session (co_fs ops w2) then (Inr True, w2)
                else start_daemon ops env session opts (kill_stale_daemon ops env session w2))))"

subsection \<open>What retrying and starting guarantee\<close>

text \<open>The world before a try, when all tries before it have failed.\<close>

fun before_try :: "'w client_ops \<Rightarrow> client_env \<Rightarrow> json \<Rightarrow> string \<Rightarrow> nat \<Rightarrow> 'w \<Rightarrow> 'w" where
  "before_try ops env cmd session 0 w = w"
| "before_try ops env cmd session (Suc k) w =
     co_sleep ops (RETRY_DELAY_MS * Suc k) (snd (send_command_once ops env cmd session (before_try ops env cmd session k w)))"

definition try_at :: "'w client_ops \<Rightarrow> client_env \<Rightarrow> json \<Rightarrow> string \<Rightarrow> 'w \<Rightarrow> nat \<Rightarrow> (string + response) \<times> 'w" where
  "try_at ops env cmd session w k = send_command_once ops env cmd session (before_try ops env cmd session k w)"

definition passing_failure :: "string + response \<Rightarrow> bool" where
  "passing_failure r = (case r of Inl e \<Rightarrow> is_transient_error e | Inr x \<Rightarrow> False)"

definition failed_so_far :: "'w client_ops \<Rightarrow> client_env \<Rightarrow> json \<Rightarrow> string \<Rightarrow> 'w \<Rightarrow> nat \<Rightarrow> string \<times> 'w" where
  "failed_so_far ops env cmd session w k =
     (if k = 0 then ([], w) else apfst (case_sum (\<lambda>e. e) (\<lambda>x. [])) (try_at ops env cmd session w (k - 1)))"

lemma send_tries_find:
  "send_tries n ops env cmd session k (fst (failed_so_far ops env cmd session w k)) (snd (failed_so_far ops env cmd session w k)) =
     (case List.find (\<lambda>j. \<not> passing_failure (fst (try_at ops env cmd session w j))) [k..<k + n] of
        Some j \<Rightarrow> try_at ops env cmd session w j
      | None \<Rightarrow> apfst (\<lambda>e. Inl (retries_exhausted e)) (failed_so_far ops env cmd session w (k + n)))"
proof (induction n arbitrary: k)
  case 0
  then show ?case by (simp add: prod_eq_iff)
next
  case (Suc n)
  let ?w1 = "snd (failed_so_far ops env cmd session w k)"
  have now: "send_command_once ops env cmd session (if 0 < k then co_sleep ops (RETRY_DELAY_MS * k) ?w1 else ?w1)
      = try_at ops env cmd session w k"
    by (cases k) (simp_all add: try_at_def failed_so_far_def)
  obtain r w2 where r: "try_at ops env cmd session w k = (r, w2)" by force
  have plus: "Suc k + n = k + Suc n" by simp
  have upt: "[k..<k + Suc n] = k # [Suc k..<k + Suc n]" by (simp add: upt_conv_Cons del: upt_Suc)
  show ?case
  proof (cases "passing_failure r")
    case True
    then obtain e1 where e1: "r = Inl e1" "is_transient_error e1" by (auto simp: passing_failure_def split: sum.splits)
    then have "failed_so_far ops env cmd session w (Suc k) = (e1, w2)" using r by (simp add: failed_so_far_def)
    then have "send_tries n ops env cmd session (Suc k) e1 w2 =
        (case List.find (\<lambda>j. \<not> passing_failure (fst (try_at ops env cmd session w j))) [Suc k..<k + Suc n] of
           Some j \<Rightarrow> try_at ops env cmd session w j
         | None \<Rightarrow> apfst (\<lambda>e. Inl (retries_exhausted e)) (failed_so_far ops env cmd session w (k + Suc n)))"
      using Suc.IH [of "Suc k", unfolded plus] by (simp del: upt_Suc add_Suc_right)
    moreover have "List.find (\<lambda>j. \<not> passing_failure (fst (try_at ops env cmd session w j))) [k..<k + Suc n]
        = List.find (\<lambda>j. \<not> passing_failure (fst (try_at ops env cmd session w j))) [Suc k..<k + Suc n]"
      unfolding upt using r True by (simp del: upt_Suc)
    ultimately show ?thesis using now r e1 by (simp add: Let_def del: upt_Suc add_Suc_right)
  next
    case False
    then have "List.find (\<lambda>j. \<not> passing_failure (fst (try_at ops env cmd session w j))) [k..<k + Suc n] = Some k"
      unfolding upt using r by simp
    with False now r show ?thesis by (auto simp: Let_def passing_failure_def split: sum.splits simp del: upt_Suc)
  qed
qed

text \<open>C38: a command is sent at most five times: the answer is that of the first try that does not fail in
  passing, be it a response or an error that retrying cannot help, and when all five fail in
  passing it is the last error with a remark. The pause before the next try grows linearly, by 200 ms
  each time, so that five tries, the first included, have four pauses of 200 to 800 ms; the facade
  document promises exponential backoff.\<close>

theorem send_command_retries:
  "send_command ops env cmd session w =
     (case List.find (\<lambda>k. \<not> passing_failure (fst (try_at ops env cmd session w k))) [0..<5] of
        Some k \<Rightarrow> try_at ops env cmd session w k
      | None \<Rightarrow> apfst (map_err retries_exhausted) (try_at ops env cmd session w 4))"
proof -
  let ?f = "List.find (\<lambda>k. \<not> passing_failure (fst (try_at ops env cmd session w k))) [0..<5]"
  have all: "send_command ops env cmd session w =
      (case ?f of Some k \<Rightarrow> try_at ops env cmd session w k
       | None \<Rightarrow> apfst (\<lambda>e. Inl (retries_exhausted e)) (failed_so_far ops env cmd session w 5))"
    using send_tries_find [of 5 ops env cmd session 0 w, unfolded add_0] by (simp add: send_command_def MAX_RETRIES_def failed_so_far_def)
  show ?thesis
  proof (cases ?f)
    case None
    then have "passing_failure (fst (try_at ops env cmd session w 4))" by (simp add: find_None_iff)
    then obtain e w' where "try_at ops env cmd session w 4 = (Inl e, w')"
      by (cases "try_at ops env cmd session w 4") (auto simp: passing_failure_def split: sum.splits)
    with None all show ?thesis by (simp add: failed_so_far_def map_err_def)
  qed (simp add: all)
qed

text \<open>A read that times out is such a passing failure, so a command that takes longer than the timeout is
  sent again, although the daemon has it; and the test for error 2 also matches the errors 20
  to 29.\<close>

lemma slow_command_is_sent_again:
  assumes "connect ops env session w = (Inr (), w1)" and "ser_str (co_serde ops) cmd = Inr line"
    and "co_write ops (line @ [CHR 0x0A]) w1 = (Inr (), w2)"
    and "co_read_line ops w2 = (Inl ''Resource temporarily unavailable (os error 11)'', w3)"
  shows "passing_failure (fst (try_at ops env cmd session w 0))"
proof -
  have "is_transient_error (''Failed to read: '' @ ''Resource temporarily unavailable (os error 11)'')" by code_simp
  with assms show ?thesis by (simp add: try_at_def send_command_once_def passing_failure_def)
qed

lemma not_a_directory_is_transient: "is_transient_error (io_text NotADirectory)"
  by code_simp

lemma await_start_ready:
  "await_start n ops env session w = (Inr b, w') \<Longrightarrow> \<exists>w2. daemon_ready ops env session w2 = (True, w')"
proof (induction n ops env session w rule: await_start.induct)
  case (2 n ops env session w)
  obtain rd w1 where rd: "daemon_ready ops env session w = (rd, w1)" by force
  show ?case
  proof (cases rd)
    case False
    obtain ex w2 where ex: "co_exited ops w1 = (ex, w2)" by force
    show ?thesis
    proof (cases ex)
      case None
      with 2 rd False ex show ?thesis by simp
    next
      case (Some e)
      obtain rd3 w3 where "daemon_ready ops env session (co_sleep ops 200 w2) = (rd3, w3)" by force
      with 2(2) rd False ex Some show ?thesis by (cases rd3) (auto simp: Let_def split: if_splits)
    qed
  qed (use 2(2) rd in auto)
qed simp

lemma start_daemon_ready:
  assumes "start_daemon ops env session opts w = (Inr b, w')"
  shows "\<exists>exe w0 w1 w2. co_spawn ops exe ((''AGENT_BROWSER_DAEMON'', ''1'') # apply_daemon_env session opts) w0 = (Inr (), w1)
    \<and> daemon_ready ops env session w2 = (True, w')"
proof -
  from assms obtain exe w0 w1 where sp: "co_spawn ops exe ((''AGENT_BROWSER_DAEMON'', ''1'') # apply_daemon_env session opts) w0 = (Inr (), w1)"
      and aw: "await_start 50 ops env session w1 = (Inr b, w')"
    unfolding start_daemon_def by (auto simp: Let_def simp del: await_start.simps split: sum.splits prod.splits)
  from await_start_ready [OF aw] sp show ?thesis by metis
qed

text \<open>When a daemon is reported as available, the last step was a connection it accepted: either a
  running daemon of the version of this program is reused, or a process was started with the
  environment of the given options and something answered on the socket.\<close>

theorem daemon_reused_or_started:
  assumes "ensure_daemon ops env session opts w = (Inr already, w')"
  shows "\<exists>w2. daemon_ready ops env session w2 = (True, w')
    \<and> (already \<and> daemon_version_matches env session (co_fs ops w')
       \<or> (\<exists>exe w0 w1. co_spawn ops exe ((''AGENT_BROWSER_DAEMON'', ''1'') # apply_daemon_env session opts) w0 = (Inr (), w1)))"
proof -
  obtain r1 w1 where r1: "daemon_ready ops env session w = (r1, w1)" by force
  obtain r2 w2 where r2: "daemon_ready ops env session (co_sleep ops 150 w1) = (r2, w2)" by force
  have "\<exists>w3. start_daemon ops env session opts w3 = (Inr already, w')
      \<or> (already \<and> w' = w2 \<and> r2 \<and> daemon_version_matches env session (co_fs ops w2))"
    using assms r1 r2 by (cases r1; cases r2) (auto simp: ensure_daemon_def split: if_splits)
  then consider w3 where "start_daemon ops env session opts w3 = (Inr already, w')"
    | "already \<and> w' = w2 \<and> r2 \<and> daemon_version_matches env session (co_fs ops w2)" by blast
  then show ?thesis
  proof cases
    case (1 w3)
    then have "start_daemon ops env session opts w3 = (Inr already, w')" by simp
    from start_daemon_ready [OF this] show ?thesis by metis
  next
    case 2
    then have "already \<and> w' = w2 \<and> r2 \<and> daemon_version_matches env session (co_fs ops w2)" by simp
    with r2 show ?thesis by auto
  qed
qed

definition example_ops :: "node client_ops" where
  "example_ops =
     \<lparr>co_connect = (\<lambda>p w. (Inr (), w)), co_sleep = (\<lambda>n w. w), co_write = (\<lambda>t w. (Inr (), w)), co_read_line = (\<lambda>w. (Inl [], w)),
      co_fs = (\<lambda>w. w), co_set_fs = (\<lambda>fs w. fs), co_kill = (\<lambda>t s w. (False, w)), co_exe = (\<lambda>w. Inr ''/exe''),
      co_spawn = (\<lambda>e v w. (Inr (), w)), co_exited = (\<lambda>w. (None, w)), co_serde = sample_serde, co_response = (\<lambda>t. Inl t)\<rparr>"

definition no_options :: daemon_options where
  "no_options =
     \<lparr>dm_headed = False, dm_debug = False, dm_executable_path = None, dm_extensions = [], dm_init_scripts = [], dm_enable = [],
      dm_args = None, dm_user_agent = None, dm_proxy = None, dm_proxy_bypass = None, dm_proxy_username = None,
      dm_proxy_password = None, dm_ignore_https_errors = False, dm_allow_file_access = False, dm_profile = None, dm_state = None,
      dm_provider = None, dm_device = None, dm_session_name = None, dm_download_path = None, dm_allowed_domains = None,
      dm_action_policy = None, dm_confirm_actions = None, dm_engine = None, dm_auto_connect = False, dm_idle_timeout = None,
      dm_default_timeout = None, dm_cdp = None, dm_no_auto_dialog = False\<rparr>"

theorem daemon_reused_or_started_witness:
  "ensure_daemon example_ops example_client ''a'' no_options example_sockets
     = (Inr False, snd (ensure_daemon example_ops example_client ''a'' no_options example_sockets))
   \<and> (\<exists>exe w0 w1. co_spawn example_ops exe ((''AGENT_BROWSER_DAEMON'', ''1'') # apply_daemon_env ''a'' no_options) w0 = (Inr (), w1))"
proof -
  have f: "fst (ensure_daemon example_ops example_client ''a'' no_options example_sockets) = Inr False" by code_simp
  then have run: "ensure_daemon example_ops example_client ''a'' no_options example_sockets
      = (Inr False, snd (ensure_daemon example_ops example_client ''a'' no_options example_sockets))" by (simp add: prod_eq_iff)
  from daemon_reused_or_started [OF run] run show ?thesis by blast
qed

text \<open>A process file with the largest 32-bit number stands for every process: the number becomes -1, which the
  signal calls take for all processes of the user.\<close>

lemma huge_pid_signals_everyone: "signal_target (2 ^ 32 - 1) = -1"
  by (simp add: signal_target_def)

end
