(* ===== verification/Cli_Run.thy ===== *)
theory Cli_Run
  imports Cmd_Parser Daemon_Client "HOL-Library.Multiset"
begin

section \<open>Running commands\<close>

text \<open>
  Parts of \<open>agent-browser/src/main.rs\<close> that put the command parser and the daemon client together:
  proxy addresses, the batch command and closing all sessions. What is printed in text mode is
  left out; the outcome of every command, the JSON output and the exit status are modelled. The
  clock gives each command its identifier.
\<close>

subsection \<open>Proxy addresses\<close>

record parsed_proxy =
  pp_server :: string
  pp_username :: "string option"
  pp_password :: "string option"

definition nonempty :: "string \<Rightarrow> string option" where
  "nonempty s = (if s = [] then None else Some s)"

text \<open>\<open>rfind\<close> and the parts around the last occurrence.\<close>

definition rsplit_once :: "char \<Rightarrow> string \<Rightarrow> (string \<times> string) option" where
  "rsplit_once d s = map_option (\<lambda>(b, a). (rev a, rev b)) (split_once d (rev s))"

definition parse_proxy :: "string \<Rightarrow> parsed_proxy" where
  "parse_proxy s =
     (let plain = \<lparr>pp_server = s, pp_username = None, pp_password = None\<rparr>
      in case find_str ''://'' s of
           None \<Rightarrow> plain
         | Some i \<Rightarrow>
             (case rsplit_once (CHR ''@'') (drop (i + 3) s) of
                None \<Rightarrow> plain
              | Some (creds, server) \<Rightarrow>
                  (let (u, p) = (case split_once (CHR '':'') creds of
                                   Some (u, p) \<Rightarrow> (nonempty u, nonempty p)
                                 | None \<Rightarrow> (nonempty creds, None))
                   in \<lparr>pp_server = take (i + 3) s @ server, pp_username = u, pp_password = p\<rparr>)))"

subsection \<open>Batches\<close>

record 'w run_env =
  rn_ops :: "'w client_ops"
  rn_client :: client_env
  rn_cmd :: cmd_env
  rn_flags :: flags
  rn_micros :: "'w \<Rightarrow> nat"
  rn_session :: string

datatype batch_outcome = Unparsed parse_error | Answered response | Undelivered string

fun failed :: "batch_outcome \<Rightarrow> bool" where
  "failed (Answered r) = (\<not> rs_success r)"
| "failed _ = True"

definition run_one :: "'w run_env \<Rightarrow> string list \<Rightarrow> 'w \<Rightarrow> batch_outcome \<times> 'w" where
  "run_one env args w =
     (case parse_command (rn_cmd env) (rn_flags env) (rn_micros env w) args of
        Inl e \<Rightarrow> (Unparsed e, w)
      | Inr cmd \<Rightarrow>
          (case send_command (rn_ops env) (rn_client env) cmd (rn_session env) w of
             (Inr resp, w1) \<Rightarrow> (Answered resp, w1)
           | (Inl e, w1) \<Rightarrow> (Undelivered e, w1)))"

fun batch_loop :: "'w run_env \<Rightarrow> bool \<Rightarrow> string list list \<Rightarrow> 'w \<Rightarrow> (string list \<times> batch_outcome) list \<times> 'w" where
  "batch_loop env bail [] w = ([], w)"
| "batch_loop env bail (args # cmds) w =
     (if args = [] then batch_loop env bail cmds w
      else (case run_one env args w of
              (out, w1) \<Rightarrow>
                (if bail \<and> failed out then ([(args, out)], w1)
                 else apfst (Cons (args, out)) (batch_loop env bail cmds w1))))"

definition outcome_json :: "string list \<times> batch_outcome \<Rightarrow> json" where
  "outcome_json x =
     (case x of (args, out) \<Rightarrow>
        (let cmd = (''command'', JArr (map JStr args))
         in case out of
              Unparsed e \<Rightarrow> json_obj [cmd, (''success'', JBool False), (''error'', JStr (parse_error_format e))]
            | Answered r \<Rightarrow>
                json_obj [cmd, (''success'', JBool (rs_success r)), (''result'', unwrap_or JNull (rs_data r)),
                          (''error'', json_opt_str (rs_error r))]
            | Undelivered e \<Rightarrow> json_obj [cmd, (''success'', JBool False), (''error'', JStr e)]))"

definition batch_commands :: "string list list option \<Rightarrow> string + string \<Rightarrow> (string \<Rightarrow> string + string list list) \<Rightarrow> string + string list list" where
  "batch_commands args stdin decode =
     (case args of
        Some cmds \<Rightarrow> Inr cmds
      | None \<Rightarrow>
          and_then (map_err (\<lambda>e. ''Failed to read stdin: '' @ e) stdin)
            (\<lambda>t. map_err (\<lambda>e. ''Invalid JSON input: '' @ e @ ''. Expected an array of string arrays, e.g. [[\"open\", \"https://example.com\"], [\"snapshot\"]]'')
                   (decode t)))"

text \<open>The JSON text of a batch and the exit status.\<close>

definition run_batch :: "'w run_env \<Rightarrow> bool \<Rightarrow> string list list \<Rightarrow> 'w \<Rightarrow> (string \<times> nat) \<times> 'w" where
  "run_batch env bail cmds w =
     (if cmds = [] then ((''[]'', 0), w)
      else case batch_loop env bail cmds w of
             (outs, w1) \<Rightarrow>
               ((case_sum (\<lambda>e. ''[]'') (\<lambda>t. t) (ser_str (co_serde (rn_ops env)) (JArr (map outcome_json outs))),
                 if list_ex (failed \<circ> snd) outs then 1 else 0), w1))"

subsection \<open>Closing all sessions\<close>

definition close_command :: "nat \<Rightarrow> json" where
  "close_command micros = json_obj [(''id'', JStr (gen_id micros)), (''action'', JStr ''close'')]"

definition close_one :: "'w run_env \<Rightarrow> string \<Rightarrow> nat \<Rightarrow> 'w \<Rightarrow> (string option) \<times> 'w" where
  "close_one env session pid w =
     (case send_command (rn_ops env) (rn_client env) (close_command (rn_micros env w)) session w of
        (Inr r, w1) \<Rightarrow> (if rs_success r then (None, w1) else (Some (unwrap_or ''Unknown error'' (rs_error r)), w1))
      | (Inl e, w1) \<Rightarrow>
          (None, on_fs (rn_ops env) (cleanup_stale_files (rn_client env) session)
                   (snd (co_kill (rn_ops env) (signal_target pid) SIGKILL w1))))"

fun close_loop :: "'w run_env \<Rightarrow> (string \<times> nat) list \<Rightarrow> 'w \<Rightarrow> (string list \<times> (string \<times> string) list) \<times> 'w" where
  "close_loop env [] w = (([], []), w)"
| "close_loop env ((session, pid) # ss) w =
     (case close_one env session pid w of
        (r, w1) \<Rightarrow>
          (case close_loop env ss w1 of
             ((closed, bad), w2) \<Rightarrow>
               ((case r of None \<Rightarrow> (session # closed, bad) | Some e \<Rightarrow> (closed, (session, e) # bad)), w2)))"

definition close_all_json :: "string list \<Rightarrow> (string \<times> string) list \<Rightarrow> json" where
  "close_all_json closed bad =
     json_obj [(''success'', JBool (bad = [])),
       (''data'', json_obj [(''closed'', json_nat (length closed)), (''sessions'', JArr (map JStr closed)),
          (''failed'', JArr (map (\<lambda>(s, e). json_obj [(''session'', JStr s), (''error'', JStr e)]) bad))])]"

definition run_close_all :: "'w run_env \<Rightarrow> 'w \<Rightarrow> (json \<times> nat) \<times> 'w" where
  "run_close_all env w =
     (case walk_daemons (rn_client env) (co_fs (rn_ops env) w) of
        (got, fs1) \<Rightarrow>
          (let w1 = co_set_fs (rn_ops env) fs1 w
           in if di_sessions got = []
              then ((json_obj [(''success'', JBool True), (''data'', json_obj [(''closed'', json_nat 0), (''sessions'', JArr [])])], 0), w1)
              else (case close_loop env (map (\<lambda>(s, p, v). (s, p)) (di_sessions got)) w1 of
                      ((closed, bad), w2) \<Rightarrow> ((close_all_json closed bad, if bad = [] then 0 else 1), w2))))"

subsection \<open>What a batch does\<close>

text \<open>The list up to and including the first element that fails.\<close>

fun upto_first :: "('a \<Rightarrow> bool) \<Rightarrow> 'a list \<Rightarrow> 'a list" where
  "upto_first P [] = []"
| "upto_first P (x # xs) = (if P x then [x] else x # upto_first P xs)"

lemma list_ex_upto_first [simp]: "list_ex P (upto_first P xs) = list_ex P xs"
  by (induction xs) simp_all

lemma batch_loop_bail: "fst (batch_loop env True cmds w) = upto_first (failed \<circ> snd) (fst (batch_loop env False cmds w))"
proof (induction cmds arbitrary: w)
  case (Cons args cmds)
  show ?case
  proof (cases "args = []")
    case False
    obtain out w1 where "run_one env args w = (out, w1)" by force
    with False Cons.IH show ?thesis by simp
  qed (simp add: Cons.IH)
qed simp

lemma batch_loop_all: "map fst (fst (batch_loop env False cmds w)) = filter (\<lambda>c. c \<noteq> []) cmds"
proof (induction cmds arbitrary: w)
  case (Cons args cmds)
  show ?case
  proof (cases "args = []")
    case False
    obtain out w1 where "run_one env args w = (out, w1)" by force
    with False Cons.IH show ?thesis by simp
  qed (simp add: Cons.IH)
qed simp

text \<open>C39: a batch runs every command that is not empty, in order; with \<open>--bail\<close> it has the same outcomes up
  to and including the first failure and runs nothing after it; and the exit status does not
  depend on \<open>--bail\<close>: it is 1 exactly when a command fails.\<close>

theorem batch_stops_at_first_failure:
  "map fst (fst (batch_loop env False cmds w)) = filter (\<lambda>c. c \<noteq> []) cmds
   \<and> fst (batch_loop env True cmds w) = upto_first (failed \<circ> snd) (fst (batch_loop env False cmds w))
   \<and> snd (fst (run_batch env True cmds w)) = snd (fst (run_batch env False cmds w))
   \<and> (snd (fst (run_batch env bail cmds w)) = 1 \<longleftrightarrow> list_ex (failed \<circ> snd) (fst (batch_loop env False cmds w)))"
proof -
  have code: "snd (fst (run_batch env b cmds w)) = (if list_ex (failed \<circ> snd) (fst (batch_loop env b cmds w)) then 1 else 0)" for b
    by (cases "cmds = []"; cases "batch_loop env b cmds w") (simp_all add: run_batch_def)
  show ?thesis by (cases bail) (simp_all add: code batch_loop_all batch_loop_bail)
qed

text \<open>Closing all sessions accounts for every session the walk found, once.\<close>

lemma close_loop_accounts:
  "close_loop env ss w = ((closed, bad), w') \<Longrightarrow> mset closed + mset (map fst bad) = mset (map fst ss)"
proof (induction env ss w arbitrary: closed bad w' rule: close_loop.induct)
  case (2 env session pid ss w)
  obtain r w1 where r: "close_one env session pid w = (r, w1)" by force
  obtain c b w2 where rest: "close_loop env ss w1 = ((c, b), w2)" by (metis surj_pair)
  from 2(1) [OF r [symmetric] rest] have "mset c + mset (map fst b) = mset (map fst ss)" .
  with 2(2) r rest show ?case by (cases r) auto
qed simp

text \<open>The parts of a proxy address with credentials come back, whatever the password holds.\<close>

lemma split_once_fresh: "d \<notin> set a \<Longrightarrow> split_once d (a @ d # b) = Some (a, b)"
  by (induction a) auto

lemma find_scheme: "CHR '':'' \<notin> set a \<Longrightarrow> find_str ''://'' (a @ ''://'' @ b) = Some (length a)"
  by (induction a) (auto simp: starts_with_def)

lemma proxy_parts:
  assumes "CHR '':'' \<notin> set scheme" "CHR '':'' \<notin> set user" "user \<noteq> []" "password \<noteq> []" "CHR ''@'' \<notin> set server"
  shows "parse_proxy (scheme @ ''://'' @ user @ '':'' @ password @ ''@'' @ server)
    = \<lparr>pp_server = scheme @ ''://'' @ server, pp_username = Some user, pp_password = Some password\<rparr>"
proof -
  let ?s = "scheme @ ''://'' @ user @ '':'' @ password @ ''@'' @ server"
  have f: "find_str ''://'' ?s = Some (length scheme)" using find_scheme [OF assms(1)] by simp
  have d: "drop (length scheme + 3) ?s = (user @ '':'' @ password) @ CHR ''@'' # server"
    "take (length scheme + 3) ?s = scheme @ ''://''" by simp_all
  have "rsplit_once (CHR ''@'') ((user @ '':'' @ password) @ CHR ''@'' # server) = Some (user @ '':'' @ password, server)"
    using split_once_fresh [of "CHR ''@''" "rev server" "rev (user @ '':'' @ password)"] assms(5)
    by (simp add: rsplit_once_def)
  moreover have "split_once (CHR '':'') (user @ '':'' @ password) = Some (user, password)"
    using split_once_fresh [OF assms(2), of password] by simp
  ultimately show ?thesis using assms(3,4) unfolding parse_proxy_def f d Let_def by (simp add: nonempty_def)
qed

end
