(* ===== verification/Snapshot.thy ===== *)
theory Snapshot
  imports Cmd_Args "HOL-Library.Sublist"
begin

section \<open>Snapshots of a page\<close>

text \<open>
  \<open>agent-browser/src/native/snapshot.rs\<close> and the table of references of \<open>native/element.rs\<close>: the
  accessibility nodes of a page become a text with one line per element, in which the elements
  an agent can act on carry a reference such as \<open>e5\<close>; the reference table says which element
  that is. What the browser reports (nodes, elements with a pointer cursor, addresses of links,
  frames) are fields of \<open>snap_env\<close>. Recursion along the child indices follows the browser's
  data, which nothing forces to be a tree, so those functions carry fuel and give \<open>None\<close> when it
  runs out.
\<close>

subsection \<open>References\<close>

record ref_entry =
  rf_backend_node_id :: "int option"
  rf_role :: string
  rf_name :: string
  rf_nth :: "nat option"
  rf_selector :: "string option"
  rf_frame_id :: "string option"

record ref_map =
  rm_map :: "(string, ref_entry) btree_map"
  rm_next_ref :: nat

definition ref_map_new :: ref_map where
  "ref_map_new = \<lparr>rm_map = [], rm_next_ref = 1\<rparr>"

definition add_with_frame ::
    "string \<Rightarrow> int option \<Rightarrow> string \<Rightarrow> string \<Rightarrow> nat option \<Rightarrow> string option \<Rightarrow> ref_map \<Rightarrow> ref_map" where
  "add_with_frame rid bid role name at frame rm =
     rm\<lparr>rm_map := bt_insert rid \<lparr>rf_backend_node_id = bid, rf_role = role, rf_name = name, rf_nth = at,
          rf_selector = None, rf_frame_id = frame\<rparr> (rm_map rm)\<rparr>"

definition ref_add :: "string \<Rightarrow> int option \<Rightarrow> string \<Rightarrow> string \<Rightarrow> nat option \<Rightarrow> ref_map \<Rightarrow> ref_map" where
  "ref_add rid bid role name at rm = add_with_frame rid bid role name at None rm"

definition add_selector :: "string \<Rightarrow> string \<Rightarrow> string \<Rightarrow> string \<Rightarrow> nat option \<Rightarrow> ref_map \<Rightarrow> ref_map" where
  "add_selector rid selector role name at rm =
     rm\<lparr>rm_map := bt_insert rid \<lparr>rf_backend_node_id = None, rf_role = role, rf_name = name, rf_nth = at,
          rf_selector = Some selector, rf_frame_id = None\<rparr> (rm_map rm)\<rparr>"

definition ref_get :: "ref_map \<Rightarrow> string \<Rightarrow> ref_entry option" where
  "ref_get rm rid = bt_get (rm_map rm) rid"

definition ref_number :: "string \<Rightarrow> nat" where
  "ref_number rid =
     unwrap_or (nat usize_max) (Option.bind (strip_prefix ''e'' rid) (parse_unsigned usize_max))"

definition entries_sorted :: "ref_map \<Rightarrow> (string \<times> ref_entry) list" where
  "entries_sorted rm = sort_key (\<lambda>e. ref_number (fst e)) (rm_map rm)"

definition ref_remove :: "string \<Rightarrow> ref_map \<Rightarrow> ref_map" where
  "ref_remove rid rm = rm\<lparr>rm_map := filter (\<lambda>e. fst e \<noteq> rid) (rm_map rm)\<rparr>"

definition ref_clear :: "ref_map \<Rightarrow> ref_map" where
  "ref_clear rm = rm\<lparr>rm_map := [], rm_next_ref := 1\<rparr>"



subsection \<open>Nodes\<close>

definition INTERACTIVE_ROLES :: "string list" where
  "INTERACTIVE_ROLES =
     [''button'', ''link'', ''textbox'', ''checkbox'', ''radio'', ''combobox'', ''listbox'', ''menuitem'',
      ''menuitemcheckbox'', ''menuitemradio'', ''option'', ''searchbox'', ''slider'', ''spinbutton'', ''switch'',
      ''tab'', ''treeitem'', ''Iframe'']"

definition CONTENT_ROLES :: "string list" where
  "CONTENT_ROLES =
     [''heading'', ''cell'', ''gridcell'', ''columnheader'', ''rowheader'', ''listitem'', ''article'', ''region'',
      ''main'', ''navigation'']"

definition INVISIBLE_CHARS :: "string list" where
  "INVISIBLE_CHARS =
     [[CHR 0xEF, CHR 0xBB, CHR 0xBF], [CHR 0xE2, CHR 0x80, CHR 0x8B], [CHR 0xE2, CHR 0x80, CHR 0x8C],
      [CHR 0xE2, CHR 0x80, CHR 0x8D], [CHR 0xE2, CHR 0x81, CHR 0xA0], [CHR 0xC2, CHR 0xA0]]"

definition strip_invisible :: "string \<Rightarrow> string" where
  "strip_invisible s = concat (filter (\<lambda>c. c \<notin> set INVISIBLE_CHARS) (chars s))"

record snapshot_options =
  so_selector :: "string option"
  so_interactive :: bool
  so_compact :: bool
  so_depth :: "nat option"
  so_urls :: bool

datatype hidden_input_kind = Radio | Checkbox

definition hidden_input_parse :: "string \<Rightarrow> hidden_input_kind option" where
  "hidden_input_parse s = (if s = ''radio'' then Some Radio else if s = ''checkbox'' then Some Checkbox else None)"

fun as_role :: "hidden_input_kind \<Rightarrow> string" where
  "as_role Radio = ''radio''"
| "as_role Checkbox = ''checkbox''"

record cursor_element =
  cu_kind :: string
  cu_hints :: "string list"
  cu_text :: string
  cu_hidden_kind :: "hidden_input_kind option"
  cu_hidden_checked :: "string option"

record tree_node =
  tn_role :: string
  tn_name :: string
  tn_level :: "int option"
  tn_checked :: "string option"
  tn_expanded :: "bool option"
  tn_selected :: "bool option"
  tn_disabled :: "bool option"
  tn_required :: "bool option"
  tn_value_text :: "string option"
  tn_backend_node_id :: "int option"
  tn_children :: "nat list"
  tn_parent_idx :: "nat option"
  tn_has_ref :: bool
  tn_ref_id :: "string option"
  tn_depth :: nat
  tn_cursor_info :: "cursor_element option"
  tn_url :: "string option"

text \<open>\<open>TreeNode::empty\<close>, which is also what \<open>clear\<close> makes of a node.\<close>

definition tree_empty :: tree_node where
  "tree_empty =
     \<lparr>tn_role = [], tn_name = [], tn_level = None, tn_checked = None, tn_expanded = None, tn_selected = None,
      tn_disabled = None, tn_required = None, tn_value_text = None, tn_backend_node_id = None, tn_children = [],
      tn_parent_idx = None, tn_has_ref = False, tn_ref_id = None, tn_depth = 0, tn_cursor_info = None, tn_url = None\<rparr>"

subsection \<open>What the browser reports\<close>

record ax_property =
  xp_name :: string
  xp_value :: "json option"

record ax_node =
  ax_node_id :: string
  ax_role :: "json option option"
  ax_name :: "json option option"
  ax_value :: "json option option"
  ax_properties :: "ax_property list option"
  ax_child_ids :: "string list option"
  ax_backend_id :: "int option"
  ax_ignored :: "bool option"

record snap_env =
  sn_serde :: serde_json
  sn_number :: "json_num \<Rightarrow> string"
  sn_enable :: "string + unit"
  sn_query :: "string \<Rightarrow> string + string option"
  sn_describe :: "string \<Rightarrow> string + json"
  sn_nodes :: "string option \<Rightarrow> string + ax_node list"
  sn_cursors :: "(int \<times> cursor_element) list"
  sn_href :: "int \<Rightarrow> string option"
  sn_frame :: "int \<Rightarrow> string option"

definition show_bool :: "bool \<Rightarrow> string" where
  "show_bool b = (if b then ''true'' else ''false'')"

definition show_int :: "int \<Rightarrow> string" where
  "show_int i = (if i < 0 then ''-'' @ show_nat (nat (- i)) else show_nat (nat i))"

definition as_i64 :: "json \<Rightarrow> int option" where
  "as_i64 j =
     (case j of
        JNum (PosInt n) \<Rightarrow> (if int n < 2 ^ 63 then Some (int n) else None)
      | JNum (NegInt i) \<Rightarrow> Some i
      | _ \<Rightarrow> None)"

definition extract_ax_string :: "snap_env \<Rightarrow> json option option \<Rightarrow> string" where
  "extract_ax_string env v =
     (case v of
        Some (Some (JStr s)) \<Rightarrow> s
      | Some (Some (JNum n)) \<Rightarrow> sn_number env n
      | Some (Some (JBool b)) \<Rightarrow> show_bool b
      | _ \<Rightarrow> [])"

definition extract_ax_string_opt :: "snap_env \<Rightarrow> json option option \<Rightarrow> string option" where
  "extract_ax_string_opt env v =
     (case v of
        Some (Some (JStr s)) \<Rightarrow> (if s = [] then None else Some s)
      | Some (Some (JNum n)) \<Rightarrow> Some (sn_number env n)
      | _ \<Rightarrow> None)"

text \<open>Later properties of the same name win.\<close>

definition extract_property :: "ax_property \<Rightarrow> tree_node \<Rightarrow> tree_node" where
  "extract_property p n =
     (let v = xp_value p; b = Option.bind v as_bool
      in if xp_name p = ''level'' then n\<lparr>tn_level := Option.bind v as_i64\<rparr>
         else if xp_name p = ''checked''
         then n\<lparr>tn_checked := map_option (\<lambda>j. case j of JStr s \<Rightarrow> s | JBool c \<Rightarrow> show_bool c | _ \<Rightarrow> ''false'') v\<rparr>
         else if xp_name p = ''expanded'' then n\<lparr>tn_expanded := b\<rparr>
         else if xp_name p = ''selected'' then n\<lparr>tn_selected := b\<rparr>
         else if xp_name p = ''disabled'' then n\<lparr>tn_disabled := b\<rparr>
         else if xp_name p = ''required'' then n\<lparr>tn_required := b\<rparr>
         else n)"

definition extract_properties :: "ax_property list option \<Rightarrow> tree_node \<Rightarrow> tree_node" where
  "extract_properties ps n = fold extract_property (unwrap_or [] ps) n"

text \<open>The identifiers of a DOM subtree, with shadow roots and content documents; a JSON value is
  finite, so the recursion ends.\<close>

definition children_at :: "string \<Rightarrow> json \<Rightarrow> json list" where
  "children_at k j = (case json_get j k of Some (JArr vs) \<Rightarrow> vs | _ \<Rightarrow> [])"

lemma json_get_size: "json_get j k = Some v \<Longrightarrow> size v < size j"
proof (cases j)
  case (JObj m)
  assume "json_get j k = Some v"
  with JObj have "(k, v) \<in> set m" by (simp add: bt_get_def map_of_SomeD)
  then have "size_prod (\<lambda>x. 0) size (k, v) \<le> size_list (size_prod (\<lambda>x. 0) size) m" by (rule size_list_estimation') simp
  with JObj show ?thesis by simp
qed simp_all

lemma children_at_size: "v \<in> set (children_at k j) \<Longrightarrow> size v < size j"
proof -
  assume v: "v \<in> set (children_at k j)"
  then obtain w where w: "json_get j k = Some w" by (cases "json_get j k") (simp_all add: children_at_def)
  with v obtain vs where vs: "json_get j k = Some (JArr vs)" "v \<in> set vs"
    by (cases w) (simp_all add: children_at_def)
  have "size v \<le> size_list size vs" by (rule size_list_estimation' [OF vs(2)]) simp
  with json_get_size [OF vs(1)] show ?thesis by simp
qed

function collect_backend_node_ids :: "json \<Rightarrow> int list" where
  "collect_backend_node_ids j =
     (case Option.bind (json_get j ''backendNodeId'') as_i64 of Some i \<Rightarrow> [i] | None \<Rightarrow> [])
     @ concat (map collect_backend_node_ids (children_at ''children'' j))
     @ concat (map collect_backend_node_ids (children_at ''shadowRoots'' j))
     @ (case json_get j ''contentDocument'' of Some d \<Rightarrow> collect_backend_node_ids d | None \<Rightarrow> [])"
  by pat_completeness auto
termination
  by (relation "measure size") (auto simp: children_at_size json_get_size)

declare collect_backend_node_ids.simps [simp del]

subsection \<open>Building the tree\<close>

definition base_node :: "snap_env \<Rightarrow> ax_node \<Rightarrow> tree_node" where
  "base_node env n =
     (let role = extract_ax_string env (ax_role n)
      in if (unwrap_or False (ax_ignored n) \<and> role \<noteq> ''RootWebArea'') \<or> role = ''InlineTextBox'' then tree_empty
         else extract_properties (ax_properties n)
                (tree_empty\<lparr>tn_role := role, tn_name := extract_ax_string env (ax_name n),
                   tn_value_text := extract_ax_string_opt env (ax_value n), tn_backend_node_id := ax_backend_id n\<rparr>))"

text \<open>The index of an identifier; of two nodes with the same identifier the later one.\<close>

definition id_to_idx :: "ax_node list \<Rightarrow> string \<Rightarrow> nat option" where
  "id_to_idx axs cid = map_of (rev (zip (map ax_node_id axs) [0..<length axs])) cid"

definition edges :: "ax_node list \<Rightarrow> (nat \<times> nat) list" where
  "edges axs =
     concat (map (\<lambda>(i, n). map (Pair i) (List.map_filter (id_to_idx axs) (unwrap_or [] (ax_child_ids n))))
       (zip [0..<length axs] axs))"

definition link_nodes :: "nat \<times> nat \<Rightarrow> tree_node list \<Rightarrow> tree_node list" where
  "link_nodes e ns =
     (case e of (i, c) \<Rightarrow>
        (let ns = ns[i := (ns ! i)\<lparr>tn_children := tn_children (ns ! i) @ [c]\<rparr>]
         in ns[c := (ns ! c)\<lparr>tn_parent_idx := Some i\<rparr>]))"

definition clear_nodes :: "nat list \<Rightarrow> tree_node list \<Rightarrow> tree_node list" where
  "clear_nodes is ns = fold (\<lambda>i ns. ns[i := tree_empty]) is ns"

definition is_static :: "tree_node list \<Rightarrow> nat \<Rightarrow> bool" where
  "is_static ns i \<longleftrightarrow> tn_role (ns ! i) = ''StaticText''"

text \<open>Runs of text among the children become one node.\<close>

function merge_runs :: "nat list \<Rightarrow> tree_node list \<Rightarrow> tree_node list" where
  "merge_runs [] ns = ns"
| "merge_runs (c # cs) ns =
     (if \<not> is_static ns c then merge_runs cs ns
      else (let run = takeWhile (is_static ns) cs
            in merge_runs (dropWhile (is_static ns) cs)
                 (if run = [] then ns
                  else clear_nodes run (ns[c := (ns ! c)\<lparr>tn_name := concat (map (\<lambda>i. tn_name (ns ! i)) (c # run))\<rparr>]))))"
  by pat_completeness auto
termination
  by (relation "measure (\<lambda>(cs, ns). length cs)") (auto simp: length_dropWhile_le le_imp_less_Suc)

definition merge_text :: "nat \<Rightarrow> tree_node list \<Rightarrow> tree_node list" where
  "merge_text i ns =
     (if tn_role (ns ! i) = [] \<or> tn_children (ns ! i) = [] then ns
      else (let cs = tn_children (ns ! i); ns = merge_runs cs ns
            in if length cs = 1 \<and> is_static ns (hd cs) \<and> tn_name (ns ! i) = tn_name (ns ! hd cs)
               then clear_nodes [hd cs] ns else ns))"

definition root_indices :: "tree_node list \<Rightarrow> nat list" where
  "root_indices ns = filter (\<lambda>i. list_all (\<lambda>n. i \<notin> set (tn_children n)) ns) [0..<length ns]"

fun set_depth :: "nat \<Rightarrow> nat \<Rightarrow> nat \<Rightarrow> tree_node list \<Rightarrow> tree_node list option" where
  "set_depth 0 idx d ns = None"
| "set_depth (Suc fuel) idx d ns =
     fold (\<lambda>c r. Option.bind r (set_depth fuel c (Suc d))) (tn_children (ns ! idx))
       (Some (ns[idx := (ns ! idx)\<lparr>tn_depth := d\<rparr>]))"

definition build_tree :: "snap_env \<Rightarrow> nat \<Rightarrow> ax_node list \<Rightarrow> (tree_node list \<times> nat list) option" where
  "build_tree env fuel axs =
     (let ns = map (base_node env) axs;
          ns = fold link_nodes (edges axs) ns;
          ns = fold merge_text [0..<length ns] ns;
          roots = root_indices ns
      in map_option (\<lambda>ns. (ns, roots)) (fold (\<lambda>r m. Option.bind m (set_depth fuel r 0)) roots (Some ns)))"

definition promote_hidden_input :: "(int \<times> cursor_element) list \<Rightarrow> tree_node \<Rightarrow> tree_node" where
  "promote_hidden_input cursors n =
     (if tn_role n \<noteq> ''LabelText'' \<and> tn_role n \<noteq> ''generic'' then n
      else case Option.bind (tn_backend_node_id n) (map_of cursors) of
             None \<Rightarrow> n
           | Some info \<Rightarrow>
               (case cu_hidden_kind info of
                  None \<Rightarrow> n
                | Some kind \<Rightarrow>
                    n\<lparr>tn_role := as_role kind,
                      tn_name := (if tn_name n = [] \<and> cu_text info \<noteq> [] then cu_text info else tn_name n),
                      tn_checked := (case cu_hidden_checked info of Some c \<Rightarrow> Some c | None \<Rightarrow> tn_checked n)\<rparr>))"

definition promote_hidden_inputs :: "(int \<times> cursor_element) list \<Rightarrow> tree_node list \<Rightarrow> tree_node list" where
  "promote_hidden_inputs cursors ns = map (promote_hidden_input cursors) ns"

text \<open>The nodes below a selector: those in the DOM subtree whose parent is not in it.\<close>

definition selector_roots :: "int list \<Rightarrow> tree_node list \<Rightarrow> nat list" where
  "selector_roots ids ns =
     (let inside = (\<lambda>i. case tn_backend_node_id (ns ! i) of Some b \<Rightarrow> b \<in> set ids | None \<Rightarrow> False)
      in filter (\<lambda>i. inside i \<and> \<not> (case tn_parent_idx (ns ! i) of Some p \<Rightarrow> inside p | None \<Rightarrow> False)) [0..<length ns])"

subsection \<open>Assigning references\<close>

text \<open>\<open>RoleNameTracker\<close>: how often a role and name have been seen; a missing key counts zero.\<close>

definition track_key :: "tree_node \<Rightarrow> string" where
  "track_key n = tn_role n @ '':'' @ tn_name n"

definition track :: "(string \<Rightarrow> nat) \<Rightarrow> string \<Rightarrow> nat \<times> (string \<Rightarrow> nat)" where
  "track counts key = (counts key, counts(key := Suc (counts key)))"

definition is_duplicate :: "(string \<Rightarrow> nat) \<Rightarrow> string \<Rightarrow> bool" where
  "is_duplicate counts key \<longleftrightarrow> 1 < counts key"

definition should_ref :: "(int \<times> cursor_element) list \<Rightarrow> tree_node \<Rightarrow> bool" where
  "should_ref cursors n \<longleftrightarrow>
     tn_role n \<in> set INTERACTIVE_ROLES
     \<or> (tn_role n \<in> set CONTENT_ROLES \<and> tn_name n \<noteq> [])
     \<or> (case tn_backend_node_id n of Some b \<Rightarrow> map_of cursors b \<noteq> None | None \<Rightarrow> False)"

fun nodes_with_refs ::
    "(int \<times> cursor_element) list \<Rightarrow> nat \<Rightarrow> tree_node list \<Rightarrow> (string \<Rightarrow> nat) \<Rightarrow> (nat \<times> nat) list \<times> (string \<Rightarrow> nat)" where
  "nodes_with_refs cursors i [] counts = ([], counts)"
| "nodes_with_refs cursors i (n # ns) counts =
     (if should_ref cursors n
      then (case track counts (track_key n) of
              (k, counts) \<Rightarrow> apfst (Cons (i, k)) (nodes_with_refs cursors (Suc i) ns counts))
      else nodes_with_refs cursors (Suc i) ns counts)"

definition ref_id :: "nat \<Rightarrow> string" where
  "ref_id n = ''e'' @ show_nat n"

fun add_refs ::
    "(string \<Rightarrow> nat) \<Rightarrow> string option \<Rightarrow> (nat \<times> nat) list \<Rightarrow> nat \<Rightarrow> tree_node list \<Rightarrow> ref_map \<Rightarrow> nat \<times> tree_node list \<times> ref_map" where
  "add_refs counts frame [] next_ref ns rm = (next_ref, ns, rm)"
| "add_refs counts frame ((i, k) # xs) next_ref ns rm =
     (let n = ns ! i; r = ref_id next_ref
      in add_refs counts frame xs (Suc next_ref) (ns[i := n\<lparr>tn_has_ref := True, tn_ref_id := Some r\<rparr>])
           (add_with_frame r (tn_backend_node_id n) (tn_role n) (tn_name n)
              (if is_duplicate counts (track_key n) then Some k else None) frame rm))"

definition with_cursor :: "(int \<times> cursor_element) list \<Rightarrow> nat \<Rightarrow> tree_node list \<Rightarrow> tree_node list" where
  "with_cursor cursors i ns =
     (case Option.bind (tn_backend_node_id (ns ! i)) (map_of cursors) of
        Some info \<Rightarrow> ns[i := (ns ! i)\<lparr>tn_cursor_info := Some info\<rparr>]
      | None \<Rightarrow> ns)"

definition assign_refs ::
    "(int \<times> cursor_element) list \<Rightarrow> string option \<Rightarrow> tree_node list \<Rightarrow> ref_map \<Rightarrow> tree_node list \<times> ref_map" where
  "assign_refs cursors frame ns rm =
     (case nodes_with_refs cursors 0 ns (\<lambda>k. 0) of
        (xs, counts) \<Rightarrow>
          (case add_refs counts frame xs (rm_next_ref rm) ns rm of
             (next_ref, ns1, rm1) \<Rightarrow> (fold (with_cursor cursors) (map fst xs) ns1, rm1\<lparr>rm_next_ref := next_ref\<rparr>)))"

definition with_urls :: "snap_env \<Rightarrow> snapshot_options \<Rightarrow> tree_node list \<Rightarrow> tree_node list" where
  "with_urls env opts ns =
     (if \<not> so_urls opts then ns
      else map (\<lambda>n. if tn_role n = ''link'' \<and> tn_has_ref n
                    then (case Option.bind (tn_backend_node_id n) (sn_href env) of
                            Some u \<Rightarrow> n\<lparr>tn_url := Some u\<rparr> | None \<Rightarrow> n)
                    else n) ns)"

subsection \<open>Rendering\<close>

definition node_attrs :: "tree_node \<Rightarrow> string list" where
  "node_attrs n =
     (case tn_level n of Some l \<Rightarrow> [''level='' @ show_int l] | None \<Rightarrow> [])
     @ (case tn_checked n of Some c \<Rightarrow> [''checked='' @ c] | None \<Rightarrow> [])
     @ (case tn_expanded n of Some b \<Rightarrow> [''expanded='' @ show_bool b] | None \<Rightarrow> [])
     @ (if tn_selected n = Some True then [''selected''] else [])
     @ (if tn_disabled n = Some True then [''disabled''] else [])
     @ (if tn_required n = Some True then [''required''] else [])
     @ (case tn_ref_id n of Some r \<Rightarrow> [''ref='' @ r] | None \<Rightarrow> [])
     @ (case tn_url n of Some u \<Rightarrow> [''url='' @ u] | None \<Rightarrow> [])"

definition display_name :: "snapshot_options \<Rightarrow> tree_node \<Rightarrow> string" where
  "display_name opts n =
     (if tn_name n \<noteq> [] then tn_name n
      else if so_interactive opts
      then (case tn_cursor_info n of Some ci \<Rightarrow> cu_text ci | None \<Rightarrow> tn_name n)
      else tn_name n)"

definition node_line :: "snap_env \<Rightarrow> snapshot_options \<Rightarrow> tree_node \<Rightarrow> nat \<Rightarrow> string" where
  "node_line env opts n indent =
     concat (replicate indent ''  '') @ ''- '' @ tn_role n
     @ (if display_name opts n = [] then []
        else case ser_str (sn_serde env) (JStr (display_name opts n)) of
               Inr t \<Rightarrow> '' '' @ strip_invisible t
             | Inl e \<Rightarrow> [])
     @ (if node_attrs n = [] then [] else '' ['' @ join '', '' (node_attrs n) @ '']'')
     @ (case tn_cursor_info n of
          Some ci \<Rightarrow> '' '' @ cu_kind ci @ '' ['' @ join '', '' (cu_hints ci) @ '']''
        | None \<Rightarrow> [])
     @ (case tn_value_text n of
          Some v \<Rightarrow> (if v \<noteq> [] \<and> v \<noteq> tn_name n then '': '' @ v else [])
        | None \<Rightarrow> [])"

definition is_wrapper :: "tree_node \<Rightarrow> bool" where
  "is_wrapper n \<longleftrightarrow>
     tn_role n = []
     \<or> (tn_role n = ''generic'' \<and> \<not> tn_has_ref n \<and> length (tn_children n) \<le> 1)
     \<or> (tn_role n = ''StaticText'' \<and> strip_invisible (tn_name n) = [])"

definition too_deep :: "snapshot_options \<Rightarrow> nat \<Rightarrow> bool" where
  "too_deep opts indent = (case so_depth opts of Some d \<Rightarrow> d < indent | None \<Rightarrow> False)"

fun render_tree :: "snap_env \<Rightarrow> snapshot_options \<Rightarrow> tree_node list \<Rightarrow> nat \<Rightarrow> nat \<Rightarrow> nat \<Rightarrow> string option" where
  "render_tree env opts ns 0 idx indent = None"
| "render_tree env opts ns (Suc fuel) idx indent =
     (let n = ns ! idx;
          below = (\<lambda>d. map_option concat (those (map (\<lambda>c. render_tree env opts ns fuel c d) (tn_children n))))
      in if is_wrapper n then below indent
         else if too_deep opts indent then Some []
         else if tn_role n = ''RootWebArea'' \<or> tn_role n = ''WebArea'' then below indent
         else if so_interactive opts \<and> \<not> tn_has_ref n then below indent
         else map_option (\<lambda>t. node_line env opts n indent @ [CHR 0x0A] @ t) (below (Suc indent)))"

subsection \<open>Compacting\<close>

definition count_indent :: "string \<Rightarrow> nat" where
  "count_indent line = (length line - length (trim_start line)) div 2"

fun mark_ancestors :: "nat \<Rightarrow> nat list \<Rightarrow> nat \<Rightarrow> bool list \<Rightarrow> bool list" where
  "mark_ancestors my inds 0 keep = keep"
| "mark_ancestors my inds (Suc j) keep =
     (if inds ! j < my
      then (if inds ! j = 0 then keep[j := True] else mark_ancestors my inds j (keep[j := True]))
      else mark_ancestors my inds j keep)"

definition is_content_line :: "string \<Rightarrow> bool" where
  "is_content_line line \<longleftrightarrow> contains_str ''ref='' line \<or> contains_str '': '' line"

definition kept_lines :: "string list \<Rightarrow> bool list" where
  "kept_lines ls =
     fold (\<lambda>i keep. if is_content_line (ls ! i)
                    then mark_ancestors (count_indent (ls ! i)) (map count_indent ls) i (keep[i := True]) else keep)
       [0..<length ls] (replicate (length ls) False)"

definition compact_tree :: "string \<Rightarrow> bool \<Rightarrow> string" where
  "compact_tree tree interactive =
     (let ls = str_lines tree
      in if ls = [] then []
         else (let out = join [CHR 0x0A] (map fst (filter snd (zip ls (kept_lines ls))))
               in if trim out = [] \<and> interactive then ''(no interactive elements)'' else out))"

subsection \<open>The whole snapshot\<close>

text \<open>The text of a frame goes below the line of its frame element, which is searched for by the text
  of its reference.\<close>

definition insert_child :: "string \<times> string \<Rightarrow> string \<Rightarrow> string" where
  "insert_child rc out =
     (case find_str (''[ref='' @ fst rc @ '']'') out of
        None \<Rightarrow> out
      | Some pos \<Rightarrow>
          (let line_end = pos + length (takeWhile (\<lambda>c. c \<noteq> CHR 0x0A) (drop pos out));
               line_start = pos - length (takeWhile (\<lambda>c. c \<noteq> CHR 0x0A) (rev (take pos out)));
               line = drop line_start (take line_end out);
               prefix = replicate (length line - length (trim_start line) + 2) (CHR '' '');
               child = concat (map (\<lambda>l. prefix @ l @ [CHR 0x0A]) (str_lines (snd rc)))
           in if line_end = length out then out @ [CHR 0x0A] @ child
              else take (line_end + 1) out @ child @ drop (line_end + 1) out))"

definition quoted :: "string \<Rightarrow> string" where
  "quoted s = [CHR 0x27] @ s @ [CHR 0x27]"

definition selector_ids :: "snap_env \<Rightarrow> snapshot_options \<Rightarrow> string + int list option" where
  "selector_ids env opts =
     (case so_selector opts of
        None \<Rightarrow> Inr None
      | Some sel \<Rightarrow>
          and_then (sn_query env (''document.querySelector('' @ case_sum (\<lambda>e. []) (\<lambda>t. t) (ser_str (sn_serde env) (JStr sel)) @ '')''))
            (\<lambda>oid. and_then (ok_or (''Selector '' @ quoted sel @ '' did not match any element'') oid)
            (\<lambda>oid. and_then (sn_describe env oid)
            (\<lambda>d. and_then (ok_or (''Could not resolve DOM node for selector '' @ quoted sel) (json_get d ''node''))
            (\<lambda>j. let ids = collect_backend_node_ids j
                 in if ids = [] then Inl (''Could not resolve backendNodeId for selector '' @ quoted sel)
                    else Inr (Some ids))))))"

definition effective_roots :: "snapshot_options \<Rightarrow> int list option \<Rightarrow> tree_node list \<Rightarrow> nat list \<Rightarrow> string + nat list" where
  "effective_roots opts ids ns roots =
     (case ids of
        None \<Rightarrow> Inr roots
      | Some ids \<Rightarrow>
          (let rs = selector_roots ids ns
           in if rs = []
              then Inl (''No accessibility node found for selector '' @ quoted (unwrap_or [] (so_selector opts)))
              else Inr rs))"

definition finish_snapshot :: "snapshot_options \<Rightarrow> string \<Rightarrow> string" where
  "finish_snapshot opts out =
     (let t = trim (if so_compact opts then compact_tree out (so_interactive opts) else out)
      in if t = [] then (if so_interactive opts then ''(no interactive elements)'' else ''(empty page)'') else t)"

text \<open>One frame up to the rendered text, with the nodes that stand for child frames: \<open>None\<close> when the
  child indices have no end.\<close>

definition frame_snapshot ::
    "snap_env \<Rightarrow> snapshot_options \<Rightarrow> nat \<Rightarrow> string option \<Rightarrow> ref_map \<Rightarrow> ((string + string \<times> tree_node list) \<times> ref_map) option" where
  "frame_snapshot env opts fuel frame rm =
     (case and_then (sn_enable env) (\<lambda>u. and_then (selector_ids env opts) (\<lambda>ids. and_then (sn_nodes env frame) (\<lambda>axs. Inr (ids, axs)))) of
        Inl e \<Rightarrow> Some (Inl e, rm)
      | Inr (ids, axs) \<Rightarrow>
          Option.bind (build_tree env fuel axs) (\<lambda>(ns, roots).
            case effective_roots opts ids ns roots of
              Inl e \<Rightarrow> Some (Inl e, rm)
            | Inr rs \<Rightarrow>
                (case assign_refs (sn_cursors env) frame (promote_hidden_inputs (sn_cursors env) ns) rm of
                   (ns, rm1) \<Rightarrow>
                     (let ns = with_urls env opts ns
                      in map_option (\<lambda>ts. (Inr (concat ts, ns), rm1))
                           (those (map (\<lambda>r. render_tree env opts ns fuel r 0) rs))))))"

definition child_snapshot ::
    "snap_env \<Rightarrow> snapshot_options \<Rightarrow> nat \<Rightarrow> tree_node \<Rightarrow> (string \<times> string) list \<times> ref_map \<Rightarrow> ((string \<times> string) list \<times> ref_map) option" where
  "child_snapshot env opts fuel n acc =
     (case acc of (children, rm) \<Rightarrow>
        if tn_role n \<noteq> ''Iframe'' \<or> \<not> tn_has_ref n then Some acc
        else case Option.bind (tn_backend_node_id n) (sn_frame env) of
               None \<Rightarrow> Some acc
             | Some fid \<Rightarrow>
                 map_option
                   (\<lambda>r. case r of
                          (Inl e, rm1) \<Rightarrow> (children, rm1)
                        | (Inr (out, ns), rm1) \<Rightarrow>
                            (let t = finish_snapshot opts out
                             in if t \<noteq> [] \<and> t \<noteq> ''(empty page)'' \<and> t \<noteq> ''(no interactive elements)''
                                then (children @ [(unwrap_or [] (tn_ref_id n), t)], rm1) else (children, rm1)))
                   (frame_snapshot env opts fuel (Some fid) rm))"

definition take_snapshot ::
    "snap_env \<Rightarrow> snapshot_options \<Rightarrow> nat \<Rightarrow> string option \<Rightarrow> ref_map \<Rightarrow> ((string + string) \<times> ref_map) option" where
  "take_snapshot env opts fuel frame rm =
     Option.bind (frame_snapshot env opts fuel frame rm) (\<lambda>r.
       case r of
         (Inl e, rm1) \<Rightarrow> Some (Inl e, rm1)
       | (Inr (out, ns), rm1) \<Rightarrow>
           map_option (\<lambda>(children, rm2). (Inr (finish_snapshot opts (fold insert_child children out)), rm2))
             (if frame \<noteq> None then Some ([], rm1)
              else fold (\<lambda>n m. Option.bind m (child_snapshot env opts fuel n)) ns (Some ([], rm1))))"

text \<open>\<open>handle_snapshot\<close>: every snapshot of the main session starts with an empty table.\<close>

definition snapshot_options_of :: "json \<Rightarrow> snapshot_options" where
  "snapshot_options_of cmd =
     \<lparr>so_selector = Option.bind (json_get cmd ''selector'') as_str,
      so_interactive = unwrap_or False (Option.bind (json_get cmd ''interactive'') as_bool),
      so_compact = unwrap_or False (Option.bind (json_get cmd ''compact'') as_bool),
      so_depth = (case json_get cmd ''maxDepth'' of Some (JNum (PosInt d)) \<Rightarrow> Some d | _ \<Rightarrow> None),
      so_urls = unwrap_or False (Option.bind (json_get cmd ''urls'') as_bool)\<rparr>"

definition refs_json :: "ref_map \<Rightarrow> json" where
  "refs_json rm =
     json_obj (map (\<lambda>(r, e). (r, json_obj [(''role'', JStr (rf_role e)), (''name'', JStr (rf_name e))])) (entries_sorted rm))"

definition handle_snapshot ::
    "snap_env \<Rightarrow> string + unit \<Rightarrow> string option \<Rightarrow> nat \<Rightarrow> string option \<Rightarrow> json \<Rightarrow> ref_map \<Rightarrow> ((string + json) \<times> ref_map) option" where
  "handle_snapshot env session url fuel frame cmd rm =
     (case session of
        Inl e \<Rightarrow> Some (Inl e, rm)
      | Inr u \<Rightarrow>
          map_option (\<lambda>(r, rm1). (and_then r (\<lambda>tree. Inr (json_obj
              [(''snapshot'', JStr tree), (''origin'', JStr (unwrap_or [] url)), (''refs'', refs_json rm1)])), rm1))
            (take_snapshot env (snapshot_options_of cmd) fuel frame (ref_clear rm)))"

subsection \<open>References name one element each\<close>

lemma inj_ref_id [simp]: "ref_id m = ref_id n \<longleftrightarrow> m = n"
  by (metis digits_value_show_nat ref_id_def same_append_eq)


text \<open>How many nodes of a list take a reference with this role and name.\<close>

definition seen :: "(int \<times> cursor_element) list \<Rightarrow> tree_node list \<Rightarrow> string \<Rightarrow> nat" where
  "seen cursors ns key = length (filter (\<lambda>n. should_ref cursors n \<and> track_key n = key) ns)"

lemma seen_Nil [simp]: "seen cursors [] key = 0"
  by (simp add: seen_def)

lemma seen_Cons [simp]:
  "seen cursors (n # ns) key = (if should_ref cursors n \<and> track_key n = key then Suc (seen cursors ns key) else seen cursors ns key)"
  by (simp add: seen_def)

lemma nodes_with_refs_Cons:
  "nodes_with_refs cursors i (n # ns) counts =
     (if should_ref cursors n
      then apfst (Cons (i, counts (track_key n)))
             (nodes_with_refs cursors (Suc i) ns (\<lambda>k. counts k + (if k = track_key n then 1 else 0)))
      else nodes_with_refs cursors (Suc i) ns counts)"
proof -
  have "counts(track_key n := Suc (counts (track_key n))) = (\<lambda>k. counts k + (if k = track_key n then 1 else 0))"
    by (simp add: fun_eq_iff)
  then show ?thesis by (simp add: track_def)
qed

lemma nodes_with_refs_counts: "snd (nodes_with_refs cursors i ns counts) = (\<lambda>k. counts k + seen cursors ns k)"
proof (induction ns arbitrary: i counts)
  case (Cons n ns)
  show ?case by (simp only: nodes_with_refs_Cons) (simp add: Cons.IH fun_eq_iff)
qed simp

definition ref_indices :: "(int \<times> cursor_element) list \<Rightarrow> tree_node list \<Rightarrow> nat list" where
  "ref_indices cursors ns = filter (\<lambda>j. should_ref cursors (ns ! j)) [0..<length ns]"

lemma ref_indices_Cons:
  "ref_indices cursors (n # ns) = (if should_ref cursors n then [0] else []) @ map Suc (ref_indices cursors ns)"
proof -
  have "[0..<length (n # ns)] = 0 # map Suc [0..<length ns]" by (simp add: upt_conv_Cons map_Suc_upt del: upt_Suc)
  then show ?thesis unfolding ref_indices_def by (simp only: filter.simps filter_map) (simp add: comp_def)
qed

lemma nodes_with_refs_list:
  "fst (nodes_with_refs cursors i ns counts) =
     map (\<lambda>j. (i + j, counts (track_key (ns ! j)) + seen cursors (take j ns) (track_key (ns ! j)))) (ref_indices cursors ns)"
proof (induction ns arbitrary: i counts)
  case (Cons n ns)
  show ?case
    by (simp only: nodes_with_refs_Cons) (simp add: Cons.IH ref_indices_Cons comp_def)
qed (simp add: ref_indices_def)

text \<open>Adding references one after the other.\<close>

definition ref_entry_of :: "(string \<Rightarrow> nat) \<Rightarrow> string option \<Rightarrow> tree_node \<Rightarrow> nat \<Rightarrow> ref_entry" where
  "ref_entry_of counts frame n k =
     \<lparr>rf_backend_node_id = tn_backend_node_id n, rf_role = tn_role n, rf_name = tn_name n,
      rf_nth = (if is_duplicate counts (track_key n) then Some k else None), rf_selector = None, rf_frame_id = frame\<rparr>"

lemma add_refs_next: "fst (add_refs counts frame xs m ns rm) = m + length xs"
  by (induction counts frame xs m ns rm rule: add_refs.induct) (simp_all add: Let_def)

lemma add_refs_length: "length (fst (snd (add_refs counts frame xs m ns rm))) = length ns"
  by (induction counts frame xs m ns rm rule: add_refs.induct) (simp_all add: Let_def)

lemma add_refs_other:
  "i \<notin> fst ` set xs \<Longrightarrow> fst (snd (add_refs counts frame xs m ns rm)) ! i = ns ! i"
  by (induction counts frame xs m ns rm rule: add_refs.induct) (auto simp: Let_def)

lemma add_refs_older:
  "r \<notin> ref_id ` {m..<m + length xs} \<Longrightarrow> ref_get (snd (snd (add_refs counts frame xs m ns rm))) r = ref_get rm r"
proof (induction counts frame xs m ns rm rule: add_refs.induct)
  case (2 counts frame i k xs m ns rm)
  have "r \<notin> ref_id ` {Suc m..<Suc m + length xs}" "r \<noteq> ref_id m" using 2(2) by auto
  with 2(1) show ?case by (simp add: Let_def ref_get_def add_with_frame_def)
qed simp

lemma add_refs_here:
  "distinct (map fst xs) \<Longrightarrow> \<forall>x\<in>set xs. fst x < length ns \<Longrightarrow> p < length xs \<Longrightarrow>
     fst (snd (add_refs counts frame xs m ns rm)) ! fst (xs ! p)
       = (ns ! fst (xs ! p))\<lparr>tn_has_ref := True, tn_ref_id := Some (ref_id (m + p))\<rparr>
     \<and> ref_get (snd (snd (add_refs counts frame xs m ns rm))) (ref_id (m + p))
       = Some (ref_entry_of counts frame (ns ! fst (xs ! p)) (snd (xs ! p)))"
proof (induction counts frame xs m ns rm arbitrary: p rule: add_refs.induct)
  case (1 counts frame m ns rm)
  from 1(3) have False by (simp only: list.size not_less0)
  then show ?case ..
next
  case (2 counts frame i k xs m ns rm)
  let ?n = "ns ! i"
  let ?ns = "ns[i := ?n\<lparr>tn_has_ref := True, tn_ref_id := Some (ref_id m)\<rparr>]"
  show ?case
  proof (cases p)
    case 0
    have old: "ref_id m \<notin> ref_id ` {Suc m..<Suc m + length xs}" by auto
    from 0 2(2,3) show ?thesis
      by (simp add: Let_def add_refs_other add_refs_older [OF old] del: image_eqI)
        (simp add: ref_get_def add_with_frame_def ref_entry_of_def)
  next
    case (Suc q)
    with 2(4) have len: "q < length xs" by simp
    with 2(2) have q: "q < length xs" "fst (xs ! q) \<noteq> i" using nth_mem [OF len] by auto
    have d: "distinct (map fst xs)" "\<forall>x\<in>set xs. fst x < length ?ns" using 2(2,3) by auto
    show ?thesis using 2(1) [OF refl refl d q(1)] q(2) Suc by (simp add: Let_def)
  qed
qed

lemma with_cursor_length [simp]: "length (fold (with_cursor cursors) js ns) = length ns"
  by (induction js arbitrary: ns) (simp_all add: with_cursor_def split: option.splits)

lemma with_cursor_keeps:
  "i < length ns \<Longrightarrow> tn_ref_id (fold (with_cursor cursors) js ns ! i) = tn_ref_id (ns ! i)
     \<and> tn_has_ref (fold (with_cursor cursors) js ns ! i) = tn_has_ref (ns ! i)"
proof (induction js arbitrary: ns)
  case (Cons j js)
  have "length (with_cursor cursors j ns) = length ns" by (simp add: with_cursor_def split: option.splits)
  moreover have "tn_ref_id (with_cursor cursors j ns ! i) = tn_ref_id (ns ! i)"
    "tn_has_ref (with_cursor cursors j ns ! i) = tn_has_ref (ns ! i)"
    using Cons.prems by (cases "i = j"; simp add: with_cursor_def split: option.splits)+
  ultimately show ?case using Cons by simp
qed simp

lemma ref_indices_nth:
  "i < length ns \<Longrightarrow> should_ref cursors (ns ! i) \<Longrightarrow>
     length (filter (should_ref cursors) (take i ns)) < length (ref_indices cursors ns)
     \<and> ref_indices cursors ns ! length (filter (should_ref cursors) (take i ns)) = i"
proof (induction ns arbitrary: i)
  case (Cons n ns)
  then show ?case by (cases i) (auto simp: ref_indices_Cons)
qed simp

lemma length_ref_indices: "length (ref_indices cursors ns) = length (filter (should_ref cursors) ns)"
  by (induction ns) (simp_all add: ref_indices_Cons, simp add: ref_indices_def)

lemma distinct_ref_indices: "distinct (ref_indices cursors ns)"
  by (simp add: ref_indices_def)


text \<open>The number of a reference within one snapshot: how many nodes before it have one.\<close>

definition ref_rank :: "(int \<times> cursor_element) list \<Rightarrow> tree_node list \<Rightarrow> nat \<Rightarrow> nat" where
  "ref_rank cursors ns i = length (filter (should_ref cursors) (take i ns))"



definition nth_of :: "(int \<times> cursor_element) list \<Rightarrow> tree_node list \<Rightarrow> nat \<Rightarrow> nat option" where
  "nth_of cursors ns i =
     (if 1 < seen cursors ns (track_key (ns ! i)) then Some (seen cursors (take i ns) (track_key (ns ! i))) else None)"

lemma assign_refs_at:
  assumes run: "assign_refs cursors frame ns rm = (ns', rm')" and i: "i < length ns"
  shows "should_ref cursors (ns ! i) \<Longrightarrow>
      tn_has_ref (ns' ! i) \<and> tn_ref_id (ns' ! i) = Some (ref_id (rm_next_ref rm + ref_rank cursors ns i))
      \<and> ref_get rm' (ref_id (rm_next_ref rm + ref_rank cursors ns i)) =
          Some \<lparr>rf_backend_node_id = tn_backend_node_id (ns ! i), rf_role = tn_role (ns ! i), rf_name = tn_name (ns ! i),
                rf_nth = nth_of cursors ns i, rf_selector = None, rf_frame_id = frame\<rparr>"
    and "\<not> should_ref cursors (ns ! i) \<Longrightarrow> tn_has_ref (ns' ! i) = tn_has_ref (ns ! i) \<and> tn_ref_id (ns' ! i) = tn_ref_id (ns ! i)"
    and "length ns' = length ns"
    and "rm_next_ref rm' = rm_next_ref rm + length (filter (should_ref cursors) ns)"
    and "m < rm_next_ref rm \<Longrightarrow> ref_get rm' (ref_id m) = ref_get rm (ref_id m)"
proof -
  define js where "js = ref_indices cursors ns"
  define xs where "xs = map (\<lambda>j. (j, seen cursors (take j ns) (track_key (ns ! j)))) js"
  define r where "r = add_refs (seen cursors ns) frame xs (rm_next_ref rm) ns rm"
  have nwr: "nodes_with_refs cursors 0 ns (\<lambda>k. 0) = (xs, seen cursors ns)"
    using nodes_with_refs_counts [of cursors 0 ns "\<lambda>k. 0"] nodes_with_refs_list [of cursors 0 ns "\<lambda>k. 0"]
    by (simp add: prod_eq_iff xs_def js_def)
  have res: "ns' = fold (with_cursor cursors) (map fst xs) (fst (snd r))" "rm' = (snd (snd r))\<lparr>rm_next_ref := fst r\<rparr>"
    using run by (auto simp: assign_refs_def nwr r_def split: prod.splits)
  have fsts: "map fst xs = js" by (simp add: xs_def comp_def)
  have d: "distinct (map fst xs)" "\<forall>x\<in>set xs. fst x < length ns"
    by (simp_all add: fsts js_def distinct_ref_indices) (auto simp: xs_def js_def ref_indices_def)
  have len: "length (fst (snd r)) = length ns" by (simp add: r_def add_refs_length)
  have get: "ref_get rm' k = ref_get (snd (snd r)) k" for k by (simp add: res ref_get_def)
  show "length ns' = length ns" by (simp add: res len)
  show "rm_next_ref rm' = rm_next_ref rm + length (filter (should_ref cursors) ns)"
    by (simp add: res r_def add_refs_next xs_def js_def length_ref_indices)
  show "m < rm_next_ref rm \<Longrightarrow> ref_get rm' (ref_id m) = ref_get rm (ref_id m)"
    unfolding get r_def by (rule add_refs_older) auto
  note keeps = with_cursor_keeps [of i "fst (snd r)" cursors "map fst xs", folded res(1)]
  show "\<not> should_ref cursors (ns ! i) \<Longrightarrow> tn_has_ref (ns' ! i) = tn_has_ref (ns ! i) \<and> tn_ref_id (ns' ! i) = tn_ref_id (ns ! i)"
    using keeps i len add_refs_other [of i xs "seen cursors ns" frame "rm_next_ref rm" ns rm]
    by (auto simp: r_def xs_def js_def ref_indices_def image_image)
  assume "should_ref cursors (ns ! i)"
  then have p: "ref_rank cursors ns i < length js" "js ! ref_rank cursors ns i = i"
    using ref_indices_nth [OF i] by (simp_all add: js_def ref_rank_def)
  then have x: "xs ! ref_rank cursors ns i = (i, seen cursors (take i ns) (track_key (ns ! i)))" "ref_rank cursors ns i < length xs"
    by (simp_all add: xs_def)
  show "tn_has_ref (ns' ! i) \<and> tn_ref_id (ns' ! i) = Some (ref_id (rm_next_ref rm + ref_rank cursors ns i))
      \<and> ref_get rm' (ref_id (rm_next_ref rm + ref_rank cursors ns i)) =
          Some \<lparr>rf_backend_node_id = tn_backend_node_id (ns ! i), rf_role = tn_role (ns ! i), rf_name = tn_name (ns ! i),
                rf_nth = nth_of cursors ns i, rf_selector = None, rf_frame_id = frame\<rparr>"
    using add_refs_here [OF d x(2), of "seen cursors ns" frame "rm_next_ref rm" rm, folded r_def] keeps i len
    by (simp add: get x(1) ref_entry_of_def is_duplicate_def nth_of_def)
qed

text \<open>A table that only grew: the references below its next number are as they were.\<close>

definition extends :: "ref_map \<Rightarrow> ref_map \<Rightarrow> bool" where
  "extends rm rm' \<longleftrightarrow> rm_next_ref rm \<le> rm_next_ref rm' \<and> (\<forall>m < rm_next_ref rm. ref_get rm' (ref_id m) = ref_get rm (ref_id m))"

lemma extends_refl [simp]: "extends rm rm"
  by (simp add: extends_def)

lemma extends_trans: "extends a b \<Longrightarrow> extends b c \<Longrightarrow> extends a c"
  by (auto simp: extends_def)

lemma assign_refs_table:
  assumes run: "assign_refs cursors frame ns rm = (ns', rm')"
  shows "length ns' = length ns" and "extends rm rm'"
    and "rm_next_ref rm' = rm_next_ref rm + length (filter (should_ref cursors) ns)"
proof -
  have "length ns' = length ns \<and> extends rm rm'
      \<and> rm_next_ref rm' = rm_next_ref rm + length (filter (should_ref cursors) ns)"
  proof (cases ns)
    case Nil
    with run show ?thesis by (auto simp: assign_refs_def ref_get_def extends_def)
  next
    case (Cons n ms)
    then have "0 < length ns" by simp
    from assign_refs_at(3-5) [OF run this] show ?thesis by (simp add: extends_def)
  qed
  then show "length ns' = length ns" "extends rm rm'"
    "rm_next_ref rm' = rm_next_ref rm + length (filter (should_ref cursors) ns)" by simp_all
qed








subsection \<open>Compacting keeps the context of every reference\<close>

lemma mark_ancestors_length [simp]: "length (mark_ancestors my inds i keep) = length keep"
  by (induction my inds i keep rule: mark_ancestors.induct) simp_all

lemma mark_ancestors_nth:
  "j < length keep \<Longrightarrow> i \<le> length keep \<Longrightarrow>
     mark_ancestors my inds i keep ! j \<longleftrightarrow>
       keep ! j \<or> (j < i \<and> inds ! j < my \<and> list_all (\<lambda>k. inds ! k \<noteq> 0) [Suc j..<i])"
proof (induction my inds i keep rule: mark_ancestors.induct)
  case (2 my inds i keep)
  have ext: "list_all P [Suc j..<Suc i] \<longleftrightarrow> list_all P [Suc j..<i] \<and> P i" if "j < i" for P using that by simp
  consider "j < i" | "j = i" | "i < j" by linarith
  then show ?case
  proof cases
    case 1
    show ?thesis
    proof (cases "inds ! i < my")
      case True
      with 1 2 show ?thesis by (cases "inds ! i = 0") (simp_all add: ext del: upt_Suc)
    next
      case False
      show ?thesis
      proof (cases "inds ! i = 0")
        case True
        with False have "my = 0" by simp
        with 1 2 False show ?thesis by (simp add: ext del: upt_Suc)
      qed (use 1 2 False in \<open>simp add: ext del: upt_Suc\<close>)
    qed
  qed (use 2 in \<open>auto simp del: upt_Suc\<close>)
qed simp

text \<open>A line is needed when it passes the test of the code for a reference or a value, that is when it
  holds \<open>ref=\<close> or a colon and a blank, or when some later line of the same top-level block that does
  is indented more deeply.\<close>

definition needed :: "string list \<Rightarrow> nat \<Rightarrow> bool" where
  "needed ls j \<longleftrightarrow>
     is_content_line (ls ! j)
     \<or> list_ex (\<lambda>i. is_content_line (ls ! i) \<and> count_indent (ls ! j) < count_indent (ls ! i)
                  \<and> list_all (\<lambda>k. count_indent (ls ! k) \<noteq> 0) [Suc j..<i]) [Suc j..<length ls]"

definition kept_upto :: "string list \<Rightarrow> nat \<Rightarrow> bool list" where
  "kept_upto ls n =
     fold (\<lambda>i keep. if is_content_line (ls ! i)
                    then mark_ancestors (count_indent (ls ! i)) (map count_indent ls) i (keep[i := True]) else keep)
       [0..<n] (replicate (length ls) False)"

lemma kept_upto_Suc:
  "kept_upto ls (Suc n) =
     (if is_content_line (ls ! n)
      then mark_ancestors (count_indent (ls ! n)) (map count_indent ls) n ((kept_upto ls n)[n := True]) else kept_upto ls n)"
  by (simp add: kept_upto_def)

lemma length_kept_upto [simp]: "length (kept_upto ls n) = length ls"
  by (induction n) (simp add: kept_upto_def, simp add: kept_upto_Suc)

lemma kept_upto_nth:
  "n \<le> length ls \<Longrightarrow> j < length ls \<Longrightarrow>
     kept_upto ls n ! j \<longleftrightarrow>
       (\<exists>i < n. is_content_line (ls ! i)
          \<and> (i = j \<or> (j < i \<and> count_indent (ls ! j) < count_indent (ls ! i)
               \<and> list_all (\<lambda>k. count_indent (ls ! k) \<noteq> 0) [Suc j..<i])))"
proof (induction n)
  case 0
  then show ?case by (simp add: kept_upto_def)
next
  case (Suc n)
  have inds: "list_all (\<lambda>k. map count_indent ls ! k \<noteq> 0) [Suc j..<n] \<longleftrightarrow> list_all (\<lambda>k. count_indent (ls ! k) \<noteq> 0) [Suc j..<n]"
    using Suc.prems(1) by (auto simp: list_all_iff)
  show ?case
  proof (cases "is_content_line (ls ! n)")
    case True
    have "kept_upto ls (Suc n) ! j \<longleftrightarrow> (kept_upto ls n)[n := True] ! j
        \<or> (j < n \<and> count_indent (ls ! j) < count_indent (ls ! n) \<and> list_all (\<lambda>k. count_indent (ls ! k) \<noteq> 0) [Suc j..<n])"
      using Suc.prems mark_ancestors_nth [of j "(kept_upto ls n)[n := True]" n "count_indent (ls ! n)" "map count_indent ls"] inds True
      by (simp add: kept_upto_Suc)
    with Suc True show ?thesis by (cases "j = n") (auto simp: less_Suc_eq simp del: upt_Suc)
  qed (use Suc in \<open>simp add: kept_upto_Suc less_Suc_eq del: upt_Suc, blast\<close>)
qed

lemma kept_lines_needed: "kept_lines ls = map (needed ls) [0..<length ls]"
proof (rule nth_equalityI)
  fix j
  assume j: "j < length (kept_lines ls)"
  have eq: "kept_lines ls = kept_upto ls (length ls)" by (simp add: kept_lines_def kept_upto_def)
  with j show "kept_lines ls ! j = map (needed ls) [0..<length ls] ! j"
    by (auto simp: kept_upto_nth needed_def list_ex_iff simp del: upt_Suc)
qed (simp add: kept_lines_def flip: kept_upto_def)

lemma filter_zip_needed:
  "map fst (filter snd (zip ls (map P [0..<length ls]))) = map ((!) ls) (filter P [0..<length ls])"
proof -
  have z: "zip ls (map P [0..<length ls]) = map (\<lambda>i. (ls ! i, P i)) [0..<length ls]" by (rule nth_equalityI) simp_all
  show ?thesis by (simp add: z filter_map comp_def)
qed

text \<open>C35: the compact form of a snapshot keeps, in their order, exactly the lines that hold the text
  \<open>ref=\<close> or a colon followed by a blank, and the less indented lines before such a line within the
  same top-level block, whichever marks the loop over the lines sets and in which order. The test is
  one of substrings: a line of plain text with a colon in it passes too
  (\<open>compact_keeps_text_with_a_colon\<close>). When the tree has lines, only blank text is left of them and
  only interactive elements were asked for, the message \<open>(no interactive elements)\<close> takes its place;
  the compact form of an empty tree is empty in both modes.\<close>

theorem compact_keeps_context:
  "compact_tree tree interactive =
     (let ls = str_lines tree;
          out = join [CHR 0x0A] (map ((!) ls) (filter (needed ls) [0..<length ls]))
      in if ls \<noteq> [] \<and> interactive \<and> trim out = [] then ''(no interactive elements)'' else out)"
  by (simp add: compact_tree_def kept_lines_needed filter_zip_needed Let_def)

text \<open>The blank after the colon is taken for the mark of a value, wherever it stands.\<close>

lemma compact_keeps_text_with_a_colon:
  "compact_tree (''- StaticText '' @ [CHR 0x22] @ ''Note: hi'' @ [CHR 0x22]) True
     = ''- StaticText '' @ [CHR 0x22] @ ''Note: hi'' @ [CHR 0x22]"
  "compact_tree (''- StaticText '' @ [CHR 0x22] @ ''Note'' @ [CHR 0x22]) True = ''(no interactive elements)''"
  "compact_tree [] True = []"
  by code_simp+

text \<open>Every line above a needed line in the tree, that is every line whose indentation is below all the
  lines down to it, is kept.\<close>

lemma ancestors_needed:
  assumes "is_content_line (ls ! i)" "i < length ls" "j < i" "\<forall>k \<in> {j<..i}. count_indent (ls ! j) < count_indent (ls ! k)"
  shows "needed ls j"
proof -
  have "list_all (\<lambda>k. count_indent (ls ! k) \<noteq> 0) [Suc j..<i]" 
  proof (simp only: list_all_iff, rule ballI)
    fix k
    assume "k \<in> set [Suc j..<i]"
    then have "k \<in> {j<..i}" by auto
    with assms(4) show "count_indent (ls ! k) \<noteq> 0" by fastforce
  qed
  with assms show ?thesis by (auto simp: needed_def list_ex_iff intro!: bexI [of _ i])
qed

text \<open>A line that is no ancestor is kept too when it is indented less: the cell below \<open>row a\<close> here.\<close>

lemma compact_keeps_a_cousin:
  "compact_tree (join [CHR 0x0A] [''- table'', ''  - row a'', ''    - cell'', ''  - row b'', ''    - group'', ''      - link [ref=e1]'']) False =
     join [CHR 0x0A] [''- table'', ''  - row a'', ''    - cell'', ''  - row b'', ''    - group'', ''      - link [ref=e1]'']"
  by code_simp

subsection \<open>Snapshots end when the children form no cycle\<close>

lemma those_some: "(\<forall>x \<in> set xs. \<exists>y. f x = Some y) \<Longrightarrow> \<exists>ys. those (map f xs) = Some ys"
  by (induction xs) auto

lemma fold_bind_some:
  assumes "\<And>x s. x \<in> set xs \<Longrightarrow> I s \<Longrightarrow> \<exists>s'. f x s = Some s' \<and> I s'" and "I s"
  shows "\<exists>s'. fold (\<lambda>x r. Option.bind r (f x)) xs (Some s) = Some s' \<and> I s'"
  using assms
proof (induction xs arbitrary: s)
  case (Cons x xs)
  obtain s' where s': "f x s = Some s'" "I s'" using Cons.prems(1) [of x s] Cons.prems(2) by auto
  have "\<exists>s''. fold (\<lambda>x r. Option.bind r (f x)) xs (Some s') = Some s'' \<and> I s''"
    by (rule Cons.IH) (use Cons.prems(1) s' in auto)
  with s'(1) show ?case by simp
qed simp

text \<open>Only the children matter: \<open>ranked\<close> says that a number decreases from every node to its children.\<close>

definition ranked :: "(nat \<Rightarrow> nat) \<Rightarrow> nat list list \<Rightarrow> bool" where
  "ranked rank cs \<longleftrightarrow> (\<forall>i < length cs. \<forall>c \<in> set (cs ! i). c < length cs \<and> rank c < rank i)"

lemma set_depth_returns:
  assumes r: "ranked rank cs"
  shows "idx < length cs \<Longrightarrow> rank idx < fuel \<Longrightarrow> map tn_children ns = cs \<Longrightarrow>
    \<exists>ns'. set_depth fuel idx d ns = Some ns' \<and> map tn_children ns' = cs"
proof (induction fuel arbitrary: idx d ns)
  case (Suc fuel)
  let ?ns = "ns[idx := (ns ! idx)\<lparr>tn_depth := d\<rparr>]"
  have len: "length ns = length cs" using Suc.prems(3) by auto
  then have kids: "tn_children (ns ! idx) = cs ! idx" using Suc.prems by auto
  have "map tn_children ?ns = cs"
    using Suc.prems len by (simp add: map_update kids)
  moreover have "\<exists>ns''. set_depth fuel c (Suc d) ns' = Some ns'' \<and> map tn_children ns'' = cs"
    if "c \<in> set (cs ! idx)" "map tn_children ns' = cs" for c ns'
  proof -
    from that(1) r Suc.prems(1,2) have "c < length cs" "rank c < rank idx" by (auto simp: ranked_def)
    with Suc.prems(2) have "c < length cs" "rank c < fuel" by simp_all
    then show ?thesis using that(2) by (rule Suc.IH)
  qed
  ultimately show ?case
    using fold_bind_some [of "cs ! idx" "\<lambda>ns'. map tn_children ns' = cs" "\<lambda>c. set_depth fuel c (Suc d)" ?ns]
    by (simp add: kids)
qed simp

lemma render_tree_returns:
  assumes r: "ranked rank (map tn_children ns)"
  shows "idx < length ns \<Longrightarrow> rank idx < fuel \<Longrightarrow> \<exists>t. render_tree env opts ns fuel idx ind = Some t"
proof (induction fuel arbitrary: idx ind)
  case (Suc fuel)
  have "\<exists>ts. those (map (\<lambda>c. render_tree env opts ns fuel c d) (tn_children (ns ! idx))) = Some ts" for d
  proof (intro those_some ballI)
    fix c
    assume "c \<in> set (tn_children (ns ! idx))"
    with r Suc.prems(1) have "c < length ns" "rank c < rank idx" by (auto simp: ranked_def)
    with Suc show "\<exists>t. render_tree env opts ns fuel c d = Some t" by (meson less_Suc_eq_le less_le_trans)
  qed
  then have "\<exists>t. map_option concat (those (map (\<lambda>c. render_tree env opts ns fuel c d) (tn_children (ns ! idx)))) = Some t" for d
    by (metis option.simps(9))
  then show ?case by (simp add: Let_def)
qed simp

text \<open>The steps of \<open>build_tree\<close> before the depths add no child that the browser did not report.\<close>

definition within :: "(nat \<times> nat) set \<Rightarrow> nat \<Rightarrow> tree_node list \<Rightarrow> bool" where
  "within E n ns \<longleftrightarrow> length ns = n \<and> (\<forall>i < n. \<forall>c \<in> set (tn_children (ns ! i)). (i, c) \<in> E)"

lemma within_update:
  "within E n ns \<Longrightarrow> (\<forall>c \<in> set (tn_children x). (i, c) \<in> E) \<Longrightarrow> within E n (ns[i := x])"
  unfolding within_def by (metis length_list_update nth_list_update_eq nth_list_update_neq)

lemma within_keep: "within E n ns \<Longrightarrow> tn_children x = tn_children (ns ! i) \<Longrightarrow> within E n (ns[i := x])"
  unfolding within_def by (metis length_list_update nth_list_update_eq nth_list_update_neq)

lemma within_link: "within E n ns \<Longrightarrow> (i, c) \<in> E \<Longrightarrow> i < n \<Longrightarrow> within E n (link_nodes (i, c) ns)"
proof -
  assume w: "within E n ns" "(i, c) \<in> E" "i < n"
  then have "within E n (ns[i := (ns ! i)\<lparr>tn_children := tn_children (ns ! i) @ [c]\<rparr>])"
    by (intro within_update) (auto simp: within_def)
  then show ?thesis by (simp add: link_nodes_def Let_def within_keep)
qed

lemma within_clear: "within E n ns \<Longrightarrow> within E n (clear_nodes is ns)"
  unfolding clear_nodes_def
  by (induction "is" arbitrary: ns) (simp_all add: within_update tree_empty_def)

lemma within_merge_runs: "within E n ns \<Longrightarrow> within E n (merge_runs cs ns)"
proof (induction cs ns rule: merge_runs.induct)
  case (2 c cs ns)
  have "within E n (ns[c := (ns ! c)\<lparr>tn_name := nm\<rparr>])" for nm using 2(3) by (simp add: within_keep)
  with 2 show ?case by (simp add: Let_def within_clear)
qed simp

lemma within_merge_text: "within E n ns \<Longrightarrow> within E n (merge_text i ns)"
  by (simp add: merge_text_def Let_def within_merge_runs within_clear)

lemma fold_keeps: "(\<And>x s. x \<in> set xs \<Longrightarrow> I s \<Longrightarrow> I (f x s)) \<Longrightarrow> I s \<Longrightarrow> I (fold f xs s)"
  by (induction xs arbitrary: s) simp_all

lemma edges_bound: "(i, c) \<in> set (edges axs) \<Longrightarrow> i < length axs \<and> c < length axs"
proof -
  assume "(i, c) \<in> set (edges axs)"
  then obtain n where n: "(i, n) \<in> set (zip [0..<length axs] axs)"
      "c \<in> set (List.map_filter (id_to_idx axs) (unwrap_or [] (ax_child_ids n)))"
    by (auto simp: edges_def)
  from n(2) obtain cid where "id_to_idx axs cid = Some c" by (auto simp: List.map_filter_def)
  then have "(cid, c) \<in> set (zip (map ax_node_id axs) [0..<length axs])"
    by (auto simp: id_to_idx_def dest: map_of_SomeD)
  with n(1) show ?thesis by (auto dest: set_zip_leftD set_zip_rightD)
qed

text \<open>Without a cycle, the number of nodes below a node decreases along the children and stays below the
  number of nodes.\<close>

definition nodes_below :: "(nat \<times> nat) set \<Rightarrow> nat \<Rightarrow> nat" where
  "nodes_below E i = card {j. (i, j) \<in> E\<^sup>+}"

lemma nodes_below_less:
  assumes "acyclic E" and E: "E \<subseteq> {..<n} \<times> {..<n}"
  shows "(i, c) \<in> E \<Longrightarrow> nodes_below E c < nodes_below E i" and "i < n \<Longrightarrow> nodes_below E i < n"
proof -
  have sub: "E\<^sup>+ \<subseteq> {..<n} \<times> {..<n}" using E by (rule trancl_subset_Sigma)
  have fin: "finite {j. (k, j) \<in> E\<^sup>+}" for k by (rule finite_subset [of _ "{..<n}"]) (use sub in auto)
  have irr: "(k, k) \<notin> E\<^sup>+" for k using assms(1) by (simp add: acyclic_def)
  show "nodes_below E c < nodes_below E i" if "(i, c) \<in> E"
    unfolding nodes_below_def
    by (rule psubset_card_mono [OF fin]) (use that irr in \<open>auto intro: trancl_into_trancl2\<close>)
  show "nodes_below E i < n" if "i < n"
  proof -
    have "card {j. (i, j) \<in> E\<^sup>+} < card {..<n}"
      by (rule psubset_card_mono) (use sub irr that in auto)
    then show ?thesis by (simp add: nodes_below_def)
  qed
qed

definition built_ok :: "ax_node list \<Rightarrow> tree_node list \<Rightarrow> bool" where
  "built_ok axs ns \<longleftrightarrow> length ns = length axs \<and> ranked (nodes_below (set (edges axs))) (map tn_children ns)"

lemma build_tree_returns:
  assumes ac: "acyclic (set (edges axs))" and fuel: "length axs \<le> fuel"
  shows "\<exists>ns roots. build_tree env fuel axs = Some (ns, roots) \<and> built_ok axs ns \<and> (\<forall>r \<in> set roots. r < length axs)"
proof -
  let ?E = "set (edges axs)"
  define ns0 where "ns0 = fold link_nodes (edges axs) (map (base_node env) axs)"
  define ns1 where "ns1 = fold merge_text [0..<length ns0] ns0"
  have E: "?E \<subseteq> {..<length axs} \<times> {..<length axs}" using edges_bound by auto
  have base: "tn_children (base_node env a) = []" for a
  proof -
    have "tn_children (fold extract_property ps n) = tn_children n" for ps n
      by (induction ps arbitrary: n) (simp_all add: extract_property_def Let_def)
    then show ?thesis by (simp add: base_node_def Let_def extract_properties_def tree_empty_def)
  qed
  have "within ?E (length axs) ns0" unfolding ns0_def
  proof (rule fold_keeps)
    show "within ?E (length axs) (link_nodes e s)" if "e \<in> ?E" "within ?E (length axs) s" for e s
      using that by (metis edges_bound surj_pair within_link)
  qed (simp add: within_def base)
  then have w: "within ?E (length axs) ns1" unfolding ns1_def
    by (intro fold_keeps [where I = "within ?E (length axs)"] within_merge_text) simp_all
  then have len: "length ns1 = length axs" by (simp add: within_def)
  have r: "ranked (nodes_below ?E) (map tn_children ns1)"
    unfolding ranked_def
  proof (intro allI impI ballI)
    fix i c
    assume "i < length (map tn_children ns1)" "c \<in> set (map tn_children ns1 ! i)"
    with w have e: "(i, c) \<in> ?E" by (simp add: within_def)
    show "c < length (map tn_children ns1) \<and> nodes_below ?E c < nodes_below ?E i"
      using nodes_below_less(1) [OF ac E e] edges_bound [OF e] len by simp
  qed
  let ?I = "\<lambda>ns. map tn_children ns = map tn_children ns1"
  have "\<exists>ns'. set_depth fuel idx 0 ns = Some ns' \<and> ?I ns'" if "idx \<in> set (root_indices ns1)" "?I ns" for idx ns
    by (rule set_depth_returns [OF r])
      (use that len fuel nodes_below_less(2) [OF ac E, of idx] in \<open>auto simp: root_indices_def\<close>)
  then have "\<exists>ns'. fold (\<lambda>r m. Option.bind m (set_depth fuel r 0)) (root_indices ns1) (Some ns1) = Some ns' \<and> ?I ns'"
    using fold_bind_some [of "root_indices ns1" ?I "\<lambda>r. set_depth fuel r 0" ns1] by blast
  then obtain ns' where ns': "fold (\<lambda>r m. Option.bind m (set_depth fuel r 0)) (root_indices ns1) (Some ns1) = Some ns'" "?I ns'" by blast
  have "length ns' = length axs" using ns'(2) len by (metis length_map)
  with ns' r have "built_ok axs ns'" by (simp add: built_ok_def)
  moreover have "build_tree env fuel axs = Some (ns', root_indices ns1)"
    using ns'(1) by (simp add: build_tree_def Let_def ns0_def ns1_def)
  ultimately show ?thesis using len by (auto simp: root_indices_def)
qed

text \<open>Promoting, referencing and adding addresses change no children.\<close>

lemma children_update: "tn_children x = tn_children (ns ! i) \<Longrightarrow> map tn_children (ns[i := x]) = map tn_children ns"
  by (metis list_update_id map_update)

lemma children_promote: "map tn_children (promote_hidden_inputs cursors ns) = map tn_children ns"
  by (simp add: promote_hidden_inputs_def promote_hidden_input_def split: option.splits)

lemma children_urls: "map tn_children (with_urls env opts ns) = map tn_children ns"
  by (simp add: with_urls_def split: option.splits)

lemma children_add_refs: "map tn_children (fst (snd (add_refs counts frame xs m ns rm))) = map tn_children ns"
  by (induction counts frame xs m ns rm rule: add_refs.induct) (simp_all add: Let_def children_update)

lemma children_cursor: "map tn_children (fold (with_cursor cursors) js ns) = map tn_children ns"
proof (induction js arbitrary: ns)
  case (Cons j js)
  have "map tn_children (with_cursor cursors j ns) = map tn_children ns"
    by (simp add: with_cursor_def children_update split: option.splits)
  with Cons show ?case by simp
qed simp

lemma children_assign: "assign_refs cursors frame ns rm = (ns', rm') \<Longrightarrow> map tn_children ns' = map tn_children ns"
proof -
  assume run: "assign_refs cursors frame ns rm = (ns', rm')"
  obtain xs counts where x: "nodes_with_refs cursors 0 ns (\<lambda>k. 0) = (xs, counts)" by force
  obtain nr ns1 rm1 where a: "add_refs counts frame xs (rm_next_ref rm) ns rm = (nr, ns1, rm1)" by (metis prod_cases3)
  from run x a have "ns' = fold (with_cursor cursors) (map fst xs) ns1" by (simp add: assign_refs_def)
  with a children_add_refs [of counts frame xs "rm_next_ref rm" ns rm] show ?thesis by (simp add: children_cursor)
qed

lemma render_all_returns:
  assumes ac: "acyclic (set (edges axs))" and fuel: "length axs \<le> fuel" and ok: "built_ok axs ns" and rs: "\<forall>r \<in> set rs. r < length axs"
  shows "\<exists>ts. those (map (\<lambda>r. render_tree env opts ns fuel r 0) rs) = Some ts"
proof (intro those_some ballI)
  fix r
  assume "r \<in> set rs"
  with rs have r: "r < length axs" by blast
  have E: "set (edges axs) \<subseteq> {..<length axs} \<times> {..<length axs}" using edges_bound by auto
  have "nodes_below (set (edges axs)) r < fuel" using nodes_below_less(2) [OF ac E r] fuel by simp
  then show "\<exists>t. render_tree env opts ns fuel r 0 = Some t"
    using render_tree_returns [of "nodes_below (set (edges axs))" ns r fuel] ok r by (simp add: built_ok_def)
qed

lemma effective_roots_bound:
  "effective_roots opts ids ns roots = Inr rs \<Longrightarrow> \<forall>r \<in> set roots. r < length ns \<Longrightarrow> \<forall>r \<in> set rs. r < length ns"
  by (auto simp: effective_roots_def selector_roots_def Let_def split: option.splits if_splits)

definition finite_frames :: "snap_env \<Rightarrow> nat \<Rightarrow> bool" where
  "finite_frames env fuel \<longleftrightarrow> (\<forall>frame axs. sn_nodes env frame = Inr axs \<longrightarrow> acyclic (set (edges axs)) \<and> length axs \<le> fuel)"

lemma frame_snapshot_returns:
  assumes "finite_frames env fuel"
  shows "\<exists>r rm'. frame_snapshot env opts fuel frame rm = Some (r, rm') \<and> extends rm rm'"
proof (cases "and_then (sn_enable env) (\<lambda>u. and_then (selector_ids env opts) (\<lambda>ids. and_then (sn_nodes env frame) (\<lambda>axs. Inr (ids, axs))))")
  case (Inr p)
  obtain ids axs where p: "p = (ids, axs)" by force
  with Inr have nodes: "sn_nodes env frame = Inr axs" by (auto simp: and_then_def split: sum.splits)
  with assms have fin: "acyclic (set (edges axs))" "length axs \<le> fuel" by (auto simp: finite_frames_def)
  obtain ns roots where b: "build_tree env fuel axs = Some (ns, roots)" "built_ok axs ns" "\<forall>r \<in> set roots. r < length axs"
    using build_tree_returns [OF fin] by blast
  show ?thesis
  proof (cases "effective_roots opts ids ns roots")
    case (Inr rs)
    obtain ns1 rm1 where a: "assign_refs (sn_cursors env) frame (promote_hidden_inputs (sn_cursors env) ns) rm = (ns1, rm1)" by force
    let ?ns = "with_urls env opts ns1"
    have kids: "map tn_children ?ns = map tn_children ns"
      by (simp add: children_urls children_assign [OF a] children_promote)
    then have "length ?ns = length ns" by (metis length_map)
    with kids b(2) have "built_ok axs ?ns" by (simp add: built_ok_def)
    moreover have "\<forall>r \<in> set rs. r < length axs" using effective_roots_bound [OF Inr] b(2,3) by (simp add: built_ok_def)
    ultimately obtain ts where "those (map (\<lambda>r. render_tree env opts ?ns fuel r 0) rs) = Some ts"
      using render_all_returns [OF fin] by blast
    with \<open>and_then _ _ = Inr p\<close> p b(1) Inr a assign_refs_table(2) [OF a] show ?thesis
      by (simp add: frame_snapshot_def Let_def)
  qed (use Inr p b(1) in \<open>simp add: frame_snapshot_def\<close>)
qed (simp add: frame_snapshot_def)

lemma child_snapshot_returns:
  assumes "finite_frames env fuel"
  shows "\<exists>children' rm'. child_snapshot env opts fuel n (children, rm) = Some (children', rm') \<and> extends rm rm'"
proof (cases "tn_role n \<noteq> ''Iframe'' \<or> \<not> tn_has_ref n \<or> Option.bind (tn_backend_node_id n) (sn_frame env) = None")
  case False
  then obtain fid where fid: "Option.bind (tn_backend_node_id n) (sn_frame env) = Some fid" by auto
  obtain r rm' where f: "frame_snapshot env opts fuel (Some fid) rm = Some (r, rm')" "extends rm rm'"
    using frame_snapshot_returns [OF assms] by blast
  show ?thesis
  proof (cases r)
    case (Inl e)
    with False fid f show ?thesis by (simp add: child_snapshot_def)
  next
    case (Inr p)
    with False fid f show ?thesis by (cases p) (simp add: child_snapshot_def Let_def)
  qed
qed (auto simp: child_snapshot_def)

text \<open>C34: a snapshot returns, with a text or an error, whenever the child identifiers of no frame form
  a cycle, and recursion as deep as the frame has nodes is enough; the references handed out
  before keep their meaning.\<close>

theorem snapshot_returns:
  assumes "finite_frames env fuel"
  shows "\<exists>res rm'. take_snapshot env opts fuel frame rm = Some (res, rm') \<and> extends rm rm'"
proof -
  obtain r rm1 where f: "frame_snapshot env opts fuel frame rm = Some (r, rm1)" "extends rm rm1"
    using frame_snapshot_returns [OF assms] by blast
  show ?thesis
  proof (cases r)
    case (Inl e)
    with f show ?thesis by (simp add: take_snapshot_def)
  next
    case (Inr p)
    obtain out ns where p: "p = (out, ns)" by force
    have "\<exists>acc'. child_snapshot env opts fuel n acc = Some acc' \<and> extends rm (snd acc')" if "extends rm (snd acc)" for n acc
      using child_snapshot_returns [OF assms, of opts n "fst acc" "snd acc"] that by (auto intro: extends_trans)
    then have "\<exists>acc'. fold (\<lambda>n m. Option.bind m (child_snapshot env opts fuel n)) ns (Some ([], rm1)) = Some acc' \<and> extends rm (snd acc')"
      using f(2) by (intro fold_bind_some) auto
    then obtain children rm2 where
        c: "fold (\<lambda>n m. Option.bind m (child_snapshot env opts fuel n)) ns (Some ([], rm1)) = Some (children, rm2)" "extends rm rm2"
      by (metis snd_conv surj_pair)
    show ?thesis
    proof (cases frame)
      case None
      with f(1) Inr p c show ?thesis by (simp add: take_snapshot_def)
    next
      case (Some fid)
      with f Inr p show ?thesis by (simp add: take_snapshot_def)
    qed
  qed
qed

text \<open>A node that is its own child keeps the recursion going, whatever the fuel.\<close>

lemma own_child_never_ends: "i < length ns \<Longrightarrow> tn_children (ns ! i) = [i] \<Longrightarrow> set_depth fuel i d ns = None"
  by (induction fuel arbitrary: d ns) simp_all

definition example_ax :: "string \<Rightarrow> string \<Rightarrow> string list \<Rightarrow> int \<Rightarrow> ax_node" where
  "example_ax nid role children b =
     \<lparr>ax_node_id = nid, ax_role = Some (Some (JStr role)), ax_name = None, ax_value = None, ax_properties = None,
      ax_child_ids = Some children, ax_backend_id = Some b, ax_ignored = None\<rparr>"

definition example_axs :: "ax_node list" where
  "example_axs = [example_ax ''1'' ''RootWebArea'' [''2''] 1, example_ax ''2'' ''button'' [] 2]"

definition example_snap_env :: snap_env where
  "example_snap_env =
     \<lparr>sn_serde = sample_serde, sn_number = (\<lambda>n. []), sn_enable = Inr (), sn_query = (\<lambda>q. Inr None), sn_describe = (\<lambda>i. Inr JNull),
      sn_nodes = (\<lambda>f. Inr example_axs), sn_cursors = [], sn_href = (\<lambda>b. None), sn_frame = (\<lambda>b. None)\<rparr>"

definition example_options :: snapshot_options where
  "example_options = \<lparr>so_selector = None, so_interactive = True, so_compact = True, so_depth = None, so_urls = False\<rparr>"

lemma example_frames: "finite_frames example_snap_env 2"
proof -
  have "edges example_axs = [(0, 1)]" by code_simp
  moreover have "acyclic {(0, 1 :: nat)}" by (simp add: acyclic_insert wf_acyclic)
  moreover have "length example_axs = 2" by (simp add: example_axs_def)
  ultimately show ?thesis by (simp add: finite_frames_def example_snap_env_def)
qed

theorem snapshot_returns_witness:
  "finite_frames example_snap_env 2
   \<and> (\<exists>rm'. take_snapshot example_snap_env example_options 2 None ref_map_new = Some (Inr ''- button [ref=e1]'', rm') \<and> extends ref_map_new rm')"
proof -
  have "map_option fst (take_snapshot example_snap_env example_options 2 None ref_map_new) = Some (Inr ''- button [ref=e1]'')"
    by code_simp
  then show ?thesis using snapshot_returns [OF example_frames, of example_options None ref_map_new] example_frames by auto
qed

text \<open>The search for the line of a frame: another attribute on it loses the text of the frame, and a page
  text that contains the marker takes it.\<close>

lemma frame_with_attribute_loses_text:
  "insert_child (''e2'', ''- button [ref=e3]'') (''- Iframe [disabled, ref=e2]'' @ [CHR 0x0A]) = ''- Iframe [disabled, ref=e2]'' @ [CHR 0x0A]"
  by code_simp

lemma page_text_takes_frame_text:
  "insert_child (''e2'', ''- button [ref=e3]'') (''- paragraph: [ref=e2]'' @ [CHR 0x0A] @ ''- Iframe [ref=e2]'' @ [CHR 0x0A]) =
     ''- paragraph: [ref=e2]'' @ [CHR 0x0A] @ ''  - button [ref=e3]'' @ [CHR 0x0A] @ ''- Iframe [ref=e2]'' @ [CHR 0x0A]"
  by code_simp

end
