(* ===== verification/Cmd_Flags.thy ===== *)
theory Cmd_Flags
  imports Cmd_Args Cli_Config
begin

section \<open>The flags of the browser command line\<close>

text \<open>
  \<open>agent-browser/src/flags.rs\<close>: which settings a command line, the environment and the
  configuration files give. \<open>parse_flags\<close> reads the flags, \<open>clean_args\<close> removes them from the
  words of the command, and \<open>extract_config_path\<close> looks for \<open>--config\<close> before either: three
  scanners over the same words, shown to agree with one reading of the command line
  (\<open>read_items\<close>). Environment variables, home directory and file tree are fields of
  \<open>flag_env\<close>, and so is the derived JSON decoder of \<open>Config\<close>. Warnings printed on standard
  error are left out.
\<close>

subsection \<open>Configuration files\<close>

record config =
  cf_headed :: "bool option"
  cf_json :: "bool option"
  cf_debug :: "bool option"
  cf_session :: "string option"
  cf_session_name :: "string option"
  cf_executable_path :: "string option"
  cf_extensions :: "string list option"
  cf_init_scripts :: "string list option"
  cf_enable :: "string list option"
  cf_profile :: "string option"
  cf_state :: "string option"
  cf_proxy :: "string option"
  cf_proxy_bypass :: "string option"
  cf_args :: "string option"
  cf_user_agent :: "string option"
  cf_provider :: "string option"
  cf_device :: "string option"
  cf_ignore_https_errors :: "bool option"
  cf_allow_file_access :: "bool option"
  cf_cdp :: "string option"
  cf_auto_connect :: "bool option"
  cf_headers :: "string option"
  cf_annotate :: "bool option"
  cf_color_scheme :: "string option"
  cf_download_path :: "string option"
  cf_content_boundaries :: "bool option"
  cf_max_output :: "nat option"
  cf_allowed_domains :: "string list option"
  cf_action_policy :: "string option"
  cf_confirm_actions :: "string option"
  cf_confirm_interactive :: "bool option"
  cf_engine :: "string option"
  cf_screenshot_dir :: "string option"
  cf_screenshot_quality :: "32 word option"
  cf_screenshot_format :: "string option"
  cf_idle_timeout :: "string option"
  cf_no_auto_dialog :: "bool option"
  cf_model :: "string option"

definition default_config :: config where
  "default_config =
     \<lparr>cf_headed = None,
      cf_json = None,
      cf_debug = None,
      cf_session = None,
      cf_session_name = None,
      cf_executable_path = None,
      cf_extensions = None,
      cf_init_scripts = None,
      cf_enable = None,
      cf_profile = None,
      cf_state = None,
      cf_proxy = None,
      cf_proxy_bypass = None,
      cf_args = None,
      cf_user_agent = None,
      cf_provider = None,
      cf_device = None,
      cf_ignore_https_errors = None,
      cf_allow_file_access = None,
      cf_cdp = None,
      cf_auto_connect = None,
      cf_headers = None,
      cf_annotate = None,
      cf_color_scheme = None,
      cf_download_path = None,
      cf_content_boundaries = None,
      cf_max_output = None,
      cf_allowed_domains = None,
      cf_action_policy = None,
      cf_confirm_actions = None,
      cf_confirm_interactive = None,
      cf_engine = None,
      cf_screenshot_dir = None,
      cf_screenshot_quality = None,
      cf_screenshot_format = None,
      cf_idle_timeout = None,
      cf_no_auto_dialog = None,
      cf_model = None\<rparr>"

text \<open>\<open>Option::or\<close>, and the merge of two lists.\<close>

definition opt_or :: "'a option \<Rightarrow> 'a option \<Rightarrow> 'a option" where
  "opt_or a b = (case a of None \<Rightarrow> b | Some x \<Rightarrow> Some x)"

definition extend_list :: "'a list option \<Rightarrow> 'a list option \<Rightarrow> 'a list option" where
  "extend_list a b =
     (case (a, b) of (Some xs, Some ys) \<Rightarrow> Some (xs @ ys) | _ \<Rightarrow> opt_or b a)"

definition config_merge :: "config \<Rightarrow> config \<Rightarrow> config" where
  "config_merge c d =
     \<lparr>cf_headed = opt_or (cf_headed d) (cf_headed c),
      cf_json = opt_or (cf_json d) (cf_json c),
      cf_debug = opt_or (cf_debug d) (cf_debug c),
      cf_session = opt_or (cf_session d) (cf_session c),
      cf_session_name = opt_or (cf_session_name d) (cf_session_name c),
      cf_executable_path = opt_or (cf_executable_path d) (cf_executable_path c),
      cf_extensions = extend_list (cf_extensions c) (cf_extensions d),
      cf_init_scripts = extend_list (cf_init_scripts c) (cf_init_scripts d),
      cf_enable = extend_list (cf_enable c) (cf_enable d),
      cf_profile = opt_or (cf_profile d) (cf_profile c),
      cf_state = opt_or (cf_state d) (cf_state c),
      cf_proxy = opt_or (cf_proxy d) (cf_proxy c),
      cf_proxy_bypass = opt_or (cf_proxy_bypass d) (cf_proxy_bypass c),
      cf_args = opt_or (cf_args d) (cf_args c),
      cf_user_agent = opt_or (cf_user_agent d) (cf_user_agent c),
      cf_provider = opt_or (cf_provider d) (cf_provider c),
      cf_device = opt_or (cf_device d) (cf_device c),
      cf_ignore_https_errors = opt_or (cf_ignore_https_errors d) (cf_ignore_https_errors c),
      cf_allow_file_access = opt_or (cf_allow_file_access d) (cf_allow_file_access c),
      cf_cdp = opt_or (cf_cdp d) (cf_cdp c),
      cf_auto_connect = opt_or (cf_auto_connect d) (cf_auto_connect c),
      cf_headers = opt_or (cf_headers d) (cf_headers c),
      cf_annotate = opt_or (cf_annotate d) (cf_annotate c),
      cf_color_scheme = opt_or (cf_color_scheme d) (cf_color_scheme c),
      cf_download_path = opt_or (cf_download_path d) (cf_download_path c),
      cf_content_boundaries = opt_or (cf_content_boundaries d) (cf_content_boundaries c),
      cf_max_output = opt_or (cf_max_output d) (cf_max_output c),
      cf_allowed_domains = opt_or (cf_allowed_domains d) (cf_allowed_domains c),
      cf_action_policy = opt_or (cf_action_policy d) (cf_action_policy c),
      cf_confirm_actions = opt_or (cf_confirm_actions d) (cf_confirm_actions c),
      cf_confirm_interactive = opt_or (cf_confirm_interactive d) (cf_confirm_interactive c),
      cf_engine = opt_or (cf_engine d) (cf_engine c),
      cf_screenshot_dir = opt_or (cf_screenshot_dir d) (cf_screenshot_dir c),
      cf_screenshot_quality = opt_or (cf_screenshot_quality d) (cf_screenshot_quality c),
      cf_screenshot_format = opt_or (cf_screenshot_format d) (cf_screenshot_format c),
      cf_idle_timeout = opt_or (cf_idle_timeout d) (cf_idle_timeout c),
      cf_no_auto_dialog = opt_or (cf_no_auto_dialog d) (cf_no_auto_dialog c),
      cf_model = opt_or (cf_model d) (cf_model c)\<rparr>"

record flag_env =
  fe_unicode :: unicode
  fe_var :: "string \<rightharpoonup> string"
  fe_home :: "string option"
  fe_cwd :: apath
  fe_decode :: "string \<Rightarrow> string + config"
  fe_fs :: node

text \<open>Units are converted to milliseconds in \<open>u64\<close>, which wraps in a release build.\<close>

definition is_ascii_alphabetic :: "char \<Rightarrow> bool" where
  "is_ascii_alphabetic c \<longleftrightarrow> is_ascii_alphanumeric c \<and> \<not> is_ascii_digit c"

definition millis :: "nat \<Rightarrow> 64 word \<Rightarrow> string" where
  "millis n f = show_nat (unat (of_nat n * f))"

definition parse_idle_timeout :: "string \<Rightarrow> string + string" where
  "parse_idle_timeout raw =
     (let s = trim raw
      in if s = [] then Inl ''Empty idle timeout''
         else if is_ascii_alphabetic (last s)
         then and_then (ok_or ''Invalid number'' (parse_u64 (butlast s)))
                (\<lambda>n. if last s = CHR ''s'' then Inr (millis n 1000)
                     else if last s = CHR ''m'' then Inr (millis n (60 * 1000))
                     else if last s = CHR ''h'' then Inr (millis n (60 * 60 * 1000))
                     else Inl ''Invalid idle timeout unit (use s, m, h, or raw ms)'')
         else and_then (ok_or ''Invalid idle timeout'' (parse_u64 s)) (\<lambda>_. Inr s))"

definition parse_idle_timeout_value :: "string option \<Rightarrow> string option" where
  "parse_idle_timeout_value v =
     Option.bind v (\<lambda>raw. case parse_idle_timeout raw of Inr ms \<Rightarrow> Some ms | Inl e \<Rightarrow> None)"

definition read_config_file :: "flag_env \<Rightarrow> string \<Rightarrow> config option" where
  "read_config_file env path =
     (case fs_read_to_string (abs_components (fe_cwd env) path) (fe_fs env) of
        Inl e \<Rightarrow> None
      | Inr t \<Rightarrow>
          (case fe_decode env t of
             Inl e \<Rightarrow> None
           | Inr c \<Rightarrow> Some (c\<lparr>cf_idle_timeout := parse_idle_timeout_value (cf_idle_timeout c)\<rparr>)))"

definition env_var_is_truthy :: "flag_env \<Rightarrow> string \<Rightarrow> bool" where
  "env_var_is_truthy env name =
     (case fe_var env name of
        Some v \<Rightarrow> to_lowercase (fe_unicode env) v \<notin> set [''0'', ''false'', ''no'', []]
      | None \<Rightarrow> False)"

definition parse_bool_arg :: "string list \<Rightarrow> bool \<times> bool" where
  "parse_bool_arg following =
     (case following of
        [] \<Rightarrow> (True, False)
      | v # vs \<Rightarrow> (if v = ''true'' then (True, True) else if v = ''false'' then (False, True) else (True, False)))"

definition FLAGS_WITH_VALUE :: "string list" where
  "FLAGS_WITH_VALUE =
     [''--session'', ''--headers'', ''--executable-path'', ''--cdp'', ''--extension'',
      ''--init-script'', ''--enable'', ''--profile'', ''--state'', ''--proxy'',
      ''--proxy-bypass'', ''--args'', ''--user-agent'', ''-p'', ''--provider'',
      ''--device'', ''--session-name'', ''--color-scheme'', ''--download-path'',
      ''--max-output'', ''--allowed-domains'', ''--action-policy'', ''--confirm-actions'',
      ''--engine'', ''--screenshot-dir'', ''--screenshot-quality'',
      ''--screenshot-format'', ''--idle-timeout'', ''--model'']"

fun extract_config_path :: "string list \<Rightarrow> string option option" where
  "extract_config_path [] = None"
| "extract_config_path (a # as) =
     (if a = ''--config'' then Some (get_arg as 0)
      else if a \<in> set FLAGS_WITH_VALUE then extract_config_path (drop 1 as)
      else extract_config_path as)"

definition load_config :: "flag_env \<Rightarrow> string list \<Rightarrow> string + config" where
  "load_config env args =
     (case (case extract_config_path args of
              Some p \<Rightarrow> Some (''--config'', p)
            | None \<Rightarrow> map_option (\<lambda>p. (''AGENT_BROWSER_CONFIG'', Some p)) (fe_var env ''AGENT_BROWSER_CONFIG'')) of
        Some (source, maybe_path) \<Rightarrow>
          and_then (ok_or (source @ '' requires a file path'') maybe_path)
            (\<lambda>path. if \<not> fs_exists (fe_fs env) (abs_components (fe_cwd env) path)
                    then Inl (''config file not found: '' @ path)
                    else ok_or (''failed to load config from '' @ path) (read_config_file env path))
      | None \<Rightarrow>
          (let user = unwrap_or default_config
                 (Option.bind (fe_home env)
                    (\<lambda>d. read_config_file env (path_join (path_join d ''.agent-browser'') ''config.json'')))
           in Inr (case read_config_file env ''agent-browser.json'' of
                     Some project \<Rightarrow> config_merge user project
                   | None \<Rightarrow> user)))"

subsection \<open>Flags\<close>

text \<open>The fields that the command parser does not read, beside those it reads.\<close>

record all_flags = flags +
  fl_json :: bool
  fl_debug :: bool
  fl_session :: string
  fl_executable_path :: "string option"
  fl_cdp :: "string option"
  fl_extensions :: "string list"
  fl_init_scripts :: "string list"
  fl_enable :: "string list"
  fl_profile :: "string option"
  fl_state :: "string option"
  fl_proxy :: "string option"
  fl_proxy_bypass :: "string option"
  fl_args :: "string option"
  fl_user_agent :: "string option"
  fl_ignore_https_errors :: bool
  fl_allow_file_access :: bool
  fl_auto_connect :: bool
  fl_session_name :: "string option"
  fl_color_scheme :: "string option"
  fl_download_path :: "string option"
  fl_content_boundaries :: bool
  fl_max_output :: "nat option"
  fl_allowed_domains :: "string list option"
  fl_action_policy :: "string option"
  fl_confirm_actions :: "string option"
  fl_confirm_interactive :: bool
  fl_engine :: "string option"
  fl_idle_timeout :: "string option"
  fl_no_auto_dialog :: bool
  fl_model :: "string option"
  fl_verbose :: bool
  fl_quiet :: bool
  cli_executable_path :: bool
  cli_extensions :: bool
  cli_init_scripts :: bool
  cli_enable :: bool
  cli_profile :: bool
  cli_state :: bool
  cli_args :: bool
  cli_user_agent :: bool
  cli_proxy :: bool
  cli_proxy_bypass :: bool
  cli_allow_file_access :: bool
  cli_annotate :: bool
  cli_download_path :: bool
  cli_headed :: bool

definition keep_if :: "('a \<Rightarrow> bool) \<Rightarrow> 'a option \<Rightarrow> 'a option" where
  "keep_if p v = (case v of Some x \<Rightarrow> (if p x then Some x else None) | None \<Rightarrow> None)"

definition first_of :: "'a option list \<Rightarrow> 'a option" where
  "first_of xs = foldr opt_or xs None"

text \<open>A comma list with its blanks and empty items removed; of domains also in lower case.\<close>

definition comma_list :: "string \<Rightarrow> string list" where
  "comma_list s = filter (\<lambda>p. p \<noteq> []) (map trim (split_on (CHR '','') s))"

definition domain_list :: "unicode \<Rightarrow> string \<Rightarrow> string list" where
  "domain_list u s = filter (\<lambda>d. d \<noteq> []) (map (\<lambda>d. to_lowercase u (trim d)) (split_on (CHR '','') s))"

definition list_setting :: "flag_env \<Rightarrow> string \<Rightarrow> string list option \<Rightarrow> string list" where
  "list_setting env name from_config =
     (let given = unwrap_or [] (map_option comma_list (fe_var env name))
      in if given \<noteq> [] then given else unwrap_or [] from_config)"

definition initial_flags :: "flag_env \<Rightarrow> config \<Rightarrow> all_flags" where
  "initial_flags env c =
     \<lparr>headed = env_var_is_truthy env ''AGENT_BROWSER_HEADED'' \<or> unwrap_or False (cf_headed c),
      provider = opt_or (fe_var env ''AGENT_BROWSER_PROVIDER'') (cf_provider c),
      fl_headers = cf_headers c,
      device = opt_or (fe_var env ''AGENT_BROWSER_IOS_DEVICE'') (cf_device c),
      annotate = env_var_is_truthy env ''AGENT_BROWSER_ANNOTATE'' \<or> unwrap_or False (cf_annotate c),
      screenshot_format = keep_if (\<lambda>s. s = ''png'' \<or> s = ''jpeg'') (opt_or (fe_var env ''AGENT_BROWSER_SCREENSHOT_FORMAT'') (cf_screenshot_format c)),
      screenshot_quality = opt_or (Option.bind (fe_var env ''AGENT_BROWSER_SCREENSHOT_QUALITY'') (\<lambda>s. map_option of_nat (parse_u32 s))) (cf_screenshot_quality c),
      screenshot_dir = opt_or (fe_var env ''AGENT_BROWSER_SCREENSHOT_DIR'') (cf_screenshot_dir c),
      default_timeout = Option.bind (fe_var env ''AGENT_BROWSER_DEFAULT_TIMEOUT'') (\<lambda>s. map_option of_nat (parse_u64 s)),
      fl_json = env_var_is_truthy env ''AGENT_BROWSER_JSON'' \<or> unwrap_or False (cf_json c),
      fl_debug = env_var_is_truthy env ''AGENT_BROWSER_DEBUG'' \<or> unwrap_or False (cf_debug c),
      fl_session = unwrap_or ''default'' (opt_or (fe_var env ''AGENT_BROWSER_SESSION'') (cf_session c)),
      fl_executable_path = opt_or (fe_var env ''AGENT_BROWSER_EXECUTABLE_PATH'') (cf_executable_path c),
      fl_cdp = cf_cdp c,
      fl_extensions = list_setting env ''AGENT_BROWSER_EXTENSIONS'' (cf_extensions c),
      fl_init_scripts = list_setting env ''AGENT_BROWSER_INIT_SCRIPTS'' (cf_init_scripts c),
      fl_enable = list_setting env ''AGENT_BROWSER_ENABLE'' (cf_enable c),
      fl_profile = opt_or (fe_var env ''AGENT_BROWSER_PROFILE'') (cf_profile c),
      fl_state = opt_or (fe_var env ''AGENT_BROWSER_STATE'') (cf_state c),
      fl_proxy = first_of [fe_var env ''AGENT_BROWSER_PROXY'', cf_proxy c, fe_var env ''HTTP_PROXY'', fe_var env ''http_proxy'',
         fe_var env ''HTTPS_PROXY'', fe_var env ''https_proxy'', fe_var env ''ALL_PROXY'', fe_var env ''all_proxy''],
      fl_proxy_bypass = first_of [fe_var env ''AGENT_BROWSER_PROXY_BYPASS'', cf_proxy_bypass c, fe_var env ''NO_PROXY'', fe_var env ''no_proxy''],
      fl_args = opt_or (fe_var env ''AGENT_BROWSER_ARGS'') (cf_args c),
      fl_user_agent = opt_or (fe_var env ''AGENT_BROWSER_USER_AGENT'') (cf_user_agent c),
      fl_ignore_https_errors = env_var_is_truthy env ''AGENT_BROWSER_IGNORE_HTTPS_ERRORS'' \<or> unwrap_or False (cf_ignore_https_errors c),
      fl_allow_file_access = env_var_is_truthy env ''AGENT_BROWSER_ALLOW_FILE_ACCESS'' \<or> unwrap_or False (cf_allow_file_access c),
      fl_auto_connect = env_var_is_truthy env ''AGENT_BROWSER_AUTO_CONNECT'' \<or> unwrap_or False (cf_auto_connect c),
      fl_session_name = opt_or (fe_var env ''AGENT_BROWSER_SESSION_NAME'') (cf_session_name c),
      fl_color_scheme = opt_or (fe_var env ''AGENT_BROWSER_COLOR_SCHEME'') (cf_color_scheme c),
      fl_download_path = opt_or (fe_var env ''AGENT_BROWSER_DOWNLOAD_PATH'') (cf_download_path c),
      fl_content_boundaries = env_var_is_truthy env ''AGENT_BROWSER_CONTENT_BOUNDARIES'' \<or> unwrap_or False (cf_content_boundaries c),
      fl_max_output = opt_or (Option.bind (fe_var env ''AGENT_BROWSER_MAX_OUTPUT'') parse_u64) (cf_max_output c),
      fl_allowed_domains = opt_or (map_option (domain_list (fe_unicode env)) (fe_var env ''AGENT_BROWSER_ALLOWED_DOMAINS'')) (cf_allowed_domains c),
      fl_action_policy = opt_or (fe_var env ''AGENT_BROWSER_ACTION_POLICY'') (cf_action_policy c),
      fl_confirm_actions = opt_or (fe_var env ''AGENT_BROWSER_CONFIRM_ACTIONS'') (cf_confirm_actions c),
      fl_confirm_interactive = env_var_is_truthy env ''AGENT_BROWSER_CONFIRM_INTERACTIVE'' \<or> unwrap_or False (cf_confirm_interactive c),
      fl_engine = opt_or (fe_var env ''AGENT_BROWSER_ENGINE'') (cf_engine c),
      fl_idle_timeout = opt_or (parse_idle_timeout_value (fe_var env ''AGENT_BROWSER_IDLE_TIMEOUT_MS'')) (cf_idle_timeout c),
      fl_no_auto_dialog = env_var_is_truthy env ''AGENT_BROWSER_NO_AUTO_DIALOG'' \<or> unwrap_or False (cf_no_auto_dialog c),
      fl_model = opt_or (fe_var env ''AI_GATEWAY_MODEL'') (cf_model c),
      fl_verbose = False,
      fl_quiet = False,
      cli_executable_path = False,
      cli_extensions = False,
      cli_init_scripts = False,
      cli_enable = False,
      cli_profile = False,
      cli_state = False,
      cli_args = False,
      cli_user_agent = False,
      cli_proxy = False,
      cli_proxy_bypass = False,
      cli_allow_file_access = False,
      cli_annotate = False,
      cli_download_path = False,
      cli_headed = False\<rparr>"

text \<open>What a boolean flag and a flag with a value set.\<close>

definition set_bool :: "string \<Rightarrow> (bool \<Rightarrow> all_flags \<Rightarrow> all_flags) option" where
  "set_bool a =
     (if a = ''--json'' then Some (\<lambda>b fl. fl\<lparr>fl_json := b\<rparr>)
      else if a = ''--headed'' then Some (\<lambda>b fl. fl\<lparr>headed := b, cli_headed := True\<rparr>)
      else if a = ''--debug'' then Some (\<lambda>b fl. fl\<lparr>fl_debug := b\<rparr>)
      else if a = ''--ignore-https-errors'' then Some (\<lambda>b fl. fl\<lparr>fl_ignore_https_errors := b\<rparr>)
      else if a = ''--allow-file-access'' then Some (\<lambda>b fl. fl\<lparr>fl_allow_file_access := b, cli_allow_file_access := True\<rparr>)
      else if a = ''--auto-connect'' then Some (\<lambda>b fl. fl\<lparr>fl_auto_connect := b\<rparr>)
      else if a = ''--annotate'' then Some (\<lambda>b fl. fl\<lparr>annotate := b, cli_annotate := True\<rparr>)
      else if a = ''--content-boundaries'' then Some (\<lambda>b fl. fl\<lparr>fl_content_boundaries := b\<rparr>)
      else if a = ''--confirm-interactive'' then Some (\<lambda>b fl. fl\<lparr>fl_confirm_interactive := b\<rparr>)
      else if a = ''--no-auto-dialog'' then Some (\<lambda>b fl. fl\<lparr>fl_no_auto_dialog := b\<rparr>)
      else None)"

definition set_value :: "flag_env \<Rightarrow> string \<Rightarrow> (string \<Rightarrow> all_flags \<Rightarrow> all_flags) option" where
  "set_value env a =
     (if a = ''--session'' then Some (\<lambda>v fl. fl\<lparr>fl_session := v\<rparr>)
      else if a = ''--idle-timeout'' then Some (\<lambda>v fl. case parse_idle_timeout v of Inr ms \<Rightarrow> fl\<lparr>fl_idle_timeout := Some ms\<rparr> | Inl e \<Rightarrow> fl)
      else if a = ''--headers'' then Some (\<lambda>v fl. fl\<lparr>fl_headers := Some v\<rparr>)
      else if a = ''--executable-path'' then Some (\<lambda>v fl. fl\<lparr>fl_executable_path := Some v, cli_executable_path := True\<rparr>)
      else if a = ''--extension'' then Some (\<lambda>v fl. fl\<lparr>fl_extensions := fl_extensions fl @ [v], cli_extensions := True\<rparr>)
      else if a = ''--init-script'' then Some (\<lambda>v fl. fl\<lparr>fl_init_scripts := fl_init_scripts fl @ [v], cli_init_scripts := True\<rparr>)
      else if a = ''--enable'' then Some (\<lambda>v fl. fl\<lparr>fl_enable := fl_enable fl @ comma_list v, cli_enable := True\<rparr>)
      else if a = ''--cdp'' then Some (\<lambda>v fl. fl\<lparr>fl_cdp := Some v\<rparr>)
      else if a = ''--profile'' then Some (\<lambda>v fl. fl\<lparr>fl_profile := Some v, cli_profile := True\<rparr>)
      else if a = ''--state'' then Some (\<lambda>v fl. fl\<lparr>fl_state := Some v, cli_state := True\<rparr>)
      else if a = ''--proxy'' then Some (\<lambda>v fl. fl\<lparr>fl_proxy := Some v, cli_proxy := True\<rparr>)
      else if a = ''--proxy-bypass'' then Some (\<lambda>v fl. fl\<lparr>fl_proxy_bypass := Some v, cli_proxy_bypass := True\<rparr>)
      else if a = ''--args'' then Some (\<lambda>v fl. fl\<lparr>fl_args := Some v, cli_args := True\<rparr>)
      else if a = ''--user-agent'' then Some (\<lambda>v fl. fl\<lparr>fl_user_agent := Some v, cli_user_agent := True\<rparr>)
      else if a = ''-p'' \<or> a = ''--provider'' then Some (\<lambda>v fl. fl\<lparr>provider := Some v\<rparr>)
      else if a = ''--device'' then Some (\<lambda>v fl. fl\<lparr>device := Some v\<rparr>)
      else if a = ''--session-name'' then Some (\<lambda>v fl. fl\<lparr>fl_session_name := Some v\<rparr>)
      else if a = ''--color-scheme'' then Some (\<lambda>v fl. fl\<lparr>fl_color_scheme := Some v\<rparr>)
      else if a = ''--download-path'' then Some (\<lambda>v fl. fl\<lparr>fl_download_path := Some v, cli_download_path := True\<rparr>)
      else if a = ''--max-output'' then Some (\<lambda>v fl. case parse_u64 v of Some n \<Rightarrow> fl\<lparr>fl_max_output := Some n\<rparr> | None \<Rightarrow> fl)
      else if a = ''--allowed-domains'' then Some (\<lambda>v fl. fl\<lparr>fl_allowed_domains := Some (domain_list (fe_unicode env) v)\<rparr>)
      else if a = ''--action-policy'' then Some (\<lambda>v fl. fl\<lparr>fl_action_policy := Some v\<rparr>)
      else if a = ''--confirm-actions'' then Some (\<lambda>v fl. fl\<lparr>fl_confirm_actions := Some v\<rparr>)
      else if a = ''--engine'' then Some (\<lambda>v fl. fl\<lparr>fl_engine := Some v\<rparr>)
      else if a = ''--screenshot-dir'' then Some (\<lambda>v fl. fl\<lparr>screenshot_dir := Some v\<rparr>)
      else if a = ''--screenshot-quality'' then Some (\<lambda>v fl. case parse_u32 v of Some n \<Rightarrow> (if n \<le> 100 then fl\<lparr>screenshot_quality := Some (of_nat n)\<rparr> else fl) | None \<Rightarrow> fl)
      else if a = ''--screenshot-format'' then Some (\<lambda>v fl. if v = ''png'' \<or> v = ''jpeg'' then fl\<lparr>screenshot_format := Some v\<rparr> else fl)
      else if a = ''--model'' then Some (\<lambda>v fl. fl\<lparr>fl_model := Some v\<rparr>)
      else None)"

text \<open>The loop over the words; \<open>as\<close> is what follows the word at hand.\<close>

fun flag_loop :: "flag_env \<Rightarrow> string list \<Rightarrow> all_flags \<Rightarrow> all_flags" where
  "flag_loop env [] fl = fl"
| "flag_loop env (a # as) fl =
     (case set_bool a of
        Some f \<Rightarrow>
          (case parse_bool_arg as of
             (b, consumed) \<Rightarrow> flag_loop env (if consumed then drop 1 as else as) (f b fl))
      | None \<Rightarrow>
          (case set_value env a of
             Some f \<Rightarrow> (case as of [] \<Rightarrow> flag_loop env [] fl | v # vs \<Rightarrow> flag_loop env vs (f v fl))
           | None \<Rightarrow>
               (if a = ''-v'' \<or> a = ''--verbose'' then flag_loop env as (fl\<lparr>fl_verbose := True\<rparr>)
                else if a = ''-q'' \<or> a = ''--quiet'' then flag_loop env as (fl\<lparr>fl_quiet := True\<rparr>)
                else if a = ''--config'' then flag_loop env (drop 1 as) fl
                else flag_loop env as fl)))"

text \<open>A configuration that cannot be loaded ends the process with its message.\<close>

definition parse_flags :: "flag_env \<Rightarrow> string list \<Rightarrow> string + all_flags" where
  "parse_flags env args =
     and_then (load_config env args) (\<lambda>c. Inr (flag_loop env args (initial_flags env c)))"

definition GLOBAL_BOOL_FLAGS :: "string list" where
  "GLOBAL_BOOL_FLAGS =
     [''--json'', ''--headed'', ''--debug'', ''--ignore-https-errors'',
      ''--allow-file-access'', ''--auto-connect'', ''--annotate'',
      ''--content-boundaries'', ''--confirm-interactive'', ''--no-auto-dialog'', ''-v'',
      ''--verbose'', ''-q'', ''--quiet'', ''--offline'', ''--quick'', ''--fix'']"

definition GLOBAL_FLAGS_WITH_VALUE :: "string list" where
  "GLOBAL_FLAGS_WITH_VALUE =
     [''--session'', ''--headers'', ''--executable-path'', ''--cdp'', ''--extension'',
      ''--init-script'', ''--enable'', ''--profile'', ''--state'', ''--proxy'',
      ''--proxy-bypass'', ''--args'', ''--user-agent'', ''-p'', ''--provider'',
      ''--device'', ''--session-name'', ''--color-scheme'', ''--download-path'',
      ''--max-output'', ''--allowed-domains'', ''--action-policy'', ''--confirm-actions'',
      ''--config'', ''--engine'', ''--screenshot-dir'', ''--screenshot-quality'',
      ''--screenshot-format'', ''--idle-timeout'', ''--model'']"

fun clean_loop :: "bool \<Rightarrow> string list \<Rightarrow> string list" where
  "clean_loop skip_next [] = []"
| "clean_loop skip_next (a # as) =
     (if skip_next then clean_loop False as
      else if a \<in> set GLOBAL_FLAGS_WITH_VALUE then clean_loop True as
      else if a \<in> set GLOBAL_BOOL_FLAGS
      then clean_loop False (if as \<noteq> [] \<and> (hd as = ''true'' \<or> hd as = ''false'') then drop 1 as else as)
      else a # clean_loop False as)"

definition clean_args :: "string list \<Rightarrow> string list" where
  "clean_args args = clean_loop False args"

subsection \<open>One reading of the command line\<close>

text \<open>The words of a command line as the user means them: options with their value, switches with
  an optional \<open>true\<close> or \<open>false\<close>, and the words of the command.\<close>

datatype cli_item = Valued string "string option" | Switch string bool | Word string

fun read_items :: "string list \<Rightarrow> cli_item list" where
  "read_items [] = []"
| "read_items (a # as) =
     (if a \<in> set GLOBAL_FLAGS_WITH_VALUE then Valued a (get_arg as 0) # read_items (drop 1 as)
      else if a \<in> set GLOBAL_BOOL_FLAGS
      then (case as of
              [] \<Rightarrow> [Switch a True]
            | v # vs \<Rightarrow>
                (if v = ''true'' \<or> v = ''false'' then Switch a (v = ''true'') # read_items vs
                 else Switch a True # read_items as))
      else Word a # read_items as)"

definition words_of :: "cli_item list \<Rightarrow> string list" where
  "words_of items = concat (map (\<lambda>x. case x of Word w \<Rightarrow> [w] | _ \<Rightarrow> []) items)"

definition apply_item :: "flag_env \<Rightarrow> cli_item \<Rightarrow> all_flags \<Rightarrow> all_flags" where
  "apply_item env x =
     (case x of
        Valued a (Some v) \<Rightarrow> (case set_value env a of Some f \<Rightarrow> f v | None \<Rightarrow> id)
      | Switch a b \<Rightarrow>
          (case set_bool a of
             Some f \<Rightarrow> f b
           | None \<Rightarrow> (if a = ''-v'' \<or> a = ''--verbose'' then (\<lambda>fl. fl\<lparr>fl_verbose := True\<rparr>)
                     else if a = ''-q'' \<or> a = ''--quiet'' then (\<lambda>fl. fl\<lparr>fl_quiet := True\<rparr>) else id))
      | _ \<Rightarrow> id)"

fun config_item :: "cli_item list \<Rightarrow> string option option" where
  "config_item [] = None"
| "config_item (Valued a v # xs) = (if a = ''--config'' then Some v else config_item xs)"
| "config_item (_ # xs) = config_item xs"

text \<open>Which words the two tables of \<open>clean_args\<close> and the arms of \<open>parse_flags\<close> know.\<close>

lemma not_a_bool_flag: "a \<notin> set GLOBAL_BOOL_FLAGS \<Longrightarrow>
  set_bool a = None \<and> a \<noteq> ''-v'' \<and> a \<noteq> ''--verbose'' \<and> a \<noteq> ''-q'' \<and> a \<noteq> ''--quiet''"
  by (simp add: set_bool_def GLOBAL_BOOL_FLAGS_def)

lemma not_a_value_flag: "a \<notin> set GLOBAL_FLAGS_WITH_VALUE \<Longrightarrow> set_value env a = None \<and> a \<noteq> ''--config''"
  by (simp add: set_value_def GLOBAL_FLAGS_WITH_VALUE_def)

lemma flag_tables:
  "list_all (\<lambda>a. set_bool a = None \<and> (a = ''--config'' \<or> set_value env a \<noteq> None)) GLOBAL_FLAGS_WITH_VALUE"
  "list_all (\<lambda>a. set_value env a = None) GLOBAL_BOOL_FLAGS"
  "list_all (\<lambda>a. a \<notin> set GLOBAL_FLAGS_WITH_VALUE) GLOBAL_BOOL_FLAGS"
  by (simp_all add: GLOBAL_FLAGS_WITH_VALUE_def GLOBAL_BOOL_FLAGS_def set_bool_def set_value_def)

lemma truth_words:
  "''true'' \<notin> set GLOBAL_FLAGS_WITH_VALUE" "''true'' \<notin> set GLOBAL_BOOL_FLAGS"
  "''false'' \<notin> set GLOBAL_FLAGS_WITH_VALUE" "''false'' \<notin> set GLOBAL_BOOL_FLAGS"
  by (simp_all add: GLOBAL_FLAGS_WITH_VALUE_def GLOBAL_BOOL_FLAGS_def)

lemma value_flags_but_config: "a \<in> set FLAGS_WITH_VALUE \<longleftrightarrow> a \<in> set GLOBAL_FLAGS_WITH_VALUE \<and> a \<noteq> ''--config''"
proof -
  have "list_all (\<lambda>x. x \<in> set GLOBAL_FLAGS_WITH_VALUE \<and> x \<noteq> ''--config'') FLAGS_WITH_VALUE"
    "list_all (\<lambda>x. x \<in> set FLAGS_WITH_VALUE \<or> x = ''--config'') GLOBAL_FLAGS_WITH_VALUE"
    by (simp_all add: FLAGS_WITH_VALUE_def GLOBAL_FLAGS_WITH_VALUE_def)
  then show ?thesis by (auto simp: list_all_iff)
qed

lemmas value_flag = flag_tables(1) [unfolded list_all_iff, rule_format]
lemmas bool_flag = flag_tables(2,3) [unfolded list_all_iff, rule_format]

declare flag_loop.simps(2) [simp del] clean_loop.simps(2) [simp del] extract_config_path.simps(2) [simp del]

lemma read_item:
  "a \<in> set GLOBAL_FLAGS_WITH_VALUE \<Longrightarrow> read_items (a # as) = Valued a (get_arg as 0) # read_items (drop 1 as)"
  "a \<in> set GLOBAL_BOOL_FLAGS \<Longrightarrow> read_items (a # as) =
     (if as \<noteq> [] \<and> (hd as = ''true'' \<or> hd as = ''false'') then Switch a (hd as = ''true'') # read_items (drop 1 as)
      else Switch a True # read_items as)"
  "a \<notin> set GLOBAL_FLAGS_WITH_VALUE \<Longrightarrow> a \<notin> set GLOBAL_BOOL_FLAGS \<Longrightarrow> read_items (a # as) = Word a # read_items as"
  using bool_flag(2) by (simp_all split: list.split)

declare read_items.simps(2) [simp del]

lemma plain_word:
  assumes "a \<notin> set GLOBAL_FLAGS_WITH_VALUE" and "a \<notin> set GLOBAL_BOOL_FLAGS"
  shows "flag_loop env (a # as) fl = flag_loop env as fl" "extract_config_path (a # as) = extract_config_path as"
  using not_a_value_flag [OF assms(1), of env] not_a_bool_flag [OF assms(2)] assms(1)
  by (simp_all add: flag_loop.simps(2) extract_config_path.simps(2) value_flags_but_config)

lemmas truth_word = plain_word [OF truth_words(1,2)] plain_word [OF truth_words(3,4)]

lemma clean_skip: "clean_loop True as = clean_loop False (drop 1 as)"
  by (cases as) (simp_all add: clean_loop.simps(2))

lemma switch_not_valued: "a \<in> set GLOBAL_BOOL_FLAGS \<Longrightarrow> a \<notin> set GLOBAL_FLAGS_WITH_VALUE \<and> a \<noteq> ''--config''"
  using bool_flag(2) [of a] not_a_value_flag [of a] by blast

lemma item_cases:
  obtains (valued) "a \<in> set GLOBAL_FLAGS_WITH_VALUE"
  | (switch) "a \<in> set GLOBAL_BOOL_FLAGS" "a \<notin> set GLOBAL_FLAGS_WITH_VALUE"
  | (word) "a \<notin> set GLOBAL_FLAGS_WITH_VALUE" "a \<notin> set GLOBAL_BOOL_FLAGS"
  by blast

lemma item_steps:
  assumes "a \<in> set GLOBAL_BOOL_FLAGS"
  shows "clean_loop False (a # as) = clean_loop False (if as \<noteq> [] \<and> (hd as = ''true'' \<or> hd as = ''false'') then drop 1 as else as)"
    "extract_config_path (a # as) = extract_config_path (if as \<noteq> [] \<and> (hd as = ''true'' \<or> hd as = ''false'') then drop 1 as else as)"
  using assms switch_not_valued [OF assms]
  by (simp add: clean_loop.simps(2))
     (cases as, auto simp: extract_config_path.simps(2) [of a] value_flags_but_config truth_word switch_not_valued [OF assms])

lemma flag_loop_valued:
  assumes "a \<in> set GLOBAL_FLAGS_WITH_VALUE"
  shows "flag_loop env (a # as) fl = flag_loop env (drop 1 as) (apply_item env (Valued a (get_arg as 0)) fl)"
proof (cases "set_value env a")
  case None
  then have a: "a = ''--config''" using value_flag [OF assms, of env] by blast
  have "set_bool ''--config'' = None" by (simp add: set_bool_def)
  with a None show ?thesis by (cases as) (simp_all add: flag_loop.simps(2) apply_item_def get_arg_def)
next
  case (Some f)
  have "set_bool a = None" using value_flag [OF assms] by blast
  with Some show ?thesis by (cases as) (simp_all add: flag_loop.simps(2) apply_item_def get_arg_def)
qed

lemma flag_loop_switch:
  assumes "a \<in> set GLOBAL_BOOL_FLAGS"
  shows "flag_loop env (a # as) fl =
    (if as \<noteq> [] \<and> (hd as = ''true'' \<or> hd as = ''false'')
     then flag_loop env (drop 1 as) (apply_item env (Switch a (hd as = ''true'')) fl)
     else flag_loop env as (apply_item env (Switch a True) fl))"
proof (cases "set_bool a")
  case None
  have "set_value env a = None" "a \<noteq> ''--config''" using bool_flag(1) [OF assms] switch_not_valued [OF assms] by simp_all
  with None show ?thesis by (cases as) (auto simp: flag_loop.simps(2) [of env a] apply_item_def truth_word)
next
  case (Some f)
  then show ?thesis by (cases as) (auto simp: flag_loop.simps(2) [of env a] apply_item_def parse_bool_arg_def)
qed

text \<open>The three scanners take the same steps as \<open>read_items\<close>.\<close>

definition scanned :: "flag_env \<Rightarrow> string list \<Rightarrow> bool" where
  "scanned env as \<longleftrightarrow> clean_loop False as = words_of (read_items as)
     \<and> extract_config_path as = config_item (read_items as)
     \<and> (\<forall>fl. flag_loop env as fl = fold (apply_item env) (read_items as) fl)"

lemma scanned_Cons:
  assumes "\<And>bs. length bs \<le> length as \<Longrightarrow> scanned env bs"
  shows "scanned env (a # as)"
proof (cases a rule: item_cases)
  case valued
  have "scanned env (drop 1 as)" by (rule assms) simp
  with valued show ?thesis
    by (simp add: scanned_def read_item(1) clean_loop.simps(2) clean_skip words_of_def extract_config_path.simps(2)
        value_flags_but_config flag_loop_valued)
next
  case switch
  have "scanned env (drop 1 as)" "scanned env as" by (rule assms, simp)+
  with switch show ?thesis
    by (simp add: scanned_def read_item(2) item_steps words_of_def flag_loop_switch)
next
  case word
  have "scanned env as" by (rule assms) simp
  with word show ?thesis
    by (simp add: scanned_def read_item(3) plain_word clean_loop.simps(2) words_of_def apply_item_def)
qed

lemma scanned_all: "scanned env args"
proof (induction args rule: length_induct)
  case (1 args)
  then show ?case
    by (cases args) (simp add: scanned_def words_of_def, auto intro!: scanned_Cons simp: less_Suc_eq_le)
qed

subsection \<open>Which setting wins\<close>

text \<open>The last value given for an option.\<close>

definition last_value :: "string \<Rightarrow> cli_item list \<Rightarrow> string option" where
  "last_value a items =
     fold (\<lambda>x r. case x of Valued b (Some v) \<Rightarrow> (if b = a then Some v else r) | _ \<Rightarrow> r) items None"

lemma last_value_snoc:
  "last_value a (items @ [x]) =
     (case x of Valued b (Some v) \<Rightarrow> (if b = a then Some v else last_value a items) | _ \<Rightarrow> last_value a items)"
  by (simp add: last_value_def split: cli_item.split option.split)

lemma last_setting:
  assumes "\<And>x fl. f (apply_item env x fl) = (case x of Valued b (Some v) \<Rightarrow> (if b = a then g v else f fl) | _ \<Rightarrow> f fl)"
  shows "f (fold (apply_item env) items fl) = (case last_value a items of Some v \<Rightarrow> g v | None \<Rightarrow> f fl)"
proof (induction items rule: rev_induct)
  case Nil
  show ?case by (simp add: last_value_def)
next
  case (snoc x items)
  then show ?case by (auto simp: assms last_value_snoc split: cli_item.split option.split)
qed

lemma switches_set:
  "fl_session (apply_item env (Switch a b) fl) = fl_session fl"
  "fl_allowed_domains (apply_item env (Switch a b) fl) = fl_allowed_domains fl"
  "fl_action_policy (apply_item env (Switch a b) fl) = fl_action_policy fl"
  "fl_confirm_actions (apply_item env (Switch a b) fl) = fl_confirm_actions fl"
  "default_timeout (apply_item env (Switch a b) fl) = default_timeout fl"
  by (simp_all add: apply_item_def set_bool_def)

text \<open>A statement about every option is checked on the table.\<close>

lemma each_value_flag:
  assumes "list_all (\<lambda>a. \<forall>f. set_value env a = Some f \<longrightarrow> P a f) GLOBAL_FLAGS_WITH_VALUE" and "set_value env a = Some f"
  shows "P a f"
  using assms not_a_value_flag [of a env] by (cases "a \<in> set GLOBAL_FLAGS_WITH_VALUE") (auto simp: list_all_iff)

definition sets_its_field :: "flag_env \<Rightarrow> string \<Rightarrow> (string \<Rightarrow> all_flags \<Rightarrow> all_flags) \<Rightarrow> bool" where
  "sets_its_field env a f \<longleftrightarrow>
     (\<forall>v fl. fl_session (f v fl) = (if a = ''--session'' then v else fl_session fl)
        \<and> fl_allowed_domains (f v fl) =
            (if a = ''--allowed-domains'' then Some (domain_list (fe_unicode env) v) else fl_allowed_domains fl)
        \<and> fl_action_policy (f v fl) = (if a = ''--action-policy'' then Some v else fl_action_policy fl)
        \<and> fl_confirm_actions (f v fl) = (if a = ''--confirm-actions'' then Some v else fl_confirm_actions fl)
        \<and> default_timeout (f v fl) = default_timeout fl)"

lemma values_set: "set_value env a = Some f \<Longrightarrow> sets_its_field env a f"
  by (rule each_value_flag [where P = "sets_its_field env"])
     (simp_all add: GLOBAL_FLAGS_WITH_VALUE_def set_value_def sets_its_field_def split: sum.split option.split)

lemma no_value_set:
  "set_value env a = None \<Longrightarrow> a \<notin> set [''--session'', ''--allowed-domains'', ''--action-policy'', ''--confirm-actions'']"
  by (auto simp: set_value_def)

lemma valued_sets: "sets_its_field env a (\<lambda>v. apply_item env (Valued a (Some v)))"
proof (cases "set_value env a")
  case None
  with no_value_set [OF None] show ?thesis by (simp add: sets_its_field_def apply_item_def)
next
  case (Some f)
  with values_set [OF Some] show ?thesis by (simp add: sets_its_field_def apply_item_def)
qed

lemma nothing_set: "apply_item env (Valued a None) fl = fl" "apply_item env (Word w) fl = fl"
  by (simp_all add: apply_item_def)

lemma item_sets:
  "fl_session (apply_item env x fl) = (case x of Valued b (Some v) \<Rightarrow> (if b = ''--session'' then v else fl_session fl) | _ \<Rightarrow> fl_session fl)"
  "fl_allowed_domains (apply_item env x fl) = (case x of Valued b (Some v) \<Rightarrow>
      (if b = ''--allowed-domains'' then Some (domain_list (fe_unicode env) v) else fl_allowed_domains fl) | _ \<Rightarrow> fl_allowed_domains fl)"
  "fl_action_policy (apply_item env x fl) = (case x of Valued b (Some v) \<Rightarrow>
      (if b = ''--action-policy'' then Some v else fl_action_policy fl) | _ \<Rightarrow> fl_action_policy fl)"
  "fl_confirm_actions (apply_item env x fl) = (case x of Valued b (Some v) \<Rightarrow>
      (if b = ''--confirm-actions'' then Some v else fl_confirm_actions fl) | _ \<Rightarrow> fl_confirm_actions fl)"
  by (simp_all add: valued_sets [unfolded sets_its_field_def, rule_format] switches_set nothing_set
      split: cli_item.split option.split)

lemma item_timeout: "default_timeout (apply_item env x fl) = default_timeout fl"
proof (cases x)
  case (Valued a v)
  then show ?thesis
    by (cases v) (simp_all add: valued_sets [unfolded sets_its_field_def, rule_format] nothing_set)
qed (simp_all add: switches_set nothing_set)

lemmas fold_sets = item_sets [THEN last_setting]

lemma fold_default_timeout: "default_timeout (fold (apply_item env) items fl) = default_timeout fl"
  by (induction items arbitrary: fl) (simp_all add: item_timeout)

subsection \<open>Properties\<close>

text \<open>C40: The three scanners of the command line agree on what each word is. The configuration
  file, the flags and the words of the command all come from one reading of the line: a word
  taken as the value of an option by one of them is never a flag or a command word for another.\<close>

theorem one_reading_of_the_command_line:
  "clean_args args = words_of (read_items args)
   \<and> extract_config_path args = config_item (read_items args)
   \<and> parse_flags env args =
       and_then (load_config env args) (\<lambda>c. Inr (fold (apply_item env) (read_items args) (initial_flags env c)))"
  using scanned_all [of env args] by (simp add: clean_args_def parse_flags_def scanned_def)

text \<open>The session and the settings that guard the daemon (allowed domains, action policy,
  confirmed actions) come from the last option of the command line, else from the environment,
  else from the configuration; the default timeout from the environment alone.\<close>

theorem guarding_flags_precedence:
  assumes "load_config env args = Inr c" and "parse_flags env args = Inr fl"
  shows "fl_session fl = unwrap_or ''default''
      (first_of [last_value ''--session'' (read_items args), fe_var env ''AGENT_BROWSER_SESSION'', cf_session c])"
    "fl_allowed_domains fl =
      first_of [map_option (domain_list (fe_unicode env)) (last_value ''--allowed-domains'' (read_items args)),
                map_option (domain_list (fe_unicode env)) (fe_var env ''AGENT_BROWSER_ALLOWED_DOMAINS''), cf_allowed_domains c]"
    "fl_action_policy fl =
      first_of [last_value ''--action-policy'' (read_items args), fe_var env ''AGENT_BROWSER_ACTION_POLICY'', cf_action_policy c]"
    "fl_confirm_actions fl =
      first_of [last_value ''--confirm-actions'' (read_items args), fe_var env ''AGENT_BROWSER_CONFIRM_ACTIONS'', cf_confirm_actions c]"
    "default_timeout fl = Option.bind (fe_var env ''AGENT_BROWSER_DEFAULT_TIMEOUT'') (\<lambda>s. map_option of_nat (parse_u64 s))"
proof -
  have fl: "fl = fold (apply_item env) (read_items args) (initial_flags env c)"
    using assms scanned_all [of env args] by (simp add: parse_flags_def scanned_def)
  show "fl_session fl = unwrap_or ''default''
      (first_of [last_value ''--session'' (read_items args), fe_var env ''AGENT_BROWSER_SESSION'', cf_session c])"
    by (simp add: fl fold_sets(1) initial_flags_def first_of_def opt_or_def split: option.split)
  show "fl_allowed_domains fl =
      first_of [map_option (domain_list (fe_unicode env)) (last_value ''--allowed-domains'' (read_items args)),
                map_option (domain_list (fe_unicode env)) (fe_var env ''AGENT_BROWSER_ALLOWED_DOMAINS''), cf_allowed_domains c]"
    by (simp add: fl fold_sets(2) initial_flags_def first_of_def opt_or_def split: option.split)
  show "fl_action_policy fl =
      first_of [last_value ''--action-policy'' (read_items args), fe_var env ''AGENT_BROWSER_ACTION_POLICY'', cf_action_policy c]"
    by (simp add: fl fold_sets(3) initial_flags_def first_of_def opt_or_def split: option.split)
  show "fl_confirm_actions fl =
      first_of [last_value ''--confirm-actions'' (read_items args), fe_var env ''AGENT_BROWSER_CONFIRM_ACTIONS'', cf_confirm_actions c]"
    by (simp add: fl fold_sets(4) initial_flags_def first_of_def opt_or_def split: option.split)
  show "default_timeout fl = Option.bind (fe_var env ''AGENT_BROWSER_DEFAULT_TIMEOUT'') (\<lambda>s. map_option of_nat (parse_u64 s))"
    by (simp add: fl fold_default_timeout initial_flags_def)
qed

text \<open>The range check of the screenshot quality is on the command line alone; the environment
  passes any number of 32 bits.\<close>

theorem quality_from_environment_unchecked:
  assumes "fe_var env ''AGENT_BROWSER_SCREENSHOT_QUALITY'' = Some ''200''"
  shows "screenshot_quality (initial_flags env c) = Some 200"
proof -
  have "parse_u32 ''200'' = Some 200"
    by (simp add: parse_u32_def parse_unsigned_def is_ascii_digit_def u32_max_def)
  with assms show ?thesis by (simp add: initial_flags_def opt_or_def)
qed

text \<open>An idle timeout in hours is multiplied in 64 bits and wraps.\<close>

theorem idle_timeout_wraps: "parse_idle_timeout ''18446744073709552s'' = Inr ''384''"
proof -
  have "trim ''18446744073709552s'' = ''18446744073709552s''" by code_simp
  moreover have "parse_u64 ''18446744073709552'' = Some 18446744073709552"
    by (simp add: parse_u64_def parse_unsigned_def is_ascii_digit_def usize_max_def)
  moreover have "is_ascii_alphabetic (CHR ''s'')" by code_simp
  moreover have "millis 18446744073709552 1000 = show_nat 384" by (simp add: millis_def)
  moreover have "show_nat 384 = ''384''" by code_simp
  ultimately show ?thesis by (simp add: parse_idle_timeout_def)
qed

end
