(* ===== verification/Net_Filter.thy ===== *)
theory Net_Filter
  imports Cmd_Flags "HOL-Library.Sublist"
begin

section \<open>What the browser may reach\<close>

text \<open>
  The domain filter, the console and error log (\<open>native/network.rs\<close>) and the interception of
  requests (\<open>resolve_fetch_paused\<close>, \<open>handle_route\<close>, \<open>handle_unroute\<close> and what they call in
  \<open>native/actions.rs\<close>). The URL parser, base64 and the JSON printer are fields of \<open>net_env\<close>; what
  is sent to the browser is a list of commands, each a method with its parameters, and the
  browser's reply to a command is a function of it. A hash map that is iterated over is the list
  of its entries in the order of the iteration.
\<close>

subsection \<open>The domain filter\<close>

record url_parts =
  up_scheme :: string
  up_host :: "string option"
  up_origin :: string

record net_env =
  ne_unicode :: unicode
  ne_url :: "string \<Rightarrow> url_parts option"
  ne_base64 :: "string \<Rightarrow> string"
  ne_show :: "json \<Rightarrow> string"
  ne_send :: "string \<times> json option \<Rightarrow> string + unit"
  ne_session :: "string + string"

type_synonym domain_filter = "string list"

definition parse_domain_list :: "unicode \<Rightarrow> string \<Rightarrow> string list" where
  "parse_domain_list u s =
     filter (\<lambda>d. d \<noteq> []) (map (\<lambda>d. to_lowercase u (trim d)) (split_on (CHR '','') s))"

definition filter_new :: "unicode \<Rightarrow> string \<Rightarrow> domain_filter" where
  "filter_new u domains = parse_domain_list u domains"

text \<open>The filter the daemon starts with.\<close>

definition filter_from_env :: "unicode \<Rightarrow> string option \<Rightarrow> domain_filter option" where
  "filter_from_env u v = map_option (filter_new u) (keep_if (\<lambda>s. s \<noteq> []) v)"

definition domain_matches :: "string \<Rightarrow> string \<Rightarrow> bool" where
  "domain_matches pattern host =
     (case strip_prefix ''*.'' pattern of
        Some sfx \<Rightarrow> host = sfx \<or> ends_with (''.'' @ sfx) host
      | None \<Rightarrow> host = pattern)"

definition is_allowed :: "unicode \<Rightarrow> domain_filter \<Rightarrow> string \<Rightarrow> bool" where
  "is_allowed u allowed host \<longleftrightarrow>
     allowed = [] \<or> list_ex (\<lambda>p. domain_matches p (to_lowercase u host)) allowed"

definition check_url :: "net_env \<Rightarrow> domain_filter \<Rightarrow> string \<Rightarrow> string + unit" where
  "check_url env allowed url =
     (if allowed = [] then Inr ()
      else and_then (ok_or (''Invalid URL: '' @ url) (ne_url env url))
        (\<lambda>parsed. and_then (ok_or (''No hostname in URL: '' @ url) (up_host parsed))
        (\<lambda>host. if is_allowed (ne_unicode env) allowed host then Inr ()
                else Inl (''Domain '' @ [CHR 0x27] @ host @ [CHR 0x27] @ '' is not in the allowed domains list''))))"

text \<open>The pages, with URL and session, that are sent to a blank page when the filter is installed.\<close>

definition sanitize_existing_pages :: "net_env \<Rightarrow> (string \<times> string) list \<Rightarrow> domain_filter \<Rightarrow> string list" where
  "sanitize_existing_pages env pages allowed =
     List.map_filter
       (\<lambda>(url, session).
          if url = [] \<or> url = ''about:blank'' then None
          else case Option.bind (ne_url env url) up_host of
                 None \<Rightarrow> None
               | Some host \<Rightarrow> (if is_allowed (ne_unicode env) allowed host then None else Some session))
       pages"

subsection \<open>Requests that the browser holds\<close>

record route_response =
  rr_status :: "16 word option"
  rr_body :: "string option"
  rr_content_type :: "string option"
  rr_headers :: "(string \<times> string) list option"

record route_entry =
  re_url_pattern :: string
  re_response :: "route_response option"
  re_abort :: bool
  re_resource_types :: "string list"

record fetch_paused =
  fp_request_id :: string
  fp_url :: string
  fp_resource_type :: string
  fp_request_headers :: "(string \<times> json) list option"

type_synonym cdp_command = "string \<times> json option"

definition name_value :: "string \<times> string \<Rightarrow> json" where
  "name_value kv = json_obj [(''name'', JStr (fst kv)), (''value'', JStr (snd kv))]"

definition fail_request :: "fetch_paused \<Rightarrow> string \<Rightarrow> cdp_command" where
  "fail_request paused reason =
     (''Fetch.failRequest'',
      Some (json_obj [(''requestId'', JStr (fp_request_id paused)), (''errorReason'', JStr reason)]))"

definition continue_request :: "fetch_paused \<Rightarrow> (string \<times> json) list \<Rightarrow> cdp_command" where
  "continue_request paused kvs =
     (''Fetch.continueRequest'', Some (json_obj ((''requestId'', JStr (fp_request_id paused)) # kvs)))"

definition fulfill_request :: "fetch_paused \<Rightarrow> nat \<Rightarrow> (string \<times> string) list \<Rightarrow> string \<Rightarrow> cdp_command" where
  "fulfill_request paused code headers body =
     (''Fetch.fulfillRequest'',
      Some (json_obj [(''requestId'', JStr (fp_request_id paused)), (''responseCode'', json_nat code),
        (''responseHeaders'', JArr (map name_value headers)), (''body'', JStr body)]))"

definition blocked_page :: "string \<Rightarrow> string" where
  "blocked_page host =
     ''<html><body><h1>Blocked</h1><p>Navigation to '' @ host @ '' is not allowed by domain filter.</p></body></html>''"

definition is_document :: "fetch_paused \<Rightarrow> bool" where
  "is_document paused = eq_ignore_ascii_case (fp_resource_type paused) ''document''"

text \<open>The filter's answer, if it decides the request.\<close>

definition filter_answer :: "net_env \<Rightarrow> domain_filter option \<Rightarrow> fetch_paused \<Rightarrow> cdp_command option" where
  "filter_answer env f paused =
     (case f of
        None \<Rightarrow> None
      | Some allowed \<Rightarrow>
          (case ne_url env (fp_url paused) of
             None \<Rightarrow> None
           | Some parsed \<Rightarrow>
               (if up_scheme parsed \<noteq> ''http'' \<and> up_scheme parsed \<noteq> ''https''
                then Some (if is_document paused then fail_request paused ''BlockedByClient''
                           else continue_request paused [])
                else case up_host parsed of
                       None \<Rightarrow> None
                     | Some host \<Rightarrow>
                         (if is_allowed (ne_unicode env) allowed host then None
                          else Some (if is_document paused
                            then fulfill_request paused 403 [(''Content-Type'', ''text/html'')]
                                   (ne_base64 env (blocked_page host))
                            else fail_request paused ''BlockedByClient'')))))"

definition url_matches :: "string \<Rightarrow> string \<Rightarrow> bool" where
  "url_matches pattern url =
     (if pattern = ''*'' then True
      else case split_on (CHR ''*'') pattern of
             [before, after] \<Rightarrow> starts_with before url \<and> ends_with after url
           | _ \<Rightarrow> contains_str pattern url)"

definition route_matches :: "route_entry \<Rightarrow> fetch_paused \<Rightarrow> bool" where
  "route_matches r paused \<longleftrightarrow>
     url_matches (re_url_pattern r) (fp_url paused)
     \<and> (re_resource_types r = []
        \<or> list_ex (\<lambda>t. eq_ignore_ascii_case t (fp_resource_type paused)) (re_resource_types r))"

definition response_command :: "net_env \<Rightarrow> fetch_paused \<Rightarrow> route_response \<Rightarrow> cdp_command" where
  "response_command env paused resp =
     fulfill_request paused (case rr_status resp of None \<Rightarrow> 200 | Some s \<Rightarrow> unat s)
       ((case rr_content_type resp of None \<Rightarrow> [] | Some ct \<Rightarrow> [(''Content-Type'', ct)]) @ unwrap_or [] (rr_headers resp))
       (ne_base64 env (unwrap_or [] (rr_body resp)))"

text \<open>A route that matches but neither aborts nor responds leaves the request to the next one.\<close>

fun route_answer :: "net_env \<Rightarrow> route_entry list \<Rightarrow> fetch_paused \<Rightarrow> cdp_command option" where
  "route_answer env [] paused = None"
| "route_answer env (r # rs) paused =
     (if route_matches r paused
      then (if re_abort r then Some (fail_request paused ''Failed'')
            else case re_response r of
                   Some resp \<Rightarrow> Some (response_command env paused resp)
                 | None \<Rightarrow> route_answer env rs paused)
      else route_answer env rs paused)"

definition combined_headers :: "fetch_paused \<Rightarrow> (string \<times> string) list \<Rightarrow> json" where
  "combined_headers paused extra =
     JArr (List.map_filter
             (\<lambda>(k, v). if list_ex (\<lambda>e. eq_ignore_ascii_case (fst e) k) extra then None
                       else map_option (\<lambda>s. name_value (k, s)) (as_str v))
             (unwrap_or [] (fp_request_headers paused))
           @ map name_value extra)"

definition resolve_fetch_paused ::
    "net_env \<Rightarrow> domain_filter option \<Rightarrow> route_entry list \<Rightarrow> (string \<times> (string \<times> string) list) list \<Rightarrow> fetch_paused
     \<Rightarrow> cdp_command" where
  "resolve_fetch_paused env f routes origin_headers paused =
     (case filter_answer env f paused of
        Some c \<Rightarrow> c
      | None \<Rightarrow>
          (case route_answer env routes paused of
             Some c \<Rightarrow> c
           | None \<Rightarrow>
               (case Option.bind (ne_url env (fp_url paused)) (\<lambda>p. map_of origin_headers (up_origin p)) of
                  Some extra \<Rightarrow> continue_request paused [(''headers'', combined_headers paused extra)]
                | None \<Rightarrow> continue_request paused [])))"

subsection \<open>Routes\<close>

record net_state =
  ns_routes :: "route_entry list"
  ns_filter :: "domain_filter option"
  ns_origin_headers :: "(string \<times> (string \<times> string) list) list"
  ns_proxy_credentials :: bool

definition pattern_json :: "string \<Rightarrow> json" where
  "pattern_json p = json_obj [(''urlPattern'', JStr p)]"

definition build_fetch_patterns :: "net_state \<Rightarrow> json list" where
  "build_fetch_patterns st =
     (let ps = map (\<lambda>r. pattern_json (re_url_pattern r)) (ns_routes st)
      in if (ns_filter st \<noteq> None \<or> ns_origin_headers st \<noteq> [] \<or> ns_proxy_credentials st)
            \<and> \<not> list_ex (\<lambda>p. json_get p ''urlPattern'' = Some (JStr ''*'')) ps
         then ps @ [pattern_json ''*''] else ps)"

definition build_fetch_enable_params :: "net_state \<Rightarrow> json list \<Rightarrow> json" where
  "build_fetch_enable_params st ps =
     (if ns_proxy_credentials st then json_obj [(''patterns'', JArr ps), (''handleAuthRequests'', JBool True)]
      else json_obj [(''patterns'', JArr ps)])"

definition install_domain_filter_fetch :: "bool \<Rightarrow> cdp_command" where
  "install_domain_filter_fetch handle_auth =
     (''Fetch.enable'',
      Some (set_when handle_auth ''handleAuthRequests'' (JBool True) (json_obj [(''patterns'', JArr [pattern_json ''*''])])))"

fun as_array :: "json \<Rightarrow> json list option" where
  "as_array (JArr vs) = Some vs"
| "as_array _ = None"

definition route_types :: "json \<Rightarrow> string list" where
  "route_types cmd =
     unwrap_or [] (Option.bind (opt_or (json_get cmd ''resourceType'') (json_get cmd ''resourceTypes''))
       (\<lambda>v. case as_str v of
              Some s \<Rightarrow> Some (comma_list s)
            | None \<Rightarrow> map_option (\<lambda>vs. filter (\<lambda>s. s \<noteq> []) (List.map_filter as_str vs)) (as_array v)))"

definition route_response_of :: "json \<Rightarrow> route_response option" where
  "route_response_of cmd =
     Option.bind (json_get cmd ''response'')
       (\<lambda>v. if v = JNull then None
            else Some \<lparr>rr_status = (case json_get v ''status'' of Some (JNum (PosInt n)) \<Rightarrow> Some (of_nat n) | _ \<Rightarrow> None),
                       rr_body = Option.bind (json_get v ''body'') as_str,
                       rr_content_type = Option.bind (json_get v ''contentType'') as_str,
                       rr_headers = (case json_get v ''headers'' of
                           Some (JObj m) \<Rightarrow> Some (List.map_filter (\<lambda>(k, x). map_option (\<lambda>s. (k, s)) (as_str x)) m)
                         | _ \<Rightarrow> None)\<rparr>)"

text \<open>The handlers give the result, the command sent to the browser and the new state.\<close>

definition handle_route :: "net_env \<Rightarrow> json \<Rightarrow> net_state \<Rightarrow> (string + json) \<times> cdp_command list \<times> net_state" where
  "handle_route env cmd st =
     (case and_then (ne_session env)
             (\<lambda>s. ok_or (''Missing '' @ [CHR 0x27] @ ''url'' @ [CHR 0x27] @ '' parameter'')
                    (Option.bind (json_get cmd ''url'') as_str)) of
        Inl e \<Rightarrow> (Inl e, [], st)
      | Inr url \<Rightarrow>
          (let r = \<lparr>re_url_pattern = url, re_response = route_response_of cmd,
                    re_abort = unwrap_or False (Option.bind (json_get cmd ''abort'') as_bool),
                    re_resource_types = route_types cmd\<rparr>;
               st1 = st\<lparr>ns_routes := ns_routes st @ [r]\<rparr>;
               c = (''Fetch.enable'', Some (build_fetch_enable_params st1 (build_fetch_patterns st1)))
           in (and_then (ne_send env c) (\<lambda>_. Inr (json_obj [(''routed'', JStr url)])), [c], st1)))"

definition handle_unroute :: "net_env \<Rightarrow> json \<Rightarrow> net_state \<Rightarrow> (string + json) \<times> cdp_command list \<times> net_state" where
  "handle_unroute env cmd st =
     (case ne_session env of
        Inl e \<Rightarrow> (Inl e, [], st)
      | Inr s \<Rightarrow>
          (let url = Option.bind (json_get cmd ''url'') as_str;
               st1 = st\<lparr>ns_routes := (case url of
                   Some p \<Rightarrow> filter (\<lambda>r. re_url_pattern r \<noteq> p) (ns_routes st) | None \<Rightarrow> [])\<rparr>;
               ps = build_fetch_patterns st1;
               c = (if ps = [] then (''Fetch.disable'', None)
                    else (''Fetch.enable'', Some (build_fetch_enable_params st1 ps)))
           in (and_then (ne_send env c) (\<lambda>_. Inr (json_obj [(''unrouted'', JStr (unwrap_or ''all'' url))])), [c], st1)))"

subsection \<open>The console and error log\<close>

text \<open>One argument of a console call: its value, else its preview, else its description.\<close>

definition preview_property :: "bool \<Rightarrow> json \<Rightarrow> string option" where
  "preview_property is_array p =
     map_option
       (\<lambda>v. let shown = (if Option.bind (json_get p ''type'') as_str = Some ''string''
                         then [CHR 0x22] @ v @ [CHR 0x22] else v)
            in if is_array then shown
               else unwrap_or ''?'' (Option.bind (json_get p ''name'') as_str) @ '': '' @ shown)
       (Option.bind (json_get p ''value'') as_str)"

definition preview_text :: "bool \<Rightarrow> bool \<Rightarrow> json list \<Rightarrow> string" where
  "preview_text is_array overflow props =
     (let inner = join '', '' (List.map_filter (preview_property is_array) props)
            @ (if overflow then '', ...'' else [])
      in if is_array then ''['' @ inner @ '']'' else ''{'' @ inner @ ''}'')"

definition description_of :: "json \<Rightarrow> string option" where
  "description_of arg = Option.bind (json_get arg ''description'') as_str"

definition format_console_arg :: "net_env \<Rightarrow> json \<Rightarrow> string option" where
  "format_console_arg env arg =
     (let subtype = Option.bind (json_get arg ''subtype'') as_str
      in if Option.bind (json_get arg ''type'') as_str = Some ''undefined'' then Some ''undefined''
         else if subtype = Some ''null'' then Some ''null''
         else case json_get arg ''value'' of
                Some v \<Rightarrow> Some (case v of JStr s \<Rightarrow> s | JNull \<Rightarrow> ''null'' | _ \<Rightarrow> ne_show env v)
              | None \<Rightarrow>
                  (case json_get arg ''preview'' of
                     None \<Rightarrow> description_of arg
                   | Some preview \<Rightarrow>
                       (let ps = Option.bind (json_get preview ''subtype'') as_str
                        in if ps \<in> set [Some ''map'', Some ''set'', Some ''weakmap'', Some ''weakset''] then description_of arg
                           else case Option.bind (json_get preview ''properties'') as_array of
                                  None \<Rightarrow> description_of arg
                                | Some props \<Rightarrow>
                                    Some (preview_text (subtype = Some ''array'' \<or> ps = Some ''array'')
                                      (unwrap_or False (Option.bind (json_get preview ''overflow'') as_bool)) props))))"

definition format_console_args :: "net_env \<Rightarrow> json list \<Rightarrow> string" where
  "format_console_args env args = join '' '' (List.map_filter (format_console_arg env) args)"

record console_entry =
  ce_level :: string
  ce_text :: string
  ce_args :: "json list"

record error_entry =
  ee_text :: string
  ee_url :: "string option"
  ee_line :: "int option"
  ee_column :: "int option"

record event_tracker =
  console_entries :: "console_entry list"
  error_entries :: "error_entry list"
  max_entries :: nat

definition tracker_new :: event_tracker where
  "tracker_new = \<lparr>console_entries = [], error_entries = [], max_entries = 1000\<rparr>"

definition push_bounded :: "nat \<Rightarrow> 'a \<Rightarrow> 'a list \<Rightarrow> 'a list" where
  "push_bounded n x xs = (if n \<le> length xs then tl xs else xs) @ [x]"

definition add_console :: "console_entry \<Rightarrow> event_tracker \<Rightarrow> event_tracker" where
  "add_console e t = t\<lparr>console_entries := push_bounded (max_entries t) e (console_entries t)\<rparr>"

definition add_error :: "error_entry \<Rightarrow> event_tracker \<Rightarrow> event_tracker" where
  "add_error e t = t\<lparr>error_entries := push_bounded (max_entries t) e (error_entries t)\<rparr>"

definition clear_console :: "event_tracker \<Rightarrow> event_tracker" where
  "clear_console t = t\<lparr>console_entries := []\<rparr>"

definition get_console_json :: "event_tracker \<Rightarrow> json" where
  "get_console_json t =
     json_obj [(''messages'', JArr (map
       (\<lambda>e. set_when (ce_args e \<noteq> []) ''args'' (JArr (ce_args e))
              (json_obj [(''type'', JStr (ce_level e)), (''text'', JStr (ce_text e))]))
       (console_entries t)))]"

definition opt_int :: "int option \<Rightarrow> json" where
  "opt_int v = (case v of None \<Rightarrow> JNull | Some i \<Rightarrow> json_int i)"

definition get_errors_json :: "event_tracker \<Rightarrow> json" where
  "get_errors_json t =
     json_obj [(''errors'', JArr (map
       (\<lambda>e. json_obj [(''text'', JStr (ee_text e)), (''url'', json_opt_str (ee_url e)),
              (''line'', opt_int (ee_line e)), (''column'', opt_int (ee_column e))])
       (error_entries t)))]"

subsection \<open>Domains are compared label by label\<close>

lemma ends_with_iff: "ends_with p s \<longleftrightarrow> suffix p s"
  by (simp add: ends_with_def starts_with_iff suffix_def prefix_def) (metis rev_append rev_rev_ident)

lemma split_on_inject: "split_on d s = split_on d t \<Longrightarrow> s = t"
  by (metis join_split_on)

lemma join_append: "xs \<noteq> [] \<Longrightarrow> ys \<noteq> [] \<Longrightarrow> join sep (xs @ ys) = join sep xs @ sep @ join sep ys"
proof (induction xs)
  case (Cons x xs)
  then show ?case by (cases xs; cases ys) simp_all
qed simp

lemma label_suffix:
  "(h = s \<or> suffix (d # s) h) \<longleftrightarrow> suffix (split_on d s) (split_on d h)"
proof
  assume "h = s \<or> suffix (d # s) h"
  then show "suffix (split_on d s) (split_on d h)"
    by (auto simp: suffix_def split_on_append)
next
  assume "suffix (split_on d s) (split_on d h)"
  then obtain ls where ls: "split_on d h = ls @ split_on d s" by (auto simp: suffix_def)
  show "h = s \<or> suffix (d # s) h"
  proof (cases "ls = []")
    case True
    with ls show ?thesis using split_on_inject by simp
  next
    case False
    have "h = join [d] (ls @ split_on d s)" using ls by (metis join_split_on)
    then have "h = join [d] ls @ d # s" using False by (simp add: join_append)
    then show ?thesis by (auto simp: suffix_def)
  qed
qed

text \<open>The specification of a pattern: with a star it covers a domain and everything below it, where
  below is meant in labels; otherwise it covers the one domain.\<close>

definition covers :: "string \<Rightarrow> string \<Rightarrow> bool" where
  "covers pattern host \<longleftrightarrow>
     (case pattern of
        CHR ''*'' # CHR ''.'' # base \<Rightarrow> suffix (split_on (CHR ''.'') base) (split_on (CHR ''.'') host)
      | _ \<Rightarrow> host = pattern)"

lemma domain_matches_covers: "domain_matches p h \<longleftrightarrow> covers p h"
proof (cases "\<exists>base. p = ''*.'' @ base")
  case True
  then obtain base where p: "p = ''*.'' @ base" by blast
  have "strip_prefix ''*.'' p = Some base" using p by (simp add: strip_prefix_Some_iff)
  then show ?thesis by (simp add: domain_matches_def ends_with_iff covers_def p label_suffix)
next
  case False
  then have "strip_prefix ''*.'' p = None" by (cases "strip_prefix ''*.'' p") (auto simp: strip_prefix_Some_iff)
  moreover have "covers p h \<longleftrightarrow> h = p"
    using False by (auto simp: covers_def split: list.splits char.splits bool.splits)
  ultimately show ?thesis by (simp add: domain_matches_def)
qed

subsection \<open>The log keeps the latest entries\<close>

lemma push_bounded_latest:
  "0 < n \<Longrightarrow> push_bounded n x (drop (length xs - n) xs) = drop (Suc (length xs) - n) (xs @ [x])"
  by (cases "n \<le> length xs") (auto simp: push_bounded_def tl_drop drop_Suc Suc_diff_le)

datatype log_event = Console console_entry | ErrorLog error_entry | ClearConsole

fun record_event :: "log_event \<Rightarrow> event_tracker \<Rightarrow> event_tracker" where
  "record_event (Console e) t = add_console e t"
| "record_event (ErrorLog e) t = add_error e t"
| "record_event ClearConsole t = clear_console t"

text \<open>What the log should hold: the console entries since the last clearing, and the errors.\<close>

fun since_clear :: "log_event list \<Rightarrow> console_entry list \<Rightarrow> console_entry list" where
  "since_clear [] acc = acc"
| "since_clear (Console e # evs) acc = since_clear evs (acc @ [e])"
| "since_clear (ErrorLog e # evs) acc = since_clear evs acc"
| "since_clear (ClearConsole # evs) acc = since_clear evs []"

fun errors_of :: "log_event list \<Rightarrow> error_entry list" where
  "errors_of [] = []"
| "errors_of (ErrorLog e # evs) = e # errors_of evs"
| "errors_of (_ # evs) = errors_of evs"

definition latest :: "nat \<Rightarrow> 'a list \<Rightarrow> 'a list" where
  "latest n xs = drop (length xs - n) xs"

lemma log_run:
  assumes "0 < max_entries t" and "console_entries t = latest (max_entries t) cs" and "error_entries t = latest (max_entries t) es"
  shows "fold record_event evs t =
    \<lparr>console_entries = latest (max_entries t) (since_clear evs cs),
     error_entries = latest (max_entries t) (es @ errors_of evs), max_entries = max_entries t\<rparr>"
  using assms
proof (induction evs arbitrary: t cs es)
  case (Cons x evs)
  show ?case
  proof (cases x)
    case (Console e)
    with Cons.IH [of "add_console e t" "cs @ [e]" es] Cons.prems show ?thesis
      by (simp add: add_console_def latest_def push_bounded_latest)
  next
    case (ErrorLog e)
    with Cons.IH [of "add_error e t" cs "es @ [e]"] Cons.prems show ?thesis
      by (simp add: add_error_def latest_def push_bounded_latest)
  next
    case ClearConsole
    with Cons.IH [of "clear_console t" "[]" es] Cons.prems show ?thesis
      by (simp add: clear_console_def latest_def)
  qed
qed simp

subsection \<open>Interception stays on\<close>

datatype net_op = Route json | Unroute json

fun net_step :: "net_env \<Rightarrow> net_op \<Rightarrow> cdp_command list \<times> net_state \<Rightarrow> cdp_command list \<times> net_state" where
  "net_step env (Route cmd) (sent, st) = (case handle_route env cmd st of (_, cs, st1) \<Rightarrow> (sent @ cs, st1))"
| "net_step env (Unroute cmd) (sent, st) = (case handle_unroute env cmd st of (_, cs, st1) \<Rightarrow> (sent @ cs, st1))"

definition intercepts_all :: "cdp_command \<Rightarrow> bool" where
  "intercepts_all c \<longleftrightarrow> fst c = ''Fetch.enable''
     \<and> (case Option.bind (snd c) (\<lambda>j. Option.bind (json_get j ''patterns'') as_array) of
          Some ps \<Rightarrow> pattern_json ''*'' \<in> set ps | None \<Rightarrow> False)"

lemma pattern_json_url: "json_get (pattern_json p) ''urlPattern'' = Some (JStr p)"
  by (simp add: pattern_json_def json_get_obj)

lemma patterns_with_filter: "ns_filter st \<noteq> None \<Longrightarrow> pattern_json ''*'' \<in> set (build_fetch_patterns st)"
  by (auto simp: build_fetch_patterns_def Let_def list_ex_iff pattern_json_url intro!: rev_image_eqI)

lemma enable_intercepts: "pattern_json ''*'' \<in> set ps \<Longrightarrow> intercepts_all (''Fetch.enable'', Some (build_fetch_enable_params st ps))"
  by (simp add: intercepts_all_def build_fetch_enable_params_def json_get_obj)

lemma net_step_intercepts:
  assumes "net_step env x (sent, st) = (sent', st')" and "ns_filter st \<noteq> None" and "list_all intercepts_all sent"
  shows "list_all intercepts_all sent' \<and> ns_filter st' = ns_filter st"
proof (cases x)
  case (Route cmd)
  with assms show ?thesis
    by (auto simp: handle_route_def Let_def patterns_with_filter enable_intercepts split: sum.splits)
next
  case (Unroute cmd)
  have "build_fetch_patterns t \<noteq> []" if "ns_filter t \<noteq> None" for t
    using patterns_with_filter [OF that] by auto
  with Unroute assms show ?thesis
    by (auto simp: handle_unroute_def Let_def patterns_with_filter enable_intercepts split: sum.splits)
qed

lemma net_run_intercepts:
  assumes "ns_filter st \<noteq> None" and "list_all intercepts_all sent"
  shows "list_all intercepts_all (fst (fold (net_step env) ops (sent, st)))
     \<and> ns_filter (snd (fold (net_step env) ops (sent, st))) = ns_filter st"
  using assms
proof (induction ops arbitrary: sent st)
  case (Cons x ops)
  obtain sent' st' where n: "net_step env x (sent, st) = (sent', st')" by (metis prod.exhaust)
  from net_step_intercepts [OF n Cons.prems] Cons.IH [of st' sent'] Cons.prems n show ?case by simp
qed simp

subsection \<open>Properties\<close>

text \<open>C27: For a request over HTTP to a host, the domain filter decides by the labels of the host
  name: when the list of patterns is empty, which by its documentation allows all hosts, or a pattern
  of it covers the host, the request is treated as if there were no filter; otherwise it is
  answered with a page of status 403 or failed, whatever the routes and the headers say, and it is
  never passed on. Navigation to the address is accepted in exactly the same cases.\<close>

theorem domain_filter_decides:
  assumes "ne_url env (fp_url p) = Some parts" and "up_scheme parts = ''http'' \<or> up_scheme parts = ''https''"
    and "up_host parts = Some h"
  shows "resolve_fetch_paused env (Some f) routes hs p =
      (if f = [] \<or> (\<exists>d\<in>set f. covers d (to_lowercase (ne_unicode env) h)) then resolve_fetch_paused env None routes hs p
       else if is_document p
       then fulfill_request p 403 [(''Content-Type'', ''text/html'')] (ne_base64 env (blocked_page h))
       else fail_request p ''BlockedByClient'')
    \<and> (check_url env f (fp_url p) = Inr () \<longleftrightarrow> f = [] \<or> (\<exists>d\<in>set f. covers d (to_lowercase (ne_unicode env) h)))"
proof -
  have a: "is_allowed (ne_unicode env) f h \<longleftrightarrow> f = [] \<or> (\<exists>d\<in>set f. covers d (to_lowercase (ne_unicode env) h))"
    by (auto simp: is_allowed_def list_ex_iff domain_matches_covers)
  show ?thesis
  proof (cases "f = []")
    case True
    then have "is_allowed (ne_unicode env) [] h" for h by (simp add: is_allowed_def)
    with True assms show ?thesis by (auto simp: resolve_fetch_paused_def filter_answer_def check_url_def)
  next
    case False
    with assms show ?thesis by (auto simp: resolve_fetch_paused_def filter_answer_def check_url_def a)
  qed
qed

text \<open>C28: With a domain filter set, no sequence of \<open>route\<close> and \<open>unroute\<close> commands switches the
  interception off or narrows it: every command that reaches the browser enables interception of
  all addresses, as the one that installs the filter does, and the filter stays the same.\<close>

theorem interception_stays_on:
  assumes "ns_filter st = Some f"
  shows "list_all intercepts_all (fst (fold (net_step env) ops ([install_domain_filter_fetch auth], st)))
     \<and> ns_filter (snd (fold (net_step env) ops ([install_domain_filter_fetch auth], st))) = Some f"
proof -
  have "intercepts_all (install_domain_filter_fetch auth)"
    by (simp add: intercepts_all_def install_domain_filter_fetch_def set_when_def json_get_set json_get_obj)
  with net_run_intercepts [of st "[install_domain_filter_fetch auth]"] assms show ?thesis by simp
qed

text \<open>Whatever is logged and cleared in any order, the console log holds the latest 1000 entries
  since the last clearing and the error log the latest 1000 errors, both in the order they
  came.\<close>

theorem log_keeps_the_latest:
  "fold record_event evs tracker_new =
     \<lparr>console_entries = latest 1000 (since_clear evs []), error_entries = latest 1000 (errors_of evs), max_entries = 1000\<rparr>"
  using log_run [of tracker_new "[]" "[]" evs] by (simp add: tracker_new_def latest_def)

text \<open>A list of blanks and commas is a filter without patterns, and that allows every host.\<close>

theorem blank_domain_list_allows_all:
  "filter_from_env ascii_unicode (Some '' , '') = Some []" "is_allowed ascii_unicode [] h"
  by (code_simp, simp add: is_allowed_def)

definition sample_net :: net_env where
  "sample_net =
     \<lparr>ne_unicode = ascii_unicode,
      ne_url = (\<lambda>u. Some \<lparr>up_scheme = ''https'', up_host = Some u, up_origin = ''https://'' @ u\<rparr>),
      ne_base64 = (\<lambda>s. s), ne_show = (\<lambda>j. []), ne_send = (\<lambda>c. Inr ()), ne_session = Inr ''s''\<rparr>"

definition sample_paused :: "string \<Rightarrow> fetch_paused" where
  "sample_paused u = \<lparr>fp_request_id = ''r'', fp_url = u, fp_resource_type = ''Script'', fp_request_headers = None\<rparr>"

theorem domain_filter_decides_witness:
  "resolve_fetch_paused sample_net (Some [''*.example.com'']) [] [] (sample_paused ''evilexample.com'')
     = fail_request (sample_paused ''evilexample.com'') ''BlockedByClient''
   \<and> check_url sample_net [''*.example.com''] ''a.example.com'' = Inr ()"
proof -
  have n: "\<not> covers ''*.example.com'' (to_ascii_lowercase ''evilexample.com'')"
    "covers ''*.example.com'' (to_ascii_lowercase ''a.example.com'')" by code_simp+
  have d: "\<not> is_document (sample_paused ''evilexample.com'')" by code_simp
  have e: "fp_url (sample_paused u) = u" for u by (simp add: sample_paused_def)
  show ?thesis
    using n d domain_filter_decides [of sample_net "sample_paused ''evilexample.com''" _ _ "[''*.example.com'']" "[]" "[]"]
      domain_filter_decides [of sample_net "sample_paused ''a.example.com''" _ _ "[''*.example.com'']" "[]" "[]"]
    by (simp add: e) (simp add: sample_net_def ascii_unicode_def)
qed

theorem interception_stays_on_witness:
  "list_all intercepts_all (fst (fold (net_step sample_net) [Unroute JNull] ([install_domain_filter_fetch False],
     \<lparr>ns_routes = [], ns_filter = Some [''a''], ns_origin_headers = [], ns_proxy_credentials = False\<rparr>)))"
  by (rule interception_stays_on [THEN conjunct1]) simp

end
