(* ===== verification/Browser_Tabs.thy ===== *)
theory Browser_Tabs
  imports Snapshot Net_Filter "HOL-Library.Word"
begin

section \<open>Tabs of the browser\<close>

text \<open>
  The browser manager of \<open>agent-browser/src/native/browser.rs\<close>: which pages are open, which one is
  active, how a tab is named and how it is opened, switched to, closed and navigated; the handlers
  of these actions and of \<open>window_new\<close> in \<open>native/actions.rs\<close>; and the part of \<open>drain_cdp_events\<close> and
  \<open>apply_drained_events\<close> that follows the pages and frames the browser opens and closes by itself.
  A command to the browser is the field \<open>cd_send\<close> of \<open>cdp_env\<close> (\<open>CdpClient::send_command\<close>, modelled in
  \<open>Cdp_Client\<close>), on a world of its own; the answers are decoded as the derived decoders of
  \<open>native/cdp/types.rs\<close> do. Tab identifiers are words of 32 bits.
\<close>

subsection \<open>Answers of the browser (native/cdp/types.rs)\<close>

record target_info =
  ti_target_id :: string
  ti_type :: string
  ti_title :: string
  ti_url :: string
  ti_attached :: "bool option"
  ti_context :: "string option"

definition decode_target_info :: "json \<Rightarrow> de_error + target_info" where
  "decode_target_info j =
     and_then (struct_source ''struct TargetInfo with 6 elements''
        [''targetId'', ''type'', ''title'', ''url'', ''attached'', ''browserContextId''] j) (\<lambda>src.
     and_then (visit_entries
        (\<lambda>k v. if k \<in> set [''targetId'', ''type'', ''title'', ''url''] then error_of (dec_string v)
               else if k = ''attached'' then error_of (dec_option dec_bool v)
               else if k = ''browserContextId'' then error_of (dec_option dec_string v)
               else None) src) (\<lambda>_.
     and_then (req_field src ''targetId'' dec_string) (\<lambda>i.
     and_then (req_field src ''type'' dec_string) (\<lambda>t.
     and_then (req_field src ''title'' dec_string) (\<lambda>title.
     and_then (req_field src ''url'' dec_string) (\<lambda>url.
     and_then (opt_field src ''attached'' dec_bool) (\<lambda>a.
     and_then (opt_field src ''browserContextId'' dec_string) (\<lambda>c.
       Inr \<lparr>ti_target_id = i, ti_type = t, ti_title = title, ti_url = url, ti_attached = a, ti_context = c\<rparr>))))))))"

text \<open>The structs with a single field: \<open>AttachToTargetResult\<close>, \<open>CreateTargetResult\<close>,
  \<open>GetTargetsResult\<close>, \<open>TargetCreatedEvent\<close>, \<open>TargetInfoChangedEvent\<close>, \<open>TargetDestroyedEvent\<close>.\<close>

definition decode_single :: "string \<Rightarrow> string \<Rightarrow> (json \<Rightarrow> de_error + 'a) \<Rightarrow> json \<Rightarrow> de_error + 'a" where
  "decode_single name k d j =
     and_then (struct_source (''struct '' @ name @ '' with 1 element'') [k] j) (\<lambda>src.
     and_then (visit_entries (\<lambda>k' v. if k' = k then error_of (d v) else None) src) (\<lambda>_. req_field src k d))"

definition decode_attach :: "json \<Rightarrow> de_error + string" where
  "decode_attach = decode_single ''AttachToTargetResult'' ''sessionId'' dec_string"

definition decode_create :: "json \<Rightarrow> de_error + string" where
  "decode_create = decode_single ''CreateTargetResult'' ''targetId'' dec_string"

definition decode_targets :: "json \<Rightarrow> de_error + target_info list" where
  "decode_targets = decode_single ''GetTargetsResult'' ''targetInfos'' (dec_vec decode_target_info)"

definition decode_created_event :: "json \<Rightarrow> de_error + target_info" where
  "decode_created_event = decode_single ''TargetCreatedEvent'' ''targetInfo'' decode_target_info"

definition decode_changed_event :: "json \<Rightarrow> de_error + target_info" where
  "decode_changed_event = decode_single ''TargetInfoChangedEvent'' ''targetInfo'' decode_target_info"

definition decode_destroyed_event :: "json \<Rightarrow> de_error + string" where
  "decode_destroyed_event = decode_single ''TargetDestroyedEvent'' ''targetId'' dec_string"

record page_navigate_result =
  pn_frame_id :: string
  pn_loader_id :: "string option"
  pn_error_text :: "string option"

definition decode_navigate :: "json \<Rightarrow> de_error + page_navigate_result" where
  "decode_navigate j =
     and_then (struct_source ''struct PageNavigateResult with 3 elements'' [''frameId'', ''loaderId'', ''errorText''] j)
       (\<lambda>src.
     and_then (visit_entries
        (\<lambda>k v. if k = ''frameId'' then error_of (dec_string v)
               else if k = ''loaderId'' \<or> k = ''errorText'' then error_of (dec_option dec_string v)
               else None) src) (\<lambda>_.
     and_then (req_field src ''frameId'' dec_string) (\<lambda>f.
     and_then (opt_field src ''loaderId'' dec_string) (\<lambda>l.
     and_then (opt_field src ''errorText'' dec_string) (\<lambda>e.
       Inr \<lparr>pn_frame_id = f, pn_loader_id = l, pn_error_text = e\<rparr>)))))"

record remote_object =
  ro_type :: string
  ro_subtype :: "string option"
  ro_value :: "json option"
  ro_description :: "string option"
  ro_object_id :: "string option"
  ro_class_name :: "string option"
  ro_unserializable :: "string option"
  ro_preview :: "json option"

definition decode_remote_object :: "json \<Rightarrow> de_error + remote_object" where
  "decode_remote_object j =
     and_then (struct_source ''struct RemoteObject with 8 elements''
        [''type'', ''subtype'', ''value'', ''description'', ''objectId'', ''className'', ''unserializableValue'', ''preview''] j)
       (\<lambda>src.
     and_then (visit_entries
        (\<lambda>k v. if k = ''type'' then error_of (dec_string v)
               else if k \<in> set [''subtype'', ''description'', ''objectId'', ''className'', ''unserializableValue'']
               then error_of (dec_option dec_string v)
               else None) src) (\<lambda>_.
     and_then (req_field src ''type'' dec_string) (\<lambda>t.
     and_then (opt_field src ''subtype'' dec_string) (\<lambda>s.
     and_then (opt_field src ''value'' dec_value) (\<lambda>v.
     and_then (opt_field src ''description'' dec_string) (\<lambda>d.
     and_then (opt_field src ''objectId'' dec_string) (\<lambda>i.
     and_then (opt_field src ''className'' dec_string) (\<lambda>c.
     and_then (opt_field src ''unserializableValue'' dec_string) (\<lambda>u.
     and_then (opt_field src ''preview'' dec_value) (\<lambda>p.
       Inr \<lparr>ro_type = t, ro_subtype = s, ro_value = v, ro_description = d, ro_object_id = i,
            ro_class_name = c, ro_unserializable = u, ro_preview = p\<rparr>))))))))))"

record exception_details =
  xd_text :: string
  xd_exception :: "remote_object option"
  xd_line :: "int option"
  xd_column :: "int option"

definition dec_i64 :: "json \<Rightarrow> de_error + int" where
  "dec_i64 j =
     (case as_i64 j of
        Some i \<Rightarrow> Inr i
      | None \<Rightarrow> (case j of JNum (PosInt n) \<Rightarrow> Inl (de_error.InvalidValue j ''i64'') | _ \<Rightarrow> Inl (de_error.InvalidType j ''i64'')))"

definition decode_exception :: "json \<Rightarrow> de_error + exception_details" where
  "decode_exception j =
     and_then (struct_source ''struct ExceptionDetails with 4 elements''
        [''text'', ''exception'', ''lineNumber'', ''columnNumber''] j) (\<lambda>src.
     and_then (visit_entries
        (\<lambda>k v. if k = ''text'' then error_of (dec_string v)
               else if k = ''exception'' then error_of (dec_option decode_remote_object v)
               else if k = ''lineNumber'' \<or> k = ''columnNumber'' then error_of (dec_option dec_i64 v)
               else None) src) (\<lambda>_.
     and_then (req_field src ''text'' dec_string) (\<lambda>t.
     and_then (opt_field src ''exception'' decode_remote_object) (\<lambda>x.
     and_then (opt_field src ''lineNumber'' dec_i64) (\<lambda>l.
     and_then (opt_field src ''columnNumber'' dec_i64) (\<lambda>c.
       Inr \<lparr>xd_text = t, xd_exception = x, xd_line = l, xd_column = c\<rparr>))))))"

definition decode_evaluate :: "json \<Rightarrow> de_error + remote_object \<times> exception_details option" where
  "decode_evaluate j =
     and_then (struct_source ''struct EvaluateResult with 2 elements'' [''result'', ''exceptionDetails''] j) (\<lambda>src.
     and_then (visit_entries
        (\<lambda>k v. if k = ''result'' then error_of (decode_remote_object v)
               else if k = ''exceptionDetails'' then error_of (dec_option decode_exception v)
               else None) src) (\<lambda>_.
     and_then (req_field src ''result'' decode_remote_object) (\<lambda>r.
     and_then (opt_field src ''exceptionDetails'' decode_exception) (\<lambda>x. Inr (r, x)))))"

text \<open>What an exception says: the description of the thrown object, or else the text.\<close>

definition exception_text :: "exception_details \<Rightarrow> string" where
  "exception_text x = unwrap_or (xd_text x) (Option.bind (xd_exception x) ro_description)"

subsection \<open>Tabs and their names\<close>

record page_info =
  pg_tab_id :: "32 word"
  pg_label :: "string option"
  pg_target_id :: string
  pg_session_id :: string
  pg_url :: string
  pg_title :: string
  pg_type :: string

definition format_tab_id :: "32 word \<Rightarrow> string" where
  "format_tab_id i = ''t'' @ show_nat (unat i)"

datatype tab_ref = TabId "32 word" | TabLabel string

definition is_ascii_alphabetic :: "char \<Rightarrow> bool" where
  "is_ascii_alphabetic c \<longleftrightarrow> is_ascii_alphanumeric c \<and> \<not> is_ascii_digit c"

definition is_valid_label :: "string \<Rightarrow> bool" where
  "is_valid_label s =
     (case s of
        [] \<Rightarrow> False
      | c # cs \<Rightarrow> is_ascii_alphabetic c
          \<and> list_all (\<lambda>d. is_ascii_alphanumeric d \<or> d = CHR ''-'' \<or> d = CHR ''_'') cs)"

definition backquoted :: "string \<Rightarrow> string" where
  "backquoted s = [CHR 0x60] @ s @ [CHR 0x60]"

definition invalid_label :: "string \<Rightarrow> string" where
  "invalid_label s =
     ''Invalid tab label '' @ backquoted s @ ''; labels must start with a letter and contain only letters, digits, ''
     @ backquoted ''-'' @ '', and '' @ backquoted ''_''"

definition tab_digits :: "string \<Rightarrow> string option" where
  "tab_digits s =
     (case (case strip_prefix ''t'' s of Some d \<Rightarrow> Some d | None \<Rightarrow> strip_prefix ''T'' s) of
        Some d \<Rightarrow> (if d \<noteq> [] \<and> list_all is_ascii_digit d then Some d else None)
      | None \<Rightarrow> None)"

definition tab_ref_parse :: "string \<Rightarrow> string + tab_ref" where
  "tab_ref_parse input0 =
     (let input = trim input0
      in if input = []
         then Inl (''Empty tab reference; expected '' @ backquoted ''t<N>'' @ '' (e.g. '' @ backquoted ''t2'' @ '') or a label'')
         else case tab_digits input of
           Some d \<Rightarrow>
             (case parse_unsigned u32_max d of
                None \<Rightarrow> Inl (''Tab id '' @ backquoted input @ '' out of range; ids are incrementing positive integers'')
              | Some n \<Rightarrow>
                  (if n = 0 then Inl (''Tab id '' @ backquoted input @ '' is invalid; tab ids start at t1'')
                   else Inr (TabId (of_nat n))))
         | None \<Rightarrow>
             (if list_all is_ascii_digit input
              then Inl (''Expected a tab id like '' @ backquoted (''t'' @ input)
                @ '' or a label; positional integers are not accepted (run '' @ backquoted ''agent-browser tab''
                @ '' to list stable tab ids)'')
              else if \<not> is_valid_label input then Inl (invalid_label input)
              else Inr (TabLabel input)))"

subsection \<open>Targets\<close>

definition is_internal_chrome_target :: "string \<Rightarrow> bool" where
  "is_internal_chrome_target url \<longleftrightarrow>
     starts_with ''chrome://'' url \<or> starts_with ''chrome-extension://'' url \<or> starts_with ''devtools://'' url"

definition should_track_target :: "target_info \<Rightarrow> bool" where
  "should_track_target t \<longleftrightarrow>
     (ti_type t = ''page'' \<or> ti_type t = ''webview'') \<and> (ti_url t = [] \<or> \<not> is_internal_chrome_target (ti_url t))"

text \<open>\<open>Iterator::position\<close>, and replacing the first element that matches.\<close>

fun position :: "('a \<Rightarrow> bool) \<Rightarrow> 'a list \<Rightarrow> nat option" where
  "position P [] = None"
| "position P (x # xs) = (if P x then Some 0 else map_option Suc (position P xs))"

fun update_first :: "('a \<Rightarrow> bool) \<Rightarrow> ('a \<Rightarrow> 'a) \<Rightarrow> 'a list \<Rightarrow> 'a list" where
  "update_first P f [] = []"
| "update_first P f (x # xs) = (if P x then f x # xs else x # update_first P f xs)"

definition update_page_target_info_in_pages :: "page_info list \<Rightarrow> target_info \<Rightarrow> bool \<times> page_info list" where
  "update_page_target_info_in_pages ps t =
     (list_ex (\<lambda>p. pg_target_id p = ti_target_id t) ps,
      update_first (\<lambda>p. pg_target_id p = ti_target_id t)
        (\<lambda>p. p\<lparr>pg_url := ti_url t, pg_title := ti_title t, pg_type := ti_type t\<rparr>) ps)"

definition active_page_index_after_removal :: "nat \<Rightarrow> nat \<Rightarrow> nat \<Rightarrow> nat" where
  "active_page_index_after_removal active removed remaining =
     (if remaining = 0 then 0
      else if removed < active then active - 1
      else if remaining \<le> active then remaining - 1
      else active)"

subsection \<open>Talking to the browser\<close>

datatype wait_until = Load | DomContentLoaded | NetworkIdle | NoWait

definition wait_until_from_str :: "string \<Rightarrow> wait_until" where
  "wait_until_from_str s =
     (if s = ''domcontentloaded'' then DomContentLoaded
      else if s = ''networkidle'' then NetworkIdle
      else if s = ''none'' then NoWait else Load)"

record 'w cdp_env =
  cd_send :: "string \<Rightarrow> json option \<Rightarrow> string \<Rightarrow> 'w \<Rightarrow> (string + json) \<times> 'w"
  cd_serde :: serde_json
  cd_wait :: "wait_until \<Rightarrow> string \<Rightarrow> 'w \<Rightarrow> (string + unit) \<times> 'w"
  cd_url :: "string \<Rightarrow> url_parts option"

text \<open>The session is a text; the empty one stands for \<open>None\<close> as well, which is what
  \<open>send_command\<close> makes of it.\<close>

definition no_session :: string where
  "no_session = []"

text \<open>Sequencing of calls, the \<open>?\<close> operator included.\<close>

definition then_do :: "('e + 'a) \<times> 'w \<Rightarrow> ('a \<Rightarrow> 'w \<Rightarrow> ('e + 'b) \<times> 'w) \<Rightarrow> ('e + 'b) \<times> 'w" where
  "then_do r f = (case r of (Inl e, w) \<Rightarrow> (Inl e, w) | (Inr x, w) \<Rightarrow> f x w)"

definition send_command_typed ::
    "'w cdp_env \<Rightarrow> string \<Rightarrow> json \<Rightarrow> string \<Rightarrow> (json \<Rightarrow> de_error + 'a) \<Rightarrow> 'w \<Rightarrow> (string + 'a) \<times> 'w" where
  "send_command_typed env method params sid d w =
     then_do (cd_send env method (Some params) sid w)
       (\<lambda>v w1. (map_err (\<lambda>e. ''Failed to deserialize CDP response for '' @ method @ '': '' @ de_msg (cd_serde env) e) (d v), w1))"

definition send_command_no_params :: "'w cdp_env \<Rightarrow> string \<Rightarrow> string \<Rightarrow> 'w \<Rightarrow> (string + json) \<times> 'w" where
  "send_command_no_params env method sid w = cd_send env method None sid w"

text \<open>A command whose result is dropped (\<open>let _ =\<close>).\<close>

definition send_quietly :: "'w cdp_env \<Rightarrow> string \<Rightarrow> json option \<Rightarrow> string \<Rightarrow> 'w \<Rightarrow> 'w" where
  "send_quietly env method params sid w = snd (cd_send env method params sid w)"

definition create_target :: "'w cdp_env \<Rightarrow> json \<Rightarrow> 'w \<Rightarrow> (string + string) \<times> 'w" where
  "create_target env params w = send_command_typed env ''Target.createTarget'' params no_session decode_create w"

definition attach_to_target :: "'w cdp_env \<Rightarrow> string \<Rightarrow> 'w \<Rightarrow> (string + string) \<times> 'w" where
  "attach_to_target env tid w =
     send_command_typed env ''Target.attachToTarget''
       (json_obj [(''targetId'', JStr tid), (''flatten'', JBool True)]) no_session decode_attach w"

definition open_target :: "'w cdp_env \<Rightarrow> json \<Rightarrow> 'w \<Rightarrow> (string + string \<times> string) \<times> 'w" where
  "open_target env params w =
     then_do (create_target env params w)
       (\<lambda>tid w1. then_do (attach_to_target env tid w1) (\<lambda>sid w2. (Inr (tid, sid), w2)))"

definition auto_attach_params :: json where
  "auto_attach_params =
     json_obj [(''autoAttach'', JBool True), (''waitForDebuggerOnStart'', JBool False), (''flatten'', JBool True)]"

definition enable_domains :: "'w cdp_env \<Rightarrow> string \<Rightarrow> 'w \<Rightarrow> (string + unit) \<times> 'w" where
  "enable_domains env sid w =
     then_do (send_command_no_params env ''Page.enable'' sid w) (\<lambda>_ w1.
     then_do (send_command_no_params env ''Runtime.enable'' sid w1) (\<lambda>_ w2.
     then_do (send_command_no_params env ''Network.enable'' sid
                (send_quietly env ''Runtime.runIfWaitingForDebugger'' None sid w2)) (\<lambda>_ w3.
       (Inr (), send_quietly env ''Target.setAutoAttach'' (Some auto_attach_params) sid w3))))"

definition enable_domains_direct :: "'w cdp_env \<Rightarrow> 'w \<Rightarrow> (string + unit) \<times> 'w" where
  "enable_domains_direct env w =
     then_do (send_command_no_params env ''Page.enable'' no_session w) (\<lambda>_ w1.
     then_do (send_command_no_params env ''Runtime.enable'' no_session w1) (\<lambda>_ w2.
     then_do (send_command_no_params env ''Network.enable'' no_session
                (send_quietly env ''Runtime.runIfWaitingForDebugger'' None no_session w2)) (\<lambda>_ w3.
       (Inr (), w3))))"

subsection \<open>The manager\<close>

record browser_manager =
  bm_pages :: "page_info list"
  bm_active :: nat
  bm_next_tab_id :: "32 word"
  bm_visited :: "string set"

definition new_manager :: browser_manager where
  "new_manager = \<lparr>bm_pages = [], bm_active = 0, bm_next_tab_id = 1, bm_visited = {}\<rparr>"

definition nth_opt :: "'a list \<Rightarrow> nat \<Rightarrow> 'a option" where
  "nth_opt xs i = (if i < length xs then Some (xs ! i) else None)"

definition has_target :: "browser_manager \<Rightarrow> string \<Rightarrow> bool" where
  "has_target m tid \<longleftrightarrow> list_ex (\<lambda>p. pg_target_id p = tid) (bm_pages m)"

definition has_tab_id :: "browser_manager \<Rightarrow> 32 word \<Rightarrow> bool" where
  "has_tab_id m i \<longleftrightarrow> list_ex (\<lambda>p. pg_tab_id p = i) (bm_pages m)"

definition has_label :: "browser_manager \<Rightarrow> string \<Rightarrow> bool" where
  "has_label m l \<longleftrightarrow> list_ex (\<lambda>p. pg_label p = Some l) (bm_pages m)"

definition has_pages :: "browser_manager \<Rightarrow> bool" where
  "has_pages m \<longleftrightarrow> bm_pages m \<noteq> []"

definition active_session_id :: "browser_manager \<Rightarrow> string + string" where
  "active_session_id m = ok_or ''No active page'' (map_option pg_session_id (nth_opt (bm_pages m) (bm_active m)))"

definition active_target_id :: "browser_manager \<Rightarrow> string + string" where
  "active_target_id m = ok_or ''No active page'' (map_option pg_target_id (nth_opt (bm_pages m) (bm_active m)))"

definition active_tab_id :: "browser_manager \<Rightarrow> 32 word option" where
  "active_tab_id m = map_option pg_tab_id (nth_opt (bm_pages m) (bm_active m))"

definition assign_tab_id :: "browser_manager \<Rightarrow> 32 word \<times> browser_manager" where
  "assign_tab_id m = (bm_next_tab_id m, m\<lparr>bm_next_tab_id := bm_next_tab_id m + 1\<rparr>)"

definition add_page :: "page_info \<Rightarrow> browser_manager \<Rightarrow> browser_manager" where
  "add_page p m = m\<lparr>bm_pages := bm_pages m @ [p], bm_active := length (bm_pages m)\<rparr>"

text \<open>The push of a page under a fresh identifier, which is written out wherever a page is opened.\<close>

definition push_page :: "string option \<Rightarrow> string \<Rightarrow> string \<Rightarrow> string \<Rightarrow> string \<Rightarrow> string \<Rightarrow> browser_manager \<Rightarrow> browser_manager" where
  "push_page label tid sid url title kind m =
     (case assign_tab_id m of (i, m1) \<Rightarrow>
        m1\<lparr>bm_pages := bm_pages m1 @
              [\<lparr>pg_tab_id = i, pg_label = label, pg_target_id = tid, pg_session_id = sid, pg_url = url,
                pg_title = title, pg_type = kind\<rparr>]\<rparr>)"

definition update_page_target_info :: "target_info \<Rightarrow> browser_manager \<Rightarrow> bool \<times> browser_manager" where
  "update_page_target_info t m =
     (case update_page_target_info_in_pages (bm_pages m) t of (found, ps) \<Rightarrow> (found, m\<lparr>bm_pages := ps\<rparr>))"

definition update_active_page_after_removal :: "nat \<Rightarrow> browser_manager \<Rightarrow> browser_manager" where
  "update_active_page_after_removal removed m =
     m\<lparr>bm_active := active_page_index_after_removal (bm_active m) removed (length (bm_pages m))\<rparr>"

definition update_active_page_if_needed :: "browser_manager \<Rightarrow> browser_manager" where
  "update_active_page_if_needed m =
     (if bm_pages m = [] then m\<lparr>bm_active := 0\<rparr>
      else if length (bm_pages m) \<le> bm_active m then m\<lparr>bm_active := length (bm_pages m) - 1\<rparr>
      else m)"

definition remove_at :: "nat \<Rightarrow> 'a list \<Rightarrow> 'a list" where
  "remove_at i xs = take i xs @ drop (Suc i) xs"

definition remove_page :: "nat \<Rightarrow> browser_manager \<Rightarrow> browser_manager" where
  "remove_page i m = update_active_page_after_removal i (m\<lparr>bm_pages := remove_at i (bm_pages m)\<rparr>)"

definition remove_page_by_target_id :: "string \<Rightarrow> browser_manager \<Rightarrow> browser_manager" where
  "remove_page_by_target_id tid m =
     (case position (\<lambda>p. pg_target_id p = tid) (bm_pages m) of
        Some i \<Rightarrow> remove_page i m
      | None \<Rightarrow> m)"

definition tab_list :: "browser_manager \<Rightarrow> json list" where
  "tab_list m =
     map (\<lambda>(i, p). json_obj
            [(''tabId'', JStr (format_tab_id (pg_tab_id p))), (''label'', json_opt_str (pg_label p)),
             (''title'', JStr (pg_title p)), (''url'', JStr (pg_url p)), (''type'', JStr (pg_type p)),
             (''active'', JBool (i = bm_active m))])
       (zip [0..<length (bm_pages m)] (bm_pages m))"

definition resolve_tab_ref :: "browser_manager \<Rightarrow> tab_ref \<Rightarrow> string + 32 word" where
  "resolve_tab_ref m r =
     (case r of
        TabId i \<Rightarrow>
          (if has_tab_id m i then Inr i
           else Inl (''Tab '' @ format_tab_id i @ '' not found; run '' @ backquoted ''agent-browser tab'' @ '' to list open tabs''))
      | TabLabel l \<Rightarrow>
          ok_or (''No tab with label '' @ backquoted l @ ''; run '' @ backquoted ''agent-browser tab'' @ '' to list open tabs'')
            (map_option pg_tab_id (List.find (\<lambda>p. pg_label p = Some l) (bm_pages m))))"

subsection \<open>Connecting\<close>

definition blank_page :: json where
  "blank_page = json_obj [(''url'', JStr ''about:blank'')]"

text \<open>A blank page, which becomes the active one: when the browser has none.\<close>

definition open_blank_page :: "'w cdp_env \<Rightarrow> browser_manager \<Rightarrow> 'w \<Rightarrow> (string + unit) \<times> browser_manager \<times> 'w" where
  "open_blank_page env m w =
     (case open_target env blank_page w of
        (Inl e, w1) \<Rightarrow> (Inl e, m, w1)
      | (Inr (tid, sid), w1) \<Rightarrow>
          (case enable_domains env sid w1 of
             (r, w2) \<Rightarrow> (r, (push_page None tid sid ''about:blank'' [] ''page'' m)\<lparr>bm_active := 0\<rparr>, w2)))"

definition ensure_page :: "'w cdp_env \<Rightarrow> browser_manager \<Rightarrow> 'w \<Rightarrow> (string + unit) \<times> browser_manager \<times> 'w" where
  "ensure_page env m w = (if bm_pages m \<noteq> [] then (Inr (), m, w) else open_blank_page env m w)"

fun attach_all ::
    "'w cdp_env \<Rightarrow> target_info list \<Rightarrow> browser_manager \<Rightarrow> 'w \<Rightarrow> (string + unit) \<times> browser_manager \<times> 'w" where
  "attach_all env [] m w = (Inr (), m, w)"
| "attach_all env (t # ts) m w =
     (case attach_to_target env (ti_target_id t) w of
        (Inl e, w1) \<Rightarrow> (Inl e, m, w1)
      | (Inr sid, w1) \<Rightarrow>
          attach_all env ts (push_page None (ti_target_id t) sid (ti_url t) (ti_title t) (ti_type t) m) w1)"

definition discover_and_attach_targets ::
    "'w cdp_env \<Rightarrow> browser_manager \<Rightarrow> 'w \<Rightarrow> (string + unit) \<times> browser_manager \<times> 'w" where
  "discover_and_attach_targets env m w =
     (case then_do (send_command_typed env ''Target.setDiscoverTargets''
             (json_obj [(''discover'', JBool True)]) no_session dec_value w)
           (\<lambda>_ w1. send_command_typed env ''Target.getTargets'' (json_obj []) no_session decode_targets w1) of
        (Inl e, w1) \<Rightarrow> (Inl e, m, w1)
      | (Inr all, w1) \<Rightarrow>
          (let targets = filter should_track_target all
           in if targets = [] then open_blank_page env m w1
              else case attach_all env targets m w1 of
                (Inl e, m1, w2) \<Rightarrow> (Inl e, m1, w2)
              | (Inr u, m1, w2) \<Rightarrow>
                  (case enable_domains env (pg_session_id (hd (bm_pages m1))) w2 of
                     (r, w3) \<Rightarrow> (r, m1\<lparr>bm_active := 0\<rparr>, w3))))"

text \<open>\<open>connect_cdp_inner\<close>, once the connection is there.\<close>

definition connect_manager :: "'w cdp_env \<Rightarrow> bool \<Rightarrow> 'w \<Rightarrow> (string + unit) \<times> browser_manager \<times> 'w" where
  "connect_manager env direct_page w =
     (if direct_page
      then (case enable_domains_direct env w of
              (r, w1) \<Rightarrow>
                (r, (push_page None ''provider-page'' [] [] [] ''page'' new_manager)\<lparr>bm_active := 0\<rparr>, w1))
      else discover_and_attach_targets env new_manager w)"

subsection \<open>Scripts and navigation\<close>

definition evaluate_params :: "string \<Rightarrow> json" where
  "evaluate_params script =
     json_obj [(''expression'', JStr script), (''returnByValue'', JBool True), (''awaitPromise'', JBool True)]"

definition evaluate :: "'w cdp_env \<Rightarrow> browser_manager \<Rightarrow> string \<Rightarrow> 'w \<Rightarrow> (string + json) \<times> 'w" where
  "evaluate env m script w =
     (case active_session_id m of
        Inl e \<Rightarrow> (Inl e, w)
      | Inr sid \<Rightarrow>
          then_do (send_command_typed env ''Runtime.evaluate'' (evaluate_params script) sid decode_evaluate w)
            (\<lambda>(r, x) w1.
               (case x of
                  Some d \<Rightarrow> (Inl (''Evaluation error: '' @ exception_text d), w1)
                | None \<Rightarrow> (Inr (unwrap_or JNull (ro_value r)), w1))))"

definition evaluate_text :: "'w cdp_env \<Rightarrow> browser_manager \<Rightarrow> string \<Rightarrow> 'w \<Rightarrow> (string + string) \<times> 'w" where
  "evaluate_text env m script w =
     then_do (evaluate env m script w) (\<lambda>v w1. (Inr (unwrap_or [] (as_str v)), w1))"

definition get_url :: "'w cdp_env \<Rightarrow> browser_manager \<Rightarrow> 'w \<Rightarrow> (string + string) \<times> 'w" where
  "get_url env m w = evaluate_text env m ''location.href'' w"

definition get_title :: "'w cdp_env \<Rightarrow> browser_manager \<Rightarrow> 'w \<Rightarrow> (string + string) \<times> 'w" where
  "get_title env m w = evaluate_text env m ''document.title'' w"

definition get_content :: "'w cdp_env \<Rightarrow> browser_manager \<Rightarrow> 'w \<Rightarrow> (string + string) \<times> 'w" where
  "get_content env m w = evaluate_text env m ''document.documentElement.outerHTML'' w"

definition ok_value :: "'a \<Rightarrow> 'e + 'a \<Rightarrow> 'a" where
  "ok_value d r = (case r of Inl e \<Rightarrow> d | Inr x \<Rightarrow> x)"

text \<open>The address and title of the page, asked for after a navigation or a switch.\<close>

definition page_state :: "'w cdp_env \<Rightarrow> browser_manager \<Rightarrow> string \<Rightarrow> 'w \<Rightarrow> (string \<times> string) \<times> 'w" where
  "page_state env m url0 w =
     (case get_url env m w of (r, w1) \<Rightarrow>
        (case get_title env m w1 of (r', w2) \<Rightarrow> ((ok_value url0 r, ok_value [] r'), w2)))"

definition set_page_state :: "nat \<Rightarrow> string \<times> string \<Rightarrow> browser_manager \<Rightarrow> browser_manager" where
  "set_page_state i ut m =
     (case nth_opt (bm_pages m) i of
        Some p \<Rightarrow> m\<lparr>bm_pages := (bm_pages m)[i := p\<lparr>pg_url := fst ut, pg_title := snd ut\<rparr>]\<rparr>
      | None \<Rightarrow> m)"

definition visit_origin :: "'w cdp_env \<Rightarrow> string \<Rightarrow> browser_manager \<Rightarrow> browser_manager" where
  "visit_origin env url m =
     (case cd_url env url of
        Some u \<Rightarrow> (if up_origin u \<noteq> ''null'' then m\<lparr>bm_visited := insert (up_origin u) (bm_visited m)\<rparr> else m)
      | None \<Rightarrow> m)"

definition navigate ::
    "'w cdp_env \<Rightarrow> string \<Rightarrow> wait_until \<Rightarrow> browser_manager \<Rightarrow> 'w \<Rightarrow> (string + json) \<times> browser_manager \<times> 'w" where
  "navigate env url wu m w =
     (case active_session_id m of
        Inl e \<Rightarrow> (Inl e, m, w)
      | Inr sid \<Rightarrow>
          (case send_command_typed env ''Page.navigate'' (json_obj [(''url'', JStr url)]) sid decode_navigate w of
             (Inl e, w1) \<Rightarrow> (Inl e, m, w1)
           | (Inr nav, w1) \<Rightarrow>
               (case pn_error_text nav of
                  Some e \<Rightarrow> (Inl (''Navigation failed: '' @ e), m, w1)
                | None \<Rightarrow>
                    (case (if pn_loader_id nav \<noteq> None \<and> wu \<noteq> NoWait then cd_wait env wu sid w1 else (Inr (), w1)) of
                       (Inl e, w2) \<Rightarrow> (Inl e, m, w2)
                     | (Inr u, w2) \<Rightarrow>
                         (case page_state env m url w2 of
                            (ut, w3) \<Rightarrow>
                              (Inr (json_obj [(''url'', JStr (fst ut)), (''title'', JStr (snd ut))]),
                               set_page_state (bm_active m) ut (visit_origin env (fst ut) m), w3))))))"

subsection \<open>Opening, switching and closing tabs\<close>

definition tab_new ::
    "'w cdp_env \<Rightarrow> string option \<Rightarrow> string option \<Rightarrow> browser_manager \<Rightarrow> 'w \<Rightarrow> (string + json) \<times> browser_manager \<times> 'w" where
  "tab_new env url label m w =
     (case (case label of
              None \<Rightarrow> None
            | Some l \<Rightarrow>
                (if \<not> is_valid_label l then Some (invalid_label l)
                 else if has_label m l
                 then Some (''Label '' @ backquoted l @ '' is already used by another tab; labels must be unique within a session'')
                 else None)) of
        Some e \<Rightarrow> (Inl e, m, w)
      | None \<Rightarrow>
          (let target_url = unwrap_or ''about:blank'' url
           in case open_target env (json_obj [(''url'', JStr target_url)]) w of
                (Inl e, w1) \<Rightarrow> (Inl e, m, w1)
              | (Inr (tid, sid), w1) \<Rightarrow>
                  (case enable_domains env sid w1 of
                     (Inl e, w2) \<Rightarrow> (Inl e, m, w2)
                   | (Inr u, w2) \<Rightarrow>
                       (let m1 = (push_page label tid sid target_url [] ''page'' m)\<lparr>bm_active := length (bm_pages m)\<rparr>
                        in (Inr (json_obj
                              [(''tabId'', JStr (format_tab_id (bm_next_tab_id m))), (''label'', json_opt_str label),
                               (''url'', JStr target_url), (''total'', json_nat (length (bm_pages m1)))]), m1, w2)))))"

definition tab_switch ::
    "'w cdp_env \<Rightarrow> nat \<Rightarrow> browser_manager \<Rightarrow> 'w \<Rightarrow> (string + json) \<times> browser_manager \<times> 'w" where
  "tab_switch env i m w =
     (if length (bm_pages m) \<le> i
      then (Inl (''Tab index '' @ show_nat i @ '' out of range (0-'' @ show_nat (length (bm_pages m) - 1) @ '')''), m, w)
      else
        (let m1 = m\<lparr>bm_active := i\<rparr>; p = bm_pages m ! i; sid = pg_session_id p
         in case enable_domains env sid w of
              (Inl e, w1) \<Rightarrow> (Inl e, m1, w1)
            | (Inr u, w1) \<Rightarrow>
                (case page_state env m1 [] (send_quietly env ''Page.bringToFront'' None sid w1) of
                   (ut, w2) \<Rightarrow>
                     (Inr (json_obj
                        [(''tabId'', JStr (format_tab_id (pg_tab_id p))), (''label'', json_opt_str (pg_label p)),
                         (''url'', JStr (fst ut)), (''title'', JStr (snd ut))]),
                      set_page_state i ut m1, w2))))"

definition tab_close ::
    "'w cdp_env \<Rightarrow> nat option \<Rightarrow> browser_manager \<Rightarrow> 'w \<Rightarrow> (string + json) \<times> browser_manager \<times> 'w" where
  "tab_close env index m w =
     (let i = unwrap_or (bm_active m) index
      in if length (bm_pages m) \<le> i then (Inl (''Tab index '' @ show_nat i @ '' out of range''), m, w)
         else if length (bm_pages m) \<le> 1 then (Inl ''Cannot close the last tab'', m, w)
         else
           (let p = bm_pages m ! i; m1 = remove_page i m;
                w1 = send_quietly env ''Target.closeTarget'' (Some (json_obj [(''targetId'', JStr (pg_target_id p))])) no_session w
            in case enable_domains env (pg_session_id (bm_pages m1 ! bm_active m1)) w1 of
                 (Inl e, w2) \<Rightarrow> (Inl e, m1, w2)
               | (Inr u, w2) \<Rightarrow>
                   (Inr (json_obj
                      [(''tabId'', JStr (format_tab_id (pg_tab_id p))), (''label'', json_opt_str (pg_label p)),
                       (''closed'', JBool True)]), m1, w2)))"

definition tab_position :: "browser_manager \<Rightarrow> 32 word \<Rightarrow> string + nat" where
  "tab_position m i =
     ok_or (''Tab ID '' @ show_nat (unat i) @ '' not found'') (position (\<lambda>p. pg_tab_id p = i) (bm_pages m))"

definition tab_switch_by_id ::
    "'w cdp_env \<Rightarrow> 32 word \<Rightarrow> browser_manager \<Rightarrow> 'w \<Rightarrow> (string + json) \<times> browser_manager \<times> 'w" where
  "tab_switch_by_id env i m w =
     (case tab_position m i of Inl e \<Rightarrow> (Inl e, m, w) | Inr k \<Rightarrow> tab_switch env k m w)"

definition tab_close_by_id ::
    "'w cdp_env \<Rightarrow> 32 word option \<Rightarrow> browser_manager \<Rightarrow> 'w \<Rightarrow> (string + json) \<times> browser_manager \<times> 'w" where
  "tab_close_by_id env i m w =
     (case i of
        None \<Rightarrow> tab_close env None m w
      | Some t \<Rightarrow> (case tab_position m t of Inl e \<Rightarrow> (Inl e, m, w) | Inr k \<Rightarrow> tab_close env (Some k) m w))"

end
