(* ===== verification/Browser_Events.thy ===== *)
theory Browser_Events
  imports Action_Gate Browser_Tabs "HOL-Library.AList"
begin

section \<open>The daemon's side of the tabs\<close>

text \<open>
  \<open>agent-browser/src/native/actions.rs\<close>: the handlers of the tab commands and of the other commands
  that open or navigate a tab (\<open>navigate\<close>, \<open>click --new-tab\<close>, \<open>recording_start\<close>), and what the daemon does
  before each command with the events the browser has sent meanwhile (\<open>drain_cdp_events\<close>,
  \<open>apply_drained_events\<close>): pages that were opened, renamed or closed, frames of other origins, console
  messages, exceptions, requests for the HAR recording and for the request list, dialogs. The daemon
  state holds the fields these functions use; \<open>td_world\<close> is everything outside.
\<close>

subsection \<open>State\<close>

record cdp_event =
  ev_method :: string
  ev_params :: json
  ev_session :: "string option"

text \<open>What \<open>try_recv\<close> gives until it says that the channel is empty.\<close>

datatype received = Received cdp_event | Lagged nat | Closed

record har_entry =
  he_request_id :: string
  he_wall_time :: "64 word"
  he_method :: string
  he_url :: string
  he_request_headers :: "(string \<times> string) list"
  he_post_data :: "string option"
  he_request_body_size :: int
  he_resource_type :: string
  he_status :: "int option"
  he_status_text :: string
  he_http_version :: string
  he_response_headers :: "(string \<times> string) list"
  he_mime_type :: string
  he_redirect_url :: string
  he_response_body_size :: int
  he_cdp_timing :: "json option"
  he_finished :: "64 word option"

record tracked_request =
  tr_url :: string
  tr_method :: string
  tr_headers :: json
  tr_timestamp :: nat
  tr_resource_type :: string
  tr_request_id :: string
  tr_post_data :: "string option"
  tr_status :: "int option"
  tr_response_headers :: "json option"
  tr_mime_type :: "string option"

record pending_dialog =
  pd_type :: string
  pd_message :: string
  pd_url :: string
  pd_default_prompt :: "string option"

record 'w tab_daemon =
  td_browser :: "browser_manager option"
  td_refs :: ref_map
  td_iframes :: "(string \<times> string) list"
  td_frame :: "string option"
  td_viewport :: "(32 word \<times> 32 word) option"
  td_filter :: "domain_filter option"
  td_view :: "(32 word \<times> 32 word \<times> json \<times> bool) option"
  td_origin_headers :: "(string \<times> (string \<times> string) list) list"
  td_proxy_credentials :: bool
  td_har_recording :: bool
  td_request_tracking :: bool
  td_auto_dialog :: bool
  td_tracker :: event_tracker
  td_har :: "har_entry list"
  td_requests :: "tracked_request list"
  td_dialog :: "pending_dialog option"
  td_subscribed :: bool
  td_world :: 'w

record 'w tab_env = "'w cdp_env" +
  te_net :: net_env
  te_f64 :: "json_num \<Rightarrow> 64 word"
  te_millis :: "'w \<Rightarrow> nat \<times> 'w"
  te_console :: "string \<Rightarrow> string \<Rightarrow> json list \<Rightarrow> 'w \<Rightarrow> 'w"
  te_page_error :: "error_entry \<Rightarrow> 'w \<Rightarrow> 'w"
  te_filter_script :: "string list \<Rightarrow> string"
  te_resolve :: "string \<Rightarrow> string \<Rightarrow> ref_map \<Rightarrow> (string \<times> string) list \<Rightarrow> 'w \<Rightarrow> (string + string \<times> string) \<times> 'w"
  te_click :: "string \<Rightarrow> string \<Rightarrow> string \<Rightarrow> 32 word \<Rightarrow> ref_map \<Rightarrow> (string \<times> string) list \<Rightarrow> 'w \<Rightarrow> (string + unit) \<times> 'w"
  te_recording :: "string \<Rightarrow> string \<Rightarrow> 'w \<Rightarrow> (string + json) \<times> 'w"
  te_download_path :: "string option"
  te_ignore_https_errors :: bool
  te_handler :: "string \<Rightarrow> json \<Rightarrow> 'w tab_daemon \<Rightarrow> (string + json) \<times> 'w tab_daemon"

text \<open>\<open>stream_server\<close> is there exactly when the viewport it serves is (\<open>td_viewport\<close>); \<open>td_view\<close> is the
  viewport set for the browser, with its scale as a JSON number. Of \<open>tab_env\<close>, \<open>te_resolve\<close> and
  \<open>te_click\<close> stand for \<open>native/element.rs\<close> and \<open>native/interaction.rs\<close> (the object a selector names, and
  the click), \<open>te_recording\<close> for \<open>native/recording.rs\<close>, \<open>te_download_path\<close> and \<open>te_ignore_https_errors\<close> for the
  fields of the manager that the launch sets, and \<open>te_handler\<close> for the handlers that are not here.\<close>

definition with_manager ::
    "(browser_manager \<Rightarrow> 'w \<Rightarrow> ('e + 'a) \<times> browser_manager \<times> 'w) \<Rightarrow> browser_manager \<Rightarrow> 'w tab_daemon
     \<Rightarrow> ('e + 'a) \<times> 'w tab_daemon" where
  "with_manager f m st = (case f m (td_world st) of (r, m1, w) \<Rightarrow> (r, st\<lparr>td_browser := Some m1, td_world := w\<rparr>))"

definition forget_page :: "'w tab_daemon \<Rightarrow> 'w tab_daemon" where
  "forget_page st = st\<lparr>td_refs := ref_clear (td_refs st), td_iframes := [], td_frame := None\<rparr>"

definition get_str :: "json \<Rightarrow> string \<Rightarrow> string option" where
  "get_str j k = Option.bind (json_get j k) as_str"

definition get_i64 :: "json \<Rightarrow> string \<Rightarrow> int option" where
  "get_i64 j k = Option.bind (json_get j k) as_i64"

definition not_launched :: "string" where
  "not_launched = ''Browser not launched''"

subsection \<open>Handlers of the tab commands\<close>

definition handle_tab_list :: "'w tab_daemon \<Rightarrow> string + json" where
  "handle_tab_list st =
     (case td_browser st of
        None \<Rightarrow> Inl not_launched
      | Some m \<Rightarrow> Inr (json_obj [(''tabs'', JArr (tab_list m))]))"

definition handle_tab_new :: "'w tab_env \<Rightarrow> json \<Rightarrow> 'w tab_daemon \<Rightarrow> (string + json) \<times> 'w tab_daemon" where
  "handle_tab_new env cmd st =
     (case td_browser st of
        None \<Rightarrow> (Inl not_launched, st)
      | Some m \<Rightarrow> with_manager (tab_new (cdp_env.truncate env) (get_str cmd ''url'') (get_str cmd ''label'')) m (forget_page st))"

text \<open>After a switch the viewport of the page is read, for the stream server: a text of two numbers
  in the field \<open>result\<close> of the value of the script.\<close>

definition viewport_script :: string where
  "viewport_script = ''JSON.stringify([window.innerWidth,window.innerHeight])''"

definition viewport_of :: "serde_json \<Rightarrow> json \<Rightarrow> (32 word \<times> 32 word) option" where
  "viewport_of sj dims =
     (case get_str dims ''result'' of
        None \<Rightarrow> None
      | Some s \<Rightarrow>
          (case and_then (de_str sj s) (\<lambda>j. map_err (de_msg sj) (dec_vec dec_u32 j)) of
             Inr [w, h] \<Rightarrow> (if 0 < w \<and> 0 < h then Some (of_nat w, of_nat h) else None)
           | _ \<Rightarrow> None))"

definition sync_viewport :: "'w tab_env \<Rightarrow> 'w tab_daemon \<Rightarrow> 'w tab_daemon" where
  "sync_viewport env st =
     (case (td_viewport st, td_browser st) of
        (Some v, Some m) \<Rightarrow>
          (case evaluate (cdp_env.truncate env) m viewport_script (td_world st) of
             (Inl e, w) \<Rightarrow> st\<lparr>td_world := w\<rparr>
           | (Inr dims, w) \<Rightarrow>
               (case viewport_of (cd_serde env) dims of
                  None \<Rightarrow> st\<lparr>td_world := w\<rparr>
                | Some v' \<Rightarrow> st\<lparr>td_world := w, td_viewport := Some v'\<rparr>))
      | _ \<Rightarrow> st)"

definition handle_tab_switch :: "'w tab_env \<Rightarrow> json \<Rightarrow> 'w tab_daemon \<Rightarrow> (string + json) \<times> 'w tab_daemon" where
  "handle_tab_switch env cmd st =
     (case td_browser st of
        None \<Rightarrow> (Inl not_launched, st)
      | Some m \<Rightarrow>
          (case get_str cmd ''tabId'' of
             None \<Rightarrow> (Inl (''Missing '' @ quoted ''tabId'' @ '' parameter (expected '' @ backquoted ''t<N>'' @ '' or a label)''), st)
           | Some s \<Rightarrow>
               (case and_then (tab_ref_parse s) (resolve_tab_ref m) of
                  Inl e \<Rightarrow> (Inl e, st)
                | Inr i \<Rightarrow>
                    (case with_manager (tab_switch_by_id (cdp_env.truncate env) i) m (forget_page st) of
                       (Inl e, st1) \<Rightarrow> (Inl e, st1)
                     | (Inr v, st1) \<Rightarrow> (Inr v, sync_viewport env st1)))))"

definition handle_tab_close :: "'w tab_env \<Rightarrow> json \<Rightarrow> 'w tab_daemon \<Rightarrow> (string + json) \<times> 'w tab_daemon" where
  "handle_tab_close env cmd st =
     (case td_browser st of
        None \<Rightarrow> (Inl not_launched, st)
      | Some m \<Rightarrow>
          (case (case get_str cmd ''tabId'' of
                   None \<Rightarrow> Inr None
                 | Some s \<Rightarrow> and_then (and_then (tab_ref_parse s) (resolve_tab_ref m)) (\<lambda>i. Inr (Some i))) of
             Inl e \<Rightarrow> (Inl e, st)
           | Inr i \<Rightarrow> with_manager (tab_close_by_id (cdp_env.truncate env) i) m (forget_page st)))"

text \<open>\<open>set_viewport\<close> of the manager, for integral scale factors given as JSON.\<close>

definition set_viewport ::
    "'w cdp_env \<Rightarrow> 32 word \<Rightarrow> 32 word \<Rightarrow> json \<Rightarrow> bool \<Rightarrow> browser_manager \<Rightarrow> 'w \<Rightarrow> (string + unit) \<times> 'w" where
  "set_viewport env width height scale mobile m w =
     (let size = (\<lambda>x. JNum (if 0 \<le> sint x then PosInt (nat (sint x)) else NegInt (sint (x :: 32 word))))
      in case active_session_id m of
           Inl e \<Rightarrow> (Inl e, w)
         | Inr sid \<Rightarrow>
             then_do (cd_send env ''Emulation.setDeviceMetricsOverride''
                (Some (json_obj [(''width'', size width), (''height'', size height), (''deviceScaleFactor'', scale),
                                 (''mobile'', JBool mobile)])) sid w)
               (\<lambda>_ w1.
                 (case active_target_id m of
                    Inl e \<Rightarrow> (Inr (), w1)
                  | Inr tid \<Rightarrow>
                      (case cd_send env ''Browser.getWindowForTarget'' (Some (json_obj [(''targetId'', JStr tid)])) no_session w1 of
                         (Inl e, w2) \<Rightarrow> (Inr (), w2)
                       | (Inr info, w2) \<Rightarrow>
                           (case json_get info ''windowId'' of
                              Some (JNum n) \<Rightarrow>
                                (if as_i64 (JNum n) \<noteq> None
                                 then (Inr (), send_quietly env ''Browser.setContentsSize''
                                        (Some (json_obj [(''windowId'', JNum n), (''width'', size width), (''height'', size height)]))
                                        no_session w2)
                                 else (Inr (), w2))
                            | _ \<Rightarrow> (Inr (), w2))))))"

definition handle_window_new :: "'w tab_env \<Rightarrow> json \<Rightarrow> 'w tab_daemon \<Rightarrow> (string + json) \<times> 'w tab_daemon" where
  "handle_window_new env0 cmd st =
     (let env = cdp_env.truncate env0
      in case td_browser st of
           None \<Rightarrow> (Inl not_launched, st)
         | Some m \<Rightarrow>
             (case then_do (send_command_no_params env ''Target.createBrowserContext'' no_session (td_world st))
                    (\<lambda>v w1. (ok_or ''Failed to create browser context'' (get_str v ''browserContextId''), w1)) of
                (Inl e, w1) \<Rightarrow> (Inl e, st\<lparr>td_world := w1\<rparr>)
              | (Inr context, w1) \<Rightarrow>
                  (case open_target env (json_obj [(''url'', JStr ''about:blank''), (''browserContextId'', JStr context)]) w1 of
                     (Inl e, w2) \<Rightarrow> (Inl e, st\<lparr>td_world := w2\<rparr>)
                   | (Inr (tid, sid), w2) \<Rightarrow>
                       (let m1 = (push_page None tid sid ''about:blank'' [] ''page'' m)\<lparr>bm_active := length (bm_pages m)\<rparr>;
                            st1 = st\<lparr>td_browser := Some m1, td_world := w2\<rparr>;
                            answer = json_obj [(''tabId'', JStr (format_tab_id (bm_next_tab_id m))),
                                               (''total'', json_nat (length (bm_pages m1)))]
                        in case json_get cmd ''viewport'' of
                             None \<Rightarrow> (Inr answer, st1\<lparr>td_refs := ref_clear (td_refs st1)\<rparr>)
                           | Some v \<Rightarrow>
                               (let width = word_of_int (unwrap_or 1280 (get_i64 v ''width''));
                                    height = word_of_int (unwrap_or 720 (get_i64 v ''height''))
                                in case set_viewport env width height (JNum (FloatBits 0x3FF0000000000000)) False m1 w2 of
                                     (Inl e, w3) \<Rightarrow> (Inl e, st1\<lparr>td_world := w3\<rparr>)
                                   | (Inr u, w3) \<Rightarrow>
                                       (Inr answer,
                                        st1\<lparr>td_world := w3, td_refs := ref_clear (td_refs st1),
                                            td_viewport := map_option (\<lambda>_. (width, height)) (td_viewport st1)\<rparr>))))))"

subsection \<open>Navigation, links in a new tab, recordings\<close>

text \<open>\<open>--headers\<close> of a navigation are kept under the origin of the address; the first ones switch the
  interception of requests on.\<close>

definition scope_headers ::
    "'w tab_env \<Rightarrow> string \<Rightarrow> json option \<Rightarrow> browser_manager \<Rightarrow> 'w tab_daemon \<Rightarrow> (string + unit) \<times> 'w tab_daemon" where
  "scope_headers env url headers m st =
     (case headers of
        Some (JObj hs) \<Rightarrow>
          (if hs = [] then (Inr (), st)
           else case cd_url env url of
             None \<Rightarrow> (Inr (), st)
           | Some parts \<Rightarrow>
               (let kept = List.map_filter (\<lambda>(k, v). map_option (Pair k) (as_str v)) hs;
                    st1 = st\<lparr>td_origin_headers := AList.update (up_origin parts) kept (td_origin_headers st)\<rparr>
                in if td_origin_headers st \<noteq> [] then (Inr (), st1)
                   else case active_session_id m of
                     Inl e \<Rightarrow> (Inl e, st1)
                   | Inr sid \<Rightarrow>
                       (case cd_send env ''Fetch.enable''
                               (Some (set_when (td_proxy_credentials st) ''handleAuthRequests'' (JBool True)
                                  (json_obj [(''patterns'', JArr [json_obj [(''urlPattern'', JStr ''*'')]])])))
                               sid (td_world st1) of
                          (Inl e, w) \<Rightarrow> (Inl e, st1\<lparr>td_world := w\<rparr>)
                        | (Inr v, w) \<Rightarrow> (Inr (), st1\<lparr>td_world := w\<rparr>))))
      | _ \<Rightarrow> (Inr (), st))"

definition handle_navigate :: "'w tab_env \<Rightarrow> json \<Rightarrow> 'w tab_daemon \<Rightarrow> (string + json) \<times> 'w tab_daemon" where
  "handle_navigate env cmd st =
     (case get_str cmd ''url'' of
        None \<Rightarrow> (Inl (''Missing '' @ quoted ''url'' @ '' parameter''), st)
      | Some url \<Rightarrow>
          (case (case td_filter st of None \<Rightarrow> Inr () | Some f \<Rightarrow> check_url (te_net env) f url) of
             Inl e \<Rightarrow> (Inl e, st)
           | Inr u \<Rightarrow>
               (case td_browser st of
                  None \<Rightarrow> (Inl not_launched, st)
                | Some m \<Rightarrow>
                    (case scope_headers env url (json_get cmd ''headers'') m st of
                       (Inl e, st1) \<Rightarrow> (Inl e, st1)
                     | (Inr u, st1) \<Rightarrow>
                         with_manager (navigate (cdp_env.truncate env) url
                             (case get_str cmd ''waitUntil'' of None \<Rightarrow> Load | Some s \<Rightarrow> wait_until_from_str s))
                           m (forget_page st1)))))"

definition href_function :: string where
  "href_function =
     ''function() { var h = this.getAttribute('' @ quoted ''href'' @ ''); if (!h) return null; try { return new URL(h, ''
     @ ''document.baseURI).toString(); } catch(e) { return null; } }''"

definition handle_click :: "'w tab_env \<Rightarrow> json \<Rightarrow> 'w tab_daemon \<Rightarrow> (string + json) \<times> 'w tab_daemon" where
  "handle_click env cmd st =
     (case get_str cmd ''selector'' of
        None \<Rightarrow> (Inl (''Missing '' @ quoted ''selector'' @ '' parameter''), st)
      | Some selector \<Rightarrow>
     (case td_browser st of
        None \<Rightarrow> (Inl not_launched, st)
      | Some m \<Rightarrow>
     (case active_session_id m of
        Inl e \<Rightarrow> (Inl e, st)
      | Inr sid \<Rightarrow>
          (if unwrap_or False (Option.bind (json_get cmd ''newTab'') as_bool)
           then (case then_do (te_resolve env sid selector (td_refs st) (td_iframes st) (td_world st))
                        (\<lambda>(oid, osid) w1. then_do (cd_send env ''Runtime.callFunctionOn''
                             (Some (json_obj [(''objectId'', JStr oid), (''functionDeclaration'', JStr href_function),
                                              (''returnByValue'', JBool True)])) osid w1)
                        (\<lambda>v w2. (ok_or (''Element '' @ quoted selector
                                     @ '' does not have an href attribute. --new-tab only works on links.'')
                                   (Option.bind (Option.bind (json_get v ''result'') (\<lambda>r. json_get r ''value'')) as_str), w2))) of
                   (Inl e, w2) \<Rightarrow> (Inl e, st\<lparr>td_world := w2\<rparr>)
                 | (Inr href, w2) \<Rightarrow>
                     (case with_manager (tab_new (cdp_env.truncate env) (Some href) None) m
                             (st\<lparr>td_world := w2, td_refs := ref_clear (td_refs st)\<rparr>) of
                        (Inl e, st1) \<Rightarrow> (Inl e, st1)
                      | (Inr v, st1) \<Rightarrow>
                          (Inr (json_obj [(''clicked'', JStr selector), (''newTab'', JBool True), (''url'', JStr href)]), st1)))
           else (case te_click env sid selector (unwrap_or ''left'' (get_str cmd ''button''))
                        (word_of_int (unwrap_or 1 (get_i64 cmd ''clickCount''))) (td_refs st) (td_iframes st) (td_world st) of
                   (Inl e, w) \<Rightarrow> (Inl e, st\<lparr>td_world := w\<rparr>)
                 | (Inr u, w) \<Rightarrow> (Inr (json_obj [(''clicked'', JStr selector)]), st\<lparr>td_world := w\<rparr>))))))"

text \<open>A recording has a page of its own in a fresh context, with the cookies of the active page. First
  what is done before the page is added to the tabs.\<close>

definition recording_page ::
    "'w tab_env \<Rightarrow> string option \<Rightarrow> browser_manager \<Rightarrow> 'w \<Rightarrow> (string + string \<times> string \<times> string) \<times> 'w" where
  "recording_page env0 url m w =
     (let env = cdp_env.truncate env0
      in case active_session_id m of
        Inl e \<Rightarrow> (Inl e, w)
      | Inr old \<Rightarrow>
          (case (case url of Some u \<Rightarrow> (u, w) | None \<Rightarrow> apfst (ok_value ''about:blank'') (get_url env m w)) of (nav, w1) \<Rightarrow>
          (case send_command_no_params env ''Network.getAllCookies'' old w1 of (cookies, w2) \<Rightarrow>
             then_do (send_command_no_params env ''Target.createBrowserContext'' no_session w2) (\<lambda>c w3.
             then_do (ok_or ''Failed to get browserContextId'' (get_str c ''browserContextId''), w3) (\<lambda>context w3.
             then_do (open_target env (json_obj [(''url'', JStr ''about:blank''), (''browserContextId'', JStr context)]) w3)
               (\<lambda>(tid, sid) w4.
             then_do (enable_domains env sid w4) (\<lambda>_ w5.
               (let w6 = (case te_download_path env0 of
                            None \<Rightarrow> w5
                          | Some d \<Rightarrow> send_quietly env ''Browser.setDownloadBehavior''
                              (Some (json_obj [(''behavior'', JStr ''allow''), (''downloadPath'', JStr d),
                                 (''browserContextId'', JStr context), (''eventsEnabled'', JBool True)])) no_session w5);
                    w7 = (if te_ignore_https_errors env0
                          then send_quietly env ''Security.setIgnoreCertificateErrors''
                                 (Some (json_obj [(''ignore'', JBool True)])) sid w6
                          else w6);
                    w8 = (case cookies of
                            Inl e \<Rightarrow> w7
                          | Inr r \<Rightarrow>
                              (case Option.bind (json_get r ''cookies'') as_array of
                                 None \<Rightarrow> w7
                               | Some cs \<Rightarrow>
                                   (if cs = [] then w7
                                    else send_quietly env ''Network.setCookies''
                                           (Some (json_obj [(''cookies'', JArr cs)])) sid w7)))
                in (Inr (tid, sid, nav), w8))))))))) "

definition handle_recording_start :: "'w tab_env \<Rightarrow> json \<Rightarrow> 'w tab_daemon \<Rightarrow> (string + json) \<times> 'w tab_daemon" where
  "handle_recording_start env cmd st =
     (case get_str cmd ''path'' of
        None \<Rightarrow> (Inl (''Missing '' @ quoted ''path'' @ '' parameter''), st)
      | Some path \<Rightarrow>
     (case td_browser st of
        None \<Rightarrow> (Inl not_launched, st)
      | Some m \<Rightarrow>
     (case recording_page env (case get_str cmd ''url'' of Some u \<Rightarrow> (if u = [] then None else Some u) | None \<Rightarrow> None)
             m (td_world st) of
        (Inl e, w) \<Rightarrow> (Inl e, st\<lparr>td_world := w\<rparr>)
      | (Inr (tid, sid, nav), w) \<Rightarrow>
          (let m1 = (push_page None tid sid nav [] ''page'' m)\<lparr>bm_active := length (bm_pages m)\<rparr>;
               w1 = (case td_view st of
                       None \<Rightarrow> w
                     | Some (x, y, scale, mobile) \<Rightarrow> snd (set_viewport (cdp_env.truncate env) x y scale mobile m1 w));
               w2 = (if nav = ''about:blank'' then w1
                     else send_quietly (cdp_env.truncate env) ''Page.navigate'' (Some (json_obj [(''url'', JStr nav)])) sid w1)
           in case te_recording env path sid w2 of
                (r, w3) \<Rightarrow> (r, st\<lparr>td_browser := Some m1, td_world := w3\<rparr>)))))"

subsection \<open>Events since the last command\<close>

record drained_events =
  de_acks :: "int list"
  de_new :: "target_info list"
  de_new_ids :: "string list"
  de_changed :: "target_info list"
  de_destroyed :: "string list"
  de_attached :: "(string \<times> string) list"
  de_detached :: "string list"

definition no_events :: drained_events where
  "no_events =
     \<lparr>de_acks = [], de_new = [], de_new_ids = [], de_changed = [], de_destroyed = [], de_attached = [], de_detached = []\<rparr>"

definition tracked :: "'w tab_daemon \<Rightarrow> bool \<Rightarrow> string \<Rightarrow> bool" where
  "tracked st unlaunched tid = (case td_browser st of None \<Rightarrow> unlaunched | Some m \<Rightarrow> has_target m tid)"

definition new_target :: "target_info \<Rightarrow> drained_events \<Rightarrow> drained_events" where
  "new_target t dr = dr\<lparr>de_new := de_new dr @ [t], de_new_ids := ti_target_id t # de_new_ids dr\<rparr>"

text \<open>The events about targets, which belong to no session. \<open>None\<close>: it is another event.\<close>

definition target_event :: "'w tab_daemon \<Rightarrow> cdp_event \<Rightarrow> drained_events \<Rightarrow> drained_events option" where
  "target_event st ev dr =
     (let p = ev_params ev
      in if ev_method ev = ''Target.targetCreated''
         then Some (case decode_created_event p of
                Inl e \<Rightarrow> dr
              | Inr t \<Rightarrow>
                  (if should_track_target t \<and> \<not> tracked st True (ti_target_id t) then new_target t dr else dr))
         else if ev_method ev = ''Target.targetInfoChanged''
         then Some (case decode_changed_event p of
                Inl e \<Rightarrow> dr
              | Inr t \<Rightarrow>
                  (if \<not> should_track_target t then dr
                   else if tracked st False (ti_target_id t) \<or> ti_target_id t \<in> set (de_new_ids dr)
                   then dr\<lparr>de_changed := de_changed dr @ [t]\<rparr>
                   else new_target t dr))
         else if ev_method ev = ''Target.targetDestroyed''
         then Some (case decode_destroyed_event p of
                Inl e \<Rightarrow> dr
              | Inr tid \<Rightarrow> dr\<lparr>de_destroyed := de_destroyed dr @ [tid]\<rparr>)
         else if ev_method ev = ''Target.attachedToTarget''
         then Some (case (get_str p ''sessionId'', json_get p ''targetInfo'') of
                (Some sid, Some info) \<Rightarrow>
                  (if unwrap_or [] (get_str info ''type'') = ''iframe''
                   then (case get_str info ''targetId'' of
                           Some tid \<Rightarrow> dr\<lparr>de_attached := de_attached dr @ [(tid, sid)]\<rparr>
                         | None \<Rightarrow> dr)
                   else dr)
              | _ \<Rightarrow> dr)
         else if ev_method ev = ''Target.detachedFromTarget''
         then Some (case get_str p ''sessionId'' of
                Some sid \<Rightarrow> dr\<lparr>de_detached := de_detached dr @ [sid]\<rparr>
              | None \<Rightarrow> dr)
         else None)"

text \<open>The last element that matches, changed in place (\<open>iter_mut().rev().find\<close>).\<close>

definition update_last :: "('a \<Rightarrow> bool) \<Rightarrow> ('a \<Rightarrow> 'a) \<Rightarrow> 'a list \<Rightarrow> 'a list" where
  "update_last P f xs = rev (update_first P f (rev xs))"

definition har_extract_headers :: "json option \<Rightarrow> (string \<times> string) list" where
  "har_extract_headers h =
     (case h of
        Some (JObj m) \<Rightarrow> map (\<lambda>(k, v). (k, unwrap_or [] (as_str v))) m
      | _ \<Rightarrow> [])"

definition har_cdp_protocol_to_http_version :: "string \<Rightarrow> string" where
  "har_cdp_protocol_to_http_version p =
     (let l = to_ascii_lowercase p
      in if l = ''h2'' then ''HTTP/2.0'' else if l = ''h3'' then ''HTTP/3.0''
         else if l = ''http/1.0'' then ''HTTP/1.0'' else ''HTTP/1.1'')"

definition get_f64 :: "'w tab_env \<Rightarrow> json \<Rightarrow> string \<Rightarrow> 64 word option" where
  "get_f64 env j k = (case json_get j k of Some (JNum n) \<Rightarrow> Some (te_f64 env n) | _ \<Rightarrow> None)"

text \<open>A console message and an exception: told to the stream server, when there is one, and recorded.\<close>

definition on_stream :: "('w \<Rightarrow> 'w) \<Rightarrow> 'w tab_daemon \<Rightarrow> 'w tab_daemon" where
  "on_stream f st = (if td_viewport st = None then st else st\<lparr>td_world := f (td_world st)\<rparr>)"

definition console_event :: "'w tab_env \<Rightarrow> json \<Rightarrow> 'w tab_daemon \<Rightarrow> 'w tab_daemon" where
  "console_event env p st =
     (let level = unwrap_or ''log'' (get_str p ''type'');
          args = unwrap_or [] (Option.bind (json_get p ''args'') as_array);
          line = format_console_args (te_net env) args
      in (on_stream (te_console env level line args) st)
           \<lparr>td_tracker := add_console \<lparr>ce_level = level, ce_text = line, ce_args = args\<rparr> (td_tracker st)\<rparr>)"

definition decode_exception_event :: "json \<Rightarrow> de_error + exception_details" where
  "decode_exception_event j =
     and_then (struct_source ''struct ExceptionThrownEvent with 2 elements'' [''timestamp'', ''exceptionDetails''] j) (\<lambda>src.
     and_then (visit_entries
        (\<lambda>k v. if k = ''timestamp'' then (case v of JNum n \<Rightarrow> None | _ \<Rightarrow> Some (de_error.InvalidType v ''f64''))
               else if k = ''exceptionDetails'' then error_of (decode_exception v)
               else None) src) (\<lambda>_.
     and_then (req_field src ''timestamp'' (\<lambda>v. case v of JNum n \<Rightarrow> Inr n | _ \<Rightarrow> Inl (de_error.InvalidType v ''f64''))) (\<lambda>_.
       req_field src ''exceptionDetails'' decode_exception)))"

definition exception_event :: "'w tab_env \<Rightarrow> json \<Rightarrow> 'w tab_daemon \<Rightarrow> 'w tab_daemon" where
  "exception_event env p st =
     (case decode_exception_event p of
        Inl e \<Rightarrow> st
      | Inr d \<Rightarrow>
          (let x = \<lparr>ee_text = exception_text d, ee_url = None, ee_line = xd_line d, ee_column = xd_column d\<rparr>
           in (on_stream (te_page_error env x) st)\<lparr>td_tracker := add_error x (td_tracker st)\<rparr>))"

text \<open>Requests, for the recording and for the list of requests.\<close>

definition request_event :: "'w tab_env \<Rightarrow> json \<Rightarrow> 'w tab_daemon \<Rightarrow> 'w tab_daemon" where
  "request_event env p st =
     (case json_get p ''request'' of
        None \<Rightarrow> st
      | Some r \<Rightarrow>
          (let method = unwrap_or ''GET'' (get_str r ''method''); url = unwrap_or [] (get_str r ''url'');
               rid = unwrap_or [] (get_str p ''requestId''); kind = unwrap_or ''Other'' (get_str p ''type'');
               post = get_str r ''postData'';
               st1 = (if \<not> td_har_recording st then st
                 else st\<lparr>td_har := td_har st @
                   [\<lparr>he_request_id = rid, he_wall_time = unwrap_or 0 (get_f64 env p ''wallTime''), he_method = method,
                     he_url = url, he_request_headers = har_extract_headers (json_get r ''headers''), he_post_data = post,
                     he_request_body_size = (case post of Some s \<Rightarrow> int (length s) | None \<Rightarrow> 0), he_resource_type = kind,
                     he_status = None, he_status_text = [], he_http_version = ''HTTP/1.1'', he_response_headers = [],
                     he_mime_type = [], he_redirect_url = [], he_response_body_size = - 1, he_cdp_timing = None,
                     he_finished = None\<rparr>]\<rparr>)
           in if \<not> td_request_tracking st then st1
              else (case te_millis env (td_world st1) of (now, w) \<Rightarrow>
                st1\<lparr>td_world := w, td_requests := td_requests st1 @
                   [\<lparr>tr_url = url, tr_method = method, tr_headers = unwrap_or (json_obj []) (json_get r ''headers''),
                     tr_timestamp = now, tr_resource_type = kind, tr_request_id = rid, tr_post_data = post,
                     tr_status = None, tr_response_headers = None, tr_mime_type = None\<rparr>]\<rparr>)))"

definition response_event :: "json \<Rightarrow> 'w tab_daemon \<Rightarrow> 'w tab_daemon" where
  "response_event p st =
     (case json_get p ''response'' of
        None \<Rightarrow> st
      | Some r \<Rightarrow>
          (let rid = unwrap_or [] (get_str p ''requestId''); status = get_i64 r ''status'';
               headers = har_extract_headers (json_get r ''headers'');
               st1 = (if \<not> td_har_recording st then st
                 else st\<lparr>td_har := update_last (\<lambda>e. he_request_id e = rid)
                   (\<lambda>e. e\<lparr>he_status := status, he_status_text := unwrap_or [] (get_str r ''statusText''),
                     he_mime_type := unwrap_or [] (get_str r ''mimeType''),
                     he_http_version := (case get_str r ''protocol'' of
                        Some q \<Rightarrow> har_cdp_protocol_to_http_version q | None \<Rightarrow> ''HTTP/1.1''),
                     he_response_headers := headers,
                     he_redirect_url := (case List.find (\<lambda>(k, v). eq_ignore_ascii_case k ''location'') headers of
                        Some kv \<Rightarrow> snd kv | None \<Rightarrow> []),
                     he_response_body_size := unwrap_or (- 1) (get_i64 r ''encodedDataLength''),
                     he_cdp_timing := json_get r ''timing''\<rparr>) (td_har st)\<rparr>)
           in if \<not> td_request_tracking st then st1
              else st1\<lparr>td_requests := update_last (\<lambda>e. tr_request_id e = rid)
                   (\<lambda>e. e\<lparr>tr_status := status, tr_mime_type := get_str r ''mimeType'',
                     tr_response_headers := json_get r ''headers''\<rparr>) (td_requests st1)\<rparr>))"

definition finished_event :: "'w tab_env \<Rightarrow> json \<Rightarrow> 'w tab_daemon \<Rightarrow> 'w tab_daemon" where
  "finished_event env p st =
     st\<lparr>td_har := update_last (\<lambda>e. he_request_id e = unwrap_or [] (get_str p ''requestId''))
          (\<lambda>e. e\<lparr>he_finished := (case get_f64 env p ''timestamp'' of Some t \<Rightarrow> Some t | None \<Rightarrow> he_finished e),
                 he_response_body_size := unwrap_or (he_response_body_size e) (get_i64 p ''encodedDataLength'')\<rparr>)
          (td_har st)\<rparr>"

definition failed_event :: "'w tab_env \<Rightarrow> json \<Rightarrow> 'w tab_daemon \<Rightarrow> 'w tab_daemon" where
  "failed_event env p st =
     st\<lparr>td_har := update_last (\<lambda>e. he_request_id e = unwrap_or [] (get_str p ''requestId''))
          (\<lambda>e. (if he_status e = None
                then e\<lparr>he_status := Some 0, he_status_text := unwrap_or ''Failed'' (get_str p ''errorText'')\<rparr> else e)
             \<lparr>he_finished := (case get_f64 env p ''timestamp'' of Some t \<Rightarrow> Some t | None \<Rightarrow> he_finished e)\<rparr>)
          (td_har st)\<rparr>"

definition decode_dialog_event :: "json \<Rightarrow> de_error + pending_dialog" where
  "decode_dialog_event j =
     and_then (struct_source ''struct JavascriptDialogOpeningEvent with 4 elements''
        [''url'', ''message'', ''type'', ''defaultPrompt''] j) (\<lambda>src.
     and_then (visit_entries
        (\<lambda>k v. if k \<in> set [''url'', ''message'', ''type''] then error_of (dec_string v)
               else if k = ''defaultPrompt'' then error_of (dec_option dec_string v) else None) src) (\<lambda>_.
     and_then (req_field src ''url'' dec_string) (\<lambda>url.
     and_then (req_field src ''message'' dec_string) (\<lambda>msg.
     and_then (req_field src ''type'' dec_string) (\<lambda>t.
     and_then (opt_field src ''defaultPrompt'' dec_string) (\<lambda>d.
       Inr \<lparr>pd_type = t, pd_message = msg, pd_url = url, pd_default_prompt = d\<rparr>))))))"

definition dialog_event :: "json \<Rightarrow> 'w tab_daemon \<Rightarrow> 'w tab_daemon" where
  "dialog_event p st =
     (case decode_dialog_event p of
        Inl e \<Rightarrow> st
      | Inr d \<Rightarrow>
          (if td_auto_dialog st \<and> (pd_type d = ''beforeunload'' \<or> pd_type d = ''alert'') then st
           else st\<lparr>td_dialog := Some d\<rparr>))"

text \<open>The other events count when they come from the active page; events about requests also when
  they come from a frame of another origin.\<close>

definition session_matches :: "'w tab_daemon \<Rightarrow> cdp_event \<Rightarrow> bool" where
  "session_matches st ev \<longleftrightarrow>
     (case td_browser st of
        None \<Rightarrow> False
      | Some m \<Rightarrow> ev_session ev = (case active_session_id m of Inl e \<Rightarrow> None | Inr s \<Rightarrow> Some s))"

definition iframe_network_event :: "'w tab_daemon \<Rightarrow> cdp_event \<Rightarrow> bool" where
  "iframe_network_event st ev \<longleftrightarrow>
     \<not> session_matches st ev \<and> (td_har_recording st \<or> td_request_tracking st)
     \<and> starts_with ''Network.'' (ev_method ev)
     \<and> (case ev_session ev of None \<Rightarrow> False | Some s \<Rightarrow> s \<in> set (map snd (td_iframes st)))"

definition session_event ::
    "'w tab_env \<Rightarrow> cdp_event \<Rightarrow> drained_events \<times> 'w tab_daemon \<Rightarrow> drained_events \<times> 'w tab_daemon" where
  "session_event env ev acc =
     (case acc of (dr, st) \<Rightarrow>
        (let p = ev_params ev; m = ev_method ev
         in if m = ''Runtime.consoleAPICalled'' then (dr, console_event env p st)
            else if m = ''Runtime.exceptionThrown'' then (dr, exception_event env p st)
            else if m = ''Network.requestWillBeSent'' \<and> (td_har_recording st \<or> td_request_tracking st)
            then (dr, request_event env p st)
            else if m = ''Network.responseReceived'' \<and> (td_har_recording st \<or> td_request_tracking st)
            then (dr, response_event p st)
            else if m = ''Network.loadingFinished'' \<and> td_har_recording st then (dr, finished_event env p st)
            else if m = ''Network.loadingFailed'' \<and> td_har_recording st then (dr, failed_event env p st)
            else if m = ''Page.screencastFrame'' \<and> td_viewport st = None
            then (case get_i64 p ''sessionId'' of Some i \<Rightarrow> (dr\<lparr>de_acks := de_acks dr @ [i]\<rparr>, st) | None \<Rightarrow> (dr, st))
            else if m = ''Page.javascriptDialogOpening'' then (dr, dialog_event p st)
            else if m = ''Page.javascriptDialogClosed'' then (dr, st\<lparr>td_dialog := None\<rparr>)
            else (dr, st)))"

definition drain_one ::
    "'w tab_env \<Rightarrow> cdp_event \<Rightarrow> drained_events \<times> 'w tab_daemon \<Rightarrow> drained_events \<times> 'w tab_daemon" where
  "drain_one env ev acc =
     (case acc of (dr, st) \<Rightarrow>
        (case target_event st ev dr of
           Some dr1 \<Rightarrow> (dr1, st)
         | None \<Rightarrow>
             (if session_matches st ev \<or> iframe_network_event st ev then session_event env ev (dr, st) else (dr, st))))"

fun drain_loop ::
    "'w tab_env \<Rightarrow> received list \<Rightarrow> drained_events \<times> 'w tab_daemon \<Rightarrow> drained_events \<times> 'w tab_daemon" where
  "drain_loop env [] acc = acc"
| "drain_loop env (Received ev # rs) acc = drain_loop env rs (drain_one env ev acc)"
| "drain_loop env (Lagged n # rs) acc = drain_loop env rs acc"
| "drain_loop env (Closed # rs) acc = (fst acc, (snd acc)\<lparr>td_subscribed := False\<rparr>)"

definition drain_cdp_events ::
    "'w tab_env \<Rightarrow> received list \<Rightarrow> 'w tab_daemon \<Rightarrow> drained_events \<times> 'w tab_daemon" where
  "drain_cdp_events env rs st = (if td_subscribed st then drain_loop env rs (no_events, st) else (no_events, st))"

subsection \<open>Acting on them\<close>

definition on_manager :: "(browser_manager \<Rightarrow> browser_manager) \<Rightarrow> 'w tab_daemon \<Rightarrow> 'w tab_daemon" where
  "on_manager f st = st\<lparr>td_browser := map_option f (td_browser st)\<rparr>"

definition on_cdp_world :: "('w \<Rightarrow> 'w) \<Rightarrow> 'w tab_daemon \<Rightarrow> 'w tab_daemon" where
  "on_cdp_world f st = st\<lparr>td_world := f (td_world st)\<rparr>"

definition ack_frames :: "'w tab_env \<Rightarrow> int list \<Rightarrow> 'w tab_daemon \<Rightarrow> 'w tab_daemon" where
  "ack_frames env acks st =
     (case td_browser st of
        None \<Rightarrow> st
      | Some m \<Rightarrow>
          (case active_session_id m of
             Inl e \<Rightarrow> st
           | Inr sid \<Rightarrow>
               on_cdp_world (fold (\<lambda>i. send_quietly (cdp_env.truncate env) ''Page.screencastFrameAck''
                  (Some (json_obj [(''sessionId'', JNum (if 0 \<le> i then PosInt (nat i) else NegInt i))])) sid) acks) st))"

definition attach_iframe :: "'w tab_env \<Rightarrow> string \<times> string \<Rightarrow> 'w tab_daemon \<Rightarrow> 'w tab_daemon" where
  "attach_iframe env fs st0 =
     (let st = st0\<lparr>td_iframes := AList.update (fst fs) (snd fs) (td_iframes st0)\<rparr>;
          quiet = (\<lambda>m. send_quietly (cdp_env.truncate env) m None (snd fs))
      in case td_browser st of
           None \<Rightarrow> st
         | Some m \<Rightarrow>
             on_cdp_world (\<lambda>w.
               (let w1 = quiet ''Accessibility.enable'' (quiet ''DOM.enable'' (quiet ''Runtime.runIfWaitingForDebugger'' w))
                in if td_har_recording st \<or> td_request_tracking st then quiet ''Network.enable'' w1 else w1)) st)"

definition detach_iframe :: "string \<Rightarrow> 'w tab_daemon \<Rightarrow> 'w tab_daemon" where
  "detach_iframe sid st = st\<lparr>td_iframes := filter (\<lambda>e. snd e \<noteq> sid) (td_iframes st)\<rparr>"

text \<open>\<open>network::install_domain_filter\<close>: the script and then the interception, which is not asked for
  when the script is refused. The text of the script is \<open>te_filter_script\<close>.\<close>

definition install_domain_filter :: "'w tab_env \<Rightarrow> string \<Rightarrow> string list \<Rightarrow> bool \<Rightarrow> 'w \<Rightarrow> (string + unit) \<times> 'w" where
  "install_domain_filter env sid domains auth w =
     then_do (if domains = [] then (Inr JNull, w)
              else cd_send env ''Page.addScriptToEvaluateOnNewDocument''
                     (Some (json_obj [(''source'', JStr (te_filter_script env domains))])) sid w)
       (\<lambda>_ w1. then_do (cd_send env (fst (install_domain_filter_fetch auth)) (snd (install_domain_filter_fetch auth)) sid w1)
                 (\<lambda>_ w2. (Inr (), w2)))"

definition attach_new :: "'w tab_env \<Rightarrow> target_info \<Rightarrow> 'w tab_daemon \<Rightarrow> 'w tab_daemon" where
  "attach_new env t st =
     (case td_browser st of
        None \<Rightarrow> st
      | Some m \<Rightarrow>
          (case attach_to_target (cdp_env.truncate env) (ti_target_id t) (td_world st) of
             (Inl e, w1) \<Rightarrow> st\<lparr>td_world := w1\<rparr>
           | (Inr sid, w1) \<Rightarrow>
               (let w2 = snd (enable_domains (cdp_env.truncate env) sid w1);
                    w3 = (case td_filter st of
                            None \<Rightarrow> w2
                          | Some domains \<Rightarrow> snd (install_domain_filter env sid domains (td_proxy_credentials st) w2))
                in case assign_tab_id m of (i, m1) \<Rightarrow>
                     st\<lparr>td_world := w3,
                        td_browser := Some (add_page
                          \<lparr>pg_tab_id = i, pg_label = None, pg_target_id = ti_target_id t, pg_session_id = sid,
                           pg_url = ti_url t, pg_title = ti_title t, pg_type = ti_type t\<rparr> m1)\<rparr>)))"

definition apply_drained_events :: "'w tab_env \<Rightarrow> drained_events \<Rightarrow> 'w tab_daemon \<Rightarrow> 'w tab_daemon" where
  "apply_drained_events env dr st =
     (let st1 = ack_frames env (de_acks dr) st;
          st2 = on_manager (fold remove_page_by_target_id (de_destroyed dr)) st1;
          st3 = fold (attach_iframe env) (de_attached dr) st2;
          st4 = fold detach_iframe (de_detached dr) st3;
          st5 = fold (attach_new env) (de_new dr) st4
      in on_manager (fold (\<lambda>t m. snd (update_page_target_info t m)) (de_changed dr)) st5)"

definition drain_cdp_events_background :: "'w tab_env \<Rightarrow> received list \<Rightarrow> 'w tab_daemon \<Rightarrow> 'w tab_daemon" where
  "drain_cdp_events_background env rs st =
     (case drain_cdp_events env rs st of (dr, st1) \<Rightarrow> apply_drained_events env dr st1)"

subsection \<open>Commands and events in turn\<close>

text \<open>The other handlers take the manager by shared reference (\<open>state.browser.as_ref()\<close>, or they do not
  look at it), so its tabs are as before, whatever else they do to the state. The exceptions are not
  commands of this machine: \<open>launch\<close> and \<open>close\<close> replace the manager, \<open>auth_login\<close>, \<open>diff_url\<close> and \<open>vitals\<close>
  navigate between other work, and \<open>confirm\<close> runs the pending command, which is a step of its own.\<close>

definition keeps_manager :: "string \<Rightarrow> bool" where
  "keeps_manager a \<longleftrightarrow> a \<notin> set [''launch'', ''close'', ''auth_login'', ''diff_url'', ''vitals'', ''confirm'']"

definition other_handler :: "'w tab_env \<Rightarrow> string \<Rightarrow> json \<Rightarrow> 'w tab_daemon \<Rightarrow> (string + json) \<times> 'w tab_daemon" where
  "other_handler env a cmd st = (case te_handler env a cmd st of (r, st1) \<Rightarrow> (r, st1\<lparr>td_browser := td_browser st\<rparr>))"

definition tab_command :: "'w tab_env \<Rightarrow> json \<Rightarrow> 'w tab_daemon \<Rightarrow> (string + json) \<times> 'w tab_daemon" where
  "tab_command env cmd st =
     (let a = unwrap_or [] (get_str cmd ''action'')
      in if a = ''tab_list'' then (handle_tab_list st, st)
         else if a = ''tab_new'' then handle_tab_new env cmd st
         else if a = ''tab_switch'' then handle_tab_switch env cmd st
         else if a = ''tab_close'' then handle_tab_close env cmd st
         else if a = ''window_new'' then handle_window_new env cmd st
         else if a = ''navigate'' then handle_navigate env cmd st
         else if a = ''click'' then handle_click env cmd st
         else if a = ''recording_start'' then handle_recording_start env cmd st
         else other_handler env a cmd st)"

text \<open>A command with the events that came before it: they are drained first, and a browser without a
  page gets a blank one unless the command needs no browser. \<open>None\<close> is a turn that only drains: the
  timer of the daemon, or a command that the policy holds back. The browser is alive throughout, so
  the probe for a dead one changes nothing and is left out.\<close>

definition tab_step :: "'w tab_env \<Rightarrow> received list \<times> json option \<Rightarrow> 'w tab_daemon \<Rightarrow> 'w tab_daemon" where
  "tab_step env rc st =
     (let st1 = drain_cdp_events_background env (fst rc) st
      in case snd rc of
           None \<Rightarrow> st1
         | Some cmd \<Rightarrow>
             (let st2 = (case td_browser st1 of
                           None \<Rightarrow> st1
                         | Some m \<Rightarrow>
                             (if skip_launch (unwrap_or [] (get_str cmd ''action'')) then st1
                              else snd (with_manager (ensure_page (cdp_env.truncate env)) m st1)))
              in snd (tab_command env cmd st2)))"

subsection \<open>Tabs keep their names\<close>

text \<open>What holds of the open tabs: identifiers are distinct and below the next one, labels are valid
  and distinct, and the active index points to a tab when there is one.\<close>

definition tabs_ok :: "browser_manager \<Rightarrow> bool" where
  "tabs_ok m \<longleftrightarrow>
     0 < bm_next_tab_id m \<and> distinct (map pg_tab_id (bm_pages m))
     \<and> list_all (\<lambda>p. 0 < pg_tab_id p \<and> pg_tab_id p < bm_next_tab_id m) (bm_pages m)
     \<and> distinct (List.map_filter pg_label (bm_pages m))
     \<and> list_all (\<lambda>p. case pg_label p of None \<Rightarrow> True | Some l \<Rightarrow> is_valid_label l) (bm_pages m)
     \<and> (bm_active m < length (bm_pages m) \<or> bm_pages m = [] \<and> bm_active m = 0)"

definition tab_key :: "page_info \<Rightarrow> 32 word \<times> string option \<times> string \<times> string" where
  "tab_key p = (pg_tab_id p, pg_label p, pg_target_id p, pg_session_id p)"

text \<open>From \<open>m\<close> to \<open>m'\<close> with at most \<open>k\<close> new tabs, as long as the identifiers do not run out: the
  invariant is kept, and no identifier that was given out before names another tab.\<close>

definition tabs_follow :: "nat \<Rightarrow> browser_manager \<Rightarrow> browser_manager \<Rightarrow> bool" where
  "tabs_follow k m m' \<longleftrightarrow>
     (tabs_ok m \<and> unat (bm_next_tab_id m) + k < 2 ^ 32 \<longrightarrow>
        tabs_ok m' \<and> bm_next_tab_id m \<le> bm_next_tab_id m' \<and> unat (bm_next_tab_id m') \<le> unat (bm_next_tab_id m) + k
        \<and> (\<forall>p \<in> set (bm_pages m'). pg_tab_id p < bm_next_tab_id m \<longrightarrow> tab_key p \<in> tab_key ` set (bm_pages m)))"

lemma tabs_follow_refl [simp, intro]: "tabs_follow k m m"
  by (auto simp: tabs_follow_def)

lemma tabs_follow_mono: "tabs_follow k m m' \<Longrightarrow> k \<le> l \<Longrightarrow> tabs_follow l m m'"
  by (auto simp: tabs_follow_def)

lemma tabs_follow_trans:
  assumes 1: "tabs_follow k m m1" and 2: "tabs_follow l m1 m2"
  shows "tabs_follow (k + l) m m2"
proof -
  have "tabs_ok m2 \<and> bm_next_tab_id m \<le> bm_next_tab_id m2 \<and> unat (bm_next_tab_id m2) \<le> unat (bm_next_tab_id m) + (k + l)
      \<and> (\<forall>p \<in> set (bm_pages m2). pg_tab_id p < bm_next_tab_id m \<longrightarrow> tab_key p \<in> tab_key ` set (bm_pages m))"
    if m: "tabs_ok m" "unat (bm_next_tab_id m) + (k + l) < 2 ^ 32"
  proof -
    from 1 m have a: "tabs_ok m1" "bm_next_tab_id m \<le> bm_next_tab_id m1"
      "unat (bm_next_tab_id m1) \<le> unat (bm_next_tab_id m) + k"
      "\<And>p. p \<in> set (bm_pages m1) \<Longrightarrow> pg_tab_id p < bm_next_tab_id m \<Longrightarrow> tab_key p \<in> tab_key ` set (bm_pages m)"
      by (auto simp: tabs_follow_def)
    with 2 m have b: "tabs_ok m2" "bm_next_tab_id m1 \<le> bm_next_tab_id m2"
      "unat (bm_next_tab_id m2) \<le> unat (bm_next_tab_id m1) + l"
      "\<And>p. p \<in> set (bm_pages m2) \<Longrightarrow> pg_tab_id p < bm_next_tab_id m1 \<Longrightarrow> tab_key p \<in> tab_key ` set (bm_pages m1)"
      by (auto simp: tabs_follow_def)
    have "tab_key p \<in> tab_key ` set (bm_pages m)" if p: "p \<in> set (bm_pages m2)" "pg_tab_id p < bm_next_tab_id m" for p
    proof -
      from p a(2) have "pg_tab_id p < bm_next_tab_id m1" by (rule_tac less_le_trans)
      with b(4) p obtain q where q: "q \<in> set (bm_pages m1)" "tab_key p = tab_key q" by blast
      then have "pg_tab_id q < bm_next_tab_id m" using p by (simp add: tab_key_def)
      with a(4) q show ?thesis by metis
    qed
    with a b show ?thesis by auto
  qed
  then show ?thesis by (auto simp: tabs_follow_def)
qed

lemma tabs_follow_fold:
  assumes "\<And>x m. tabs_follow (k x) m (f x m)"
  shows "tabs_follow (sum_list (map k xs)) m (fold f xs m)"
proof (induction xs arbitrary: m)
  case (Cons x xs)
  show ?case using tabs_follow_trans [OF assms [of x m] Cons [of "f x m"]] by simp
qed simp

subsubsection \<open>Pages are added, changed and removed\<close>

lemma tabs_follow_same:
  assumes keys: "map tab_key (bm_pages m') = map tab_key (bm_pages m)"
    and "bm_next_tab_id m' = bm_next_tab_id m"
    and act: "bm_active m' = bm_active m \<or> bm_active m' < length (bm_pages m)"
  shows "tabs_follow 0 m m'"
proof -
  have ids: "map pg_tab_id (bm_pages m') = map pg_tab_id (bm_pages m)"
    using arg_cong [OF keys, of "map fst"] by (simp add: tab_key_def comp_def)
  have labels: "map pg_label (bm_pages m') = map pg_label (bm_pages m)"
    using arg_cong [OF keys, of "map (fst \<circ> snd)"] by (simp add: tab_key_def comp_def)
  have len: "length (bm_pages m') = length (bm_pages m)" using arg_cong [OF keys, of length] by simp
  have lset: "pg_label ` set (bm_pages m') = pg_label ` set (bm_pages m)" using arg_cong [OF labels, of set] by simp
  have iset: "pg_tab_id ` set (bm_pages m') = pg_tab_id ` set (bm_pages m)" using arg_cong [OF ids, of set] by simp
  have filt: "List.map_filter pg_label ps = map the (filter (\<lambda>l. l \<noteq> None) (map pg_label ps))" for ps
    by (induction ps) (auto simp: List.map_filter_simps)
  have "tabs_ok m'" if ok: "tabs_ok m"
  proof -
    from ok have "\<forall>i \<in> pg_tab_id ` set (bm_pages m). 0 < i \<and> i < bm_next_tab_id m"
      "\<forall>l \<in> pg_label ` set (bm_pages m). case l of None \<Rightarrow> True | Some l \<Rightarrow> is_valid_label l"
      by (auto simp: tabs_ok_def list_all_iff)
    then have "\<forall>i \<in> pg_tab_id ` set (bm_pages m'). 0 < i \<and> i < bm_next_tab_id m'"
      "\<forall>l \<in> pg_label ` set (bm_pages m'). case l of None \<Rightarrow> True | Some l \<Rightarrow> is_valid_label l"
      using iset lset assms(2) by auto
    moreover have "bm_active m' < length (bm_pages m') \<or> bm_pages m' = [] \<and> bm_active m' = 0"
      using act ok len by (auto simp: tabs_ok_def)
    moreover have "distinct (map pg_tab_id (bm_pages m'))" "distinct (List.map_filter pg_label (bm_pages m'))"
      using ok ids labels by (auto simp: tabs_ok_def filt)
    ultimately show ?thesis using ok assms(2) by (auto simp: tabs_ok_def list_all_iff)
  qed
  moreover have "set (map tab_key (bm_pages m')) = set (map tab_key (bm_pages m))" by (simp only: keys)
  ultimately show ?thesis using assms(2) by (auto simp: tabs_follow_def)
qed

lemma push_page_sel [simp]:
  "bm_pages (push_page label tid sid url title kind m) =
     bm_pages m @ [\<lparr>pg_tab_id = bm_next_tab_id m, pg_label = label, pg_target_id = tid, pg_session_id = sid,
                    pg_url = url, pg_title = title, pg_type = kind\<rparr>]"
  "bm_next_tab_id (push_page label tid sid url title kind m) = bm_next_tab_id m + 1"
  "bm_active (push_page label tid sid url title kind m) = bm_active m"
  by (simp_all add: push_page_def assign_tab_id_def)

lemma add_page_push:
  "assign_tab_id m = (i, m1) \<Longrightarrow>
   add_page \<lparr>pg_tab_id = i, pg_label = l, pg_target_id = tid, pg_session_id = sid, pg_url = u, pg_title = t, pg_type = k\<rparr> m1
     = (push_page l tid sid u t k m)\<lparr>bm_active := length (bm_pages m)\<rparr>"
  by (auto simp: add_page_def push_page_def assign_tab_id_def)

lemma tabs_follow_push:
  assumes label: "\<And>l. label = Some l \<Longrightarrow> is_valid_label l \<and> \<not> has_label m l" and act: "a \<le> length (bm_pages m)"
  shows "tabs_follow (Suc 0) m ((push_page label tid sid url title kind m)\<lparr>bm_active := a\<rparr>)"
proof -
  have next_id: "unat (bm_next_tab_id m + 1) = unat (bm_next_tab_id m) + 1"
    if "unat (bm_next_tab_id m) + 1 < 2 ^ 32"
    using that by (subst unat_add_lem [THEN iffD1]) simp_all
  let ?m = "(push_page label tid sid url title kind m)\<lparr>bm_active := a\<rparr>"
  have "tabs_ok ?m \<and> bm_next_tab_id m \<le> bm_next_tab_id ?m" if ok: "tabs_ok m" and b: "unat (bm_next_tab_id m) + 1 < 2 ^ 32"
  proof -
    have lt: "bm_next_tab_id m < bm_next_tab_id m + 1" using next_id [OF b] by (simp add: word_less_nat_alt)
    have old: "0 < pg_tab_id p \<and> pg_tab_id p < bm_next_tab_id m" if "p \<in> set (bm_pages m)" for p
      using ok that by (simp add: tabs_ok_def list_all_iff)
    have ids: "bm_next_tab_id m \<notin> pg_tab_id ` set (bm_pages m)" using old by fastforce
    have up: "pg_tab_id p < bm_next_tab_id m + 1" if "p \<in> set (bm_pages m)" for p
      using old [OF that] lt by (blast intro: less_trans)
    have labels: "l \<notin> set (List.map_filter pg_label (bm_pages m))" if "label = Some l" for l
      using label [OF that] by (auto simp: List.map_filter_def has_label_def list_ex_iff)
    have split: "List.map_filter pg_label (bm_pages ?m)
        = List.map_filter pg_label (bm_pages m) @ (case label of None \<Rightarrow> [] | Some l \<Rightarrow> [l])"
      by (simp add: List.map_filter_def split: option.split)
    have "distinct (List.map_filter pg_label (bm_pages ?m))"
      unfolding split using ok labels by (auto simp: tabs_ok_def split: option.split)
    moreover have "distinct (map pg_tab_id (bm_pages ?m))" using ok ids by (simp add: tabs_ok_def)
    moreover have "0 < bm_next_tab_id ?m" using lt by (simp add: word_less_nat_alt)
    moreover have "list_all (\<lambda>p. 0 < pg_tab_id p \<and> pg_tab_id p < bm_next_tab_id ?m) (bm_pages ?m)"
      using old up ok lt by (auto simp: list_all_iff tabs_ok_def)
    moreover have "list_all (\<lambda>p. case pg_label p of None \<Rightarrow> True | Some l \<Rightarrow> is_valid_label l) (bm_pages ?m)"
      using ok label by (auto simp: list_all_iff tabs_ok_def split: option.split)
    ultimately show ?thesis using lt act by (simp add: tabs_ok_def)
  qed
  then show ?thesis using next_id by (auto simp: tabs_follow_def)
qed

lemma set_remove_at: "set (remove_at i xs) \<subseteq> set xs"
  by (auto simp: remove_at_def dest: in_set_takeD in_set_dropD)

lemma length_remove_at: "i < length xs \<Longrightarrow> length (remove_at i xs) = length xs - 1"
  by (auto simp: remove_at_def)

lemma subseq_remove_at: "subseq (remove_at i xs) xs"
proof -
  have "subseq (drop (Suc i) xs) (drop i xs)"
    using suffix_drop [of 1 "drop i xs"] by (simp add: suffix_imp_subseq)
  then have "subseq (take i xs @ drop (Suc i) xs) (take i xs @ drop i xs)"
    by (intro list_emb_append_mono) simp_all
  then show ?thesis by (simp add: remove_at_def)
qed

lemma distinct_subseq: "subseq xs ys \<Longrightarrow> distinct ys \<Longrightarrow> distinct xs"
  by (induction rule: list_emb.induct) (auto dest: list_emb_set)

lemma distinct_remove_at: "distinct (map f xs) \<Longrightarrow> distinct (map f (remove_at i xs))"
  by (rule distinct_subseq [OF subseq_map [OF subseq_remove_at]])

lemma distinct_filter_remove_at:
  assumes "distinct (List.map_filter f xs)"
  shows "distinct (List.map_filter f (remove_at i xs))"
proof -
  have "subseq (List.map_filter f as) (List.map_filter f bs)" if "subseq as bs" for as bs
    using that by (induction rule: list_emb.induct) (auto simp: List.map_filter_simps split: option.split)
  from distinct_subseq [OF this [OF subseq_remove_at] assms] show ?thesis .
qed

lemma remove_page_sel [simp]:
  "bm_pages (remove_page i m) = remove_at i (bm_pages m)"
  "bm_next_tab_id (remove_page i m) = bm_next_tab_id m"
  by (simp_all add: remove_page_def update_active_page_after_removal_def)

lemma tabs_follow_remove:
  assumes i: "i < length (bm_pages m)"
  shows "tabs_follow 0 m (remove_page i m)"
proof -
  have sub: "set (remove_at i (bm_pages m)) \<subseteq> set (bm_pages m)" by (rule set_remove_at)
  have "bm_active (remove_page i m) < length (remove_at i (bm_pages m))
      \<or> remove_at i (bm_pages m) = [] \<and> bm_active (remove_page i m) = 0" if "tabs_ok m"
    using that i length_remove_at [OF i]
    by (cases "remove_at i (bm_pages m) = []")
      (auto simp: tabs_ok_def remove_page_def update_active_page_after_removal_def active_page_index_after_removal_def)
  then have "tabs_ok (remove_page i m)" if "tabs_ok m"
    using that sub by (auto simp: tabs_ok_def list_all_iff distinct_remove_at distinct_filter_remove_at)
  with sub show ?thesis by (auto simp: tabs_follow_def)
qed

lemma position_Some: "position P xs = Some i \<Longrightarrow> i < length xs \<and> P (xs ! i)"
  by (induction xs arbitrary: i) (auto split: if_splits)

lemma tabs_follow_remove_target: "tabs_follow 0 m (remove_page_by_target_id tid m)"
  by (auto simp: remove_page_by_target_id_def dest: position_Some intro: tabs_follow_remove split: option.split)

lemma update_first_keys: "(\<And>x. f (g x) = f x) \<Longrightarrow> map f (update_first P g xs) = map f xs"
  by (induction xs) auto

lemma tabs_follow_update: "tabs_follow 0 m (snd (update_page_target_info t m))"
  by (rule tabs_follow_same)
    (auto simp: update_page_target_info_def update_page_target_info_in_pages_def tab_key_def intro!: update_first_keys)

lemma set_page_state_sel [simp]:
  "map tab_key (bm_pages (set_page_state i ut m)) = map tab_key (bm_pages m)"
  "bm_next_tab_id (set_page_state i ut m) = bm_next_tab_id m"
  "bm_active (set_page_state i ut m) = bm_active m"
  "bm_visited (set_page_state i ut m) = bm_visited m"
  by (auto simp: set_page_state_def nth_opt_def map_update tab_key_def list_update_same_conv split: option.split)

lemma visit_origin_sel [simp]:
  "bm_pages (visit_origin env url m) = bm_pages m" "bm_next_tab_id (visit_origin env url m) = bm_next_tab_id m"
  "bm_active (visit_origin env url m) = bm_active m"
  by (auto simp: visit_origin_def split: option.split)

lemma tabs_follow_push_unnamed:
  "a \<le> length (bm_pages m) \<Longrightarrow> tabs_follow (Suc 0) m ((push_page None tid sid url title kind m)\<lparr>bm_active := a\<rparr>)"
  by (rule tabs_follow_push) simp_all

lemma tabs_follow_select: "i < length (bm_pages m) \<Longrightarrow> tabs_follow 0 m (m\<lparr>bm_active := i\<rparr>)"
  by (rule tabs_follow_same) simp_all

subsubsection \<open>The operations of the manager\<close>

lemma ensure_page_follows: "ensure_page env m w = (r, m', w') \<Longrightarrow> tabs_follow (Suc 0) m m'"
  by (auto simp: ensure_page_def open_blank_page_def split: if_splits prod.splits sum.splits
      intro: tabs_follow_push_unnamed)

lemma navigate_follows: "navigate env url wu m w = (r, m', w') \<Longrightarrow> tabs_follow 0 m m'"
  by (auto simp: navigate_def split: if_splits prod.splits sum.splits option.splits intro: tabs_follow_same)

lemma tab_new_follows: "tab_new env url label m w = (r, m', w') \<Longrightarrow> tabs_follow (Suc 0) m m'"
  by (auto simp: tab_new_def Let_def split: if_splits prod.splits sum.splits option.splits
      intro!: tabs_follow_push)

lemma tab_switch_follows: "tab_switch env i m w = (r, m', w') \<Longrightarrow> tabs_follow 0 m m'"
  by (auto simp: tab_switch_def Let_def split: if_splits prod.splits sum.splits intro!: tabs_follow_same)

lemma tab_close_follows: "tab_close env i m w = (r, m', w') \<Longrightarrow> tabs_follow 0 m m'"
  by (auto simp: tab_close_def Let_def split: if_splits prod.splits sum.splits intro!: tabs_follow_remove)

lemmas manager_follows =
  ensure_page_follows navigate_follows tab_new_follows tab_switch_follows tab_close_follows

lemma tab_switch_by_id_follows: "tab_switch_by_id env i m w = (r, m', w') \<Longrightarrow> tabs_follow 0 m m'"
  by (auto simp: tab_switch_by_id_def split: sum.splits intro: manager_follows)

lemma tab_close_by_id_follows: "tab_close_by_id env i m w = (r, m', w') \<Longrightarrow> tabs_follow 0 m m'"
  by (auto simp: tab_close_by_id_def split: sum.splits option.splits intro: manager_follows)

subsubsection \<open>The daemon\<close>

definition daemon_follows :: "nat \<Rightarrow> 'w tab_daemon \<Rightarrow> 'w tab_daemon \<Rightarrow> bool" where
  "daemon_follows k st st' \<longleftrightarrow>
     (case td_browser st of
        None \<Rightarrow> td_browser st' = None
      | Some m \<Rightarrow> \<exists>m'. td_browser st' = Some m' \<and> tabs_follow k m m')"

lemma daemon_follows_same: "td_browser st' = td_browser st \<Longrightarrow> daemon_follows k st st'"
  by (auto simp: daemon_follows_def split: option.split)

lemma daemon_follows_mono: "daemon_follows k st st' \<Longrightarrow> k \<le> l \<Longrightarrow> daemon_follows l st st'"
  by (auto simp: daemon_follows_def split: option.splits intro: tabs_follow_mono)

lemma daemon_follows_trans:
  "daemon_follows k st st1 \<Longrightarrow> daemon_follows l st1 st2 \<Longrightarrow> daemon_follows (k + l) st st2"
  by (auto simp: daemon_follows_def split: option.splits intro: tabs_follow_trans)

lemma daemon_follows_fold:
  assumes "\<And>x st. daemon_follows (k x) st (f x st)"
  shows "daemon_follows (sum_list (map k xs)) st (fold f xs st)"
proof (induction xs arbitrary: st)
  case (Cons x xs)
  show ?case using daemon_follows_trans [OF assms [of x st] Cons [of "f x st"]] by simp
qed (simp add: daemon_follows_same)

lemma on_manager_follows: "(\<And>m. tabs_follow k m (f m)) \<Longrightarrow> daemon_follows k st (on_manager f st)"
  by (auto simp: daemon_follows_def on_manager_def split: option.split)

lemma with_manager_follows:
  assumes "td_browser st = Some m" and "\<And>w r m' w'. f m w = (r, m', w') \<Longrightarrow> tabs_follow k m m'"
    and "with_manager f m st0 = (r, st')"
  shows "daemon_follows k st st'"
  using assms by (auto simp: with_manager_def daemon_follows_def split: prod.splits)

lemma forget_page_sel [simp]: "td_browser (forget_page st) = td_browser st" "td_world (forget_page st) = td_world st"
  "td_filter (forget_page st) = td_filter st"
  by (simp_all add: forget_page_def)

lemma sync_viewport_sel [simp]: "td_browser (sync_viewport env st) = td_browser st"
  by (auto simp: sync_viewport_def split: option.split prod.split sum.split)

lemma handle_tab_new_follows: "handle_tab_new env cmd st = (r, st') \<Longrightarrow> daemon_follows (Suc 0) st st'"
  by (auto simp: handle_tab_new_def daemon_follows_same split: option.splits
      intro: with_manager_follows manager_follows)

lemma handle_tab_switch_follows: "handle_tab_switch env cmd st = (r, st') \<Longrightarrow> daemon_follows 0 st st'"
proof -
  assume run: "handle_tab_switch env cmd st = (r, st')"
  have keep: "daemon_follows 0 st (sync_viewport env st1)" if "daemon_follows 0 st st1" for st1
    using that by (simp add: daemon_follows_def cong: option.case_cong)
  have switch: "daemon_follows 0 st st1" if "td_browser st = Some m"
    "with_manager (tab_switch_by_id (cdp_env.truncate env) i) m (forget_page st) = (x, st1)" for m i x st1
    using that by (auto intro: with_manager_follows tab_switch_by_id_follows)
  from run show ?thesis
    by (auto simp: handle_tab_switch_def daemon_follows_same split: option.splits sum.splits prod.splits
        intro: switch keep)
qed

lemma handle_tab_close_follows: "handle_tab_close env cmd st = (r, st') \<Longrightarrow> daemon_follows 0 st st'"
  by (auto simp: handle_tab_close_def daemon_follows_same split: option.splits sum.splits
      intro: with_manager_follows tab_close_by_id_follows)

lemma handle_window_new_follows: "handle_window_new env cmd st = (r, st') \<Longrightarrow> daemon_follows (Suc 0) st st'"
  by (auto simp: handle_window_new_def Let_def daemon_follows_def tabs_follow_push_unnamed
      split: option.splits sum.splits prod.splits)

lemma scope_headers_sel: "scope_headers env url hs m st = (r, st') \<Longrightarrow> td_browser st' = td_browser st"
  by (auto simp: scope_headers_def Let_def split: option.splits json.splits if_splits sum.splits prod.splits)

lemma handle_navigate_follows:
  assumes "handle_navigate env cmd st = (r, st')"
  shows "daemon_follows 0 st st'"
proof -
  have go: "daemon_follows 0 st st2" if "td_browser st = Some m"
    and "with_manager (navigate (cdp_env.truncate env) url wu) m st0 = (x, st2)" for m url wu x st0 st2
    using with_manager_follows [OF that(1) navigate_follows that(2)] .
  show ?thesis
    using assms unfolding handle_navigate_def
    by (auto simp: daemon_follows_same dest: scope_headers_sel split: option.splits sum.splits prod.splits intro: go)
qed

lemma handle_click_follows:
  assumes "handle_click env cmd st = (r, st')"
  shows "daemon_follows (Suc 0) st st'"
proof -
  have new: "daemon_follows (Suc 0) st st2" if "td_browser st = Some m"
    and "with_manager (tab_new (cdp_env.truncate env) url None) m st0 = (x, st2)" for m url x st0 st2
    using with_manager_follows [OF that(1) tab_new_follows that(2)] .
  show ?thesis
    using assms unfolding handle_click_def
    by (auto simp: daemon_follows_same split: option.splits sum.splits prod.splits if_splits intro: new)
qed

lemma handle_recording_start_follows: "handle_recording_start env cmd st = (r, st') \<Longrightarrow> daemon_follows (Suc 0) st st'"
  by (auto simp: handle_recording_start_def Let_def daemon_follows_def tabs_follow_push_unnamed
      split: option.splits sum.splits prod.splits)

lemma other_handler_follows: "other_handler env a cmd st = (r, st') \<Longrightarrow> daemon_follows 0 st st'"
  by (auto simp: other_handler_def daemon_follows_same split: prod.splits)

lemmas handler_follows =
  handle_tab_new_follows handle_tab_switch_follows handle_tab_close_follows handle_window_new_follows
  handle_navigate_follows handle_click_follows handle_recording_start_follows

lemma tab_command_follows: "daemon_follows (Suc 0) st (snd (tab_command env cmd st))"
proof -
  obtain r st' where run: "tab_command env cmd st = (r, st')" by (meson surj_pair)
  show ?thesis
    using run daemon_follows_mono [of 0 st st' "Suc 0"] handler_follows [of env cmd st r st']
      other_handler_follows [of env "unwrap_or [] (get_str cmd ''action'')" cmd st r st']
    by (auto simp: tab_command_def Let_def daemon_follows_same split: if_splits)
qed

text \<open>Draining changes no page, and finds at most one new page for each event.\<close>

lemma on_stream_sel [simp]: "td_browser (on_stream f st) = td_browser st"
  by (simp add: on_stream_def)

lemma event_sel [simp]:
  "td_browser (console_event env p st) = td_browser st" "td_browser (exception_event env p st) = td_browser st"
  "td_browser (response_event p st) = td_browser st" "td_browser (finished_event env p st) = td_browser st"
  "td_browser (failed_event env p st) = td_browser st" "td_browser (dialog_event p st) = td_browser st"
  by (simp_all add: console_event_def exception_event_def response_event_def finished_event_def failed_event_def
      dialog_event_def Let_def split: option.split sum.split)

lemma request_event_sel [simp]: "td_browser (request_event env p st) = td_browser st"
  by (simp add: request_event_def Let_def split: option.split prod.split)

lemma session_event_sel:
  "session_event env ev (dr, st) = (dr', st') \<Longrightarrow> td_browser st' = td_browser st \<and> de_new dr' = de_new dr"
  by (auto simp: session_event_def Let_def split: if_splits option.splits)

lemma target_event_new: "target_event st ev dr = Some dr' \<Longrightarrow> length (de_new dr') \<le> Suc (length (de_new dr))"
  by (auto simp: target_event_def Let_def new_target_def split: if_splits option.splits sum.splits prod.splits)

lemma drain_one_sel:
  "drain_one env ev (dr, st) = (dr', st') \<Longrightarrow>
   td_browser st' = td_browser st \<and> length (de_new dr') \<le> Suc (length (de_new dr))"
  by (auto simp: drain_one_def dest: session_event_sel target_event_new split: option.splits if_splits)

lemma drain_loop_sel:
  "drain_loop env rs (dr, st) = (dr', st') \<Longrightarrow>
   td_browser st' = td_browser st \<and> length (de_new dr') \<le> length rs + length (de_new dr)"
proof (induction env rs "(dr, st)" arbitrary: dr st rule: drain_loop.induct)
  case (2 env ev rs)
  obtain dr1 st1 where one: "drain_one env ev (dr, st) = (dr1, st1)" by (meson surj_pair)
  with 2(2) have "drain_loop env rs (dr1, st1) = (dr', st')" by simp
  from 2(1) [OF _ this] one drain_one_sel [OF one] show ?case by fastforce
qed (fastforce)+

lemma drain_cdp_events_sel:
  "drain_cdp_events env rs st = (dr, st') \<Longrightarrow> td_browser st' = td_browser st \<and> length (de_new dr) \<le> length rs"
  by (auto simp: drain_cdp_events_def no_events_def dest: drain_loop_sel split: if_splits)

lemma ack_frames_sel [simp]: "td_browser (ack_frames env acks st) = td_browser st"
  by (auto simp: ack_frames_def on_cdp_world_def split: option.split sum.split)

lemma attach_iframe_sel [simp]: "td_browser (attach_iframe env fs st) = td_browser st"
  by (auto simp: attach_iframe_def on_cdp_world_def Let_def split: option.split)

lemma detach_iframe_sel [simp]: "td_browser (detach_iframe sid st) = td_browser st"
  by (simp add: detach_iframe_def)

lemma attach_new_follows: "daemon_follows (Suc 0) st (attach_new env t st)"
  by (auto simp: attach_new_def Let_def add_page_push daemon_follows_same daemon_follows_def
      split: option.split sum.split prod.split intro: tabs_follow_push_unnamed)

lemma fold_keeps_browser: "(\<And>x st. td_browser (f x st) = td_browser st) \<Longrightarrow> td_browser (fold f xs st) = td_browser st"
  by (induction xs arbitrary: st) auto

lemma apply_drained_follows: "daemon_follows (length (de_new dr)) st (apply_drained_events env dr st)"
proof -
  define st1 where "st1 = on_manager (fold remove_page_by_target_id (de_destroyed dr)) (ack_frames env (de_acks dr) st)"
  define st4 where "st4 = fold detach_iframe (de_detached dr) (fold (attach_iframe env) (de_attached dr) st1)"
  define st5 where "st5 = fold (attach_new env) (de_new dr) st4"
  have "daemon_follows 0 st (ack_frames env (de_acks dr) st)" by (simp add: daemon_follows_same)
  moreover have "daemon_follows 0 (ack_frames env (de_acks dr) st) st1"
    unfolding st1_def
    using tabs_follow_fold [of "\<lambda>_. 0" remove_page_by_target_id, OF tabs_follow_remove_target]
    by (auto intro: on_manager_follows)
  moreover have "daemon_follows 0 st1 st4"
    by (rule daemon_follows_same) (simp add: st4_def fold_keeps_browser)
  moreover have "daemon_follows (length (de_new dr)) st4 st5"
    unfolding st5_def using daemon_follows_fold [of "\<lambda>_. Suc 0", OF attach_new_follows] by (simp add: sum_list_triv)
  moreover have "daemon_follows 0 st5 (on_manager (fold (\<lambda>t m. snd (update_page_target_info t m)) (de_changed dr)) st5)"
    using tabs_follow_fold [of "\<lambda>_. 0" "\<lambda>t m. snd (update_page_target_info t m)", OF tabs_follow_update]
    by (auto intro: on_manager_follows)
  ultimately have "daemon_follows (length (de_new dr)) st
      (on_manager (fold (\<lambda>t m. snd (update_page_target_info t m)) (de_changed dr)) st5)"
    by (metis daemon_follows_trans add_0 add_0_right)
  then show ?thesis by (simp add: apply_drained_events_def Let_def st1_def st4_def st5_def)
qed

lemma drain_follows: "daemon_follows (length rs) st (drain_cdp_events_background env rs st)"
proof -
  obtain dr st1 where d: "drain_cdp_events env rs st = (dr, st1)" by (meson surj_pair)
  then have "daemon_follows 0 st st1" and n: "length (de_new dr) \<le> length rs"
    by (auto dest: drain_cdp_events_sel intro: daemon_follows_same)
  from daemon_follows_trans [OF this(1) apply_drained_follows, of dr env] daemon_follows_mono n
  show ?thesis by (auto simp: drain_cdp_events_background_def d)
qed

definition tab_cost :: "received list \<times> json option \<Rightarrow> nat" where
  "tab_cost rc = length (fst rc) + 2"

lemma tab_step_follows: "daemon_follows (tab_cost rc) st (tab_step env rc st)"
proof -
  define st1 where "st1 = drain_cdp_events_background env (fst rc) st"
  have a: "daemon_follows (length (fst rc)) st st1" unfolding st1_def by (rule drain_follows)
  show ?thesis
  proof (cases "snd rc")
    case None
    with daemon_follows_mono [OF a, of "tab_cost rc"] show ?thesis
      by (simp add: tab_step_def tab_cost_def flip: st1_def)
  next
    case (Some cmd)
    define st2 where "st2 = (case td_browser st1 of None \<Rightarrow> st1
        | Some m \<Rightarrow> if skip_launch (unwrap_or [] (get_str cmd ''action'')) then st1
                    else snd (with_manager (ensure_page (cdp_env.truncate env)) m st1))"
    have b: "daemon_follows (Suc 0) st1 st2"
    proof (cases "td_browser st1")
      case (Some m)
      obtain r st' where w: "with_manager (ensure_page (cdp_env.truncate env)) m st1 = (r, st')" by (meson surj_pair)
      have "daemon_follows (Suc 0) st1 st'" by (rule with_manager_follows [OF Some ensure_page_follows w])
      with Some w show ?thesis by (simp add: st2_def daemon_follows_same)
    qed (simp add: st2_def daemon_follows_same)
    have "tab_step env rc st = snd (tab_command env cmd st2)"
      by (simp add: tab_step_def Some Let_def flip: st1_def st2_def cong: option.case_cong)
    with daemon_follows_trans [OF daemon_follows_trans [OF a b] tab_command_follows, of env cmd] show ?thesis
      by (simp add: tab_cost_def)
  qed
qed

text \<open>C29: tabs keep their identity while the browser runs, that is from one start of a browser manager to
  the \<open>close\<close> or \<open>launch\<close> that ends it (the next manager numbers its tabs from \<open>t1\<close> again). The turns
  between may be any sequence of drained browser events, of \<open>tab_list\<close>, \<open>tab_new\<close>, \<open>tab_switch\<close>,
  \<open>tab_close\<close>, \<open>window_new\<close>, \<open>navigate\<close>, \<open>click\<close> with and without \<open>--new-tab\<close> and \<open>recording_start\<close>, and of
  commands whose handlers only read the manager, whatever they do otherwise; left out are \<open>auth_login\<close>,
  \<open>diff_url\<close> and \<open>vitals\<close>, and \<open>confirm\<close> counts as the command it runs. As long as the 32-bit
  identifiers do not run out, the open tabs have distinct positive identifiers and distinct valid
  labels, the active index points to a tab whenever one is open, and an identifier that was given out
  earlier still names the same tab, with the same label, target and session, or no tab at all.\<close>

theorem tabs_keep_their_identity:
  assumes "td_browser st = Some m" and "tabs_ok m"
    and "\<forall>rc \<in> set rcs. \<forall>cmd. snd rc = Some cmd \<longrightarrow> keeps_manager (unwrap_or [] (get_str cmd ''action''))"
    and "unat (bm_next_tab_id m) + sum_list (map tab_cost rcs) < 2 ^ 32"
  shows "\<exists>m'. td_browser (fold (tab_step env) rcs st) = Some m' \<and> tabs_ok m'
     \<and> (\<forall>p \<in> set (bm_pages m'). pg_tab_id p < bm_next_tab_id m \<longrightarrow>
          (pg_tab_id p, pg_label p, pg_target_id p, pg_session_id p)
            \<in> (\<lambda>q. (pg_tab_id q, pg_label q, pg_target_id q, pg_session_id q)) ` set (bm_pages m))"
  using daemon_follows_fold [of tab_cost "tab_step env", OF tab_step_follows, of rcs st] assms
  by (auto simp: daemon_follows_def tabs_follow_def tab_key_def [abs_def])

subsubsection \<open>An example browser\<close>

text \<open>It opens the target \<open>T<n>\<close> in the session \<open>S<n>\<close> and counts what it is asked; scripts give a
  text.\<close>

definition example_browser :: "nat cdp_env" where
  "example_browser =
     \<lparr>cd_send = (\<lambda>method params sid n.
        (Inr (if method = ''Target.createTarget'' then json_obj [(''targetId'', JStr (CHR ''T'' # show_nat n))]
              else if method = ''Target.attachToTarget'' then json_obj [(''sessionId'', JStr (CHR ''S'' # show_nat n))]
              else if method = ''Runtime.evaluate''
              then json_obj [(''result'', json_obj [(''type'', JStr ''string''), (''value'', JStr ''x'')])]
              else JNull), Suc n)),
      cd_serde = sample_serde, cd_wait = (\<lambda>wu sid n. (Inr (), n)), cd_url = (\<lambda>u. None)\<rparr>"

definition example_tab_env :: "nat tab_env" where
  "example_tab_env = cdp_env.extend example_browser
     \<lparr>te_net = sample_net, te_f64 = (\<lambda>n. 0), te_millis = (\<lambda>n. (n, n)), te_console = (\<lambda>l t a n. n),
      te_page_error = (\<lambda>x n. n), te_filter_script = (\<lambda>d. []),
      te_resolve = (\<lambda>sid sel refs fr n. (Inr (''o'', sid), n)), te_click = (\<lambda>sid sel b k refs fr n. (Inr (), n)),
      te_recording = (\<lambda>p sid n. (Inr JNull, n)), te_download_path = None, te_ignore_https_errors = False,
      te_handler = (\<lambda>a cmd st. (Inr JNull, st\<lparr>td_refs := ref_map_new\<rparr>))\<rparr>"

definition example_tabs :: browser_manager where
  "example_tabs =
     \<lparr>bm_pages = [\<lparr>pg_tab_id = 1, pg_label = None, pg_target_id = ''A'', pg_session_id = ''a'', pg_url = [], pg_title = [],
                   pg_type = ''page''\<rparr>,
                  \<lparr>pg_tab_id = 2, pg_label = Some ''docs'', pg_target_id = ''B'', pg_session_id = ''b'', pg_url = [],
                   pg_title = [], pg_type = ''page''\<rparr>],
      bm_active = 0, bm_next_tab_id = 3, bm_visited = {}\<rparr>"

definition example_tab_daemon :: "nat tab_daemon" where
  "example_tab_daemon =
     \<lparr>td_browser = Some example_tabs, td_refs = ref_map_new, td_iframes = [], td_frame = None, td_viewport = None,
      td_filter = Some [''a.org''], td_view = None, td_origin_headers = [], td_proxy_credentials = False, td_har_recording = False, td_request_tracking = False,
      td_auto_dialog = True, td_tracker = tracker_new, td_har = [], td_requests = [], td_dialog = None,
      td_subscribed = True, td_world = 7\<rparr>"

definition tab_cmd :: "string \<Rightarrow> (string \<times> json) list \<Rightarrow> json" where
  "tab_cmd a args = json_obj ((''action'', JStr a) # args)"

definition example_turns :: "(received list \<times> json option) list" where
  "example_turns =
     [([Received \<lparr>ev_method = ''Target.targetDestroyed'', ev_params = json_obj [(''targetId'', JStr ''A'')], ev_session = None\<rparr>],
       Some (tab_cmd ''tab_new'' [(''label'', JStr ''app'')])),
      ([], Some (tab_cmd ''snapshot'' [])), ([], None),
      ([], Some (tab_cmd ''recording_start'' [(''path'', JStr ''r.webm'')])),
      ([], Some (tab_cmd ''tab_switch'' [(''tabId'', JStr ''docs'')]))]"

lemma example_tabs_ok: "tabs_ok example_tabs"
  by code_simp

theorem tabs_keep_their_identity_witness:
  "tabs_ok example_tabs \<and> unat (bm_next_tab_id example_tabs) + sum_list (map tab_cost example_turns) < 2 ^ 32
   \<and> (\<exists>m'. td_browser (fold (tab_step example_tab_env) example_turns example_tab_daemon) = Some m' \<and> tabs_ok m')"
proof -
  have "td_browser example_tab_daemon = Some example_tabs" by (simp add: example_tab_daemon_def)
  moreover have "unat (bm_next_tab_id example_tabs) + sum_list (map tab_cost example_turns) < 2 ^ 32"
    by (simp add: example_tabs_def example_turns_def tab_cost_def)
  moreover have "\<forall>rc \<in> set example_turns. \<forall>cmd. snd rc = Some cmd \<longrightarrow> keeps_manager (unwrap_or [] (get_str cmd ''action''))"
    by (simp add: example_turns_def tab_cmd_def get_str_def json_get_obj keeps_manager_def)
  ultimately show ?thesis using tabs_keep_their_identity [OF _ example_tabs_ok, of example_tab_daemon] example_tabs_ok
    by blast
qed

subsection \<open>Tabs are found by their names\<close>

lemma label_char: "is_ascii_alphanumeric c \<or> c = CHR ''-'' \<or> c = CHR ''_'' \<Longrightarrow> \<not> is_continuation c \<and> \<not> is_whitespace [c]"
  by (auto simp: is_ascii_alphanumeric_def is_ascii_digit_def is_continuation_def is_whitespace_def white_space_chars_def)

lemma trim_label: "is_valid_label l \<Longrightarrow> trim l = l"
proof -
  assume l: "is_valid_label l"
  then have all: "list_all (\<lambda>d. is_ascii_alphanumeric d \<or> d = CHR ''-'' \<or> d = CHR ''_'') l" and ne: "l \<noteq> []"
    by (auto simp: is_valid_label_def is_ascii_alphabetic_def split: list.splits)
  then have "list_all (\<lambda>c. \<not> is_continuation c) l" "\<not> is_whitespace [hd l]" "\<not> is_whitespace [last l]"
    by (auto simp: list_all_iff label_char)
  with ne show ?thesis by (intro trim_plain) auto
qed

lemma label_not_digits: "is_valid_label l \<Longrightarrow> \<not> list_all is_ascii_digit l"
  by (auto simp: is_valid_label_def is_ascii_alphabetic_def split: list.splits)

lemma parse_label:
  assumes "is_valid_label l" and "tab_digits l = None"
  shows "tab_ref_parse l = Inr (TabLabel l)"
proof -
  from assms(1) have "l \<noteq> []" by (auto simp: is_valid_label_def)
  with assms show ?thesis by (simp add: tab_ref_parse_def trim_label label_not_digits)
qed

lemma valid_tab_id: "is_valid_label (format_tab_id i)"
  using show_nat_digits [of "unat i"]
  by (auto simp: is_valid_label_def format_tab_id_def is_ascii_alphabetic_def is_ascii_alphanumeric_def
      is_ascii_digit_def list_all_iff)

lemma tab_digits_format: "tab_digits (format_tab_id i) = Some (show_nat (unat i))"
  by (simp add: tab_digits_def format_tab_id_def strip_prefix_def starts_with_def show_nat_digits)

lemma parse_format_tab_id:
  assumes "i \<noteq> 0"
  shows "tab_ref_parse (format_tab_id i) = Inr (TabId i)"
proof -
  have "int (unat i) \<le> u32_max" using unsigned_less [of i, where 'a = int] by (simp add: u32_max_def)
  then have "parse_unsigned u32_max (show_nat (unat i)) = Some (unat i)" by (rule parse_unsigned_show_nat)
  moreover have "unat i \<noteq> 0" using assms by (simp add: unat_eq_0)
  moreover have "format_tab_id i \<noteq> []" by (simp add: format_tab_id_def)
  ultimately show ?thesis
    by (simp add: tab_ref_parse_def trim_label [OF valid_tab_id] tab_digits_format)
qed

lemma position_distinct:
  "distinct (map f xs) \<Longrightarrow> i < length xs \<Longrightarrow> position (\<lambda>x. f x = f (xs ! i)) xs = Some i"
proof (induction xs arbitrary: i)
  case (Cons x xs)
  show ?case
  proof (cases i)
    case (Suc k)
    with Cons.prems have "f x \<noteq> f (xs ! k)" using nth_mem [of k xs] by auto
    with Suc Cons show ?thesis by simp
  qed simp
qed simp

lemma find_distinct_label:
  assumes "distinct (List.map_filter pg_label ps)" and "p \<in> set ps" and "pg_label p = Some l"
  shows "List.find (\<lambda>q. pg_label q = Some l) ps = Some p"
  using assms
proof (induction ps)
  case (Cons q qs)
  have "l \<in> set (List.map_filter pg_label qs)" if "p \<in> set qs"
    using that Cons.prems(3) by (force simp: List.map_filter_def)
  with Cons show ?case by (auto simp: List.map_filter_simps split: option.splits)
qed simp

lemma remove_at_filter:
  "distinct (map f xs) \<Longrightarrow> i < length xs \<Longrightarrow> remove_at i xs = filter (\<lambda>x. f x \<noteq> f (xs ! i)) xs"
proof (induction xs arbitrary: i)
  case (Cons x xs)
  show ?case
  proof (cases i)
    case 0
    with Cons.prems have "filter (\<lambda>y. f y \<noteq> f x) xs = xs" by (auto simp: filter_id_conv) (metis imageI)
    with 0 show ?thesis by (simp add: remove_at_def)
  next
    case (Suc k)
    with Cons.prems have "f x \<noteq> f (xs ! k)" using nth_mem [of k xs] by auto
    with Suc Cons show ?thesis by (simp add: remove_at_def)
  qed
qed simp

lemma name_resolves:
  assumes "tabs_ok m" and "p \<in> set (bm_pages m)"
    and "name = format_tab_id (pg_tab_id p) \<or> pg_label p = Some name \<and> tab_digits name = None"
  shows "and_then (tab_ref_parse name) (resolve_tab_ref m) = Inr (pg_tab_id p)"
  using assms(3)
proof
  assume "name = format_tab_id (pg_tab_id p)"
  moreover have "pg_tab_id p \<noteq> 0" using assms by (auto simp: tabs_ok_def list_all_iff)
  ultimately show ?thesis using assms(2)
    by (auto simp: parse_format_tab_id resolve_tab_ref_def has_tab_id_def list_ex_iff)
next
  assume l: "pg_label p = Some name \<and> tab_digits name = None"
  have "is_valid_label name" using assms(1,2) l by (auto simp: tabs_ok_def list_all_iff)
  then show ?thesis using l assms(1,2)
    by (simp add: parse_label resolve_tab_ref_def find_distinct_label tabs_ok_def)
qed

lemma tab_position_nth:
  "tabs_ok m \<Longrightarrow> i < length (bm_pages m) \<Longrightarrow> tab_position m (pg_tab_id (bm_pages m ! i)) = Inr i"
  by (simp add: tab_position_def tabs_ok_def position_distinct)

lemma tab_switch_selects:
  "tab_switch env i m w = (r, m', w') \<Longrightarrow> i < length (bm_pages m) \<Longrightarrow>
     bm_active m' = i \<and> map tab_key (bm_pages m') = map tab_key (bm_pages m)"
  by (auto simp: tab_switch_def Let_def split: prod.splits sum.splits)

lemma tab_close_removes:
  "tab_close env (Some i) m w = (r, m', w') \<Longrightarrow> i < length (bm_pages m) \<Longrightarrow>
     m' = (if length (bm_pages m) \<le> 1 then m else remove_page i m)"
  by (auto simp: tab_close_def Let_def split: prod.splits sum.splits if_splits)

lemma remove_page_active:
  assumes "i < length (bm_pages m)" "bm_active m < length (bm_pages m)" "bm_active m \<noteq> i"
  shows "active_tab_id (remove_page i m) = active_tab_id m"
  using assms
  by (auto simp: active_tab_id_def nth_opt_def remove_page_def update_active_page_after_removal_def
      active_page_index_after_removal_def remove_at_def nth_append min_def)

lemma tab_key_id: "map tab_key ps = map tab_key qs \<Longrightarrow> map pg_tab_id ps = map pg_tab_id qs"
  by (drule arg_cong [of _ _ "map fst"]) (simp add: tab_key_def comp_def)

text \<open>C30: an open tab is found by its identifier, and by its label unless that looks like an
  identifier. Switching by such a name makes exactly this tab the active one, closes none and renames
  none; closing by it removes exactly this tab, unless it is the last one, and leaves the active tab
  active when it is another.\<close>

theorem tabs_are_found_by_name:
  assumes "td_browser st = Some m" and ok: "tabs_ok m" and p: "p \<in> set (bm_pages m)"
    and name: "name = format_tab_id (pg_tab_id p) \<or> pg_label p = Some name \<and> tab_digits name = None"
    and cmd: "get_str cmd ''tabId'' = Some name"
  shows "(\<exists>m'. td_browser (snd (handle_tab_switch env cmd st)) = Some m'
            \<and> active_tab_id m' = Some (pg_tab_id p)
            \<and> map pg_tab_id (bm_pages m') = map pg_tab_id (bm_pages m)
            \<and> map pg_label (bm_pages m') = map pg_label (bm_pages m))
     \<and> (\<exists>m'. td_browser (snd (handle_tab_close env cmd st)) = Some m'
            \<and> (if length (bm_pages m) = 1 then m' = m
               else bm_pages m' = filter (\<lambda>q. pg_tab_id q \<noteq> pg_tab_id p) (bm_pages m)
                 \<and> (active_tab_id m \<noteq> Some (pg_tab_id p) \<longrightarrow> active_tab_id m' = active_tab_id m)))"
proof -
  from p obtain i where i: "i < length (bm_pages m)" "p = bm_pages m ! i" by (auto simp: in_set_conv_nth)
  note found = name_resolves [OF ok p name]
  have pos: "tab_position m (pg_tab_id p) = Inr i" using tab_position_nth [OF ok] i by simp
  have act: "bm_active m < length (bm_pages m)" using ok i by (auto simp: tabs_ok_def)
  obtain r1 m1 w1 where sw: "tab_switch (cdp_env.truncate env) i m (td_world st) = (r1, m1, w1)" by (metis surj_pair)
  have keys: "bm_active m1 = i" "map tab_key (bm_pages m1) = map tab_key (bm_pages m)"
    using tab_switch_selects [OF sw i(1)] by simp_all
  have ids: "map pg_tab_id (bm_pages m1) = map pg_tab_id (bm_pages m)" using keys(2) by (rule tab_key_id)
  have labels: "map pg_label (bm_pages m1) = map pg_label (bm_pages m)"
    using arg_cong [OF keys(2), of "map (fst \<circ> snd)"] by (simp add: tab_key_def comp_def)
  have len: "length (bm_pages m1) = length (bm_pages m)" using arg_cong [OF ids, of length] by simp
  have "active_tab_id m1 = Some (pg_tab_id p)"
    using keys(1) i len nth_map [of i "bm_pages m1" pg_tab_id] nth_map [of i "bm_pages m" pg_tab_id] ids
    by (simp add: active_tab_id_def nth_opt_def)
  moreover have "td_browser (snd (handle_tab_switch env cmd st)) = Some m1"
    using sw by (simp add: handle_tab_switch_def assms(1) cmd found tab_switch_by_id_def pos with_manager_def split: sum.split)
  moreover obtain r2 m2 w2 where cl: "tab_close (cdp_env.truncate env) (Some i) m (td_world st) = (r2, m2, w2)"
    by (metis surj_pair)
  moreover have "td_browser (snd (handle_tab_close env cmd st)) = Some m2"
    using cl by (simp add: handle_tab_close_def assms(1) cmd found tab_close_by_id_def pos with_manager_def)
  moreover have "active_tab_id m2 = active_tab_id m" if "m2 = remove_page i m" "active_tab_id m \<noteq> Some (pg_tab_id p)"
  proof -
    from that(2) act i(2) have "bm_active m \<noteq> i" by (auto simp: active_tab_id_def nth_opt_def)
    with that(1) show ?thesis by (simp add: remove_page_active [OF i(1) act])
  qed
  moreover have "bm_pages (remove_page i m) = filter (\<lambda>q. pg_tab_id q \<noteq> pg_tab_id p) (bm_pages m)"
    using remove_at_filter [of pg_tab_id "bm_pages m" i] ok i by (simp add: tabs_ok_def)
  moreover have "m2 = (if length (bm_pages m) = 1 then m else remove_page i m)"
    using tab_close_removes [OF cl i(1)] i(1) by auto
  ultimately show ?thesis using ids labels by (auto split: if_splits)
qed

theorem tabs_are_found_by_name_witness:
  "td_browser (snd (handle_tab_close example_tab_env (tab_cmd ''tab_close'' [(''tabId'', JStr ''docs'')]) example_tab_daemon))
     \<noteq> None
   \<and> td_browser (snd (handle_tab_switch example_tab_env (tab_cmd ''tab_switch'' [(''tabId'', JStr ''docs'')]) example_tab_daemon))
     \<noteq> None"
proof -
  have st: "td_browser example_tab_daemon = Some example_tabs" by (simp add: example_tab_daemon_def)
  have p: "bm_pages example_tabs ! 1 \<in> set (bm_pages example_tabs)" by (simp add: example_tabs_def)
  have n: "pg_label (bm_pages example_tabs ! 1) = Some ''docs''" "tab_digits ''docs'' = None" by code_simp+
  have c: "get_str (tab_cmd a [(''tabId'', JStr ''docs'')]) ''tabId'' = Some ''docs''" for a
    by (simp add: get_str_def tab_cmd_def json_get_obj)
  show ?thesis
    using tabs_are_found_by_name [OF st example_tabs_ok p disjI2 [OF conjI [OF n]] c] by auto
qed

text \<open>A label may look like an identifier, and then it names the tab with this identifier.\<close>

theorem label_like_an_identifier:
  "i \<noteq> 0 \<Longrightarrow> is_valid_label (format_tab_id i) \<and> tab_ref_parse (format_tab_id i) = Inr (TabId i)"
  by (simp add: valid_tab_id parse_format_tab_id)

subsection \<open>The domain filter and new tabs\<close>

lemma with_manager_filter:
  "with_manager f m (st\<lparr>td_filter := d\<rparr>) = apsnd (td_filter_update (\<lambda>_. d)) (with_manager f m st)"
  by (simp add: with_manager_def split: prod.split)

lemma forget_page_filter: "forget_page (st\<lparr>td_filter := d\<rparr>) = (forget_page st)\<lparr>td_filter := d\<rparr>"
  by (simp add: forget_page_def)

lemma target_event_skips_open:
  assumes "target_event st ev dr = Some dr'" and "tracked st True tid" "tracked st False tid"
    and "tid \<notin> ti_target_id ` set (de_new dr)"
  shows "tid \<notin> ti_target_id ` set (de_new dr')"
  using assms
  by (auto simp: target_event_def Let_def new_target_def split: if_splits option.splits sum.splits prod.splits)

lemma tracked_cong: "td_browser st' = td_browser st \<Longrightarrow> tracked st' u tid = tracked st u tid"
  by (simp add: tracked_def)

lemma drain_loop_skips_open:
  "drain_loop env rs (dr, st) = (dr', st') \<Longrightarrow> tracked st True tid \<Longrightarrow> tracked st False tid
   \<Longrightarrow> tid \<notin> ti_target_id ` set (de_new dr) \<Longrightarrow> tid \<notin> ti_target_id ` set (de_new dr')"
proof (induction env rs "(dr, st)" arbitrary: dr st rule: drain_loop.induct)
  case (2 env ev rs)
  obtain dr1 st1 where one: "drain_one env ev (dr, st) = (dr1, st1)" by (meson surj_pair)
  with 2(2) have run: "drain_loop env rs (dr1, st1) = (dr', st')" by simp
  have same: "td_browser st1 = td_browser st" using drain_one_sel [OF one] by simp
  have "tid \<notin> ti_target_id ` set (de_new dr1)"
    using one 2(3-5) by (auto simp: drain_one_def dest: session_event_sel target_event_skips_open split: option.splits if_splits)
  with 2(1) [OF one run] 2(3,4) show ?case by (simp add: tracked_cong [OF same])
qed auto

text \<open>Opening a tab or a window does not look at the domain filter: the answer, the commands sent to
  the browser and the new state are the same whatever the filter is. Nor do the events install it
  later, since a page that is already known is never among the new ones.\<close>

theorem new_tabs_are_not_filtered:
  "handle_tab_new env cmd (st\<lparr>td_filter := d\<rparr>) = apsnd (td_filter_update (\<lambda>_. d)) (handle_tab_new env cmd st)
   \<and> handle_window_new env cmd (st\<lparr>td_filter := d\<rparr>) = apsnd (td_filter_update (\<lambda>_. d)) (handle_window_new env cmd st)
   \<and> (\<forall>m p. td_browser st = Some m \<and> p \<in> set (bm_pages m) \<longrightarrow>
        pg_target_id p \<notin> ti_target_id ` set (de_new (fst (drain_cdp_events env rs st))))"
proof (intro conjI allI impI)
  show "handle_tab_new env cmd (st\<lparr>td_filter := d\<rparr>) = apsnd (td_filter_update (\<lambda>_. d)) (handle_tab_new env cmd st)"
    by (simp add: handle_tab_new_def with_manager_filter forget_page_filter split: option.split)
  show "handle_window_new env cmd (st\<lparr>td_filter := d\<rparr>) = apsnd (td_filter_update (\<lambda>_. d)) (handle_window_new env cmd st)"
    by (simp add: handle_window_new_def Let_def split: option.split sum.split prod.split)
  fix m p
  assume "td_browser st = Some m \<and> p \<in> set (bm_pages m)"
  then have t: "tracked st True (pg_target_id p)" "tracked st False (pg_target_id p)"
    by (auto simp: tracked_def has_target_def list_ex_iff)
  obtain dr st' where run: "drain_loop env rs (no_events, st) = (dr, st')" by (meson surj_pair)
  from drain_loop_skips_open [OF run t] run
  show "pg_target_id p \<notin> ti_target_id ` set (de_new (fst (drain_cdp_events env rs st)))"
    by (simp add: drain_cdp_events_def no_events_def)
qed

text \<open>The viewport after a switch is read from a field \<open>result\<close>, which the text the script gives
  does not have.\<close>

lemma text_has_no_viewport: "viewport_of sj (JStr s) = None"
  by (simp add: viewport_of_def get_str_def)

end
