(* ===== verification/Page_Wait.thy ===== *)
theory Page_Wait
  imports Browser_Events
begin

section \<open>Waiting for a page\<close>

text \<open>
  \<open>wait_for_lifecycle\<close> and \<open>poll_network_idle\<close> of \<open>agent-browser/src/native/browser.rs\<close>: how a
  navigation waits for an event of its page, or for its network to be quiet. What the receiver of
  events gives is a list of outcomes of \<open>recv\<close>, each with the time in milliseconds at which it is
  there; after the last one nothing comes any more. Processing takes no time of its own.
\<close>

type_synonym timeline = "(nat \<times> received) list"

definition from_session :: "string \<Rightarrow> cdp_event \<Rightarrow> bool" where
  "from_session sid ev \<longleftrightarrow> ev_session ev = Some sid"

subsection \<open>One event\<close>

definition lifecycle_event :: "wait_until \<Rightarrow> string" where
  "lifecycle_event wu = (if wu = DomContentLoaded then ''Page.domContentEventFired'' else ''Page.loadEventFired'')"

fun lifecycle_loop :: "string \<Rightarrow> string \<Rightarrow> nat \<Rightarrow> timeline \<Rightarrow> string + unit" where
  "lifecycle_loop name sid deadline [] = Inl (''Timeout waiting for '' @ name)"
| "lifecycle_loop name sid deadline ((t, r) # rs) =
     (if deadline < t then Inl (''Timeout waiting for '' @ name)
      else case r of
        Received ev \<Rightarrow>
          (if ev_method ev = name \<and> from_session sid ev then Inr () else lifecycle_loop name sid deadline rs)
      | Lagged n \<Rightarrow> lifecycle_loop name sid deadline rs
      | Closed \<Rightarrow> Inl ''Event stream closed'')"

subsection \<open>A quiet network\<close>

text \<open>What an event does to the set of running requests and to the moment the network fell silent.\<close>

definition request_id :: "cdp_event \<Rightarrow> string option" where
  "request_id ev = get_str (ev_params ev) ''requestId''"

definition starts_request :: "cdp_event \<Rightarrow> bool" where
  "starts_request ev \<longleftrightarrow> ev_method ev = ''Network.requestWillBeSent''"

definition ends_request :: "cdp_event \<Rightarrow> bool" where
  "ends_request ev \<longleftrightarrow> ev_method ev = ''Network.loadingFinished'' \<or> ev_method ev = ''Network.loadingFailed''"

definition idle_event :: "nat \<Rightarrow> cdp_event \<Rightarrow> string list \<times> nat option \<Rightarrow> string list \<times> nat option" where
  "idle_event now ev acc =
     (case acc of (pending, idle) \<Rightarrow>
        if starts_request ev
        then (case request_id ev of Some i \<Rightarrow> (List.insert i pending, None) | None \<Rightarrow> (pending, idle))
        else if ends_request ev
        then (case request_id ev of
                Some i \<Rightarrow> (let p = removeAll i pending in (p, if p = [] then Some now else idle))
              | None \<Rightarrow> (pending, idle))
        else if ev_method ev = ''Page.loadEventFired'' \<and> pending = [] then (pending, Some now)
        else (pending, idle))"

text \<open>The end of a round: quiet for 500 milliseconds.\<close>

definition quiet :: "nat \<Rightarrow> nat option \<Rightarrow> bool" where
  "quiet now idle \<longleftrightarrow> (case idle of None \<Rightarrow> False | Some s \<Rightarrow> 500 \<le> now - s)"

text \<open>The loop: a round waits at most 600 milliseconds for the next outcome. The result is the moment
  of the return, or the error when the time is up.\<close>

definition idle_timeout :: string where
  "idle_timeout = ''Timeout waiting for networkidle''"

function idle_loop ::
    "string \<Rightarrow> nat \<Rightarrow> nat \<Rightarrow> string list \<times> nat option \<Rightarrow> timeline \<Rightarrow> string + nat" where
  "idle_loop sid deadline now acc rs =
     (case rs of
        (t, r) # rs' \<Rightarrow>
          (let now' = max now t
           in if now' \<le> now + 600
              then (if deadline < now' then Inl idle_timeout
                    else case r of
                      Received ev \<Rightarrow>
                        (let acc' = (if from_session sid ev then idle_event now' ev acc else acc)
                         in if quiet now' (snd acc') then Inr now' else idle_loop sid deadline now' acc' rs')
                    | Lagged n \<Rightarrow> idle_loop sid deadline now' acc rs'
                    | Closed \<Rightarrow> Inr now')
              else if deadline < now + 600 then Inl idle_timeout
              else (let acc' = (fst acc, if fst acc = [] \<and> snd acc = None then Some (now + 600) else snd acc)
                    in if quiet (now + 600) (snd acc') then Inr (now + 600)
                       else idle_loop sid deadline (now + 600) acc' rs))
      | [] \<Rightarrow>
          (if deadline < now + 600 then Inl idle_timeout
           else (let acc' = (fst acc, if fst acc = [] \<and> snd acc = None then Some (now + 600) else snd acc)
                 in if quiet (now + 600) (snd acc') then Inr (now + 600)
                    else idle_loop sid deadline (now + 600) acc' [])))"
  by pat_completeness auto

termination idle_loop
  by (relation "measure (\<lambda>(sid, deadline, now, acc, rs). length rs + (deadline - now))") auto

declare idle_loop.simps [simp del]

definition poll_network_idle :: "string \<Rightarrow> nat \<Rightarrow> nat \<Rightarrow> timeline \<Rightarrow> string + nat" where
  "poll_network_idle sid now overall_timeout rs = idle_loop sid (now + overall_timeout) now ([], None) rs"

definition wait_for_lifecycle :: "wait_until \<Rightarrow> string \<Rightarrow> nat \<Rightarrow> nat \<Rightarrow> timeline \<Rightarrow> string + unit" where
  "wait_for_lifecycle wu sid now timeout rs =
     (case wu of
        NoWait \<Rightarrow> Inr ()
      | NetworkIdle \<Rightarrow> and_then (poll_network_idle sid now timeout rs) (\<lambda>t. Inr ())
      | _ \<Rightarrow> lifecycle_loop (lifecycle_event wu) sid (now + timeout) rs)"

subsection \<open>What the waiting means\<close>

lemma lifecycle_loop_ok:
  "lifecycle_loop name sid deadline rs = Inr () \<longleftrightarrow>
     (\<exists>before t ev rest. rs = before @ (t, Received ev) # rest \<and> ev_method ev = name \<and> from_session sid ev
        \<and> list_all (\<lambda>(u, r). u \<le> deadline \<and> r \<noteq> Closed) (before @ [(t, Received ev)]))"
  (is "?l rs \<longleftrightarrow> ?r rs")
proof (induction rs)
  case (Cons x rs)
  obtain t r where x: "x = (t, r)" by (meson surj_pair)
  have r: "?r (x # rs) \<longleftrightarrow> t \<le> deadline \<and> r \<noteq> Closed
      \<and> ((\<exists>ev. r = Received ev \<and> ev_method ev = name \<and> from_session sid ev) \<or> ?r rs)"
    (is "_ \<longleftrightarrow> ?ok \<and> _ \<and> (?here \<or> _)")
  proof
    assume "?r (x # rs)"
    then obtain before u ev rest where s: "x # rs = before @ (u, Received ev) # rest" "ev_method ev = name"
      "from_session sid ev" "list_all (\<lambda>(u, r). u \<le> deadline \<and> r \<noteq> Closed) (before @ [(u, Received ev)])" by blast
    show "?ok \<and> r \<noteq> Closed \<and> (?here \<or> ?r rs)"
    proof (cases before)
      case (Cons y ys)
      with s x have "rs = ys @ (u, Received ev) # rest" "list_all (\<lambda>(u, r). u \<le> deadline \<and> r \<noteq> Closed) (ys @ [(u, Received ev)])"
        "?ok" "r \<noteq> Closed" by auto
      with s(2,3) show ?thesis by blast
    qed (use s x in auto)
  next
    assume a: "?ok \<and> r \<noteq> Closed \<and> (?here \<or> ?r rs)"
    then consider "?here" | "?r rs" by blast
    then show "?r (x # rs)"
    proof cases
      case 1
      with a x show ?thesis by (intro exI [of _ "[]"]) auto
    next
      case 2
      then obtain before u ev rest where s: "rs = before @ (u, Received ev) # rest" "ev_method ev = name"
        "from_session sid ev" "list_all (\<lambda>(u, r). u \<le> deadline \<and> r \<noteq> Closed) (before @ [(u, Received ev)])" by blast
      with a x have "x # rs = (x # before) @ (u, Received ev) # rest"
        "list_all (\<lambda>(u, r). u \<le> deadline \<and> r \<noteq> Closed) ((x # before) @ [(u, Received ev)])" by auto
      with s(2,3) show ?thesis by blast
    qed
  qed
  show ?case unfolding r Cons [symmetric] by (cases r) (auto simp: x)
qed simp

text \<open>The requests that run after a list of outcomes.\<close>

fun running :: "string \<Rightarrow> string list \<Rightarrow> timeline \<Rightarrow> string list" where
  "running sid p [] = p"
| "running sid p ((t, Received ev) # rs) =
     running sid (if from_session sid ev then fst (idle_event 0 ev (p, None)) else p) rs"
| "running sid p ((t, r) # rs) = running sid p rs"

definition request_of :: "string \<Rightarrow> received \<Rightarrow> bool" where
  "request_of sid r \<longleftrightarrow>
     (case r of Received ev \<Rightarrow> from_session sid ev \<and> starts_request ev \<and> request_id ev \<noteq> None | _ \<Rightarrow> False)"

lemma idle_event_fst: "fst (idle_event now ev (p, i)) = fst (idle_event 0 ev (p, None))"
  by (auto simp: idle_event_def Let_def split: option.split)

text \<open>While the loop runs: the network is taken as silent only when no request runs, since a moment
  that is neither in the future nor before a request that was seen.\<close>

definition idle_inv :: "nat \<Rightarrow> string list \<times> nat option \<Rightarrow> nat list \<Rightarrow> bool" where
  "idle_inv now acc requests \<longleftrightarrow>
     (\<forall>u \<in> set requests. u \<le> now)
     \<and> (case snd acc of None \<Rightarrow> True | Some s \<Rightarrow> fst acc = [] \<and> s \<le> now \<and> (\<forall>u \<in> set requests. u \<le> s))"

lemma idle_inv_event:
  assumes "idle_inv now acc rq" and "now \<le> now'" and "t \<le> now'"
  shows "idle_inv now' (idle_event now' ev acc) (if starts_request ev \<and> request_id ev \<noteq> None then rq @ [t] else rq)"
  using assms
  by (cases acc)
    (fastforce simp: idle_inv_def idle_event_def Let_def starts_request_def ends_request_def split: option.splits if_splits)

lemma quiet_mono_event:
  "\<not> quiet now i \<Longrightarrow> \<not> quiet now (snd (idle_event now ev (p, i)))"
  by (auto simp: idle_event_def quiet_def Let_def split: option.splits)

lemma idle_event_since:
  "(case i of None \<Rightarrow> True | Some s \<Rightarrow> start \<le> s) \<Longrightarrow> start \<le> now \<Longrightarrow>
   (case snd (idle_event now ev (p, i)) of None \<Rightarrow> True | Some s \<Rightarrow> start \<le> s)"
  by (auto simp: idle_event_def Let_def split: option.splits)

definition idle_end :: "string \<Rightarrow> nat \<Rightarrow> nat list \<Rightarrow> string list \<Rightarrow> nat \<Rightarrow> timeline \<Rightarrow> timeline \<Rightarrow> bool" where
  "idle_end sid start rq p t before rest \<longleftrightarrow>
     list_all (\<lambda>(u, r). u \<le> t) before
     \<and> (before \<noteq> [] \<and> snd (last before) = Closed
        \<or> start + 500 \<le> t \<and> running sid p before = [] \<and> list_all (\<lambda>(u, r). t \<le> u) rest
          \<and> (\<forall>u \<in> set rq. u + 500 \<le> t)
          \<and> list_all (\<lambda>(u, r). request_of sid r \<longrightarrow> u + 500 \<le> t) before)"

lemma quiet_end:
  assumes "quiet t (snd acc)" and "idle_inv t acc rq" and "case snd acc of None \<Rightarrow> True | Some s \<Rightarrow> start \<le> s"
    and "list_all (\<lambda>(u, r). t \<le> u) rest"
  shows "idle_end sid start rq (fst acc) t [] rest"
proof -
  from assms(1) obtain s where s: "snd acc = Some s" "500 \<le> t - s" by (auto simp: quiet_def split: option.splits)
  with assms(2,3) have i: "fst acc = []" "s \<le> t" "\<forall>u \<in> set rq. u \<le> s" "start \<le> s" by (auto simp: idle_inv_def)
  have "u + 500 \<le> t" if "u \<in> set rq" for u using i(2,3) s(2) that by fastforce
  moreover have "start + 500 \<le> t" using i(2,4) s(2) by linarith
  ultimately show ?thesis using i(1) assms(4) by (auto simp: idle_end_def)
qed

lemma idle_end_Cons:
  assumes "idle_end sid start rq' p' t before rest" and "u \<le> t" and "set rq \<subseteq> set rq'"
    and "p' = running sid p [(u, r)]" and "request_of sid r \<Longrightarrow> u \<in> set rq'"
  shows "idle_end sid start rq p t ((u, r) # before) rest"
proof -
  have "running sid p ((u, r) # before) = running sid p' before" using assms(4) by (cases r) auto
  with assms show ?thesis by (auto simp: idle_end_def)
qed

lemma idle_loop_ends:
  "idle_loop sid deadline now acc rs = Inr t \<Longrightarrow> sorted (map fst rs) \<Longrightarrow> idle_inv now acc rq \<Longrightarrow> start \<le> now
   \<Longrightarrow> (case snd acc of None \<Rightarrow> True | Some s \<Rightarrow> start \<le> s)
   \<Longrightarrow> (quiet now (snd acc) \<Longrightarrow> list_all (\<lambda>(u, r). now \<le> u) rs)
   \<Longrightarrow> now \<le> t \<and> t \<le> deadline \<and> (\<exists>before rest. rs = before @ rest \<and> idle_end sid start rq (fst acc) t before rest)"
proof (induction "length rs + (deadline - now)" arbitrary: now acc rs rq rule: less_induct)
  case (less now rs acc rq)
  note run = less.prems(1) and srt = less.prems(2) and inv = less.prems(3) and st = less.prems(4)
    and since = less.prems(5) and q = less.prems(6)
  define acc1 where "acc1 = (fst acc, if fst acc = [] \<and> snd acc = None then Some (now + 600) else snd acc)"
  have wait: "now \<le> t \<and> t \<le> deadline \<and> (\<exists>before rest. rs = before @ rest \<and> idle_end sid start rq (fst acc) t before rest)"
    if late: "list_all (\<lambda>(u, r). now + 600 < u) rs" and time: "\<not> deadline < now + 600"
      and run1: "(if quiet (now + 600) (snd acc1) then Inr (now + 600) else idle_loop sid deadline (now + 600) acc1 rs) = Inr t"
  proof -
    have inv1: "idle_inv (now + 600) acc1 rq" using inv by (fastforce simp: idle_inv_def acc1_def split: option.splits)
    have since1: "case snd acc1 of None \<Rightarrow> True | Some s \<Rightarrow> start \<le> s" using since st by (auto simp: acc1_def)
    have f: "fst acc1 = fst acc" by (simp add: acc1_def)
    show ?thesis
    proof (cases "quiet (now + 600) (snd acc1)")
      case True
      with run1 have t: "t = now + 600" by simp
      have "list_all (\<lambda>(u, r). t \<le> u) rs" using late by (auto simp: list_all_iff t)
      from quiet_end [OF _ _ since1 this] True inv1 have "idle_end sid start rq (fst acc) t [] rs" by (simp add: t f)
      with time show ?thesis by (intro conjI exI [of _ "[]"] exI [of _ rs]) (simp_all add: t)
    next
      case False
      have dec: "length rs + (deadline - (now + 600)) < length rs + (deadline - now)" using time by simp
      have r2: "idle_loop sid deadline (now + 600) acc1 rs = Inr t" using run1 False by simp
      from less.hyps [OF dec r2 srt inv1 _ since1] False st
      have "now + 600 \<le> t \<and> t \<le> deadline \<and> (\<exists>before rest. rs = before @ rest \<and> idle_end sid start rq (fst acc1) t before rest)"
        by simp
      then show ?thesis unfolding f by (elim conjE) (intro conjI, simp_all)
    qed
  qed
  show ?case
  proof (cases rs)
    case Nil
    with run wait show ?thesis
      unfolding idle_loop.simps [of sid deadline now acc rs] by (simp add: acc1_def Let_def split: if_splits)
  next
    case (Cons x rs')
    obtain u r where x: "x = (u, r)" by (meson surj_pair)
    define now' where "now' = max now u"
    have rs: "rs = (u, r) # rs'" using Cons x by simp
    have tail: "sorted (map fst rs')" "list_all (\<lambda>(v, r). u \<le> v) rs'" using srt by (auto simp: rs list_all_iff)
    show ?thesis
    proof (cases "now' \<le> now + 600")
      case False
      then have "now + 600 < u" by (simp add: now'_def)
      with tail(2) have "list_all (\<lambda>(v, r). now + 600 < v) rs" by (auto simp: rs list_all_iff)
      then show ?thesis
        using wait run False unfolding idle_loop.simps [of sid deadline now acc rs]
        by (simp add: rs acc1_def Let_def now'_def split: if_splits)
    next
      case True
      have now': "now \<le> now'" "u \<le> now'" by (simp_all add: now'_def)
      have time: "now' \<le> deadline" and run1: "(case r of
            Received ev \<Rightarrow>
              (let acc' = (if from_session sid ev then idle_event now' ev acc else acc)
               in if quiet now' (snd acc') then Inr now' else idle_loop sid deadline now' acc' rs')
          | Lagged n \<Rightarrow> idle_loop sid deadline now' acc rs'
          | Closed \<Rightarrow> Inr now') = Inr t"
        using run True unfolding idle_loop.simps [of sid deadline now acc rs] now'_def
        by (simp_all add: rs Let_def not_less split: if_splits)
      have inv': "idle_inv now' acc rq" using inv now' by (auto simp: idle_inv_def split: option.splits dest: le_trans)
      have dec: "length rs' + (deadline - now') < length rs + (deadline - now)" using now' rs by simp
      have st': "start \<le> now'" using st now' by simp
      show ?thesis
      proof (cases r)
        case Closed
        with run1 time now' show ?thesis
          by (intro conjI exI [of _ "[(u, r)]"] exI [of _ rs']) (auto simp: rs idle_end_def)
      next
        case (Lagged n)
        have q': "list_all (\<lambda>(v, r). now' \<le> v) rs'" if "quiet now' (snd acc)"
        proof (cases "now \<le> u")
          case False
          then have "now' = now" by (simp add: now'_def)
          with q that False show ?thesis by (simp add: rs)
        qed (use tail(2) in \<open>simp add: now'_def\<close>)
        from run1 Lagged have "idle_loop sid deadline now' acc rs' = Inr t" by simp
        from less.hyps [OF dec this tail(1) inv' st' since q'] obtain before rest where
          "now' \<le> t" "t \<le> deadline" "rs' = before @ rest" "idle_end sid start rq (fst acc) t before rest"
          by blast
        with now' Lagged show ?thesis
          by (intro conjI exI [of _ "(u, r) # before"] exI [of _ rest])
            (auto simp: rs request_of_def intro!: idle_end_Cons)
      next
        case (Received ev)
        define acc2 where "acc2 = (if from_session sid ev then idle_event now' ev acc else acc)"
        define rq2 where "rq2 = (if request_of sid r then rq @ [u] else rq)"
        have inv2: "idle_inv now' acc2 rq2"
          using idle_inv_event [OF inv now', of ev] inv'
          by (cases "from_session sid ev"; cases "starts_request ev"; cases "request_id ev")
            (simp_all add: acc2_def rq2_def request_of_def Received)
        have since2: "case snd acc2 of None \<Rightarrow> True | Some s \<Rightarrow> start \<le> s"
          using idle_event_since [of start "snd acc" now' ev "fst acc"] since st now' by (simp add: acc2_def)
        have f2: "fst acc2 = running sid (fst acc) [(u, r)]"
          using idle_event_fst [of now' ev "fst acc" "snd acc"] by (simp add: acc2_def Received)
        have run2: "(if quiet now' (snd acc2) then Inr now' else idle_loop sid deadline now' acc2 rs') = Inr t"
          using run1 unfolding Received acc2_def Let_def received.case .
        have rest: "\<exists>before rest. now' \<le> t \<and> t \<le> deadline \<and> rs' = before @ rest \<and> idle_end sid start rq2 (fst acc2) t before rest"
        proof (cases "quiet now' (snd acc2)")
          case True
          with run2 have t: "t = now'" by simp
          have "u = now'"
          proof (rule ccontr)
            assume "u \<noteq> now'"
            then have "now' = now" "u < now" by (auto simp: now'_def)
            with q have "\<not> quiet now' (snd acc)" by (auto simp: rs)
            with quiet_mono_event [of now' "snd acc" ev "fst acc"] True show False by (simp add: acc2_def split: if_splits)
          qed
          with tail(2) have "list_all (\<lambda>(v, r). t \<le> v) rs'" by (simp add: t)
          from quiet_end [OF _ _ since2 this] True inv2 time show ?thesis by (intro exI [of _ "[]"] exI [of _ rs']) (simp add: t)
        next
          case False
          with run2 have "idle_loop sid deadline now' acc2 rs' = Inr t" by simp
          from less.hyps [OF dec this tail(1) inv2 st' since2] False show ?thesis by blast
        qed
        then obtain before rest where b: "now' \<le> t" "t \<le> deadline" "rs' = before @ rest" "idle_end sid start rq2 (fst acc2) t before rest"
          by blast
        have "idle_end sid start rq (fst acc) t ((u, r) # before) rest"
          using b(1) now' by (intro idle_end_Cons [OF b(4) _ _ f2]) (auto simp: rq2_def)
        with b now' show ?thesis by (intro conjI exI [of _ "(u, r) # before"] exI [of _ rest]) (auto simp: rs)
      qed
    qed
  qed
qed

text \<open>C32: when the wait for a quiet network succeeds, it does so within its time limit and at least
  half a second after it began, every event that had arrived was looked at, no request of the page
  was running, and the last request had begun half a second before; or else the stream of events was
  closed. Events that the receiver lost are not counted.\<close>

theorem idle_means_quiet:
  assumes "poll_network_idle sid now limit rs = Inr t" and "sorted (map fst rs)"
  shows "t \<le> now + limit \<and> (\<exists>before rest. rs = before @ rest \<and> list_all (\<lambda>(u, r). u \<le> t) before
     \<and> (before \<noteq> [] \<and> snd (last before) = Closed
        \<or> now + 500 \<le> t \<and> running sid [] before = [] \<and> list_all (\<lambda>(u, r). t \<le> u) rest
          \<and> list_all (\<lambda>(u, r). request_of sid r \<longrightarrow> u + 500 \<le> t) before))"
  using idle_loop_ends [of sid "now + limit" now "([], None)" rs t "[]" now] assms
  by (auto simp: poll_network_idle_def idle_end_def idle_inv_def quiet_def)

text \<open>With nothing more to come it returns after two rounds, or fails when a request still runs.\<close>

theorem silent_network_is_idle:
  "poll_network_idle sid now limit [] = (if 1200 \<le> limit then Inr (now + 1200) else Inl idle_timeout)"
  by (simp add: poll_network_idle_def idle_loop.simps quiet_def)

text \<open>A closed stream counts as a quiet network, even with a request running.\<close>

theorem closed_stream_counts_as_idle:
  "poll_network_idle sid now limit
     [(now, Received \<lparr>ev_method = ''Network.requestWillBeSent'', ev_params = json_obj [(''requestId'', JStr i)],
                      ev_session = Some sid\<rparr>), (now, Closed)] = Inr now"
  by (simp add: poll_network_idle_def idle_loop.simps from_session_def idle_event_def starts_request_def request_id_def
      get_str_def json_get_obj quiet_def)

definition example_timeline :: timeline where
  "example_timeline =
     [(10, Received \<lparr>ev_method = ''Network.requestWillBeSent'', ev_params = json_obj [(''requestId'', JStr ''1'')], ev_session = Some ''s''\<rparr>),
      (300, Received \<lparr>ev_method = ''Network.loadingFinished'', ev_params = json_obj [(''requestId'', JStr ''1'')], ev_session = Some ''s''\<rparr>),
      (5000, Lagged 1)]"

lemma example_idle: "poll_network_idle ''s'' 0 25000 example_timeline = Inr 900"
  by (simp add: example_timeline_def poll_network_idle_def idle_loop.simps from_session_def idle_event_def starts_request_def
      ends_request_def request_id_def get_str_def json_get_obj quiet_def)

lemma example_sorted: "sorted (map fst example_timeline)"
  by (simp add: example_timeline_def)

theorem idle_means_quiet_witness:
  "poll_network_idle ''s'' 0 25000 example_timeline = Inr 900 \<and> (900::nat) \<le> 0 + 25000"
  using idle_means_quiet [OF example_idle example_sorted] example_idle by blast

end
