(* ===== verification/Cdp_Client.thy ===== *)
theory Cdp_Client
  imports Browser_Events
begin

section \<open>The connection to the browser\<close>

text \<open>
  \<open>agent-browser/src/native/cdp/client.rs\<close>: commands of any number of callers go over one web socket;
  a reader hands each answer to the command whose identifier it carries and broadcasts the events.
  Callers, reader and timers interleave, so the client is a step relation; a step is one critical
  section of the code. A call is a place in the list \<open>cs_calls\<close>; the table \<open>cs_pending\<close> maps
  identifiers to the calls whose sender it holds. Identifiers are words of 64 bits, and an insertion
  or removal that displaces a sender breaks its channel.
\<close>

subsection \<open>Messages (native/cdp/types.rs)\<close>

record cdp_error =
  xe_code :: "int option"
  xe_message :: string
  xe_data :: "string option"

definition decode_cdp_error :: "json \<Rightarrow> de_error + cdp_error" where
  "decode_cdp_error j =
     and_then (struct_source ''struct CdpError with 3 elements'' [''code'', ''message'', ''data''] j) (\<lambda>src.
     and_then (visit_entries
        (\<lambda>k v. if k = ''code'' then error_of (dec_option dec_i64 v)
               else if k = ''message'' then error_of (dec_string v)
               else if k = ''data'' then error_of (dec_option dec_string v) else None) src) (\<lambda>_.
     and_then (opt_field src ''code'' dec_i64) (\<lambda>c.
     and_then (req_field src ''message'' dec_string) (\<lambda>m.
     and_then (opt_field src ''data'' dec_string) (\<lambda>d.
       Inr \<lparr>xe_code = c, xe_message = m, xe_data = d\<rparr>)))))"

record cdp_message =
  cm_id :: "64 word option"
  cm_result :: "json option"
  cm_error :: "cdp_error option"
  cm_method :: "string option"
  cm_params :: "json option"
  cm_session :: "string option"

definition dec_u64 :: "json \<Rightarrow> de_error + 64 word" where
  "dec_u64 j = and_then (dec_unsigned usize_max ''u64'' j) (\<lambda>n. Inr (of_nat n))"

definition decode_cdp_message :: "json \<Rightarrow> de_error + cdp_message" where
  "decode_cdp_message j =
     and_then (struct_source ''struct CdpMessage with 6 elements''
        [''id'', ''result'', ''error'', ''method'', ''params'', ''sessionId''] j) (\<lambda>src.
     and_then (visit_entries
        (\<lambda>k v. if k = ''id'' then error_of (dec_option dec_u64 v)
               else if k = ''error'' then error_of (dec_option decode_cdp_error v)
               else if k = ''method'' \<or> k = ''sessionId'' then error_of (dec_option dec_string v)
               else None) src) (\<lambda>_.
     and_then (opt_field src ''id'' dec_u64) (\<lambda>i.
     and_then (opt_field src ''result'' dec_value) (\<lambda>r.
     and_then (opt_field src ''error'' decode_cdp_error) (\<lambda>e.
     and_then (opt_field src ''method'' dec_string) (\<lambda>m.
     and_then (opt_field src ''params'' dec_value) (\<lambda>p.
     and_then (opt_field src ''sessionId'' dec_string) (\<lambda>s.
       Inr \<lparr>cm_id = i, cm_result = r, cm_error = e, cm_method = m, cm_params = p, cm_session = s\<rparr>))))))))"

record cdp_request =
  rq_method :: string
  rq_params :: "json option"
  rq_session :: "string option"

text \<open>\<open>CdpCommand\<close> as it is serialised.\<close>

definition cdp_command_json :: "64 word \<Rightarrow> cdp_request \<Rightarrow> json" where
  "cdp_command_json i rq =
     json_obj ([(''id'', json_nat (unat i)), (''method'', JStr (rq_method rq))]
       @ (case rq_params rq of None \<Rightarrow> [] | Some p \<Rightarrow> [(''params'', p)])
       @ (case rq_session rq of None \<Rightarrow> [] | Some s \<Rightarrow> [(''sessionId'', JStr s)]))"

subsection \<open>Frames\<close>

datatype frame = TextFrame string | BinaryFrame string | CloseFrame | PingFrame | PongFrame | BrokenFrame string

text \<open>What the reader makes of a frame: a text, nothing, or the end. \<open>cc_utf8\<close> says which bytes are a
  text; in this model of strings they are the same.\<close>

datatype frame_text = TextOf string | SkipFrame | StopReader

definition frame_text_of :: "(string \<Rightarrow> bool) \<Rightarrow> frame \<Rightarrow> frame_text" where
  "frame_text_of utf8 f =
     (case f of
        TextFrame s \<Rightarrow> TextOf s
      | BinaryFrame b \<Rightarrow> (if utf8 b then TextOf b else SkipFrame)
      | CloseFrame \<Rightarrow> StopReader
      | PingFrame \<Rightarrow> SkipFrame
      | PongFrame \<Rightarrow> SkipFrame
      | BrokenFrame e \<Rightarrow> StopReader)"

record client_codec =
  cc_serde :: serde_json
  cc_utf8 :: "string \<Rightarrow> bool"

definition message_of :: "client_codec \<Rightarrow> string \<Rightarrow> cdp_message option" where
  "message_of env s =
     (case de_str (cc_serde env) s of
        Inl e \<Rightarrow> None
      | Inr j \<Rightarrow> (case decode_cdp_message j of Inl e \<Rightarrow> None | Inr m \<Rightarrow> Some m))"

definition raw_session :: "client_codec \<Rightarrow> string \<Rightarrow> string option" where
  "raw_session env s = (case de_str (cc_serde env) s of Inl e \<Rightarrow> None | Inr j \<Rightarrow> get_str j ''sessionId'')"

definition event_of :: "cdp_message \<Rightarrow> cdp_event option" where
  "event_of m =
     (if cm_id m \<noteq> None then None
      else map_option (\<lambda>method. \<lparr>ev_method = method, ev_params = unwrap_or JNull (cm_params m), ev_session = cm_session m\<rparr>)
             (cm_method m))"

subsection \<open>State\<close>

datatype phase = Unsent | Sent | Done "string + json"

datatype slot = Empty | Filled cdp_message | Broken

record call =
  ca_id :: "64 word"
  ca_request :: cdp_request
  ca_phase :: phase
  ca_slot :: slot

text \<open>The client with what has happened to it so far: \<open>cs_sent\<close>, \<open>cs_received\<close>, \<open>cs_events\<close> and \<open>cs_raw\<close> are logs.
  \<open>cs_events\<close> holds the events in the order in which they are handed to the broadcast channel. That
  channel keeps a bounded number of them: a receiver that falls behind loses the oldest and is told how
  many (\<open>Lagged\<close> of \<open>received\<close> in \<open>Browser_Events\<close>), which is not part of this state.\<close>

record client_state =
  cs_next_id :: "64 word"
  cs_pending :: "64 word \<rightharpoonup> nat"
  cs_calls :: "call list"
  cs_sent :: "json list"
  cs_received :: "cdp_message list"
  cs_events :: "cdp_event list"
  cs_raw :: "(string \<times> string option) list"
  cs_open :: bool

definition connected :: client_state where
  "connected =
     \<lparr>cs_next_id = 1, cs_pending = Map.empty, cs_calls = [], cs_sent = [], cs_received = [], cs_events = [], cs_raw = [],
      cs_open = True\<rparr>"

definition set_slot :: "nat \<Rightarrow> slot \<Rightarrow> client_state \<Rightarrow> client_state" where
  "set_slot k v s = s\<lparr>cs_calls := (cs_calls s)[k := (cs_calls s ! k)\<lparr>ca_slot := v\<rparr>]\<rparr>"

definition set_phase :: "nat \<Rightarrow> phase \<Rightarrow> client_state \<Rightarrow> client_state" where
  "set_phase k v s = s\<lparr>cs_calls := (cs_calls s)[k := (cs_calls s ! k)\<lparr>ca_phase := v\<rparr>]\<rparr>"

text \<open>A sender that leaves the table unused breaks its channel.\<close>

definition drop_sender :: "64 word \<Rightarrow> client_state \<Rightarrow> client_state" where
  "drop_sender i s =
     (case cs_pending s i of
        None \<Rightarrow> s
      | Some k \<Rightarrow> set_slot k Broken (s\<lparr>cs_pending := (cs_pending s)(i := None)\<rparr>))"

definition break_pending :: "client_state \<Rightarrow> client_state" where
  "break_pending s =
     s\<lparr>cs_calls := map (\<lambda>(k, c). if cs_pending s (ca_id c) = Some k then c\<lparr>ca_slot := Broken\<rparr> else c)
          (zip [0..<length (cs_calls s)] (cs_calls s)),
       cs_pending := Map.empty, cs_open := False\<rparr>"

subsection \<open>Steps\<close>

text \<open>The first half of \<open>send_command\<close>: the identifier and the place in the table. An empty session
  is none.\<close>

definition register :: "cdp_request \<Rightarrow> client_state \<Rightarrow> client_state" where
  "register rq s =
     (let i = cs_next_id s; s1 = drop_sender i (s\<lparr>cs_next_id := i + 1\<rparr>);
          rq1 = rq\<lparr>rq_session := (if rq_session rq = Some [] then None else rq_session rq)\<rparr>
      in s1\<lparr>cs_pending := (cs_pending s1)(i \<mapsto> length (cs_calls s1)),
            cs_calls := cs_calls s1 @ [\<lparr>ca_id = i, ca_request = rq1, ca_phase = Unsent, ca_slot = Empty\<rparr>]\<rparr>)"

definition transmit :: "nat \<Rightarrow> client_state \<Rightarrow> client_state" where
  "transmit k s =
     set_phase k Sent (s\<lparr>cs_sent := cs_sent s @ [cdp_command_json (ca_id (cs_calls s ! k)) (ca_request (cs_calls s ! k))]\<rparr>)"

definition dispatch :: "cdp_message \<Rightarrow> client_state \<Rightarrow> client_state" where
  "dispatch m s =
     (case cm_id m of
        Some i \<Rightarrow>
          (case cs_pending s i of
             Some k \<Rightarrow> set_slot k (Filled m) (s\<lparr>cs_pending := (cs_pending s)(i := None)\<rparr>)
           | None \<Rightarrow> s)
      | None \<Rightarrow> (case event_of m of Some ev \<Rightarrow> s\<lparr>cs_events := cs_events s @ [ev]\<rparr> | None \<Rightarrow> s))"

definition read_text :: "client_codec \<Rightarrow> string \<Rightarrow> client_state \<Rightarrow> client_state" where
  "read_text env t s =
     (let s1 = s\<lparr>cs_raw := cs_raw s @ [(t, raw_session env t)]\<rparr>
      in case message_of env t of
           None \<Rightarrow> s1
         | Some m \<Rightarrow> dispatch m (s1\<lparr>cs_received := cs_received s1 @ [m]\<rparr>))"

definition read_frame :: "client_codec \<Rightarrow> frame \<Rightarrow> client_state \<Rightarrow> client_state" where
  "read_frame env f s =
     (case frame_text_of (cc_utf8 env) f of
        TextOf t \<Rightarrow> read_text env t s
      | SkipFrame \<Rightarrow> s
      | StopReader \<Rightarrow> break_pending s)"

text \<open>The second half of \<open>send_command\<close>: what the call gives once its channel has something.\<close>

definition call_result :: "string \<Rightarrow> cdp_message \<Rightarrow> string + json" where
  "call_result method m =
     (case cm_error m of
        Some e \<Rightarrow> Inl (''CDP error ('' @ method @ ''): '' @ xe_message e)
      | None \<Rightarrow> Inr (unwrap_or JNull (cm_result m)))"

definition method_of :: "nat \<Rightarrow> client_state \<Rightarrow> string" where
  "method_of k s = rq_method (ca_request (cs_calls s ! k))"

inductive cdp_step :: "client_codec \<Rightarrow> client_state \<Rightarrow> client_state \<Rightarrow> bool" for env where
  Register: "cdp_step env s (register rq s)"
| Transmit: "k < length (cs_calls s) \<Longrightarrow> ca_phase (cs_calls s ! k) = Unsent \<Longrightarrow> cdp_step env s (transmit k s)"
| TransmitFailed: "k < length (cs_calls s) \<Longrightarrow> ca_phase (cs_calls s ! k) = Unsent \<Longrightarrow>
     cdp_step env s (set_phase k (Done (Inl (''Failed to send CDP command: '' @ e))) s)"
| ReadFrame: "cs_open s \<Longrightarrow> cdp_step env s (read_frame env f s)"
| EndOfStream: "cs_open s \<Longrightarrow> cdp_step env s (break_pending s)"
| Answer: "k < length (cs_calls s) \<Longrightarrow> ca_phase (cs_calls s ! k) = Sent \<Longrightarrow> ca_slot (cs_calls s ! k) = Filled m \<Longrightarrow>
     cdp_step env s (set_phase k (Done (call_result (method_of k s) m)) s)"
| ChannelClosed: "k < length (cs_calls s) \<Longrightarrow> ca_phase (cs_calls s ! k) = Sent \<Longrightarrow> ca_slot (cs_calls s ! k) = Broken \<Longrightarrow>
     cdp_step env s (set_phase k (Done (Inl ''CDP response channel closed'')) s)"
| TimedOut: "k < length (cs_calls s) \<Longrightarrow> ca_phase (cs_calls s ! k) = Sent \<Longrightarrow> ca_slot (cs_calls s ! k) = Empty \<Longrightarrow>
     cdp_step env s (drop_sender (ca_id (cs_calls s ! k))
       (set_phase k (Done (Inl (''CDP command timed out: '' @ method_of k s))) s))"

inductive cdp_reach :: "client_codec \<Rightarrow> nat \<Rightarrow> client_state \<Rightarrow> bool" for env where
  Start: "cdp_reach env 0 connected"
| Step: "cdp_reach env n s \<Longrightarrow> cdp_step env s s' \<Longrightarrow> cdp_reach env (Suc n) s'"

inductive_cases cdp_stepE: "cdp_step env s s'"

subsection \<open>Every answer reaches its own command\<close>

definition client_ok :: "client_state \<Rightarrow> bool" where
  "client_ok s \<longleftrightarrow>
     unat (cs_next_id s) = Suc (length (cs_calls s))
     \<and> (\<forall>k < length (cs_calls s). unat (ca_id (cs_calls s ! k)) = Suc k)
     \<and> (\<forall>i k. cs_pending s i = Some k \<longrightarrow> k < length (cs_calls s) \<and> ca_id (cs_calls s ! k) = i)
     \<and> cs_events s = List.map_filter event_of (cs_received s)"

definition ended_well :: "cdp_message set \<Rightarrow> call \<Rightarrow> bool" where
  "ended_well ms c \<longleftrightarrow>
     (\<forall>m. ca_slot c = Filled m \<longrightarrow> m \<in> ms \<and> cm_id m = Some (ca_id c))
     \<and> (\<forall>r. ca_phase c = Done r \<longrightarrow>
          r = Inl ''CDP response channel closed'' \<or> r = Inl (''CDP command timed out: '' @ rq_method (ca_request c))
          \<or> (\<exists>e. r = Inl (''Failed to send CDP command: '' @ e))
          \<or> (\<exists>m \<in> ms. cm_id m = Some (ca_id c) \<and> r = call_result (rq_method (ca_request c)) m))"

definition calls_ok :: "client_state \<Rightarrow> bool" where
  "calls_ok s \<longleftrightarrow> list_all (ended_well (set (cs_received s))) (cs_calls s)"

lemma set_slot_sel [simp]:
  "cs_next_id (set_slot k v s) = cs_next_id s" "cs_pending (set_slot k v s) = cs_pending s"
  "cs_sent (set_slot k v s) = cs_sent s" "cs_received (set_slot k v s) = cs_received s"
  "cs_events (set_slot k v s) = cs_events s" "length (cs_calls (set_slot k v s)) = length (cs_calls s)"
  by (simp_all add: set_slot_def)

lemma set_phase_sel [simp]:
  "cs_next_id (set_phase k v s) = cs_next_id s" "cs_pending (set_phase k v s) = cs_pending s"
  "cs_sent (set_phase k v s) = cs_sent s" "cs_received (set_phase k v s) = cs_received s"
  "cs_events (set_phase k v s) = cs_events s" "length (cs_calls (set_phase k v s)) = length (cs_calls s)"
  by (simp_all add: set_phase_def)

lemma set_slot_id [simp]: "map ca_id (cs_calls (set_slot k v s)) = map ca_id (cs_calls s)"
  by (cases "k < length (cs_calls s)")
    (auto simp: set_slot_def map_update list_update_same_conv list_update_beyond)

lemma set_phase_id [simp]: "map ca_id (cs_calls (set_phase k v s)) = map ca_id (cs_calls s)"
  by (cases "k < length (cs_calls s)")
    (auto simp: set_phase_def map_update list_update_same_conv list_update_beyond)

lemma break_pending_id [simp]: "map ca_id (cs_calls (break_pending s)) = map ca_id (cs_calls s)"
  by (rule nth_equalityI) (auto simp: break_pending_def)

lemma break_pending_sel [simp]:
  "cs_next_id (break_pending s) = cs_next_id s" "cs_pending (break_pending s) = Map.empty"
  "cs_received (break_pending s) = cs_received s" "cs_events (break_pending s) = cs_events s"
  "length (cs_calls (break_pending s)) = length (cs_calls s)"
  by (simp_all add: break_pending_def)

text \<open>The invariant depends on the identifiers of the calls only.\<close>

lemma client_ok_cong:
  assumes ok: "client_ok s" and ids: "map ca_id (cs_calls s') = map ca_id (cs_calls s)"
    and "cs_next_id s' = cs_next_id s" and pend: "cs_pending s' \<subseteq>\<^sub>m cs_pending s"
    and ev: "cs_events s' = List.map_filter event_of (cs_received s')"
  shows "client_ok s'"
proof -
  have len: "length (cs_calls s') = length (cs_calls s)" using arg_cong [OF ids, of length] by simp
  have "ca_id (cs_calls s' ! k) = ca_id (cs_calls s ! k)" if "k < length (cs_calls s)" for k
    using that len ids nth_map [of k "cs_calls s'" ca_id] nth_map [of k "cs_calls s" ca_id] by simp
  moreover have "k < length (cs_calls s) \<and> ca_id (cs_calls s ! k) = i" if "cs_pending s' i = Some k" for i k
  proof -
    have "cs_pending s i = Some k" using pend that by (metis domI map_le_def)
    with ok show ?thesis by (simp add: client_ok_def)
  qed
  ultimately show ?thesis using ok assms(3) ev len by (simp add: client_ok_def)
qed

lemma drop_sender_sel [simp]:
  "map ca_id (cs_calls (drop_sender i s)) = map ca_id (cs_calls s)" "cs_next_id (drop_sender i s) = cs_next_id s"
  "cs_received (drop_sender i s) = cs_received s" "cs_events (drop_sender i s) = cs_events s"
  "length (cs_calls (drop_sender i s)) = length (cs_calls s)"
  by (auto simp: drop_sender_def split: option.split)

lemma drop_sender_pending: "cs_pending (drop_sender i s) = (cs_pending s)(i := None)"
  by (auto simp: drop_sender_def split: option.split)

lemma upd_map_le: "m(i := None) \<subseteq>\<^sub>m m"
  by (simp add: map_le_def)

lemma client_ok_drop: "client_ok s \<Longrightarrow> client_ok (drop_sender i s)"
  by (rule client_ok_cong [of s]) (simp_all add: drop_sender_pending upd_map_le client_ok_def)

lemma client_ok_phase: "client_ok s \<Longrightarrow> client_ok (set_phase k v s)"
  by (rule client_ok_cong [of s]) (simp_all add: client_ok_def)

lemma client_ok_break: "client_ok s \<Longrightarrow> client_ok (break_pending s)"
  by (rule client_ok_cong [of s]) (simp_all add: client_ok_def)

lemma client_ok_register:
  assumes ok: "client_ok s" and room: "Suc (length (cs_calls s)) < 2 ^ 64 - 1"
  shows "client_ok (register rq s)"
proof -
  define s1 where "s1 = drop_sender (cs_next_id s) (s\<lparr>cs_next_id := cs_next_id s + 1\<rparr>)"
  have nx: "unat (cs_next_id s) = Suc (length (cs_calls s))" using ok by (simp add: client_ok_def)
  have "unat (cs_next_id s + 1) = unat (cs_next_id s) + 1"
    by (subst unat_add_lem [THEN iffD1]) (use nx room in simp_all)
  moreover have len: "length (cs_calls s1) = length (cs_calls s)" by (simp add: s1_def)
  have ids: "ca_id (cs_calls s1 ! k) = ca_id (cs_calls s ! k)" if "k < length (cs_calls s)" for k
  proof -
    have "map ca_id (cs_calls s1) = map ca_id (cs_calls s)" by (simp add: s1_def)
    then show ?thesis using that len nth_map [of k "cs_calls s1" ca_id] nth_map [of k "cs_calls s" ca_id] by simp
  qed
  moreover have "k < length (cs_calls s) \<and> ca_id (cs_calls s ! k) = i" if "cs_pending s1 i = Some k" for i k
  proof -
    have "cs_pending s i = Some k" using that by (simp add: s1_def drop_sender_pending split: if_splits)
    with ok show ?thesis by (simp add: client_ok_def)
  qed
  moreover obtain c where "register rq s = s1\<lparr>cs_pending := (cs_pending s1)(cs_next_id s \<mapsto> length (cs_calls s1)),
      cs_calls := cs_calls s1 @ [c]\<rparr>" "ca_id c = cs_next_id s"
    by (simp add: register_def Let_def s1_def)
  moreover have "cs_next_id s1 = cs_next_id s + 1" "cs_events s1 = cs_events s" "cs_received s1 = cs_received s"
    by (simp_all add: s1_def)
  ultimately show ?thesis using ok nx len
    by (auto simp: client_ok_def nth_append less_Suc_eq dest: less_imp_le)
qed

lemma map_filter_snoc: "List.map_filter f (xs @ [x]) = List.map_filter f xs @ (case f x of None \<Rightarrow> [] | Some y \<Rightarrow> [y])"
  by (simp add: List.map_filter_def split: option.split)

lemma client_ok_dispatch:
  assumes "client_ok s"
  shows "client_ok (dispatch m (s\<lparr>cs_raw := r, cs_received := cs_received s @ [m]\<rparr>))"
  by (rule client_ok_cong [OF assms])
    (use assms in \<open>auto simp: dispatch_def event_of_def map_filter_snoc client_ok_def upd_map_le split: option.split\<close>)

lemma client_ok_read:
  assumes "client_ok s"
  shows "client_ok (read_frame env f s)"
proof -
  note b = client_ok_break [OF assms]
  have t: "client_ok (read_text env t s)" for t
    using client_ok_dispatch [OF assms] client_ok_cong [OF assms, of "s\<lparr>cs_raw := cs_raw s @ [(t, raw_session env t)]\<rparr>"] assms
    by (auto simp: read_text_def Let_def client_ok_def split: option.split)
  show ?thesis using assms b t by (auto simp: read_frame_def split: frame_text.split)
qed

lemma cdp_step_ok:
  assumes "cdp_step env s s'" and "client_ok s" and "Suc (length (cs_calls s)) < 2 ^ 64 - 1"
  shows "client_ok s'"
  using assms(1)
proof cases
  case (Transmit k)
  have "client_ok (s\<lparr>cs_sent := x\<rparr>)" for x using assms(2) by (simp add: client_ok_def)
  with Transmit show ?thesis by (simp add: transmit_def client_ok_phase)
qed (use assms in \<open>simp_all add: client_ok_register client_ok_phase client_ok_read client_ok_drop client_ok_break\<close>)

lemma ended_well_mono: "ended_well ms c \<Longrightarrow> ms \<subseteq> ms' \<Longrightarrow> ended_well ms' c"
  by (fastforce simp: ended_well_def)

lemma list_all_update: "list_all P xs \<Longrightarrow> (k < length xs \<Longrightarrow> P y) \<Longrightarrow> list_all P (xs[k := y])"
  by (cases "k < length xs") (auto simp: list_all_length nth_list_update list_update_beyond)

lemma ended_well_nth: "calls_ok s \<Longrightarrow> k < length (cs_calls s) \<Longrightarrow> ended_well (set (cs_received s)) (cs_calls s ! k)"
  by (simp add: calls_ok_def list_all_length)

lemma ended_well_slot:
  "ended_well ms c \<Longrightarrow> (\<And>m. v = Filled m \<Longrightarrow> m \<in> ms \<and> cm_id m = Some (ca_id c)) \<Longrightarrow> ended_well ms (c\<lparr>ca_slot := v\<rparr>)"
  by (simp add: ended_well_def)

lemma calls_ok_slot:
  assumes ok: "calls_ok s" and v: "\<And>m. v = Filled m \<Longrightarrow> m \<in> set (cs_received s) \<and> cm_id m = Some (ca_id (cs_calls s ! k))"
  shows "calls_ok (set_slot k v s)"
proof -
  have "ended_well (set (cs_received s)) ((cs_calls s ! k)\<lparr>ca_slot := v\<rparr>)" if "k < length (cs_calls s)"
    by (rule ended_well_slot [OF ended_well_nth [OF ok that]]) (rule v)
  with ok show ?thesis by (simp add: calls_ok_def set_slot_def list_all_update)
qed

lemma calls_ok_done:
  assumes "calls_ok s" and "k < length (cs_calls s) \<Longrightarrow> ended_well (set (cs_received s)) ((cs_calls s ! k)\<lparr>ca_phase := v\<rparr>)"
  shows "calls_ok (set_phase k v s)"
  using assms by (auto simp: calls_ok_def set_phase_def intro: list_all_update)

lemma calls_ok_drop: "calls_ok s \<Longrightarrow> calls_ok (drop_sender i s)"
  using calls_ok_slot [of "s\<lparr>cs_pending := p\<rparr>" Broken for p]
  by (auto simp: drop_sender_def calls_ok_def split: option.split)

lemma calls_ok_break: "calls_ok s \<Longrightarrow> calls_ok (break_pending s)"
  by (auto simp: calls_ok_def break_pending_def list_all_length ended_well_def)

lemma calls_ok_register: "calls_ok s \<Longrightarrow> calls_ok (register rq s)"
proof -
  assume "calls_ok s"
  then have "calls_ok (drop_sender (cs_next_id s) (s\<lparr>cs_next_id := cs_next_id s + 1\<rparr>))"
    by (intro calls_ok_drop) (simp add: calls_ok_def)
  then show ?thesis by (simp add: calls_ok_def register_def Let_def ended_well_def)
qed

lemma calls_ok_read_text:
  assumes ok: "calls_ok s" and table: "\<And>i k. cs_pending s i = Some k \<Longrightarrow> ca_id (cs_calls s ! k) = i"
  shows "calls_ok (read_text env t s)"
proof -
  have "calls_ok (dispatch m (s\<lparr>cs_raw := r, cs_received := cs_received s @ [m]\<rparr>))" for m r
  proof -
    have more: "calls_ok (s\<lparr>cs_raw := r, cs_received := cs_received s @ [m], cs_pending := p\<rparr>)"
      "calls_ok (s\<lparr>cs_raw := r, cs_received := cs_received s @ [m], cs_events := e\<rparr>)"
      "calls_ok (s\<lparr>cs_raw := r, cs_received := cs_received s @ [m]\<rparr>)" for p e
      using ok by (auto simp: calls_ok_def list_all_iff intro: ended_well_mono)
    show ?thesis
      using more calls_ok_slot [of "s\<lparr>cs_raw := r, cs_received := cs_received s @ [m], cs_pending := p\<rparr>" "Filled m" for p] table
      by (auto simp: dispatch_def split: option.split)
  qed
  moreover have "calls_ok (s\<lparr>cs_raw := r\<rparr>)" for r using ok by (simp add: calls_ok_def)
  ultimately show ?thesis by (simp add: read_text_def Let_def split: option.split)
qed

lemma cdp_step_calls:
  assumes "cdp_step env s s'" and ok: "client_ok s" and calls: "calls_ok s"
  shows "calls_ok s'"
  using assms(1)
proof cases
  case (Transmit k)
  have "calls_ok (s\<lparr>cs_sent := x\<rparr>)" for x using calls by (simp add: calls_ok_def)
  then show ?thesis unfolding Transmit transmit_def
    by (rule calls_ok_done) (use calls Transmit in \<open>auto dest: ended_well_nth simp: ended_well_def\<close>)
next
  case (ReadFrame f)
  have "calls_ok (read_text env t s)" for t
    by (rule calls_ok_read_text [OF calls]) (use ok in \<open>simp add: client_ok_def\<close>)
  then show ?thesis unfolding ReadFrame using calls calls_ok_break [OF calls]
    by (simp add: read_frame_def split: frame_text.split)
next
  case (Answer k m)
  show ?thesis unfolding Answer
    by (rule calls_ok_done [OF calls])
      (use ended_well_nth [OF calls Answer(2)] Answer in \<open>auto simp: ended_well_def method_of_def\<close>)
next
  case (TimedOut k)
  show ?thesis unfolding TimedOut
    by (rule calls_ok_drop, rule calls_ok_done [OF calls])
      (use ended_well_nth [OF calls TimedOut(2)] in \<open>auto simp: ended_well_def method_of_def\<close>)
next
  case (TransmitFailed k e)
  show ?thesis unfolding TransmitFailed
    by (rule calls_ok_done [OF calls]) (use ended_well_nth [OF calls TransmitFailed(2)] in \<open>auto simp: ended_well_def\<close>)
next
  case (ChannelClosed k)
  show ?thesis unfolding ChannelClosed
    by (rule calls_ok_done [OF calls]) (use ended_well_nth [OF calls ChannelClosed(2)] in \<open>auto simp: ended_well_def\<close>)
qed (use calls in \<open>simp_all add: calls_ok_register calls_ok_break\<close>)

lemma cdp_step_length: "cdp_step env s s' \<Longrightarrow> length (cs_calls s') \<le> Suc (length (cs_calls s))"
  by (erule cdp_step.cases)
    (auto simp: register_def transmit_def read_frame_def read_text_def dispatch_def Let_def
      split: frame_text.split option.split)

lemma cdp_reach_ok:
  "cdp_reach env n s \<Longrightarrow> n < 2 ^ 64 - 2 \<Longrightarrow> client_ok s \<and> calls_ok s \<and> length (cs_calls s) \<le> n"
proof (induction rule: cdp_reach.induct)
  case Start
  then show ?case by (simp add: connected_def client_ok_def calls_ok_def List.map_filter_simps)
next
  case (Step n s s')
  then have "client_ok s" "calls_ok s" "length (cs_calls s) \<le> n" by auto
  then show ?case
    using cdp_step_ok [OF Step(2)] cdp_step_calls [OF Step(2)] cdp_step_length [OF Step(2)] Step.prems by fastforce
qed

text \<open>C31: however callers, timers and frames interleave, and whatever the browser sends: no two
  commands have the same identifier; a command that has ended has the result of a message that came
  with its own identifier, or failed to be sent, timed out, or found the connection closed; and the
  messages handed to the broadcast channel for the subscribers are exactly those that are events, in
  the order in which they came. (What a subscriber gets out of the channel may be less: the channel
  is bounded, and one that falls behind is told how many events it has lost.) This holds until the
  identifiers run out.\<close>

theorem answers_reach_their_command:
  assumes "cdp_reach env n s" and "n < 2 ^ 64 - 2"
  shows "distinct (map ca_id (cs_calls s))
     \<and> list_all (\<lambda>c. \<forall>r. ca_phase c = Done r \<longrightarrow>
          r = Inl ''CDP response channel closed'' \<or> r = Inl (''CDP command timed out: '' @ rq_method (ca_request c))
          \<or> (\<exists>e. r = Inl (''Failed to send CDP command: '' @ e))
          \<or> (\<exists>m \<in> set (cs_received s). cm_id m = Some (ca_id c) \<and> r = call_result (rq_method (ca_request c)) m)) (cs_calls s)
     \<and> cs_events s = List.map_filter event_of (cs_received s)"
proof -
  from cdp_reach_ok [OF assms] have ok: "client_ok s" "calls_ok s" by auto
  have "i = j" if "i < length (cs_calls s)" "j < length (cs_calls s)" "ca_id (cs_calls s ! i) = ca_id (cs_calls s ! j)" for i j
    using ok(1) that by (metis client_ok_def Suc_inject)
  then have "distinct (map ca_id (cs_calls s))" by (auto simp: distinct_conv_nth)
  with ok show ?thesis by (auto simp: client_ok_def calls_ok_def ended_well_def list_all_iff)
qed

text \<open>No sent command waits for ever: whatever the browser does, the call itself can end.\<close>

theorem sent_command_can_end:
  assumes "k < length (cs_calls s)" and "ca_phase (cs_calls s ! k) = Sent"
  shows "\<exists>s' r. cdp_step env s s' \<and> ca_phase (cs_calls s' ! k) = Done r"
proof -
  have phase: "ca_phase (cs_calls (set_phase k v s) ! k) = v" for v using assms by (simp add: set_phase_def)
  have drop: "ca_phase (cs_calls (drop_sender i t) ! k) = ca_phase (cs_calls t ! k)" if "k < length (cs_calls t)" for i t
  proof (cases "cs_pending t i")
    case (Some a)
    with that show ?thesis by (cases "a = k") (simp_all add: drop_sender_def set_slot_def)
  qed (simp add: drop_sender_def)
  show ?thesis
  proof (cases "ca_slot (cs_calls s ! k)")
    case Empty
    show ?thesis using cdp_step.TimedOut [OF assms Empty] phase drop assms(1) by (metis set_phase_sel(6))
  next
    case (Filled m)
    show ?thesis using cdp_step.Answer [OF assms Filled] phase by blast
  next
    case Broken
    show ?thesis using cdp_step.ChannelClosed [OF assms Broken] phase by blast
  qed
qed

text \<open>A command that could not be sent leaves its sender in the table.\<close>

theorem failed_send_stays_pending:
  "cs_pending (set_phase k (Done (Inl (''Failed to send CDP command: '' @ e))) s) = cs_pending s"
  by simp

text \<open>An example: one command and its answer.\<close>

definition example_codec :: client_codec where
  "example_codec =
     \<lparr>cc_serde = sample_serde\<lparr>de_str := (\<lambda>s. Inr (json_obj [(''id'', JNum (PosInt 1)), (''result'', JStr s)]))\<rparr>, cc_utf8 = (\<lambda>b. True)\<rparr>"

definition example_request :: cdp_request where
  "example_request = \<lparr>rq_method = ''Page.enable'', rq_params = None, rq_session = Some ''S''\<rparr>"

definition example_client :: client_state where
  "example_client = read_frame example_codec (TextFrame ''x'') (transmit 0 (register example_request connected))"

lemma example_reach:
  "cdp_reach example_codec 4 (set_phase 0 (Done (Inr (JStr ''x''))) example_client)"
proof -
  have call: "0 < length (cs_calls (register example_request connected))"
    "ca_phase (cs_calls (register example_request connected) ! 0) = Unsent" by code_simp+
  have up: "cs_open (transmit 0 (register example_request connected))" by code_simp
  have "cdp_reach example_codec (Suc (Suc (Suc 0))) example_client"
    unfolding example_client_def
    by (rule cdp_reach.Step [OF cdp_reach.Step [OF cdp_reach.Step [OF cdp_reach.Start cdp_step.Register]
          cdp_step.Transmit [OF call]] cdp_step.ReadFrame [OF up]])
  moreover have calls: "cs_calls example_client =
      [\<lparr>ca_id = 1, ca_request = example_request, ca_phase = Sent,
        ca_slot = Filled \<lparr>cm_id = Some 1, cm_result = Some (JStr ''x''), cm_error = None, cm_method = None, cm_params = None,
          cm_session = None\<rparr>\<rparr>]"
    by code_simp
  moreover have "cdp_step example_codec example_client (set_phase 0 (Done (call_result (method_of 0 example_client)
      \<lparr>cm_id = Some 1, cm_result = Some (JStr ''x''), cm_error = None, cm_method = None, cm_params = None, cm_session = None\<rparr>))
      example_client)"
    by (rule cdp_step.Answer) (simp_all add: calls)
  ultimately show ?thesis by (auto simp: call_result_def numeral_eq_Suc dest: cdp_reach.Step)
qed

theorem answers_reach_their_command_witness:
  "cdp_reach example_codec 4 (set_phase 0 (Done (Inr (JStr ''x''))) example_client)
   \<and> distinct (map ca_id (cs_calls (set_phase 0 (Done (Inr (JStr ''x''))) example_client)))"
proof -
  have "(4::nat) < 2 ^ 64 - 2" by simp
  from answers_reach_their_command [OF example_reach this] example_reach show ?thesis by blast
qed

end
